(* ===== verification/Prelude.thy ===== *)
theory Prelude
  imports Main "HOL-Library.Word"
begin

text \<open>
  Shared vocabulary of the development.

  \<^item> Rust's unsigned machine integers are words of their width; signed temperatures are
    \<open>int\<close> where the source widens before it subtracts.
  \<^item> The arithmetic helpers of \<open>core\<close> that the firmware calls: saturating subtraction
    and addition, \<open>clamp\<close>, \<open>is_multiple_of\<close>, \<open>div_ceil\<close>, little-endian byte
    conversion.
  \<^item> The iterator adaptors the firmware calls on its fixed arrays: \<open>flatten\<close>,
    \<open>position\<close>, \<open>max_by\<close>, \<open>min_by\<close> and the keep-the-best loop.
  \<^item> A panic is the value \<open>Panic\<close> of the type \<open>'a rust\<close>.
  \<^item> Two interfaces several components share: a strict preference (which candidate wins a
    keep-the-best loop) and a machine whose steps keep an invariant.
\<close>

unbundle bit_operations_syntax

type_synonym u8 = "8 word"
type_synonym u16 = "16 word"
type_synonym u32 = "32 word"
type_synonym u64 = "64 word"
type_synonym u128 = "128 word"

named_theorems mask_simps \<open>a masked word as the low bits it keeps\<close>
named_theorems word_nat \<open>word facts moved to the natural numbers\<close>

section \<open>Machine arithmetic\<close>

definition sat_sub :: "'a::len word \<Rightarrow> 'a word \<Rightarrow> 'a word" where
  "sat_sub a b = (if b \<le> a then a - b else 0)"

definition sat_add :: "'a::len word \<Rightarrow> 'a word \<Rightarrow> 'a word" where
  "sat_add a b = (if a + b < a then - 1 else a + b)"

definition clamp :: "'a::linorder \<Rightarrow> 'a \<Rightarrow> 'a \<Rightarrow> 'a" where
  "clamp lo hi x = (if x < lo then lo else if hi < x then hi else x)"

definition is_multiple_of :: "'a::len word \<Rightarrow> 'a word \<Rightarrow> bool" where
  "is_multiple_of x m = (if m = 0 then x = 0 else x mod m = 0)"

definition div_ceil :: "'a::len word \<Rightarrow> 'a word \<Rightarrow> 'a word" where
  "div_ceil x y = (let q = x div y in if x mod y = 0 then q else q + 1)"

lemma unat_bound: "unat (x :: 'a::len word) < 2 ^ LENGTH('a)"
  by (rule unsigned_less)

lemmas word_order_nat = word_le_nat_alt word_less_nat_alt

lemma unat_ucast_small:
  "unat w < 2 ^ LENGTH('b) \<Longrightarrow> unat (ucast (w :: 'a::len word) :: 'b::len word) = unat w"
  by (simp add: unsigned_ucast_eq take_bit_nat_eq_self)

lemma unat_ucast_up:
  "LENGTH('a) \<le> LENGTH('b) \<Longrightarrow> unat (ucast (w :: 'a::len word) :: 'b::len word) = unat w"
proof (rule unat_ucast_small)
  assume "LENGTH('a) \<le> LENGTH('b)"
  then have "(2 :: nat) ^ LENGTH('a) \<le> 2 ^ LENGTH('b)" by (rule power_increasing) simp
  then show "unat w < 2 ^ LENGTH('b)" using unat_bound [of w] by linarith
qed

lemma unat_sat_sub [word_nat]: "unat (sat_sub a b) = unat a - unat b"
  by (auto simp: sat_sub_def unat_sub word_le_nat_alt)

lemma word_add_overflows_iff: "a + b < a \<longleftrightarrow> 2 ^ LENGTH('a) \<le> unat a + unat b" for a b :: "'a::len word"
proof -
  have wrap: "((if x + y < n then x + y else x + y - n) < x) = (n \<le> x + y)" if "x < n" "y < n" for x y n :: nat
    using that by auto
  show ?thesis
    unfolding word_less_nat_alt unat_plus_if' by (rule wrap [OF unat_bound unat_bound])
qed

lemma unat_sat_add [word_nat]:
  "unat (sat_add a b) = min (unat a + unat b) (2 ^ LENGTH('a) - 1)" for a b :: "'a::len word"
  by (auto simp: sat_add_def word_add_overflows_iff unat_plus_if' unsigned_minus_1_eq_mask
      mask_eq_exp_minus_1)

lemma sat_sub_le: "sat_sub a b \<le> a"
  by (simp add: word_le_nat_alt unat_sat_sub)

lemma clamp_bounds: "lo \<le> hi \<Longrightarrow> lo \<le> clamp lo hi x \<and> clamp lo hi x \<le> hi"
  by (auto simp: clamp_def)

lemma clamp_id [simp]: "lo \<le> x \<Longrightarrow> x \<le> hi \<Longrightarrow> clamp lo hi x = x"
  by (auto simp: clamp_def)

lemma is_multiple_of_iff [word_nat]: "is_multiple_of x m \<longleftrightarrow> unat m dvd unat x"
proof (cases "m = 0")
  case False
  then show ?thesis
    by (simp add: is_multiple_of_def unat_mod_distrib dvd_eq_mod_eq_0
        flip: unat_eq_0)
qed (simp add: is_multiple_of_def unat_eq_0)

lemma unat_div_ceil [word_nat]:
  assumes "0 < unat y"
  shows "unat (div_ceil x y) = (unat x + unat y - 1) div unat y"
proof -
  let ?q = "unat x div unat y" and ?r = "unat x mod unat y"
  have r: "?r < unat y" using assms by simp
  have x: "unat x = ?q * unat y + ?r" by simp
  show ?thesis
  proof (cases "?r = 0")
    case True
    have "unat x + unat y - 1 = (unat y - 1) + ?q * unat y"
      using assms True x by linarith
    then have "(unat x + unat y - 1) div unat y = ?q"
      using assms by (simp only: div_mult_self1) simp
    then show ?thesis
      using True by (simp add: div_ceil_def Let_def unat_div unat_mod_distrib flip: unat_eq_0)
  next
    case False
    have "1 < unat y" using False r by linarith
    then have "?q < unat x" using False x by (cases "unat x = 0") auto
    then have small: "?q + 1 < 2 ^ LENGTH('a)"
      using unat_bound [of x] by linarith
    have "unat x + unat y - 1 = (?r - 1) + (?q + 1) * unat y"
      using x False assms by (simp only: distrib_right)
    moreover have "(?r - 1) div unat y = 0" using r by simp
    ultimately have "(unat x + unat y - 1) div unat y = ?q + 1"
      using assms by (simp only: div_mult_self1)
    then show ?thesis
      using False small
      by (simp add: div_ceil_def Let_def unat_div unat_mod_distrib unat_word_ariths
          flip: unat_eq_0)
  qed
qed

lemma ceil_div_mult_ge: "0 < y \<Longrightarrow> (n :: nat) \<le> (n + y - 1) div y * y"
proof -
  assume y: "0 < y"
  have "n + y - 1 < (n + y - 1) div y * y + y"
    using y mod_less_divisor [OF y, of "n + y - 1"] div_mult_mod_eq [of "n + y - 1" y] by linarith
  then show ?thesis using y by linarith
qed

lemma ceil_div_le_iff: "0 < y \<Longrightarrow> (n + y - 1) div y \<le> m \<longleftrightarrow> (n :: nat) \<le> m * y"
proof -
  assume y: "0 < y"
  have "(n + y - 1) div y \<le> m \<longleftrightarrow> n + y - 1 < Suc m * y"
    using y by (metis less_Suc_eq_le div_less_iff_less_mult)
  also have "\<dots> \<longleftrightarrow> n \<le> m * y" using y by auto
  finally show ?thesis .
qed

lemma unat_div_mult [word_nat]:
  "unat (x div m * m) = unat x div unat m * unat (m :: 'a::len word)"
proof -
  have "unat x div unat m * unat m < 2 ^ LENGTH('a)"
    using unat_bound [of x] div_times_less_eq_dividend [of "unat x" "unat m"] by linarith
  then show ?thesis by (simp add: unat_mult_lem [THEN iffD1] unat_div)
qed

lemma word_mult_div_aligned: "is_multiple_of (x div m * m) (m :: 'a::len word)"
  by (simp add: is_multiple_of_iff unat_div_mult)

lemma word_div_mult_le: "x div m * m \<le> (x :: 'a::len word)"
  by (simp add: word_le_nat_alt unat_div_mult)

section \<open>Bit fields and bytes\<close>

lemma and_mask_numerals [mask_simps]:
  "w AND 3 = take_bit 2 (w :: 'a::len word)"
  "w AND 7 = take_bit 3 w"
  "w AND 15 = take_bit 4 w"
  "w AND 31 = take_bit 5 w"
  "w AND 127 = take_bit 7 w"
  "w AND 255 = take_bit 8 w"
  "w AND 511 = take_bit 9 w"
  "w AND 1023 = take_bit 10 w"
  "w AND 4095 = take_bit 12 w"
  "w AND 524287 = take_bit 19 w"
  by (simp_all add: take_bit_eq_mask mask_eq_exp_minus_1)

lemma unat_take_bit_less: "unat (take_bit n (w :: 'a::len word)) < 2 ^ n"
proof -
  have "unat (take_bit n w) = take_bit n (unat w)" by (simp add: unsigned_take_bit_eq)
  then show ?thesis by simp
qed

lemma take_bit_small: "unat w < 2 ^ n \<Longrightarrow> take_bit n (w :: 'a::len word) = w"
  by (rule unsigned_word_eqI [where 'a = nat]) (simp add: unsigned_take_bit_eq take_bit_nat_eq_self)

definition to_le_bytes :: "nat \<Rightarrow> 'a::len word \<Rightarrow> u8 list" where
  "to_le_bytes n w = map (\<lambda>i. ucast (drop_bit (8 * i) w)) [0..<n]"

fun from_le_bytes :: "u8 list \<Rightarrow> 'a::len word" where
  "from_le_bytes [] = 0"
| "from_le_bytes (b # bs) = ucast b OR push_bit 8 (from_le_bytes bs)"

lemma length_to_le_bytes [simp]: "length (to_le_bytes n w) = n"
  by (simp add: to_le_bytes_def)

lemma nth_to_le_bytes [simp]: "i < n \<Longrightarrow> to_le_bytes n w ! i = ucast (drop_bit (8 * i) w)"
  by (simp add: to_le_bytes_def)

lemma bit_from_le_bytes:
  "bit (from_le_bytes bs :: 'a::len word) i \<longleftrightarrow>
     i < LENGTH('a) \<and> i div 8 < length bs \<and> bit (bs ! (i div 8)) (i mod 8)"
proof (induction bs arbitrary: i)
  case Nil
  then show ?case by simp
next
  case (Cons b bs)
  show ?case
  proof (cases "i < 8")
    case True
    then show ?thesis by (auto simp: bit_simps)
  next
    case False
    then obtain j where j: "i = j + 8" by (metis add.commute le_Suc_ex linorder_not_less)
    have "\<not> bit b i" using False by (auto dest: bit_imp_le_length)
    moreover have d: "i div 8 = Suc (j div 8)" "i mod 8 = j mod 8" using j by simp_all
    moreover have "(b # bs) ! (i div 8) = bs ! (j div 8)" by (simp only: d nth_Cons_Suc)
    ultimately show ?thesis
      using j Cons.IH [of j] by (auto simp: bit_simps)
  qed
qed

lemma from_to_le_bytes:
  "from_le_bytes (to_le_bytes n w) = take_bit (8 * n) (w :: 'a::len word)"
proof (rule bit_word_eqI)
  fix i assume i: "i < LENGTH('a)"
  have "8 * (i div 8) + i mod 8 = i" by simp
  moreover have "i div 8 < n \<longleftrightarrow> i < 8 * n" by auto
  ultimately show "bit (from_le_bytes (to_le_bytes n w) :: 'a word) i = bit (take_bit (8 * n) w) i"
    using i by (auto simp: bit_from_le_bytes bit_simps)
qed

lemma to_from_le_bytes:
  assumes "length bs = n" "8 * n \<le> LENGTH('a)"
  shows "to_le_bytes n (from_le_bytes bs :: 'a::len word) = bs"
proof (rule nth_equalityI)
  show "length (to_le_bytes n (from_le_bytes bs :: 'a word)) = length bs"
    using assms by simp
next
  fix i assume "i < length (to_le_bytes n (from_le_bytes bs :: 'a word))"
  then have i: "i < n" by simp
  show "to_le_bytes n (from_le_bytes bs :: 'a word) ! i = bs ! i"
  proof (rule bit_word_eqI)
    fix k assume k: "k < LENGTH(8)"
    then have "(8 * i + k) div 8 = i" "(8 * i + k) mod 8 = k" "8 * i + k < LENGTH('a)"
      using i assms(2) by simp_all
    then show "bit (to_le_bytes n (from_le_bytes bs :: 'a word) ! i) k = bit (bs ! i) k"
      using i k assms(1) by (simp add: bit_simps bit_from_le_bytes)
  qed
qed

lemma to_le_bytes_4: "to_le_bytes 4 (w :: u32) =
    [ucast w, ucast (drop_bit 8 w), ucast (drop_bit 16 w), ucast (drop_bit 24 w)]"
  by (simp add: to_le_bytes_def upt_rec)

lemma from_to_le_bytes_full [simp]:
  "from_le_bytes (to_le_bytes 4 (w :: u32)) = w"
  "from_le_bytes (to_le_bytes 2 (v :: u16)) = v"
  by (simp_all add: from_to_le_bytes take_bit_word_eq_self)

text \<open>Concatenation of bit fields: the low \<open>n\<close> bits of one word, then another.\<close>

definition cat :: "nat \<Rightarrow> 'a::len word \<Rightarrow> 'a word \<Rightarrow> 'a word" where
  "cat n a b = take_bit n a OR push_bit n b"

lemma cat_low: "m \<le> n \<Longrightarrow> take_bit m (cat n a b) = take_bit m a"
  by (rule bit_word_eqI) (auto simp: cat_def bit_simps)

lemma cat_high:
  "n \<le> k \<Longrightarrow> k + m \<le> LENGTH('a) \<Longrightarrow> take_bit m (drop_bit k (cat n a b)) = take_bit m (drop_bit (k - n) (b :: 'a::len word))"
  by (rule bit_word_eqI) (auto simp: cat_def bit_simps)

lemma cat_small: "take_bit n a = a \<Longrightarrow> cat n a b = a OR push_bit n b"
  by (simp add: cat_def)

lemma take_cat: "n \<le> m \<Longrightarrow> take_bit m (cat n a b) = cat n a (take_bit (m - n) b)"
  by (rule bit_word_eqI) (auto simp: cat_def bit_simps)

lemma from_le_bytes_zeros: "from_le_bytes (bs @ replicate n 0) = (from_le_bytes bs :: 'a::len word)"
  by (rule bit_word_eqI) (auto simp: bit_from_le_bytes nth_append)
lemma take_to_le_bytes: "n \<le> m \<Longrightarrow> take n (to_le_bytes m w) = to_le_bytes n w"
  by (simp add: to_le_bytes_def take_map)

lemma ucast_ucast_back: "LENGTH('a) \<le> LENGTH('b) \<Longrightarrow> ucast (ucast (w :: 'a::len word) :: 'b::len word) = w"
  by (rule bit_word_eqI) (auto simp: bit_simps)

lemma take_bit_ucast: "n \<le> LENGTH('b) \<Longrightarrow> take_bit n (ucast (w :: 'a::len word) :: 'b::len word) = ucast (take_bit n w)"
  by (rule bit_word_eqI) (auto simp: bit_simps dest: bit_imp_le_length)

lemma aligned_div_mult: "is_multiple_of x m \<Longrightarrow> x div m * m = (x :: 'a::len word)"
  by (cases "m = 0") (auto simp: is_multiple_of_def minus_mod_eq_div_mult [symmetric])

lemma field_fits: "unat (w :: 'a::len word) < 2 ^ n \<Longrightarrow> LENGTH('a) \<le> LENGTH('b) \<Longrightarrow> take_bit n (ucast w :: 'b::len word) = ucast w"
  by (rule take_bit_small) (simp add: unat_ucast_up)

lemma length_concat_fixed: "length (concat (map (\<lambda>x. to_le_bytes n (f x)) xs)) = length xs * n"
  by (induction xs) auto

lemma concat_chunk_fixed:
  "i < length xs \<Longrightarrow> take n (drop (i * n) (concat (map (\<lambda>x. to_le_bytes n (f x)) xs))) = to_le_bytes n (f (xs ! i))"
proof (induction xs arbitrary: i)
  case (Cons x xs)
  then show ?case by (cases i) simp_all
qed simp

lemma to_le_bytes_2: "to_le_bytes 2 (w :: u16) = [ucast w, ucast (drop_bit 8 w)]"
  by (simp add: to_le_bytes_def upt_conv_Cons)

lemma le_pair [simp]: "from_le_bytes [ucast w, ucast (drop_bit 8 w)] = (w :: u16)"
  by (simp only: to_le_bytes_2 [symmetric] from_to_le_bytes_full)

text \<open>The little-endian words of a message payload.\<close>

lemma concat_chunk:
  assumes "i < length pdos" "j < 4"
  shows "concat (map (to_le_bytes 4) pdos) ! (i * 4 + j) = to_le_bytes 4 (pdos ! i) ! j"
  using assms
proof (induction pdos arbitrary: i)
  case (Cons x xs)
  then show ?case by (cases i) (simp_all add: nth_append)
qed simp

lemma length_concat_le: "length (concat (map (to_le_bytes 4) pdos)) = length pdos * 4"
  by (induction pdos) simp_all

lemma message_chunk:
  assumes "i < length pdos"
  shows "(from_le_bytes [concat (map (to_le_bytes 4) pdos) ! (i * 4), concat (map (to_le_bytes 4) pdos) ! (i * 4 + 1),
    concat (map (to_le_bytes 4) pdos) ! (i * 4 + 2), concat (map (to_le_bytes 4) pdos) ! (i * 4 + 3)] :: u32) = pdos ! i"
proof -
  have "[concat (map (to_le_bytes 4) pdos) ! (i * 4), concat (map (to_le_bytes 4) pdos) ! (i * 4 + 1),
      concat (map (to_le_bytes 4) pdos) ! (i * 4 + 2), concat (map (to_le_bytes 4) pdos) ! (i * 4 + 3)]
    = to_le_bytes 4 (pdos ! i)"
    using concat_chunk [OF assms, of 0] concat_chunk [OF assms, of 1] concat_chunk [OF assms, of 2]
      concat_chunk [OF assms, of 3] by (simp add: to_le_bytes_4)
  then show ?thesis by (simp only: from_to_le_bytes_full)
qed

section \<open>Panics\<close>

datatype 'a rust = Panic | Ret (returned: 'a)

fun rbind :: "'a rust \<Rightarrow> ('a \<Rightarrow> 'b rust) \<Rightarrow> 'b rust" where
  "rbind Panic f = Panic"
| "rbind (Ret x) f = f x"

lemma rbind_Ret_iff [simp]: "rbind m f = Ret y \<longleftrightarrow> (\<exists>x. m = Ret x \<and> f x = Ret y)"
  by (cases m) auto

text \<open>A call returns, and what it returns has the property.\<close>

fun rust_all :: "('a \<Rightarrow> bool) \<Rightarrow> 'a rust \<Rightarrow> bool" where
  "rust_all P Panic = False"
| "rust_all P (Ret x) = P x"

lemma rust_all_rbind [simp]: "rust_all P (rbind m f) = rust_all (\<lambda>x. rust_all P (f x)) m"
  by (cases m) simp_all

lemma rust_all_mono: "rust_all P m \<Longrightarrow> (\<And>x. P x \<Longrightarrow> Q x) \<Longrightarrow> rust_all Q m"
  by (cases m) simp_all

lemma rust_all_iff: "rust_all P m \<longleftrightarrow> (\<exists>x. m = Ret x \<and> P x)"
  by (cases m) simp_all

text \<open>\<open>Ord::clamp\<close> asserts that its bounds are in order.\<close>

definition checked_clamp :: "'a::linorder \<Rightarrow> 'a \<Rightarrow> 'a \<Rightarrow> 'a rust" where
  "checked_clamp lo hi x = (if lo \<le> hi then Ret (clamp lo hi x) else Panic)"

lemma checked_clamp_Ret [simp]: "lo \<le> hi \<Longrightarrow> checked_clamp lo hi x = Ret (clamp lo hi x)"
  by (simp add: checked_clamp_def)

section \<open>Iterator adaptors\<close>

fun flatten :: "'a option list \<Rightarrow> 'a list" where
  "flatten [] = []"
| "flatten (None # xs) = flatten xs"
| "flatten (Some x # xs) = x # flatten xs"

fun position :: "('a \<Rightarrow> bool) \<Rightarrow> 'a list \<Rightarrow> nat option" where
  "position p [] = None"
| "position p (x # xs) = (if p x then Some 0 else map_option Suc (position p xs))"

text \<open>\<open>max_by\<close> returns the last maximal item, \<open>min_by\<close> the first minimal one.\<close>

fun max_by :: "('a \<Rightarrow> 'a \<Rightarrow> bool) \<Rightarrow> 'a list \<Rightarrow> 'a option" where
  "max_by le [] = None"
| "max_by le (x # xs) = Some (fold (\<lambda>y best. if le best y then y else best) xs x)"

fun min_by :: "('a \<Rightarrow> 'a \<Rightarrow> bool) \<Rightarrow> 'a list \<Rightarrow> 'a option" where
  "min_by le [] = None"
| "min_by le (x # xs) = Some (fold (\<lambda>y best. if le best y then best else y) xs x)"

text \<open>The loop \<open>if best.is_none_or(|current| better(candidate, current)) { best = Some(candidate) }\<close>.\<close>

definition keep_best_step :: "('a \<Rightarrow> 'a \<Rightarrow> bool) \<Rightarrow> 'a \<Rightarrow> 'a option \<Rightarrow> 'a option" where
  "keep_best_step better x best =
     (case best of None \<Rightarrow> Some x | Some b \<Rightarrow> if better x b then Some x else Some b)"

definition keep_best :: "('a \<Rightarrow> 'a \<Rightarrow> bool) \<Rightarrow> 'a list \<Rightarrow> 'a option" where
  "keep_best better xs = fold (keep_best_step better) xs None"

text \<open>Writing into the first free slot of a fixed array; a full array drops the item.\<close>

fun push_slot :: "'a \<Rightarrow> 'a option list \<Rightarrow> 'a option list" where
  "push_slot x [] = []"
| "push_slot x (None # xs) = Some x # xs"
| "push_slot x (Some y # xs) = Some y # push_slot x xs"

lemma set_flatten [simp]: "set (flatten xs) = {x. Some x \<in> set xs}"
  by (induction xs rule: flatten.induct) auto

lemma flatten_append [simp]: "flatten (xs @ ys) = flatten xs @ flatten ys"
  by (induction xs rule: flatten.induct) auto

lemma flatten_replicate_None [simp]: "flatten (replicate n None) = []"
  by (induction n) auto

lemma length_push_slot [simp]: "length (push_slot x xs) = length xs"
  by (induction x xs rule: push_slot.induct) auto

lemma flatten_push_slot_set: "set (flatten (push_slot x xs)) \<subseteq> insert x (set (flatten xs))"
  by (induction x xs rule: push_slot.induct) auto

lemma those_eq_Some_iff: "those xs = Some ys \<longleftrightarrow> xs = map Some ys"
proof (induction xs arbitrary: ys)
  case (Cons x xs)
  then show ?case by (cases x; cases ys) (auto simp: map_option_eq_Some)
qed auto

lemma map_filter_mem: "c \<in> set (List.map_filter f xs) \<longleftrightarrow> (\<exists>x\<in>set xs. f x = Some c)"
  by (induction xs) (auto simp: List.map_filter_simps split: option.splits)

text \<open>An array of \<open>n\<close> slots whose first slots hold a list.\<close>

definition pack :: "nat \<Rightarrow> 'a list \<Rightarrow> 'a option list" where
  "pack n xs = map Some xs @ replicate (n - length xs) None"

lemma flatten_map_Some [simp]: "flatten (map Some xs) = xs"
  by (induction xs) auto

lemma flatten_pack [simp]: "flatten (pack n xs) = xs"
  by (simp add: pack_def)

lemma length_pack [simp]: "length xs \<le> n \<Longrightarrow> length (pack n xs) = n"
  by (simp add: pack_def)

lemma length_flatten_le: "length (flatten xs) \<le> length xs"
  by (induction xs rule: flatten.induct) auto

lemma flatten_map_Cons: "flatten (map f (x # xs)) = flatten [f x] @ flatten (map f xs)"
  by (cases "f x") auto

lemma push_slot_pack: "length xs < n \<Longrightarrow> push_slot x (pack n xs) = pack n (xs @ [x])"
proof -
  assume "length xs < n"
  then obtain k where "n - length xs = Suc k" by (metis Suc_diff_Suc)
  moreover have "push_slot x (map Some xs @ None # replicate k None) = map Some xs @ Some x # replicate k None"
    by (induction xs) auto
  ultimately show ?thesis by (simp add: pack_def)
qed

lemma push_slot_pack_full: "length xs = n \<Longrightarrow> push_slot x (pack n xs) = pack n xs"
proof -
  assume "length xs = n"
  moreover have "push_slot x (map Some xs) = map Some xs" by (induction xs) auto
  ultimately show ?thesis by (simp add: pack_def)
qed

lemma position_Some:
  "position p xs = Some i \<Longrightarrow> i < length xs \<and> p (xs ! i) \<and> (\<forall>j<i. \<not> p (xs ! j))"
proof (induction xs arbitrary: i)
  case (Cons x xs)
  then show ?case by (auto split: if_splits simp: less_Suc_eq_0_disj)
qed simp

lemma position_None: "position p xs = None \<longleftrightarrow> (\<forall>x\<in>set xs. \<not> p x)"
  by (induction xs) auto

lemma position_find: "List.find p xs = map_option ((!) xs) (position p xs)"
  by (induction xs) (auto simp: option.map_comp comp_def)

lemma position_map: "position p (map f xs) = position (p \<circ> f) xs"
  by (induction xs) auto

lemma find_flatten:
  "List.find p (flatten xs) = (case position (\<lambda>s. case s of None \<Rightarrow> False | Some x \<Rightarrow> p x) xs of
     None \<Rightarrow> None | Some i \<Rightarrow> xs ! i)"
  by (induction xs rule: flatten.induct) (auto split: option.splits)

lemma find_SomeD: "List.find p xs = Some x \<Longrightarrow> x \<in> set xs \<and> p x"
  by (auto simp: find_Some_iff)

lemma keep_best_step_simps [simp]:
  "keep_best_step better x None = Some x"
  "keep_best_step better x (Some b) = (if better x b then Some x else Some b)"
  by (simp_all add: keep_best_step_def)

lemma keep_best_Nil [simp]: "keep_best better [] = None"
  by (simp add: keep_best_def)

lemma keep_best_None_iff [simp]: "keep_best better xs = None \<longleftrightarrow> xs = []"
proof -
  have "fold (keep_best_step better) ys (Some b) \<noteq> None" for ys b
    by (induction ys arbitrary: b) auto
  then show ?thesis by (cases xs) (auto simp: keep_best_def)
qed

section \<open>A strict preference and its keep-the-best loop\<close>

text \<open>
  What a keep-the-best loop relies on: the comparison it is given is irreflexive and its
  negation is transitive. Then the loop returns a member of its input that no other member
  beats, and it returns one whenever the input is not empty.
\<close>

locale strict_preference =
  fixes better :: "'a \<Rightarrow> 'a \<Rightarrow> bool"
  assumes better_irrefl: "\<not> better x x"
    and not_better_trans: "\<not> better x y \<Longrightarrow> \<not> better y z \<Longrightarrow> \<not> better x z"
    and better_asym: "better x y \<Longrightarrow> \<not> better y x"
begin

lemma fold_keep_best:
  "\<exists>r. fold (keep_best_step better) xs (Some b) = Some r \<and> r \<in> insert b (set xs)
     \<and> (\<forall>x\<in>insert b (set xs). \<not> better x r)"
proof (induction xs arbitrary: b)
  case Nil
  then show ?case by (simp add: better_irrefl)
next
  case (Cons y ys)
  let ?c = "if better y b then y else b"
  obtain r where r: "fold (keep_best_step better) ys (Some ?c) = Some r"
    "r \<in> insert ?c (set ys)" "\<forall>x\<in>insert ?c (set ys). \<not> better x r"
    using Cons.IH by blast
  have "\<not> better b ?c" "\<not> better y ?c" by (auto simp: better_irrefl dest: better_asym)
  then have "\<not> better b r" "\<not> better y r" using r(3) not_better_trans by blast+
  then show ?case using r by (auto split: if_splits)
qed

lemma keep_best_optimal:
  assumes "keep_best better xs = Some r"
  shows "r \<in> set xs \<and> (\<forall>x\<in>set xs. \<not> better x r)"
proof (cases xs)
  case (Cons b ys)
  then show ?thesis using fold_keep_best [of ys b] assms by (auto simp: keep_best_def)
qed (use assms in \<open>simp add: keep_best_def\<close>)

lemma keep_best_member: "keep_best better xs = Some r \<Longrightarrow> r \<in> set xs"
  using keep_best_optimal by blast

end

text \<open>
  The order behind \<open>max_by_key\<close> and \<open>min_by_key\<close>: a total preorder on the items,
  given by their keys. It yields a strict preference, and \<open>min_by\<close> is the
  keep-the-best loop of that preference.
\<close>

locale key_order =
  fixes le :: "'a \<Rightarrow> 'a \<Rightarrow> bool"
  assumes le_total: "le x y \<or> le y x"
    and le_trans: "le x y \<Longrightarrow> le y z \<Longrightarrow> le x z"

sublocale key_order \<subseteq> lower: strict_preference "\<lambda>x y. \<not> le y x"
  using le_total le_trans by unfold_locales blast+

context key_order
begin

lemma min_by_keep_best: "min_by le xs = keep_best (\<lambda>x y. \<not> le y x) xs"
proof -
  have "fold (keep_best_step (\<lambda>x y. \<not> le y x)) ys (Some b) =
      Some (fold (\<lambda>y best. if le best y then best else y) ys b)" for ys b
    by (induction ys arbitrary: b) auto
  then show ?thesis by (cases xs) (auto simp: keep_best_def)
qed

lemma min_by_least: "min_by le xs = Some r \<Longrightarrow> r \<in> set xs \<and> (\<forall>x\<in>set xs. le r x)"
  using lower.keep_best_optimal by (auto simp: min_by_keep_best)

lemma fold_max_by:
  "fold (\<lambda>y best. if le best y then y else best) xs b \<in> insert b (set xs)
     \<and> (\<forall>x\<in>insert b (set xs). le x (fold (\<lambda>y best. if le best y then y else best) xs b))"
proof (induction xs arbitrary: b)
  case Nil
  then show ?case using le_total by auto
next
  case (Cons y ys)
  let ?c = "if le b y then y else b"
  let ?r = "fold (\<lambda>y best. if le best y then y else best) ys ?c"
  have r: "?r \<in> insert ?c (set ys)" "le ?c ?r" "\<forall>x\<in>set ys. le x ?r" using Cons.IH [of ?c] by auto
  have "le b ?c" "le y ?c" using le_total by auto
  then have "le b ?r" "le y ?r" using r(2) le_trans by blast+
  then show ?case using r(1,3) by (auto split: if_splits)
qed

lemma max_by_greatest: "max_by le xs = Some r \<Longrightarrow> r \<in> set xs \<and> (\<forall>x\<in>set xs. le x r)"
  using fold_max_by by (cases xs) auto

lemma min_by_None_iff: "min_by le xs = None \<longleftrightarrow> xs = []"
  by (cases xs) auto

end

section \<open>Machines whose steps keep an invariant\<close>

text \<open>
  A component driven by a sequence of events: a step function and an invariant that every
  enabled step keeps. Every run then keeps it.
\<close>

fun run :: "('s \<Rightarrow> 'e \<Rightarrow> 's) \<Rightarrow> 's \<Rightarrow> 'e list \<Rightarrow> 's" where
  "run step s [] = s"
| "run step s (e # es) = run step (step s e) es"

lemma run_append [simp]: "run step s (xs @ ys) = run step (run step s xs) ys"
  by (induction xs arbitrary: s) auto

locale invariant_machine =
  fixes step :: "'s \<Rightarrow> 'e \<Rightarrow> 's" and inv :: "'s \<Rightarrow> bool"
  assumes step_inv: "inv s \<Longrightarrow> inv (step s e)"
begin

lemma run_inv: "inv s \<Longrightarrow> inv (run step s es)"
  by (induction es arbitrary: s) (auto simp: step_inv)

end

end
