(* ===== verification/Pd_Contracts.thy ===== *)
theory Pd_Contracts
  imports Prelude
begin

text \<open>
  The controller-neutral USB-C PD contracts of \<open>src/firmware/src/adapters/pd.rs\<close>: what a
  power source advertises (fixed PDOs and PPS APDOs), what the heater policy may ask for
  (\<open>PdContractRequest\<close> and its checked constructors), what is negotiated
  (\<open>Contract\<close>, \<open>ConfirmedActiveContract\<close>) and the selectors that turn an
  advertisement and a wish into a contract. The lemmas show that decoding an advertisement
  loses no object, that every selector answers with a contract the source advertises and
  within the product's voltage and current envelope, and that the view published to callers
  decides APDO continuity exactly as the private selector does.
\<close>

section \<open>Constants\<close>

definition FUSB302B_FIXED_MAX_MV :: u16 where [simp]: "FUSB302B_FIXED_MAX_MV = 20000"
definition FUSB302B_PD_ABSOLUTE_MIN_MV :: u16 where [simp]: "FUSB302B_PD_ABSOLUTE_MIN_MV = 5000"
definition FUSB302B_PD_ABSOLUTE_MAX_MV :: u16 where [simp]: "FUSB302B_PD_ABSOLUTE_MAX_MV = 28000"
definition FUSB302B_PPS_MIN_MV :: u16 where [simp]: "FUSB302B_PPS_MIN_MV = 5500"
definition FUSB302B_PPS_MAX_MV :: u16 where [simp]: "FUSB302B_PPS_MAX_MV = FUSB302B_PD_ABSOLUTE_MAX_MV"
definition GUARANTEED_HEATER_MIN_MV :: u16 where [simp]: "GUARANTEED_HEATER_MIN_MV = 20000"
definition MIN_HEATER_CONTRACT_MA :: u16 where [simp]: "MIN_HEATER_CONTRACT_MA = 3000"
definition MAX_HEATER_CONTRACT_MA :: u16 where [simp]: "MAX_HEATER_CONTRACT_MA = 5000"
definition STANDBY_POWER_MW :: u32 where [simp]: "STANDBY_POWER_MW = 5000"
definition STANDBY_CURRENT_STEP_MA :: u16 where [simp]: "STANDBY_CURRENT_STEP_MA = 10"
definition MAX_SOURCE_PDOS :: nat where [simp]: "MAX_SOURCE_PDOS = 7"
definition PD_FIXED_VOLTAGE_STEP_MV :: u16 where [simp]: "PD_FIXED_VOLTAGE_STEP_MV = 50"
definition PD_FIXED_CURRENT_STEP_MA :: u16 where [simp]: "PD_FIXED_CURRENT_STEP_MA = 10"
definition PD_PPS_VOLTAGE_STEP_MV :: u16 where [simp]: "PD_PPS_VOLTAGE_STEP_MV = 100"
definition PD_PPS_CURRENT_STEP_MA :: u16 where [simp]: "PD_PPS_CURRENT_STEP_MA = 50"

section \<open>Contracts\<close>

datatype ControllerKind = Ch224q | Fusb302b | UnknownController

fun ControllerKind_as_str :: "ControllerKind \<Rightarrow> string" where
  "ControllerKind_as_str Ch224q = ''ch224q''"
| "ControllerKind_as_str Fusb302b = ''fusb302b''"
| "ControllerKind_as_str UnknownController = ''unknown''"

datatype ContractKind = FixedContract | PpsContract | NoContract

fun ContractKind_as_str :: "ContractKind \<Rightarrow> string" where
  "ContractKind_as_str FixedContract = ''fixed''"
| "ContractKind_as_str PpsContract = ''pps''"
| "ContractKind_as_str NoContract = ''none''"

datatype DegradedReason = BelowGuaranteedVoltage | NoUsableContract

fun DegradedReason_as_str :: "DegradedReason \<Rightarrow> string" where
  "DegradedReason_as_str BelowGuaranteedVoltage = ''pd_contract_below_20v''"
| "DegradedReason_as_str NoUsableContract = ''pd_contract_unavailable''"

record Contract =
  contract_kind :: ContractKind
  contract_object_position :: u8
  contract_voltage_mv :: u16
  contract_current_ma :: u16

definition Contract_observed :: "ContractKind \<Rightarrow> u16 \<Rightarrow> u16 \<Rightarrow> Contract" where
  "Contract_observed kind voltage_mv current_ma =
     \<lparr>contract_kind = kind, contract_object_position = 0,
      contract_voltage_mv = voltage_mv, contract_current_ma = current_ma\<rparr>"

definition Contract_none :: Contract where
  "Contract_none = \<lparr>contract_kind = NoContract, contract_object_position = 0,
     contract_voltage_mv = 0, contract_current_ma = 0\<rparr>"

definition power_mw :: "Contract \<Rightarrow> u32" where
  "power_mw c = (ucast (contract_voltage_mv c) * ucast (contract_current_ma c)) div 1000"

definition performance_guaranteed :: "Contract \<Rightarrow> bool" where
  "performance_guaranteed c \<longleftrightarrow> GUARANTEED_HEATER_MIN_MV \<le> contract_voltage_mv c
     \<and> MIN_HEATER_CONTRACT_MA \<le> contract_current_ma c"

definition degraded_reason :: "Contract \<Rightarrow> DegradedReason option" where
  "degraded_reason c =
     (if contract_kind c = NoContract then Some NoUsableContract
      else if performance_guaranteed c then None
      else Some BelowGuaranteedVoltage)"

definition clamp_heater_power_mw :: "Contract \<Rightarrow> u32 \<Rightarrow> u32" where
  "clamp_heater_power_mw c requested_mw = min requested_mw (power_mw c)"

definition standby_current_for_voltage :: "u16 \<Rightarrow> u16" where
  "standby_current_for_voltage voltage_mv =
     (if voltage_mv = 0 then MAX_HEATER_CONTRACT_MA
      else let required_ma = div_ceil (STANDBY_POWER_MW * 1000) (ucast voltage_mv :: u32);
               aligned = div_ceil required_ma (ucast STANDBY_CURRENT_STEP_MA)
                           * ucast STANDBY_CURRENT_STEP_MA
           in if aligned > ucast MAX_HEATER_CONTRACT_MA then MAX_HEATER_CONTRACT_MA
              else ucast aligned)"

section \<open>What a source advertises\<close>

record FixedPdo =
  fixed_object_position :: u8
  fixed_voltage_mv :: u16
  fixed_max_ma :: u16

record PpsApdo =
  pps_object_position :: u8
  pps_min_mv :: u16
  pps_max_mv :: u16
  pps_max_ma :: u16

record PpsAdjustmentRange =
  range_min_mv :: u16
  range_max_mv :: u16
  range_max_current_ma :: u16

record SourceCapabilities =
  caps_fixed :: "FixedPdo option list"
  caps_pps :: "PpsApdo option list"

record SourceCapabilitiesView =
  view_fixed :: "(u16 \<times> u16) option list"
  view_pps :: "PpsAdjustmentRange option list"

definition SourceCapabilities_empty :: SourceCapabilities where
  "SourceCapabilities_empty = \<lparr>caps_fixed = replicate MAX_SOURCE_PDOS None,
     caps_pps = replicate MAX_SOURCE_PDOS None\<rparr>"

definition apdo_range :: "PpsApdo \<Rightarrow> PpsAdjustmentRange" where
  "apdo_range apdo = \<lparr>range_min_mv = pps_min_mv apdo, range_max_mv = pps_max_mv apdo,
     range_max_current_ma = pps_max_ma apdo\<rparr>"

definition view :: "SourceCapabilities \<Rightarrow> SourceCapabilitiesView" where
  "view caps =
     \<lparr>view_fixed = map (map_option (\<lambda>pdo. (fixed_voltage_mv pdo, fixed_max_ma pdo))) (caps_fixed caps),
      view_pps = map (map_option apdo_range) (caps_pps caps)\<rparr>"

definition push_fixed :: "SourceCapabilities \<Rightarrow> FixedPdo \<Rightarrow> SourceCapabilities" where
  "push_fixed caps pdo =
     (if fixed_voltage_mv pdo = 0 \<or> fixed_max_ma pdo = 0 then caps
      else caps\<lparr>caps_fixed := push_slot pdo (caps_fixed caps)\<rparr>)"

definition push_pps :: "SourceCapabilities \<Rightarrow> PpsApdo \<Rightarrow> SourceCapabilities" where
  "push_pps caps apdo =
     (if pps_min_mv apdo = 0 \<or> pps_max_mv apdo < pps_min_mv apdo \<or> pps_max_ma apdo = 0 then caps
      else caps\<lparr>caps_pps := push_slot apdo (caps_pps caps)\<rparr>)"

definition fixed_of_raw :: "u8 \<Rightarrow> u32 \<Rightarrow> FixedPdo" where
  "fixed_of_raw object_position raw =
     \<lparr>fixed_object_position = object_position,
      fixed_voltage_mv = ucast (drop_bit 10 raw AND 0x3ff) * 50,
      fixed_max_ma = ucast (raw AND 0x3ff) * 10\<rparr>"

definition pps_of_raw :: "u8 \<Rightarrow> u32 \<Rightarrow> PpsApdo" where
  "pps_of_raw object_position raw =
     \<lparr>pps_object_position = object_position,
      pps_min_mv = ucast (drop_bit 8 raw AND 0xff) * 100,
      pps_max_mv = ucast (drop_bit 17 raw AND 0xff) * 100,
      pps_max_ma = ucast (raw AND 0x7f) * 50\<rparr>"

definition push_pdo :: "nat \<times> u32 \<Rightarrow> SourceCapabilities \<Rightarrow> SourceCapabilities" where
  "push_pdo = (\<lambda>(index, raw) caps.
     let object_position = word_of_nat (index + 1)
     in if drop_bit 30 raw AND 3 = 0 then push_fixed caps (fixed_of_raw object_position raw)
        else if drop_bit 30 raw AND 3 = 3 \<and> drop_bit 28 raw AND 3 = 0
        then push_pps caps (pps_of_raw object_position raw)
        else caps)"

definition from_pdos :: "u32 list \<Rightarrow> SourceCapabilities" where
  "from_pdos pdos = fold push_pdo (take MAX_SOURCE_PDOS (List.enumerate 0 pdos))
     SourceCapabilities_empty"

section \<open>What the policy may request\<close>

datatype PdContractRequestMode = FixedRequest | PpsRequest

record PdContractRequest =
  request_mode :: PdContractRequestMode
  request_voltage_mv :: u16
  request_operating_current_ma :: u16
  request_calibration :: bool
  request_pps_range :: "PpsAdjustmentRange option"

datatype PdContractRequestError =
    ZeroVoltage
  | ZeroCurrent
  | FixedVoltageNotAligned
  | FixedCurrentNotAligned
  | FixedVoltageOutOfRange
  | FixedCurrentOutOfRange
  | PpsVoltageNotAligned
  | PpsCurrentNotAligned
  | PpsVoltageOutOfRange
  | PpsCurrentOutOfRange

definition fixed_request :: "u16 \<Rightarrow> u16 \<Rightarrow> PdContractRequestError + PdContractRequest" where
  "fixed_request voltage_mv operating_current_ma =
     (if voltage_mv = 0 then Inl ZeroVoltage
      else if operating_current_ma = 0 then Inl ZeroCurrent
      else if \<not> (FUSB302B_PD_ABSOLUTE_MIN_MV \<le> voltage_mv \<and> voltage_mv \<le> FUSB302B_FIXED_MAX_MV)
      then Inl FixedVoltageOutOfRange
      else if \<not> (MIN_HEATER_CONTRACT_MA \<le> operating_current_ma
                 \<and> operating_current_ma \<le> MAX_HEATER_CONTRACT_MA)
      then Inl FixedCurrentOutOfRange
      else if \<not> is_multiple_of voltage_mv PD_FIXED_VOLTAGE_STEP_MV then Inl FixedVoltageNotAligned
      else if \<not> is_multiple_of operating_current_ma PD_FIXED_CURRENT_STEP_MA
      then Inl FixedCurrentNotAligned
      else Inr \<lparr>request_mode = FixedRequest, request_voltage_mv = voltage_mv,
                request_operating_current_ma = operating_current_ma,
                request_calibration = False, request_pps_range = None\<rparr>)"

definition pps_with_minimum ::
  "u16 \<Rightarrow> u16 \<Rightarrow> u16 \<Rightarrow> PdContractRequestError + PdContractRequest" where
  "pps_with_minimum voltage_mv operating_current_ma minimum_ma =
     (if voltage_mv = 0 then Inl ZeroVoltage
      else if operating_current_ma = 0 then Inl ZeroCurrent
      else if \<not> (FUSB302B_PPS_MIN_MV \<le> voltage_mv \<and> voltage_mv \<le> FUSB302B_PD_ABSOLUTE_MAX_MV)
      then Inl PpsVoltageOutOfRange
      else if \<not> (minimum_ma \<le> operating_current_ma \<and> operating_current_ma \<le> MAX_HEATER_CONTRACT_MA)
      then Inl PpsCurrentOutOfRange
      else if \<not> is_multiple_of voltage_mv PD_PPS_VOLTAGE_STEP_MV then Inl PpsVoltageNotAligned
      else if \<not> is_multiple_of operating_current_ma PD_PPS_CURRENT_STEP_MA
      then Inl PpsCurrentNotAligned
      else Inr \<lparr>request_mode = PpsRequest, request_voltage_mv = voltage_mv,
                request_operating_current_ma = operating_current_ma,
                request_calibration = (minimum_ma = 1000), request_pps_range = None\<rparr>)"

definition pps_request :: "u16 \<Rightarrow> u16 \<Rightarrow> PdContractRequestError + PdContractRequest" where
  "pps_request voltage_mv operating_current_ma =
     pps_with_minimum voltage_mv operating_current_ma MIN_HEATER_CONTRACT_MA"

definition automatic_pps :: "u16 \<Rightarrow> u16 \<Rightarrow> PdContractRequestError + PdContractRequest" where
  "automatic_pps voltage_mv operating_current_ma =
     map_sum id (\<lambda>request. request\<lparr>request_calibration := False\<rparr>)
       (pps_with_minimum voltage_mv operating_current_ma 1000)"

definition calibration_pps :: "u16 \<Rightarrow> u16 \<Rightarrow> PdContractRequestError + PdContractRequest" where
  "calibration_pps voltage_mv operating_current_ma =
     (if voltage_mv > 21000 \<or> operating_current_ma > 3000 then Inl PpsCurrentOutOfRange
      else pps_with_minimum voltage_mv operating_current_ma 1000)"

definition is_ok :: "'e + 'a \<Rightarrow> bool" where
  "is_ok r = (case r of Inl _ \<Rightarrow> False | Inr _ \<Rightarrow> True)"

definition is_well_formed :: "PdContractRequest \<Rightarrow> bool" where
  "is_well_formed req =
     (if (case request_pps_range req of None \<Rightarrow> False | Some rng \<Rightarrow>
            request_mode req \<noteq> PpsRequest
            \<or> request_voltage_mv req < range_min_mv rng
            \<or> request_voltage_mv req > range_max_mv rng
            \<or> request_operating_current_ma req > range_max_current_ma rng)
      then False
      else case request_mode req of
        FixedRequest \<Rightarrow> is_ok (fixed_request (request_voltage_mv req) (request_operating_current_ma req))
      | PpsRequest \<Rightarrow>
          if request_calibration req
          then is_ok (calibration_pps (request_voltage_mv req) (request_operating_current_ma req))
          else if request_operating_current_ma req < MIN_HEATER_CONTRACT_MA
          then is_ok (automatic_pps (request_voltage_mv req) (request_operating_current_ma req))
          else is_ok (pps_request (request_voltage_mv req) (request_operating_current_ma req)))"

definition within_pps_range :: "PdContractRequest \<Rightarrow> PpsAdjustmentRange \<Rightarrow> PdContractRequest option" where
  "within_pps_range req rng =
     (let req' = req\<lparr>request_pps_range := Some rng\<rparr>
      in if is_well_formed req' then Some req' else None)"

section \<open>Selecting a contract\<close>

definition fixed_contract :: "FixedPdo \<Rightarrow> u16 \<Rightarrow> Contract" where
  "fixed_contract pdo current_ma =
     \<lparr>contract_kind = FixedContract, contract_object_position = fixed_object_position pdo,
      contract_voltage_mv = fixed_voltage_mv pdo, contract_current_ma = current_ma\<rparr>"

definition pps_contract :: "PpsApdo \<Rightarrow> u16 \<Rightarrow> u16 \<Rightarrow> Contract" where
  "pps_contract apdo voltage_mv current_ma =
     \<lparr>contract_kind = PpsContract, contract_object_position = pps_object_position apdo,
      contract_voltage_mv = voltage_mv, contract_current_ma = current_ma\<rparr>"

definition select_exact_contract :: "SourceCapabilities \<Rightarrow> PdContractRequest \<Rightarrow> Contract option" where
  "select_exact_contract caps req =
     (if \<not> is_well_formed req then None
      else case request_mode req of
        FixedRequest \<Rightarrow>
          map_option (\<lambda>pdo. fixed_contract pdo (request_operating_current_ma req))
            (List.find (\<lambda>pdo. fixed_voltage_mv pdo = request_voltage_mv req
                \<and> fixed_max_ma pdo \<ge> request_operating_current_ma req)
              (flatten (caps_fixed caps)))
      | PpsRequest \<Rightarrow>
          map_option (\<lambda>apdo. pps_contract apdo (request_voltage_mv req) (request_operating_current_ma req))
            (List.find (\<lambda>apdo.
                (case request_pps_range req of None \<Rightarrow> True | Some rng \<Rightarrow>
                   range_min_mv rng = pps_min_mv apdo \<and> range_max_mv rng = pps_max_mv apdo
                   \<and> range_max_current_ma rng = pps_max_ma apdo)
                \<and> pps_min_mv apdo \<le> request_voltage_mv req
                \<and> pps_max_mv apdo \<ge> request_voltage_mv req
                \<and> pps_max_ma apdo \<ge> request_operating_current_ma req)
              (flatten (caps_pps caps))))"

definition pps_candidate_is_better :: "PpsApdo \<Rightarrow> u16 \<Rightarrow> PpsApdo \<Rightarrow> u16 \<Rightarrow> bool" where
  "pps_candidate_is_better candidate candidate_ma current current_ma =
     (if candidate_ma \<noteq> current_ma then candidate_ma > current_ma
      else if pps_max_mv candidate \<noteq> pps_max_mv current then pps_max_mv candidate > pps_max_mv current
      else pps_min_mv candidate < pps_min_mv current)"

definition pps_capability_is_better :: "PpsApdo \<Rightarrow> PpsApdo \<Rightarrow> bool" where
  "pps_capability_is_better candidate current =
     (if pps_max_mv candidate \<noteq> pps_max_mv current then pps_max_mv candidate > pps_max_mv current
      else if pps_max_ma candidate \<noteq> pps_max_ma current then pps_max_ma candidate > pps_max_ma current
      else pps_min_mv candidate < pps_min_mv current)"

definition pps_pair_is_better :: "PpsApdo \<times> Contract \<Rightarrow> PpsApdo \<times> Contract \<Rightarrow> bool" where
  "pps_pair_is_better = (\<lambda>(apdo, candidate) (current_apdo, current).
     pps_candidate_is_better apdo (contract_current_ma candidate)
       current_apdo (contract_current_ma current))"

definition fixed_candidate_is_better :: "Contract \<Rightarrow> Contract \<Rightarrow> bool" where
  "fixed_candidate_is_better candidate current \<longleftrightarrow>
     contract_voltage_mv candidate > contract_voltage_mv current
     \<or> (contract_voltage_mv candidate = contract_voltage_mv current
        \<and> contract_current_ma candidate > contract_current_ma current)"

definition select_fusb302b_contract :: "SourceCapabilities \<Rightarrow> u16 \<Rightarrow> u16 \<Rightarrow> Contract option" where
  "select_fusb302b_contract caps wanted_mv preferred_ma =
     (let requested_mv = max (clamp FUSB302B_PD_ABSOLUTE_MIN_MV FUSB302B_PD_ABSOLUTE_MAX_MV wanted_mv)
                           FUSB302B_PPS_MIN_MV;
          requested_ma = clamp MIN_HEATER_CONTRACT_MA MAX_HEATER_CONTRACT_MA preferred_ma;
          best_pps = keep_best pps_pair_is_better
            (map (\<lambda>apdo. (apdo, pps_contract apdo requested_mv
                              (min (min (pps_max_ma apdo) requested_ma) MAX_HEATER_CONTRACT_MA)))
              (filter (\<lambda>apdo. \<not> (pps_max_ma apdo < MIN_HEATER_CONTRACT_MA
                                  \<or> pps_min_mv apdo > requested_mv
                                  \<or> pps_max_mv apdo < requested_mv))
                (flatten (caps_pps caps))))
      in case best_pps of
           Some (_, contract) \<Rightarrow> Some contract
         | None \<Rightarrow>
             keep_best fixed_candidate_is_better
               (map (\<lambda>pdo. fixed_contract pdo
                             (min (min (fixed_max_ma pdo) requested_ma) MAX_HEATER_CONTRACT_MA))
                 (filter (\<lambda>pdo. \<not> (fixed_voltage_mv pdo < FUSB302B_PD_ABSOLUTE_MIN_MV
                                    \<or> fixed_voltage_mv pdo > FUSB302B_FIXED_MAX_MV
                                    \<or> fixed_voltage_mv pdo > requested_mv
                                    \<or> fixed_max_ma pdo < MIN_HEATER_CONTRACT_MA))
                   (flatten (caps_fixed caps)))))"

definition current_then_low_position_le :: "Contract \<Rightarrow> Contract \<Rightarrow> bool" where
  "current_then_low_position_le a b \<longleftrightarrow>
     contract_current_ma a < contract_current_ma b
     \<or> (contract_current_ma a = contract_current_ma b
        \<and> contract_object_position b \<le> contract_object_position a)"

definition select_fusb302b_fixed_contract :: "SourceCapabilities \<Rightarrow> u16 \<Rightarrow> u16 \<Rightarrow> Contract option" where
  "select_fusb302b_fixed_contract caps requested_mv preferred_ma =
     (if \<not> (FUSB302B_PD_ABSOLUTE_MIN_MV \<le> requested_mv \<and> requested_mv \<le> FUSB302B_FIXED_MAX_MV) then None
      else let requested_ma = clamp MIN_HEATER_CONTRACT_MA MAX_HEATER_CONTRACT_MA preferred_ma
           in max_by current_then_low_position_le
                (map (\<lambda>pdo. fixed_contract pdo
                              (min (min (fixed_max_ma pdo) requested_ma) MAX_HEATER_CONTRACT_MA))
                  (filter (\<lambda>pdo. fixed_voltage_mv pdo = requested_mv
                                  \<and> fixed_max_ma pdo \<ge> MIN_HEATER_CONTRACT_MA)
                    (flatten (caps_fixed caps)))))"

definition voltage_then_current_le :: "Contract \<Rightarrow> Contract \<Rightarrow> bool" where
  "voltage_then_current_le a b \<longleftrightarrow>
     contract_voltage_mv a < contract_voltage_mv b
     \<or> (contract_voltage_mv a = contract_voltage_mv b
        \<and> contract_current_ma a \<le> contract_current_ma b)"

definition select_fusb302b_standby_contract :: "SourceCapabilities \<Rightarrow> u16 \<Rightarrow> Contract option" where
  "select_fusb302b_standby_contract caps wanted_mv =
     (let requested_mv = clamp FUSB302B_PD_ABSOLUTE_MIN_MV FUSB302B_FIXED_MAX_MV wanted_mv
      in min_by voltage_then_current_le
           (map (\<lambda>pdo. fixed_contract pdo (standby_current_for_voltage (fixed_voltage_mv pdo)))
             (filter (\<lambda>pdo. fixed_voltage_mv pdo \<ge> requested_mv
                             \<and> fixed_voltage_mv pdo \<le> FUSB302B_FIXED_MAX_MV
                             \<and> fixed_max_ma pdo \<ge> standby_current_for_voltage (fixed_voltage_mv pdo))
               (flatten (caps_fixed caps)))))"

definition select_fusb302b_standby_pps_contract :: "SourceCapabilities \<Rightarrow> u16 \<Rightarrow> Contract option" where
  "select_fusb302b_standby_pps_contract caps wanted_mv =
     (let requested_mv = clamp FUSB302B_PPS_MIN_MV FUSB302B_FIXED_MAX_MV wanted_mv;
          requested_ma = standby_current_for_voltage requested_mv div PD_PPS_CURRENT_STEP_MA
                           * PD_PPS_CURRENT_STEP_MA;
          current_of = (\<lambda>apdo. min (pps_max_ma apdo) requested_ma div PD_PPS_CURRENT_STEP_MA
                           * PD_PPS_CURRENT_STEP_MA)
      in map_option snd (keep_best pps_pair_is_better
           (map (\<lambda>apdo. (apdo, pps_contract apdo requested_mv (current_of apdo)))
             (filter (\<lambda>apdo. \<not> (pps_min_mv apdo > requested_mv \<or> pps_max_mv apdo < requested_mv)
                              \<and> current_of apdo \<noteq> 0)
               (flatten (caps_pps caps))))))"

definition select_fusb302b_standby_pps_step ::
  "SourceCapabilities \<Rightarrow> Contract \<Rightarrow> u16 \<Rightarrow> Contract option rust" where
  "select_fusb302b_standby_pps_step caps active requested_mv =
     (if contract_kind active \<noteq> PpsContract then Ret None
      else case List.find (\<lambda>apdo. pps_object_position apdo = contract_object_position active
                              \<and> pps_min_mv apdo \<le> contract_voltage_mv active
                              \<and> pps_max_mv apdo \<ge> contract_voltage_mv active)
                  (flatten (caps_pps caps)) of
        None \<Rightarrow> Ret None
      | Some apdo \<Rightarrow>
          rbind (checked_clamp (max (pps_min_mv apdo) FUSB302B_PPS_MIN_MV)
                   (min (pps_max_mv apdo) FUSB302B_PPS_MAX_MV) requested_mv)
            (\<lambda>voltage_mv. Ret
              (if voltage_mv \<ge> contract_voltage_mv active then None
               else let current_ma = min (pps_max_ma apdo) (contract_current_ma active)
                          div PD_PPS_CURRENT_STEP_MA * PD_PPS_CURRENT_STEP_MA
                    in if current_ma > 0 then Some (pps_contract apdo voltage_mv current_ma)
                       else None)))"

definition supports_contract :: "SourceCapabilities \<Rightarrow> Contract \<Rightarrow> bool" where
  "supports_contract caps c =
     (case contract_kind c of
        FixedContract \<Rightarrow> list_ex (\<lambda>pdo. fixed_object_position pdo = contract_object_position c
          \<and> fixed_voltage_mv pdo = contract_voltage_mv c
          \<and> fixed_max_ma pdo \<ge> contract_current_ma c) (flatten (caps_fixed caps))
      | PpsContract \<Rightarrow> list_ex (\<lambda>apdo. pps_object_position apdo = contract_object_position c
          \<and> pps_min_mv apdo \<le> contract_voltage_mv c
          \<and> pps_max_mv apdo \<ge> contract_voltage_mv c
          \<and> pps_max_ma apdo \<ge> contract_current_ma c) (flatten (caps_pps caps))
      | NoContract \<Rightarrow> False)"

definition fusb302b_pps_capability :: "SourceCapabilities \<Rightarrow> PpsApdo option" where
  "fusb302b_pps_capability caps =
     keep_best pps_capability_is_better
       (filter (\<lambda>apdo. \<not> (pps_max_ma apdo < MIN_HEATER_CONTRACT_MA
                           \<or> pps_min_mv apdo > GUARANTEED_HEATER_MIN_MV
                           \<or> pps_max_mv apdo < GUARANTEED_HEATER_MIN_MV))
         (flatten (caps_pps caps)))"

section \<open>The confirmed contract published to callers\<close>

record ConfirmedActiveContract =
  confirmed_mode :: PdContractRequestMode
  confirmed_voltage_mv :: u16
  confirmed_operating_current_ma :: u16
  confirmed_pps_range :: "PpsAdjustmentRange option"
  confirmed_pps_capability_index :: "u8 option"

definition from_private_contract ::
  "Contract \<Rightarrow> SourceCapabilities \<Rightarrow> ConfirmedActiveContract option" where
  "from_private_contract c caps =
     (if \<not> supports_contract caps c then None
      else case (case contract_kind c of FixedContract \<Rightarrow> Some FixedRequest
                 | PpsContract \<Rightarrow> Some PpsRequest | NoContract \<Rightarrow> None) of
        None \<Rightarrow> None
      | Some mode \<Rightarrow>
          let index = (if contract_kind c = PpsContract
                       then position (\<lambda>slot. case slot of None \<Rightarrow> False
                              | Some apdo \<Rightarrow> pps_object_position apdo = contract_object_position c)
                            (caps_pps caps)
                       else None)
          in Some \<lparr>confirmed_mode = mode,
                   confirmed_voltage_mv = contract_voltage_mv c,
                   confirmed_operating_current_ma = contract_current_ma c,
                   confirmed_pps_range = (case index of None \<Rightarrow> None
                      | Some i \<Rightarrow> map_option apdo_range (caps_pps caps ! i)),
                   confirmed_pps_capability_index = map_option word_of_nat index\<rparr>)"

definition view_selects :: "PdContractRequest \<Rightarrow> PpsAdjustmentRange option \<Rightarrow> bool" where
  "view_selects req slot =
     (case slot of None \<Rightarrow> False | Some rng \<Rightarrow>
        (case request_pps_range req of None \<Rightarrow> True | Some pinned \<Rightarrow> pinned = rng)
        \<and> range_min_mv rng \<le> request_voltage_mv req
        \<and> request_voltage_mv req \<le> range_max_mv rng
        \<and> request_operating_current_ma req \<le> range_max_current_ma rng)"

definition selected_index_is :: "ConfirmedActiveContract \<Rightarrow> SourceCapabilitiesView \<Rightarrow> PdContractRequest \<Rightarrow> bool" where
  "selected_index_is conf v req =
     (case position (view_selects req) (view_pps v) of None \<Rightarrow> False
      | Some index \<Rightarrow> confirmed_pps_capability_index conf = Some (word_of_nat index))"

definition request_keeps_same_pps_apdo ::
  "ConfirmedActiveContract \<Rightarrow> SourceCapabilitiesView \<Rightarrow> PdContractRequest \<Rightarrow> bool" where
  "request_keeps_same_pps_apdo conf v req =
     (if \<not> is_well_formed req \<or> confirmed_mode conf \<noteq> PpsRequest \<or> request_mode req \<noteq> PpsRequest
         \<or> confirmed_operating_current_ma conf \<noteq> request_operating_current_ma req
      then False
      else selected_index_is conf v req)"

definition request_keeps_same_pps_apdo_or_reduces_current ::
  "ConfirmedActiveContract \<Rightarrow> SourceCapabilitiesView \<Rightarrow> PdContractRequest \<Rightarrow> bool" where
  "request_keeps_same_pps_apdo_or_reduces_current conf v req =
     (if \<not> request_calibration req \<or> \<not> is_well_formed req \<or> confirmed_mode conf \<noteq> PpsRequest
         \<or> request_mode req \<noteq> PpsRequest
         \<or> request_operating_current_ma req > confirmed_operating_current_ma conf
      then False
      else selected_index_is conf v req)"

section \<open>Decoding an advertisement loses no object\<close>

text \<open>
  The specification of the decoder: the usable objects of the first seven positions, in the
  order they are advertised, packed to the front of the array.
\<close>

definition usable_fixed :: "nat \<times> u32 \<Rightarrow> FixedPdo option" where
  "usable_fixed = (\<lambda>(index, raw).
     let pdo = fixed_of_raw (word_of_nat (index + 1)) raw
     in if drop_bit 30 raw AND 3 = 0 \<and> fixed_voltage_mv pdo \<noteq> 0 \<and> fixed_max_ma pdo \<noteq> 0
        then Some pdo else None)"

definition usable_pps :: "nat \<times> u32 \<Rightarrow> PpsApdo option" where
  "usable_pps = (\<lambda>(index, raw).
     let apdo = pps_of_raw (word_of_nat (index + 1)) raw
     in if drop_bit 30 raw AND 3 = 3 \<and> drop_bit 28 raw AND 3 = 0 \<and> pps_min_mv apdo \<noteq> 0
           \<and> pps_min_mv apdo \<le> pps_max_mv apdo \<and> pps_max_ma apdo \<noteq> 0
        then Some apdo else None)"

definition advertised_fixed :: "u32 list \<Rightarrow> FixedPdo list" where
  "advertised_fixed pdos = flatten (map usable_fixed (List.enumerate 0 (take MAX_SOURCE_PDOS pdos)))"

definition advertised_pps :: "u32 list \<Rightarrow> PpsApdo list" where
  "advertised_pps pdos = flatten (map usable_pps (List.enumerate 0 (take MAX_SOURCE_PDOS pdos)))"

lemma push_pdo_pack:
  assumes "caps = \<lparr>caps_fixed = pack 7 fs, caps_pps = pack 7 ps\<rparr>" "length fs < 7" "length ps < 7"
  shows "push_pdo x caps =
    \<lparr>caps_fixed = pack 7 (fs @ flatten [usable_fixed x]), caps_pps = pack 7 (ps @ flatten [usable_pps x])\<rparr>"
  using assms
  by (cases x) (auto simp: push_pdo_def usable_fixed_def usable_pps_def push_fixed_def push_pps_def
      push_slot_pack Let_def)

lemma fold_push_pdo_pack:
  assumes "length fs + length xs \<le> 7" "length ps + length xs \<le> 7"
  shows "fold push_pdo xs \<lparr>caps_fixed = pack 7 fs, caps_pps = pack 7 ps\<rparr> =
    \<lparr>caps_fixed = pack 7 (fs @ flatten (map usable_fixed xs)),
     caps_pps = pack 7 (ps @ flatten (map usable_pps xs))\<rparr>"
  using assms
proof (induction xs arbitrary: fs ps)
  case (Cons x xs)
  let ?fs = "fs @ flatten [usable_fixed x]" and ?ps = "ps @ flatten [usable_pps x]"
  have "push_pdo x \<lparr>caps_fixed = pack 7 fs, caps_pps = pack 7 ps\<rparr> =
      \<lparr>caps_fixed = pack 7 ?fs, caps_pps = pack 7 ?ps\<rparr>"
    using Cons.prems by (intro push_pdo_pack) auto
  moreover have "length ?fs + length xs \<le> 7" "length ?ps + length xs \<le> 7"
    using Cons.prems length_flatten_le [of "[usable_fixed x]"] length_flatten_le [of "[usable_pps x]"]
    by auto
  ultimately show ?case
    by (simp only: fold.simps comp_def id_def Cons.IH append_assoc flatten_map_Cons)
qed simp

lemma take_enumerate: "take k (List.enumerate n xs) = List.enumerate n (take k xs)"
  by (induction xs arbitrary: n k) (auto simp: take_Cons split: nat.splits)

lemma from_pdos_pack:
  "from_pdos pdos = \<lparr>caps_fixed = pack 7 (advertised_fixed pdos), caps_pps = pack 7 (advertised_pps pdos)\<rparr>"
proof -
  have "SourceCapabilities_empty = \<lparr>caps_fixed = pack 7 [], caps_pps = pack 7 []\<rparr>"
    by (simp add: SourceCapabilities_empty_def pack_def)
  moreover have "length [] + length (List.enumerate 0 (take 7 pdos)) \<le> 7" by simp
  ultimately show ?thesis
    using fold_push_pdo_pack [of "[]" "List.enumerate 0 (take 7 pdos)" "[]"]
    by (simp add: from_pdos_def take_enumerate advertised_fixed_def advertised_pps_def)
qed

section \<open>Well-formed capabilities\<close>

text \<open>
  What every decoded advertisement satisfies: array lengths, the positions of a list's
  objects strictly increasing within 1..7, and non-degenerate, protocol-aligned objects.
\<close>

definition wf_fixed :: "FixedPdo \<Rightarrow> bool" where
  "wf_fixed pdo \<longleftrightarrow> 1 \<le> fixed_object_position pdo \<and> fixed_object_position pdo \<le> 7
     \<and> fixed_voltage_mv pdo \<noteq> 0 \<and> fixed_max_ma pdo \<noteq> 0
     \<and> is_multiple_of (fixed_voltage_mv pdo) 50 \<and> is_multiple_of (fixed_max_ma pdo) 10"

definition wf_pps :: "PpsApdo \<Rightarrow> bool" where
  "wf_pps apdo \<longleftrightarrow> 1 \<le> pps_object_position apdo \<and> pps_object_position apdo \<le> 7
     \<and> pps_min_mv apdo \<noteq> 0 \<and> pps_min_mv apdo \<le> pps_max_mv apdo \<and> pps_max_ma apdo \<noteq> 0
     \<and> is_multiple_of (pps_min_mv apdo) 100 \<and> is_multiple_of (pps_max_mv apdo) 100
     \<and> is_multiple_of (pps_max_ma apdo) 50"

definition wf_caps :: "SourceCapabilities \<Rightarrow> bool" where
  "wf_caps caps \<longleftrightarrow> length (caps_fixed caps) = MAX_SOURCE_PDOS \<and> length (caps_pps caps) = MAX_SOURCE_PDOS
     \<and> list_all wf_fixed (flatten (caps_fixed caps)) \<and> list_all wf_pps (flatten (caps_pps caps))
     \<and> distinct (map fixed_object_position (flatten (caps_fixed caps)))
     \<and> distinct (map pps_object_position (flatten (caps_pps caps)))"

lemma ucast_mult_aligned:
  assumes "unat x * unat m < 2 ^ LENGTH('a)"
  shows "is_multiple_of (x * m) (m :: 'a::len word)"
  using assms by (simp add: is_multiple_of_iff unat_mult_lem [THEN iffD1])

lemma unat_ucast_field: "n \<le> 16 \<Longrightarrow> unat (ucast (take_bit n (w :: u32)) :: u16) < 2 ^ n"
proof -
  assume n: "n \<le> 16"
  have "unat (take_bit n w) < 2 ^ n" by (rule unat_take_bit_less)
  also have "(2 :: nat) ^ n \<le> 2 ^ 16" using n power_increasing [of n 16 "2 :: nat"] by simp
  finally show ?thesis
    using unat_take_bit_less [of n w]
    by (simp add: unsigned_ucast_eq take_bit_nat_eq_self)
qed

lemma usable_fixed_wf:
  assumes "usable_fixed (i, raw) = Some pdo" "i < 7"
  shows "wf_fixed pdo \<and> fixed_object_position pdo = word_of_nat (Suc i)"
proof -
  have "i \<in> {0,1,2,3,4,5,6}" using assms(2) by auto
  then have "(1 :: u8) \<le> word_of_nat (Suc i)" "word_of_nat (Suc i) \<le> (7 :: u8)" by auto
  moreover have "is_multiple_of (ucast (take_bit 10 (drop_bit 10 raw)) * 50 :: u16) 50"
    "is_multiple_of (ucast (take_bit 10 raw) * 10 :: u16) 10"
    using unat_ucast_field [of 10 "drop_bit 10 raw"] unat_ucast_field [of 10 raw]
    by (auto intro!: ucast_mult_aligned)
  ultimately show ?thesis
    using assms(1)
    by (auto simp: usable_fixed_def fixed_of_raw_def wf_fixed_def Let_def mask_simps split: if_splits)
qed

lemma usable_pps_wf:
  assumes "usable_pps (i, raw) = Some apdo" "i < 7"
  shows "wf_pps apdo \<and> pps_object_position apdo = word_of_nat (Suc i)"
proof -
  have "i \<in> {0,1,2,3,4,5,6}" using assms(2) by auto
  then have "(1 :: u8) \<le> word_of_nat (Suc i)" "word_of_nat (Suc i) \<le> (7 :: u8)" by auto
  moreover have "is_multiple_of (ucast (take_bit 8 (drop_bit 8 raw)) * 100 :: u16) 100"
    "is_multiple_of (ucast (take_bit 8 (drop_bit 17 raw)) * 100 :: u16) 100"
    "is_multiple_of (ucast (take_bit 7 raw) * 50 :: u16) 50"
    using unat_ucast_field [of 8 "drop_bit 8 raw"] unat_ucast_field [of 8 "drop_bit 17 raw"]
      unat_ucast_field [of 7 raw]
    by (auto intro!: ucast_mult_aligned)
  ultimately show ?thesis
    using assms(1)
    by (auto simp: usable_pps_def pps_of_raw_def wf_pps_def Let_def mask_simps split: if_splits)
qed

lemma distinct_positions:
  fixes pos :: "'a \<Rightarrow> u8"
  assumes f: "\<And>i raw x. f (i, raw) = Some x \<Longrightarrow> i < 7 \<Longrightarrow> pos x = word_of_nat (Suc i)"
    and len: "n + length xs \<le> 7"
  shows "distinct (map pos (flatten (map f (List.enumerate n xs))))
    \<and> (\<forall>x\<in>set (flatten (map f (List.enumerate n xs))). n < unat (pos x) \<and> unat (pos x) \<le> 7)"
  using len
proof (induction xs arbitrary: n)
  case (Cons raw xs)
  have IH: "distinct (map pos (flatten (map f (List.enumerate (Suc n) xs))))"
    "\<forall>x\<in>set (flatten (map f (List.enumerate (Suc n) xs))). Suc n < unat (pos x) \<and> unat (pos x) \<le> 7"
    using Cons.IH [of "Suc n"] Cons.prems by simp_all
  have "unat (pos x) = Suc n" if "f (n, raw) = Some x" for x
    using f [OF that] Cons.prems
    by (simp add: unsigned_of_nat take_bit_nat_eq_self del: of_nat_Suc)
  then show ?case using IH Cons.prems
    by (cases "f (n, raw)") (fastforce simp del: of_nat_Suc)+
qed simp

lemma wf_caps_from_pdos: "wf_caps (from_pdos pdos)"
proof -
  let ?xs = "List.enumerate 0 (take 7 pdos)"
  have idx: "(i, raw) \<in> set ?xs \<Longrightarrow> i < 7" for i raw
    by (auto simp: in_set_enumerate_eq)
  have "wf_fixed pdo" if "pdo \<in> set (advertised_fixed pdos)" for pdo
    using that idx usable_fixed_wf by (auto simp: advertised_fixed_def)
  moreover have "wf_pps apdo" if "apdo \<in> set (advertised_pps pdos)" for apdo
    using that idx usable_pps_wf by (auto simp: advertised_pps_def)
  moreover have "distinct (map fixed_object_position (advertised_fixed pdos))"
    "distinct (map pps_object_position (advertised_pps pdos))"
    using distinct_positions [of usable_fixed fixed_object_position 0 "take 7 pdos"]
      distinct_positions [of usable_pps pps_object_position 0 "take 7 pdos"]
      usable_fixed_wf usable_pps_wf
    by (auto simp: advertised_fixed_def advertised_pps_def)
  moreover have "length (advertised_fixed pdos) \<le> 7" "length (advertised_pps pdos) \<le> 7"
    using length_flatten_le [of "map usable_fixed ?xs"] length_flatten_le [of "map usable_pps ?xs"]
    by (auto simp: advertised_fixed_def advertised_pps_def)
  ultimately show ?thesis by (simp add: wf_caps_def from_pdos_pack list_all_iff)
qed

lemma wf_caps_empty: "wf_caps SourceCapabilities_empty"
  by (simp add: wf_caps_def SourceCapabilities_empty_def)

section \<open>Every selector answers with an advertised contract inside the envelope\<close>

definition in_envelope :: "Contract \<Rightarrow> bool" where
  "in_envelope c \<longleftrightarrow> 1 \<le> contract_object_position c \<and> contract_object_position c \<le> 7
     \<and> 0 < contract_current_ma c \<and> contract_current_ma c \<le> MAX_HEATER_CONTRACT_MA
     \<and> (case contract_kind c of
          FixedContract \<Rightarrow> FUSB302B_PD_ABSOLUTE_MIN_MV \<le> contract_voltage_mv c
                          \<and> contract_voltage_mv c \<le> FUSB302B_FIXED_MAX_MV
        | PpsContract \<Rightarrow> FUSB302B_PPS_MIN_MV \<le> contract_voltage_mv c
                        \<and> contract_voltage_mv c \<le> FUSB302B_PPS_MAX_MV
        | NoContract \<Rightarrow> False)"

text \<open>
  The interface between the advertisement and the sink policy: a selector answers a query
  with a contract that the source advertises and that lies in the product's envelope.
\<close>

locale contract_selector =
  fixes select :: "SourceCapabilities \<Rightarrow> 'q \<Rightarrow> Contract option"
  assumes select_supported: "wf_caps caps \<Longrightarrow> select caps q = Some c \<Longrightarrow> supports_contract caps c"
    and select_envelope: "wf_caps caps \<Longrightarrow> select caps q = Some c \<Longrightarrow> in_envelope c"
begin

lemma select_good:
  "wf_caps caps \<Longrightarrow> select caps q = Some c \<Longrightarrow> supports_contract caps c \<and> in_envelope c"
  by (simp add: select_supported select_envelope)

lemma select_not_none: "wf_caps caps \<Longrightarrow> select caps q = Some c \<Longrightarrow> c \<noteq> Contract_none"
  using select_envelope by (fastforce simp: in_envelope_def Contract_none_def)

lemma select_confirmable:
  assumes "wf_caps caps" "select caps q = Some c"
  shows "\<exists>conf. from_private_contract c caps = Some conf
    \<and> confirmed_voltage_mv conf = contract_voltage_mv c
    \<and> confirmed_operating_current_ma conf = contract_current_ma c"
  using select_supported [OF assms] select_envelope [OF assms]
  by (auto simp: from_private_contract_def in_envelope_def Let_def split: ContractKind.splits)

end

interpretation pps_pair: strict_preference pps_pair_is_better
  by unfold_locales
    (auto simp: pps_pair_is_better_def pps_candidate_is_better_def split: prod.splits if_splits)

interpretation pps_capability: strict_preference pps_capability_is_better
  by unfold_locales (auto simp: pps_capability_is_better_def split: if_splits)

interpretation fixed_candidate: strict_preference fixed_candidate_is_better
  by unfold_locales (auto simp: fixed_candidate_is_better_def)

interpretation by_current: key_order current_then_low_position_le
  by unfold_locales (auto simp: current_then_low_position_le_def)

interpretation by_voltage: key_order voltage_then_current_le
  by unfold_locales (auto simp: voltage_then_current_le_def)

lemma unat_standby_current:
  assumes "v \<noteq> 0"
  shows "unat (standby_current_for_voltage v) =
    min 5000 (((5000000 + unat v - 1) div unat v + 9) div 10 * 10)"
proof -
  let ?req = "div_ceil 5000000 (ucast v) :: u32"
  let ?n = "(5000000 + unat v - 1) div unat v"
  have v: "0 < unat v" using assms by (simp add: unat_gt_0)
  have uv: "unat (ucast v :: u32) = unat v" by (simp add: unat_ucast_up)
  have req: "unat ?req = ?n" using v uv by (simp add: unat_div_ceil)
  have "?n \<le> 5000000" using v by (subst ceil_div_le_iff) simp_all
  then have small: "(?n + 9) div 10 * 10 < 2 ^ 32" by simp
  have "unat (div_ceil ?req 10) = (?n + 9) div 10" by (simp add: unat_div_ceil req)
  then have al: "unat (div_ceil ?req 10 * 10) = (?n + 9) div 10 * 10"
    using small by (simp add: unat_mult_lem [THEN iffD1])
  show ?thesis
    using assms al
    by (auto simp: standby_current_for_voltage_def Let_def word_less_nat_alt min_def
        unsigned_ucast_eq take_bit_nat_eq_self)
qed

lemma standby_current_bounds:
  assumes "v \<noteq> 0"
  shows "0 < standby_current_for_voltage v" "standby_current_for_voltage v \<le> 5000"
    "is_multiple_of (standby_current_for_voltage v) 10"
proof -
  let ?n = "(5000000 + unat v - 1) div unat v"
  have v: "0 < unat v" using assms by (simp add: unat_gt_0)
  have "\<not> ?n \<le> 0" using v by (simp only: ceil_div_le_iff)
  then have "0 < (?n + 9) div 10 * 10" by (simp only: div_greater_zero_iff nat_0_less_mult_iff) linarith
  then show "0 < standby_current_for_voltage v"
    using unat_standby_current [OF assms] by (simp add: word_less_nat_alt)
  show "standby_current_for_voltage v \<le> 5000"
    using assms by (simp add: word_le_nat_alt unat_standby_current)
  show "is_multiple_of (standby_current_for_voltage v) 10"
    using assms by (simp add: is_multiple_of_iff unat_standby_current min_def)
qed

lemma standby_current_power:
  assumes "1000 \<le> v"
  shows "5000000 \<le> unat v * unat (standby_current_for_voltage v)"
    and "10 dvd m \<Longrightarrow> 5000000 \<le> unat v * m \<Longrightarrow> unat (standby_current_for_voltage v) \<le> m"
proof -
  let ?n = "(5000000 + unat v - 1) div unat v" and ?s = "unat (standby_current_for_voltage v)"
  have v: "1000 \<le> unat v" using assms by (simp add: word_le_nat_alt)
  then have "v \<noteq> 0" "0 < unat v" by auto
  have n: "?n \<le> k \<longleftrightarrow> 5000000 \<le> k * unat v" for k
    using \<open>0 < unat v\<close> by (rule ceil_div_le_iff)
  have s: "?s = min 5000 ((?n + 9) div 10 * 10)" using \<open>v \<noteq> 0\<close> by (rule unat_standby_current)
  have "?n \<le> 5000" using v n [of 5000] by simp
  moreover have "?n \<le> (?n + 9) div 10 * 10" using ceil_div_mult_ge [of 10 ?n] by simp
  ultimately have "?n \<le> ?s" using s by simp
  then show "5000000 \<le> unat v * ?s" using n by (simp add: mult.commute)
  show "?s \<le> m" if "10 dvd m" "5000000 \<le> unat v * m"
  proof -
    from that(1) obtain k where k: "m = k * 10" by (metis dvdE mult.commute)
    have "?n \<le> m" using n [of m] that(2) by (simp add: mult.commute)
    then have "(?n + 10 - 1) div 10 \<le> k" unfolding k using ceil_div_le_iff [of 10 ?n k] by linarith
    then have "(?n + 9) div 10 * 10 \<le> m" using k by simp
    then show ?thesis using s by (simp add: min_le_iff_disj)
  qed
qed

lemma wf_caps_fixed: "wf_caps caps \<Longrightarrow> Some pdo \<in> set (caps_fixed caps) \<Longrightarrow> wf_fixed pdo"
  by (auto simp: wf_caps_def list_all_iff)

lemma wf_caps_pps: "wf_caps caps \<Longrightarrow> Some apdo \<in> set (caps_pps caps) \<Longrightarrow> wf_pps apdo"
  by (auto simp: wf_caps_def list_all_iff)

lemmas request_ctor_defs =
  fixed_request_def pps_request_def automatic_pps_def calibration_pps_def pps_with_minimum_def is_ok_def

lemma well_formed_fixed:
  assumes "is_well_formed req" "request_mode req = FixedRequest"
  shows "5000 \<le> request_voltage_mv req" "request_voltage_mv req \<le> 20000"
    "3000 \<le> request_operating_current_ma req" "request_operating_current_ma req \<le> 5000"
    "is_multiple_of (request_voltage_mv req) 50" "is_multiple_of (request_operating_current_ma req) 10"
    "request_pps_range req = None"
  using assms
  by (auto simp: is_well_formed_def request_ctor_defs split: if_splits option.splits)

lemma well_formed_pps:
  assumes "is_well_formed req" "request_mode req = PpsRequest"
  shows "5500 \<le> request_voltage_mv req" "request_voltage_mv req \<le> 28000"
    "1000 \<le> request_operating_current_ma req" "request_operating_current_ma req \<le> 5000"
    "is_multiple_of (request_voltage_mv req) 100" "is_multiple_of (request_operating_current_ma req) 50"
  using assms
  by (auto simp: is_well_formed_def request_ctor_defs word_order_nat split: if_splits option.splits)

lemma pps_with_minimum_InrD:
  assumes "pps_with_minimum v i m = Inr req"
  shows "5500 \<le> v" "v \<le> 28000" "m \<le> i" "i \<le> 5000" "is_multiple_of v 100" "is_multiple_of i 50" "v \<noteq> 0" "i \<noteq> 0"
    "req = \<lparr>request_mode = PpsRequest, request_voltage_mv = v, request_operating_current_ma = i,
       request_calibration = (m = 1000), request_pps_range = None\<rparr>"
  using assms by (auto simp: pps_with_minimum_def split: if_splits)

lemma pps_with_minimum_ok:
  "is_ok (pps_with_minimum v i m) \<longleftrightarrow> v \<noteq> 0 \<and> i \<noteq> 0 \<and> 5500 \<le> v \<and> v \<le> 28000 \<and> m \<le> i \<and> i \<le> 5000
     \<and> is_multiple_of v 100 \<and> is_multiple_of i 50"
  by (auto simp: pps_with_minimum_def is_ok_def)

lemma is_ok_automatic [simp]: "is_ok (automatic_pps v i) = is_ok (pps_with_minimum v i 1000)"
  by (simp add: automatic_pps_def is_ok_def split: sum.splits)

lemma pps_requests_well_formed:
  assumes "pps_with_minimum v i m = Inr req" "m = 3000 \<or> m = 1000"
  shows "is_well_formed (req\<lparr>request_calibration := False\<rparr>)" "m = 3000 \<Longrightarrow> is_well_formed req"
    "m = 1000 \<Longrightarrow> v \<le> 21000 \<Longrightarrow> i \<le> 3000 \<Longrightarrow> is_well_formed req"
  using pps_with_minimum_InrD [OF assms(1)] assms(2)
  by (auto simp: is_well_formed_def pps_request_def calibration_pps_def pps_with_minimum_ok not_less)

lemma select_exact_SomeD:
  assumes "select_exact_contract caps req = Some c"
  shows "is_well_formed req" "supports_contract caps c"
    "contract_voltage_mv c = request_voltage_mv req"
    "contract_current_ma c = request_operating_current_ma req"
    "contract_kind c = (case request_mode req of FixedRequest \<Rightarrow> FixedContract | PpsRequest \<Rightarrow> PpsContract)"
  using assms
  by (auto simp: select_exact_contract_def supports_contract_def list_ex_iff
      fixed_contract_def pps_contract_def dest!: find_SomeD
      split: if_splits PdContractRequestMode.splits)

lemma supports_position:
  assumes "wf_caps caps" "supports_contract caps c"
  shows "1 \<le> contract_object_position c \<and> contract_object_position c \<le> 7"
  using assms wf_caps_fixed wf_caps_pps
  by (auto simp: supports_contract_def list_ex_iff wf_fixed_def wf_pps_def split: ContractKind.splits)
    metis+

interpretation exact: contract_selector select_exact_contract
proof
  fix caps req c
  assume wf: "wf_caps caps" and sel: "select_exact_contract caps req = Some c"
  note D = select_exact_SomeD [OF sel]
  show "supports_contract caps c" by (rule D(2))
  show "in_envelope c"
    using supports_position [OF wf D(2)] D well_formed_fixed [OF D(1)] well_formed_pps [OF D(1)]
    by (cases "request_mode req") (auto simp: in_envelope_def word_order_nat)
qed

lemma pps_contract_good:
  assumes "wf_caps caps" "Some apdo \<in> set (caps_pps caps)" "pps_min_mv apdo \<le> v" "v \<le> pps_max_mv apdo"
    "5500 \<le> v" "v \<le> 28000" "0 < i" "i \<le> pps_max_ma apdo" "i \<le> 5000"
  shows "supports_contract caps (pps_contract apdo v i) \<and> in_envelope (pps_contract apdo v i)"
  using assms wf_caps_pps [OF assms(1,2)]
  by (auto simp: supports_contract_def list_ex_iff in_envelope_def pps_contract_def wf_pps_def)

lemma fixed_contract_good:
  assumes "wf_caps caps" "Some pdo \<in> set (caps_fixed caps)"
    "5000 \<le> fixed_voltage_mv pdo" "fixed_voltage_mv pdo \<le> 20000" "0 < i" "i \<le> fixed_max_ma pdo" "i \<le> 5000"
  shows "supports_contract caps (fixed_contract pdo i) \<and> in_envelope (fixed_contract pdo i)"
  using assms wf_caps_fixed [OF assms(1,2)]
  by (auto simp: supports_contract_def list_ex_iff in_envelope_def fixed_contract_def wf_fixed_def)

lemma limited_current:
  assumes "(3000 :: u16) \<le> x"
  shows "3000 \<le> min (min x (clamp 3000 5000 y)) 5000" "0 < min (min x (clamp 3000 5000 y)) 5000"
    "min (min x (clamp 3000 5000 y)) 5000 \<le> x" "min (min x (clamp 3000 5000 y)) 5000 \<le> 5000"
proof -
  show a: "3000 \<le> min (min x (clamp 3000 5000 y)) 5000" using assms by (auto simp: clamp_def)
  have "0 < (3000 :: u16)" by simp
  then show "0 < min (min x (clamp 3000 5000 y)) 5000" using a by (rule less_le_trans)
  show "min (min x (clamp 3000 5000 y)) 5000 \<le> x" "min (min x (clamp 3000 5000 y)) 5000 \<le> 5000"
    by (auto simp: min.coboundedI1)
qed

lemma not_pps_pair_is_better:
  "\<not> pps_pair_is_better (a, x) (b, y) \<Longrightarrow> contract_current_ma x \<le> contract_current_ma y"
  by (auto simp: pps_pair_is_better_def pps_candidate_is_better_def split: if_splits)

lemma select_fusb302b_cases:
  assumes "select_fusb302b_contract caps wanted_mv preferred_ma = Some c"
  defines "mv \<equiv> max (clamp 5000 28000 wanted_mv) (5500 :: u16)" and "ma \<equiv> clamp 3000 5000 preferred_ma"
  obtains (pps) apdo where "Some apdo \<in> set (caps_pps caps)" "3000 \<le> pps_max_ma apdo"
      "pps_min_mv apdo \<le> mv" "mv \<le> pps_max_mv apdo"
      "c = pps_contract apdo mv (min (min (pps_max_ma apdo) ma) 5000)"
      "\<forall>apdo'. Some apdo' \<in> set (caps_pps caps) \<longrightarrow> 3000 \<le> pps_max_ma apdo' \<longrightarrow> pps_min_mv apdo' \<le> mv
         \<longrightarrow> mv \<le> pps_max_mv apdo' \<longrightarrow> min (pps_max_ma apdo') ma \<le> min (pps_max_ma apdo) ma"
    | (fixed) pdo where "Some pdo \<in> set (caps_fixed caps)" "5000 \<le> fixed_voltage_mv pdo"
      "fixed_voltage_mv pdo \<le> 20000" "fixed_voltage_mv pdo \<le> mv" "3000 \<le> fixed_max_ma pdo"
      "c = fixed_contract pdo (min (min (fixed_max_ma pdo) ma) 5000)"
      "\<forall>apdo. Some apdo \<in> set (caps_pps caps) \<longrightarrow> 3000 \<le> pps_max_ma apdo \<longrightarrow> pps_min_mv apdo \<le> mv
         \<longrightarrow> \<not> mv \<le> pps_max_mv apdo"
      "\<forall>pdo'. Some pdo' \<in> set (caps_fixed caps) \<longrightarrow> 5000 \<le> fixed_voltage_mv pdo' \<longrightarrow> fixed_voltage_mv pdo' \<le> 20000
         \<longrightarrow> fixed_voltage_mv pdo' \<le> mv \<longrightarrow> 3000 \<le> fixed_max_ma pdo' \<longrightarrow> fixed_voltage_mv pdo' \<le> fixed_voltage_mv pdo"
proof -
  have ma: "ma \<le> 5000" by (auto simp: ma_def clamp_def)
  let ?ps = "filter (\<lambda>apdo. \<not> (pps_max_ma apdo < 3000 \<or> pps_min_mv apdo > mv \<or> pps_max_mv apdo < mv))
                (flatten (caps_pps caps))"
  let ?cand = "\<lambda>apdo. (apdo, pps_contract apdo mv (min (min (pps_max_ma apdo) ma) 5000))"
  let ?fs = "filter (\<lambda>pdo. \<not> (fixed_voltage_mv pdo < 5000 \<or> fixed_voltage_mv pdo > 20000
                \<or> fixed_voltage_mv pdo > mv \<or> fixed_max_ma pdo < 3000)) (flatten (caps_fixed caps))"
  let ?fcand = "\<lambda>pdo. fixed_contract pdo (min (min (fixed_max_ma pdo) ma) 5000)"
  show thesis
  proof (cases "keep_best pps_pair_is_better (map ?cand ?ps)")
    case None
    then have "?ps = []" by simp
    then have no: "\<forall>apdo. Some apdo \<in> set (caps_pps caps) \<longrightarrow> 3000 \<le> pps_max_ma apdo \<longrightarrow> pps_min_mv apdo \<le> mv
         \<longrightarrow> \<not> mv \<le> pps_max_mv apdo" by (auto simp: filter_empty_conv)
    have kb: "keep_best fixed_candidate_is_better (map ?fcand ?fs) = Some c"
      using assms(1) None by (simp add: select_fusb302b_contract_def mv_def ma_def Let_def)
    from fixed_candidate.keep_best_optimal [OF kb] obtain pdo where
      pdo: "pdo \<in> set ?fs" "c = ?fcand pdo" and best: "\<forall>x\<in>set (map ?fcand ?fs). \<not> fixed_candidate_is_better x c"
      by auto
    have "fixed_voltage_mv pdo' \<le> fixed_voltage_mv pdo" if "pdo' \<in> set ?fs" for pdo'
      using best that pdo(2) by (auto simp: fixed_candidate_is_better_def fixed_contract_def)
    then show thesis using fixed [of pdo] pdo no by (simp add: not_less)
  next
    case (Some p)
    then have "c = snd p"
      using assms(1) by (auto simp: select_fusb302b_contract_def mv_def ma_def Let_def split: prod.splits)
    with pps_pair.keep_best_optimal [OF Some] obtain apdo where
      apdo: "apdo \<in> set ?ps" "p = ?cand apdo" "c = snd (?cand apdo)"
      and best: "\<forall>x\<in>set (map ?cand ?ps). \<not> pps_pair_is_better x p" by auto
    have "min (min (pps_max_ma apdo') ma) 5000 \<le> min (min (pps_max_ma apdo) ma) 5000" if "apdo' \<in> set ?ps" for apdo'
    proof -
      have "\<not> pps_pair_is_better (?cand apdo') (?cand apdo)" using best that apdo(2) by simp
      then show ?thesis using not_pps_pair_is_better by (fastforce simp: pps_contract_def)
    qed
    moreover have "min (min x ma) 5000 = min x ma" for x using ma by (auto simp: min_def)
    ultimately show thesis using pps [of apdo] apdo by (simp add: not_less)
  qed
qed

lemma clamped_request_bounds:
  "5500 \<le> max (clamp 5000 28000 v) (5500 :: u16)" "max (clamp 5000 28000 v) (5500 :: u16) \<le> 28000"
  by (auto simp: clamp_def)

interpretation automatic: contract_selector "\<lambda>caps (mv, ma). select_fusb302b_contract caps mv ma"
proof
  fix caps c and q :: "u16 \<times> u16"
  assume wf: "wf_caps caps" and "(case q of (mv, ma) \<Rightarrow> select_fusb302b_contract caps mv ma) = Some c"
  then obtain mv ma where sel: "select_fusb302b_contract caps mv ma = Some c" by (cases q) auto
  have "supports_contract caps c \<and> in_envelope c"
    using sel
  proof (cases rule: select_fusb302b_cases)
    case (pps apdo)
    show ?thesis unfolding pps(5)
      using pps_contract_good [OF wf pps(1,3,4) clamped_request_bounds] limited_current [OF pps(2)] by simp
  next
    case (fixed pdo)
    show ?thesis unfolding fixed(6)
      using fixed_contract_good [OF wf fixed(1,2,3)] limited_current [OF fixed(5)] by simp
  qed
  then show "supports_contract caps c" "in_envelope c" by simp_all
qed

lemma select_fixed_SomeD:
  assumes "select_fusb302b_fixed_contract caps requested_mv preferred_ma = Some c"
  obtains pdo where "Some pdo \<in> set (caps_fixed caps)" "fixed_voltage_mv pdo = requested_mv"
    "3000 \<le> fixed_max_ma pdo" "5000 \<le> requested_mv" "requested_mv \<le> 20000"
    "c = fixed_contract pdo (min (min (fixed_max_ma pdo) (clamp 3000 5000 preferred_ma)) 5000)"
proof -
  let ?fs = "filter (\<lambda>pdo. fixed_voltage_mv pdo = requested_mv \<and> 3000 \<le> fixed_max_ma pdo) (flatten (caps_fixed caps))"
  let ?cand = "\<lambda>pdo. fixed_contract pdo (min (min (fixed_max_ma pdo) (clamp 3000 5000 preferred_ma)) 5000)"
  have "max_by current_then_low_position_le (map ?cand ?fs) = Some c" "5000 \<le> requested_mv" "requested_mv \<le> 20000"
    using assms by (auto simp: select_fusb302b_fixed_contract_def Let_def split: if_splits)
  then show thesis using by_current.max_by_greatest [of "map ?cand ?fs" c] that by auto
qed

interpretation terminal_fixed: contract_selector "\<lambda>caps (mv, ma). select_fusb302b_fixed_contract caps mv ma"
proof
  fix caps c and q :: "u16 \<times> u16"
  assume wf: "wf_caps caps" and "(case q of (mv, ma) \<Rightarrow> select_fusb302b_fixed_contract caps mv ma) = Some c"
  then obtain mv ma where sel: "select_fusb302b_fixed_contract caps mv ma = Some c" by (cases q) auto
  from sel obtain pdo where pdo: "Some pdo \<in> set (caps_fixed caps)" "fixed_voltage_mv pdo = mv"
    "3000 \<le> fixed_max_ma pdo" "5000 \<le> mv" "mv \<le> 20000"
    "c = fixed_contract pdo (min (min (fixed_max_ma pdo) (clamp 3000 5000 ma)) 5000)"
    by (rule select_fixed_SomeD)
  then have "supports_contract caps c \<and> in_envelope c"
    using fixed_contract_good [OF wf pdo(1)] limited_current [OF pdo(3)] by simp
  then show "supports_contract caps c" "in_envelope c" by simp_all
qed

lemma select_standby_SomeD:
  assumes "select_fusb302b_standby_contract caps wanted_mv = Some c"
  defines "mv \<equiv> clamp 5000 20000 wanted_mv"
  obtains pdo where "Some pdo \<in> set (caps_fixed caps)" "mv \<le> fixed_voltage_mv pdo"
    "fixed_voltage_mv pdo \<le> 20000" "standby_current_for_voltage (fixed_voltage_mv pdo) \<le> fixed_max_ma pdo"
    "c = fixed_contract pdo (standby_current_for_voltage (fixed_voltage_mv pdo))"
    "\<forall>pdo'. Some pdo' \<in> set (caps_fixed caps) \<longrightarrow> mv \<le> fixed_voltage_mv pdo' \<longrightarrow> fixed_voltage_mv pdo' \<le> 20000
       \<longrightarrow> standby_current_for_voltage (fixed_voltage_mv pdo') \<le> fixed_max_ma pdo'
       \<longrightarrow> fixed_voltage_mv pdo \<le> fixed_voltage_mv pdo'"
proof -
  let ?fs = "filter (\<lambda>pdo. mv \<le> fixed_voltage_mv pdo \<and> fixed_voltage_mv pdo \<le> 20000
      \<and> standby_current_for_voltage (fixed_voltage_mv pdo) \<le> fixed_max_ma pdo) (flatten (caps_fixed caps))"
  let ?cand = "\<lambda>pdo. fixed_contract pdo (standby_current_for_voltage (fixed_voltage_mv pdo))"
  have "min_by voltage_then_current_le (map ?cand ?fs) = Some c"
    using assms by (simp add: select_fusb302b_standby_contract_def Let_def)
  from by_voltage.min_by_least [OF this] obtain pdo where
    pdo: "pdo \<in> set ?fs" "c = ?cand pdo" "\<forall>x\<in>set (map ?cand ?fs). voltage_then_current_le c x"
    by auto
  then have "fixed_voltage_mv pdo \<le> fixed_voltage_mv pdo'" if "pdo' \<in> set ?fs" for pdo'
    using that by (fastforce simp: voltage_then_current_le_def fixed_contract_def)
  then show thesis using pdo that [of pdo] by simp
qed

interpretation standby: contract_selector select_fusb302b_standby_contract
proof
  fix caps mv c
  assume wf: "wf_caps caps" and sel: "select_fusb302b_standby_contract caps mv = Some c"
  from sel obtain pdo where pdo: "Some pdo \<in> set (caps_fixed caps)" "clamp 5000 20000 mv \<le> fixed_voltage_mv pdo"
    "fixed_voltage_mv pdo \<le> 20000" "standby_current_for_voltage (fixed_voltage_mv pdo) \<le> fixed_max_ma pdo"
    "c = fixed_contract pdo (standby_current_for_voltage (fixed_voltage_mv pdo))"
    by (rule select_standby_SomeD)
  have "5000 \<le> clamp 5000 20000 mv" by (auto simp: clamp_def)
  then have v: "5000 \<le> fixed_voltage_mv pdo" using pdo(2) by simp
  have "fixed_voltage_mv pdo \<noteq> 0" using v by auto
  then have "supports_contract caps c \<and> in_envelope c"
    using fixed_contract_good [OF wf pdo(1) v pdo(3)] standby_current_bounds pdo(4,5) by simp
  then show "supports_contract caps c" "in_envelope c" by simp_all
qed

lemma standby_pps_step_Ret:
  assumes "contract_kind active = PpsContract \<Longrightarrow> 5500 \<le> contract_voltage_mv active \<and> contract_voltage_mv active \<le> 28000"
  shows "\<exists>r. select_fusb302b_standby_pps_step caps active requested_mv = Ret r"
proof -
  have "max (pps_min_mv apdo) 5500 \<le> min (pps_max_mv apdo) 28000"
    if "contract_kind active = PpsContract"
      "List.find (\<lambda>apdo. pps_object_position apdo = contract_object_position active
         \<and> pps_min_mv apdo \<le> contract_voltage_mv active \<and> contract_voltage_mv active \<le> pps_max_mv apdo)
         (flatten (caps_pps caps)) = Some apdo" for apdo
    using assms [OF that(1)] find_SomeD [OF that(2)] by (auto simp: min_def max_def)
  then show ?thesis
    by (auto simp: select_fusb302b_standby_pps_step_def checked_clamp_def split: option.splits)
qed

lemma standby_pps_step_SomeD:
  assumes "select_fusb302b_standby_pps_step caps active requested_mv = Ret (Some c)"
  obtains apdo where "contract_kind active = PpsContract" "Some apdo \<in> set (caps_pps caps)"
    "pps_object_position apdo = contract_object_position active"
    "pps_min_mv apdo \<le> contract_voltage_mv active" "contract_voltage_mv active \<le> pps_max_mv apdo"
    "max (pps_min_mv apdo) 5500 \<le> min (pps_max_mv apdo) 28000"
    "c = pps_contract apdo (clamp (max (pps_min_mv apdo) 5500) (min (pps_max_mv apdo) 28000) requested_mv)
           (min (pps_max_ma apdo) (contract_current_ma active) div 50 * 50)"
    "contract_voltage_mv c < contract_voltage_mv active" "0 < contract_current_ma c"
  using assms
  by (auto simp: select_fusb302b_standby_pps_step_def checked_clamp_def Let_def pps_contract_def not_le
      dest!: find_SomeD split: if_splits option.splits)

lemma standby_pps_step_good:
  assumes wf: "wf_caps caps" and step: "select_fusb302b_standby_pps_step caps active requested_mv = Ret (Some c)"
    and cur: "contract_current_ma active \<le> 5000"
  shows "supports_contract caps c" "in_envelope c" "contract_kind c = PpsContract"
    "contract_object_position c = contract_object_position active"
    "contract_current_ma c \<le> contract_current_ma active"
    "contract_voltage_mv c < contract_voltage_mv active"
proof -
  from step obtain apdo where A: "contract_kind active = PpsContract" "Some apdo \<in> set (caps_pps caps)"
    "pps_object_position apdo = contract_object_position active"
    "pps_min_mv apdo \<le> contract_voltage_mv active" "contract_voltage_mv active \<le> pps_max_mv apdo"
    "max (pps_min_mv apdo) 5500 \<le> min (pps_max_mv apdo) 28000"
    "c = pps_contract apdo (clamp (max (pps_min_mv apdo) 5500) (min (pps_max_mv apdo) 28000) requested_mv)
           (min (pps_max_ma apdo) (contract_current_ma active) div 50 * 50)"
    "contract_voltage_mv c < contract_voltage_mv active" "0 < contract_current_ma c"
    by (rule standby_pps_step_SomeD)
  have wfa: "wf_pps apdo" by (rule wf_caps_pps [OF wf A(2)])
  have "min (pps_max_ma apdo) (contract_current_ma active) div 50 * 50 \<le> min (pps_max_ma apdo) (contract_current_ma active)"
    by (rule word_div_mult_le)
  then have c: "contract_current_ma c \<le> pps_max_ma apdo" "contract_current_ma c \<le> contract_current_ma active"
    using A(7) by (simp_all add: pps_contract_def)
  have v: "max (pps_min_mv apdo) 5500 \<le> contract_voltage_mv c" "contract_voltage_mv c \<le> min (pps_max_mv apdo) 28000"
    using A(6,7) clamp_bounds [OF A(6)] by (simp_all add: pps_contract_def)
  show "contract_kind c = PpsContract" "contract_object_position c = contract_object_position active"
    using A(3,7) by (simp_all add: pps_contract_def)
  then show "supports_contract caps c" "in_envelope c"
    using A(2,3,9) c v wfa cur by (auto simp: supports_contract_def list_ex_iff in_envelope_def wf_pps_def)
  show "contract_current_ma c \<le> contract_current_ma active" by (rule c)
  show "contract_voltage_mv c < contract_voltage_mv active" by (rule A)
qed

section \<open>The published view decides APDO continuity\<close>

lemma view_selects_slot:
  "view_selects req (map_option apdo_range slot) \<longleftrightarrow>
     (case slot of None \<Rightarrow> False | Some apdo \<Rightarrow>
       (case request_pps_range req of None \<Rightarrow> True | Some rng \<Rightarrow>
          range_min_mv rng = pps_min_mv apdo \<and> range_max_mv rng = pps_max_mv apdo
          \<and> range_max_current_ma rng = pps_max_ma apdo)
       \<and> pps_min_mv apdo \<le> request_voltage_mv req \<and> pps_max_mv apdo \<ge> request_voltage_mv req
       \<and> pps_max_ma apdo \<ge> request_operating_current_ma req)"
  by (auto simp: view_selects_def apdo_range_def split: option.splits)

lemma select_exact_pps_by_index:
  assumes "is_well_formed req" "request_mode req = PpsRequest"
  shows "select_exact_contract caps req =
    (case position (view_selects req) (view_pps (view caps)) of None \<Rightarrow> None
     | Some i \<Rightarrow> map_option (\<lambda>apdo. pps_contract apdo (request_voltage_mv req) (request_operating_current_ma req))
                (caps_pps caps ! i))"
  using assms
  by (auto simp: select_exact_contract_def find_flatten view_def position_map comp_def view_selects_slot
      split: option.splits)

lemma selected_index_same_apdo:
  assumes wf: "wf_caps caps" and conf: "from_private_contract c caps = Some conf"
    and sel: "selected_index_is conf (view caps) req"
    and req: "is_well_formed req" "request_mode req = PpsRequest" and mode: "confirmed_mode conf = PpsRequest"
  shows "\<exists>c'. select_exact_contract caps req = Some c' \<and> contract_kind c' = PpsContract
    \<and> contract_object_position c' = contract_object_position c
    \<and> contract_voltage_mv c' = request_voltage_mv req
    \<and> contract_current_ma c' = request_operating_current_ma req"
proof -
  let ?at = "\<lambda>slot. case slot of None \<Rightarrow> False | Some apdo \<Rightarrow> pps_object_position apdo = contract_object_position c"
  have kind: "contract_kind c = PpsContract"
    using conf mode by (auto simp: from_private_contract_def Let_def split: if_splits ContractKind.splits)
  obtain i where i: "position (view_selects req) (view_pps (view caps)) = Some i"
    and ci: "confirmed_pps_capability_index conf = Some (word_of_nat i)"
    using sel by (auto simp: selected_index_is_def split: option.splits)
  obtain j where j: "position ?at (caps_pps caps) = Some j" and cj: "(word_of_nat j :: u8) = word_of_nat i"
    using conf kind ci by (auto simp: from_private_contract_def Let_def split: if_splits)
  have len: "length (caps_pps caps) = 7" using wf by (simp add: wf_caps_def)
  have "i < 7" "j < 7"
    using position_Some [OF i] position_Some [OF j] len by (simp_all add: view_def)
  then have "j = i" using cj by (simp add: of_nat_eq_iff word_of_nat_eq_iff take_bit_nat_eq_self)
  moreover obtain apdo where "caps_pps caps ! j = Some apdo" "pps_object_position apdo = contract_object_position c"
    using position_Some [OF j] by (auto split: option.splits)
  ultimately show ?thesis
    using select_exact_pps_by_index [OF req, of caps] i by (simp add: pps_contract_def)
qed

section \<open>A concrete source\<close>

text \<open>A 100 W source: 5 V and 20 V fixed PDOs and a 5 V to 21 V programmable APDO at 5 A.\<close>

definition bench_source :: "u32 list" where
  "bench_source = [0x1912C, 0x641F4, 0xC1A43264]"

lemma bench_caps:
  "from_pdos bench_source =
     \<lparr>caps_fixed = [Some \<lparr>fixed_object_position = 1, fixed_voltage_mv = 5000, fixed_max_ma = 3000\<rparr>,
                    Some \<lparr>fixed_object_position = 2, fixed_voltage_mv = 20000, fixed_max_ma = 5000\<rparr>,
                    None, None, None, None, None],
      caps_pps = [Some \<lparr>pps_object_position = 3, pps_min_mv = 5000, pps_max_mv = 21000, pps_max_ma = 5000\<rparr>,
                  None, None, None, None, None, None]\<rparr>"
  by code_simp

definition bench_request :: PdContractRequest where
  "bench_request = \<lparr>request_mode = PpsRequest, request_voltage_mv = 12000,
     request_operating_current_ma = 3000, request_calibration = False, request_pps_range = None\<rparr>"

definition bench_contract :: Contract where
  "bench_contract = \<lparr>contract_kind = PpsContract, contract_object_position = 3,
     contract_voltage_mv = 12000, contract_current_ma = 3000\<rparr>"

lemma bench_select: "select_exact_contract (from_pdos bench_source) bench_request = Some bench_contract"
  by code_simp

section \<open>Properties\<close>

text \<open>
  Decoding a Source_Capabilities message keeps every usable object: the arrays hold
  exactly the usable fixed PDOs and PPS APDOs of the first seven positions, in order, and the
  result is well formed (distinct positions in 1..7, aligned and non-degenerate objects).
\<close>

theorem from_pdos_keeps_every_object:
  "flatten (caps_fixed (from_pdos pdos)) = advertised_fixed pdos
   \<and> flatten (caps_pps (from_pdos pdos)) = advertised_pps pdos \<and> wf_caps (from_pdos pdos)"
  by (simp add: from_pdos_pack wf_caps_from_pdos [unfolded from_pdos_pack])



text \<open>
  Exact selection never substitutes and never gives up early: what it returns is an
  advertised object at exactly the requested mode, voltage and current, and for a request that
  is not pinned to one APDO it succeeds whenever some advertised object could serve it.
\<close>

theorem select_exact_contract_exact_and_complete:
  "(select_exact_contract caps req = Some c \<longrightarrow>
      is_well_formed req \<and> supports_contract caps c
      \<and> contract_voltage_mv c = request_voltage_mv req
      \<and> contract_current_ma c = request_operating_current_ma req
      \<and> (contract_kind c = PpsContract \<longleftrightarrow> request_mode req = PpsRequest))
   \<and> (is_well_formed req \<and> request_pps_range req = None \<and> supports_contract caps c'
      \<and> contract_voltage_mv c' = request_voltage_mv req
      \<and> contract_current_ma c' = request_operating_current_ma req
      \<and> contract_kind c' = (case request_mode req of FixedRequest \<Rightarrow> FixedContract | PpsRequest \<Rightarrow> PpsContract)
      \<longrightarrow> (\<exists>c. select_exact_contract caps req = Some c))"
proof (intro conjI impI)
  assume "select_exact_contract caps req = Some c"
  note D = select_exact_SomeD [OF this]
  show "is_well_formed req" "supports_contract caps c"
    "contract_voltage_mv c = request_voltage_mv req"
    "contract_current_ma c = request_operating_current_ma req"
    "contract_kind c = PpsContract \<longleftrightarrow> request_mode req = PpsRequest"
    using D by (auto split: PdContractRequestMode.splits)
next
  assume A: "is_well_formed req \<and> request_pps_range req = None \<and> supports_contract caps c'
      \<and> contract_voltage_mv c' = request_voltage_mv req
      \<and> contract_current_ma c' = request_operating_current_ma req
      \<and> contract_kind c' = (case request_mode req of FixedRequest \<Rightarrow> FixedContract | PpsRequest \<Rightarrow> PpsContract)"
  show "\<exists>c. select_exact_contract caps req = Some c"
  proof (cases "request_mode req")
    case FixedRequest
    then show ?thesis using A
      by (auto simp: select_exact_contract_def supports_contract_def list_ex_iff find_None_iff
          not_None_eq [symmetric] simp del: not_None_eq)
  next
    case PpsRequest
    then show ?thesis using A
      by (auto simp: select_exact_contract_def supports_contract_def list_ex_iff find_None_iff
          not_None_eq [symmetric] simp del: not_None_eq)
  qed
qed

theorem select_exact_contract_exact_and_complete_witness:
  "supports_contract (from_pdos bench_source) bench_contract
   \<and> (\<exists>c. select_exact_contract (from_pdos bench_source) bench_request = Some c)"
proof -
  have "supports_contract (from_pdos bench_source) bench_contract"
    using select_exact_contract_exact_and_complete [of "from_pdos bench_source" bench_request bench_contract]
      bench_select by blast
  moreover have "is_well_formed bench_request" by code_simp
  ultimately show ?thesis
    using select_exact_contract_exact_and_complete
      [of "from_pdos bench_source" bench_request _ bench_contract]
    by (simp add: bench_request_def bench_contract_def)
qed

text \<open>
  (C33) The heating selector answers inside the guard: an advertised contract of 3 A to 5 A, and
  either a PPS contract exactly at the guarded request (the request clamped to 5 V..28 V and
  raised to the 5.5 V programmable floor), or, only when no usable APDO covers that voltage, the
  highest usable fixed PDO that does not exceed it.
\<close>

theorem select_fusb302b_contract_within_guard:
  fixes wanted_mv
  defines "mv \<equiv> max (clamp 5000 28000 wanted_mv) (5500 :: u16)"
  assumes wf: "wf_caps caps" and sel: "select_fusb302b_contract caps wanted_mv preferred_ma = Some c"
  shows "supports_contract caps c \<and> in_envelope c \<and> 3000 \<le> contract_current_ma c
    \<and> (contract_kind c = PpsContract \<and> contract_voltage_mv c = mv
       \<or> contract_kind c = FixedContract \<and> contract_voltage_mv c \<le> mv
         \<and> (\<forall>apdo\<in>set (flatten (caps_pps caps)). \<not> (3000 \<le> pps_max_ma apdo \<and> pps_min_mv apdo \<le> mv
              \<and> mv \<le> pps_max_mv apdo))
         \<and> (\<forall>pdo\<in>set (flatten (caps_fixed caps)). 5000 \<le> fixed_voltage_mv pdo
              \<and> fixed_voltage_mv pdo \<le> min 20000 mv \<and> 3000 \<le> fixed_max_ma pdo
              \<longrightarrow> fixed_voltage_mv pdo \<le> contract_voltage_mv c))"
proof -
  have good: "supports_contract caps c \<and> in_envelope c"
    using automatic.select_good [OF wf, of "(wanted_mv, preferred_ma)" c] sel by simp
  have ma: "3000 \<le> clamp 3000 5000 preferred_ma" by (auto simp: clamp_def)
  from sel show ?thesis
  proof (cases rule: select_fusb302b_cases)
    case (pps apdo)
    then show ?thesis using good ma by (simp add: mv_def pps_contract_def)
  next
    case (fixed pdo)
    then show ?thesis using good ma by (auto simp: mv_def fixed_contract_def)
  qed
qed

theorem select_fusb302b_contract_within_guard_witness:
  "\<exists>c. select_fusb302b_contract (from_pdos bench_source) 30000 4000 = Some c
     \<and> in_envelope c \<and> contract_voltage_mv c = 20000"
proof -
  let ?c = "\<lparr>contract_kind = FixedContract, contract_object_position = 2,
     contract_voltage_mv = 20000, contract_current_ma = 4000\<rparr> :: Contract"
  have sel: "select_fusb302b_contract (from_pdos bench_source) 30000 4000 = Some ?c" by code_simp
  show ?thesis
    using select_fusb302b_contract_within_guard [OF wf_caps_from_pdos sel] sel by simp
qed

text \<open>
  Standby is the lowest adequate fixed PDO: the selected contract is an advertised fixed PDO
  at or above the requested minimum, no adequate PDO is lower, and its current is the smallest
  10 mA step that delivers the 5 W standby budget at that voltage.
\<close>

theorem standby_contract_is_lowest_adequate:
  fixes wanted_mv
  defines "mv \<equiv> clamp 5000 20000 (wanted_mv :: u16)"
  assumes wf: "wf_caps caps" and sel: "select_fusb302b_standby_contract caps wanted_mv = Some c"
  shows "supports_contract caps c \<and> contract_kind c = FixedContract \<and> mv \<le> contract_voltage_mv c
    \<and> 5000000 \<le> unat (contract_voltage_mv c) * unat (contract_current_ma c)
    \<and> (\<forall>m. 10 dvd m \<and> 5000000 \<le> unat (contract_voltage_mv c) * m \<longrightarrow> unat (contract_current_ma c) \<le> m)
    \<and> (\<forall>pdo\<in>set (flatten (caps_fixed caps)). mv \<le> fixed_voltage_mv pdo \<and> fixed_voltage_mv pdo \<le> 20000
         \<and> standby_current_for_voltage (fixed_voltage_mv pdo) \<le> fixed_max_ma pdo
         \<longrightarrow> contract_voltage_mv c \<le> fixed_voltage_mv pdo)"
proof -
  from sel obtain pdo where P: "mv \<le> fixed_voltage_mv pdo"
    "c = fixed_contract pdo (standby_current_for_voltage (fixed_voltage_mv pdo))"
    "\<forall>pdo'. Some pdo' \<in> set (caps_fixed caps) \<longrightarrow> mv \<le> fixed_voltage_mv pdo' \<longrightarrow> fixed_voltage_mv pdo' \<le> 20000
       \<longrightarrow> standby_current_for_voltage (fixed_voltage_mv pdo') \<le> fixed_max_ma pdo'
       \<longrightarrow> fixed_voltage_mv pdo \<le> fixed_voltage_mv pdo'"
    unfolding mv_def by (rule select_standby_SomeD)
  have "5000 \<le> mv" by (auto simp: mv_def clamp_def)
  then have "1000 \<le> fixed_voltage_mv pdo" using P(1) by (auto simp: word_order_nat)
  note power = standby_current_power [OF this]
  show ?thesis
    using P power standby.select_supported [OF wf sel] by (simp add: fixed_contract_def)
qed

theorem standby_contract_is_lowest_adequate_witness:
  "\<exists>c. select_fusb302b_standby_contract (from_pdos bench_source) 0 = Some c
     \<and> contract_kind c = FixedContract \<and> contract_voltage_mv c = 5000 \<and> contract_current_ma c = 1000
     \<and> supports_contract (from_pdos bench_source) c"
proof -
  let ?c = "\<lparr>contract_kind = FixedContract, contract_object_position = 1,
     contract_voltage_mv = 5000, contract_current_ma = 1000\<rparr> :: Contract"
  have sel: "select_fusb302b_standby_contract (from_pdos bench_source) 0 = Some ?c" by code_simp
  show ?thesis
    using standby_contract_is_lowest_adequate [OF wf_caps_from_pdos sel] sel by simp
qed

text \<open>
  The continuity test on the published view agrees with the private selector: when a caller
  is told that a request keeps the confirmed APDO (or keeps it and only lowers the current), the
  exact selector resolves the request to the very object position of the confirmed contract, and
  the new current does not exceed the confirmed one.
\<close>

theorem continuity_test_selects_confirmed_apdo:
  assumes "wf_caps caps" "from_private_contract c caps = Some conf"
    and "request_keeps_same_pps_apdo conf (view caps) req
       \<or> request_keeps_same_pps_apdo_or_reduces_current conf (view caps) req"
  shows "\<exists>c'. select_exact_contract caps req = Some c' \<and> contract_kind c' = PpsContract
    \<and> contract_object_position c' = contract_object_position c
    \<and> contract_voltage_mv c' = request_voltage_mv req
    \<and> contract_current_ma c' \<le> contract_current_ma c"
proof -
  have sel: "selected_index_is conf (view caps) req" "is_well_formed req" "request_mode req = PpsRequest"
    "confirmed_mode conf = PpsRequest"
    and cur: "request_operating_current_ma req \<le> confirmed_operating_current_ma conf"
    using assms(3)
    by (auto simp: request_keeps_same_pps_apdo_def request_keeps_same_pps_apdo_or_reduces_current_def
        split: if_splits)
  have "confirmed_operating_current_ma conf = contract_current_ma c"
    using assms(2) by (auto simp: from_private_contract_def Let_def split: if_splits option.splits)
  then show ?thesis
    using selected_index_same_apdo [OF assms(1,2) sel] cur by auto
qed

theorem continuity_test_selects_confirmed_apdo_witness:
  "\<exists>c'. select_exact_contract (from_pdos bench_source) bench_request = Some c'
     \<and> contract_object_position c' = 3 \<and> contract_current_ma c' \<le> 3000"
proof -
  let ?c = "bench_contract\<lparr>contract_voltage_mv := 15000\<rparr>"
  let ?conf = "\<lparr>confirmed_mode = PpsRequest, confirmed_voltage_mv = 15000,
     confirmed_operating_current_ma = 3000,
     confirmed_pps_range = Some \<lparr>range_min_mv = 5000, range_max_mv = 21000, range_max_current_ma = 5000\<rparr>,
     confirmed_pps_capability_index = Some 0\<rparr> :: ConfirmedActiveContract"
  have conf: "from_private_contract ?c (from_pdos bench_source) = Some ?conf" by code_simp
  have keep: "request_keeps_same_pps_apdo ?conf (view (from_pdos bench_source)) bench_request" by code_simp
  show ?thesis
    using continuity_test_selects_confirmed_apdo [OF wf_caps_from_pdos conf disjI1 [OF keep]]
    by (auto simp: bench_contract_def)
qed

end
