(* ===== verification/Fusb302b_Policy.thy ===== *)
theory Fusb302b_Policy
  imports Pd_Contracts
begin

text \<open>
  The FUSB302B sink policy of \<open>src/firmware/src/adapters/fusb302b.rs\<close>: request data
  objects and message headers, the message-id window, the \<open>SinkPolicy\<close> state machine
  (one definition per method, with the same guards and the same order of assignments) and the
  retry and keep-alive timers. A method that changes the policy returns the new policy beside
  its result; the one assertion the code can trip, \<open>Ord::clamp\<close> with crossed bounds, is
  the value \<open>Panic\<close>. The lemmas show the agreement between phase and contracts in every
  reachable state, that no reachable step panics, that only PS_RDY installs a contract, and
  that the idle descent reaches the fixed standby contract.
\<close>

section \<open>Constants and pure helpers\<close>

definition PD_HEADER_REQUEST :: u16 where [simp]: "PD_HEADER_REQUEST = 2"
definition PD_HEADER_ACCEPT :: u16 where [simp]: "PD_HEADER_ACCEPT = 3"
definition PD_HEADER_GET_SOURCE_CAP :: u16 where [simp]: "PD_HEADER_GET_SOURCE_CAP = 7"
definition PD_HEADER_SPEC_REV_30 :: u16 where [simp]: "PD_HEADER_SPEC_REV_30 = push_bit 6 2"
definition PPS_RDO_VOLTAGE_STEP_MV :: u16 where [simp]: "PPS_RDO_VOLTAGE_STEP_MV = 20"
definition PPS_RDO_CURRENT_STEP_MA :: u16 where [simp]: "PPS_RDO_CURRENT_STEP_MA = 50"
definition PPS_KEEPALIVE_INTERVAL_MS :: u64 where [simp]: "PPS_KEEPALIVE_INTERVAL_MS = 5000"
definition PPS_TO_FIXED_STEP_MV :: u16 where [simp]: "PPS_TO_FIXED_STEP_MV = 500"
definition PPS_TO_FIXED_INTERVAL_MS :: u64 where [simp]: "PPS_TO_FIXED_INTERVAL_MS = 500"
definition SOURCE_CAPS_INITIAL_WAIT_MS :: u64 where [simp]: "SOURCE_CAPS_INITIAL_WAIT_MS = 400"
definition SOURCE_CAPS_RETRY_INTERVAL_MS :: u64 where [simp]: "SOURCE_CAPS_RETRY_INTERVAL_MS = 5000"

definition is_fusb302_device_id :: "u8 \<Rightarrow> bool" where
  "is_fusb302_device_id device_id \<longleftrightarrow> device_id AND 0xf0 = 0x80 \<or> device_id AND 0xf0 = 0x90"

definition next_pps_to_fixed_voltage :: "u16 \<Rightarrow> u16 \<Rightarrow> u16 option" where
  "next_pps_to_fixed_voltage current_mv target_mv =
     (if current_mv \<le> target_mv then None
      else let step_mv = sat_sub current_mv PPS_TO_FIXED_STEP_MV
           in Some (if step_mv < target_mv then target_mv else step_mv))"

definition source_message_id_is_newer :: "u8 \<Rightarrow> u8 \<Rightarrow> bool" where
  "source_message_id_is_newer last_id current =
     (let distance = (current - last_id) AND 7 in 1 \<le> distance \<and> distance \<le> 3)"

datatype SourceCapabilitiesRecovery = Wait | RetryGetSourceCapabilities

datatype TransientTransportFault =
    RetryFailed
  | PendingRequestTimeout
  | PartialReceiveTimeout
  | ReceiveIoError
  | TransmitIoError
  | ConfigurationIoError

datatype TransientTransportRecovery = FlushReceiveAndRequery

definition transient_transport_fault_recovery ::
  "TransientTransportFault \<Rightarrow> TransientTransportRecovery" where
  "transient_transport_fault_recovery fault = FlushReceiveAndRequery"

definition request_header :: "u8 \<Rightarrow> u16" where
  "request_header message_id =
     PD_HEADER_REQUEST OR PD_HEADER_SPEC_REV_30 OR push_bit 9 (ucast (message_id AND 7)) OR push_bit 12 1"

definition accept_header :: "u8 \<Rightarrow> u16" where
  "accept_header message_id =
     PD_HEADER_ACCEPT OR PD_HEADER_SPEC_REV_30 OR push_bit 9 (ucast (message_id AND 7))"

definition get_source_capabilities_header :: "u8 \<Rightarrow> u16" where
  "get_source_capabilities_header message_id =
     PD_HEADER_GET_SOURCE_CAP OR PD_HEADER_SPEC_REV_30 OR push_bit 9 (ucast (message_id AND 7))"

definition request_data_object :: "Contract \<Rightarrow> u8 list option" where
  "request_data_object c =
     (if contract_object_position c = 0 then None
      else case contract_kind c of
        PpsContract \<Rightarrow>
          if \<not> is_multiple_of (contract_voltage_mv c) PPS_RDO_VOLTAGE_STEP_MV
             \<or> \<not> is_multiple_of (contract_current_ma c) PPS_RDO_CURRENT_STEP_MA
          then None
          else let voltage_units = ucast (contract_voltage_mv c div PPS_RDO_VOLTAGE_STEP_MV) :: u32;
                   current_units = ucast (contract_current_ma c div PPS_RDO_CURRENT_STEP_MA) :: u32
               in Some (to_le_bytes 4 (push_bit 28 (ucast (contract_object_position c)) OR push_bit 24 1
                    OR push_bit 9 (voltage_units AND 0x0fff) OR (current_units AND 0x7f)))
      | FixedContract \<Rightarrow>
          if \<not> is_multiple_of (contract_current_ma c) 10 then None
          else let current_units = ucast (contract_current_ma c div 10) :: u32
               in Some (to_le_bytes 4 (push_bit 28 (ucast (contract_object_position c)) OR push_bit 24 1
                    OR push_bit 10 current_units OR current_units))
      | NoContract \<Rightarrow> None)"

definition pps_keepalive_due :: "u64 \<Rightarrow> u64 \<Rightarrow> bool" where
  "pps_keepalive_due last_request_at_ms now_ms \<longleftrightarrow>
     sat_sub now_ms last_request_at_ms \<ge> PPS_KEEPALIVE_INTERVAL_MS"

definition source_capabilities_retry_due :: "u64 \<Rightarrow> u64 \<Rightarrow> bool" where
  "source_capabilities_retry_due last_request_at_ms now_ms \<longleftrightarrow>
     sat_sub now_ms last_request_at_ms \<ge> SOURCE_CAPS_RETRY_INTERVAL_MS"

definition source_capabilities_request_due :: "u64 \<Rightarrow> u64 option \<Rightarrow> u64 \<Rightarrow> bool" where
  "source_capabilities_request_due attached_at_ms last_request_at_ms now_ms =
     (case last_request_at_ms of
        Some last_ms \<Rightarrow> source_capabilities_retry_due last_ms now_ms
      | None \<Rightarrow> sat_sub now_ms attached_at_ms \<ge> SOURCE_CAPS_INITIAL_WAIT_MS)"

definition source_capabilities_recovery :: "u64 \<Rightarrow> u64 \<Rightarrow> SourceCapabilitiesRecovery" where
  "source_capabilities_recovery last_request_at_ms now_ms =
     (if source_capabilities_retry_due last_request_at_ms now_ms then RetryGetSourceCapabilities
      else Wait)"

definition source_capabilities_from_message :: "u16 \<Rightarrow> u8 list \<Rightarrow> (u32 list \<times> nat) option" where
  "source_capabilities_from_message header payload =
     (let message_type = header AND 0x1f; count = unat ((ucast (drop_bit 12 header) :: u8) AND 7)
      in if message_type \<noteq> 1 \<or> count = 0 \<or> length payload \<noteq> count * 4 then None
         else Some (map (\<lambda>index. if index < count
                           then from_le_bytes [payload ! (index * 4), payload ! (index * 4 + 1),
                                  payload ! (index * 4 + 2), payload ! (index * 4 + 3)]
                           else 0) [0..<7], count))"

section \<open>The sink policy\<close>

datatype SinkPhase =
    Detached
  | WaitingForSourceCapabilities
  | WaitingForAccept
  | WaitingForPsRdy
  | Ready
  | Fault

record SinkPolicy =
  phase :: SinkPhase
  default_requested_mv :: u16
  requested_mv :: u16
  preferred_ma :: u16
  requested_mode :: "PdContractRequestMode option"
  explicit_request :: "PdContractRequest option"
  idle_standby :: bool
  standby_minimum_mv :: u16
  pending_contract :: Contract
  active_contract :: Contract
  source_capabilities :: SourceCapabilities
  source_capabilities_received :: bool
  source_message_id :: "u8 option"

definition SinkPolicy_new :: "u16 \<Rightarrow> u16 \<Rightarrow> SinkPolicy" where
  "SinkPolicy_new mv ma =
     \<lparr>phase = WaitingForSourceCapabilities, default_requested_mv = mv, requested_mv = mv,
      preferred_ma = ma, requested_mode = None, explicit_request = None, idle_standby = False,
      standby_minimum_mv = FUSB302B_PD_ABSOLUTE_MIN_MV, pending_contract = Contract_none,
      active_contract = Contract_none, source_capabilities = SourceCapabilities_empty,
      source_capabilities_received = False, source_message_id = None\<rparr>"

definition SinkPolicy_new_standby :: "u16 \<Rightarrow> u16 \<Rightarrow> SinkPolicy" where
  "SinkPolicy_new_standby mv ma = (SinkPolicy_new mv ma)\<lparr>idle_standby := True\<rparr>"

definition policy_source_capabilities :: "SinkPolicy \<Rightarrow> SourceCapabilities option" where
  "policy_source_capabilities s =
     (if source_capabilities_received s then Some (source_capabilities s) else None)"

definition request_contract :: "SinkPolicy \<Rightarrow> PdContractRequest \<Rightarrow> SinkPolicy \<times> u8 list option" where
  "request_contract s req =
     (if \<not> source_capabilities_received s then (s, None)
      else case select_exact_contract (source_capabilities s) req of
        None \<Rightarrow> (s, None)
      | Some c \<Rightarrow>
          (case request_data_object c of
             None \<Rightarrow> (s, None)
           | Some rdo \<Rightarrow>
               (s\<lparr>idle_standby := False, requested_mv := request_voltage_mv req,
                  preferred_ma := request_operating_current_ma req,
                  requested_mode := Some (request_mode req), explicit_request := Some req,
                  pending_contract := c, phase := WaitingForAccept\<rparr>, Some rdo)))"

definition pending_contract_matches :: "SinkPolicy \<Rightarrow> PdContractRequest \<Rightarrow> bool" where
  "pending_contract_matches s req =
     (case select_exact_contract (source_capabilities s) req of
        None \<Rightarrow> False | Some c \<Rightarrow> c = pending_contract s)"

definition standby_contract :: "SinkPolicy \<Rightarrow> Contract option" where
  "standby_contract s =
     (if source_capabilities_received s
      then select_fusb302b_standby_contract (source_capabilities s) (standby_minimum_mv s)
      else None)"

definition confirmed_active_contract :: "SinkPolicy \<Rightarrow> ConfirmedActiveContract option" where
  "confirmed_active_contract s = from_private_contract (active_contract s) (source_capabilities s)"

definition standby_pps_floor_mv :: "SinkPolicy \<Rightarrow> u16 option" where
  "standby_pps_floor_mv s =
     (case standby_contract s of None \<Rightarrow> None
      | Some standby \<Rightarrow>
          (case confirmed_active_contract s of None \<Rightarrow> None
           | Some conf \<Rightarrow>
               (case confirmed_pps_range conf of None \<Rightarrow> None
                | Some rng \<Rightarrow> Some (max (max (contract_voltage_mv standby) FUSB302B_PPS_MIN_MV)
                                      (range_min_mv rng)))))"

definition pending_automatic_idle_contract_matches :: "SinkPolicy \<Rightarrow> bool" where
  "pending_automatic_idle_contract_matches s =
     (if \<not> source_capabilities_received s \<or> \<not> idle_standby s then False
      else if phase s = Ready \<and> contract_kind (active_contract s) = PpsContract
              \<and> (case standby_pps_floor_mv s of None \<Rightarrow> False
                 | Some floor_mv \<Rightarrow> contract_voltage_mv (active_contract s) > floor_mv)
      then supports_contract (source_capabilities s) (active_contract s)
      else case contract_kind (pending_contract s) of
        FixedContract \<Rightarrow>
          (case select_fusb302b_standby_contract (source_capabilities s) (standby_minimum_mv s) of
             None \<Rightarrow> False | Some c \<Rightarrow> c = pending_contract s)
      | PpsContract \<Rightarrow>
          supports_contract (source_capabilities s) (pending_contract s)
          \<and> contract_kind (active_contract s) = PpsContract
          \<and> contract_object_position (pending_contract s) = contract_object_position (active_contract s)
          \<and> contract_voltage_mv (pending_contract s) < contract_voltage_mv (active_contract s)
          \<and> contract_current_ma (pending_contract s) \<le> contract_current_ma (active_contract s)
      | NoContract \<Rightarrow> False)"

definition set_standby_minimum_mv :: "SinkPolicy \<Rightarrow> u16 \<Rightarrow> SinkPolicy" where
  "set_standby_minimum_mv s minimum_mv = s\<lparr>standby_minimum_mv := minimum_mv\<rparr>"

definition prepare_contract_refresh :: "SinkPolicy \<Rightarrow> PdContractRequest \<Rightarrow> SinkPolicy \<times> bool" where
  "prepare_contract_refresh s req =
     (s\<lparr>requested_mv := request_voltage_mv req, preferred_ma := request_operating_current_ma req,
        requested_mode := Some (request_mode req), explicit_request := Some req,
        idle_standby := False\<rparr>, True)"

definition source_capabilities_message_is_fresh :: "SinkPolicy \<Rightarrow> u8 option \<Rightarrow> bool" where
  "source_capabilities_message_is_fresh s message_id =
     (case message_id of None \<Rightarrow> True
      | Some current \<Rightarrow>
          (case source_message_id s of None \<Rightarrow> True
           | Some last_id \<Rightarrow> source_message_id_is_newer last_id current))"

definition observe_source_message_id :: "SinkPolicy \<Rightarrow> u8 option \<Rightarrow> SinkPolicy \<times> bool" where
  "observe_source_message_id s message_id =
     (case map_option (\<lambda>value. value AND 7) message_id of
        None \<Rightarrow> (s, True)
      | Some current \<Rightarrow>
          if \<not> source_capabilities_message_is_fresh s (Some current) then (s, False)
          else (s\<lparr>source_message_id := Some current\<rparr>, True))"

definition begin_request_contract :: "SinkPolicy \<Rightarrow> SourceCapabilities \<Rightarrow> Contract option rust" where
  "begin_request_contract s caps =
     (if idle_standby s then
        (case select_fusb302b_standby_contract caps (standby_minimum_mv s) of
           None \<Rightarrow> Ret None
         | Some standby \<Rightarrow>
             if contract_kind (active_contract s) = PpsContract
                \<and> contract_voltage_mv (active_contract s) > contract_voltage_mv standby
             then let target_mv = max (contract_voltage_mv standby) FUSB302B_PPS_MIN_MV
                  in rbind
                       (case next_pps_to_fixed_voltage (contract_voltage_mv (active_contract s)) target_mv of
                          Some step_mv \<Rightarrow> select_fusb302b_standby_pps_step caps (active_contract s) step_mv
                        | None \<Rightarrow> Ret None)
                       (\<lambda>pps_step. Ret (Some (case pps_step of Some c \<Rightarrow> c | None \<Rightarrow> standby)))
             else Ret (Some standby))
      else case explicit_request s of
        Some req \<Rightarrow> Ret (select_exact_contract caps req)
      | None \<Rightarrow>
          (case requested_mode s of
             Some PpsRequest \<Rightarrow>
               (case pps_request (requested_mv s) (preferred_ma s) of
                  Inl _ \<Rightarrow> Ret None | Inr req \<Rightarrow> Ret (select_exact_contract caps req))
           | Some FixedRequest \<Rightarrow>
               (case fixed_request (requested_mv s) (preferred_ma s) of
                  Inl _ \<Rightarrow> Ret None | Inr req \<Rightarrow> Ret (select_exact_contract caps req))
           | None \<Rightarrow> Ret (select_fusb302b_contract caps (requested_mv s) (preferred_ma s))))"

definition begin_request :: "SinkPolicy \<Rightarrow> SourceCapabilities \<Rightarrow> (SinkPolicy \<times> u8 list option) rust" where
  "begin_request s caps =
     rbind (begin_request_contract s caps) (\<lambda>selected. Ret
       (case selected of
          None \<Rightarrow> (s, None)
        | Some c \<Rightarrow>
            (case request_data_object c of
               None \<Rightarrow> (s, None)
             | Some rdo \<Rightarrow> (s\<lparr>pending_contract := c, phase := WaitingForAccept\<rparr>, Some rdo))))"

definition on_source_capabilities_with_message_id ::
  "SinkPolicy \<Rightarrow> u32 list \<Rightarrow> u8 option \<Rightarrow> (SinkPolicy \<times> u8 list option) rust" where
  "on_source_capabilities_with_message_id s pdos message_id =
     (case observe_source_message_id s (map_option (\<lambda>value. value AND 7) message_id) of
        (s, False) \<Rightarrow> Ret (s, None)
      | (s, True) \<Rightarrow>
          let s = s\<lparr>source_capabilities := from_pdos pdos, source_capabilities_received := True\<rparr>
          in begin_request s (source_capabilities s))"

definition on_source_capabilities ::
  "SinkPolicy \<Rightarrow> u32 list \<Rightarrow> (SinkPolicy \<times> u8 list option) rust" where
  "on_source_capabilities s pdos = on_source_capabilities_with_message_id s pdos None"

definition refresh_source_capabilities_with_message_id ::
  "SinkPolicy \<Rightarrow> u32 list \<Rightarrow> u8 option \<Rightarrow> (SinkPolicy \<times> u8 list option) rust" where
  "refresh_source_capabilities_with_message_id s pdos message_id =
     (case observe_source_message_id s (map_option (\<lambda>value. value AND 7) message_id) of
        (s, False) \<Rightarrow> Ret (s, None)
      | (s, True) \<Rightarrow>
          let s = s\<lparr>source_capabilities := from_pdos pdos, source_capabilities_received := True\<rparr>
          in if phase s = Ready \<and> active_contract s \<noteq> Contract_none
             then if supports_contract (source_capabilities s) (active_contract s)
                  then Ret (s\<lparr>pending_contract := Contract_none\<rparr>, None)
                  else let s = s\<lparr>active_contract := Contract_none, pending_contract := Contract_none,
                                phase := WaitingForSourceCapabilities\<rparr>
                       in begin_request s (source_capabilities s)
             else begin_request s (source_capabilities s))"

definition on_unhandled_data_message_with_message_id ::
  "SinkPolicy \<Rightarrow> u8 option \<Rightarrow> bool \<Rightarrow> SinkPolicy" where
  "on_unhandled_data_message_with_message_id s message_id discovery_query_active =
     (if phase s \<in> {WaitingForAccept, WaitingForPsRdy, Ready}
         \<or> (phase s = WaitingForSourceCapabilities \<and> discovery_query_active)
      then fst (observe_source_message_id s message_id) else s)"

definition select_pps_contract :: "SinkPolicy \<Rightarrow> u16 \<Rightarrow> Contract option" where
  "select_pps_contract s mv =
     (if \<not> source_capabilities_received s then None
      else case select_fusb302b_contract (source_capabilities s) mv (preferred_ma s) of
        None \<Rightarrow> None
      | Some c \<Rightarrow> if contract_kind c = PpsContract then Some c else None)"

definition prepare_pps_request :: "SinkPolicy \<Rightarrow> u16 \<Rightarrow> SinkPolicy \<times> bool" where
  "prepare_pps_request s mv =
     (case select_pps_contract s mv of
        None \<Rightarrow> (s, False)
      | Some _ \<Rightarrow> (s\<lparr>requested_mv := mv, idle_standby := False, explicit_request := None,
                      requested_mode := Some PpsRequest\<rparr>, True))"

definition request_pps_voltage :: "SinkPolicy \<Rightarrow> u16 \<Rightarrow> SinkPolicy \<times> u8 list option" where
  "request_pps_voltage s mv =
     (case select_pps_contract s mv of
        None \<Rightarrow> (s, None)
      | Some c \<Rightarrow>
          let s = s\<lparr>requested_mv := mv, explicit_request := None,
                    requested_mode := Some PpsRequest, idle_standby := False\<rparr>
          in case request_data_object c of
               None \<Rightarrow> (s, None)
             | Some rdo \<Rightarrow> (s\<lparr>pending_contract := c, phase := WaitingForAccept\<rparr>, Some rdo))"

definition request_automatic_idle_fixed_contract ::
  "SinkPolicy \<Rightarrow> (SinkPolicy \<times> u8 list option) rust" where
  "request_automatic_idle_fixed_contract s =
     (if \<not> source_capabilities_received s then Ret (s, None)
      else let s = s\<lparr>requested_mv := FUSB302B_PD_ABSOLUTE_MIN_MV, explicit_request := None,
                     requested_mode := Some FixedRequest, idle_standby := True\<rparr>
           in begin_request s (source_capabilities s))"

definition request_automatic_idle_contract ::
  "SinkPolicy \<Rightarrow> (SinkPolicy \<times> u8 list option) rust" where
  "request_automatic_idle_contract s = request_automatic_idle_fixed_contract s"

definition request_automatic_idle_pps_step ::
  "SinkPolicy \<Rightarrow> u16 \<Rightarrow> (SinkPolicy \<times> u8 list option) rust" where
  "request_automatic_idle_pps_step s mv =
     (if \<not> source_capabilities_received s then Ret (s, None)
      else rbind (select_fusb302b_standby_pps_step (source_capabilities s) (active_contract s) mv)
        (\<lambda>selected. Ret
          (case selected of
             None \<Rightarrow> (s, None)
           | Some c \<Rightarrow> (s\<lparr>requested_mv := mv, explicit_request := None,
                           requested_mode := Some PpsRequest, idle_standby := True,
                           pending_contract := c, phase := WaitingForAccept\<rparr>,
                        request_data_object c))))"

definition prepare_automatic_idle_refresh :: "SinkPolicy \<Rightarrow> SinkPolicy" where
  "prepare_automatic_idle_refresh s =
     s\<lparr>requested_mv := FUSB302B_PD_ABSOLUTE_MIN_MV, explicit_request := None,
       requested_mode := Some FixedRequest, idle_standby := True\<rparr>"

definition request_fixed_voltage :: "SinkPolicy \<Rightarrow> u16 \<Rightarrow> SinkPolicy \<times> u8 list option" where
  "request_fixed_voltage s mv =
     (if \<not> source_capabilities_received s then (s, None)
      else case select_fusb302b_fixed_contract (source_capabilities s) mv (preferred_ma s) of
        None \<Rightarrow> (s, None)
      | Some c \<Rightarrow>
          (case request_data_object c of
             None \<Rightarrow> (s, None)
           | Some rdo \<Rightarrow>
               (s\<lparr>pending_contract := c, explicit_request := None,
                  requested_mode := Some FixedRequest, idle_standby := False,
                  phase := WaitingForAccept\<rparr>, Some rdo)))"

definition refresh_active_pps :: "SinkPolicy \<Rightarrow> u8 list option" where
  "refresh_active_pps s =
     (if contract_kind (active_contract s) \<noteq> PpsContract then None
      else request_data_object (active_contract s))"

definition cancel_pending_request :: "SinkPolicy \<Rightarrow> SinkPolicy" where
  "cancel_pending_request s =
     s\<lparr>pending_contract := Contract_none,
       phase := (if active_contract s = Contract_none then WaitingForSourceCapabilities else Ready)\<rparr>"

definition clear_session :: "SinkPhase \<Rightarrow> SinkPolicy \<Rightarrow> SinkPolicy" where
  "clear_session final s =
     s\<lparr>pending_contract := Contract_none, active_contract := Contract_none,
       source_message_id := None, requested_mv := default_requested_mv s,
       explicit_request := None, requested_mode := None, idle_standby := idle_standby s,
       source_capabilities := SourceCapabilities_empty, source_capabilities_received := False,
       phase := final\<rparr>"

definition on_received_protocol_reset :: "SinkPolicy \<Rightarrow> SinkPolicy" where
  "on_received_protocol_reset = clear_session WaitingForSourceCapabilities"

definition interlock_after_transient_transport_fault :: "SinkPolicy \<Rightarrow> SinkPolicy" where
  "interlock_after_transient_transport_fault s = on_received_protocol_reset s"

definition on_control_message_with_message_id ::
  "SinkPolicy \<Rightarrow> u8 \<Rightarrow> u8 option \<Rightarrow> u64 \<Rightarrow> SinkPolicy" where
  "on_control_message_with_message_id s message_type message_id now_ms =
     (if phase s \<notin> {WaitingForAccept, WaitingForPsRdy, Ready} then s
      else if message_type = 1 then s
      else case observe_source_message_id s message_id of
        (s, False) \<Rightarrow> s
      | (s, True) \<Rightarrow>
          if phase s = WaitingForAccept \<and> message_type = 3 then s\<lparr>phase := WaitingForPsRdy\<rparr>
          else if phase s = WaitingForPsRdy \<and> message_type = 6
          then s\<lparr>active_contract := pending_contract s, pending_contract := Contract_none, phase := Ready\<rparr>
          else if message_type = 4 \<or> message_type = 12 then cancel_pending_request s
          else s)"

definition on_control_message :: "SinkPolicy \<Rightarrow> u8 \<Rightarrow> u64 \<Rightarrow> SinkPolicy" where
  "on_control_message s message_type now_ms =
     on_control_message_with_message_id s message_type None now_ms"

definition on_detach_or_reset :: "SinkPolicy \<Rightarrow> SinkPolicy" where
  "on_detach_or_reset = clear_session Detached"

definition on_attachment_detected :: "SinkPolicy \<Rightarrow> SinkPolicy" where
  "on_attachment_detected s =
     (if phase s = Detached then s\<lparr>phase := WaitingForSourceCapabilities\<rparr> else s)"

definition mark_fault :: "SinkPolicy \<Rightarrow> SinkPolicy" where
  "mark_fault s = s\<lparr>pending_contract := Contract_none, active_contract := Contract_none,
     source_message_id := None, phase := Fault\<rparr>"

section \<open>The policy as a machine\<close>

text \<open>
  Every method that changes the policy, as an event; a step answers with the new policy and the
  request data object to transmit, if any. \<open>sink_reachable\<close> are the policies a caller can
  produce from either constructor by any sequence of calls.
\<close>

datatype SinkEvent =
    RequestContract PdContractRequest
  | SetStandbyMinimum u16
  | PrepareContractRefresh PdContractRequest
  | SourceCapabilitiesMessage "u32 list" "u8 option"
  | RefreshedCapabilitiesMessage "u32 list" "u8 option"
  | ObserveMessageId "u8 option"
  | UnhandledDataMessage "u8 option" bool
  | PreparePpsRequest u16
  | RequestPpsVoltage u16
  | RequestAutomaticIdle
  | RequestAutomaticIdlePpsStep u16
  | PrepareAutomaticIdleRefresh
  | RequestFixedVoltage u16
  | RefreshActivePps
  | CancelPendingRequest
  | TransientTransportFaultInterlock
  | ProtocolReset
  | ControlMessage u8 "u8 option" u64
  | DetachOrReset
  | AttachmentDetected
  | MarkFault

fun sink_step :: "SinkPolicy \<Rightarrow> SinkEvent \<Rightarrow> (SinkPolicy \<times> u8 list option) rust" where
  "sink_step s (RequestContract req) = Ret (request_contract s req)"
| "sink_step s (SetStandbyMinimum mv) = Ret (set_standby_minimum_mv s mv, None)"
| "sink_step s (PrepareContractRefresh req) = Ret (fst (prepare_contract_refresh s req), None)"
| "sink_step s (SourceCapabilitiesMessage pdos mid) = on_source_capabilities_with_message_id s pdos mid"
| "sink_step s (RefreshedCapabilitiesMessage pdos mid) = refresh_source_capabilities_with_message_id s pdos mid"
| "sink_step s (ObserveMessageId mid) = Ret (fst (observe_source_message_id s mid), None)"
| "sink_step s (UnhandledDataMessage mid query) =
     Ret (on_unhandled_data_message_with_message_id s mid query, None)"
| "sink_step s (PreparePpsRequest mv) = Ret (fst (prepare_pps_request s mv), None)"
| "sink_step s (RequestPpsVoltage mv) = Ret (request_pps_voltage s mv)"
| "sink_step s RequestAutomaticIdle = request_automatic_idle_contract s"
| "sink_step s (RequestAutomaticIdlePpsStep mv) = request_automatic_idle_pps_step s mv"
| "sink_step s PrepareAutomaticIdleRefresh = Ret (prepare_automatic_idle_refresh s, None)"
| "sink_step s (RequestFixedVoltage mv) = Ret (request_fixed_voltage s mv)"
| "sink_step s RefreshActivePps = Ret (s, refresh_active_pps s)"
| "sink_step s CancelPendingRequest = Ret (cancel_pending_request s, None)"
| "sink_step s TransientTransportFaultInterlock = Ret (interlock_after_transient_transport_fault s, None)"
| "sink_step s ProtocolReset = Ret (on_received_protocol_reset s, None)"
| "sink_step s (ControlMessage ty mid now) = Ret (on_control_message_with_message_id s ty mid now, None)"
| "sink_step s DetachOrReset = Ret (on_detach_or_reset s, None)"
| "sink_step s AttachmentDetected = Ret (on_attachment_detected s, None)"
| "sink_step s MarkFault = Ret (mark_fault s, None)"

inductive sink_reachable :: "SinkPolicy \<Rightarrow> bool" where
  operating: "sink_reachable (SinkPolicy_new mv ma)"
| standby: "sink_reachable (SinkPolicy_new_standby mv ma)"
| step: "sink_reachable s \<Longrightarrow> sink_step s e = Ret (s', out) \<Longrightarrow> sink_reachable s'"

section \<open>Phase and contracts agree\<close>

definition contract_ok :: "Contract \<Rightarrow> bool" where
  "contract_ok c \<longleftrightarrow> c = Contract_none \<or> in_envelope c"

fun agrees :: "SinkPhase \<Rightarrow> Contract \<Rightarrow> Contract \<Rightarrow> bool" where
  "agrees WaitingForAccept active pending = (pending \<noteq> Contract_none)"
| "agrees WaitingForPsRdy active pending = (pending \<noteq> Contract_none)"
| "agrees Ready active pending = (active \<noteq> Contract_none \<and> pending = Contract_none)"
| "agrees _ active pending = (active = Contract_none \<and> pending = Contract_none)"

definition phase_agrees :: "SinkPolicy \<Rightarrow> bool" where
  "phase_agrees s = agrees (phase s) (active_contract s) (pending_contract s)"

definition sink_inv :: "SinkPolicy \<Rightarrow> bool" where
  "sink_inv s \<longleftrightarrow> wf_caps (source_capabilities s) \<and> contract_ok (pending_contract s)
     \<and> contract_ok (active_contract s) \<and> phase_agrees s"

lemma in_envelope_not_none [simp]: "in_envelope c \<Longrightarrow> c \<noteq> Contract_none"
  by (auto simp: in_envelope_def Contract_none_def)

lemma contract_ok_simps [simp]: "contract_ok Contract_none" "in_envelope c \<Longrightarrow> contract_ok c"
  by (simp_all add: contract_ok_def)

lemma contract_ok_pps:
  "contract_ok c \<Longrightarrow> contract_kind c = PpsContract \<Longrightarrow>
     5500 \<le> contract_voltage_mv c \<and> contract_voltage_mv c \<le> 28000"
  by (auto simp: contract_ok_def in_envelope_def Contract_none_def)

lemma contract_ok_current: "contract_ok c \<Longrightarrow> contract_current_ma c \<le> 5000"
  by (auto simp: contract_ok_def in_envelope_def Contract_none_def)

lemma begin_request_contract_good:
  assumes wf: "wf_caps caps" and act: "contract_ok (active_contract s)"
  obtains r where "begin_request_contract s caps = Ret r"
    "\<And>c. r = Some c \<Longrightarrow> supports_contract caps c \<and> in_envelope c"
proof -
  have steps: "\<exists>r. select_fusb302b_standby_pps_step caps (active_contract s) mv = Ret r
      \<and> (\<forall>c. r = Some c \<longrightarrow> supports_contract caps c \<and> in_envelope c)" for mv
    using standby_pps_step_Ret [of "active_contract s" caps mv] contract_ok_pps [OF act]
      standby_pps_step_good [OF wf _ contract_ok_current [OF act]] by blast
  have auto: "select_fusb302b_contract caps mv ma = Some c \<Longrightarrow> supports_contract caps c \<and> in_envelope c" for mv ma c
    using automatic.select_good [OF wf, of "(mv, ma)" c] by simp
  have "\<exists>r. begin_request_contract s caps = Ret r \<and> (\<forall>c. r = Some c \<longrightarrow> supports_contract caps c \<and> in_envelope c)"
  proof (cases "idle_standby s")
    case True
    show ?thesis
    proof (cases "select_fusb302b_standby_contract caps (standby_minimum_mv s)")
      case None
      then show ?thesis using True by (simp add: begin_request_contract_def)
    next
      case (Some standby)
      note good = standby.select_good [OF wf Some]
      define target where "target = max (contract_voltage_mv standby) FUSB302B_PPS_MIN_MV"
      obtain p where p: "(case next_pps_to_fixed_voltage (contract_voltage_mv (active_contract s)) target of
            Some step_mv \<Rightarrow> select_fusb302b_standby_pps_step caps (active_contract s) step_mv
          | None \<Rightarrow> Ret None) = Ret p" "\<forall>c. p = Some c \<longrightarrow> supports_contract caps c \<and> in_envelope c"
        using steps by (cases "next_pps_to_fixed_voltage (contract_voltage_mv (active_contract s)) target") auto
      show ?thesis
      proof (cases "contract_kind (active_contract s) = PpsContract
          \<and> contract_voltage_mv (active_contract s) > contract_voltage_mv standby")
        case ramp: True
        have "begin_request_contract s caps = Ret (Some (case p of Some c \<Rightarrow> c | None \<Rightarrow> standby))"
          unfolding begin_request_contract_def Let_def using True Some ramp p(1) [unfolded target_def] by simp
        then show ?thesis using p(2) good by (auto split: option.splits)
      next
        case False
        then show ?thesis using True Some good by (auto simp: begin_request_contract_def)
      qed
    qed
  next
    case False
    then show ?thesis
      using exact.select_good [OF wf] auto
      by (auto simp: begin_request_contract_def split: option.splits sum.splits PdContractRequestMode.splits)
  qed
  then show thesis using that by blast
qed

lemma begin_request_good:
  assumes wf: "wf_caps caps" and act: "contract_ok (active_contract s)"
  obtains (keep) "begin_request s caps = Ret (s, None)"
    | (request) c rdo where "begin_request s caps = Ret (s\<lparr>pending_contract := c, phase := WaitingForAccept\<rparr>, Some rdo)"
      "request_data_object c = Some rdo" "supports_contract caps c" "in_envelope c"
      "begin_request_contract s caps = Ret (Some c)"
proof -
  obtain r where r: "begin_request_contract s caps = Ret r"
    "\<And>c. r = Some c \<Longrightarrow> supports_contract caps c \<and> in_envelope c"
    using begin_request_contract_good [OF assms] by blast
  show thesis
  proof (cases r)
    case None
    then show thesis using keep r(1) by (simp add: begin_request_def)
  next
    case (Some c)
    show thesis
    proof (cases "request_data_object c")
      case None
      then show thesis using keep r(1) Some by (simp add: begin_request_def)
    next
      case (Some rdo)
      then show thesis using request [of c rdo] r \<open>r = Some c\<close> by (simp add: begin_request_def)
    qed
  qed
qed

lemma sink_inv_frame [simp]:
  "sink_inv (s\<lparr>source_message_id := m\<rparr>) = sink_inv s"
  "sink_inv (s\<lparr>requested_mv := v\<rparr>) = sink_inv s"
  "sink_inv (s\<lparr>preferred_ma := v\<rparr>) = sink_inv s"
  "sink_inv (s\<lparr>requested_mode := rm\<rparr>) = sink_inv s"
  "sink_inv (s\<lparr>explicit_request := er\<rparr>) = sink_inv s"
  "sink_inv (s\<lparr>idle_standby := b\<rparr>) = sink_inv s"
  "sink_inv (s\<lparr>standby_minimum_mv := v\<rparr>) = sink_inv s"
  "sink_inv (s\<lparr>source_capabilities_received := b\<rparr>) = sink_inv s"
  by (simp_all add: sink_inv_def phase_agrees_def)

lemma sink_inv_caps: "sink_inv s \<Longrightarrow> wf_caps caps \<Longrightarrow> sink_inv (s\<lparr>source_capabilities := caps\<rparr>)"
  by (simp add: sink_inv_def phase_agrees_def)

lemma sink_inv_request:
  assumes "wf_caps (source_capabilities s)" "contract_ok (active_contract s)" "in_envelope c"
  shows "sink_inv (s\<lparr>pending_contract := c, phase := WaitingForAccept\<rparr>)"
  using assms by (simp add: sink_inv_def phase_agrees_def)

lemma sink_invD:
  assumes "sink_inv s"
  shows "wf_caps (source_capabilities s)" "contract_ok (active_contract s)" "contract_ok (pending_contract s)"
  using assms by (simp_all add: sink_inv_def)

lemma sink_inv_cleared: "sink_inv (clear_session Detached s)" "sink_inv (clear_session WaitingForSourceCapabilities s)"
  by (simp_all add: sink_inv_def phase_agrees_def clear_session_def wf_caps_empty)

lemma active_cleared [simp]: "active_contract (clear_session p s) = Contract_none"
  by (simp add: clear_session_def)

lemma observe_cases:
  obtains "observe_source_message_id s mid = (s, False)"
    | "observe_source_message_id s mid = (s, True)"
    | m where "observe_source_message_id s mid = (s\<lparr>source_message_id := Some m\<rparr>, True)"
proof -
  have "observe_source_message_id s mid \<in> {(s, False), (s, True)}
      \<or> (\<exists>m. observe_source_message_id s mid = (s\<lparr>source_message_id := Some m\<rparr>, True))"
    by (auto simp: observe_source_message_id_def split: option.splits)
  then show thesis using that by blast
qed

text \<open>
  What one call can do: it returns, keeps the invariant, and either leaves the active contract
  alone, or drops it, or (PS_RDY while waiting for it) installs the pending one.
\<close>

definition sink_progress :: "SinkPolicy \<Rightarrow> SinkEvent \<Rightarrow> (SinkPolicy \<times> u8 list option) rust \<Rightarrow> bool" where
  "sink_progress s e r \<longleftrightarrow> (\<exists>s' out. r = Ret (s', out) \<and> sink_inv s'
     \<and> (active_contract s' = active_contract s \<or> active_contract s' = Contract_none
        \<or> (\<exists>mid now. e = ControlMessage 6 mid now \<and> phase s = WaitingForPsRdy
             \<and> active_contract s' = pending_contract s))
     \<and> (\<forall>rdo. out = Some rdo \<and> e \<noteq> RefreshActivePps \<longrightarrow>
          phase s' = WaitingForAccept \<and> request_data_object (pending_contract s') = Some rdo
          \<and> supports_contract (source_capabilities s') (pending_contract s')))"

lemma begin_request_progress:
  assumes "sink_inv t" "active_contract t = active_contract s \<or> active_contract t = Contract_none"
  shows "sink_progress s e (begin_request t (source_capabilities t))"
proof -
  note inv = sink_invD [OF assms(1)]
  show ?thesis
    using inv(1,2)
  proof (cases rule: begin_request_good)
    case keep
    then show ?thesis using assms by (auto simp: sink_progress_def)
  next
    case (request c rdo)
    then show ?thesis using assms sink_inv_request [OF inv(1,2)] by (auto simp: sink_progress_def)
  qed
qed

lemma request_contract_progress:
  assumes "sink_inv s" shows "sink_progress s e (Ret (request_contract s req))"
  using assms exact.select_good [of "source_capabilities s" req]
  by (auto simp: request_contract_def sink_progress_def sink_inv_def phase_agrees_def split: option.splits)

lemma observe_progress:
  assumes "sink_inv s" shows "sink_progress s e (Ret (fst (observe_source_message_id s mid), None))"
  using assms by (cases rule: observe_cases [of s mid]) (auto simp: sink_progress_def)

lemma source_capabilities_progress:
  assumes "sink_inv s" shows "sink_progress s e (on_source_capabilities_with_message_id s pdos mid)"
proof (cases rule: observe_cases [of s "map_option (\<lambda>value. value AND 7) mid"])
  case 1
  then show ?thesis using assms by (simp add: on_source_capabilities_with_message_id_def sink_progress_def)
next
  case 2
  have "sink_progress s e (begin_request t (source_capabilities t))"
    if "t = s\<lparr>source_capabilities := from_pdos pdos, source_capabilities_received := True\<rparr>" for t
    using that assms by (intro begin_request_progress) (simp_all add: sink_inv_caps wf_caps_from_pdos)
  then show ?thesis using 2 by (simp add: on_source_capabilities_with_message_id_def Let_def)
next
  case (3 m)
  have "sink_progress s e (begin_request t (source_capabilities t))"
    if "t = s\<lparr>source_message_id := Some m, source_capabilities := from_pdos pdos, source_capabilities_received := True\<rparr>" for t
    using that assms by (intro begin_request_progress) (simp_all add: sink_inv_caps wf_caps_from_pdos)
  then show ?thesis using 3 by (simp add: on_source_capabilities_with_message_id_def Let_def)
qed

lemma refresh_capabilities_progress:
  assumes inv: "sink_inv s"
  shows "sink_progress s e (refresh_source_capabilities_with_message_id s pdos mid)"
proof -
  define after where "after t =
    (let t = t\<lparr>source_capabilities := from_pdos pdos, source_capabilities_received := True\<rparr>
     in if phase t = Ready \<and> active_contract t \<noteq> Contract_none
        then if supports_contract (source_capabilities t) (active_contract t)
             then Ret (t\<lparr>pending_contract := Contract_none\<rparr>, None)
             else let t = t\<lparr>active_contract := Contract_none, pending_contract := Contract_none,
                           phase := WaitingForSourceCapabilities\<rparr>
                  in begin_request t (source_capabilities t)
        else begin_request t (source_capabilities t))" for t
  have after: "sink_progress s e (after t)" if t: "sink_inv t" "active_contract t = active_contract s" for t
  proof -
    let ?t = "t\<lparr>source_capabilities := from_pdos pdos, source_capabilities_received := True\<rparr>"
    let ?u = "?t\<lparr>active_contract := Contract_none, pending_contract := Contract_none,
                 phase := WaitingForSourceCapabilities\<rparr>"
    have inv_t: "sink_inv ?t" using t(1) by (simp add: sink_inv_caps wf_caps_from_pdos)
    have "sink_inv (?t\<lparr>pending_contract := Contract_none\<rparr>)" if "phase t = Ready"
      using inv_t that by (simp add: sink_inv_def phase_agrees_def)
    moreover have "sink_progress s e (begin_request ?t (source_capabilities ?t))"
      using inv_t t(2) by (intro begin_request_progress) simp_all
    moreover have "sink_progress s e (begin_request ?u (source_capabilities ?u))"
      by (intro begin_request_progress) (simp_all add: sink_inv_def phase_agrees_def wf_caps_from_pdos)
    ultimately show ?thesis using t(2) by (simp add: after_def Let_def sink_progress_def)
  qed
  show ?thesis
  proof (cases rule: observe_cases [of s "map_option (\<lambda>value. value AND 7) mid"])
    case 1
    then show ?thesis using inv by (simp add: refresh_source_capabilities_with_message_id_def sink_progress_def)
  next
    case 2
    then show ?thesis using after [of s] inv
      by (simp add: refresh_source_capabilities_with_message_id_def after_def)
  next
    case (3 m)
    then show ?thesis using after [of "s\<lparr>source_message_id := Some m\<rparr>"] inv
      by (simp add: refresh_source_capabilities_with_message_id_def after_def)
  qed
qed

lemma pps_voltage_progress:
  assumes "sink_inv s" shows "sink_progress s e (Ret (request_pps_voltage s mv))"
  using assms automatic.select_good [of "source_capabilities s" "(mv, preferred_ma s)"]
  by (auto simp: request_pps_voltage_def select_pps_contract_def sink_progress_def sink_inv_def
      phase_agrees_def Let_def split: option.splits if_splits)

lemma fixed_voltage_progress:
  assumes "sink_inv s" shows "sink_progress s e (Ret (request_fixed_voltage s mv))"
  using assms terminal_fixed.select_good [of "source_capabilities s" "(mv, preferred_ma s)"]
  by (auto simp: request_fixed_voltage_def sink_progress_def sink_inv_def phase_agrees_def split: option.splits)

lemma automatic_idle_progress:
  assumes "sink_inv s" shows "sink_progress s e (request_automatic_idle_contract s)"
proof (cases "source_capabilities_received s")
  case True
  let ?t = "s\<lparr>requested_mv := 5000, explicit_request := None, requested_mode := Some FixedRequest, idle_standby := True\<rparr>"
  have "sink_progress s e (begin_request ?t (source_capabilities ?t))"
    using assms by (intro begin_request_progress) simp_all
  then show ?thesis using True
    by (simp add: request_automatic_idle_contract_def request_automatic_idle_fixed_contract_def Let_def)
qed (use assms in \<open>simp add: request_automatic_idle_contract_def request_automatic_idle_fixed_contract_def sink_progress_def\<close>)

lemma idle_pps_step_progress:
  assumes inv: "sink_inv s" shows "sink_progress s e (request_automatic_idle_pps_step s mv)"
proof -
  note D = sink_invD [OF inv]
  obtain r where r: "select_fusb302b_standby_pps_step (source_capabilities s) (active_contract s) mv = Ret r"
    using standby_pps_step_Ret [of "active_contract s"] contract_ok_pps [OF D(2)] by blast
  show ?thesis
    using inv r D standby_pps_step_good [OF D(1) _ contract_ok_current [OF D(2)], of mv]
    by (cases r) (auto simp: request_automatic_idle_pps_step_def sink_progress_def sink_inv_def phase_agrees_def)
qed

lemma control_message_progress:
  assumes "sink_inv s"
  shows "sink_progress s (ControlMessage ty mid now) (Ret (on_control_message_with_message_id s ty mid now, None))"
  using assms
  by (cases rule: observe_cases [of s mid])
    (auto simp: on_control_message_with_message_id_def sink_progress_def sink_inv_def phase_agrees_def
      cancel_pending_request_def)

lemma sink_step_progress:
  assumes "sink_inv s" shows "sink_progress s e (sink_step s e)"
proof (cases e)
  case (UnhandledDataMessage mid query)
  then show ?thesis using assms observe_progress [OF assms, of e mid]
    by (auto simp: on_unhandled_data_message_with_message_id_def sink_progress_def)
next
  case (PreparePpsRequest mv)
  then show ?thesis using assms by (auto simp: prepare_pps_request_def sink_progress_def split: option.splits)
next
  case AttachmentDetected
  then show ?thesis using assms
    by (auto simp: on_attachment_detected_def sink_progress_def sink_inv_def phase_agrees_def)
next
  case CancelPendingRequest
  then show ?thesis using assms
    by (auto simp: cancel_pending_request_def sink_progress_def sink_inv_def phase_agrees_def)
next
  case MarkFault
  then show ?thesis using assms by (auto simp: mark_fault_def sink_progress_def sink_inv_def phase_agrees_def)
qed (use assms in \<open>auto simp: request_contract_progress source_capabilities_progress refresh_capabilities_progress
      observe_progress pps_voltage_progress fixed_voltage_progress automatic_idle_progress
      idle_pps_step_progress control_message_progress\<close>,
    auto simp: sink_progress_def set_standby_minimum_mv_def prepare_contract_refresh_def
      prepare_automatic_idle_refresh_def interlock_after_transient_transport_fault_def
      on_received_protocol_reset_def on_detach_or_reset_def sink_inv_cleared)

lemma sink_reachable_inv: "sink_reachable s \<Longrightarrow> sink_inv s"
proof (induction rule: sink_reachable.induct)
  case (step s e s' out)
  then show ?case using sink_step_progress [of s e] by (auto simp: sink_progress_def)
qed (simp_all add: SinkPolicy_new_def SinkPolicy_new_standby_def sink_inv_def phase_agrees_def wf_caps_empty)

section \<open>Request data objects\<close>

lemma pps_rdo_fields:
  fixes p v c :: u32
  defines "raw \<equiv> push_bit 28 p OR push_bit 24 1 OR push_bit 9 (take_bit 12 v) OR take_bit 7 c"
  shows "take_bit 12 (drop_bit 9 raw) = take_bit 12 v" "take_bit 7 raw = take_bit 7 c"
    "drop_bit 28 raw = take_bit 4 p"
  unfolding raw_def by (rule bit_word_eqI; auto simp: bit_simps)+

lemma fixed_rdo_fields:
  fixes p c :: u32
  defines "raw \<equiv> push_bit 28 p OR push_bit 24 1 OR push_bit 10 (take_bit 10 c) OR take_bit 10 c"
  shows "take_bit 10 (drop_bit 10 raw) = take_bit 10 c" "take_bit 10 raw = take_bit 10 c"
    "drop_bit 28 raw = take_bit 4 p"
  unfolding raw_def by (rule bit_word_eqI; auto simp: bit_simps)+

lemma unat_units: "unat (ucast (x div m) :: u32) = unat (x :: u16) div unat m"
  by (simp add: unat_ucast_up unat_div)

lemma position_field: "p \<le> 7 \<Longrightarrow> take_bit 4 (ucast (p :: u8) :: u32) = ucast p"
  by (rule take_bit_small) (simp add: unat_ucast_up word_le_nat_alt)

lemma pps_rdo_decodes:
  assumes "request_data_object c = Some bs" "contract_kind c = PpsContract" "in_envelope c"
  shows "drop_bit 28 (from_le_bytes bs :: u32) = ucast (contract_object_position c)"
    "unat (drop_bit 9 (from_le_bytes bs :: u32) AND 0xfff) * 20 = unat (contract_voltage_mv c)"
    "unat ((from_le_bytes bs :: u32) AND 0x7f) * 50 = unat (contract_current_ma c)"
proof -
  let ?v = "ucast (contract_voltage_mv c div 20) :: u32" and ?i = "ucast (contract_current_ma c div 50) :: u32"
  let ?p = "ucast (contract_object_position c) :: u32"
  have al: "is_multiple_of (contract_voltage_mv c) 20" "is_multiple_of (contract_current_ma c) 50"
    and raw: "(from_le_bytes bs :: u32) = push_bit 28 ?p OR push_bit 24 1 OR push_bit 9 (take_bit 12 ?v) OR take_bit 7 ?i"
    using assms(1,2) by (auto simp: request_data_object_def Let_def mask_simps split: if_splits)
  have b: "unat (contract_voltage_mv c) \<le> 28000" "unat (contract_current_ma c) \<le> 5000" "contract_object_position c \<le> 7"
    using assms(2,3) by (auto simp: in_envelope_def word_le_nat_alt)
  have u: "unat ?v = unat (contract_voltage_mv c) div 20" "unat ?i = unat (contract_current_ma c) div 50"
    by (simp_all add: unat_units)
  have t: "take_bit 12 ?v = ?v" "take_bit 7 ?i = ?i" using b u by (auto intro!: take_bit_small)
  have f: "take_bit 12 (drop_bit 9 (from_le_bytes bs :: u32)) = take_bit 12 ?v"
    "take_bit 7 (from_le_bytes bs :: u32) = take_bit 7 ?i" "drop_bit 28 (from_le_bytes bs :: u32) = take_bit 4 ?p"
    by (simp_all only: raw pps_rdo_fields)
  show "drop_bit 28 (from_le_bytes bs :: u32) = ?p"
    "unat (drop_bit 9 (from_le_bytes bs :: u32) AND 0xfff) * 20 = unat (contract_voltage_mv c)"
    "unat ((from_le_bytes bs :: u32) AND 0x7f) * 50 = unat (contract_current_ma c)"
    using al u b(3) by (simp_all add: mask_simps f t position_field is_multiple_of_iff)
qed

lemma fixed_rdo_decodes:
  assumes "request_data_object c = Some bs" "contract_kind c = FixedContract" "in_envelope c"
  shows "drop_bit 28 (from_le_bytes bs :: u32) = ucast (contract_object_position c)"
    "unat (drop_bit 10 (from_le_bytes bs :: u32) AND 0x3ff) * 10 = unat (contract_current_ma c)"
    "unat ((from_le_bytes bs :: u32) AND 0x3ff) * 10 = unat (contract_current_ma c)"
proof -
  let ?i = "ucast (contract_current_ma c div 10) :: u32" and ?p = "ucast (contract_object_position c) :: u32"
  have b: "unat (contract_current_ma c) \<le> 5000" "contract_object_position c \<le> 7"
    using assms(2,3) by (auto simp: in_envelope_def word_le_nat_alt)
  have u: "unat ?i = unat (contract_current_ma c) div 10" by (simp add: unat_units)
  have t: "take_bit 10 ?i = ?i" using b u by (auto intro!: take_bit_small)
  have al: "is_multiple_of (contract_current_ma c) 10"
    and raw: "(from_le_bytes bs :: u32) = push_bit 28 ?p OR push_bit 24 1 OR push_bit 10 (take_bit 10 ?i) OR take_bit 10 ?i"
    using assms(1,2) t by (auto simp: request_data_object_def Let_def split: if_splits)
  have f: "take_bit 10 (drop_bit 10 (from_le_bytes bs :: u32)) = take_bit 10 ?i"
    "take_bit 10 (from_le_bytes bs :: u32) = take_bit 10 ?i" "drop_bit 28 (from_le_bytes bs :: u32) = take_bit 4 ?p"
    by (simp_all only: raw fixed_rdo_fields)
  show "drop_bit 28 (from_le_bytes bs :: u32) = ?p"
    "unat (drop_bit 10 (from_le_bytes bs :: u32) AND 0x3ff) * 10 = unat (contract_current_ma c)"
    "unat ((from_le_bytes bs :: u32) AND 0x3ff) * 10 = unat (contract_current_ma c)"
    using al u b(2) by (simp_all add: mask_simps f t position_field is_multiple_of_iff)
qed

section \<open>The idle descent\<close>

text \<open>
  One round of the idle descent as the service drives it: ask for the idle contract and, when a
  request went out, let the source answer Accept and PS_RDY.
\<close>

definition idle_round :: "SinkPolicy \<Rightarrow> SinkPolicy rust" where
  "idle_round s = rbind (request_automatic_idle_contract s)
     (\<lambda>(t, out). Ret (case out of None \<Rightarrow> t
        | Some _ \<Rightarrow> on_control_message (on_control_message t 3 0) 6 0))"

fun idle_rounds :: "nat \<Rightarrow> SinkPolicy \<Rightarrow> SinkPolicy rust" where
  "idle_rounds 0 s = Ret s"
| "idle_rounds (Suc n) s = rbind (idle_round s) (idle_rounds n)"

definition on_apdo :: "SinkPolicy \<Rightarrow> PpsApdo \<Rightarrow> bool" where
  "on_apdo s apdo \<longleftrightarrow> contract_kind (active_contract s) = PpsContract
     \<and> Some apdo \<in> set (caps_pps (source_capabilities s))
     \<and> pps_object_position apdo = contract_object_position (active_contract s)
     \<and> pps_min_mv apdo \<le> contract_voltage_mv (active_contract s)
     \<and> contract_voltage_mv (active_contract s) \<le> pps_max_mv apdo"

definition descent_floor :: "PpsApdo \<Rightarrow> Contract \<Rightarrow> u16" where
  "descent_floor apdo standby = max (max (contract_voltage_mv standby) 5500) (pps_min_mv apdo)"

definition idle_ready :: "SinkPolicy \<Rightarrow> Contract \<Rightarrow> bool" where
  "idle_ready s standby \<longleftrightarrow> sink_inv s \<and> phase s = Ready \<and> standby_contract s = Some standby
     \<and> is_multiple_of (contract_voltage_mv standby) 20
     \<and> (contract_kind (active_contract s) = PpsContract
        \<longrightarrow> is_multiple_of (contract_voltage_mv (active_contract s)) 20)"

lemma on_apdo_unique:
  assumes "wf_caps (source_capabilities s)" "on_apdo s a" "on_apdo s b" shows "a = b"
proof -
  have "inj_on pps_object_position (set (flatten (caps_pps (source_capabilities s))))"
    using assms(1) by (simp add: wf_caps_def distinct_map)
  then show ?thesis using assms(2,3) inj_onD [of pps_object_position _ a b] by (auto simp: on_apdo_def)
qed

lemma next_voltage_eq:
  assumes "target < v" "500 \<le> v"
  shows "next_pps_to_fixed_voltage v target = Some (max (v - 500) target)"
proof -
  have "sat_sub v 500 = v - 500" using assms(2) by (simp add: sat_sub_def)
  then show ?thesis using assms(1) by (auto simp: next_pps_to_fixed_voltage_def Let_def not_le)
qed

lemma step_voltage:
  assumes "lo \<le> v" "v \<le> hi" "target < v" "500 \<le> (v :: u16)"
  shows "clamp lo hi (max (v - 500) target) = max (v - 500) (max target lo)"
proof -
  have "v - 500 \<le> v" using assms(4) by (simp add: word_sub_le)
  then show ?thesis using assms by (auto simp: clamp_def max_def)
qed

lemma aligned_max: "is_multiple_of a m \<Longrightarrow> is_multiple_of b m \<Longrightarrow> is_multiple_of (max a b) m"
  by (simp add: max_def)

lemma aligned_100_20: "is_multiple_of (x :: u16) 100 \<Longrightarrow> is_multiple_of x 20"
  by (auto simp: is_multiple_of_iff intro: dvd_trans [of 20 100])

lemma aligned_sub: "is_multiple_of (x :: u16) 20 \<Longrightarrow> 500 \<le> x \<Longrightarrow> is_multiple_of (x - 500) 20"
proof -
  have "(20 :: nat) dvd 500" by (rule dvdI [of _ _ 25]) simp
  then show "is_multiple_of x 20 \<Longrightarrow> 500 \<le> x \<Longrightarrow> is_multiple_of (x - 500) 20"
    by (simp add: is_multiple_of_iff unat_sub word_le_nat_alt dvd_diff_nat)
qed

text \<open>
  The contract an idle request settles on: the standby contract itself, or a lower step of the
  active APDO that is still above nothing but its own floor.
\<close>

lemma idle_request_choice:
  assumes inv: "sink_inv s" and std: "select_fusb302b_standby_contract (source_capabilities s) (standby_minimum_mv s) = Some standby"
    and idle: "idle_standby s"
  obtains (standby) "begin_request_contract s (source_capabilities s) = Ret (Some standby)"
    | (step) apdo where "on_apdo s apdo" "descent_floor apdo standby < contract_voltage_mv (active_contract s)"
      "begin_request_contract s (source_capabilities s) = Ret (Some (pps_contract apdo
         (max (contract_voltage_mv (active_contract s) - 500) (descent_floor apdo standby))
         (min (pps_max_ma apdo) (contract_current_ma (active_contract s)) div 50 * 50)))"
proof -
  let ?a = "active_contract s" and ?caps = "source_capabilities s"
  let ?v = "contract_voltage_mv ?a" and ?target = "max (contract_voltage_mv standby) 5500"
  note D = sink_invD [OF inv]
  show thesis
  proof (cases "contract_kind ?a = PpsContract \<and> ?target < ?v")
    case False
    have "begin_request_contract s ?caps = Ret (Some standby)"
      using idle std False
      by (auto simp: begin_request_contract_def Let_def next_pps_to_fixed_voltage_def)
    then show thesis by (rule standby)
  next
    case True
    have v: "5500 \<le> ?v" "?v \<le> 28000" using contract_ok_pps [OF D(2)] True by auto
    then have v500: "500 \<le> ?v" by (auto simp: word_le_nat_alt)
    let ?step = "select_fusb302b_standby_pps_step ?caps ?a (max (?v - 500) ?target)"
    have beg: "begin_request_contract s ?caps = rbind ?step (\<lambda>p. Ret (Some (case p of Some c \<Rightarrow> c | None \<Rightarrow> standby)))"
      using True idle std next_voltage_eq [of ?target ?v] v500
      by (simp add: begin_request_contract_def Let_def)
    obtain r where r: "?step = Ret r"
      using standby_pps_step_Ret [of ?a ?caps] v by blast
    show thesis
    proof (cases r)
      case None
      then show thesis using standby beg r by simp
    next
      case (Some c)
      from r [unfolded Some] obtain apdo where A: "contract_kind ?a = PpsContract" "Some apdo \<in> set (caps_pps ?caps)"
        "pps_object_position apdo = contract_object_position ?a" "pps_min_mv apdo \<le> ?v" "?v \<le> pps_max_mv apdo"
        "max (pps_min_mv apdo) 5500 \<le> min (pps_max_mv apdo) 28000"
        "c = pps_contract apdo (clamp (max (pps_min_mv apdo) 5500) (min (pps_max_mv apdo) 28000) (max (?v - 500) ?target))
               (min (pps_max_ma apdo) (contract_current_ma ?a) div 50 * 50)"
        "contract_voltage_mv c < ?v" "0 < contract_current_ma c"
        by (rule standby_pps_step_SomeD)
      have cl: "clamp (max (pps_min_mv apdo) 5500) (min (pps_max_mv apdo) 28000) (max (?v - 500) ?target)
          = max (?v - 500) (max ?target (max (pps_min_mv apdo) 5500))"
        using A(4,5) v True v500 by (intro step_voltage) auto
      have fl: "max ?target (max (pps_min_mv apdo) 5500) = descent_floor apdo standby"
        by (auto simp: descent_floor_def max_def)
      have "on_apdo s apdo" using A by (simp add: on_apdo_def)
      moreover have "descent_floor apdo standby < ?v"
        using A(7,8) cl fl by (simp add: pps_contract_def)
      ultimately show thesis
        using step [of apdo] beg r Some A(7) cl fl by simp
    qed
  qed
qed

lemma standby_contract_rdo:
  assumes "wf_caps caps" "select_fusb302b_standby_contract caps mv = Some c"
  shows "\<exists>rdo. request_data_object c = Some rdo"
proof -
  from assms(2) obtain pdo where P: "clamp 5000 20000 mv \<le> fixed_voltage_mv pdo"
    "c = fixed_contract pdo (standby_current_for_voltage (fixed_voltage_mv pdo))"
    by (rule select_standby_SomeD)
  have "5000 \<le> clamp 5000 20000 mv" by (auto simp: clamp_def)
  then have "fixed_voltage_mv pdo \<noteq> 0" using P(1) by auto
  then have "is_multiple_of (contract_current_ma c) 10"
    using P(2) standby_current_bounds by (simp add: fixed_contract_def)
  moreover have "contract_object_position c \<noteq> 0"
    using standby.select_envelope [OF assms] by (auto simp: in_envelope_def)
  ultimately show ?thesis using P(2) by (simp add: request_data_object_def fixed_contract_def Let_def)
qed

lemma descent_step_aligned:
  assumes "wf_pps apdo" "is_multiple_of v 20" "500 \<le> v" "is_multiple_of (contract_voltage_mv standby) 20"
  shows "is_multiple_of (max (v - 500) (descent_floor apdo standby)) 20"
proof -
  have "is_multiple_of (5500 :: u16) 20" by (simp add: is_multiple_of_def)
  moreover have "is_multiple_of (pps_min_mv apdo) 20" using assms(1) by (simp add: wf_pps_def aligned_100_20)
  moreover have "is_multiple_of (v - 500) 20" using assms(2,3) by (rule aligned_sub)
  ultimately show ?thesis using assms(4) by (simp add: descent_floor_def aligned_max)
qed

lemma idle_round_accepts:
  assumes inv: "sink_inv s" and rcv: "source_capabilities_received s"
    and beg: "begin_request_contract (prepare_automatic_idle_refresh s) (source_capabilities s) = Ret (Some c)"
    and rdo: "request_data_object c = Some rdo" and c: "in_envelope c"
  shows "\<exists>t. idle_round s = Ret t \<and> sink_inv t \<and> phase t = Ready \<and> active_contract t = c
    \<and> source_capabilities t = source_capabilities s \<and> source_capabilities_received t
    \<and> standby_minimum_mv t = standby_minimum_mv s"
proof -
  have "in_envelope c" by (rule c)
  then show ?thesis
    using inv rcv beg rdo
    by (auto simp: idle_round_def request_automatic_idle_contract_def request_automatic_idle_fixed_contract_def
        begin_request_def prepare_automatic_idle_refresh_def on_control_message_def Let_def
        on_control_message_with_message_id_def observe_source_message_id_def sink_inv_def phase_agrees_def)
qed

lemma idle_round_descends:
  assumes ready: "idle_ready s standby"
  shows "\<exists>t. idle_round s = Ret t \<and> idle_ready t standby
    \<and> (active_contract t = standby
       \<or> (\<exists>apdo. on_apdo s apdo \<and> on_apdo t apdo
            \<and> descent_floor apdo standby < contract_voltage_mv (active_contract s)
            \<and> contract_voltage_mv (active_contract t) =
               max (contract_voltage_mv (active_contract s) - 500) (descent_floor apdo standby)))"
proof -
  let ?s = "prepare_automatic_idle_refresh s" and ?caps = "source_capabilities s"
  have inv: "sink_inv s" and ph: "phase s = Ready" and rcv: "source_capabilities_received s"
    and std: "select_fusb302b_standby_contract ?caps (standby_minimum_mv s) = Some standby"
    and al: "is_multiple_of (contract_voltage_mv standby) 20"
    using ready by (auto simp: idle_ready_def standby_contract_def split: if_splits)
  note D = sink_invD [OF inv]
  have same: "source_capabilities ?s = ?caps" "standby_minimum_mv ?s = standby_minimum_mv s"
    "active_contract ?s = active_contract s" "idle_standby ?s"
    by (simp_all add: prepare_automatic_idle_refresh_def)
  have inv': "sink_inv ?s" using inv by (simp add: prepare_automatic_idle_refresh_def)
  have std': "select_fusb302b_standby_contract (source_capabilities ?s) (standby_minimum_mv ?s) = Some standby"
    using std same by simp
  show ?thesis
    using inv' std' same(4)
  proof (cases rule: idle_request_choice)
    case standby
    obtain rdo where "request_data_object standby = Some rdo" using standby_contract_rdo [OF D(1) std] by blast
    then obtain t where "idle_round s = Ret t" "sink_inv t" "phase t = Ready" "active_contract t = standby"
      "source_capabilities t = ?caps" "source_capabilities_received t" "standby_minimum_mv t = standby_minimum_mv s"
      using idle_round_accepts [OF inv rcv, of standby rdo] standby same standby.select_envelope [OF D(1) std] by auto
    moreover from this have "contract_kind (active_contract t) \<noteq> PpsContract"
      using std by (auto elim!: select_standby_SomeD simp: fixed_contract_def)
    ultimately show ?thesis using std al by (auto simp: idle_ready_def standby_contract_def)
  next
    case (step apdo)
    let ?v = "contract_voltage_mv (active_contract s)"
    let ?c = "pps_contract apdo (max (?v - 500) (descent_floor apdo standby))
                (min (pps_max_ma apdo) (contract_current_ma (active_contract s)) div 50 * 50)"
    have on: "on_apdo s apdo" using step(1) same by (simp add: on_apdo_def)
    have wfa: "wf_pps apdo" using on wf_caps_pps [OF D(1)] by (auto simp: on_apdo_def)
    have v: "500 \<le> ?v" "?v - 500 \<le> ?v"
      using contract_ok_pps [OF D(2)] on by (auto simp: on_apdo_def word_le_nat_alt unat_sub)
    have env: "in_envelope ?c"
      using begin_request_contract_good [of ?caps ?s] D(1,2) step(3) same by (metis option.inject rust.inject)
    have val: "is_multiple_of (max (?v - 500) (descent_floor apdo standby)) 20"
      using descent_step_aligned [OF wfa _ v(1) al] ready on by (auto simp: idle_ready_def on_apdo_def)
    have "\<exists>rdo. request_data_object ?c = Some rdo"
      using env val word_mult_div_aligned [of _ "50 :: u16"]
      by (simp add: request_data_object_def pps_contract_def in_envelope_def Let_def) fastforce
    then obtain rdo where "request_data_object ?c = Some rdo" by blast
    then obtain t where t: "idle_round s = Ret t" "sink_inv t" "phase t = Ready" "active_contract t = ?c"
      "source_capabilities t = ?caps" "source_capabilities_received t" "standby_minimum_mv t = standby_minimum_mv s"
      using idle_round_accepts [OF inv rcv, of ?c rdo] step same env by auto
    have low: "descent_floor apdo standby < ?v" using step(2) same by simp
    have "on_apdo t apdo"
      using t(4,5) on low v by (auto simp: on_apdo_def pps_contract_def descent_floor_def max_def)
    moreover have "idle_ready t standby"
      using t std al val by (auto simp: idle_ready_def standby_contract_def pps_contract_def)
    ultimately show ?thesis using t(1,4) on low by (auto simp: pps_contract_def)
  qed
qed

lemma idle_round_at_floor:
  assumes "idle_ready s standby" "on_apdo s apdo" "contract_voltage_mv (active_contract s) \<le> descent_floor apdo standby"
  shows "\<exists>t. idle_round s = Ret t \<and> idle_ready t standby \<and> active_contract t = standby"
proof -
  have wf: "wf_caps (source_capabilities s)" using assms(1) by (simp add: idle_ready_def sink_inv_def)
  show ?thesis
    using idle_round_descends [OF assms(1)] on_apdo_unique [OF wf assms(2)] assms(3) by (metis not_le)
qed

lemma idle_rounds_reach_standby:
  assumes "idle_ready s standby"
    and "contract_kind (active_contract s) = PpsContract \<Longrightarrow> unat (contract_voltage_mv (active_contract s)) \<le> 5500 + 500 * N"
  shows "\<exists>n t. n \<le> N + 1 \<and> idle_rounds n s = Ret t \<and> idle_ready t standby \<and> active_contract t = standby"
  using assms
proof (induction N arbitrary: s)
  case (0 s)
  have "\<not> descent_floor apdo standby < contract_voltage_mv (active_contract s)" if "on_apdo s apdo" for apdo
    using 0(2) that by (auto simp: on_apdo_def descent_floor_def word_less_nat_alt word_le_nat_alt max_def)
  then obtain t where "idle_round s = Ret t" "idle_ready t standby" "active_contract t = standby"
    using idle_round_descends [OF 0(1)] by blast
  then have "idle_rounds 1 s = Ret t \<and> idle_ready t standby \<and> active_contract t = standby" by simp
  then show ?case by force
next
  case (Suc N s)
  obtain t where t: "idle_round s = Ret t" "idle_ready t standby"
    "active_contract t = standby \<or> (\<exists>apdo. on_apdo s apdo \<and> on_apdo t apdo
        \<and> descent_floor apdo standby < contract_voltage_mv (active_contract s)
        \<and> contract_voltage_mv (active_contract t) =
           max (contract_voltage_mv (active_contract s) - 500) (descent_floor apdo standby))"
    using idle_round_descends [OF Suc.prems(1)] by blast
  then consider (finished) "active_contract t = standby"
    | (floor) apdo where "on_apdo t apdo" "contract_voltage_mv (active_contract t) \<le> descent_floor apdo standby"
    | (down) apdo where "on_apdo s apdo" "contract_voltage_mv (active_contract t) = contract_voltage_mv (active_contract s) - 500"
    by (metis max_def order_refl)
  then show ?case
  proof cases
    case finished
    then have "idle_rounds 1 s = Ret t" "1 \<le> Suc N + 1" using t(1) by simp_all
    then show ?thesis using t(2) finished by blast
  next
    case (floor apdo)
    then obtain u where "idle_round t = Ret u" "idle_ready u standby" "active_contract u = standby"
      using idle_round_at_floor [OF t(2)] by blast
    then have "idle_rounds 2 s = Ret u" "2 \<le> Suc N + 1" "idle_ready u standby" "active_contract u = standby"
      using t(1) by (simp_all add: numeral_2_eq_2)
    then show ?thesis by blast
  next
    case (down apdo)
    have "contract_kind (active_contract s) = PpsContract" using down(1) by (simp add: on_apdo_def)
    then have "5500 \<le> contract_voltage_mv (active_contract s)"
      "unat (contract_voltage_mv (active_contract s)) \<le> 5500 + 500 * Suc N"
      using contract_ok_pps Suc.prems by (auto simp: idle_ready_def sink_inv_def)
    then have "unat (contract_voltage_mv (active_contract t)) \<le> 5500 + 500 * N"
      using down(2) by (simp add: unat_sub word_le_nat_alt)
    then obtain n u where "n \<le> N + 1" "idle_rounds n t = Ret u" "idle_ready u standby" "active_contract u = standby"
      using Suc.IH [OF t(2)] by blast
    then have "idle_rounds (Suc n) s = Ret u" "Suc n \<le> Suc N + 1" using t(1) by simp_all
    then show ?thesis using \<open>idle_ready u standby\<close> \<open>active_contract u = standby\<close> by blast
  qed
qed

section \<open>Source_Capabilities messages\<close>

section \<open>A concrete session\<close>

definition bench_ready :: SinkPolicy where
  "bench_ready = (SinkPolicy_new 5000 3000)\<lparr>phase := Ready, active_contract := bench_contract,
     source_capabilities := from_pdos bench_source, source_capabilities_received := True\<rparr>"

definition bench_standby :: Contract where
  "bench_standby = \<lparr>contract_kind = FixedContract, contract_object_position = 1,
     contract_voltage_mv = 5000, contract_current_ma = 1000\<rparr>"

lemma bench_idle_ready: "idle_ready bench_ready bench_standby"
  by code_simp

definition bench_offered :: SinkPolicy where
  "bench_offered = (SinkPolicy_new 5000 3000)\<lparr>source_capabilities := from_pdos bench_source,
     source_capabilities_received := True,
     pending_contract := bench_contract\<lparr>contract_voltage_mv := 5500\<rparr>, phase := WaitingForAccept\<rparr>"

lemma bench_offer_step:
  "sink_step (SinkPolicy_new 5000 3000) (SourceCapabilitiesMessage bench_source None) =
     Ret (bench_offered, Some [60, 38, 2, 49])"
  by code_simp

lemma bench_offered_reachable: "sink_reachable bench_offered"
  by (rule sink_reachable.step [OF sink_reachable.operating bench_offer_step])

section \<open>Properties\<close>

text \<open>
  (C3) In every policy a caller can reach, phase and contracts agree: a contract is active only
  while a session is negotiated (\<open>WaitingForAccept\<close>, \<open>WaitingForPsRdy\<close> or
  \<open>Ready\<close>), \<open>Ready\<close> always has one, a request is pending exactly in the two
  waiting phases, and every contract lies within the product's envelope.
\<close>

theorem reachable_phase_and_contracts_agree:
  assumes "sink_reachable s"
  shows "(active_contract s \<noteq> Contract_none \<longrightarrow>
      phase s \<in> {WaitingForAccept, WaitingForPsRdy, Ready} \<and> in_envelope (active_contract s))
    \<and> (phase s = Ready \<longrightarrow> active_contract s \<noteq> Contract_none)
    \<and> (pending_contract s \<noteq> Contract_none \<longleftrightarrow> phase s \<in> {WaitingForAccept, WaitingForPsRdy})
    \<and> (pending_contract s \<noteq> Contract_none \<longrightarrow> in_envelope (pending_contract s))
    \<and> wf_caps (source_capabilities s)"
  using sink_reachable_inv [OF assms]
  by (cases "phase s") (auto simp: sink_inv_def phase_agrees_def contract_ok_def)

theorem reachable_phase_and_contracts_agree_witness:
  "pending_contract bench_offered \<noteq> Contract_none \<and> in_envelope (pending_contract bench_offered)"
  using reachable_phase_and_contracts_agree [OF bench_offered_reachable]
  by (simp add: bench_offered_def SinkPolicy_new_def)

text \<open>
  (C18) No call on a reachable policy panics: the bounds of the \<open>clamp\<close> in the idle PPS
  step are in order for every contract that can be active, whatever the source advertises.
\<close>

theorem reachable_calls_never_panic:
  assumes "sink_reachable s"
  shows "sink_step s e \<noteq> Panic"
  using sink_step_progress [OF sink_reachable_inv [OF assms], of e] by (auto simp: sink_progress_def)

theorem reachable_calls_never_panic_witness:
  "sink_step bench_offered (RequestAutomaticIdlePpsStep 5000) \<noteq> Panic"
  by (rule reachable_calls_never_panic [OF bench_offered_reachable])

text \<open>
  (C4) Only PS_RDY installs a contract: a call on a reachable policy changes the active contract
  either by dropping it or, when it is a PS_RDY message received while waiting for it, by
  installing exactly the pending contract. Accept alone never authorises heating.
\<close>

theorem only_ps_rdy_installs_a_contract:
  assumes "sink_reachable s" "sink_step s e = Ret (s', out)" "active_contract s' \<noteq> active_contract s"
  shows "active_contract s' = Contract_none
    \<or> (\<exists>mid now. e = ControlMessage 6 mid now \<and> phase s = WaitingForPsRdy \<and> phase s' = Ready
         \<and> active_contract s' = pending_contract s)"
proof -
  have "(active_contract s' = Contract_none) \<or> (\<exists>mid now. e = ControlMessage 6 mid now \<and> phase s = WaitingForPsRdy
      \<and> active_contract s' = pending_contract s)"
    using sink_step_progress [OF sink_reachable_inv [OF assms(1)], of e] assms(2,3) by (auto simp: sink_progress_def)
  then show ?thesis
  proof
    assume "\<exists>mid now. e = ControlMessage 6 mid now \<and> phase s = WaitingForPsRdy \<and> active_contract s' = pending_contract s"
    then obtain mid now where e: "e = ControlMessage 6 mid now" "phase s = WaitingForPsRdy" "active_contract s' = pending_contract s"
      by blast
    then have "phase s' = Ready"
      using assms(2,3)
      by (cases rule: observe_cases [of s mid]) (auto simp: on_control_message_with_message_id_def)
    then show ?thesis using e by blast
  qed simp
qed

theorem only_ps_rdy_installs_a_contract_witness:
  "\<exists>s s' out. sink_step s (ControlMessage 6 None 0) = Ret (s', out) \<and> phase s' = Ready
     \<and> active_contract s' = pending_contract s \<and> active_contract s' \<noteq> Contract_none"
proof -
  let ?s = "bench_offered\<lparr>phase := WaitingForPsRdy\<rparr>"
  let ?t = "?s\<lparr>active_contract := pending_contract ?s, pending_contract := Contract_none, phase := Ready\<rparr>"
  have "sink_step bench_offered (ControlMessage 3 None 0) = Ret (?s, None)" by code_simp
  then have r: "sink_reachable ?s" by (rule sink_reachable.step [OF bench_offered_reachable])
  have st: "sink_step ?s (ControlMessage 6 None 0) = Ret (?t, None)" by code_simp
  have ne: "active_contract ?t \<noteq> active_contract ?s" "active_contract ?t \<noteq> Contract_none" by code_simp+
  show ?thesis using only_ps_rdy_installs_a_contract [OF r st ne(1)] st ne(2) by blast
qed



text \<open>
  Replayed and out-of-window messages are inert: when the masked message id is not one to
  three steps ahead of the last one accepted, a control message, a Source_Capabilities message
  and a refreshed Source_Capabilities message all leave the policy exactly as it was and send
  nothing; in particular an exact repeat of the last message is ignored.
\<close>

theorem stale_messages_are_inert:
  assumes "source_message_id s = Some m" "\<not> source_message_id_is_newer m (mid AND 7)"
  shows "on_control_message_with_message_id s ty (Some mid) now = s
    \<and> on_source_capabilities_with_message_id s pdos (Some mid) = Ret (s, None)
    \<and> refresh_source_capabilities_with_message_id s pdos (Some mid) = Ret (s, None)
    \<and> \<not> source_message_id_is_newer m m"
proof -
  have idem: "x AND 7 AND 7 = x AND (7 :: u8)" for x by (simp add: and.assoc)
  show ?thesis
    using assms
    by (simp add: on_control_message_with_message_id_def on_source_capabilities_with_message_id_def
        refresh_source_capabilities_with_message_id_def observe_source_message_id_def
        source_capabilities_message_is_fresh_def idem source_message_id_is_newer_def)
qed

theorem stale_messages_are_inert_witness:
  "on_control_message_with_message_id (bench_offered\<lparr>source_message_id := Some 5\<rparr>) 3 (Some 13) 0
     = bench_offered\<lparr>source_message_id := Some 5\<rparr>"
proof -
  have "\<not> source_message_id_is_newer 5 (13 AND 7)" by code_simp
  then show ?thesis using stale_messages_are_inert [of "bench_offered\<lparr>source_message_id := Some 5\<rparr>" 5 13] by simp
qed



text \<open>
  Decoding a Source_Capabilities message inverts its encoding: for a header of type 1 that
  announces the number of objects and a payload that is their little-endian concatenation, the
  decoder returns those objects, zero-padded to seven, and their number.
\<close>

theorem source_capabilities_message_roundtrip:
  assumes "header AND 0x1f = 1" "unat ((ucast (drop_bit 12 header) :: u8) AND 7) = length pdos" "pdos \<noteq> []"
  shows "source_capabilities_from_message header (concat (map (to_le_bytes 4) pdos)) =
    Some (pdos @ replicate (7 - length pdos) 0, length pdos)"
proof -
  let ?payload = "concat (map (to_le_bytes 4) pdos)"
  have le: "length pdos \<le> 7"
    using assms(2) unat_take_bit_less [of 3 "ucast (drop_bit 12 header) :: u8"] by (simp add: mask_simps)
  have "map (\<lambda>index. if index < length pdos
      then from_le_bytes [?payload ! (index * 4), ?payload ! (index * 4 + 1),
             ?payload ! (index * 4 + 2), ?payload ! (index * 4 + 3)] else 0) [0..<7]
      = pdos @ replicate (7 - length pdos) 0" (is "map ?f _ = _")
  proof (rule nth_equalityI)
    show "length (map ?f [0..<7]) = length (pdos @ replicate (7 - length pdos) 0)" using le by simp
    fix i assume i: "i < length (map ?f [0..<7])"
    then show "map ?f [0..<7] ! i = (pdos @ replicate (7 - length pdos) 0) ! i"
      using message_chunk [of i pdos] by (auto simp: nth_append simp del: from_le_bytes.simps)
  qed
  then show ?thesis
    using assms by (simp add: source_capabilities_from_message_def Let_def length_concat_le)
qed

theorem source_capabilities_message_roundtrip_witness:
  "source_capabilities_from_message 0x3001 (concat (map (to_le_bytes 4) bench_source)) =
     Some (bench_source @ [0, 0, 0, 0], 3)"
proof -
  have "source_capabilities_from_message 0x3001 (concat (map (to_le_bytes 4) bench_source)) =
      Some (bench_source @ replicate (7 - length bench_source) 0, length bench_source)"
    by (rule source_capabilities_message_roundtrip) (code_simp, code_simp, simp add: bench_source_def)
  then show ?thesis by (simp add: bench_source_def numeral_eq_Suc)
qed

section \<open>A request that is armed but never sent\<close>

text \<open>
  \<open>request_automatic_idle_pps_step\<close> stores the pending contract and enters
  \<open>WaitingForAccept\<close> before it encodes the request. For a step that is not a multiple of
  20 mV the encoder refuses, so the call answers with nothing to send while the policy waits for
  an Accept.
\<close>

lemma unaligned_idle_step_waits_without_sending:
  "\<exists>t. request_automatic_idle_pps_step bench_ready 11990 = Ret (t, None) \<and> phase t = WaitingForAccept
     \<and> contract_voltage_mv (pending_contract t) = 11990"
  by (rule exI [of _ "bench_ready\<lparr>requested_mv := 11990, explicit_request := None,
        requested_mode := Some PpsRequest, idle_standby := True,
        pending_contract := bench_contract\<lparr>contract_voltage_mv := 11990\<rparr>, phase := WaitingForAccept\<rparr>"])
    code_simp

end
