(* ===== verification/Ch224q.thy ===== *)
theory Ch224q
  imports Prelude "HOL-Library.Product_Lexorder"
begin

text \<open>
  The CH224Q power-delivery chip, \<open>src/firmware/src/adapters/ch224q.rs\<close>: addresses, voltage
  requests, register payloads, the status register and the summary of the adjustable supplies the
  source advertises, read from the chip's power-data registers.

  The adapter has its own APDO type, without a position; its fields carry the prefix \<open>chip\<close>.
\<close>

section \<open>Addresses and requests\<close>

datatype Address = Primary | Secondary

fun Address_as_u8 :: "Address \<Rightarrow> u8" where
  "Address_as_u8 Primary = 0x22"
| "Address_as_u8 Secondary = 0x23"

datatype AddressError = Unsupported u8

definition Address_try_from :: "u8 \<Rightarrow> AddressError + Address" where
  "Address_try_from v =
     (if v = 0x22 then Inr Primary else if v = 0x23 then Inr Secondary else Inl (Unsupported v))"

datatype VoltageRequest = V5 | V9 | V12 | V15 | V20 | V28 | PpsVoltage | AvsVoltage

fun millivolts :: "VoltageRequest \<Rightarrow> u16" where
  "millivolts V5 = 5000"
| "millivolts V9 = 9000"
| "millivolts V12 = 12000"
| "millivolts V15 = 15000"
| "millivolts V20 = 20000"
| "millivolts V28 = 28000"
| "millivolts PpsVoltage = 0"
| "millivolts AvsVoltage = 0"

fun control_register_value :: "VoltageRequest \<Rightarrow> u8" where
  "control_register_value V5 = 0"
| "control_register_value V9 = 1"
| "control_register_value V12 = 2"
| "control_register_value V15 = 3"
| "control_register_value V20 = 4"
| "control_register_value V28 = 5"
| "control_register_value PpsVoltage = 6"
| "control_register_value AvsVoltage = 7"

definition VOLTAGE_CONTROL_REGISTER :: u8 where [simp]: "VOLTAGE_CONTROL_REGISTER = 0x0A"
definition AVS_VOLTAGE_CONFIG_HIGH_REGISTER :: u8 where [simp]: "AVS_VOLTAGE_CONFIG_HIGH_REGISTER = 0x51"
definition AVS_VOLTAGE_CONFIG_LOW_REGISTER :: u8 where [simp]: "AVS_VOLTAGE_CONFIG_LOW_REGISTER = 0x52"
definition PPS_VOLTAGE_CONFIG_REGISTER :: u8 where [simp]: "PPS_VOLTAGE_CONFIG_REGISTER = 0x53"
definition PPS_GATE_MV :: u16 where [simp]: "PPS_GATE_MV = 20000"
definition MAX_PPS_APDOS :: nat where [simp]: "MAX_PPS_APDOS = 7"

definition voltage_request_payload :: "VoltageRequest \<Rightarrow> u8 \<times> u8" where
  "voltage_request_payload request = (VOLTAGE_CONTROL_REGISTER, control_register_value request)"

definition pps_voltage_payload :: "u16 \<Rightarrow> (u8 \<times> u8) option" where
  "pps_voltage_payload mv =
     (let units = mv div 100 in
      if \<not> is_multiple_of mv 100 \<or> units > 255 then None
      else Some (PPS_VOLTAGE_CONFIG_REGISTER, ucast units))"

definition avs_voltage_payloads :: "u16 \<Rightarrow> ((u8 \<times> u8) \<times> (u8 \<times> u8)) option" where
  "avs_voltage_payloads mv =
     (let units = mv div 25 in
      if \<not> is_multiple_of mv 25 then None
      else Some ((AVS_VOLTAGE_CONFIG_HIGH_REGISTER, ucast (drop_bit 8 units)),
                 (AVS_VOLTAGE_CONFIG_LOW_REGISTER, ucast (units AND 0xff))))"

datatype AdjustableVoltageMode = PpsAdjustable | AvsAdjustable

fun control_request :: "AdjustableVoltageMode \<Rightarrow> VoltageRequest" where
  "control_request PpsAdjustable = PpsVoltage"
| "control_request AvsAdjustable = AvsVoltage"

record Status =
  bc_active :: bool
  qc2_active :: bool
  qc3_active :: bool
  pd_active :: bool
  epr_active :: bool
  epr_exist :: bool
  avs_exist :: bool

definition Status_from_register :: "u8 \<Rightarrow> Status" where
  "Status_from_register v =
     \<lparr>bc_active = (v AND push_bit 0 1 \<noteq> 0), qc2_active = (v AND push_bit 1 1 \<noteq> 0),
      qc3_active = (v AND push_bit 2 1 \<noteq> 0), pd_active = (v AND push_bit 3 1 \<noteq> 0),
      epr_active = (v AND push_bit 4 1 \<noteq> 0), epr_exist = (v AND push_bit 5 1 \<noteq> 0),
      avs_exist = (v AND push_bit 6 1 \<noteq> 0)\<rparr>"

definition current_ma_from_register :: "u8 \<Rightarrow> u16" where
  "current_ma_from_register v = ucast v * 50"

section \<open>The advertised adjustable supplies\<close>

record ChipApdo =
  chip_min_mv :: u16
  chip_max_mv :: u16
  chip_max_ma :: u16

record AdjustablePowerCapabilities =
  pps_covers_20v :: bool
  best_min_mv :: "u16 option"
  best_max_mv :: "u16 option"
  best_max_ma :: "u16 option"
  pps_apdos :: "ChipApdo option list"
  source_power_limit_mw :: "u32 option"
  source_power_limit_ma :: "u16 option"
  avs_min_mv :: "u16 option"
  avs_max_mv :: "u16 option"

definition AdjustablePowerCapabilities_default :: AdjustablePowerCapabilities where
  "AdjustablePowerCapabilities_default =
     \<lparr>pps_covers_20v = False, best_min_mv = None, best_max_mv = None, best_max_ma = None,
      pps_apdos = replicate MAX_PPS_APDOS None, source_power_limit_mw = None,
      source_power_limit_ma = None, avs_min_mv = None, avs_max_mv = None\<rparr>"

definition pd_object_type :: "u32 \<Rightarrow> u32" where
  "pd_object_type raw = drop_bit 30 raw AND 3"

definition augmented_pd_object_type :: "u32 \<Rightarrow> u32" where
  "augmented_pd_object_type raw = drop_bit 28 raw AND 3"

definition pps_apdo_min_mv :: "u32 \<Rightarrow> u16" where
  "pps_apdo_min_mv raw = ucast (drop_bit 8 raw AND 0xff) * 100"

definition pps_apdo_max_mv :: "u32 \<Rightarrow> u16" where
  "pps_apdo_max_mv raw = ucast (drop_bit 17 raw AND 0xff) * 100"

definition pps_apdo_max_ma :: "u32 \<Rightarrow> u16" where
  "pps_apdo_max_ma raw = ucast (raw AND 0x7f) * 50"

definition epr_avs_apdo_min_mv :: "u32 \<Rightarrow> u16" where
  "epr_avs_apdo_min_mv raw = ucast (drop_bit 8 raw AND 0xff) * 100"

definition epr_avs_apdo_max_mv :: "u32 \<Rightarrow> u16" where
  "epr_avs_apdo_max_mv raw = ucast (drop_bit 17 raw AND 0x1ff) * 100"

definition push_pps_apdo :: "AdjustablePowerCapabilities \<Rightarrow> ChipApdo \<Rightarrow> AdjustablePowerCapabilities" where
  "push_pps_apdo caps apdo = caps\<lparr>pps_apdos := push_slot apdo (pps_apdos caps)\<rparr>"

definition chip_candidate_is_better ::
  "u16 option \<Rightarrow> u16 option \<Rightarrow> u16 option \<Rightarrow> u16 \<Rightarrow> u16 \<Rightarrow> u16 \<Rightarrow> bool" where
  "chip_candidate_is_better prev_min prev_max prev_ma cand_min cand_max cand_ma =
     (case (prev_min, prev_max, prev_ma) of
        (Some previous_min_mv, Some previous_max_mv, Some previous_max_ma) \<Rightarrow>
          let previous_covers_20v = previous_min_mv \<le> PPS_GATE_MV \<and> previous_max_mv \<ge> PPS_GATE_MV;
              candidate_covers_20v = cand_min \<le> PPS_GATE_MV \<and> cand_max \<ge> PPS_GATE_MV
          in if candidate_covers_20v \<noteq> previous_covers_20v then candidate_covers_20v
             else if cand_ma \<noteq> previous_max_ma then cand_ma > previous_max_ma
             else if cand_max \<noteq> previous_max_mv then cand_max > previous_max_mv
             else if cand_min \<noteq> previous_min_mv then cand_min < previous_min_mv
             else False
      | _ \<Rightarrow> True)"

definition merge_power_data_object :: "u32 \<Rightarrow> AdjustablePowerCapabilities \<Rightarrow> AdjustablePowerCapabilities" where
  "merge_power_data_object raw caps =
     (if raw = 0 \<or> pd_object_type raw \<noteq> 3 then caps
      else if augmented_pd_object_type raw = 0 then
        let min_mv = pps_apdo_min_mv raw; max_mv = pps_apdo_max_mv raw; max_ma = pps_apdo_max_ma raw in
        if min_mv = 0 \<or> max_mv = 0 \<or> max_ma = 0 \<or> max_mv < min_mv then caps
        else let caps = push_pps_apdo caps \<lparr>chip_min_mv = min_mv, chip_max_mv = max_mv, chip_max_ma = max_ma\<rparr>;
                 caps = caps\<lparr>pps_covers_20v := pps_covers_20v caps \<or> (min_mv \<le> PPS_GATE_MV \<and> max_mv \<ge> PPS_GATE_MV)\<rparr>
             in if chip_candidate_is_better (best_min_mv caps) (best_max_mv caps) (best_max_ma caps) min_mv max_mv max_ma
                then caps\<lparr>best_min_mv := Some min_mv, best_max_mv := Some max_mv, best_max_ma := Some max_ma\<rparr>
                else caps
      else if augmented_pd_object_type raw = 1 then
        let min_mv = epr_avs_apdo_min_mv raw; max_mv = epr_avs_apdo_max_mv raw in
        if min_mv = 0 \<or> max_mv = 0 \<or> max_mv < min_mv then caps
        else caps\<lparr>avs_min_mv := Some (case avs_min_mv caps of Some previous \<Rightarrow> min previous min_mv | None \<Rightarrow> min_mv),
                  avs_max_mv := Some (case avs_max_mv caps of Some previous \<Rightarrow> max previous max_mv | None \<Rightarrow> max_mv)\<rparr>
      else caps)"

definition source_cap_pdo_count :: "u16 \<Rightarrow> nat" where
  "source_cap_pdo_count header = unat (drop_bit 12 header AND 7)"

definition source_cap_is_extended :: "u16 \<Rightarrow> bool" where
  "source_cap_is_extended header = (header AND push_bit 15 1 \<noteq> 0)"

definition source_cap_pdo_window :: "u8 list \<Rightarrow> (nat \<times> nat) option" where
  "source_cap_pdo_window bs =
     (if length bs < 2 then None
      else let header = from_le_bytes [bs ! 0, bs ! 1];
               pdo_count = source_cap_pdo_count header;
               pdo_offset = (if source_cap_is_extended header then 4 else 2)
           in if pdo_count = 0 \<or> length bs < pdo_offset + pdo_count * 4 then None
              else Some (pdo_offset, pdo_count))"

text \<open>\<open>chunks_exact(4)\<close>: the complete groups of four; a shorter rest is dropped.\<close>

fun chunks_exact_4 :: "'a list \<Rightarrow> 'a list list" where
  "chunks_exact_4 (a # b # c # d # rest) = [a, b, c, d] # chunks_exact_4 rest"
| "chunks_exact_4 _ = []"

definition word_at :: "u8 list \<Rightarrow> nat \<Rightarrow> u32" where
  "word_at bs offset = from_le_bytes [bs ! offset, bs ! (offset + 1), bs ! (offset + 2), bs ! (offset + 3)]"

definition from_pd_power_data :: "u8 list \<Rightarrow> AdjustablePowerCapabilities" where
  "from_pd_power_data bs =
     (case source_cap_pdo_window bs of
        Some (pdo_offset, pdo_count) \<Rightarrow>
          fold (\<lambda>pdo_index. merge_power_data_object (word_at bs (pdo_offset + pdo_index * 4)))
            [0..<pdo_count] AdjustablePowerCapabilities_default
      | None \<Rightarrow>
          fold (\<lambda>chunk. merge_power_data_object (from_le_bytes chunk)) (chunks_exact_4 bs)
            AdjustablePowerCapabilities_default)"

section \<open>The summary as a function of the objects\<close>

text \<open>The objects the summary is built from: those of the capability message when the registers hold
  one, otherwise every aligned group of four bytes.\<close>

definition power_objects :: "u8 list \<Rightarrow> u32 list" where
  "power_objects bs =
     (case source_cap_pdo_window bs of
        Some (pdo_offset, pdo_count) \<Rightarrow> map (\<lambda>i. word_at bs (pdo_offset + i * 4)) [0..<pdo_count]
      | None \<Rightarrow> map from_le_bytes (chunks_exact_4 bs))"

lemma from_pd_power_data_fold:
  "from_pd_power_data bs = fold merge_power_data_object (power_objects bs) AdjustablePowerCapabilities_default"
  by (auto simp: from_pd_power_data_def power_objects_def fold_map comp_def split: option.splits)

definition chip_pps :: "u32 \<Rightarrow> ChipApdo option" where
  "chip_pps raw =
     (let min_mv = pps_apdo_min_mv raw; max_mv = pps_apdo_max_mv raw; max_ma = pps_apdo_max_ma raw
      in if raw \<noteq> 0 \<and> pd_object_type raw = 3 \<and> augmented_pd_object_type raw = 0
            \<and> min_mv \<noteq> 0 \<and> max_mv \<noteq> 0 \<and> max_ma \<noteq> 0 \<and> min_mv \<le> max_mv
         then Some \<lparr>chip_min_mv = min_mv, chip_max_mv = max_mv, chip_max_ma = max_ma\<rparr> else None)"

definition chip_avs :: "u32 \<Rightarrow> (u16 \<times> u16) option" where
  "chip_avs raw =
     (let min_mv = epr_avs_apdo_min_mv raw; max_mv = epr_avs_apdo_max_mv raw
      in if raw \<noteq> 0 \<and> pd_object_type raw = 3 \<and> augmented_pd_object_type raw = 1
            \<and> min_mv \<noteq> 0 \<and> max_mv \<noteq> 0 \<and> min_mv \<le> max_mv
         then Some (min_mv, max_mv) else None)"

definition covers_20v :: "ChipApdo \<Rightarrow> bool" where
  "covers_20v a = (chip_min_mv a \<le> PPS_GATE_MV \<and> PPS_GATE_MV \<le> chip_max_mv a)"

definition chip_better :: "ChipApdo \<Rightarrow> ChipApdo \<Rightarrow> bool" where
  "chip_better a b =
     chip_candidate_is_better (Some (chip_min_mv b)) (Some (chip_max_mv b)) (Some (chip_max_ma b))
       (chip_min_mv a) (chip_max_mv a) (chip_max_ma a)"

text \<open>The comparison is the lexicographic order of coverage of 20 V, current, upper and (reversed)
  lower voltage.\<close>

definition chip_rank :: "ChipApdo \<Rightarrow> bool \<times> u16 \<times> u16 \<times> int" where
  "chip_rank a = (covers_20v a, chip_max_ma a, chip_max_mv a, - uint (chip_min_mv a))"

lemma chip_better_rank: "chip_better a b \<longleftrightarrow> chip_rank b < chip_rank a"
  by (cases "covers_20v a"; cases "covers_20v b")
     (simp_all add: chip_better_def chip_candidate_is_better_def chip_rank_def covers_20v_def Let_def
       word_less_def [of "chip_min_mv a"], auto)

interpretation chip: strict_preference chip_better
  by unfold_locales (auto simp: chip_better_rank)

text \<open>Abstractly: what the summary says of the APDOs and of the adjustable-voltage ranges seen so far.\<close>

definition reports :: "AdjustablePowerCapabilities \<Rightarrow> ChipApdo list \<Rightarrow> (u16 \<times> u16) list \<Rightarrow> bool" where
  "reports caps apdos ranges \<longleftrightarrow>
     pps_covers_20v caps = list_ex covers_20v apdos
     \<and> best_min_mv caps = map_option chip_min_mv (keep_best chip_better apdos)
     \<and> best_max_mv caps = map_option chip_max_mv (keep_best chip_better apdos)
     \<and> best_max_ma caps = map_option chip_max_ma (keep_best chip_better apdos)
     \<and> pps_apdos caps = pack MAX_PPS_APDOS (take MAX_PPS_APDOS apdos)
     \<and> avs_min_mv caps = (if ranges = [] then None else Some (Min (fst ` set ranges)))
     \<and> avs_max_mv caps = (if ranges = [] then None else Some (Max (snd ` set ranges)))"

lemma reports_default: "reports AdjustablePowerCapabilities_default [] []"
  by (simp add: reports_def AdjustablePowerCapabilities_default_def pack_def)

lemma keep_best_snoc: "keep_best better (xs @ [x]) = keep_best_step better x (keep_best better xs)"
  by (simp add: keep_best_def)

lemma keep_best_single: "keep_best better [x] = Some x"
  by (simp add: keep_best_def)

lemma push_slot_take: "push_slot x (pack n (take n xs)) = pack n (take n (xs @ [x]))"
  by (cases "length xs < n") (simp_all add: push_slot_pack push_slot_pack_full)

lemma reports_pps:
  assumes "reports caps apdos ranges" "chip_pps raw = Some a"
  shows "reports (merge_power_data_object raw caps) (apdos @ [a]) ranges"
proof -
  have raw: "raw \<noteq> 0" "pd_object_type raw = 3" "augmented_pd_object_type raw = 0" "chip_min_mv a \<noteq> 0"
    "chip_max_mv a \<noteq> 0" "chip_max_ma a \<noteq> 0" "\<not> chip_max_mv a < chip_min_mv a"
    "pps_apdo_min_mv raw = chip_min_mv a" "pps_apdo_max_mv raw = chip_max_mv a" "pps_apdo_max_ma raw = chip_max_ma a"
    and a: "\<lparr>chip_min_mv = chip_min_mv a, chip_max_mv = chip_max_mv a, chip_max_ma = chip_max_ma a\<rparr> = a"
    using assms(2) by (auto simp: chip_pps_def Let_def split: if_splits)
  let ?better = "chip_candidate_is_better (best_min_mv caps) (best_max_mv caps) (best_max_ma caps)
    (chip_min_mv a) (chip_max_mv a) (chip_max_ma a)"
  have step: "?better = (case keep_best chip_better apdos of None \<Rightarrow> True | Some b \<Rightarrow> chip_better a b)"
    using assms(1) by (auto simp: reports_def chip_better_def chip_candidate_is_better_def split: option.splits)
  show ?thesis
    using assms(1) step
    unfolding merge_power_data_object_def Let_def raw(8-10)
    by (cases "keep_best chip_better apdos")
       (auto simp: reports_def raw a push_pps_apdo_def push_slot_take push_slot_take [of a _ "[]", simplified]
         keep_best_snoc keep_best_single covers_20v_def simp del: MAX_PPS_APDOS_def)
qed

lemma reports_avs:
  assumes "reports caps apdos ranges" "chip_avs raw = Some (lo, hi)"
  shows "reports (merge_power_data_object raw caps) apdos (ranges @ [(lo, hi)])"
proof -
  have raw: "raw \<noteq> 0" "pd_object_type raw = 3" "augmented_pd_object_type raw = 1" "lo \<noteq> 0" "hi \<noteq> 0" "\<not> hi < lo"
    "epr_avs_apdo_min_mv raw = lo" "epr_avs_apdo_max_mv raw = hi"
    using assms(2) by (auto simp: chip_avs_def Let_def split: if_splits)
  have merge: "merge_power_data_object raw caps =
      caps\<lparr>avs_min_mv := Some (case avs_min_mv caps of Some previous \<Rightarrow> min previous lo | None \<Rightarrow> lo),
           avs_max_mv := Some (case avs_max_mv caps of Some previous \<Rightarrow> max previous hi | None \<Rightarrow> hi)\<rparr>"
    by (simp add: merge_power_data_object_def raw)
  show ?thesis
  proof (cases "ranges = []")
    case True
    then show ?thesis using assms(1) by (simp add: merge reports_def)
  next
    case False
    then have "Min (fst ` set (ranges @ [(lo, hi)])) = min (Min (fst ` set ranges)) lo"
      "Max (snd ` set (ranges @ [(lo, hi)])) = max (Max (snd ` set ranges)) hi"
      by (simp_all add: min.commute max.commute)
    then show ?thesis using False assms(1) unfolding merge reports_def by simp
  qed
qed

lemma merge_inert:
  "chip_pps raw = None \<Longrightarrow> chip_avs raw = None \<Longrightarrow> merge_power_data_object raw caps = caps"
proof -
  assume none: "chip_pps raw = None" "chip_avs raw = None"
  show ?thesis
  proof (cases "raw = 0 \<or> pd_object_type raw \<noteq> 3")
    case False
    have "augmented_pd_object_type raw = 0 \<Longrightarrow> pps_apdo_min_mv raw = 0 \<or> pps_apdo_max_mv raw = 0
        \<or> pps_apdo_max_ma raw = 0 \<or> pps_apdo_max_mv raw < pps_apdo_min_mv raw"
      using none(1) False unfolding chip_pps_def Let_def not_le [symmetric] by (metis option.distinct(1))
    moreover have "augmented_pd_object_type raw = 1 \<Longrightarrow> epr_avs_apdo_min_mv raw = 0 \<or> epr_avs_apdo_max_mv raw = 0
        \<or> epr_avs_apdo_max_mv raw < epr_avs_apdo_min_mv raw"
      using none(2) False unfolding chip_avs_def Let_def not_le [symmetric] by (metis option.distinct(1))
    ultimately show ?thesis using False unfolding merge_power_data_object_def Let_def by presburger
  qed (simp add: merge_power_data_object_def)
qed

lemma pps_not_avs: "chip_pps raw = Some a \<Longrightarrow> chip_avs raw = None"
  by (auto simp: chip_pps_def chip_avs_def Let_def split: if_splits)

lemma reports_fold:
  "reports caps apdos ranges \<Longrightarrow>
     reports (fold merge_power_data_object raws caps)
       (apdos @ flatten (map chip_pps raws)) (ranges @ flatten (map chip_avs raws))"
proof (induction raws arbitrary: caps apdos ranges)
  case (Cons raw raws)
  show ?case
  proof (cases "chip_pps raw")
    case (Some a)
    then show ?thesis
      using Cons.IH [OF reports_pps [OF Cons.prems Some]] pps_not_avs [OF Some] by simp
  next
    case None
    then show ?thesis
      using Cons merge_inert [OF None] Cons.IH [OF reports_avs [OF Cons.prems]]
      by (cases "chip_avs raw") auto
  qed
qed simp

lemma from_pd_power_data_reports:
  "reports (from_pd_power_data bs) (flatten (map chip_pps (power_objects bs))) (flatten (map chip_avs (power_objects bs)))"
  unfolding from_pd_power_data_fold using reports_fold [OF reports_default] by simp

section \<open>Properties\<close>

text \<open>
  \<^bold>\<open>The summary of the source is exact.\<close> Whatever the registers hold, let the APDOs be the
  valid PPS objects among those read. The summary says that 20 V is covered exactly when one of them
  covers it; its minimum, maximum and current are those of one and the same APDO, and no other APDO
  beats it in the order of coverage of 20 V, current, upper voltage and lower voltage, so it covers
  20 V whenever any does; the slots hold the first seven APDOs in order; and the adjustable-voltage
  range spans the valid AVS objects.
\<close>

theorem chip_summary_is_exact:
  "let caps = from_pd_power_data bs;
       apdos = flatten (map chip_pps (power_objects bs));
       ranges = flatten (map chip_avs (power_objects bs))
   in pps_covers_20v caps = list_ex covers_20v apdos
      \<and> (case best_min_mv caps of
           None \<Rightarrow> apdos = [] \<and> best_max_mv caps = None \<and> best_max_ma caps = None
         | Some min_mv \<Rightarrow>
             \<exists>a\<in>set apdos. min_mv = chip_min_mv a \<and> best_max_mv caps = Some (chip_max_mv a)
               \<and> best_max_ma caps = Some (chip_max_ma a)
               \<and> (\<forall>b\<in>set apdos. chip_rank b \<le> chip_rank a) \<and> covers_20v a = pps_covers_20v caps)
      \<and> pps_apdos caps = map Some (take 7 apdos) @ replicate (7 - length apdos) None
      \<and> avs_min_mv caps = (if ranges = [] then None else Some (Min (fst ` set ranges)))
      \<and> avs_max_mv caps = (if ranges = [] then None else Some (Max (snd ` set ranges)))"
proof -
  define caps where "caps = from_pd_power_data bs"
  define apdos where "apdos = flatten (map chip_pps (power_objects bs))"
  have r: "reports caps apdos (flatten (map chip_avs (power_objects bs)))"
    unfolding caps_def apdos_def by (rule from_pd_power_data_reports)
  have best: "case best_min_mv caps of
      None \<Rightarrow> apdos = [] \<and> best_max_mv caps = None \<and> best_max_ma caps = None
    | Some min_mv \<Rightarrow>
        \<exists>a\<in>set apdos. min_mv = chip_min_mv a \<and> best_max_mv caps = Some (chip_max_mv a)
          \<and> best_max_ma caps = Some (chip_max_ma a)
          \<and> (\<forall>b\<in>set apdos. chip_rank b \<le> chip_rank a) \<and> covers_20v a = pps_covers_20v caps"
  proof (cases "keep_best chip_better apdos")
    case None
    then show ?thesis using r by (simp add: reports_def)
  next
    case (Some a)
    have a: "a \<in> set apdos" "\<forall>b\<in>set apdos. chip_rank b \<le> chip_rank a"
      using chip.keep_best_optimal [OF Some] by (auto simp: chip_better_rank not_less)
    then have "covers_20v b \<Longrightarrow> b \<in> set apdos \<Longrightarrow> covers_20v a" for b
      by (fastforce simp: chip_rank_def)
    then have "covers_20v a = pps_covers_20v caps" using a(1) r by (auto simp: reports_def list_ex_iff)
    then show ?thesis using Some a r by (auto simp: reports_def)
  qed
  show ?thesis
    unfolding Let_def caps_def [symmetric] apdos_def [symmetric]
    using best r by (simp add: reports_def pack_def)
qed

text \<open>A 5 V fixed object, a PPS APDO of 3.3 to 11 V at 5 A and one of 3.3 to 21 V at 3 A, behind a
  message header.\<close>

definition chip_registers :: "u8 list" where
  "chip_registers = [0x61, 0x31, 0x2c, 0x91, 0x01, 0x00, 0x64, 0x21, 0xdc, 0xc0, 0x3c, 0x21, 0xa4, 0xc1]"

theorem chip_summary_is_exact_witness:
  "pps_covers_20v (from_pd_power_data chip_registers)
   \<and> (\<exists>a\<in>set (flatten (map chip_pps (power_objects chip_registers))).
        best_max_mv (from_pd_power_data chip_registers) = Some (chip_max_mv a) \<and> covers_20v a)"
proof -
  have covers: "pps_covers_20v (from_pd_power_data chip_registers)" by code_simp
  have "best_min_mv (from_pd_power_data chip_registers) = Some 3300" by code_simp
  then show ?thesis using chip_summary_is_exact [of chip_registers] covers by (auto simp: Let_def)
qed

text \<open>The registers are never read past their end.\<close>

lemma window_in_range: "source_cap_pdo_window bs = Some (offset, count) \<Longrightarrow> offset + count * 4 \<le> length bs \<and> count \<le> 7"
  using unat_take_bit_less [of 3 "drop_bit 12 (from_le_bytes [bs ! 0, bs ! 1] :: u16)"]
  by (auto simp: source_cap_pdo_window_def source_cap_pdo_count_def Let_def mask_simps
      simp del: from_le_bytes.simps split: if_splits)

lemma Address_roundtrip: "Address_try_from v = Inr a \<longleftrightarrow> v = Address_as_u8 a"
  by (cases a) (auto simp: Address_try_from_def)

lemma byte_split: "l < 256 \<Longrightarrow> (u div 256 = h \<and> u mod 256 = l) = (u = 256 * h + (l :: nat))"
  by (metis add.commute div_less div_mult_self4 add_cancel_right_right mod_less mod_mult_self2
      mult_div_mod_eq zero_neq_numeral)

text \<open>
  \<^bold>\<open>Voltage payloads encode the voltage exactly.\<close> The PPS register value is the voltage in
  steps of 100 mV and the two AVS register values are its high and low byte in steps of 25 mV; a
  voltage that is not such a multiple, or whose PPS step count exceeds a byte, has no payload.
\<close>

theorem voltage_payloads_are_exact:
  "(pps_voltage_payload mv = Some (0x53, b)) = (unat mv = 100 * unat b)
   \<and> (avs_voltage_payloads mv = Some ((0x51, high), (0x52, low))) = (unat mv = 25 * (256 * unat high + unat low))"
proof
  have b: "unat b < 256" using unat_bound [of b] by simp
  have "pps_voltage_payload mv = Some (0x53, b) \<longleftrightarrow> 100 dvd unat mv \<and> unat mv div 100 \<le> 255 \<and> ucast (mv div 100) = b"
    by (auto simp: pps_voltage_payload_def Let_def is_multiple_of_iff word_less_nat_alt unat_div)
  also have "\<dots> \<longleftrightarrow> 100 dvd unat mv \<and> unat mv div 100 = unat b"
    using b by (auto simp: word_unat_eq_iff unat_ucast_small unat_div)
  also have "\<dots> \<longleftrightarrow> unat mv = 100 * unat b" by auto
  finally show "(pps_voltage_payload mv = Some (0x53, b)) = (unat mv = 100 * unat b)" .
next
  have hl: "unat high < 256" "unat low < 256" using unat_bound [of high] unat_bound [of low] by simp_all
  have mv: "unat mv < 65536" using unat_bound [of mv] by simp
  define u where "u = unat mv div 25"
  have u: "unat (mv div 25) = u" by (simp add: u_def unat_div)
  have hi: "unat (ucast (drop_bit 8 (mv div 25)) :: u8) = u div 256"
    using mv by (subst unat_ucast_small) (simp_all add: drop_bit_eq_div unat_div u_def)
  have lo: "unat (ucast ((mv div 25) AND 0xff) :: u8) = u mod 256"
    by (simp add: mask_simps unsigned_ucast_eq unsigned_take_bit_eq u [symmetric] take_bit_eq_mod unat_mod)
  have "avs_voltage_payloads mv = Some ((0x51, high), (0x52, low)) \<longleftrightarrow>
      25 dvd unat mv \<and> u div 256 = unat high \<and> u mod 256 = unat low"
    by (auto simp: avs_voltage_payloads_def Let_def is_multiple_of_iff word_unat_eq_iff hi [symmetric] lo [symmetric])
  also have "\<dots> \<longleftrightarrow> 25 dvd unat mv \<and> u = 256 * unat high + unat low"
    using byte_split [OF hl(2)] by blast
  also have "\<dots> \<longleftrightarrow> unat mv = 25 * (256 * unat high + unat low)" by (auto simp: u_def)
  finally show "(avs_voltage_payloads mv = Some ((0x51, high), (0x52, low)))
      = (unat mv = 25 * (256 * unat high + unat low))" .
qed

end
