(* ===== verification/Pd_Sink_Core.thy ===== *)
theory Pd_Sink_Core
  imports Prelude
begin

text \<open>
  The transport-neutral PD helpers of the RAM images, \<open>src/firmware/pd-sink-core/src/pd.rs\<close>:
  the tier table, the decoder of a source capability message, the exact selector with its reasons for
  refusal, message headers and request data objects.

  Names this crate shares with the firmware's adapters carry the prefix \<open>core\<close>. Indexing past an
  array is the value \<open>Panic\<close>.
\<close>

section \<open>Data\<close>

definition FIXED_TARGETS_MV :: "u16 list" where
  "FIXED_TARGETS_MV = [5000, 9000, 12000, 15000, 20000]"

definition PPS_TARGETS_MV :: "u16 list" where
  "PPS_TARGETS_MV = [5000, 6000, 7000, 8000, 9000, 10000, 11000, 12000, 13000, 14000, 15000, 16000,
     17000, 18000, 19000, 20000, 21000]"

definition TOTAL_TIERS :: nat where
  "TOTAL_TIERS = length FIXED_TARGETS_MV + length PPS_TARGETS_MV"

definition core_MAX_SOURCE_PDOS :: nat where [simp]: "core_MAX_SOURCE_PDOS = 7"
definition MIN_CURRENT_MA :: u16 where [simp]: "MIN_CURRENT_MA = 3000"
definition CURRENT_CEILING_MA :: u16 where [simp]: "CURRENT_CEILING_MA = 5000"
definition DEFAULT_CONTRACT_MV :: u16 where [simp]: "DEFAULT_CONTRACT_MV = 5000"
definition core_PD_HEADER_SPEC_REV_30 :: u16 where "core_PD_HEADER_SPEC_REV_30 = push_bit 6 2"
definition PD_HEADER_SPEC_REV_MASK :: u16 where "PD_HEADER_SPEC_REV_MASK = push_bit 6 3"

datatype Mode = FixedMode | PpsMode

fun Mode_as_str :: "Mode \<Rightarrow> string" where
  "Mode_as_str FixedMode = ''fixed''"
| "Mode_as_str PpsMode = ''pps''"

record Target =
  target_mode :: Mode
  target_mv :: u16

record SourceObject =
  obj_raw :: u32
  obj_position :: u8
  obj_mode :: Mode
  obj_min_mv :: u16
  obj_max_mv :: u16
  obj_max_ma :: u16

record CoreCapabilities =
  objects :: "SourceObject list"
  object_total :: u8

record SelectedContract =
  selected_target :: Target
  selected_object :: SourceObject
  selected_current_ma :: u16

datatype UnsupportedReason =
  OutsideHilEnvelope | NoExactFixedPdo | NoExactPpsApdo | SourceCurrentBelow3000Ma

fun UnsupportedReason_as_str :: "UnsupportedReason \<Rightarrow> string" where
  "UnsupportedReason_as_str OutsideHilEnvelope = ''outside_hil_envelope''"
| "UnsupportedReason_as_str NoExactFixedPdo = ''no_exact_fixed_pdo''"
| "UnsupportedReason_as_str NoExactPpsApdo = ''no_exact_pps_apdo''"
| "UnsupportedReason_as_str SourceCurrentBelow3000Ma = ''source_current_below_3000ma''"

datatype DecodeError = WrongMessageType | EmptyMessage | ObjectCountTooLarge | PayloadLengthMismatch

section \<open>Tiers and limits\<close>

definition target_at :: "nat \<Rightarrow> Target option" where
  "target_at index =
     (if index < length FIXED_TARGETS_MV
      then Some \<lparr>target_mode = FixedMode, target_mv = FIXED_TARGETS_MV ! index\<rparr>
      else if index < TOTAL_TIERS
      then Some \<lparr>target_mode = PpsMode, target_mv = PPS_TARGETS_MV ! (index - length FIXED_TARGETS_MV)\<rparr>
      else None)"

definition target_in_hil_envelope :: "Target \<Rightarrow> bool" where
  "target_in_hil_envelope t =
     (case target_mode t of
        FixedMode \<Rightarrow> target_mv t = 5000 \<or> target_mv t = 9000 \<or> target_mv t = 12000
                     \<or> target_mv t = 15000 \<or> target_mv t = 20000
      | PpsMode \<Rightarrow> target_mv t \<ge> 5000 \<and> target_mv t \<le> 21000 \<and> is_multiple_of (target_mv t) 1000)"

definition tolerance_mv :: "u16 \<Rightarrow> u16" where
  "tolerance_mv mv =
     (let percent = ucast (div_ceil (ucast mv * 25 :: u32) 1000) :: u16
      in if percent > 250 then percent else 250)"

section \<open>Decoding a capability message\<close>

definition message_type :: "u16 \<Rightarrow> u8" where
  "message_type header = ucast (header AND 0x1f)"

definition object_count :: "u16 \<Rightarrow> u8" where
  "object_count header = ucast (drop_bit 12 header AND 7)"

definition message_id :: "u16 \<Rightarrow> u8" where
  "message_id header = ucast (drop_bit 9 header AND 7)"

definition SourceObject_EMPTY :: SourceObject where
  "SourceObject_EMPTY =
     \<lparr>obj_raw = 0, obj_position = 0, obj_mode = FixedMode, obj_min_mv = 0, obj_max_mv = 0, obj_max_ma = 0\<rparr>"

definition core_empty :: CoreCapabilities where
  "core_empty = \<lparr>objects = replicate core_MAX_SOURCE_PDOS SourceObject_EMPTY, object_total = 0\<rparr>"

definition decode_object :: "u32 \<Rightarrow> u8 \<Rightarrow> SourceObject option" where
  "decode_object raw pos =
     (if drop_bit 30 raw = 0 then
        let mv = ucast (drop_bit 10 raw AND 0x3ff) * 50; max_ma = ucast (raw AND 0x3ff) * 10
        in Some \<lparr>obj_raw = raw, obj_position = pos, obj_mode = FixedMode, obj_min_mv = mv,
                 obj_max_mv = mv, obj_max_ma = max_ma\<rparr>
      else if drop_bit 30 raw = 3 \<and> drop_bit 28 raw AND 3 = 0 then
        let min_mv = ucast (drop_bit 8 raw AND 0xff) * 100;
            max_mv = ucast (drop_bit 17 raw AND 0xff) * 100;
            max_ma = ucast (raw AND 0x7f) * 50
        in Some \<lparr>obj_raw = raw, obj_position = pos, obj_mode = PpsMode, obj_min_mv = min_mv,
                 obj_max_mv = max_mv, obj_max_ma = max_ma\<rparr>
      else None)"

text \<open>One round of the decoding loop.\<close>

definition decode_step :: "u8 list \<Rightarrow> nat \<Rightarrow> CoreCapabilities \<Rightarrow> CoreCapabilities" where
  "decode_step payload index capabilities =
     (let offset = index * 4;
          raw = from_le_bytes [payload ! offset, payload ! (offset + 1), payload ! (offset + 2),
                               payload ! (offset + 3)]
      in case decode_object raw (of_nat (index + 1)) of
           Some object \<Rightarrow> capabilities\<lparr>objects := (objects capabilities)[index := object]\<rparr>
         | None \<Rightarrow> capabilities)"

definition decode_source_capabilities :: "u16 \<Rightarrow> u8 list \<Rightarrow> DecodeError + CoreCapabilities" where
  "decode_source_capabilities header payload =
     (if message_type header \<noteq> 1 then Inl WrongMessageType
      else let count = unat (object_count header) in
        if count = 0 then Inl EmptyMessage
        else if count > core_MAX_SOURCE_PDOS then Inl ObjectCountTooLarge
        else if length payload \<noteq> count * 4 then Inl PayloadLengthMismatch
        else Inr (fold (decode_step payload) [0..<count] (core_empty\<lparr>object_total := of_nat count\<rparr>)))"

section \<open>Selection\<close>

definition voltage_matches :: "Mode \<Rightarrow> u16 \<Rightarrow> SourceObject \<Rightarrow> bool" where
  "voltage_matches md mv object =
     (case md of
        FixedMode \<Rightarrow> obj_mode object = FixedMode \<and> obj_min_mv object = mv
      | PpsMode \<Rightarrow> obj_mode object = PpsMode \<and> obj_min_mv object \<le> mv \<and> mv \<le> obj_max_mv object)"

text \<open>The search loop of \<open>select\<close>: the remaining indices and whether a voltage matched so
  far.\<close>

fun select_loop ::
  "SourceObject list \<Rightarrow> Target \<Rightarrow> bool \<Rightarrow> nat list \<Rightarrow> (UnsupportedReason + SelectedContract) rust" where
  "select_loop objs t matched [] =
     Ret (Inl (if matched then SourceCurrentBelow3000Ma
               else if target_mode t = FixedMode then NoExactFixedPdo else NoExactPpsApdo))"
| "select_loop objs t matched (index # rest) =
     (if index \<ge> length objs then Panic
      else let object = objs ! index in
        if \<not> voltage_matches (target_mode t) (target_mv t) object then select_loop objs t matched rest
        else let current_ma = min (obj_max_ma object) CURRENT_CEILING_MA in
          if current_ma < MIN_CURRENT_MA then select_loop objs t True rest
          else Ret (Inr \<lparr>selected_target = t, selected_object = object, selected_current_ma = current_ma\<rparr>))"

definition core_select :: "CoreCapabilities \<Rightarrow> Target \<Rightarrow> (UnsupportedReason + SelectedContract) rust" where
  "core_select caps t =
     (if \<not> target_in_hil_envelope t then Ret (Inl OutsideHilEnvelope)
      else select_loop (objects caps) t False [0..<unat (object_total caps)])"

fun default_loop :: "SourceObject list \<Rightarrow> nat list \<Rightarrow> SelectedContract option rust" where
  "default_loop objs [] = Ret None"
| "default_loop objs (index # rest) =
     (if index \<ge> length objs then Panic
      else let object = objs ! index in
        if obj_mode object = FixedMode \<and> obj_min_mv object = DEFAULT_CONTRACT_MV \<and> obj_max_ma object > 0
        then Ret (Some \<lparr>selected_target = \<lparr>target_mode = FixedMode, target_mv = DEFAULT_CONTRACT_MV\<rparr>,
                        selected_object = object,
                        selected_current_ma = min (obj_max_ma object) CURRENT_CEILING_MA\<rparr>)
        else default_loop objs rest)"

definition select_default_5v :: "CoreCapabilities \<Rightarrow> SelectedContract option rust" where
  "select_default_5v caps = default_loop (objects caps) [0..<unat (object_total caps)]"

section \<open>Encoding\<close>

definition core_request_header :: "u8 \<Rightarrow> u16" where
  "core_request_header i = 2 OR core_PD_HEADER_SPEC_REV_30 OR push_bit 9 (ucast (i AND 7)) OR push_bit 12 1"

definition core_accept_header :: "u8 \<Rightarrow> u16" where
  "core_accept_header i = 3 OR core_PD_HEADER_SPEC_REV_30 OR push_bit 9 (ucast (i AND 7))"

definition soft_reset_header :: "u8 \<Rightarrow> u16" where
  "soft_reset_header i = 13 OR core_PD_HEADER_SPEC_REV_30 OR push_bit 9 (ucast (i AND 7))"

definition get_source_capabilities_header_with_spec_revision :: "u8 \<Rightarrow> u16 \<Rightarrow> u16" where
  "get_source_capabilities_header_with_spec_revision i spec_revision =
     7 OR (spec_revision AND PD_HEADER_SPEC_REV_MASK) OR push_bit 9 (ucast (i AND 7))"

definition core_get_source_capabilities_header :: "u8 \<Rightarrow> u16" where
  "core_get_source_capabilities_header i =
     get_source_capabilities_header_with_spec_revision i core_PD_HEADER_SPEC_REV_30"

definition core_request_data_object :: "SelectedContract \<Rightarrow> u8 list" where
  "core_request_data_object c =
     (let raw = (case target_mode (selected_target c) of
          FixedMode \<Rightarrow>
            let current_units = ucast (selected_current_ma c div 10) :: u32
            in push_bit 28 (ucast (obj_position (selected_object c))) OR push_bit 24 1
               OR push_bit 10 current_units OR current_units
        | PpsMode \<Rightarrow>
            let voltage_units = ucast (target_mv (selected_target c) div 20) :: u32;
                current_units = ucast (selected_current_ma c div 50) :: u32
            in push_bit 28 (ucast (obj_position (selected_object c))) OR push_bit 24 1
               OR push_bit 9 (voltage_units AND 0xfff) OR (current_units AND 0x7f))
      in to_le_bytes 4 raw)"

section \<open>What the decoder yields\<close>

text \<open>A capability set as the decoder builds it: seven slots, of which at most seven are counted.\<close>

definition core_wf :: "CoreCapabilities \<Rightarrow> bool" where
  "core_wf caps \<longleftrightarrow> length (objects caps) = 7 \<and> unat (object_total caps) \<le> 7"

definition decoded_slot :: "u32 \<Rightarrow> nat \<Rightarrow> SourceObject" where
  "decoded_slot raw index = (case decode_object raw (of_nat (index + 1)) of Some o' \<Rightarrow> o' | None \<Rightarrow> SourceObject_EMPTY)"

lemma object_count_le: "unat (object_count header) \<le> 7"
proof -
  have "unat (take_bit 3 (drop_bit 12 header)) < 2 ^ 3" by (rule unat_take_bit_less)
  then show ?thesis by (simp add: object_count_def mask_simps unat_ucast_small)
qed

lemma decode_step_slot:
  assumes "k < length raws" "objects c ! k = SourceObject_EMPTY"
  shows "decode_step (concat (map (to_le_bytes 4) raws)) k c = c\<lparr>objects := (objects c)[k := decoded_slot (raws ! k) k]\<rparr>"
proof -
  have "c\<lparr>objects := (objects c)[k := SourceObject_EMPTY]\<rparr> = c" using assms(2) by (metis list_update_id CoreCapabilities.surjective CoreCapabilities.update_convs(1))
  then show ?thesis
    using message_chunk [OF assms(1)]
    by (simp add: decode_step_def decoded_slot_def Let_def split: option.splits del: from_le_bytes.simps)
qed

lemma decode_fold:
  assumes "length (objects c) = 7" "k \<le> length raws" "length raws \<le> 7"
    and "\<forall>i<7. objects c ! i = SourceObject_EMPTY"
  shows "fold (decode_step (concat (map (to_le_bytes 4) raws))) [0..<k] c =
    c\<lparr>objects := map (\<lambda>i. if i < k then decoded_slot (raws ! i) i else SourceObject_EMPTY) [0..<7]\<rparr>"
  using assms
proof (induction k)
  case 0
  then have "map (\<lambda>i. SourceObject_EMPTY) [0..<7] = objects c" by (intro nth_equalityI) auto
  then show ?case by simp
next
  case (Suc k)
  let ?slots = "\<lambda>k. map (\<lambda>i. if i < k then decoded_slot (raws ! i) i else SourceObject_EMPTY) [0..<7]"
  have "decode_step (concat (map (to_le_bytes 4) raws)) k (c\<lparr>objects := ?slots k\<rparr>)
      = c\<lparr>objects := (?slots k)[k := decoded_slot (raws ! k) k]\<rparr>"
    using Suc.prems decode_step_slot [of k raws "c\<lparr>objects := ?slots k\<rparr>"] by simp
  moreover have "(?slots k)[k := decoded_slot (raws ! k) k] = ?slots (Suc k)"
    using Suc.prems by (intro nth_equalityI) (auto simp: nth_list_update less_Suc_eq)
  ultimately show ?case using Suc by simp
qed

lemma decode_message:
  assumes "message_type header = 1" "unat (object_count header) = length raws" "raws \<noteq> []"
  shows "decode_source_capabilities header (concat (map (to_le_bytes 4) raws)) =
    Inr \<lparr>objects = map (\<lambda>i. if i < length raws then decoded_slot (raws ! i) i else SourceObject_EMPTY) [0..<7],
         object_total = of_nat (length raws)\<rparr>"
proof -
  have "length raws \<le> 7" using object_count_le [of header] assms(2) by simp
  then show ?thesis
    using assms decode_fold [of "core_empty\<lparr>object_total := of_nat (length raws)\<rparr>" "length raws" raws]
    by (simp add: decode_source_capabilities_def Let_def length_concat_le core_empty_def)
qed

lemma payload_words:
  "length payload = n * 4 \<Longrightarrow> \<exists>raws :: u32 list. length raws = n \<and> payload = concat (map (to_le_bytes 4) raws)"
proof (induction n arbitrary: payload)
  case (Suc n)
  obtain raws :: "u32 list" where raws: "length raws = n" "drop 4 payload = concat (map (to_le_bytes 4) raws)"
    using Suc.IH [of "drop 4 payload"] Suc.prems by auto
  have "to_le_bytes 4 (from_le_bytes (take 4 payload) :: u32) = take 4 payload"
    using Suc.prems to_from_le_bytes [of "take 4 payload" 4, where 'a = 32] by simp
  then have "payload = concat (map (to_le_bytes 4) (from_le_bytes (take 4 payload) # raws))"
    using raws(2) by (metis append_take_drop_id concat.simps(2) list.simps(9))
  then show ?case using raws(1) by (metis length_Cons)
qed simp

definition capabilities_of :: "u32 list \<Rightarrow> CoreCapabilities" where
  "capabilities_of raws =
     \<lparr>objects = map (\<lambda>i. if i < length raws then decoded_slot (raws ! i) i else SourceObject_EMPTY) [0..<7],
      object_total = of_nat (length raws)\<rparr>"

lemma decode_iff:
  "decode_source_capabilities header payload = Inr caps \<longleftrightarrow>
     (\<exists>raws. message_type header = 1 \<and> unat (object_count header) = length raws \<and> raws \<noteq> []
        \<and> payload = concat (map (to_le_bytes 4) raws) \<and> caps = capabilities_of raws)" (is "?l \<longleftrightarrow> ?r")
proof
  assume l: ?l
  then have ok: "message_type header = 1" "unat (object_count header) \<noteq> 0" "length payload = unat (object_count header) * 4"
    by (auto simp: decode_source_capabilities_def Let_def split: if_splits)
  obtain raws :: "u32 list" where "length raws = unat (object_count header)" "payload = concat (map (to_le_bytes 4) raws)"
    using payload_words [OF ok(3)] by blast
  moreover from this have "raws \<noteq> []" using ok(2) by auto
  moreover from calculation have "caps = capabilities_of raws"
    using decode_message [of header raws] ok(1) l by (simp add: capabilities_of_def)
  ultimately show ?r using ok(1) by metis
next
  assume ?r
  then show ?l using decode_message by (auto simp: capabilities_of_def)
qed

lemma capabilities_of_wf: "length raws \<le> 7 \<Longrightarrow> core_wf (capabilities_of raws)"
  by (simp add: core_wf_def capabilities_of_def unat_of_nat)

lemma decode_wf: "decode_source_capabilities header payload = Inr caps \<Longrightarrow> core_wf caps"
  using object_count_le [of header] by (auto simp: decode_iff intro!: capabilities_of_wf)

section \<open>What the selectors answer\<close>

abbreviation counted :: "CoreCapabilities \<Rightarrow> SourceObject list" where
  "counted caps \<equiv> take (unat (object_total caps)) (objects caps)"

definition strong_enough :: "SourceObject \<Rightarrow> bool" where
  "strong_enough object = (MIN_CURRENT_MA \<le> min (obj_max_ma object) CURRENT_CEILING_MA)"

definition selection_of :: "Target \<Rightarrow> bool \<Rightarrow> SourceObject list \<Rightarrow> UnsupportedReason + SelectedContract" where
  "selection_of t matched objs =
     (case List.find (\<lambda>o'. voltage_matches (target_mode t) (target_mv t) o' \<and> strong_enough o') objs of
        Some o' \<Rightarrow> Inr \<lparr>selected_target = t, selected_object = o',
                        selected_current_ma = min (obj_max_ma o') CURRENT_CEILING_MA\<rparr>
      | None \<Rightarrow> Inl (if matched \<or> list_ex (voltage_matches (target_mode t) (target_mv t)) objs
                     then SourceCurrentBelow3000Ma
                     else if target_mode t = FixedMode then NoExactFixedPdo else NoExactPpsApdo))"

lemma select_loop_spec:
  "list_all (\<lambda>i. i < length objs) idx \<Longrightarrow>
     select_loop objs t matched idx = Ret (selection_of t matched (map ((!) objs) idx))"
proof (induction idx arbitrary: matched)
  case (Cons i idx)
  then show ?case
    by (cases "voltage_matches (target_mode t) (target_mv t) (objs ! i)")
       (auto simp: Let_def selection_of_def strong_enough_def not_le min_less_iff_disj split: option.splits)
qed (simp add: selection_of_def)

lemma default_loop_spec:
  "list_all (\<lambda>i. i < length objs) idx \<Longrightarrow>
     default_loop objs idx = Ret (map_option (\<lambda>o'. \<lparr>selected_target = \<lparr>target_mode = FixedMode, target_mv = DEFAULT_CONTRACT_MV\<rparr>,
         selected_object = o', selected_current_ma = min (obj_max_ma o') CURRENT_CEILING_MA\<rparr>)
       (List.find (\<lambda>o'. voltage_matches FixedMode DEFAULT_CONTRACT_MV o' \<and> 0 < obj_max_ma o') (map ((!) objs) idx)))"
  by (induction idx) (auto simp: Let_def voltage_matches_def)

lemma map_nth_upt: "n \<le> length xs \<Longrightarrow> map ((!) xs) [0..<n] = take n xs"
  by (intro nth_equalityI) auto

lemma core_select_spec:
  "core_wf caps \<Longrightarrow> core_select caps t =
     Ret (if target_in_hil_envelope t then selection_of t False (counted caps) else Inl OutsideHilEnvelope)"
  by (simp add: core_select_def core_wf_def select_loop_spec list_all_iff map_nth_upt)

lemma select_default_5v_spec:
  "core_wf caps \<Longrightarrow> select_default_5v caps =
     Ret (map_option (\<lambda>o'. \<lparr>selected_target = \<lparr>target_mode = FixedMode, target_mv = DEFAULT_CONTRACT_MV\<rparr>,
            selected_object = o', selected_current_ma = min (obj_max_ma o') CURRENT_CEILING_MA\<rparr>)
       (List.find (\<lambda>o'. voltage_matches FixedMode DEFAULT_CONTRACT_MV o' \<and> 0 < obj_max_ma o') (counted caps)))"
  by (simp add: select_default_5v_def core_wf_def default_loop_spec list_all_iff map_nth_upt)

section \<open>Properties\<close>

text \<open>
  \<^bold>\<open>The decoder accepts exactly the well-formed messages.\<close> Decoding succeeds exactly when the
  header is of type 1 and announces a non-zero number of objects and the payload is their little-endian
  concatenation; the result then counts them and holds, in the slot of each, the fixed or PPS object it
  encodes with its position, and the empty object for any other kind.
\<close>

theorem capability_message_decodes_its_objects:
  "decode_source_capabilities header payload = Inr caps \<longleftrightarrow>
     (\<exists>raws. message_type header = 1 \<and> unat (object_count header) = length raws \<and> raws \<noteq> []
        \<and> payload = concat (map (to_le_bytes 4) raws)
        \<and> caps = \<lparr>objects = map (\<lambda>i. if i < length raws
                                       then case decode_object (raws ! i) (of_nat (i + 1)) of
                                              Some o' \<Rightarrow> o' | None \<Rightarrow> SourceObject_EMPTY
                                       else SourceObject_EMPTY) [0..<7],
                  object_total = of_nat (length raws)\<rparr>)"
  by (simp only: decode_iff capabilities_of_def decoded_slot_def)

lemma decode_object_keeps: "decode_object raw pos = Some o' \<Longrightarrow> obj_raw o' = raw \<and> obj_position o' = pos"
  by (auto simp: decode_object_def Let_def split: if_splits)

lemma counted_slots:
  assumes "length raws \<le> 7" "o' \<in> set (counted (capabilities_of raws))" "obj_max_ma o' \<noteq> 0"
  shows "decode_object (obj_raw o') (obj_position o') = Some o'"
proof -
  have "counted (capabilities_of raws) = map (\<lambda>i. decoded_slot (raws ! i) i) [0..<length raws]"
    using assms(1) by (intro nth_equalityI) (auto simp: capabilities_of_def unat_of_nat)
  then obtain i where "o' = decoded_slot (raws ! i) i" using assms(2) by auto
  then show ?thesis
    using assms(3) decode_object_keeps [of "raws ! i" "of_nat (i + 1)" o']
    by (auto simp: decoded_slot_def SourceObject_EMPTY_def split: option.splits)
qed

definition selection_correct :: "CoreCapabilities \<Rightarrow> Target \<Rightarrow> UnsupportedReason + SelectedContract \<Rightarrow> bool" where
  "selection_correct caps t r =
     (let matching = filter (voltage_matches (target_mode t) (target_mv t)) (counted caps) in
      case r of
        Inr c \<Rightarrow> target_in_hil_envelope t \<and> selected_target c = t \<and> selected_object c \<in> set matching
               \<and> decode_object (obj_raw (selected_object c)) (obj_position (selected_object c))
                   = Some (selected_object c)
               \<and> 3000 \<le> selected_current_ma c \<and> selected_current_ma c \<le> 5000
               \<and> selected_current_ma c \<le> obj_max_ma (selected_object c)
      | Inl OutsideHilEnvelope \<Rightarrow> \<not> target_in_hil_envelope t
      | Inl SourceCurrentBelow3000Ma \<Rightarrow> matching \<noteq> [] \<and> list_all (\<lambda>o'. obj_max_ma o' < 3000) matching
      | Inl NoExactFixedPdo \<Rightarrow> target_mode t = FixedMode \<and> matching = []
      | Inl NoExactPpsApdo \<Rightarrow> target_mode t = PpsMode \<and> matching = [])"

lemma selection_of_correct:
  assumes "length raws \<le> 7" "target_in_hil_envelope t"
  shows "selection_correct (capabilities_of raws) t (selection_of t False (counted (capabilities_of raws)))"
proof (cases "List.find (\<lambda>o'. voltage_matches (target_mode t) (target_mv t) o' \<and> strong_enough o')
    (counted (capabilities_of raws))")
  case (Some o')
  note facts = find_SomeD [OF Some]
  then have ma: "3000 \<le> obj_max_ma o'" by (auto simp: strong_enough_def)
  then have "obj_max_ma o' \<noteq> 0" by auto
  then have "decode_object (obj_raw o') (obj_position o') = Some o'"
    using counted_slots [OF assms(1)] facts by blast
  then show ?thesis using Some facts ma assms(2) by (simp add: selection_correct_def selection_of_def Let_def)
next
  case None
  let ?matching = "filter (voltage_matches (target_mode t) (target_mv t)) (counted (capabilities_of raws))"
  have weak: "list_all (\<lambda>o'. obj_max_ma o' < 3000) ?matching"
    using None by (auto simp: find_None_iff list_all_iff strong_enough_def not_le)
  have ex: "list_ex (voltage_matches (target_mode t) (target_mv t)) (counted (capabilities_of raws))
      \<longleftrightarrow> ?matching \<noteq> []"
    by (auto simp: list_ex_iff filter_empty_conv)
  show ?thesis
    unfolding selection_correct_def selection_of_def None ex Let_def
    using weak by (cases "?matching = []"; cases "target_mode t") simp_all
qed

text \<open>
  \<^bold>\<open>Selection is exact and explains itself.\<close> On any decoded message the selector answers
  without panicking. A contract it returns is for the very target asked, on an object the message
  really encodes, with 3 to 5 A that the object offers; each refusal is right: outside the envelope,
  no object of that mode and voltage, or only objects below 3 A.
\<close>

theorem exact_selection_is_correct:
  assumes "decode_source_capabilities header payload = Inr caps"
  shows "\<exists>r. core_select caps t = Ret r \<and> selection_correct caps t r"
proof -
  obtain raws where raws: "caps = capabilities_of raws" "length raws \<le> 7"
    using assms object_count_le [of header] by (auto simp: decode_iff)
  show ?thesis
  proof (cases "target_in_hil_envelope t")
    case True
    then show ?thesis
      using selection_of_correct [OF raws(2)] core_select_spec [OF decode_wf [OF assms]] raws(1) by simp
  next
    case False
    then show ?thesis
      using core_select_spec [OF decode_wf [OF assms]] by (simp add: selection_correct_def Let_def)
  qed
qed

theorem exact_selection_is_correct_witness:
  "\<exists>r. core_select (capabilities_of [0x0001912c, 0x0002d12c]) \<lparr>target_mode = FixedMode, target_mv = 9000\<rparr> = Ret r
     \<and> selection_correct (capabilities_of [0x0001912c, 0x0002d12c]) \<lparr>target_mode = FixedMode, target_mv = 9000\<rparr> r"
proof (rule exact_selection_is_correct)
  show "decode_source_capabilities 0x2001 (concat (map (to_le_bytes 4) [0x0001912c, 0x0002d12c :: u32]))
      = Inr (capabilities_of [0x0001912c, 0x0002d12c])"
    unfolding decode_iff
    by (intro exI [of _ "[0x0001912c, 0x0002d12c]"]) (simp add: message_type_def object_count_def)
qed

lemma fixed_targets_length: "length FIXED_TARGETS_MV = 5"
  by (simp add: FIXED_TARGETS_MV_def)

lemma pps_targets_length: "length PPS_TARGETS_MV = 17"
  by (simp add: PPS_TARGETS_MV_def)

lemma target_at_less: "target_at index = Some t \<Longrightarrow> index < 22"
  by (rule ccontr) (simp add: target_at_def TOTAL_TIERS_def fixed_targets_length pps_targets_length)

lemma pps_tier: "5 \<le> k \<Longrightarrow> k \<le> 21 \<Longrightarrow> PPS_TARGETS_MV ! (k - 5) = 1000 * of_nat k"
proof -
  have "list_all (\<lambda>k. PPS_TARGETS_MV ! (k - 5) = 1000 * of_nat k) [5..<22]" by code_simp
  moreover assume "5 \<le> k" "k \<le> 21"
  then have "k \<in> set [5..<22]" by (simp only: set_upt) simp
  ultimately show ?thesis unfolding list_all_iff by blast
qed

text \<open>
  \<^bold>\<open>The tier table is the envelope.\<close> The targets the test image steps through are exactly the
  targets the selector accepts.
\<close>

theorem tiers_are_the_envelope: "target_in_hil_envelope t \<longleftrightarrow> (\<exists>index. target_at index = Some t)"
proof
  assume "\<exists>index. target_at index = Some t"
  then obtain index where index: "target_at index = Some t" by blast
  have "list_all (\<lambda>i. case target_at i of Some t \<Rightarrow> target_in_hil_envelope t | None \<Rightarrow> False) [0..<22]"
    by code_simp
  then have "\<forall>i<22. case target_at i of Some t \<Rightarrow> target_in_hil_envelope t | None \<Rightarrow> False"
    by (simp add: list_all_iff)
  then show "target_in_hil_envelope t" using index target_at_less [OF index] by fastforce
next
  assume t: "target_in_hil_envelope t"
  show "\<exists>index. target_at index = Some t"
  proof (cases "target_mode t")
    case FixedMode
    then have "target_mv t \<in> set FIXED_TARGETS_MV"
      using t by (auto simp: target_in_hil_envelope_def FIXED_TARGETS_MV_def)
    then obtain i where "i < length FIXED_TARGETS_MV" "target_mv t = FIXED_TARGETS_MV ! i"
      by (metis in_set_conv_nth)
    then have "target_at i = Some t" using FixedMode by (simp add: target_at_def)
    then show ?thesis ..
  next
    case PpsMode
    then have mv: "5000 \<le> unat (target_mv t)" "unat (target_mv t) \<le> 21000" "1000 dvd unat (target_mv t)"
      using t by (auto simp: target_in_hil_envelope_def word_le_nat_alt is_multiple_of_iff)
    then obtain k where k: "unat (target_mv t) = 1000 * k" by (auto elim: dvdE)
    with mv have le: "5 \<le> k" "k \<le> 21" by auto
    have "of_nat (unat (target_mv t)) = target_mv t" by simp
    then have "PPS_TARGETS_MV ! (k - 5) = target_mv t" using pps_tier [OF le] k by simp
    then have "target_at k = Some t"
      using PpsMode le
      by (simp add: target_at_def TOTAL_TIERS_def fixed_targets_length pps_targets_length)
    then show ?thesis ..
  qed
qed

text \<open>
  \<^bold>\<open>The measurement tolerance.\<close> The tolerance of a target is 2.5 % of it, rounded up to a
  millivolt, and never less than 250 mV; the computation does not overflow for any 16-bit target.
\<close>

theorem tolerance_is_two_and_a_half_percent:
  "unat (tolerance_mv mv) = max 250 ((unat mv * 25 + 999) div 1000)"
proof -
  have mv: "unat mv < 65536" using unat_bound [of mv] by simp
  then have "unat (ucast mv * 25 :: u32) = unat mv * 25"
    by (simp add: unat_word_ariths unat_ucast_up)
  then have "unat (div_ceil (ucast mv * 25 :: u32) 1000) = (unat mv * 25 + 999) div 1000"
    by (simp add: unat_div_ceil)
  moreover have "(unat mv * 25 + 999) div 1000 < 65536" using mv by auto
  ultimately show ?thesis
    by (simp add: tolerance_mv_def Let_def word_less_nat_alt unat_ucast_small max_def)
qed

end
