(* ===== verification/Fan_Contract.thy ===== *)
theory Fan_Contract
  imports Pd_Sink_Core
begin

text \<open>
  The contract policy of the fan RAM image, \<open>src/firmware/ram-fan-pd/src/policy.rs\<close>: six preferred
  mode and voltage pairs in order, then the highest fixed object of 5 to 12 V, then the highest PPS
  voltage up to 20 V. The capability set and contracts are those of the sink core.
\<close>

section \<open>Data\<close>

definition fan_CURRENT_CEILING_MA :: u16 where [simp]: "fan_CURRENT_CEILING_MA = 5000"
definition PPS_MIN_MV :: u16 where [simp]: "PPS_MIN_MV = 5000"
definition PPS_MAX_MV :: u16 where [simp]: "PPS_MAX_MV = 20000"

datatype SelectionReason = PreferredFixed | PreferredPps | HighestFallbackFixed | HighestFallbackPps

fun SelectionReason_as_str :: "SelectionReason \<Rightarrow> string" where
  "SelectionReason_as_str PreferredFixed = ''preferred_fixed''"
| "SelectionReason_as_str PreferredPps = ''preferred_pps''"
| "SelectionReason_as_str HighestFallbackFixed = ''highest_fixed_5_to_12v''"
| "SelectionReason_as_str HighestFallbackPps = ''highest_pps_fallback''"

datatype SelectionError = NoUsableFixedOrPps

fun SelectionError_as_str :: "SelectionError \<Rightarrow> string" where
  "SelectionError_as_str NoUsableFixedOrPps = ''no_usable_fixed_or_pps_candidate''"

record FanSelection =
  fan_contract :: SelectedContract
  fan_priority :: u8
  fan_reason :: SelectionReason

section \<open>Candidates\<close>

definition make_candidate :: "SourceObject \<Rightarrow> Mode \<Rightarrow> u16 \<Rightarrow> SelectedContract option" where
  "make_candidate object md mv =
     (let capped_ma = min (obj_max_ma object) fan_CURRENT_CEILING_MA;
          current_ma = (case md of FixedMode \<Rightarrow> capped_ma div 10 * 10 | PpsMode \<Rightarrow> capped_ma div 50 * 50)
      in if current_ma = 0 then None
         else Some \<lparr>selected_target = \<lparr>target_mode = md, target_mv = mv\<rparr>, selected_object = object,
                    selected_current_ma = current_ma\<rparr>)"

definition usable_objects :: "CoreCapabilities \<Rightarrow> SourceObject list" where
  "usable_objects caps = take (min (unat (object_total caps)) (length (objects caps))) (objects caps)"

fun find_candidate_loop :: "SourceObject list \<Rightarrow> Mode \<Rightarrow> u16 \<Rightarrow> SelectedContract option" where
  "find_candidate_loop [] md mv = None"
| "find_candidate_loop (object # rest) md mv =
     (if voltage_matches md mv object then
        case make_candidate object md mv of
          Some contract \<Rightarrow> Some contract
        | None \<Rightarrow> find_candidate_loop rest md mv
      else find_candidate_loop rest md mv)"

definition find_candidate :: "CoreCapabilities \<Rightarrow> Mode \<Rightarrow> u16 \<Rightarrow> SelectedContract option" where
  "find_candidate caps md mv = find_candidate_loop (usable_objects caps) md mv"

section \<open>The policy\<close>

definition preferred :: "(Mode \<times> u16 \<times> SelectionReason) list" where
  "preferred = [(FixedMode, 15000, PreferredFixed), (PpsMode, 15000, PreferredPps),
     (FixedMode, 18000, PreferredFixed), (PpsMode, 18000, PreferredPps),
     (FixedMode, 20000, PreferredFixed), (PpsMode, 20000, PreferredPps)]"

fun preferred_loop :: "CoreCapabilities \<Rightarrow> u8 \<Rightarrow> (Mode \<times> u16 \<times> SelectionReason) list \<Rightarrow> FanSelection option" where
  "preferred_loop caps priority [] = None"
| "preferred_loop caps priority ((md, mv, reason) # rest) =
     (case find_candidate caps md mv of
        Some contract \<Rightarrow> Some \<lparr>fan_contract = contract, fan_priority = priority, fan_reason = reason\<rparr>
      | None \<Rightarrow> preferred_loop caps (priority + 1) rest)"

text \<open>The candidate an object gives in the two fallback loops; an object the loop skips gives
  none.\<close>

definition fallback_fixed_candidate :: "SourceObject \<Rightarrow> SelectedContract option" where
  "fallback_fixed_candidate object =
     (if obj_mode object \<noteq> FixedMode \<or> \<not> (5000 \<le> obj_min_mv object \<and> obj_min_mv object \<le> 12000) then None
      else make_candidate object FixedMode (obj_min_mv object))"

definition fallback_pps_candidate :: "SourceObject \<Rightarrow> SelectedContract option" where
  "fallback_pps_candidate object =
     (if obj_mode object \<noteq> PpsMode \<or> obj_max_ma object < 50 then None
      else let mv = min (obj_max_mv object) PPS_MAX_MV; mv = mv - mv mod 20 in
        if mv < max (obj_min_mv object) PPS_MIN_MV \<or> mv < PPS_MIN_MV then None
        else make_candidate object PpsMode mv)"

definition higher_voltage :: "SelectedContract \<Rightarrow> SelectedContract \<Rightarrow> bool" where
  "higher_voltage c best = (target_mv (selected_target c) > target_mv (selected_target best))"

definition select_fan_contract :: "CoreCapabilities \<Rightarrow> SelectionError + FanSelection" where
  "select_fan_contract caps =
     (case preferred_loop caps 0 preferred of
        Some selection \<Rightarrow> Inr selection
      | None \<Rightarrow>
          (case keep_best higher_voltage (List.map_filter fallback_fixed_candidate (usable_objects caps)) of
             Some contract \<Rightarrow>
               Inr \<lparr>fan_contract = contract, fan_priority = 6, fan_reason = HighestFallbackFixed\<rparr>
           | None \<Rightarrow>
               (case keep_best higher_voltage (List.map_filter fallback_pps_candidate (usable_objects caps)) of
                  Some contract \<Rightarrow>
                    Inr \<lparr>fan_contract = contract, fan_priority = 7, fan_reason = HighestFallbackPps\<rparr>
                | None \<Rightarrow> Inl NoUsableFixedOrPps)))"

section \<open>Candidates are sound\<close>

interpretation higher_voltage: strict_preference higher_voltage
  by unfold_locales (auto simp: higher_voltage_def)

text \<open>A contract the source can honour: on an advertised object that offers its voltage, between 5
  and 20 V, with a non-zero current within the object's and the 5 A ceiling and in the unit of its
  mode.\<close>

definition honourable :: "CoreCapabilities \<Rightarrow> SelectedContract \<Rightarrow> bool" where
  "honourable caps c \<longleftrightarrow>
     (let object = selected_object c; md = target_mode (selected_target c); mv = target_mv (selected_target c)
      in object \<in> set (usable_objects caps) \<and> voltage_matches md mv object
         \<and> 5000 \<le> mv \<and> mv \<le> 20000
         \<and> 0 < selected_current_ma c \<and> selected_current_ma c \<le> obj_max_ma object
         \<and> selected_current_ma c \<le> 5000
         \<and> (case md of FixedMode \<Rightarrow> is_multiple_of (selected_current_ma c) 10
            | PpsMode \<Rightarrow> is_multiple_of (selected_current_ma c) 50 \<and> is_multiple_of mv 20))"

lemma make_candidate_Some:
  assumes "make_candidate object md mv = Some c"
  shows "selected_object c = object \<and> selected_target c = \<lparr>target_mode = md, target_mv = mv\<rparr>
    \<and> 0 < selected_current_ma c \<and> selected_current_ma c \<le> obj_max_ma object \<and> selected_current_ma c \<le> 5000
    \<and> is_multiple_of (selected_current_ma c) (case md of FixedMode \<Rightarrow> 10 | PpsMode \<Rightarrow> 50)"
proof -
  let ?m = "min (obj_max_ma object) 5000"
  have cap: "x \<le> ?m \<Longrightarrow> x \<le> obj_max_ma object \<and> x \<le> 5000" for x by simp
  show ?thesis
    using assms cap [OF word_div_mult_le] word_mult_div_aligned [of ?m]
    by (cases md) (auto simp: make_candidate_def Let_def word_gt_0 split: if_splits)
qed

lemma make_candidate_None_iff:
  "make_candidate object md mv = None \<longleftrightarrow> obj_max_ma object < (case md of FixedMode \<Rightarrow> 10 | PpsMode \<Rightarrow> 50)"
proof -
  have zero: "x div m * m = 0 \<longleftrightarrow> x < m" if "0 < m" for x m :: u16
  proof -
    have "unat (x div m * m) = unat x div unat m * unat m" by (rule unat_div_mult)
    then show ?thesis using that by (simp add: word_less_nat_alt unat_eq_0 [symmetric] div_eq_0_iff)
  qed
  show ?thesis
    by (cases md) (auto simp: make_candidate_def Let_def zero min_less_iff_disj)
qed

section \<open>The order the policy realises\<close>

text \<open>Whether the source offers a mode and voltage at all, and the rank the policy gives it: the six
  preferred pairs, then any fixed voltage of 5 to 12 V, then any 20 mV step of 5 to 20 V in PPS mode.\<close>

definition offers :: "CoreCapabilities \<Rightarrow> Mode \<Rightarrow> u16 \<Rightarrow> bool" where
  "offers caps md mv =
     list_ex (\<lambda>o'. voltage_matches md mv o' \<and> (case md of FixedMode \<Rightarrow> 10 | PpsMode \<Rightarrow> 50) \<le> obj_max_ma o')
       (usable_objects caps)"

definition tier :: "Mode \<Rightarrow> u16 \<Rightarrow> nat option" where
  "tier md mv =
     (case position (\<lambda>(m, v, r). m = md \<and> v = mv) preferred of
        Some i \<Rightarrow> Some i
      | None \<Rightarrow>
          if md = FixedMode \<and> 5000 \<le> mv \<and> mv \<le> 12000 then Some 6
          else if md = PpsMode \<and> 5000 \<le> mv \<and> mv \<le> 20000 \<and> is_multiple_of mv 20 then Some 7
          else None)"

lemma find_candidate_loop_Some:
  "find_candidate_loop objs md mv = Some c \<Longrightarrow>
     \<exists>o'\<in>set objs. voltage_matches md mv o' \<and> make_candidate o' md mv = Some c"
  by (induction objs) (auto split: if_splits option.splits)

lemma find_candidate_loop_None:
  "find_candidate_loop objs md mv = None \<longleftrightarrow>
     \<not> list_ex (\<lambda>o'. voltage_matches md mv o' \<and> (case md of FixedMode \<Rightarrow> 10 | PpsMode \<Rightarrow> 50) \<le> obj_max_ma o') objs"
proof (induction objs)
  case (Cons o' objs)
  then show ?case
    using make_candidate_None_iff [of o' md mv] by (cases md) (auto split: option.splits simp: not_less)
qed simp

lemma find_candidate_None: "find_candidate caps md mv = None \<longleftrightarrow> \<not> offers caps md mv"
  by (simp add: find_candidate_def offers_def find_candidate_loop_None)

lemma find_candidate_Some:
  assumes "find_candidate caps md mv = Some c" "5000 \<le> mv" "mv \<le> 20000" "is_multiple_of mv 20"
  shows "honourable caps c \<and> selected_target c = \<lparr>target_mode = md, target_mv = mv\<rparr>"
proof -
  obtain o' where o': "o' \<in> set (usable_objects caps)" "voltage_matches md mv o'" "make_candidate o' md mv = Some c"
    using find_candidate_loop_Some [OF assms(1) [unfolded find_candidate_def]] by blast
  show ?thesis using make_candidate_Some [OF o'(3)] o'(1,2) assms(2-4) by (cases md) (simp_all add: honourable_def)
qed

lemma preferred_loop_None:
  "preferred_loop caps p xs = None \<longleftrightarrow> list_all (\<lambda>(md, mv, r). \<not> offers caps md mv) xs"
  by (induction xs arbitrary: p) (auto simp flip: find_candidate_None split: option.splits)

lemma preferred_loop_Some:
  "preferred_loop caps p xs = Some s \<Longrightarrow>
     \<exists>i<length xs. fan_priority s = p + of_nat i
       \<and> find_candidate caps (fst (xs ! i)) (fst (snd (xs ! i))) = Some (fan_contract s)
       \<and> (\<forall>j<i. \<not> offers caps (fst (xs ! j)) (fst (snd (xs ! j))))"
proof (induction xs arbitrary: p)
  case (Cons x xs)
  obtain md mv r where x: "x = (md, mv, r)" by (cases x)
  show ?case
  proof (cases "find_candidate caps md mv")
    case None
    then obtain i where i: "i < length xs" "fan_priority s = p + 1 + of_nat i"
      "find_candidate caps (fst (xs ! i)) (fst (snd (xs ! i))) = Some (fan_contract s)"
      "\<forall>j<i. \<not> offers caps (fst (xs ! j)) (fst (snd (xs ! j)))"
      using Cons.IH [of "p + 1"] Cons.prems x by auto
    then show ?thesis
      using None x by (intro exI [of _ "Suc i"]) (auto simp: less_Suc_eq_0_disj find_candidate_None)
  next
    case (Some c)
    then show ?thesis using Cons.prems x by (intro exI [of _ 0]) auto
  qed
qed simp

lemma preferred_voltages:
  assumes "i < 6"
  shows "5000 \<le> fst (snd (preferred ! i)) \<and> fst (snd (preferred ! i)) \<le> 20000
    \<and> is_multiple_of (fst (snd (preferred ! i))) 20
    \<and> tier (fst (preferred ! i)) (fst (snd (preferred ! i))) = Some i"
proof -
  have "list_all (\<lambda>i. 5000 \<le> fst (snd (preferred ! i)) \<and> fst (snd (preferred ! i)) \<le> 20000
      \<and> is_multiple_of (fst (snd (preferred ! i))) 20
      \<and> tier (fst (preferred ! i)) (fst (snd (preferred ! i))) = Some i) [0..<6]" by code_simp
  then have "\<forall>i\<in>set [0..<6]. 5000 \<le> fst (snd (preferred ! i)) \<and> fst (snd (preferred ! i)) \<le> 20000
      \<and> is_multiple_of (fst (snd (preferred ! i))) 20
      \<and> tier (fst (preferred ! i)) (fst (snd (preferred ! i))) = Some i" by (simp only: list_all_iff)
  moreover have "i \<in> set [0..<6]" using assms by (simp only: set_upt) simp
  ultimately show ?thesis by blast
qed

lemma length_preferred: "length preferred = 6"
  by (simp add: preferred_def)

lemma tier_preferred:
  assumes "tier md mv = Some q" "q < 6"
  shows "fst (preferred ! q) = md \<and> fst (snd (preferred ! q)) = mv"
proof -
  have "position (\<lambda>(m, v, r). m = md \<and> v = mv) preferred = Some q"
    using assms by (auto simp: tier_def split: option.splits if_splits)
  from position_Some [OF this] show ?thesis by (auto simp: split_def)
qed

lemma fallback_fixed_sound:
  assumes "o' \<in> set (usable_objects caps)" "fallback_fixed_candidate o' = Some c"
  shows "honourable caps c \<and> target_mode (selected_target c) = FixedMode \<and> target_mv (selected_target c) \<le> 12000"
proof -
  have o': "obj_mode o' = FixedMode" "5000 \<le> obj_min_mv o'" "obj_min_mv o' \<le> 12000"
    "make_candidate o' FixedMode (obj_min_mv o') = Some c"
    using assms(2) by (auto simp: fallback_fixed_candidate_def split: if_splits)
  then have "obj_min_mv o' \<le> 20000" by (simp add: word_le_nat_alt)
  then show ?thesis
    using make_candidate_Some [OF o'(4)] o' assms(1) by (simp add: honourable_def voltage_matches_def)
qed

lemma fallback_fixed_complete:
  assumes "offers caps FixedMode mv" "5000 \<le> mv" "mv \<le> 12000"
  shows "\<exists>c\<in>set (List.map_filter fallback_fixed_candidate (usable_objects caps)). target_mv (selected_target c) = mv"
proof -
  obtain o' where o': "o' \<in> set (usable_objects caps)" "voltage_matches FixedMode mv o'" "10 \<le> obj_max_ma o'"
    using assms(1) by (auto simp: offers_def list_ex_iff)
  then obtain c where c: "make_candidate o' FixedMode mv = Some c"
    using make_candidate_None_iff [of o' FixedMode mv] by (cases "make_candidate o' FixedMode mv") auto
  then have "fallback_fixed_candidate o' = Some c"
    using o' assms(2,3) by (auto simp: fallback_fixed_candidate_def voltage_matches_def)
  then have "c \<in> set (List.map_filter fallback_fixed_candidate (usable_objects caps))"
    using o'(1) map_filter_mem by fast
  then show ?thesis using make_candidate_Some [OF c] by (intro bexI [of _ c]) simp_all
qed

lemma align_20: 
  fixes mv :: u16
  shows "is_multiple_of (mv - mv mod 20) 20" "mv - mv mod 20 \<le> mv"
    "is_multiple_of v 20 \<Longrightarrow> v \<le> mv \<Longrightarrow> v \<le> mv - mv mod 20"
proof -
  have eq: "mv - mv mod 20 = mv div 20 * 20" by (simp add: minus_mod_eq_div_mult)
  show "is_multiple_of (mv - mv mod 20) 20" "mv - mv mod 20 \<le> mv"
    unfolding eq by (rule word_mult_div_aligned, rule word_div_mult_le)
  assume "is_multiple_of v 20" "v \<le> mv"
  then have "20 dvd unat v" "unat v \<le> unat mv" by (auto simp: is_multiple_of_iff word_le_nat_alt)
  then have "unat v \<le> unat mv div 20 * 20"
    by (metis div_le_mono dvd_div_mult_self mult_le_mono1)
  then show "v \<le> mv - mv mod 20" unfolding eq by (simp add: word_le_nat_alt unat_div_mult)
qed

lemma fallback_pps_sound:
  assumes "o' \<in> set (usable_objects caps)" "fallback_pps_candidate o' = Some c"
  shows "honourable caps c \<and> target_mode (selected_target c) = PpsMode"
proof -
  define mv where "mv = min (obj_max_mv o') 20000 - min (obj_max_mv o') 20000 mod 20"
  have o': "obj_mode o' = PpsMode" "obj_min_mv o' \<le> mv" "5000 \<le> mv" "make_candidate o' PpsMode mv = Some c"
    using assms(2) by (auto simp: fallback_pps_candidate_def Let_def mv_def not_less split: if_splits)
  have "mv \<le> min (obj_max_mv o') 20000" "is_multiple_of mv 20" unfolding mv_def by (rule align_20)+
  then show ?thesis
    using make_candidate_Some [OF o'(4)] o' assms(1) by (simp add: honourable_def voltage_matches_def)
qed

lemma fallback_pps_complete:
  assumes "offers caps PpsMode mv" "5000 \<le> mv" "mv \<le> 20000" "is_multiple_of mv 20"
  shows "\<exists>c\<in>set (List.map_filter fallback_pps_candidate (usable_objects caps)). mv \<le> target_mv (selected_target c)"
proof -
  obtain o' where o': "o' \<in> set (usable_objects caps)" "voltage_matches PpsMode mv o'" "50 \<le> obj_max_ma o'"
    using assms(1) by (auto simp: offers_def list_ex_iff)
  define top where "top = min (obj_max_mv o') 20000 - min (obj_max_mv o') 20000 mod 20"
  have "mv \<le> min (obj_max_mv o') 20000" using o'(2) assms(3) by (simp add: voltage_matches_def)
  then have top: "mv \<le> top" unfolding top_def using assms(4) by (rule align_20(3) [rotated])
  then have "\<not> top < max (obj_min_mv o') 5000" "\<not> top < 5000"
    using o'(2) assms(2) by (auto simp: voltage_matches_def not_less)
  moreover obtain c where c: "make_candidate o' PpsMode top = Some c"
    using make_candidate_None_iff [of o' PpsMode top] o'(3) by (cases "make_candidate o' PpsMode top") auto
  ultimately have "fallback_pps_candidate o' = Some c"
    using o'(2,3) by (simp add: fallback_pps_candidate_def voltage_matches_def Let_def top_def not_less)
  then have "c \<in> set (List.map_filter fallback_pps_candidate (usable_objects caps))"
    using o'(1) map_filter_mem by fast
  then show ?thesis using make_candidate_Some [OF c] top by (intro bexI [of _ c]) simp_all
qed

lemma tier_range:
  "tier md mv = Some q \<Longrightarrow> q < 6 \<or> q = 6 \<and> md = FixedMode \<and> 5000 \<le> mv \<and> mv \<le> 12000
     \<or> q = 7 \<and> md = PpsMode \<and> 5000 \<le> mv \<and> mv \<le> 20000 \<and> is_multiple_of mv 20"
proof (cases "position (\<lambda>(m, v, r). m = md \<and> v = mv) preferred")
  case (Some i)
  assume "tier md mv = Some q"
  moreover have "i < 6" using position_Some [OF Some] by (simp add: preferred_def)
  ultimately show ?thesis using Some by (simp add: tier_def)
next
  case None
  assume "tier md mv = Some q"
  then show ?thesis using None by (auto simp: tier_def split: if_splits)
qed

section \<open>The policy picks the best offer\<close>

definition best_offer :: "CoreCapabilities \<Rightarrow> FanSelection \<Rightarrow> bool" where
  "best_offer caps s \<longleftrightarrow>
     (let c = fan_contract s; md = target_mode (selected_target c); mv = target_mv (selected_target c)
      in honourable caps c \<and> tier md mv = Some (unat (fan_priority s))
         \<and> (\<forall>md' mv' q. offers caps md' mv' \<longrightarrow> tier md' mv' = Some q \<longrightarrow>
              unat (fan_priority s) \<le> q \<and> (q = unat (fan_priority s) \<longrightarrow> mv' \<le> mv)))"

lemma honourable_offers: "honourable caps c \<Longrightarrow> offers caps (target_mode (selected_target c)) (target_mv (selected_target c))"
proof -
  assume h: "honourable caps c"
  have "m \<le> x" if "0 < x" "is_multiple_of x m" for x m :: u16
    using that by (auto simp: is_multiple_of_iff word_order_nat intro: dvd_imp_le)
  then have "(case target_mode (selected_target c) of FixedMode \<Rightarrow> 10 | PpsMode \<Rightarrow> 50) \<le> selected_current_ma c"
    using h by (cases "target_mode (selected_target c)") (auto simp: honourable_def Let_def)
  then show ?thesis using h order_trans by (fastforce simp: offers_def honourable_def Let_def list_ex_iff)
qed

lemma preferred_is_best:
  assumes "preferred_loop caps 0 preferred = Some s"
  shows "best_offer caps s"
proof -
  obtain i where i: "i < 6" "fan_priority s = of_nat i"
    "find_candidate caps (fst (preferred ! i)) (fst (snd (preferred ! i))) = Some (fan_contract s)"
    "\<forall>j<i. \<not> offers caps (fst (preferred ! j)) (fst (snd (preferred ! j)))"
    using preferred_loop_Some [OF assms] by (auto simp: length_preferred)
  note p = preferred_voltages [OF i(1)]
  have h: "honourable caps (fan_contract s)"
    "selected_target (fan_contract s) = \<lparr>target_mode = fst (preferred ! i), target_mv = fst (snd (preferred ! i))\<rparr>"
    using find_candidate_Some [OF i(3)] p by auto
  have prio: "unat (fan_priority s) = i" using i(1,2) by (simp add: unat_of_nat)
  have "i \<le> q \<and> (q = i \<longrightarrow> mv' = fst (snd (preferred ! i)))"
    if "offers caps md' mv'" "tier md' mv' = Some q" for md' mv' q
    using tier_preferred [OF that(2)] that(1) i(1,4) by (cases "q < i") auto
  then show ?thesis unfolding best_offer_def Let_def prio using h p by fastforce
qed

lemma no_preferred_tier:
  assumes "preferred_loop caps 0 preferred = None" "offers caps md mv" "tier md mv = Some q"
  shows "6 \<le> q"
proof (rule ccontr)
  assume "\<not> 6 \<le> q"
  then have q: "q < 6" by simp
  have "preferred ! q \<in> set preferred" using q by (simp add: length_preferred)
  then show False
    using assms(1,2) tier_preferred [OF assms(3) q] by (auto simp: preferred_loop_None list_all_iff split_def)
qed

lemma fallback_fixed_is_best:
  assumes none: "preferred_loop caps 0 preferred = None"
    and best: "keep_best higher_voltage (List.map_filter fallback_fixed_candidate (usable_objects caps)) = Some c"
  shows "best_offer caps \<lparr>fan_contract = c, fan_priority = 6, fan_reason = HighestFallbackFixed\<rparr>"
proof -
  note opt = higher_voltage.keep_best_optimal [OF best]
  have "c \<in> set (List.map_filter fallback_fixed_candidate (usable_objects caps))" using opt by blast
  then obtain o' where "o' \<in> set (usable_objects caps)" "fallback_fixed_candidate o' = Some c"
    unfolding map_filter_mem by blast
  note sound = fallback_fixed_sound [OF this]
  then have range: "honourable caps c" "target_mode (selected_target c) = FixedMode"
    "5000 \<le> target_mv (selected_target c)" "target_mv (selected_target c) \<le> 12000"
    by (auto simp: honourable_def Let_def)
  obtain q where "tier FixedMode (target_mv (selected_target c)) = Some q"
    using range(3,4) by (cases "tier FixedMode (target_mv (selected_target c))")
      (auto simp: tier_def split: option.splits)
  then have tier: "tier FixedMode (target_mv (selected_target c)) = Some 6"
    using no_preferred_tier [OF none] honourable_offers [OF range(1)] range(2) tier_range by fastforce
  have "6 \<le> q \<and> (q = 6 \<longrightarrow> mv' \<le> target_mv (selected_target c))"
    if o: "offers caps md' mv'" "tier md' mv' = Some q" for md' mv' q
  proof (cases "q = 6")
    case True
    then have "md' = FixedMode" "5000 \<le> mv'" "mv' \<le> 12000" using tier_range [OF o(2)] by auto
    then show ?thesis
      using fallback_fixed_complete [of caps mv'] o(1) opt True by (fastforce simp: higher_voltage_def not_less)
  qed (use no_preferred_tier [OF none o] in simp)
  then show ?thesis unfolding best_offer_def Let_def using range tier by simp
qed

lemma fixed_fallback_empty:
  assumes "keep_best higher_voltage (List.map_filter fallback_fixed_candidate (usable_objects caps)) = None"
    and "offers caps md mv" "tier md mv = Some q"
  shows "q \<noteq> 6"
proof
  assume "q = 6"
  then have "md = FixedMode" "5000 \<le> mv" "mv \<le> 12000" using tier_range [OF assms(3)] by auto
  then show False using fallback_fixed_complete [of caps mv] assms(1,2) by auto
qed

lemma fallback_pps_is_best:
  assumes none: "preferred_loop caps 0 preferred = None"
    and fixed: "keep_best higher_voltage (List.map_filter fallback_fixed_candidate (usable_objects caps)) = None"
    and best: "keep_best higher_voltage (List.map_filter fallback_pps_candidate (usable_objects caps)) = Some c"
  shows "best_offer caps \<lparr>fan_contract = c, fan_priority = 7, fan_reason = HighestFallbackPps\<rparr>"
proof -
  note opt = higher_voltage.keep_best_optimal [OF best]
  have "c \<in> set (List.map_filter fallback_pps_candidate (usable_objects caps))" using opt by blast
  then obtain o' where "o' \<in> set (usable_objects caps)" "fallback_pps_candidate o' = Some c"
    unfolding map_filter_mem by blast
  note sound = fallback_pps_sound [OF this]
  then have range: "honourable caps c" "target_mode (selected_target c) = PpsMode"
    "5000 \<le> target_mv (selected_target c)" "target_mv (selected_target c) \<le> 20000"
    "is_multiple_of (target_mv (selected_target c)) 20"
    by (auto simp: honourable_def Let_def)
  obtain q where "tier PpsMode (target_mv (selected_target c)) = Some q"
    using range(3-5) by (cases "tier PpsMode (target_mv (selected_target c))")
      (auto simp: tier_def split: option.splits)
  then have tier: "tier PpsMode (target_mv (selected_target c)) = Some 7"
    using no_preferred_tier [OF none] honourable_offers [OF range(1)] range(2) tier_range by fastforce
  have "7 \<le> q \<and> (q = 7 \<longrightarrow> mv' \<le> target_mv (selected_target c))"
    if o: "offers caps md' mv'" "tier md' mv' = Some q" for md' mv' q
  proof (cases "q = 7")
    case True
    then have "md' = PpsMode" "5000 \<le> mv'" "mv' \<le> 20000" "is_multiple_of mv' 20" using tier_range [OF o(2)] by auto
    then show ?thesis
      using fallback_pps_complete [of caps mv'] o(1) opt True by (fastforce simp: higher_voltage_def not_less)
  qed (use no_preferred_tier [OF none o] fixed_fallback_empty [OF fixed o] in simp)
  then show ?thesis unfolding best_offer_def Let_def using range tier by simp
qed

lemma nothing_ranked:
  assumes none: "preferred_loop caps 0 preferred = None"
    and fixed: "keep_best higher_voltage (List.map_filter fallback_fixed_candidate (usable_objects caps)) = None"
    and pps: "keep_best higher_voltage (List.map_filter fallback_pps_candidate (usable_objects caps)) = None"
  shows "offers caps md mv \<Longrightarrow> tier md mv = None"
proof (rule ccontr)
  assume o: "offers caps md mv" and "tier md mv \<noteq> None"
  then obtain q where q: "tier md mv = Some q" by blast
  then have "q = 7 \<and> md = PpsMode \<and> 5000 \<le> mv \<and> mv \<le> 20000 \<and> is_multiple_of mv 20"
    using tier_range [OF q] no_preferred_tier [OF none o q] fixed_fallback_empty [OF fixed o q] by auto
  then show False using fallback_pps_complete [of caps mv] o pps by auto
qed

text \<open>
  \<^bold>\<open>The fan image takes the best offer.\<close> The policy refuses only when the source offers no mode
  and voltage it ranks. Otherwise the contract it selects is one the source can honour, the priority it
  reports is the rank of that contract, no offered mode and voltage ranks before it, and none of the
  same rank has a higher voltage.
\<close>

theorem fan_policy_selects_the_best_offer:
  "case select_fan_contract caps of
     Inl e \<Rightarrow> \<forall>md mv. offers caps md mv \<longrightarrow> tier md mv = None
   | Inr s \<Rightarrow> best_offer caps s"
proof (cases "preferred_loop caps 0 preferred")
  case (Some s)
  then show ?thesis by (simp add: select_fan_contract_def preferred_is_best)
next
  case none: None
  show ?thesis
  proof (cases "keep_best higher_voltage (List.map_filter fallback_fixed_candidate (usable_objects caps))")
    case (Some c)
    show ?thesis unfolding select_fan_contract_def none Some by (simp add: fallback_fixed_is_best [OF none Some])
  next
    case fixed: None
    show ?thesis
      by (cases "keep_best higher_voltage (List.map_filter fallback_pps_candidate (usable_objects caps))")
         (simp_all add: select_fan_contract_def none fixed fallback_pps_is_best [OF none fixed]
           nothing_ranked [OF none fixed] del: keep_best_None_iff)
  qed
qed

text \<open>A source with 5 V, 9 V and 12 V fixed objects and a 5 to 11 V PPS object.\<close>

definition fan_source :: CoreCapabilities where
  "fan_source = capabilities_of [0x0001912c, 0x0002d12c, 0x0003c12c, 0xc0dc323c]"

theorem fan_policy_selects_the_best_offer_witness:
  "\<exists>s. select_fan_contract fan_source = Inr s \<and> fan_priority s = 6
     \<and> target_mv (selected_target (fan_contract s)) = 12000 \<and> best_offer fan_source s"
proof -
  have "case select_fan_contract fan_source of
      Inr s \<Rightarrow> fan_priority s = 6 \<and> target_mv (selected_target (fan_contract s)) = 12000 | Inl e \<Rightarrow> False"
    by code_simp
  then show ?thesis using fan_policy_selects_the_best_offer [of fan_source] by (auto split: sum.splits)
qed

end
