(* ===== verification/Fan_Cycle.thy ===== *)
theory Fan_Cycle
  imports Ch224q
begin

text \<open>
  The fan demonstration cycle and the mock device status of \<open>src/firmware/src/lib.rs\<close>, with the fan
  policy enumerations of \<open>src/firmware/src/fan_policy.rs\<close>.

  The catch-up loop of \<open>command_at\<close> is a recursive function with its termination proof. The
  sample counter and the host clock are the callers' state, so \<open>snapshot_at\<close> takes the tick and the
  uptime as arguments, as in the code. A \<open>Duration\<close> is its number of nanoseconds,
  saturating at the largest one.
\<close>

section \<open>Fan phases\<close>

definition FAN_PHASE_DURATION_SECS :: u32 where [simp]: "FAN_PHASE_DURATION_SECS = 10"
definition FAN_HIGH_PWM_PERMILLE :: u16 where [simp]: "FAN_HIGH_PWM_PERMILLE = 30"
definition FAN_MID_PWM_PERMILLE :: u16 where [simp]: "FAN_MID_PWM_PERMILLE = 300"
definition FAN_LOW_PWM_PERMILLE :: u16 where [simp]: "FAN_LOW_PWM_PERMILLE = 500"
definition FAN_STOP_SAFE_PWM_PERMILLE :: u16 where [simp]: "FAN_STOP_SAFE_PWM_PERMILLE = FAN_LOW_PWM_PERMILLE"
definition DEFAULT_PD_VOLTAGE_REQUEST :: VoltageRequest where [simp]: "DEFAULT_PD_VOLTAGE_REQUEST = V12"

datatype FanPhase = FanHigh | FanLow | FanMid | FanStop

fun FanPhase_next :: "FanPhase \<Rightarrow> FanPhase" where
  "FanPhase_next FanHigh = FanLow"
| "FanPhase_next FanLow = FanMid"
| "FanPhase_next FanMid = FanStop"
| "FanPhase_next FanStop = FanHigh"

record FanCommand =
  command_phase :: FanPhase
  fan_on :: bool
  pwm_permille :: u16

fun FanCommand_from_phase :: "FanPhase \<Rightarrow> FanCommand" where
  "FanCommand_from_phase FanHigh = \<lparr>command_phase = FanHigh, fan_on = True, pwm_permille = FAN_HIGH_PWM_PERMILLE\<rparr>"
| "FanCommand_from_phase FanLow = \<lparr>command_phase = FanLow, fan_on = True, pwm_permille = FAN_LOW_PWM_PERMILLE\<rparr>"
| "FanCommand_from_phase FanMid = \<lparr>command_phase = FanMid, fan_on = True, pwm_permille = FAN_MID_PWM_PERMILLE\<rparr>"
| "FanCommand_from_phase FanStop = \<lparr>command_phase = FanStop, fan_on = False, pwm_permille = FAN_STOP_SAFE_PWM_PERMILLE\<rparr>"

record FanCycleController =
  cycle_phase :: FanPhase
  phase_started_at_secs :: u32

definition FanCycleController_new :: FanCycleController where
  "FanCycleController_new = \<lparr>cycle_phase = FanHigh, phase_started_at_secs = 0\<rparr>"

lemma catch_up_advance:
  assumes "10 \<le> sat_sub t (s :: u32)"
  shows "unat (sat_add s 10) = unat s + 10" "unat s + 10 \<le> unat t"
proof -
  show le: "unat s + 10 \<le> unat t" using assms by (simp add: word_le_nat_alt unat_sat_sub)
  then show "unat (sat_add s 10) = unat s + 10"
    using unat_bound [of t] by (simp add: unat_sat_add min_def)
qed

text \<open>The loop of \<open>command_at\<close>: each round starts the next phase ten seconds after the last.\<close>

function catch_up :: "u32 \<Rightarrow> FanCycleController \<Rightarrow> FanCycleController" where
  "catch_up uptime_secs c =
     (if sat_sub uptime_secs (phase_started_at_secs c) \<ge> FAN_PHASE_DURATION_SECS
      then catch_up uptime_secs
             (c\<lparr>cycle_phase := FanPhase_next (cycle_phase c),
                phase_started_at_secs := sat_add (phase_started_at_secs c) FAN_PHASE_DURATION_SECS\<rparr>)
      else c)"
  by pat_completeness auto

termination catch_up
proof (relation "measure (\<lambda>(t, c). unat t - unat (phase_started_at_secs c))", goal_cases)
  case (2 t c)
  then show ?case using catch_up_advance [of t "phase_started_at_secs c"] by simp
qed simp

declare catch_up.simps [simp del]

definition command_at :: "FanCycleController \<Rightarrow> u32 \<Rightarrow> FanCycleController \<times> FanCommand" where
  "command_at c uptime_secs =
     (let c = catch_up uptime_secs c in (c, FanCommand_from_phase (cycle_phase c)))"

definition pwm_percent_from_permille :: "u16 \<Rightarrow> u8" where
  "pwm_percent_from_permille permille =
     (let bounded = (if permille > 1000 then 1000 else permille) in ucast ((bounded + 5) div 10))"

section \<open>The mock device status\<close>

datatype DeviceMode = DeviceIdle | Sampling | DeviceFault

datatype PdState = Negotiating | PdReady | Fallback5V | PdFault

datatype FrontPanelKey = Center | Right | Down | Left | Up

record DeviceStatus =
  device_mode :: DeviceMode
  status_voltage_mv :: u32
  status_current_ma :: u32
  board_temp_centi :: int
  rtd_raw_adc_mv :: u16
  vin_raw_adc_mv :: u16
  pd_request_mv :: u16
  pd_contract_mv :: u16
  pd_state :: PdState
  heater_output_percent :: u8
  heater_physical_output_percent :: u8
  fan_enabled :: bool
  fan_pwm_permille :: u16
  frontpanel_key :: "FrontPanelKey option"

definition snapshot_at :: "u32 \<Rightarrow> u32 \<Rightarrow> DeviceStatus" where
  "snapshot_at tick uptime_secs =
     (let request = DEFAULT_PD_VOLTAGE_REQUEST;
          fallback = is_multiple_of tick 17;
          contract_mv = (if fallback then millivolts V5 else millivolts request);
          fan_command = snd (command_at FanCycleController_new uptime_secs)
      in \<lparr>device_mode = Sampling,
          status_voltage_mv = ucast (millivolts request) + tick mod 50,
          status_current_ma = 800 + tick mod 40,
          board_temp_centi = 3200 + uint (tick mod 30),
          rtd_raw_adc_mv = 1120 + ucast (tick mod 12),
          vin_raw_adc_mv = 1670 + ucast (tick mod 18),
          pd_request_mv = millivolts request,
          pd_contract_mv = contract_mv,
          pd_state = (if fallback then Fallback5V else PdReady),
          heater_output_percent = (if fallback then 0 else ucast (tick mod 70)),
          heater_physical_output_percent = (if fallback then 0 else ucast (tick mod 70)),
          fan_enabled = fan_on fan_command,
          fan_pwm_permille = pwm_permille fan_command,
          frontpanel_key = (if is_multiple_of tick 10 then Some Center else None)\<rparr>)"

text \<open>One sample: the counter is read and incremented, wrapping.\<close>

definition snapshot :: "u32 \<Rightarrow> u32 \<Rightarrow> u32 \<times> DeviceStatus" where
  "snapshot sample_tick uptime_secs = (sample_tick + 1, snapshot_at sample_tick uptime_secs)"

text \<open>The host clock: whole seconds go to the uptime, the rest is kept.\<close>

definition NANOS_PER_SEC :: nat where [simp]: "NANOS_PER_SEC = 1000000000"

definition DURATION_MAX :: nat where "DURATION_MAX = (2 ^ 64 - 1) * NANOS_PER_SEC + (NANOS_PER_SEC - 1)"

definition accumulate_host_elapsed :: "nat \<Rightarrow> nat \<Rightarrow> u32 \<Rightarrow> u32 \<times> nat" where
  "accumulate_host_elapsed fractional_elapsed elapsed uptime_secs =
     (let accumulated = min (fractional_elapsed + elapsed) DURATION_MAX;
          elapsed_secs = of_nat (min (accumulated div NANOS_PER_SEC) (2 ^ 32 - 1)) :: u32;
          remainder = accumulated - unat elapsed_secs * NANOS_PER_SEC
      in (sat_add uptime_secs elapsed_secs, remainder))"

section \<open>Fan policy labels\<close>

datatype PostHeatCoolingMode = PostHeatOff | PostHeatNormal | PostHeatFast

definition PostHeatCoolingMode_is_enabled :: "PostHeatCoolingMode \<Rightarrow> bool" where
  "PostHeatCoolingMode_is_enabled m = (m \<noteq> PostHeatOff)"

definition PostHeatCoolingMode_from_legacy :: "bool \<Rightarrow> PostHeatCoolingMode" where
  "PostHeatCoolingMode_from_legacy on = (if on then PostHeatNormal else PostHeatOff)"

fun PostHeatCoolingMode_label :: "PostHeatCoolingMode \<Rightarrow> string" where
  "PostHeatCoolingMode_label PostHeatOff = ''OFF''"
| "PostHeatCoolingMode_label PostHeatNormal = ''NORMAL''"
| "PostHeatCoolingMode_label PostHeatFast = ''FAST''"

datatype HeatingFanGuardMode = GuardOff | GuardLow | GuardMedium | GuardHigh

fun HeatingFanGuardMode_label :: "HeatingFanGuardMode \<Rightarrow> string" where
  "HeatingFanGuardMode_label GuardOff = ''OFF''"
| "HeatingFanGuardMode_label GuardLow = ''LOW''"
| "HeatingFanGuardMode_label GuardMedium = ''MED''"
| "HeatingFanGuardMode_label GuardHigh = ''HIGH''"

datatype FanPolicySource = SourceIdle | SourcePostHeat | SourceHeatingGuard | SourceSafety

fun FanPolicySource_label :: "FanPolicySource \<Rightarrow> string" where
  "FanPolicySource_label SourceIdle = ''IDLE''"
| "FanPolicySource_label SourcePostHeat = ''POST''"
| "FanPolicySource_label SourceHeatingGuard = ''HEAT''"
| "FanPolicySource_label SourceSafety = ''SAFE''"

datatype FanOutputLevel = LevelOff | LevelLow | LevelMedium | LevelHigh | LevelLimited

fun FanOutputLevel_label :: "FanOutputLevel \<Rightarrow> string" where
  "FanOutputLevel_label LevelOff = ''OFF''"
| "FanOutputLevel_label LevelLow = ''LOW''"
| "FanOutputLevel_label LevelMedium = ''MED''"
| "FanOutputLevel_label LevelHigh = ''HIGH''"
| "FanOutputLevel_label LevelLimited = ''LIMIT''"

lemma legacy_mode_keeps_enabled: "PostHeatCoolingMode_is_enabled (PostHeatCoolingMode_from_legacy on) = on"
  by (simp add: PostHeatCoolingMode_is_enabled_def PostHeatCoolingMode_from_legacy_def)

section \<open>The cycle\<close>

definition phase_of :: "nat \<Rightarrow> FanPhase" where
  "phase_of n = [FanHigh, FanLow, FanMid, FanStop] ! (n mod 4)"

lemma phase_of_Suc: "phase_of (Suc n) = FanPhase_next (phase_of n)"
proof -
  have "n mod 4 < 4" by simp
  then consider "n mod 4 = 0" | "n mod 4 = 1" | "n mod 4 = 2" | "n mod 4 = 3" by linarith
  then show ?thesis by cases (simp_all add: phase_of_def mod_Suc)
qed

text \<open>A controller that has started \<open>k\<close> phases after the first.\<close>

definition in_phase :: "nat \<Rightarrow> FanCycleController \<Rightarrow> bool" where
  "in_phase k c \<longleftrightarrow> cycle_phase c = phase_of k \<and> unat (phase_started_at_secs c) = 10 * k"

lemma catch_up_in_phase: "in_phase k c \<Longrightarrow> in_phase (max k (unat t div 10)) (catch_up t c)"
proof (induction t c arbitrary: k rule: catch_up.induct)
  case (1 t c)
  show ?case
  proof (cases "10 \<le> sat_sub t (phase_started_at_secs c)")
    case True
    note adv = catch_up_advance [OF True]
    have "in_phase (Suc k) (c\<lparr>cycle_phase := FanPhase_next (cycle_phase c),
        phase_started_at_secs := sat_add (phase_started_at_secs c) FAN_PHASE_DURATION_SECS\<rparr>)"
      using "1.prems" adv(1) by (simp add: in_phase_def phase_of_Suc)
    moreover have "max (Suc k) (unat t div 10) = max k (unat t div 10)"
      using "1.prems" adv(2) by (auto simp: in_phase_def max_def)
    ultimately show ?thesis
      using "1.IH" [of "Suc k"] True by (subst catch_up.simps) simp
  next
    case False
    then have "unat t div 10 \<le> k"
      using "1.prems" by (simp add: in_phase_def word_le_nat_alt unat_sat_sub)
    then show ?thesis using False "1.prems" by (subst catch_up.simps) (simp add: max_def)
  qed
qed

definition fan_step :: "FanCycleController \<Rightarrow> u32 \<Rightarrow> FanCycleController" where
  "fan_step c uptime_secs = fst (command_at c uptime_secs)"

fun latest :: "u32 list \<Rightarrow> nat" where
  "latest [] = 0"
| "latest (t # ts) = max (unat t) (latest ts)"

lemma max_div_10: "max (a div 10) (b div 10) = max a b div (10 :: nat)"
  using div_le_mono [of a b 10] div_le_mono [of b a 10] by (cases "a \<le> b") (auto simp: max_def)

lemma fan_run_in_phase: "in_phase k c \<Longrightarrow> in_phase (max k (latest ts div 10)) (run fan_step c ts)"
proof (induction ts arbitrary: k c)
  case (Cons t ts)
  have "in_phase (max k (unat t div 10)) (fan_step c t)"
    using catch_up_in_phase [OF Cons.prems] by (simp add: fan_step_def command_at_def Let_def)
  from Cons.IH [OF this] show ?case by (simp add: max.assoc max_div_10)
qed simp

text \<open>
  \<^bold>\<open>The fan follows the uptime, not the calls.\<close> Query a new controller at any uptimes, in any
  order, and then at a last one: the command is that of the phase given by the latest uptime seen,
  counting phases of ten seconds from the start in the order high, low, mid, stop. The catch-up loop
  terminates on every input, and a stopped fan is off with its safe duty cycle.
\<close>

theorem fan_cycle_follows_uptime:
  "snd (command_at (run fan_step FanCycleController_new ts) t) =
     FanCommand_from_phase ([FanHigh, FanLow, FanMid, FanStop] ! (latest (t # ts) div 10 mod 4))"
proof -
  have "in_phase 0 FanCycleController_new" by (simp add: in_phase_def FanCycleController_new_def phase_of_def)
  from catch_up_in_phase [OF fan_run_in_phase [OF this, of ts], of t]
  have "cycle_phase (catch_up t (run fan_step FanCycleController_new ts)) = phase_of (latest (t # ts) div 10)"
    by (simp add: in_phase_def max_div_10 max.commute)
  then show ?thesis by (simp add: command_at_def Let_def phase_of_def)
qed

text \<open>
  \<^bold>\<open>Duty cycles are rounded percentages.\<close> A per-mille duty becomes the nearest percentage, halves
  rounded up, values above 1000 counting as 1000; the result never exceeds 100.
\<close>

theorem pwm_percent_is_rounded:
  "unat (pwm_percent_from_permille p) = (min (unat p) 1000 + 5) div 10 \<and> unat (pwm_percent_from_permille p) \<le> 100"
proof -
  define b where "b = (if p > 1000 then 1000 else p)"
  have b: "unat b = min (unat p) 1000" by (simp add: b_def word_less_nat_alt min_def)
  then have "unat (b + 5) = unat b + 5" by (simp add: unat_word_ariths)
  then have "unat ((b + 5) div 10) = (unat b + 5) div 10" by (simp add: unat_div)
  moreover have "(unat b + 5) div 10 \<le> 100" using b by auto
  ultimately show ?thesis
    by (simp add: pwm_percent_from_permille_def Let_def b_def [symmetric] b [symmetric] unat_ucast_small)
qed

text \<open>No host time is lost as long as nothing saturates.\<close>

lemma host_time_is_conserved:
  assumes "f + e \<le> DURATION_MAX" "unat u + (f + e) div NANOS_PER_SEC < 2 ^ 32"
    and "accumulate_host_elapsed f e u = (u', r)"
  shows "unat u' * NANOS_PER_SEC + r = unat u * NANOS_PER_SEC + f + e \<and> r < NANOS_PER_SEC"
proof -
  let ?s = "(f + e) div 1000000000"
  have s: "?s < 2 ^ 32" using assms(2) by simp
  then have n: "unat (of_nat ?s :: u32) = ?s" by (simp add: unat_of_nat)
  have u': "u' = sat_add u (of_nat ?s)" "r = f + e - ?s * 1000000000"
    using assms(1,3) s n by (auto simp: accumulate_host_elapsed_def Let_def min_def)
  have "unat u' = unat u + ?s" using assms(2) unfolding u' by (simp add: unat_sat_add n min_def)
  moreover have "?s * 1000000000 + (f + e) mod 1000000000 = f + e" by simp
  moreover have "(f + e) mod 1000000000 < 1000000000" by simp
  ultimately show ?thesis unfolding u'(2) by (simp add: algebra_simps del: mult_div_mod_eq div_mult_mod_eq)
qed

end
