(* ===== verification/Wifi_State.thy ===== *)
theory Wifi_State
  imports Prelude
begin

text \<open>
  The WiFi provisioning machine of \<open>src/firmware/src/wifi_state.rs\<close>, with the state and
  failure enumerations it takes from \<open>src/firmware/src/control_plane.rs\<close>.

  The machine is a record; \<open>apply_at\<close> is the whole handler: it first replaces an event that
  arrives after the provisioning deadline, then rejects what the state does not accept, then
  performs the transition and publishes a snapshot. The lemmas give the invariant of every run, the
  deadline, the retry budget and the stickiness of a settled failure.
\<close>

section \<open>Data\<close>

datatype NetworkState = Disabled | Idle | Saving | Connecting | Connected | Error | Timeout

datatype NetworkFailureCode =
    DisconnectTimeout
  | ConfigurationFailed
  | AssociationRejected
  | AssociationTimeout
  | Ipv4Timeout
  | StationLost
  | LanStartupFailure

datatype WifiEvent =
    ApplyConfig
  | ClearConfig
  | CancelProvisioning
  | DisconnectCompleted
  | DisconnectTimedOut
  | DriverConfigured
  | DriverConfigurationFailed
  | AssociationSucceeded
  | AssociationFailed
  | AssociationTimedOut
  | Ipv4Configured
  | Ipv4TimedOut
  | ProvisioningTimedOut
  | RetryDelayElapsed
  | StationDisconnected (auto_reconnect: bool)
  | LanStartupFailed

datatype WifiEffect =
    NoEffect | Disconnect | ConfigureDriver | Associate | AwaitIpv4 | RetryAfterDelay

record WifiTransition =
  accepted :: bool
  published_state :: NetworkState
  published_failure_code :: "NetworkFailureCode option"
  published_generation :: u32
  published_sequence :: u32
  effect :: WifiEffect

record WifiProvisioningMachine =
  wifi_state :: NetworkState
  failure_code :: "NetworkFailureCode option"
  configuration_generation :: u32
  transition_sequence :: u32
  attempts :: u8
  provisioning_started_at_ms :: "u64 option"

definition SAVING_TIMEOUT_MS :: u32 where [simp]: "SAVING_TIMEOUT_MS = 3000"
definition PROVISIONING_TIMEOUT_MS :: u32 where [simp]: "PROVISIONING_TIMEOUT_MS = 30000"
definition MAX_PROVISIONING_ATTEMPTS :: u8 where [simp]: "MAX_PROVISIONING_ATTEMPTS = 3"

section \<open>The machine\<close>

definition WifiProvisioningMachine_new :: WifiProvisioningMachine where
  "WifiProvisioningMachine_new =
     \<lparr>wifi_state = Disabled, failure_code = None, configuration_generation = 0,
      transition_sequence = 0, attempts = 0, provisioning_started_at_ms = None\<rparr>"

definition transition :: "WifiProvisioningMachine \<Rightarrow> bool \<Rightarrow> WifiEffect \<Rightarrow> WifiTransition" where
  "transition m acc eff =
     \<lparr>accepted = acc, published_state = wifi_state m, published_failure_code = failure_code m,
      published_generation = configuration_generation m, published_sequence = transition_sequence m,
      effect = eff\<rparr>"

fun accepts :: "WifiProvisioningMachine \<Rightarrow> WifiEvent \<Rightarrow> bool" where
  "accepts m ApplyConfig = True"
| "accepts m ClearConfig = True"
| "accepts m LanStartupFailed = True"
| "accepts m CancelProvisioning = (wifi_state m \<noteq> Disabled \<and> wifi_state m \<noteq> Idle)"
| "accepts m DisconnectCompleted = (wifi_state m = Saving)"
| "accepts m DisconnectTimedOut = (wifi_state m = Saving)"
| "accepts m DriverConfigured = (wifi_state m = Connecting)"
| "accepts m DriverConfigurationFailed = (wifi_state m = Connecting)"
| "accepts m AssociationSucceeded = (wifi_state m = Connecting)"
| "accepts m AssociationFailed = (wifi_state m = Connecting)"
| "accepts m AssociationTimedOut = (wifi_state m = Connecting)"
| "accepts m Ipv4Configured = (wifi_state m = Connecting)"
| "accepts m Ipv4TimedOut = (wifi_state m = Connecting)"
| "accepts m ProvisioningTimedOut = (wifi_state m = Connecting)"
| "accepts m RetryDelayElapsed = (wifi_state m = Connecting)"
| "accepts m (StationDisconnected reconnect) = (wifi_state m = Connected)"

definition expired_event :: "WifiProvisioningMachine \<Rightarrow> WifiEvent \<Rightarrow> u64 \<Rightarrow> WifiEvent" where
  "expired_event m event now_ms =
     (case provisioning_started_at_ms m of
        None \<Rightarrow> event
      | Some started_at_ms \<Rightarrow>
          (let elapsed_ms = sat_sub now_ms started_at_ms in
           if wifi_state m = Saving \<and> elapsed_ms > ucast SAVING_TIMEOUT_MS then DisconnectTimedOut
           else if wifi_state m = Connecting \<and> elapsed_ms > ucast PROVISIONING_TIMEOUT_MS
           then ProvisioningTimedOut
           else event))"

definition retry_or_terminal ::
  "WifiProvisioningMachine \<Rightarrow> NetworkFailureCode \<Rightarrow> NetworkState \<Rightarrow>
     WifiProvisioningMachine \<times> NetworkState \<times> NetworkFailureCode option \<times> WifiEffect" where
  "retry_or_terminal m code terminal =
     (let m = m\<lparr>attempts := sat_add (attempts m) 1\<rparr> in
      if attempts m < MAX_PROVISIONING_ATTEMPTS then (m, Connecting, None, RetryAfterDelay)
      else (m, terminal, Some code, NoEffect))"

text \<open>The match of \<open>apply_at\<close>: what an accepted event does to the machine, and the state,
  failure code and effect it yields.\<close>

fun handle_event ::
  "WifiProvisioningMachine \<Rightarrow> WifiEvent \<Rightarrow> u64 \<Rightarrow>
     WifiProvisioningMachine \<times> NetworkState \<times> NetworkFailureCode option \<times> WifiEffect" where
  "handle_event m ClearConfig now_ms =
     (m\<lparr>configuration_generation := configuration_generation m + 1, attempts := 0,
        provisioning_started_at_ms := None\<rparr>, Disabled, None, NoEffect)"
| "handle_event m CancelProvisioning now_ms =
     (m\<lparr>attempts := 0, provisioning_started_at_ms := None\<rparr>, Idle, None, Disconnect)"
| "handle_event m ApplyConfig now_ms =
     (m\<lparr>configuration_generation := configuration_generation m + 1, attempts := 0,
        provisioning_started_at_ms := Some now_ms\<rparr>, Saving, None, Disconnect)"
| "handle_event m DisconnectCompleted now_ms = (m, Connecting, None, ConfigureDriver)"
| "handle_event m DisconnectTimedOut now_ms = (m, Error, Some DisconnectTimeout, NoEffect)"
| "handle_event m DriverConfigured now_ms = (m, Connecting, None, Associate)"
| "handle_event m DriverConfigurationFailed now_ms = retry_or_terminal m ConfigurationFailed Error"
| "handle_event m AssociationSucceeded now_ms = (m, Connecting, None, AwaitIpv4)"
| "handle_event m AssociationFailed now_ms = retry_or_terminal m AssociationRejected Error"
| "handle_event m AssociationTimedOut now_ms = retry_or_terminal m AssociationTimeout Error"
| "handle_event m Ipv4Configured now_ms =
     (m\<lparr>provisioning_started_at_ms := None\<rparr>, Connected, None, NoEffect)"
| "handle_event m Ipv4TimedOut now_ms = retry_or_terminal m Ipv4Timeout Error"
| "handle_event m ProvisioningTimedOut now_ms = (m, Error, Some Ipv4Timeout, NoEffect)"
| "handle_event m RetryDelayElapsed now_ms = (m, Connecting, None, ConfigureDriver)"
| "handle_event m (StationDisconnected reconnect) now_ms =
     (if reconnect
      then (m\<lparr>attempts := 0, provisioning_started_at_ms := Some now_ms\<rparr>, Connecting, None, RetryAfterDelay)
      else (m, Error, Some StationLost, NoEffect))"
| "handle_event m LanStartupFailed now_ms = (m, Error, Some LanStartupFailure, NoEffect)"

definition apply_at ::
  "WifiProvisioningMachine \<Rightarrow> WifiEvent \<Rightarrow> u64 \<Rightarrow> WifiProvisioningMachine \<times> WifiTransition" where
  "apply_at m event now_ms =
     (let event = expired_event m event now_ms in
      if \<not> accepts m event then (m, transition m False NoEffect)
      else let (m, st, code, eff) = handle_event m event now_ms;
               m = m\<lparr>wifi_state := st, failure_code := code,
                     transition_sequence := transition_sequence m + 1\<rparr>
           in (m, transition m True eff))"

definition apply_now :: "WifiProvisioningMachine \<Rightarrow> WifiEvent \<Rightarrow> WifiProvisioningMachine \<times> WifiTransition" where
  "apply_now m event = apply_at m event 0"

text \<open>The clock is the caller's: \<open>apply_with_clock\<close> reads it once.\<close>

definition apply_with_clock ::
  "WifiProvisioningMachine \<Rightarrow> WifiEvent \<Rightarrow> ('c \<Rightarrow> u64) \<Rightarrow> 'c \<Rightarrow> WifiProvisioningMachine \<times> WifiTransition" where
  "apply_with_clock m event now_ms clock = apply_at m event (now_ms clock)"

section \<open>Runs and the invariant\<close>

text \<open>One driver call: an event and the time it is delivered at. The runs are those of the
  generic machine of the prelude.\<close>

definition wifi_step :: "WifiProvisioningMachine \<Rightarrow> WifiEvent \<times> u64 \<Rightarrow> WifiProvisioningMachine" where
  "wifi_step m call = fst (apply_at m (fst call) (snd call))"

abbreviation wifi_run :: "(WifiEvent \<times> u64) list \<Rightarrow> WifiProvisioningMachine" where
  "wifi_run calls \<equiv> run wifi_step WifiProvisioningMachine_new calls"

text \<open>The effects a sequence of calls hands to the driver, in order.\<close>

fun wifi_effects :: "WifiProvisioningMachine \<Rightarrow> (WifiEvent \<times> u64) list \<Rightarrow> WifiEffect list" where
  "wifi_effects m [] = []"
| "wifi_effects m (c # cs) = effect (snd (apply_at m (fst c) (snd c))) # wifi_effects (wifi_step m c) cs"

text \<open>The legacy \<open>Timeout\<close> state is never entered; a failure code is published exactly in
  \<open>Error\<close>; the deadline timer runs exactly while provisioning; a machine that is still
  connecting has attempts left.\<close>

definition wifi_inv :: "WifiProvisioningMachine \<Rightarrow> bool" where
  "wifi_inv m \<longleftrightarrow>
     wifi_state m \<noteq> Timeout
     \<and> (failure_code m \<noteq> None \<longleftrightarrow> wifi_state m = Error)
     \<and> (wifi_state m = Saving \<or> wifi_state m = Connecting \<longrightarrow> provisioning_started_at_ms m \<noteq> None)
     \<and> (wifi_state m = Disabled \<or> wifi_state m = Idle \<or> wifi_state m = Connected \<longrightarrow>
          provisioning_started_at_ms m = None)
     \<and> (wifi_state m = Disabled \<or> wifi_state m = Idle \<or> wifi_state m = Saving \<longrightarrow> attempts m = 0)
     \<and> (wifi_state m \<noteq> Error \<longrightarrow> attempts m < MAX_PROVISIONING_ATTEMPTS)
     \<and> attempts m \<le> MAX_PROVISIONING_ATTEMPTS"

lemmas wifi_defs = apply_at_def transition_def retry_or_terminal_def Let_def split_def

lemma sat_add_one: "a < 3 \<Longrightarrow> sat_add a 1 = a + (1 :: u8)"
  using word_add_overflows_iff [of a 1] by (simp add: sat_add_def word_less_nat_alt [of a 3])

lemma add_one_le_3: "a < 3 \<Longrightarrow> a + 1 \<le> (3 :: u8)"
  by (simp add: word_order_nat unat_word_ariths)

lemma accepted_step_inv:
  assumes "wifi_inv m" "accepts m e"
  shows "wifi_inv (case handle_event m e t of (m, st, code, eff) \<Rightarrow>
           m\<lparr>wifi_state := st, failure_code := code, transition_sequence := transition_sequence m + 1\<rparr>)"
  using assms
  by (cases e) (auto simp: wifi_inv_def retry_or_terminal_def Let_def sat_add_one add_one_le_3)

lemma wifi_step_inv: "wifi_inv m \<Longrightarrow> wifi_inv (wifi_step m c)"
  using accepted_step_inv [of m "expired_event m (fst c) (snd c)" "snd c"]
  by (simp add: wifi_step_def wifi_defs)

lemma wifi_new_inv: "wifi_inv WifiProvisioningMachine_new"
  by (simp add: wifi_inv_def WifiProvisioningMachine_new_def)

interpretation wifi: invariant_machine wifi_step wifi_inv
  by unfold_locales (rule wifi_step_inv)

lemma wifi_run_inv: "wifi_inv (wifi_run calls)"
  by (rule wifi.run_inv [OF wifi_new_inv])

section \<open>Properties of runs\<close>

text \<open>
  \<^bold>\<open>The states a run can reach (C19).\<close> Whatever events are delivered, in whatever order and at
  whatever times, the machine never enters the legacy timeout state, publishes a failure code
  exactly in the error state, has its deadline timer armed while it saves or connects and disarmed
  while it is disabled, idle or connected, and never starts more than three attempts: a machine that
  has not failed has attempts left.
\<close>

theorem every_run_is_consistent:
  "wifi_state (wifi_run calls) \<noteq> Timeout
   \<and> (failure_code (wifi_run calls) \<noteq> None) = (wifi_state (wifi_run calls) = Error)
   \<and> (wifi_state (wifi_run calls) = Error
      \<or> (provisioning_started_at_ms (wifi_run calls) \<noteq> None)
          = (wifi_state (wifi_run calls) \<in> {Saving, Connecting}))
   \<and> unat (attempts (wifi_run calls)) \<le> (if wifi_state (wifi_run calls) = Error then 3 else 2)"
  using wifi_run_inv [of calls]
  by (cases "wifi_state (wifi_run calls)") (auto simp: wifi_inv_def word_order_nat)

text \<open>How long a provisioning stage may last.\<close>

definition stage_limit_ms :: "NetworkState \<Rightarrow> nat" where
  "stage_limit_ms st = (if st = Saving then 3000 else 30000)"

definition stage_failure :: "NetworkState \<Rightarrow> NetworkFailureCode" where
  "stage_failure st = (if st = Saving then DisconnectTimeout else Ipv4Timeout)"

lemma expired_event_cases:
  assumes "provisioning_started_at_ms m = Some t0" "wifi_state m \<in> {Saving, Connecting}"
  shows "expired_event m e now =
    (if unat now - unat t0 > stage_limit_ms (wifi_state m)
     then if wifi_state m = Saving then DisconnectTimedOut else ProvisioningTimedOut
     else e)"
  using assms by (auto simp: expired_event_def Let_def stage_limit_ms_def word_order_nat unat_sat_sub)

lemma timer_runs_while_provisioning:
  "wifi_inv m \<Longrightarrow> wifi_state m \<in> {Saving, Connecting} \<Longrightarrow> \<exists>t0. provisioning_started_at_ms m = Some t0"
  unfolding wifi_inv_def by blast

text \<open>
  \<^bold>\<open>The deadline always fires (C37).\<close> Provisioning cannot linger: a machine that is saving or
  connecting knows when it started, and whichever event is delivered more than 3 s (saving) or 30 s
  (connecting) after that settles it in the error state with the code of the stage, and asks the
  driver for nothing. Retries do not restart the clock. The replacement is unconditional, so an
  \<open>ApplyConfig\<close>, \<open>ClearConfig\<close> or \<open>CancelProvisioning\<close> that arrives after the deadline is
  consumed as the timeout too.
\<close>

theorem deadline_settles_provisioning:
  assumes "wifi_state (wifi_run calls) \<in> {Saving, Connecting}"
  shows "\<exists>t0. provisioning_started_at_ms (wifi_run calls) = Some t0
    \<and> (\<forall>e now. unat t0 + stage_limit_ms (wifi_state (wifi_run calls)) < unat now \<longrightarrow>
        wifi_state (wifi_step (wifi_run calls) (e, now)) = Error
        \<and> failure_code (wifi_step (wifi_run calls) (e, now)) = Some (stage_failure (wifi_state (wifi_run calls)))
        \<and> configuration_generation (wifi_step (wifi_run calls) (e, now)) = configuration_generation (wifi_run calls)
        \<and> effect (snd (apply_at (wifi_run calls) e now)) = NoEffect)"
proof -
  let ?m = "wifi_run calls"
  obtain t0 where t0: "provisioning_started_at_ms ?m = Some t0"
    using timer_runs_while_provisioning [OF wifi_run_inv assms] by blast
  have "wifi_state ?m = Saving \<or> wifi_state ?m = Connecting" using assms by auto
  then show ?thesis
    using t0 expired_event_cases [OF t0 assms]
    by (auto simp: wifi_step_def wifi_defs stage_failure_def)
qed

theorem deadline_settles_provisioning_witness:
  "failure_code (wifi_step (wifi_run [(ApplyConfig, 10), (DisconnectCompleted, 20)]) (Ipv4Configured, 30011))
     = Some Ipv4Timeout"
proof -
  have "wifi_state (wifi_run [(ApplyConfig, 10), (DisconnectCompleted, 20)]) = Connecting"
    "provisioning_started_at_ms (wifi_run [(ApplyConfig, 10), (DisconnectCompleted, 20)]) = Some 10"
    by code_simp+
  then show ?thesis
    using deadline_settles_provisioning [of "[(ApplyConfig, 10), (DisconnectCompleted, 20)]"]
    by (simp add: stage_limit_ms_def stage_failure_def)
qed

text \<open>The events that open a new attempt budget: a new configuration, clearing it, cancelling, and a
  lost connection.\<close>

fun opens_budget :: "WifiEvent \<Rightarrow> bool" where
  "opens_budget ApplyConfig = True"
| "opens_budget ClearConfig = True"
| "opens_budget CancelProvisioning = True"
| "opens_budget (StationDisconnected b) = True"
| "opens_budget e = False"

lemma expired_event_opens: "opens_budget (expired_event m e t) \<Longrightarrow> opens_budget e"
  by (auto simp: expired_event_def Let_def split: option.splits if_splits)

lemma unat_sat_add_one: "a < 3 \<Longrightarrow> unat (sat_add a (1 :: u8)) = unat a + 1"
  by (simp add: sat_add_one word_order_nat unat_word_ariths)

lemma budget_step:
  assumes "wifi_inv m" "\<not> opens_budget e"
  shows "if effect (snd (apply_at m e t)) = RetryAfterDelay
         then unat (attempts m) < 2 \<and> unat (attempts (wifi_step m (e, t))) = unat (attempts m) + 1
         else unat (attempts m) \<le> unat (attempts (wifi_step m (e, t)))"
proof -
  let ?e = "expired_event m e t"
  have opens: "\<not> opens_budget ?e" using assms(2) expired_event_opens by blast
  have left: "wifi_state m = Connecting \<Longrightarrow> attempts m < 3"
    using assms(1) by (simp add: wifi_inv_def)
  have bump: "unat (sat_add (attempts m) 1) = unat (attempts m) + 1" if "attempts m < 3"
    using that by (rule unat_sat_add_one)
  have less: "(sat_add (attempts m) 1 < 3) = (unat (attempts m) < 2)" if "attempts m < 3"
    using bump [OF that] by (simp add: word_less_nat_alt)
  show ?thesis
    using opens left by (cases ?e) (simp_all add: wifi_step_def wifi_defs bump less)
qed

lemma retries_within_budget:
  "wifi_inv m \<Longrightarrow> list_all (\<lambda>c. \<not> opens_budget (fst c)) cs \<Longrightarrow>
     count_list (wifi_effects m cs) RetryAfterDelay \<le> 2 - unat (attempts m)"
proof (induction cs arbitrary: m)
  case (Cons c cs)
  have "count_list (wifi_effects (wifi_step m c) cs) RetryAfterDelay \<le> 2 - unat (attempts (wifi_step m c))"
    using Cons by (simp add: wifi_step_inv)
  then show ?case
    using budget_step [OF Cons.prems(1), of "fst c" "snd c"] Cons.prems(2) by (auto split: if_splits)
qed simp

text \<open>
  \<^bold>\<open>Three attempts, no more.\<close> After any run, deliver any further events among which there is
  no new configuration, clearing, cancellation or lost connection: the machine asks the driver to
  retry at most twice, whatever mix of driver, association and address failures occurs, so a
  configuration gets at most three attempts.
\<close>

theorem retry_budget_is_bounded:
  assumes "list_all (\<lambda>c. \<not> opens_budget (fst c)) cs"
  shows "count_list (wifi_effects (wifi_run calls) cs) RetryAfterDelay \<le> 2 - unat (attempts (wifi_run calls))"
  by (rule retries_within_budget [OF wifi_run_inv assms])

theorem retry_budget_is_bounded_witness:
  "count_list (wifi_effects (wifi_run [(ApplyConfig, 0), (DisconnectCompleted, 1)])
     [(AssociationFailed, 2), (RetryDelayElapsed, 3), (DriverConfigurationFailed, 4), (AssociationFailed, 5)])
     RetryAfterDelay \<le> 2"
proof -
  have "attempts (wifi_run [(ApplyConfig, 0), (DisconnectCompleted, 1)]) = 0" by code_simp
  then show ?thesis
    using retry_budget_is_bounded [of "[(AssociationFailed, 2), (RetryDelayElapsed, 3),
        (DriverConfigurationFailed, 4), (AssociationFailed, 5)]"
        "[(ApplyConfig, 0), (DisconnectCompleted, 1)]"]
    by simp
qed

fun reopens_failure :: "WifiEvent \<Rightarrow> bool" where
  "reopens_failure ApplyConfig = True"
| "reopens_failure ClearConfig = True"
| "reopens_failure CancelProvisioning = True"
| "reopens_failure LanStartupFailed = True"
| "reopens_failure e = False"

lemma settled_step: "wifi_state m = Error \<Longrightarrow> \<not> reopens_failure (fst c) \<Longrightarrow> wifi_step m c = m"
  by (cases "fst c") (auto simp: wifi_step_def wifi_defs expired_event_def split: option.splits)

text \<open>
  \<^bold>\<open>A settled failure stays settled.\<close> Once provisioning has failed, no late driver,
  association, address, retry or disconnect event changes the machine at all: neither its state nor
  its failure code, generation or sequence number. Only a new configuration, clearing it, a
  cancellation or a LAN startup failure does.
\<close>

theorem settled_failure_is_sticky:
  assumes "wifi_state (wifi_run calls) = Error" "list_all (\<lambda>c. \<not> reopens_failure (fst c)) cs"
  shows "wifi_run (calls @ cs) = wifi_run calls"
proof -
  have "wifi_state m = Error \<Longrightarrow> list_all (\<lambda>c. \<not> reopens_failure (fst c)) cs \<Longrightarrow> run wifi_step m cs = m" for m
    by (induction cs) (auto simp: settled_step)
  then show ?thesis using assms by simp
qed

theorem settled_failure_is_sticky_witness:
  "wifi_run [(ApplyConfig, 0), (DisconnectTimedOut, 7), (AssociationSucceeded, 8), (Ipv4Configured, 9)]
     = wifi_run [(ApplyConfig, 0), (DisconnectTimedOut, 7)]"
proof -
  have "wifi_state (wifi_run [(ApplyConfig, 0), (DisconnectTimedOut, 7)]) = Error" by code_simp
  then show ?thesis
    using settled_failure_is_sticky [of "[(ApplyConfig, 0), (DisconnectTimedOut, 7)]"
        "[(AssociationSucceeded, 8), (Ipv4Configured, 9)]"]
    by simp
qed

text \<open>
  \<^bold>\<open>What a snapshot says.\<close> Every call publishes the machine it leaves behind. A rejected
  event changes nothing and asks for nothing; an accepted one advances the sequence number by one.
  The configuration generation advances exactly when a new configuration or its removal takes
  effect, and the machine becomes connected only by an address obtained while connecting.
\<close>

theorem snapshots_report_the_machine:
  "(case apply_at m e now of (m', tr) \<Rightarrow>
      tr = transition m' (accepted tr) (effect tr)
      \<and> (if accepted tr then transition_sequence m' = transition_sequence m + 1
         else m' = m \<and> effect tr = NoEffect)
      \<and> configuration_generation m' =
          (if expired_event m e now \<in> {ApplyConfig, ClearConfig} then configuration_generation m + 1
           else configuration_generation m)
      \<and> (wifi_state m' = Connected) =
          (if accepted tr then wifi_state m = Connecting \<and> expired_event m e now = Ipv4Configured
           else wifi_state m = Connected))"
  by (cases "expired_event m e now") (auto simp: wifi_defs)

end
