(* ===== verification/Lan.thy ===== *)
theory Lan
  imports Prelude
begin

text \<open>
  The LAN control plane's security primitives, \<open>src/firmware/src/lan.rs\<close>: bearer tokens and their
  hexadecimal form, the pairing window, the exclusive control lease, endpoint permissions and the
  origin filter.

  A Rust string is the list of its bytes where the code reads bytes (tokens, pairing codes) and the
  list of its Unicode scalar values where the code trims it (origins). Fixed arrays are lists; the
  length an array type fixes is a hypothesis of the lemmas that need it.
\<close>

section \<open>Data\<close>

type_synonym bytes = "u8 list"

type_synonym chars = "nat list"

definition LAN_TOKEN_BYTES :: nat where [simp]: "LAN_TOKEN_BYTES = 32"
definition LAN_TOKEN_HEX_LEN :: nat where [simp]: "LAN_TOKEN_HEX_LEN = LAN_TOKEN_BYTES * 2"
definition LAN_PAIRING_CODE_LEN :: nat where [simp]: "LAN_PAIRING_CODE_LEN = 4"
definition LAN_PAIRING_MAX_FAILURES :: u8 where [simp]: "LAN_PAIRING_MAX_FAILURES = 5"
definition LAN_LEASE_TTL_MS :: u64 where [simp]: "LAN_LEASE_TTL_MS = 30000"
definition LAN_LEASE_ID_BYTES :: nat where [simp]: "LAN_LEASE_ID_BYTES = 12"

definition chars_of :: "string \<Rightarrow> chars" where
  "chars_of s = map of_char s"

definition PROD_ALLOWED_ORIGIN :: chars where
  "PROD_ALLOWED_ORIGIN = chars_of ''https://flux-purr.ivanli.cc''"

datatype LanPairingMode = Required | Optional | Unavailable

fun LanPairingMode_as_wire :: "LanPairingMode \<Rightarrow> string" where
  "LanPairingMode_as_wire Required = ''required''"
| "LanPairingMode_as_wire Optional = ''optional''"
| "LanPairingMode_as_wire Unavailable = ''unavailable''"

datatype LanAccessError =
    PairingInactive
  | PairingLocked
  | PairingCodeInvalid
  | PairingUnavailable
  | Unauthorized
  | LeaseBusy
  | LeaseRequired
  | LeaseExpired

section \<open>Tokens\<close>

definition hex_nibble :: "u8 \<Rightarrow> u8 option" where
  "hex_nibble b =
     (if 48 \<le> b \<and> b \<le> 57 then Some (b - 48)
      else if 97 \<le> b \<and> b \<le> 102 then Some (b - 97 + 10)
      else if 65 \<le> b \<and> b \<le> 70 then Some (b - 65 + 10)
      else None)"

definition hex_nibble_or_invalid :: "u8 \<Rightarrow> u8" where
  "hex_nibble_or_invalid b = (case hex_nibble b of Some n \<Rightarrow> n | None \<Rightarrow> 0xff)"

text \<open>The format \<open>{byte:02x}\<close>: two lower-case digits.\<close>

definition hex_digit :: "u8 \<Rightarrow> u8" where
  "hex_digit n = (if n < 10 then 48 + n else 87 + n)"

definition format_02x :: "u8 \<Rightarrow> bytes" where
  "format_02x b = [hex_digit (drop_bit 4 b), hex_digit (b AND 15)]"

definition write_hex :: "bytes \<Rightarrow> bytes" where
  "write_hex token = fold (\<lambda>b out. out @ format_02x b) token []"

text \<open>One round of the decoding loop, and of the comparison loop: the byte at an index.\<close>

definition hex_byte :: "bytes \<Rightarrow> nat \<Rightarrow> u8 option" where
  "hex_byte v index =
     Option.bind (hex_nibble (v ! (index * 2))) (\<lambda>high.
     Option.bind (hex_nibble (v ! (index * 2 + 1))) (\<lambda>low.
     Some (push_bit 4 high OR low)))"

definition hex_byte_or_invalid :: "bytes \<Rightarrow> nat \<Rightarrow> u8" where
  "hex_byte_or_invalid v index =
     (let high = hex_nibble_or_invalid (v ! (index * 2));
          low = hex_nibble_or_invalid (v ! (index * 2 + 1))
      in push_bit 4 high OR low)"

definition from_hex :: "bytes \<Rightarrow> bytes option" where
  "from_hex v =
     (if length v \<noteq> LAN_TOKEN_HEX_LEN then None
      else those (map (hex_byte v) [0..<LAN_TOKEN_BYTES]))"

definition matches_bearer :: "bytes \<Rightarrow> bytes \<Rightarrow> bool" where
  "matches_bearer token v =
     (if length v \<noteq> LAN_TOKEN_HEX_LEN then False
      else fold (\<lambda>(index, expected) difference. difference OR (expected XOR hex_byte_or_invalid v index))
                (List.enumerate 0 token) 0 = 0)"

lemma or_eq_zero_iff: "(a :: 'a::len word) OR b = 0 \<longleftrightarrow> a = 0 \<and> b = 0"
  by (auto simp: bit_eq_iff bit_simps)

lemma xor_eq_zero_iff: "(a :: 'a::len word) XOR b = 0 \<longleftrightarrow> a = b"
  by (auto simp: bit_eq_iff bit_simps)

text \<open>The difference accumulator of a comparison without early exits is zero exactly when no pair
  differs.\<close>

lemma difference_zero_iff:
  "fold (\<lambda>x d. d OR (f x XOR g x)) xs d = (0 :: 'a::len word) \<longleftrightarrow> d = 0 \<and> (\<forall>x\<in>set xs. f x = g x)"
  by (induction xs arbitrary: d) (auto simp: or_eq_zero_iff xor_eq_zero_iff)

lemma small_u8_cases:
  assumes "(n :: u8) < 16" and P: "\<And>k. k < (16 :: nat) \<Longrightarrow> P (of_nat k)"
  shows "P n"
  using P [of "unat n"] assms(1) by (simp add: word_less_nat_alt)

lemma hex_nibble_digit: "n < 16 \<Longrightarrow> hex_nibble (hex_digit n) = Some n"
proof (erule small_u8_cases)
  fix k :: nat assume "k < 16"
  moreover have "list_all (\<lambda>k. hex_nibble (hex_digit (of_nat k)) = Some (of_nat k)) [0..<16]" by code_simp
  ultimately show "hex_nibble (hex_digit (of_nat k)) = Some (of_nat k)" by (auto simp: list_all_iff)
qed

lemma high_nibble_less: "drop_bit 4 (b :: u8) < 16"
proof -
  have "unat b < 256" using unat_bound [of b] by simp
  then show ?thesis by (simp add: word_less_nat_alt drop_bit_eq_div unat_div)
qed

lemma low_nibble_less: "(b :: u8) AND 15 < 16"
  using unat_take_bit_less [of 4 b] by (simp add: mask_simps word_less_nat_alt)

lemma join_nibbles: "push_bit 4 (drop_bit 4 b) OR (b AND 15) = (b :: u8)"
  by (rule bit_eqI) (auto simp: mask_simps bit_simps)

lemma length_write_hex_fold: "fold (\<lambda>b out. out @ format_02x b) token out = out @ concat (map format_02x token)"
  by (induction token arbitrary: out) auto

lemma write_hex_concat: "write_hex token = concat (map format_02x token)"
  by (simp add: write_hex_def length_write_hex_fold)

lemma length_write_hex [simp]: "length (write_hex token) = 2 * length token"
  by (induction token) (auto simp: write_hex_concat format_02x_def)

lemma nth_write_hex:
  "i < length token \<Longrightarrow> write_hex token ! (i * 2) = hex_digit (drop_bit 4 (token ! i))
     \<and> write_hex token ! (i * 2 + 1) = hex_digit (token ! i AND 15)"
proof (induction token arbitrary: i)
  case (Cons b token)
  then show ?case by (cases i) (auto simp: write_hex_concat format_02x_def)
qed simp

lemma from_hex_eq_Some_iff:
  "from_hex v = Some t \<longleftrightarrow> length v = 64 \<and> length t = 32 \<and> (\<forall>i<32. hex_byte v i = Some (t ! i))"
  by (auto simp: from_hex_def those_eq_Some_iff list_eq_iff_nth_eq)

lemma enumerate_all: "(\<forall>p\<in>set (List.enumerate 0 xs). snd p = f (fst p)) \<longleftrightarrow> (\<forall>i<length xs. xs ! i = f i)"
  by (force simp: set_conv_nth nth_enumerate_eq)

lemma matches_bearer_iff:
  "length t = 32 \<Longrightarrow> matches_bearer t v \<longleftrightarrow> length v = 64 \<and> (\<forall>i<32. t ! i = hex_byte_or_invalid v i)"
  by (simp add: matches_bearer_def split_def difference_zero_iff enumerate_all)

lemma hex_byte_or_invalid_valid: "hex_byte v i = Some b \<Longrightarrow> hex_byte_or_invalid v i = b"
  by (auto simp: hex_byte_def hex_byte_or_invalid_def hex_nibble_or_invalid_def bind_eq_Some_conv)

lemma hex_byte_write_hex: "i < length token \<Longrightarrow> hex_byte (write_hex token) i = Some (token ! i)"
  unfolding hex_byte_def using nth_write_hex [of i token]
  by (simp add: hex_nibble_digit high_nibble_less low_nibble_less join_nibbles del: One_nat_def)

definition is_hex :: "bytes \<Rightarrow> bool" where
  "is_hex v = list_all (\<lambda>b. hex_nibble b \<noteq> None) v"

text \<open>
  \<^bold>\<open>Tokens survive their hexadecimal form.\<close> A 32-byte token written as hex is 64 digits
  long, decodes to the token again, and is accepted as a bearer credential for that token and for no
  other.
\<close>

theorem token_hex_roundtrip:
  assumes "length token = LAN_TOKEN_BYTES" "length other = LAN_TOKEN_BYTES"
  shows "length (write_hex token) = LAN_TOKEN_HEX_LEN
    \<and> from_hex (write_hex token) = Some token
    \<and> matches_bearer other (write_hex token) = (other = token)"
  using assms
  by (auto simp: from_hex_eq_Some_iff matches_bearer_iff hex_byte_write_hex
      hex_byte_or_invalid_valid [OF hex_byte_write_hex] list_eq_iff_nth_eq)

theorem token_hex_roundtrip_witness:
  "from_hex (write_hex (replicate 32 0xab)) = Some (replicate 32 0xab)"
  using token_hex_roundtrip [of "replicate 32 0xab" "replicate 32 0xab"] by simp

text \<open>
  \<^bold>\<open>The constant-time comparison agrees with the decoder.\<close> On a credential made of hex
  digits, the comparison without early exits accepts exactly when the credential decodes to the
  token.
\<close>

theorem bearer_comparison_decodes:
  assumes "length token = LAN_TOKEN_BYTES" "is_hex credential"
  shows "matches_bearer token credential = (from_hex credential = Some token)"
proof -
  have digit: "hex_nibble (credential ! i) \<noteq> None" if "i < length credential" for i
    using assms(2) that by (simp add: is_hex_def list_all_length)
  have "hex_byte credential i = Some (hex_byte_or_invalid credential i)"
    if "length credential = 64" "i < 32" for i
    using that digit [of "i * 2"] digit [of "i * 2 + 1"]
    by (auto simp: hex_byte_def hex_byte_or_invalid_def hex_nibble_or_invalid_def split: option.splits)
  then show ?thesis using assms(1) by (auto simp: matches_bearer_iff from_hex_eq_Some_iff)
qed

theorem bearer_comparison_decodes_witness:
  "matches_bearer (replicate 32 0xab) (replicate 64 65) = (from_hex (replicate 64 65) = Some (replicate 32 0xab))"
  by (rule bearer_comparison_decodes) (simp, code_simp)

text \<open>
  \<^bold>\<open>Credentials that are no hex digits can match.\<close> The comparison reads an invalid digit as
  255, whose shifted low half is the high nibble 15 and which as a low digit sets all bits: for every
  credential of 64 bytes none of which is a hex digit, the token of 32 bytes 255 is accepted, while
  the decoder rejects the credential.
\<close>

theorem non_hex_credential_matches_all_ones_token:
  assumes "length credential = LAN_TOKEN_HEX_LEN" "list_all (\<lambda>b. hex_nibble b = None) credential"
  shows "matches_bearer (replicate 32 0xff) credential \<and> from_hex credential = None"
proof -
  have none: "hex_nibble (credential ! i) = None" if "i < 64" for i
    using assms that by (auto simp: list_all_length)
  have "hex_byte_or_invalid credential i = 0xff" if "i < 32" for i
    using that none [of "i * 2"] none [of "i * 2 + 1"]
    by (simp add: hex_byte_or_invalid_def hex_nibble_or_invalid_def)
  moreover have "hex_byte credential 0 = None" using none [of 0] by (simp add: hex_byte_def)
  ultimately have "matches_bearer (replicate 32 0xff) credential" "from_hex credential \<noteq> Some t" for t
    using assms(1) by (auto simp: matches_bearer_iff from_hex_eq_Some_iff intro!: exI [of _ 0])
  then show ?thesis by (cases "from_hex credential") auto
qed

theorem non_hex_credential_matches_all_ones_token_witness:
  "matches_bearer (replicate 32 0xff) (replicate 64 122) \<and> from_hex (replicate 64 122) = None"
  by (rule non_hex_credential_matches_all_ones_token) (simp, code_simp)

section \<open>The pairing window\<close>

record PairingWindow =
  pairing_code :: "bytes option"
  failed_attempts :: u8

definition PairingWindow_inactive :: PairingWindow where
  "PairingWindow_inactive = \<lparr>pairing_code = None, failed_attempts = 0\<rparr>"

definition leave_pairing :: "PairingWindow \<Rightarrow> PairingWindow" where
  "leave_pairing w = w\<lparr>pairing_code := None, failed_attempts := 0\<rparr>"

definition is_ascii_digit :: "u8 \<Rightarrow> bool" where
  "is_ascii_digit b = (48 \<le> b \<and> b \<le> 57)"

definition enter_pairing :: "PairingWindow \<Rightarrow> bytes \<Rightarrow> PairingWindow" where
  "enter_pairing w code =
     (if list_all is_ascii_digit code then w\<lparr>pairing_code := Some code, failed_attempts := 0\<rparr>
      else leave_pairing w)"

definition pairing_is_active :: "PairingWindow \<Rightarrow> bool" where
  "pairing_is_active w = (pairing_code w \<noteq> None)"

definition claim :: "PairingWindow \<Rightarrow> bytes \<Rightarrow> PairingWindow \<times> (LanAccessError + unit)" where
  "claim w submitted =
     (case pairing_code w of
        None \<Rightarrow> (w, Inl PairingInactive)
      | Some code \<Rightarrow>
          if failed_attempts w \<ge> LAN_PAIRING_MAX_FAILURES then (w, Inl PairingLocked)
          else if submitted = code then (w, Inr ())
          else let w = w\<lparr>failed_attempts := sat_add (failed_attempts w) 1\<rparr> in
               if failed_attempts w \<ge> LAN_PAIRING_MAX_FAILURES
               then (w\<lparr>pairing_code := None\<rparr>, Inl PairingLocked)
               else (w, Inl PairingCodeInvalid))"

text \<open>The answers to a sequence of claims.\<close>

fun claims :: "PairingWindow \<Rightarrow> bytes list \<Rightarrow> (LanAccessError + unit) list" where
  "claims w [] = []"
| "claims w (s # ss) = snd (claim w s) # claims (fst (claim w s)) ss"

lemma claims_inactive: "pairing_code w = None \<Longrightarrow> i < length ss \<Longrightarrow> claims w ss ! i = Inl PairingInactive"
proof (induction ss arbitrary: i)
  case (Cons s ss)
  then show ?case by (cases i) (auto simp: claim_def)
qed simp

lemma unat_failure_count:
  "f < 5 \<Longrightarrow> unat (sat_add f (1 :: u8)) = unat f + 1"
  by (simp add: unat_sat_add word_less_nat_alt)

definition wrong_before :: "bytes \<Rightarrow> bytes list \<Rightarrow> nat \<Rightarrow> nat" where
  "wrong_before code ss i = length (filter (\<lambda>s. s \<noteq> code) (take i ss))"

definition claim_answer :: "nat \<Rightarrow> bool \<Rightarrow> LanAccessError + unit" where
  "claim_answer wrong correct =
     (if 5 \<le> wrong then Inl PairingInactive
      else if correct then Inr ()
      else if wrong = 4 then Inl PairingLocked
      else Inl PairingCodeInvalid)"

lemma claims_active:
  "pairing_code w = Some code \<Longrightarrow> failed_attempts w < 5 \<Longrightarrow> i < length ss \<Longrightarrow>
     claims w ss ! i = claim_answer (unat (failed_attempts w) + wrong_before code ss i) (ss ! i = code)"
proof (induction ss arbitrary: i w)
  case (Cons s ss)
  note f = unat_failure_count [OF Cons.prems(2)]
  have small: "\<not> 5 \<le> failed_attempts w" using Cons.prems(2) by simp
  have less: "unat (failed_attempts w) < 5" using Cons.prems(2) by (simp add: word_less_nat_alt)
  show ?case
  proof (cases "s = code \<or> unat (failed_attempts w) < 4")
    case True
    then show ?thesis
      using Cons.prems Cons.IH [of "fst (claim w s)" "i - 1"] less small f
      by (cases i) (auto simp: claim_def Let_def wrong_before_def claim_answer_def word_order_nat)
  next
    case False
    then have "pairing_code (fst (claim w s)) = None" "snd (claim w s) = Inl PairingLocked"
      using Cons.prems f less by (auto simp: claim_def Let_def word_order_nat)
    then show ?thesis
      using False Cons.prems claims_inactive [of "fst (claim w s)" "i - 1" ss] less
      by (cases i) (auto simp: wrong_before_def claim_answer_def)
  qed
qed simp

text \<open>
  \<^bold>\<open>Five wrong codes close the window.\<close> After a digit code is entered, the answer to every
  claim of any sequence of claims is determined by how many wrong codes came before it: with fewer
  than five the right code is accepted, however often, and a wrong one refused, the fifth wrong code
  reports the lock, and from then on even the right code finds the window closed.
\<close>

theorem pairing_window_admits_five_failures:
  assumes "list_all is_ascii_digit code" "i < length submissions"
  shows "claims (enter_pairing w code) submissions ! i =
           claim_answer (wrong_before code submissions i) (submissions ! i = code)"
  using claims_active [of "enter_pairing w code" code i submissions] assms
  by (simp add: enter_pairing_def)

theorem pairing_window_admits_five_failures_witness:
  "claims (enter_pairing PairingWindow_inactive [49, 50, 51, 52])
     ([49, 50, 51, 52] # replicate 5 [48, 48, 48, 48] @ [[49, 50, 51, 52]]) ! 6 = Inl PairingInactive"
proof -
  let ?ss = "[49, 50, 51, 52] # replicate 5 [48, 48, 48, 48] @ [[49, 50, 51, 52 :: u8]]"
  have "wrong_before [49, 50, 51, 52] ?ss 6 = 5" by code_simp
  then show ?thesis
    using pairing_window_admits_five_failures [of "[49, 50, 51, 52]" 6 ?ss PairingWindow_inactive]
    by (simp add: is_ascii_digit_def claim_answer_def)
qed

section \<open>The control lease\<close>

record LanLease =
  lease_id :: bytes
  expires_at_ms :: u64

record LanLeaseState =
  lease :: "LanLease option"

definition constant_time_bytes_equal :: "bytes \<Rightarrow> bytes \<Rightarrow> bool" where
  "constant_time_bytes_equal left right =
     (if length left \<noteq> length right then False
      else fold (\<lambda>(l, r) difference. difference OR (l XOR r)) (zip left right) 0 = 0)"

lemma constant_time_bytes_equal_iff [simp]: "constant_time_bytes_equal left right \<longleftrightarrow> left = right"
proof -
  have "(\<forall>p\<in>set (zip left right). fst p = snd p) \<longleftrightarrow> left = right" if "length left = length right"
    using that by (induction rule: list_induct2) auto
  then show ?thesis by (auto simp: constant_time_bytes_equal_def split_def difference_zero_iff)
qed

definition expire :: "LanLeaseState \<Rightarrow> u64 \<Rightarrow> LanLeaseState" where
  "expire st now_ms =
     (case lease st of
        Some l \<Rightarrow> if expires_at_ms l \<le> now_ms then st\<lparr>lease := None\<rparr> else st
      | None \<Rightarrow> st)"

definition create_lease :: "LanLeaseState \<Rightarrow> u64 \<Rightarrow> bytes \<Rightarrow> LanLeaseState \<times> (LanAccessError + LanLease)" where
  "create_lease st now_ms who =
     (let st = expire st now_ms in
      if lease st \<noteq> None then (st, Inl LeaseBusy)
      else let l = \<lparr>lease_id = who, expires_at_ms = sat_add now_ms LAN_LEASE_TTL_MS\<rparr>
           in (st\<lparr>lease := Some l\<rparr>, Inr l))"

definition heartbeat :: "LanLeaseState \<Rightarrow> u64 \<Rightarrow> bytes \<Rightarrow> LanLeaseState \<times> (LanAccessError + LanLease)" where
  "heartbeat st now_ms who =
     (let st = expire st now_ms in
      case lease st of
        None \<Rightarrow> (st, Inl LeaseExpired)
      | Some l \<Rightarrow>
          if \<not> constant_time_bytes_equal (lease_id l) who then (st, Inl LeaseRequired)
          else let l = l\<lparr>expires_at_ms := sat_add now_ms LAN_LEASE_TTL_MS\<rparr>
               in (st\<lparr>lease := Some l\<rparr>, Inr l))"

definition require_lease :: "LanLeaseState \<Rightarrow> u64 \<Rightarrow> bytes \<Rightarrow> LanLeaseState \<times> (LanAccessError + unit)" where
  "require_lease st now_ms who =
     (let st = expire st now_ms in
      case lease st of
        None \<Rightarrow> (st, Inl LeaseRequired)
      | Some l \<Rightarrow>
          if constant_time_bytes_equal (lease_id l) who then (st, Inr ()) else (st, Inl LeaseRequired))"

definition release_lease :: "LanLeaseState \<Rightarrow> bytes \<Rightarrow> LanLeaseState \<times> (LanAccessError + unit)" where
  "release_lease st who =
     (case lease st of
        None \<Rightarrow> (st, Inl LeaseExpired)
      | Some l \<Rightarrow>
          if \<not> constant_time_bytes_equal (lease_id l) who then (st, Inl LeaseRequired)
          else (st\<lparr>lease := None\<rparr>, Inr ()))"

text \<open>A client's call, and whether it is answered without an error.\<close>

datatype LeaseCall =
    Create (call_ms: u64) (caller: bytes)
  | Heartbeat (call_ms: u64) (caller: bytes)
  | Require (call_ms: u64) (caller: bytes)
  | Release (caller: bytes)

fun lease_call :: "LanLeaseState \<Rightarrow> LeaseCall \<Rightarrow> LanLeaseState \<times> bool" where
  "lease_call st (Create t who) = (case create_lease st t who of (st, r) \<Rightarrow> (st, \<not> isl r))"
| "lease_call st (Heartbeat t who) = (case heartbeat st t who of (st, r) \<Rightarrow> (st, \<not> isl r))"
| "lease_call st (Require t who) = (case require_lease st t who of (st, r) \<Rightarrow> (st, \<not> isl r))"
| "lease_call st (Release who) = (case release_lease st who of (st, r) \<Rightarrow> (st, \<not> isl r))"

definition lease_step :: "LanLeaseState \<Rightarrow> LeaseCall \<Rightarrow> LanLeaseState" where
  "lease_step st c = fst (lease_call st c)"

definition answered :: "LanLeaseState \<Rightarrow> LeaseCall \<Rightarrow> bool" where
  "answered st c = snd (lease_call st c)"

fun is_grant :: "LeaseCall \<Rightarrow> bool" where
  "is_grant (Create t who) = True"
| "is_grant (Heartbeat t who) = True"
| "is_grant c = False"

text \<open>Abstractly a lease state is who holds control until when.\<close>

definition held :: "LanLeaseState \<Rightarrow> u64 \<Rightarrow> bytes option" where
  "held st now = (case lease st of Some l \<Rightarrow> if now < expires_at_ms l then Some (lease_id l) else None
                                 | None \<Rightarrow> None)"

lemmas lease_defs = lease_step_def answered_def create_lease_def heartbeat_def require_lease_def
  release_lease_def expire_def Let_def

text \<open>
  \<^bold>\<open>What a lease call does (C31).\<close> In terms of who holds control at the time of the call: creation
  succeeds exactly when nobody does, a heartbeat and a permission check exactly when the caller
  does; a successful creation or heartbeat makes the caller the holder for 30 s, and no other
  answered call, and no refused one, changes who holds control at that or any later time.
\<close>

theorem lease_calls_refine_ownership:
  "answered st (Create t who) = (held st t = None)
   \<and> answered st (Heartbeat t who) = (held st t = Some who)
   \<and> answered st (Require t who) = (held st t = Some who)
   \<and> held (lease_step st (Create t who)) u =
       (if held st t = None then (if u < sat_add t LAN_LEASE_TTL_MS then Some who else None)
        else held st u)
   \<and> held (lease_step st (Heartbeat t who)) (max t u) =
       (if held st t = Some who then (if max t u < sat_add t LAN_LEASE_TTL_MS then Some who else None)
        else held st (max t u))
   \<and> held (lease_step st (Require t who)) (max t u) = held st (max t u)
   \<and> held (lease_step st (Release who)) u =
       (if held st u = Some who then None else held st u)"
  by (cases "lease st") (auto simp: held_def lease_defs max_def)

lemma sat_add_mono: "a \<le> b \<Longrightarrow> sat_add a c \<le> sat_add b (c :: 'a::len word)"
  by (simp add: word_le_nat_alt unat_sat_add min_def)

lemma granted_lease:
  "answered st c \<Longrightarrow> is_grant c \<Longrightarrow>
     lease (lease_step st c) = Some \<lparr>lease_id = caller c, expires_at_ms = sat_add (call_ms c) LAN_LEASE_TTL_MS\<rparr>"
  by (cases c) (auto simp: lease_defs split: option.splits if_splits)

fun within :: "u64 \<Rightarrow> LeaseCall \<Rightarrow> bool" where
  "within t (Release who) = True"
| "within t c = (t \<le> call_ms c \<and> call_ms c < sat_add t LAN_LEASE_TTL_MS)"

text \<open>The lease is held by \<open>who\<close> at least until a deadline.\<close>

definition holds_until :: "bytes \<Rightarrow> u64 \<Rightarrow> LanLeaseState \<Rightarrow> bool" where
  "holds_until who deadline st = (\<exists>l. lease st = Some l \<and> lease_id l = who \<and> deadline \<le> expires_at_ms l)"

lemma live_lease: "lease st = Some l \<Longrightarrow> u < expires_at_ms l \<Longrightarrow> expire st u = st"
  by (auto simp: expire_def)

lemma holder_keeps_lease:
  assumes "holds_until who (sat_add t LAN_LEASE_TTL_MS) st" "within t c" "c \<noteq> Release who"
  shows "holds_until who (sat_add t LAN_LEASE_TTL_MS) (lease_step st c)"
proof -
  obtain l where l: "lease st = Some l" "lease_id l = who" "sat_add t LAN_LEASE_TTL_MS \<le> expires_at_ms l"
    using assms(1) by (auto simp: holds_until_def)
  have "expire st u = st" if "u < sat_add t LAN_LEASE_TTL_MS" for u
    using that live_lease [OF l(1)] l(3) by force
  then show ?thesis
    using assms(2,3) l sat_add_mono [of t "call_ms c" LAN_LEASE_TTL_MS]
    by (cases c) (auto simp: holds_until_def lease_step_def create_lease_def heartbeat_def require_lease_def
        release_lease_def Let_def)
qed

lemma holder_answers:
  assumes "holds_until who (sat_add t LAN_LEASE_TTL_MS) st" "within t c"
  shows "answered st c \<longleftrightarrow> caller c = who \<and> (\<forall>u. c \<noteq> Create u who)"
proof -
  obtain l where l: "lease st = Some l" "lease_id l = who" "sat_add t LAN_LEASE_TTL_MS \<le> expires_at_ms l"
    using assms(1) by (auto simp: holds_until_def)
  then have "expire st u = st" if "u < sat_add t LAN_LEASE_TTL_MS" for u
    using that live_lease [OF l(1)] by force
  then show ?thesis
    using assms(2) l(1,2)
    by (cases c) (auto simp: answered_def create_lease_def heartbeat_def require_lease_def release_lease_def Let_def)
qed

lemma holder_run:
  "holds_until who (sat_add t LAN_LEASE_TTL_MS) st \<Longrightarrow>
     list_all (\<lambda>c. within t c \<and> c \<noteq> Release who) cs \<Longrightarrow>
     holds_until who (sat_add t LAN_LEASE_TTL_MS) (run lease_step st cs)"
  by (induction cs arbitrary: st) (auto simp del: LAN_LEASE_TTL_MS_def simp: holder_keeps_lease)

text \<open>
  \<^bold>\<open>Control is exclusive (C8).\<close> Once a creation or heartbeat is answered at time \<open>t\<close>, then
  throughout the 30 s that follow, whatever calls arrive in whatever number, and as long as the holder
  does not release: every call of another client is refused, and every heartbeat and permission check
  of the holder is answered.
\<close>

theorem lease_is_exclusive:
  assumes "answered st g" "is_grant g"
    and "list_all (\<lambda>c. within (call_ms g) c \<and> c \<noteq> Release (caller g)) calls"
    and "within (call_ms g) c"
  shows "answered (run lease_step (lease_step st g) calls) c =
           (caller c = caller g \<and> (\<forall>u. c \<noteq> Create u (caller g)))"
proof -
  have "holds_until (caller g) (sat_add (call_ms g) LAN_LEASE_TTL_MS) (lease_step st g)"
    using granted_lease [OF assms(1,2)] by (simp add: holds_until_def)
  from holder_answers [OF holder_run [OF this assms(3)] assms(4)] show ?thesis .
qed

theorem lease_is_exclusive_witness:
  "\<not> answered (run lease_step (lease_step \<lparr>lease = None\<rparr> (Create 100 [1]))
      [Heartbeat 200 [2], Heartbeat 300 [1], Release [2]]) (Create 400 [2])"
proof -
  have grant: "answered \<lparr>lease = None\<rparr> (Create 100 [1])" "is_grant (Create 100 [1])" by code_simp+
  have calls: "list_all (\<lambda>c. within (call_ms (Create 100 [1])) c \<and> c \<noteq> Release (caller (Create 100 [1])))
      [Heartbeat 200 [2], Heartbeat 300 [1], Release [2]]"
    "within (call_ms (Create 100 [1])) (Create 400 [2])" by code_simp+
  show ?thesis unfolding lease_is_exclusive [OF grant calls] by simp
qed

text \<open>Where the lease of a state comes from: the last answered creation or heartbeat, after which
  nothing but permission checks of the same client was answered.\<close>

abbreviation lease_run :: "LeaseCall list \<Rightarrow> LanLeaseState" where
  "lease_run calls \<equiv> run lease_step \<lparr>lease = None\<rparr> calls"

definition granted_by :: "LanLease \<Rightarrow> LeaseCall list \<Rightarrow> LeaseCall \<Rightarrow> LeaseCall list \<Rightarrow> bool" where
  "granted_by l pre g post \<longleftrightarrow>
     is_grant g \<and> answered (lease_run pre) g
     \<and> l = \<lparr>lease_id = caller g, expires_at_ms = sat_add (call_ms g) LAN_LEASE_TTL_MS\<rparr>
     \<and> (\<forall>p1 d p2. post = p1 @ d # p2 \<longrightarrow> answered (lease_run (pre @ g # p1)) d \<longrightarrow>
          (\<exists>t. d = Require t (caller g)))"

lemma lease_step_origin:
  assumes "lease (lease_step st c) = Some l"
  shows "(is_grant c \<and> answered st c
          \<and> l = \<lparr>lease_id = caller c, expires_at_ms = sat_add (call_ms c) LAN_LEASE_TTL_MS\<rparr>)
      \<or> (lease st = Some l \<and> (answered st c \<longrightarrow> (\<exists>t. c = Require t (lease_id l))))"
  using assms by (cases c; cases "lease st") (auto simp: lease_defs split: if_splits)

lemma lease_origin:
  "lease (lease_run calls) = Some l \<Longrightarrow> \<exists>pre g post. calls = pre @ g # post \<and> granted_by l pre g post"
proof (induction calls rule: rev_induct)
  case (snoc c calls)
  from snoc.prems have "lease (lease_step (lease_run calls) c) = Some l" by simp
  from lease_step_origin [OF this] show ?case
  proof
    assume "is_grant c \<and> answered (lease_run calls) c
      \<and> l = \<lparr>lease_id = caller c, expires_at_ms = sat_add (call_ms c) LAN_LEASE_TTL_MS\<rparr>"
    then have "granted_by l calls c []" by (simp add: granted_by_def)
    then show ?thesis by blast
  next
    assume c: "lease (lease_run calls) = Some l
      \<and> (answered (lease_run calls) c \<longrightarrow> (\<exists>t. c = Require t (lease_id l)))"
    then obtain pre g post where split: "calls = pre @ g # post" and g: "granted_by l pre g post"
      using snoc.IH by blast
    have "granted_by l pre g (post @ [c])"
      unfolding granted_by_def
    proof (intro conjI allI impI)
      fix p1 d p2
      assume eq: "post @ [c] = p1 @ d # p2" and ans: "answered (lease_run (pre @ g # p1)) d"
      show "\<exists>t. d = Require t (caller g)"
      proof (cases p2 rule: rev_cases)
        case Nil
        then show ?thesis using eq ans c g split by (auto simp: granted_by_def)
      next
        case (snoc p e)
        then have "post = p1 @ d # p" using eq by simp
        then show ?thesis using g ans by (auto simp: granted_by_def)
      qed
    qed (use g in \<open>auto simp: granted_by_def\<close>)
    then show ?thesis using split by force
  qed
qed simp

text \<open>
  \<^bold>\<open>Permission has a recent grant behind it.\<close> Start with no lease and let any calls happen.
  If a permission check is answered, some earlier creation or heartbeat by the same client was
  answered less than 30 s before the check, and since then no creation, heartbeat or release of
  anybody was.
\<close>

theorem permission_has_recent_grant:
  assumes "answered (run lease_step \<lparr>lease = None\<rparr> calls) (Require now who)"
  shows "\<exists>pre g post. calls = pre @ g # post \<and> is_grant g \<and> caller g = who
    \<and> answered (run lease_step \<lparr>lease = None\<rparr> pre) g
    \<and> now < sat_add (call_ms g) LAN_LEASE_TTL_MS
    \<and> (\<forall>p1 d p2. post = p1 @ d # p2 \<longrightarrow> answered (run lease_step \<lparr>lease = None\<rparr> (pre @ g # p1)) d \<longrightarrow>
         (\<exists>t. d = Require t who))"
proof -
  obtain l where l: "lease (lease_run calls) = Some l" "now < expires_at_ms l" "lease_id l = who"
    using assms by (auto simp: lease_defs split: option.splits if_splits)
  obtain pre g post where split: "calls = pre @ g # post" and g: "granted_by l pre g post"
    using lease_origin [OF l(1)] by blast
  have "caller g = who" "now < sat_add (call_ms g) LAN_LEASE_TTL_MS"
    using g l(2,3) by (auto simp: granted_by_def)
  then show ?thesis using split g unfolding granted_by_def by blast
qed

theorem permission_has_recent_grant_witness:
  "\<exists>pre g post. [Create 100 [1], Create 150 [2], Require 160 [1]] = pre @ g # post
     \<and> is_grant g \<and> caller g = [1] \<and> 200 < sat_add (call_ms g) LAN_LEASE_TTL_MS"
proof -
  have "answered (run lease_step \<lparr>lease = None\<rparr> [Create 100 [1], Create 150 [2], Require 160 [1]]) (Require 200 [1])"
    by code_simp
  from permission_has_recent_grant [OF this] show ?thesis by blast
qed

section \<open>Endpoints and origins\<close>

datatype LanEndpoint =
    Health | Pairing | PairingClaim | LeaseEndpoint | Identity | Network | Status | Events | Runtime
  | Calibration | CalibrationJob | ThermalPlantRun | ThermalTuning | HeaterCurve | HeaterCurveSave
  | ThermalProfile

datatype EndpointPermission = Public | TokenPermission | LeasePermission

fun permission :: "LanEndpoint \<Rightarrow> EndpointPermission" where
  "permission Health = Public"
| "permission Pairing = Public"
| "permission PairingClaim = Public"
| "permission Identity = TokenPermission"
| "permission Network = TokenPermission"
| "permission Status = TokenPermission"
| "permission Events = TokenPermission"
| "permission LeaseEndpoint = LeasePermission"
| "permission Runtime = LeasePermission"
| "permission Calibration = LeasePermission"
| "permission CalibrationJob = LeasePermission"
| "permission ThermalPlantRun = LeasePermission"
| "permission ThermalTuning = LeasePermission"
| "permission HeaterCurve = LeasePermission"
| "permission HeaterCurveSave = LeasePermission"
| "permission ThermalProfile = LeasePermission"

text \<open>\<open>str::trim\<close> removes Unicode white space (the property \<open>White_Space\<close>) on both sides.\<close>

definition is_white_space :: "nat \<Rightarrow> bool" where
  "is_white_space c = (9 \<le> c \<and> c \<le> 13 \<or> c = 32 \<or> c = 0x85 \<or> c = 0xa0 \<or> c = 0x1680
     \<or> 0x2000 \<le> c \<and> c \<le> 0x200a \<or> c = 0x2028 \<or> c = 0x2029 \<or> c = 0x202f \<or> c = 0x205f \<or> c = 0x3000)"

definition trim :: "chars \<Rightarrow> chars" where
  "trim s = rev (dropWhile is_white_space (rev (dropWhile is_white_space s)))"

definition starts_with :: "chars \<Rightarrow> chars \<Rightarrow> bool" where
  "starts_with s p = (take (length p) s = p)"

definition cors_allow_origin :: "chars option \<Rightarrow> chars option" where
  "cors_allow_origin origin =
     Option.bind origin (\<lambda>origin.
       let origin = trim origin in
       if origin = PROD_ALLOWED_ORIGIN
          \<or> origin = chars_of ''http://localhost''
          \<or> starts_with origin (chars_of ''http://localhost:'')
          \<or> origin = chars_of ''http://127.0.0.1''
          \<or> starts_with origin (chars_of ''http://127.0.0.1:'')
       then Some origin else None)"

record PrivateNetworkPreflight =
  allow_origin :: bool
  allow_private_network :: bool

definition private_network_preflight :: "chars option \<Rightarrow> bool \<Rightarrow> PrivateNetworkPreflight" where
  "private_network_preflight origin requested_private_network =
     (let allowed = cors_allow_origin origin \<noteq> None
      in \<lparr>allow_origin = allowed, allow_private_network = allowed \<and> requested_private_network\<rparr>)"

text \<open>The scheme and host of a serialised origin: what precedes the colon and what lies between the
  two slashes and the port.\<close>

definition origin_scheme :: "chars \<Rightarrow> chars" where
  "origin_scheme s = takeWhile (\<lambda>c. c \<noteq> 58) s"

definition origin_host :: "chars \<Rightarrow> chars" where
  "origin_host s = takeWhile (\<lambda>c. c \<noteq> 58 \<and> c \<noteq> 47) (drop (length (origin_scheme s) + 3) s)"

definition trusted_host :: "chars \<Rightarrow> bool" where
  "trusted_host s =
     (origin_scheme s = chars_of ''https'' \<and> origin_host s = chars_of ''flux-purr.ivanli.cc''
      \<or> origin_scheme s = chars_of ''http''
        \<and> origin_host s \<in> {chars_of ''localhost'', chars_of ''127.0.0.1''})"

lemma starts_with_iff: "starts_with s p \<longleftrightarrow> (\<exists>r. s = p @ r)"
  by (metis append_eq_conv_conj append_take_drop_id starts_with_def)

lemma cors_allow_origin_cases:
  assumes "cors_allow_origin origin = Some s"
  shows "(\<exists>o'. origin = Some o' \<and> s = trim o') \<and>
    (s = PROD_ALLOWED_ORIGIN
     \<or> (\<exists>r. s = chars_of ''http://localhost'' @ r \<and> (r = [] \<or> hd r = 58))
     \<or> (\<exists>r. s = chars_of ''http://127.0.0.1'' @ r \<and> (r = [] \<or> hd r = 58)))"
  using assms
  by (auto simp: cors_allow_origin_def bind_eq_Some_conv Let_def starts_with_iff chars_of_def split: if_splits)

lemma trusted_host_literals:
  "trusted_host PROD_ALLOWED_ORIGIN"
  "r = [] \<or> hd r = 58 \<Longrightarrow> trusted_host (chars_of ''http://localhost'' @ r)"
  "r = [] \<or> hd r = 58 \<Longrightarrow> trusted_host (chars_of ''http://127.0.0.1'' @ r)"
  by (cases r; simp add: trusted_host_def origin_scheme_def origin_host_def chars_of_def PROD_ALLOWED_ORIGIN_def)+

text \<open>
  \<^bold>\<open>Only trusted hosts pass.\<close> An origin the device echoes back is the trimmed origin it was
  sent, and names the production site over https, or the local host by name or address over http, with
  any port. A private-network grant is given only to such an origin.
\<close>

theorem only_trusted_origins_are_allowed:
  assumes "allow_origin (private_network_preflight origin requested)
           \<or> allow_private_network (private_network_preflight origin requested)"
  shows "\<exists>sent. origin = Some sent \<and> cors_allow_origin origin = Some (trim sent) \<and> trusted_host (trim sent)"
proof -
  from assms obtain s where s: "cors_allow_origin origin = Some s"
    by (auto simp: private_network_preflight_def Let_def)
  note cases = cors_allow_origin_cases [OF s]
  obtain sent where "origin = Some sent" "s = trim sent" using cases by blast
  moreover have "trusted_host s"
    using conjunct2 [OF cases] by (elim disjE exE conjE) (simp_all add: trusted_host_literals trusted_host_literals(2,3) [of "[]", simplified])
  ultimately show ?thesis using s by simp
qed

theorem only_trusted_origins_are_allowed_witness:
  "trusted_host (trim (chars_of '' http://localhost:5173''))"
proof -
  have "allow_origin (private_network_preflight (Some (chars_of '' http://localhost:5173'')) True)"
    by (simp add: private_network_preflight_def cors_allow_origin_def trim_def is_white_space_def
        chars_of_def starts_with_def)
  then show ?thesis
    using only_trusted_origins_are_allowed [of "Some (chars_of '' http://localhost:5173'')" True] by blast
qed

end
