(* ===== verification/Status_Light.thy ===== *)
theory Status_Light
  imports Prelude
begin

text \<open>
  The front-panel RGB status light, \<open>src/firmware/src/status_light.rs\<close>: the priority of the
  states, the pattern each state shows over time, and what an observer can conclude from the colour.
\<close>

section \<open>Data\<close>

record RgbChannels =
  red :: bool
  green :: bool
  blue :: bool

definition RgbChannels_new :: "bool \<Rightarrow> bool \<Rightarrow> bool \<Rightarrow> RgbChannels" where
  "RgbChannels_new r g b = \<lparr>red = r, green = g, blue = b\<rparr>"

definition OFF :: RgbChannels where "OFF = RgbChannels_new False False False"
definition RED :: RgbChannels where "RED = RgbChannels_new True False False"
definition BLUE :: RgbChannels where "BLUE = RgbChannels_new False False True"
definition CYAN :: RgbChannels where "CYAN = RgbChannels_new False True True"
definition MAGENTA :: RgbChannels where "MAGENTA = RgbChannels_new True False True"
definition AMBER :: RgbChannels where "AMBER = RgbChannels_new True True False"
definition WHITE :: RgbChannels where "WHITE = RgbChannels_new True True True"

lemmas colours = OFF_def RED_def BLUE_def CYAN_def MAGENTA_def AMBER_def WHITE_def RgbChannels_new_def

datatype StatusLightState =
    Booting
  | LightReady
  | Heating
  | Cooling
  | CalibrationLight
  | HeaterInterlocked
  | CoolingDisabledOvertemp
  | SensorFault
  | ThermalRunawayAttentionPending
  | ThermalRunaway

record StatusLightInputs =
  booting :: bool
  thermal_runaway :: bool
  thermal_runaway_attention_pending :: bool
  sensor_fault :: bool
  cooling_disabled_overtemp :: bool
  heater_interlocked :: bool
  calibration_active :: bool
  heater_enabled :: bool
  fan_running :: bool

section \<open>Selection and patterns\<close>

definition select_status_light_state :: "StatusLightInputs \<Rightarrow> StatusLightState" where
  "select_status_light_state inputs =
     (if thermal_runaway inputs then ThermalRunaway
      else if thermal_runaway_attention_pending inputs then ThermalRunawayAttentionPending
      else if sensor_fault inputs then SensorFault
      else if cooling_disabled_overtemp inputs then CoolingDisabledOvertemp
      else if heater_interlocked inputs then HeaterInterlocked
      else if calibration_active inputs then CalibrationLight
      else if booting inputs then Booting
      else if heater_enabled inputs then Heating
      else if fan_running inputs then Cooling
      else LightReady)"

definition periodic_on :: "u64 \<Rightarrow> u64 \<Rightarrow> u64 \<Rightarrow> bool" where
  "periodic_on elapsed_ms period_ms on_ms = (elapsed_ms mod period_ms < on_ms)"

definition burst_output :: "u64 \<Rightarrow> u64 \<Rightarrow> u64 \<Rightarrow> u64 \<Rightarrow> u64 \<Rightarrow> RgbChannels \<Rightarrow> RgbChannels" where
  "burst_output elapsed_ms period_ms flashes on_ms gap_ms colour =
     (let phase_ms = elapsed_ms mod period_ms;
          flash_window_ms = on_ms + gap_ms
      in if phase_ms < flashes * flash_window_ms \<and> phase_ms mod flash_window_ms < on_ms then colour else OFF)"

fun status_light_output :: "StatusLightState \<Rightarrow> u64 \<Rightarrow> RgbChannels" where
  "status_light_output Booting t = (if periodic_on t 700 350 then WHITE else OFF)"
| "status_light_output LightReady t = CYAN"
| "status_light_output Heating t = AMBER"
| "status_light_output Cooling t = (if periodic_on t 1400 350 then BLUE else OFF)"
| "status_light_output CalibrationLight t = (if periodic_on t 1000 500 then CYAN else OFF)"
| "status_light_output HeaterInterlocked t = (if periodic_on t 1000 400 then AMBER else OFF)"
| "status_light_output CoolingDisabledOvertemp t = burst_output t 1400 3 160 120 AMBER"
| "status_light_output SensorFault t = burst_output t 1200 2 180 120 MAGENTA"
| "status_light_output ThermalRunawayAttentionPending t = (if periodic_on t 1000 160 then RED else OFF)"
| "status_light_output ThermalRunaway t = (if periodic_on t 250 125 then RED else OFF)"

section \<open>What the light tells\<close>

text \<open>The conditions in order of urgency, each with the state that shows it.\<close>

definition conditions :: "StatusLightInputs \<Rightarrow> (bool \<times> StatusLightState) list" where
  "conditions i =
     [(thermal_runaway i, ThermalRunaway), (thermal_runaway_attention_pending i, ThermalRunawayAttentionPending),
      (sensor_fault i, SensorFault), (cooling_disabled_overtemp i, CoolingDisabledOvertemp),
      (heater_interlocked i, HeaterInterlocked), (calibration_active i, CalibrationLight),
      (booting i, Booting), (heater_enabled i, Heating), (fan_running i, Cooling), (True, LightReady)]"

fun lit :: "StatusLightState \<Rightarrow> RgbChannels" where
  "lit Booting = WHITE"
| "lit LightReady = CYAN"
| "lit Heating = AMBER"
| "lit Cooling = BLUE"
| "lit CalibrationLight = CYAN"
| "lit HeaterInterlocked = AMBER"
| "lit CoolingDisabledOvertemp = AMBER"
| "lit SensorFault = MAGENTA"
| "lit ThermalRunawayAttentionPending = RED"
| "lit ThermalRunaway = RED"

lemma output_lit_or_off: "status_light_output s t = lit s \<or> status_light_output s t = OFF"
  by (cases s) (simp_all add: burst_output_def Let_def)

lemma output_at_zero: "status_light_output s 0 = lit s"
  by (cases s) (simp_all add: burst_output_def periodic_on_def Let_def)

lemma select_first_condition:
  "select_status_light_state i = snd (hd (dropWhile (\<lambda>(c, s). \<not> c) (conditions i)))"
  by (simp add: select_status_light_state_def conditions_def)

text \<open>
  \<^bold>\<open>The light never lies.\<close> At every time the light is either off or shows the colour of the first
  condition, in order of urgency, that holds. It is never pure green, which is reserved for the ROM
  download mode; red alone means a thermal runaway or its pending acknowledgement, and magenta a sensor
  fault, and no more urgent condition then holds.
\<close>

theorem light_shows_most_urgent_condition:
  "let out = status_light_output (select_status_light_state i) t;
       urgent = snd (hd (dropWhile (\<lambda>(c, s). \<not> c) (conditions i)))
   in out \<in> {OFF, lit urgent} \<and> out \<noteq> \<lparr>red = False, green = True, blue = False\<rparr>
      \<and> (out \<noteq> RED \<or> thermal_runaway i \<or> thermal_runaway_attention_pending i)
      \<and> (out \<noteq> MAGENTA
          \<or> sensor_fault i \<and> \<not> thermal_runaway i \<and> \<not> thermal_runaway_attention_pending i)"
proof -
  let ?s = "select_status_light_state i"
  have out: "status_light_output ?s t \<in> {OFF, lit ?s}" using output_lit_or_off [of ?s t] by auto
  have "lit s \<noteq> \<lparr>red = False, green = True, blue = False\<rparr>" for s by (cases s) (simp_all add: colours)
  moreover have "lit s = RED \<longleftrightarrow> s = ThermalRunaway \<or> s = ThermalRunawayAttentionPending" for s
    by (cases s) (simp_all add: colours)
  moreover have "lit s = MAGENTA \<longleftrightarrow> s = SensorFault" for s by (cases s) (simp_all add: colours)
  moreover have "OFF \<noteq> \<lparr>red = False, green = True, blue = False\<rparr>" "OFF \<noteq> RED" "OFF \<noteq> MAGENTA" by (simp_all add: colours)
  moreover have "?s = ThermalRunaway \<Longrightarrow> thermal_runaway i"
    "?s = ThermalRunawayAttentionPending \<Longrightarrow> thermal_runaway_attention_pending i"
    "?s = SensorFault \<Longrightarrow> sensor_fault i \<and> \<not> thermal_runaway i \<and> \<not> thermal_runaway_attention_pending i"
    by (simp_all add: select_status_light_state_def split: if_split_asm)
  ultimately show ?thesis
    using out unfolding select_first_condition [symmetric] Let_def by (elim insertE emptyE) (simp, simp, blast)
qed

theorem light_shows_most_urgent_condition_witness:
  "status_light_output (select_status_light_state
     \<lparr>booting = True, thermal_runaway = False, thermal_runaway_attention_pending = True, sensor_fault = True,
      cooling_disabled_overtemp = False, heater_interlocked = False, calibration_active = False,
      heater_enabled = True, fan_running = False\<rparr>) 2100 \<in> {OFF, RED}"
  using light_shows_most_urgent_condition [of
     "\<lparr>booting = True, thermal_runaway = False, thermal_runaway_attention_pending = True, sensor_fault = True,
      cooling_disabled_overtemp = False, heater_interlocked = False, calibration_active = False,
      heater_enabled = True, fan_running = False\<rparr>" 2100]
  unfolding Let_def by (simp add: conditions_def)

end
