(* ===== verification/Heater_Supply.thy ===== *)
theory Heater_Supply
  imports Prelude
begin

text \<open>
  The measured supply boundary of the heater, \<open>src/firmware/src/heater_supply.rs\<close>: which observed
  operating points a calibrated source supports, the lookup that authorises a voltage request for the
  live temperature, retention of observations, and the equilibrium window of the scan.

  Temperatures in hundredths of a degree are \<open>int\<close>: the code widens them before it subtracts. The
  projection from an RTD reading to a temperature is an argument of the lookups, as in the code. Slicing
  past the point array is the value \<open>Panic\<close>.
\<close>

section \<open>Data\<close>

definition MAX_BOUNDARY_POINTS :: nat where [simp]: "MAX_BOUNDARY_POINTS = 41"
definition MIN_HEATED_CURRENT_MA :: u16 where [simp]: "MIN_HEATED_CURRENT_MA = 2000"
definition BOUNDARY_FORMAT_VERSION :: u8 where [simp]: "BOUNDARY_FORMAT_VERSION = 6"
definition BOUNDARY_POINT_BYTES :: nat where [simp]: "BOUNDARY_POINT_BYTES = 11"
definition BOUNDARY_HEADER_BYTES :: nat where [simp]: "BOUNDARY_HEADER_BYTES = 26"
definition MIN_BOUNDARY_COVERAGE_CENTI_C :: int where [simp]: "MIN_BOUNDARY_COVERAGE_CENTI_C = 10000"
definition MAX_OBSERVED_LOOKUP_GAP_CENTI_C :: int where [simp]: "MAX_OBSERVED_LOOKUP_GAP_CENTI_C = 1800"
definition MAX_CONFIRMED_REQUEST_HANDOFF_GAP_CENTI_C :: int where
  [simp]: "MAX_CONFIRMED_REQUEST_HANDOFF_GAP_CENTI_C = 300"
definition MAX_TERMINAL_PRE_HANDOFF_GAP_CENTI_C :: int where
  [simp]: "MAX_TERMINAL_PRE_HANDOFF_GAP_CENTI_C = 1200"
definition TERMINAL_HANDOFF_REQUEST_STEP_MV :: u16 where [simp]: "TERMINAL_HANDOFF_REQUEST_STEP_MV = 500"
definition TERMINAL_TRACKING_CURRENT_CODE :: u16 where [simp]: "TERMINAL_TRACKING_CURRENT_CODE = 30"
definition THREE_AMP_TRACKING_CURRENT_CODE :: u16 where [simp]: "THREE_AMP_TRACKING_CURRENT_CODE = 31"

text \<open>The published driver state: 0 stopped, 1 started, anything else unknown.\<close>

definition wifi_hardware_started :: "u8 \<Rightarrow> bool option" where
  "wifi_hardware_started driver_state =
     (if driver_state = 0 then Some False else if driver_state = 1 then Some True else None)"

definition publish_wifi_hardware_state :: "bool option \<Rightarrow> u8" where
  "publish_wifi_hardware_state started =
     (case started of None \<Rightarrow> 2 | Some b \<Rightarrow> if b then 1 else 0)"

record BoundaryAdcMetadata =
  divider_supply_mv :: u16
  reference_mv :: u16
  reference_code :: u16
  init_code :: u16
  efuse_version :: u8
  attenuation_db :: u8

record BoundaryPoint =
  elapsed_ms :: u32
  rtd_code :: u16
  rtd_mv :: u16
  vin_code :: u16
  vin_mv :: u16
  request_current_ma :: u16
  tracking_request_mv :: u16
  flat_request_mv :: u16
  tracking_only :: bool

record SupplyBoundary =
  adc :: BoundaryAdcMetadata
  wifi_started :: bool
  cutoff_reached :: bool
  source_min_mv :: u16
  source_max_mv :: u16
  source_max_ma :: u16
  source_power_limit_mw :: u32
  advertised_min_mv :: u16
  advertised_max_mv :: u16
  point_count :: u8
  points :: "BoundaryPoint list"

record BoundaryQuery =
  q_temperature_centi_c :: int
  q_current_rtd_mv :: "u16 option"
  q_current_request_mv :: "u16 option"
  q_current_ma :: u16
  q_wifi_started :: bool
  q_source_min_mv :: u16
  q_source_max_mv :: u16
  q_operational_source_min_mv :: u16
  q_operational_source_max_mv :: u16
  q_source_max_ma :: u16
  q_source_power_limit_mw :: u32

definition BoundaryPoint_default :: BoundaryPoint where
  "BoundaryPoint_default =
     \<lparr>elapsed_ms = 0, rtd_code = 0, rtd_mv = 0, vin_code = 0, vin_mv = 0, request_current_ma = 0,
      tracking_request_mv = 0, flat_request_mv = 0, tracking_only = False\<rparr>"

definition BoundaryAdcMetadata_default :: BoundaryAdcMetadata where
  "BoundaryAdcMetadata_default =
     \<lparr>divider_supply_mv = 0, reference_mv = 0, reference_code = 0, init_code = 0, efuse_version = 0,
      attenuation_db = 0\<rparr>"

definition SupplyBoundary_default :: SupplyBoundary where
  "SupplyBoundary_default =
     \<lparr>adc = BoundaryAdcMetadata_default, wifi_started = False, cutoff_reached = False, source_min_mv = 0,
      source_max_mv = 0, source_max_ma = 0, source_power_limit_mw = 0, advertised_min_mv = 0,
      advertised_max_mv = 0, point_count = 0, points = replicate MAX_BOUNDARY_POINTS BoundaryPoint_default\<rparr>"

section \<open>Validity\<close>

definition terminal_tracking_current_ma :: "u32 \<Rightarrow> u16 \<Rightarrow> u16 option" where
  "terminal_tracking_current_ma power_limit_mw request_mv =
     (if power_limit_mw = 0 \<or> request_mv = 0 then None
      else let current_ma = ucast (power_limit_mw * 1000 div ucast request_mv) div 50 * 50 :: u16
           in if current_ma \<ge> 1000 then Some current_ma else None)"

abbreviation live_points :: "SupplyBoundary \<Rightarrow> BoundaryPoint list" where
  "live_points b \<equiv> take (unat (point_count b)) (points b)"

definition has_minimum_coverage :: "SupplyBoundary \<Rightarrow> (u16 \<Rightarrow> int option) \<Rightarrow> bool" where
  "has_minimum_coverage b project_temperature =
     list_ex (\<lambda>point. case project_temperature (rtd_mv point) of
                        Some temperature \<Rightarrow> temperature \<ge> MIN_BOUNDARY_COVERAGE_CENTI_C
                      | None \<Rightarrow> False) (live_points b)"

definition terminal_tracking :: "SupplyBoundary \<Rightarrow> BoundaryPoint \<Rightarrow> bool" where
  "terminal_tracking b point =
     (tracking_only point
      \<and> tracking_request_mv point > source_max_mv b
      \<and> tracking_request_mv point \<le> advertised_max_mv b
      \<and> terminal_tracking_current_ma (source_power_limit_mw b) (tracking_request_mv point)
          = Some (request_current_ma point))"

definition regular_current :: "BoundaryPoint \<Rightarrow> bool" where
  "regular_current point =
     (MIN_HEATED_CURRENT_MA \<le> request_current_ma point \<and> request_current_ma point \<le> 3000
      \<and> is_multiple_of (request_current_ma point) 100)"

definition point_is_valid :: "SupplyBoundary \<Rightarrow> BoundaryPoint \<Rightarrow> bool" where
  "point_is_valid b point =
     ((terminal_tracking b point
        \<or> regular_current point \<and> source_min_mv b \<le> tracking_request_mv point
            \<and> tracking_request_mv point \<le> source_max_mv b)
      \<and> is_multiple_of (tracking_request_mv point) 100
      \<and> (flat_request_mv point = 0
          \<or> flat_request_mv point > tracking_request_mv point \<and> flat_request_mv point \<le> source_max_mv b)
      \<and> rtd_code point \<le> 4095
      \<and> vin_code point \<le> 4095
      \<and> rtd_mv point > 0
      \<and> vin_mv point > 0
      \<and> rtd_mv point \<le> 4095
      \<and> vin_mv point \<le> 4095
      \<and> elapsed_ms point div 50 < push_bit 19 1
      \<and> is_multiple_of (elapsed_ms point) 50
      \<and> (\<not> tracking_only point \<or> request_current_ma point = 3000 \<or> terminal_tracking b point))"

definition boundary_is_valid :: "SupplyBoundary \<Rightarrow> bool" where
  "boundary_is_valid b =
     (1 \<le> point_count b \<and> point_count b \<le> of_nat MAX_BOUNDARY_POINTS
      \<and> 3000 \<le> divider_supply_mv (adc b) \<and> divider_supply_mv (adc b) \<le> 3600
      \<and> source_min_mv b \<ge> 5500
      \<and> source_max_mv b \<le> 21000
      \<and> source_min_mv b \<le> source_max_mv b
      \<and> advertised_min_mv b > 0
      \<and> advertised_min_mv b \<le> source_min_mv b
      \<and> advertised_max_mv b \<ge> source_max_mv b
      \<and> source_max_ma b = 3000
      \<and> (source_power_limit_mw b = 0
          \<or> 16500 \<le> source_power_limit_mw b \<and> source_power_limit_mw b \<le> 105000
            \<and> is_multiple_of (source_power_limit_mw b) 10)
      \<and> list_all (point_is_valid b) (live_points b))"

section \<open>The lookup\<close>

definition max_of :: "'a::linorder list \<Rightarrow> 'a option" where
  "max_of xs = (case xs of [] \<Rightarrow> None | x # xs \<Rightarrow> Some (fold max xs x))"

definition identity_matches :: "SupplyBoundary \<Rightarrow> BoundaryQuery \<Rightarrow> bool" where
  "identity_matches b q =
     (wifi_started b = q_wifi_started q
      \<and> advertised_min_mv b = q_source_min_mv q
      \<and> advertised_max_mv b = q_source_max_mv q
      \<and> source_min_mv b = q_operational_source_min_mv q
      \<and> source_max_mv b = q_operational_source_max_mv q
      \<and> source_max_ma b = q_source_max_ma q
      \<and> source_power_limit_mw b = q_source_power_limit_mw q)"

definition current_class :: "SupplyBoundary \<Rightarrow> BoundaryQuery \<Rightarrow> u16 option" where
  "current_class b q =
     (if q_current_ma q < 3000
      then max_of (map request_current_ma
             (filter (\<lambda>point. \<not> tracking_only point \<and> request_current_ma point \<le> q_current_ma q) (live_points b)))
      else None)"

definition has_terminal_current :: "SupplyBoundary \<Rightarrow> BoundaryPoint \<Rightarrow> bool" where
  "has_terminal_current b point =
     (terminal_tracking_current_ma (source_power_limit_mw b) (tracking_request_mv point)
        = Some (request_current_ma point))"

definition eligible :: "SupplyBoundary \<Rightarrow> BoundaryQuery \<Rightarrow> BoundaryPoint \<Rightarrow> bool" where
  "eligible b q point =
     (if q_current_ma q \<ge> 3000
      then tracking_only point \<and> request_current_ma point \<le> q_current_ma q
           \<and> (request_current_ma point = 3000 \<or> has_terminal_current b point)
      else \<not> tracking_only point \<and> Some (request_current_ma point) = current_class b q
           \<or> tracking_only point \<and> request_current_ma point = q_current_ma q \<and> has_terminal_current b point)"

definition terminal_point :: "SupplyBoundary \<Rightarrow> BoundaryPoint \<Rightarrow> bool" where
  "terminal_point b point =
     (tracking_only point \<and> request_current_ma point < 3000 \<and> has_terminal_current b point)"

definition terminal_promotion_requires_margin :: "SupplyBoundary \<Rightarrow> BoundaryQuery \<Rightarrow> BoundaryPoint \<Rightarrow> bool" where
  "terminal_promotion_requires_margin b q point =
     (terminal_point b point
      \<and> (case q_current_request_mv q of
           None \<Rightarrow> True
         | Some current_request_mv \<Rightarrow>
             current_request_mv < sat_sub (tracking_request_mv point) TERMINAL_HANDOFF_REQUEST_STEP_MV))"

text \<open>The four ways the loop lets a point through, for its projected temperature.\<close>

definition live_rtd_reached :: "BoundaryQuery \<Rightarrow> BoundaryPoint \<Rightarrow> bool" where
  "live_rtd_reached q point =
     (case q_current_rtd_mv q of Some current_rtd_mv \<Rightarrow> current_rtd_mv \<ge> rtd_mv point | None \<Rightarrow> False)"

definition within_temperature_gap :: "SupplyBoundary \<Rightarrow> BoundaryQuery \<Rightarrow> BoundaryPoint \<Rightarrow> int \<Rightarrow> bool" where
  "within_temperature_gap b q point temperature =
     (let temperature_gap = q_temperature_centi_c q - temperature
      in \<not> terminal_promotion_requires_margin b q point
         \<and> 0 \<le> temperature_gap \<and> temperature_gap \<le> MAX_OBSERVED_LOOKUP_GAP_CENTI_C)"

definition terminal_handoff_allowed :: "SupplyBoundary \<Rightarrow> BoundaryQuery \<Rightarrow> BoundaryPoint \<Rightarrow> int \<Rightarrow> bool" where
  "terminal_handoff_allowed b q point temperature =
     (let terminal_temperature_gap = temperature - q_temperature_centi_c q
      in terminal_point b point
         \<and> (if terminal_promotion_requires_margin b q point
            then 1 \<le> terminal_temperature_gap \<and> terminal_temperature_gap \<le> MAX_TERMINAL_PRE_HANDOFF_GAP_CENTI_C
            else 0 \<le> terminal_temperature_gap \<and> terminal_temperature_gap \<le> MAX_OBSERVED_LOOKUP_GAP_CENTI_C))"

definition confirmed_request_handoff_allowed :: "BoundaryQuery \<Rightarrow> BoundaryPoint \<Rightarrow> int \<Rightarrow> bool" where
  "confirmed_request_handoff_allowed q point temperature =
     (let terminal_temperature_gap = temperature - q_temperature_centi_c q
      in tracking_only point
         \<and> q_current_request_mv q = Some (tracking_request_mv point)
         \<and> 0 \<le> terminal_temperature_gap
         \<and> terminal_temperature_gap \<le> MAX_CONFIRMED_REQUEST_HANDOFF_GAP_CENTI_C)"

definition authorised :: "SupplyBoundary \<Rightarrow> BoundaryQuery \<Rightarrow> BoundaryPoint \<Rightarrow> int \<Rightarrow> bool" where
  "authorised b q point temperature =
     (live_rtd_reached q point \<or> within_temperature_gap b q point temperature
      \<or> terminal_handoff_allowed b q point temperature
      \<or> confirmed_request_handoff_allowed q point temperature)"

definition lookup_candidate ::
  "SupplyBoundary \<Rightarrow> BoundaryQuery \<Rightarrow> (u16 \<Rightarrow> int option) \<Rightarrow> BoundaryPoint \<Rightarrow> (BoundaryPoint \<times> int) option" where
  "lookup_candidate b q project_temperature point =
     (case project_temperature (rtd_mv point) of
        None \<Rightarrow> None
      | Some temperature \<Rightarrow> if authorised b q point temperature then Some (point, temperature) else None)"

definition warmer :: "BoundaryPoint \<times> int \<Rightarrow> BoundaryPoint \<times> int \<Rightarrow> bool" where
  "warmer x y = (snd x > snd y
     \<or> snd x = snd y \<and> tracking_request_mv (fst x) > tracking_request_mv (fst y))"

definition safe_point ::
  "SupplyBoundary \<Rightarrow> BoundaryQuery \<Rightarrow> (u16 \<Rightarrow> int option) \<Rightarrow> BoundaryPoint option" where
  "safe_point b q project_temperature =
     (if \<not> boundary_is_valid b \<or> \<not> identity_matches b q \<or> \<not> has_minimum_coverage b project_temperature
      then None
      else map_option fst
             (keep_best warmer
               (List.map_filter (lookup_candidate b q project_temperature) (filter (eligible b q) (live_points b)))))"

definition safe_request_mv ::
  "SupplyBoundary \<Rightarrow> BoundaryQuery \<Rightarrow> (u16 \<Rightarrow> int option) \<Rightarrow> u16 option" where
  "safe_request_mv b q project_temperature = map_option tracking_request_mv (safe_point b q project_temperature)"

definition cold_le :: "int \<times> BoundaryPoint \<Rightarrow> int \<times> BoundaryPoint \<Rightarrow> bool" where
  "cold_le x y = (fst x < fst y
     \<or> fst x = fst y \<and> tracking_request_mv (snd x) \<le> tracking_request_mv (snd y))"

definition is_three_amp :: "BoundaryPoint \<Rightarrow> bool" where
  "is_three_amp point = (request_current_ma point = 3000 \<and> tracking_only point)"

definition coldest_point :: "SupplyBoundary \<Rightarrow> u16 \<Rightarrow> (u16 \<Rightarrow> int option) \<Rightarrow> (int \<times> BoundaryPoint) option" where
  "coldest_point b current project_temperature =
     min_by cold_le
       (List.map_filter (\<lambda>point. map_option (\<lambda>temperature. (temperature, point)) (project_temperature (rtd_mv point)))
         (filter (\<lambda>point. request_current_ma point = current \<and> tracking_only point) (live_points b)))"

definition safe_point_or_cold_start ::
  "SupplyBoundary \<Rightarrow> BoundaryQuery \<Rightarrow> (u16 \<Rightarrow> int option) \<Rightarrow> BoundaryPoint option rust" where
  "safe_point_or_cold_start b q project_temperature =
     (case safe_point b q project_temperature of
        Some point \<Rightarrow> Ret (Some point)
      | None \<Rightarrow>
          if unat (point_count b) > length (points b) then Panic
          else Ret
            (if \<not> has_minimum_coverage b project_temperature then None
             else if \<not> boundary_is_valid b \<or> \<not> identity_matches b q then None
             else Option.bind (max_of (map request_current_ma (filter is_three_amp (live_points b)))) (\<lambda>current.
               if q_current_ma q \<ge> 3000 \<and> current < 3000 then None
               else Option.bind (coldest_point b current project_temperature) (\<lambda>(coldest_temperature, point).
                 if q_temperature_centi_c q < coldest_temperature then Some point else None))))"

definition safe_request_mv_or_cold_start ::
  "SupplyBoundary \<Rightarrow> BoundaryQuery \<Rightarrow> (u16 \<Rightarrow> int option) \<Rightarrow> u16 option rust" where
  "safe_request_mv_or_cold_start b q project_temperature =
     rbind (safe_point_or_cold_start b q project_temperature) (\<lambda>point.
       Ret (map_option (\<lambda>point. max (tracking_request_mv point) (q_source_min_mv q)) point))"

definition voltage_response_matches :: "BoundaryPoint \<Rightarrow> u16 \<Rightarrow> u16 \<Rightarrow> bool" where
  "voltage_response_matches point request_mv vin =
     ((ucast vin :: u64) * ucast (tracking_request_mv point) * 100
        \<ge> ucast (vin_mv point) * ucast request_mv * 95)"

definition retain :: "SupplyBoundary \<Rightarrow> BoundaryPoint \<Rightarrow> (SupplyBoundary \<times> bool) rust" where
  "retain b point =
     (if unat (point_count b) > length (points b) then Panic
      else case position (\<lambda>existing. \<not> tracking_only point \<and> \<not> tracking_only existing
                                    \<and> request_current_ma existing = request_current_ma point) (live_points b) of
        Some i \<Rightarrow> Ret (b\<lparr>points := (points b)[i := point]\<rparr>, True)
      | None \<Rightarrow>
          if unat (point_count b) \<ge> length (points b) then Ret (b, False)
          else Ret (b\<lparr>points := (points b)[unat (point_count b) := point], point_count := point_count b + 1\<rparr>, True))"

section \<open>The equilibrium window\<close>

record EquilibriumWindow =
  started_ms :: "u32 option"
  min_centi_c :: int
  max_centi_c :: int

definition EquilibriumWindow_default :: EquilibriumWindow where
  "EquilibriumWindow_default = \<lparr>started_ms = None, min_centi_c = 0, max_centi_c = 0\<rparr>"

text \<open>The branch that opens a window, which the code reaches directly or through one self-call after a
  reset.\<close>

definition open_window :: "u32 \<Rightarrow> int \<Rightarrow> EquilibriumWindow" where
  "open_window now_ms temperature = \<lparr>started_ms = Some now_ms, min_centi_c = temperature, max_centi_c = temperature\<rparr>"

definition observe :: "EquilibriumWindow \<Rightarrow> u32 \<Rightarrow> int \<Rightarrow> EquilibriumWindow \<times> bool" where
  "observe w now_ms temperature =
     (case started_ms w of
        None \<Rightarrow> (open_window now_ms temperature, False)
      | Some started \<Rightarrow>
          let w = w\<lparr>min_centi_c := min (min_centi_c w) temperature, max_centi_c := max (max_centi_c w) temperature\<rparr> in
          if max_centi_c w - min_centi_c w > 100 then (open_window now_ms temperature, False)
          else let elapsed = sat_sub now_ms started in
            if elapsed < 10000 then (w, False) else (w, True))"

section \<open>What a lookup authorises\<close>

interpretation warmer: strict_preference warmer
  by unfold_locales (auto simp: warmer_def)

interpretation cold: key_order cold_le
  by unfold_locales (auto simp: cold_le_def)

lemma max_of_Some: "max_of xs = Some m \<Longrightarrow> m \<in> set xs \<and> (\<forall>x\<in>set xs. x \<le> m)"
proof (cases xs)
  case (Cons y ys)
  assume "max_of xs = Some m"
  then have "m = Max (set xs)" using Cons Max.set_eq_fold [of y ys] by (simp add: max_of_def)
  then show ?thesis using Cons by (metis List.finite_set Max_ge Max_in empty_iff list.set_intros(1))
qed (simp add: max_of_def)

lemma terminal_current_within_power:
  assumes "terminal_tracking_current_ma limit mv = Some current" "limit \<le> 105000" "5500 \<le> mv"
  shows "unat mv * unat current \<le> unat limit * 1000"
proof -
  have b: "unat limit \<le> 105000" "5500 \<le> unat mv" using assms(2,3) by (simp_all add: word_le_nat_alt)
  have cur: "current = ucast (limit * 1000 div ucast mv) div 50 * 50"
    using assms(1) by (auto simp: terminal_tracking_current_ma_def Let_def split: if_splits)
  have "unat (limit * 1000) = unat limit * 1000" using b(1) by (simp add: unat_word_ariths)
  then have q: "unat (limit * 1000 div ucast mv) = unat limit * 1000 div unat mv"
    by (simp add: unat_div unat_ucast_up)
  have "unat limit * 1000 div unat mv \<le> unat limit * 1000 div 5500" using b(2) by (intro div_le_mono2) simp_all
  also have "\<dots> \<le> 105000000 div 5500" using b(1) by (intro div_le_mono) simp
  finally have "unat (ucast (limit * 1000 div ucast mv) :: u16) = unat limit * 1000 div unat mv"
    by (subst unat_ucast_small) (auto simp: q)
  then have "unat current = unat limit * 1000 div unat mv div 50 * 50" unfolding cur by (simp add: unat_div_mult)
  then have "unat current \<le> unat limit * 1000 div unat mv" by simp
  then have "unat mv * unat current \<le> unat mv * (unat limit * 1000 div unat mv)" by simp
  also have "\<dots> \<le> unat limit * 1000" by simp
  finally show ?thesis .
qed

lemma valid_point:
  assumes "boundary_is_valid b" "point \<in> set (live_points b)"
  shows "point_is_valid b point" "5500 \<le> tracking_request_mv point" "tracking_request_mv point \<le> advertised_max_mv b"
proof -
  show v: "point_is_valid b point" using assms by (auto simp: boundary_is_valid_def list_all_iff)
  have "5500 \<le> source_min_mv b" "source_min_mv b \<le> source_max_mv b" "source_max_mv b \<le> advertised_max_mv b"
    using assms(1) by (auto simp: boundary_is_valid_def)
  then show "5500 \<le> tracking_request_mv point" "tracking_request_mv point \<le> advertised_max_mv b"
    using v by (auto simp: point_is_valid_def terminal_tracking_def)
qed

lemma high_points_within_power:
  assumes "boundary_is_valid b" "point \<in> set (live_points b)" "source_max_mv b < tracking_request_mv point"
  shows "unat (tracking_request_mv point) * unat (request_current_ma point) \<le> unat (source_power_limit_mw b) * 1000"
proof -
  have "terminal_tracking b point" using valid_point(1) [OF assms(1,2)] assms(3) by (auto simp: point_is_valid_def)
  then have t: "terminal_tracking_current_ma (source_power_limit_mw b) (tracking_request_mv point)
      = Some (request_current_ma point)" by (simp add: terminal_tracking_def)
  have "source_power_limit_mw b \<le> 105000"
    using assms(1) by (auto simp: boundary_is_valid_def)
  from terminal_current_within_power [OF t this valid_point(2) [OF assms(1,2)]] show ?thesis .
qed

lemma eligible_current: "eligible b q point \<Longrightarrow> request_current_ma point \<le> q_current_ma q"
proof -
  assume e: "eligible b q point"
  have "request_current_ma point \<le> q_current_ma q" if "current_class b q = Some (request_current_ma point)"
    using that max_of_Some [of "map request_current_ma (filter (\<lambda>point. \<not> tracking_only point
        \<and> request_current_ma point \<le> q_current_ma q) (live_points b))" "request_current_ma point"]
    by (auto simp: current_class_def split: if_splits)
  then show ?thesis using e by (auto simp: eligible_def split: if_splits)
qed

text \<open>The points a lookup may choose from, with their temperatures.\<close>

definition lookup_points ::
  "SupplyBoundary \<Rightarrow> BoundaryQuery \<Rightarrow> (u16 \<Rightarrow> int option) \<Rightarrow> (BoundaryPoint \<times> int) list" where
  "lookup_points b q project =
     List.map_filter (lookup_candidate b q project) (filter (eligible b q) (live_points b))"

lemma lookup_points_mem:
  "(point, temperature) \<in> set (lookup_points b q project) \<longleftrightarrow>
     point \<in> set (live_points b) \<and> eligible b q point \<and> project (rtd_mv point) = Some temperature
     \<and> authorised b q point temperature"
  unfolding lookup_points_def map_filter_mem
  by (auto simp: lookup_candidate_def split: option.splits if_splits)

lemma safe_point_cases:
  "safe_point b q project = Some point \<longleftrightarrow>
     boundary_is_valid b \<and> identity_matches b q \<and> has_minimum_coverage b project
     \<and> (\<exists>temperature. keep_best warmer (lookup_points b q project) = Some (point, temperature))"
  by (auto simp: safe_point_def lookup_points_def)

text \<open>How much warmer than the live temperature an authorised point may be, when the live reading has
  not reached it.\<close>

definition allowed_lead :: "SupplyBoundary \<Rightarrow> BoundaryQuery \<Rightarrow> BoundaryPoint \<Rightarrow> int" where
  "allowed_lead b q point =
     (if terminal_point b point then 1800
      else if tracking_only point \<and> q_current_request_mv q = Some (tracking_request_mv point) then 300
      else 0)"

lemma authorised_lead:
  "authorised b q point temperature \<Longrightarrow>
     live_rtd_reached q point \<or> temperature - q_temperature_centi_c q \<le> allowed_lead b q point"
  by (auto simp: authorised_def within_temperature_gap_def terminal_handoff_allowed_def
      confirmed_request_handoff_allowed_def allowed_lead_def Let_def split: if_splits)

text \<open>
  \<^bold>\<open>An authorised request is measured, bounded and within power (C5).\<close> When the lookup returns a
  point, the boundary is valid, belongs to the very source and WiFi state asked about and covers 100 degrees;
  the point is one of the recorded observations; its current does not exceed the contract's and its
  voltage lies between 5.5 V and the advertised maximum; above the operational maximum its power stays
  within the source's limit; unless the live reading has already reached it, it is warmer than the live
  temperature by at most 18 degrees for a terminal point, 3 degrees for the request already confirmed and not at
  all otherwise; and no other point the lookup admits is warmer.
\<close>

theorem safe_point_is_authorised:
  assumes "safe_point b q project = Some point"
  shows "boundary_is_valid b \<and> identity_matches b q \<and> has_minimum_coverage b project
    \<and> point \<in> set (live_points b)
    \<and> request_current_ma point \<le> q_current_ma q
    \<and> 5500 \<le> tracking_request_mv point \<and> tracking_request_mv point \<le> q_source_max_mv q
    \<and> (source_max_mv b < tracking_request_mv point \<longrightarrow>
         unat (tracking_request_mv point) * unat (request_current_ma point) \<le> unat (source_power_limit_mw b) * 1000)
    \<and> (\<exists>temperature. project (rtd_mv point) = Some temperature
         \<and> (live_rtd_reached q point \<or> temperature - q_temperature_centi_c q \<le> allowed_lead b q point)
         \<and> (\<forall>point' temperature'. point' \<in> set (live_points b) \<longrightarrow> eligible b q point' \<longrightarrow>
              project (rtd_mv point') = Some temperature' \<longrightarrow> authorised b q point' temperature' \<longrightarrow>
              temperature' \<le> temperature))"
proof -
  obtain temperature where valid: "boundary_is_valid b" "identity_matches b q" "has_minimum_coverage b project"
    and best: "keep_best warmer (lookup_points b q project) = Some (point, temperature)"
    using assms by (auto simp: safe_point_cases)
  note opt = warmer.keep_best_optimal [OF best]
  then have mem: "point \<in> set (live_points b)" "eligible b q point" "project (rtd_mv point) = Some temperature"
    "authorised b q point temperature" by (auto simp: lookup_points_mem)
  have "temperature' \<le> temperature" if "(point', temperature') \<in> set (lookup_points b q project)" for point' temperature'
    using opt that by (fastforce simp: warmer_def)
  then have warmest: "\<forall>point' temperature'. point' \<in> set (live_points b) \<longrightarrow> eligible b q point' \<longrightarrow>
      project (rtd_mv point') = Some temperature' \<longrightarrow> authorised b q point' temperature' \<longrightarrow> temperature' \<le> temperature"
    by (simp add: lookup_points_mem)
  have "advertised_max_mv b = q_source_max_mv q" using valid(2) by (simp add: identity_matches_def)
  then show ?thesis
    using valid mem(1) valid_point [OF valid(1) mem(1)] eligible_current [OF mem(2)] mem(3)
      authorised_lead [OF mem(4)] warmest high_points_within_power [OF valid(1) mem(1)]
    by auto
qed

text \<open>A boundary of two 3 A tracking points and a terminal one for a 60 W source.\<close>

definition bench_point :: "u16 \<Rightarrow> u16 \<Rightarrow> u16 \<Rightarrow> BoundaryPoint" where
  "bench_point rtd current mv =
     \<lparr>elapsed_ms = 50, rtd_code = 1000, rtd_mv = rtd, vin_code = 2000, vin_mv = 1500, request_current_ma = current,
      tracking_request_mv = mv, flat_request_mv = 0, tracking_only = True\<rparr>"

definition bench_boundary :: SupplyBoundary where
  "bench_boundary =
     \<lparr>adc = \<lparr>divider_supply_mv = 3300, reference_mv = 850, reference_code = 1, init_code = 2, efuse_version = 3,
             attenuation_db = 12\<rparr>, wifi_started = True, cutoff_reached = False, source_min_mv = 5500,
      source_max_mv = 20000, source_max_ma = 3000, source_power_limit_mw = 60000, advertised_min_mv = 3300,
      advertised_max_mv = 21000, point_count = 3,
      points = [bench_point 1500 3000 12000, bench_point 1900 3000 19000, bench_point 2000 2850 21000]
        @ replicate 38 BoundaryPoint_default\<rparr>"

lemma bench_valid: "boundary_is_valid bench_boundary"
  by code_simp

definition bench_projection :: "u16 \<Rightarrow> int option" where
  "bench_projection mv = (if mv = 1500 then Some 2500 else if mv = 1900 then Some 11000 else if mv = 2000 then Some 12000 else None)"

definition bench_query :: BoundaryQuery where
  "bench_query =
     \<lparr>q_temperature_centi_c = 11500, q_current_rtd_mv = Some 1950, q_current_request_mv = Some 19000, q_current_ma = 3000,
      q_wifi_started = True, q_source_min_mv = 3300, q_source_max_mv = 21000, q_operational_source_min_mv = 5500,
      q_operational_source_max_mv = 20000, q_source_max_ma = 3000, q_source_power_limit_mw = 60000\<rparr>"

theorem safe_point_is_authorised_witness:
  "bench_point 2000 2850 21000 \<in> set (live_points bench_boundary)
   \<and> unat (21000 :: u16) * unat (2850 :: u16) \<le> unat (60000 :: u32) * 1000"
proof -
  have "safe_point bench_boundary bench_query bench_projection = Some (bench_point 2000 2850 21000)" by code_simp
  from safe_point_is_authorised [OF this] show ?thesis by (simp add: bench_boundary_def bench_point_def)
qed

section \<open>Cold start\<close>

lemma three_amp_class:
  "max_of (map request_current_ma (filter is_three_amp ps)) = Some c \<Longrightarrow> c = 3000"
  using max_of_Some [of "map request_current_ma (filter is_three_amp ps)" c] by (auto simp: is_three_amp_def)

lemma coldest_point_Some:
  assumes "coldest_point b c project = Some (temperature, point)"
  shows "point \<in> set (live_points b) \<and> request_current_ma point = c \<and> tracking_only point
    \<and> project (rtd_mv point) = Some temperature
    \<and> (\<forall>point' temperature'. point' \<in> set (live_points b) \<longrightarrow> request_current_ma point' = c \<longrightarrow> tracking_only point' \<longrightarrow>
         project (rtd_mv point') = Some temperature' \<longrightarrow> cold_le (temperature, point) (temperature', point'))"
proof -
  let ?xs = "List.map_filter (\<lambda>point. map_option (\<lambda>temperature. (temperature, point)) (project (rtd_mv point)))
    (filter (\<lambda>point. request_current_ma point = c \<and> tracking_only point) (live_points b))"
  have mem: "(t, p) \<in> set ?xs \<longleftrightarrow> p \<in> set (live_points b) \<and> request_current_ma p = c \<and> tracking_only p
      \<and> project (rtd_mv p) = Some t" for t p
    unfolding map_filter_mem by auto
  have "(temperature, point) \<in> set ?xs \<and> (\<forall>x\<in>set ?xs. cold_le (temperature, point) x)"
    using assms by (intro cold.min_by_least) (simp add: coldest_point_def)
  then show ?thesis using mem by blast
qed

text \<open>
  \<^bold>\<open>The cold start is fail-closed (C36).\<close> The extended lookup never panics on a boundary whose count
  fits its array, and it answers like the ordinary lookup whenever that finds a point. Otherwise a point
  it returns is a recorded 3 A tracking observation of the same valid, matching boundary, the live
  temperature lies below it, and no recorded 3 A tracking observation is colder, or as cold with a lower
  voltage.
\<close>

theorem cold_start_is_fail_closed:
  assumes "unat (point_count b) \<le> length (points b)"
  shows "\<exists>r. safe_point_or_cold_start b q project = Ret r
    \<and> (case safe_point b q project of
         Some point \<Rightarrow> r = Some point
       | None \<Rightarrow> \<forall>point. r = Some point \<longrightarrow>
           boundary_is_valid b \<and> identity_matches b q \<and> has_minimum_coverage b project
           \<and> point \<in> set (live_points b) \<and> is_three_amp point
           \<and> (\<exists>temperature. project (rtd_mv point) = Some temperature \<and> q_temperature_centi_c q < temperature
                \<and> (\<forall>point' temperature'. point' \<in> set (live_points b) \<longrightarrow> is_three_amp point' \<longrightarrow>
                     project (rtd_mv point') = Some temperature' \<longrightarrow>
                     temperature < temperature'
                     \<or> temperature = temperature' \<and> tracking_request_mv point \<le> tracking_request_mv point')))"
proof (cases "safe_point b q project")
  case (Some point)
  then show ?thesis by (simp add: safe_point_or_cold_start_def)
next
  case None
  obtain r where r: "safe_point_or_cold_start b q project = Ret r"
    using None assms by (simp add: safe_point_or_cold_start_def)
  have ok: "boundary_is_valid b \<and> identity_matches b q \<and> has_minimum_coverage b project
      \<and> point \<in> set (live_points b) \<and> is_three_amp point
      \<and> (\<exists>temperature. project (rtd_mv point) = Some temperature \<and> q_temperature_centi_c q < temperature
           \<and> (\<forall>point' temperature'. point' \<in> set (live_points b) \<longrightarrow> is_three_amp point' \<longrightarrow>
                project (rtd_mv point') = Some temperature' \<longrightarrow>
                temperature < temperature'
                \<or> temperature = temperature' \<and> tracking_request_mv point \<le> tracking_request_mv point'))"
    if some: "r = Some point" for point
  proof -
    obtain c temperature where c: "max_of (map request_current_ma (filter is_three_amp (live_points b))) = Some c"
      and t: "coldest_point b c project = Some (temperature, point)" "q_temperature_centi_c q < temperature"
      and v: "boundary_is_valid b" "identity_matches b q" "has_minimum_coverage b project"
      using r some None assms
      by (auto simp: safe_point_or_cold_start_def bind_eq_Some_conv split: if_splits)
    note three = three_amp_class [OF c]
    show ?thesis using coldest_point_Some [OF t(1)] t(2) v unfolding three is_three_amp_def cold_le_def by auto
  qed
  then show ?thesis using r None by auto
qed

theorem cold_start_is_fail_closed_witness:
  "\<exists>r. safe_point_or_cold_start bench_boundary (bench_query\<lparr>q_temperature_centi_c := 2000, q_current_rtd_mv := None,
          q_current_request_mv := None\<rparr>) bench_projection = Ret r \<and> r = Some (bench_point 1500 3000 12000)"
proof -
  let ?q = "bench_query\<lparr>q_temperature_centi_c := 2000, q_current_rtd_mv := None, q_current_request_mv := None\<rparr>"
  have "safe_point_or_cold_start bench_boundary ?q bench_projection = Ret (Some (bench_point 1500 3000 12000))" by code_simp
  moreover have "unat (point_count bench_boundary) \<le> length (points bench_boundary)" by (simp add: bench_boundary_def)
  ultimately show ?thesis using cold_start_is_fail_closed [of bench_boundary ?q bench_projection] by auto
qed

section \<open>The sag guard and retention\<close>

text \<open>The comparison of the sag guard does not overflow: it compares 95 percent of the scaled reference
  with the scaled reading.\<close>

lemma voltage_response_exact:
  "voltage_response_matches point request_mv vin \<longleftrightarrow>
     95 * (unat (vin_mv point) * unat request_mv) \<le> 100 * (unat vin * unat (tracking_request_mv point))"
proof -
  have u: "unat (ucast x * ucast y :: u64) = unat x * unat y" "unat x * unat y \<le> 65535 * 65535" for x y :: u16
  proof -
    have "unat x \<le> 65535" "unat y \<le> 65535" using unat_bound [of x] unat_bound [of y] by simp_all
    then show b: "unat x * unat y \<le> 65535 * 65535" by (rule mult_le_mono)
    then show "unat (ucast x * ucast y :: u64) = unat x * unat y"
      by (simp add: unat_word_ariths unat_ucast_up)
  qed
  have scaled: "unat (ucast x * ucast y * k :: u64) = unat x * unat y * unat k" if "unat k \<le> 100" for x y :: u16 and k
  proof -
    have "unat x * unat y * unat k \<le> 65535 * 65535 * 100" using u(2) that by (rule mult_le_mono)
    then show ?thesis by (simp add: unat_word_ariths(2) [of "ucast x * ucast y"] u(1))
  qed
  have "unat (ucast (vin_mv point) * ucast request_mv * 95 :: u64) = unat (vin_mv point) * unat request_mv * 95"
    "unat (ucast vin * ucast (tracking_request_mv point) * 100 :: u64) = unat vin * unat (tracking_request_mv point) * 100"
    by (simp_all add: scaled)
  then show ?thesis unfolding voltage_response_matches_def word_le_nat_alt by (simp add: ac_simps)
qed

lemma retain_cases:
  assumes "unat (point_count b) \<le> length (points b)" "length (points b) \<le> 41"
  shows "\<exists>b' kept. retain b point = Ret (b', kept) \<and> unat (point_count b') \<le> length (points b')
    \<and> length (points b') = length (points b)
    \<and> (kept \<longrightarrow> point \<in> set (live_points b'))
    \<and> (\<not> kept \<longrightarrow> b' = b \<and> unat (point_count b) = length (points b))"
proof (cases "position (\<lambda>existing. \<not> tracking_only point \<and> \<not> tracking_only existing
      \<and> request_current_ma existing = request_current_ma point) (live_points b)")
  case (Some i)
  then have "i < unat (point_count b)" "i < length (points b)" using position_Some [OF Some] by auto
  then have "point \<in> set (take (unat (point_count b)) ((points b)[i := point]))"
    by (metis length_list_update length_take min_less_iff_conj nth_list_update_eq nth_mem nth_take)
  then show ?thesis
    using Some assms by (intro exI [of _ "b\<lparr>points := (points b)[i := point]\<rparr>"] exI [of _ True]) (simp add: retain_def)
next
  case None
  show ?thesis
  proof (cases "unat (point_count b) < length (points b)")
    case True
    then have n: "unat (point_count b + 1) = Suc (unat (point_count b))"
      using assms(2) by (simp add: unat_word_ariths)
    have "point \<in> set (take (Suc (unat (point_count b))) ((points b)[unat (point_count b) := point]))"
      using True by (simp add: take_Suc_conv_app_nth)
    then show ?thesis
      using None True n
      by (intro exI [of _ "b\<lparr>points := (points b)[unat (point_count b) := point], point_count := point_count b + 1\<rparr>"]
          exI [of _ True]) (simp add: retain_def)
  next
    case False
    then show ?thesis using None assms(1) by (intro exI [of _ b] exI [of _ False]) (simp add: retain_def)
  qed
qed

section \<open>Equilibrium\<close>

text \<open>The window and the last answer after a sequence of timed observations.\<close>

definition observe_run :: "(u32 \<times> int) list \<Rightarrow> EquilibriumWindow \<times> bool" where
  "observe_run obs = fold (\<lambda>(t, c) (w, r). observe w t c) obs (EquilibriumWindow_default, False)"

lemma observe_run_snoc: "observe_run (obs @ [(t, c)]) = observe (fst (observe_run obs)) t c"
  by (simp add: observe_run_def split_def)

definition within_band :: "int list \<Rightarrow> bool" where
  "within_band cs \<longleftrightarrow> (\<forall>x\<in>set cs. \<forall>y\<in>set cs. x - y \<le> 100)"

text \<open>What a window knows: it was opened by an observation and holds the extremes of all observations
  since, which lie within one degree.\<close>

definition window_of :: "EquilibriumWindow \<Rightarrow> (u32 \<times> int) list \<Rightarrow> bool" where
  "window_of w obs \<longleftrightarrow> obs \<noteq> [] \<and> started_ms w = Some (fst (hd obs))
     \<and> min_centi_c w = Min (snd ` set obs) \<and> max_centi_c w = Max (snd ` set obs)
     \<and> max_centi_c w - min_centi_c w \<le> 100"

lemma window_of_band: "window_of w obs \<Longrightarrow> within_band (map snd obs)"
proof -
  assume w: "window_of w obs"
  have "x - y \<le> 100" if "x \<in> snd ` set obs" "y \<in> snd ` set obs" for x y
  proof -
    have "x \<le> Max (snd ` set obs)" "Min (snd ` set obs) \<le> y" using that by simp_all
    then show ?thesis using w by (simp add: window_of_def)
  qed
  then show ?thesis by (simp add: within_band_def)
qed

lemma window_extends:
  assumes "window_of w obs"
  shows "let w' = w\<lparr>min_centi_c := min (min_centi_c w) c, max_centi_c := max (max_centi_c w) c\<rparr> in
    max_centi_c w' - min_centi_c w' \<le> 100 \<longrightarrow> window_of w' (obs @ [(t, c)])"
  using assms by (auto simp: window_of_def Let_def min.commute max.commute)

lemma observe_window:
  assumes "window_of w obs \<or> started_ms w = None \<and> obs = []"
  obtains suffix where "\<exists>prefix. obs @ [(t, c)] = prefix @ suffix" "window_of (fst (observe w t c)) suffix"
    "snd (observe w t c) = (window_of w obs \<and> suffix = obs @ [(t, c)] \<and> 10000 \<le> unat t - unat (fst (hd obs)))"
proof (cases "started_ms w")
  case None
  then have "obs = []" using assms by (auto simp: window_of_def)
  then show ?thesis
    using None that [of "[(t, c)]"] by (auto simp: observe_def open_window_def window_of_def)
next
  case (Some s)
  then have w: "window_of w obs" using assms by auto
  let ?w = "w\<lparr>min_centi_c := min (min_centi_c w) c, max_centi_c := max (max_centi_c w) c\<rparr>"
  have s: "s = fst (hd obs)" using w Some by (simp add: window_of_def)
  show ?thesis
  proof (cases "max_centi_c ?w - min_centi_c ?w > 100")
    case True
    then have "observe w t c = (open_window t c, False)" using Some by (simp add: observe_def Let_def)
    moreover have "[(t, c)] \<noteq> obs @ [(t, c)]" using w by (auto simp: window_of_def)
    ultimately show ?thesis using that [of "[(t, c)]"] by (auto simp: open_window_def window_of_def)
  next
    case False
    then have "observe w t c = (?w, 10000 \<le> sat_sub t s)"
      using Some by (auto simp: observe_def Let_def not_less)
    moreover have "window_of ?w (obs @ [(t, c)])" using window_extends [OF w, of c t] False by (simp add: Let_def not_less)
    ultimately show ?thesis
      using that [of "obs @ [(t, c)]"] w by (auto simp: s word_le_nat_alt unat_sat_sub)
  qed
qed

lemma observe_run_window:
  "obs \<noteq> [] \<Longrightarrow> \<exists>prefix suffix. obs = prefix @ suffix \<and> window_of (fst (observe_run obs)) suffix
     \<and> (snd (observe_run obs) \<longrightarrow> 10000 \<le> unat (fst (last suffix)) - unat (fst (hd suffix)))"
proof (induction obs rule: rev_induct)
  case (snoc o' obs)
  obtain t c where o': "o' = (t, c)" by (cases o')
  obtain prefix suffix where ps: "obs = prefix @ suffix"
    "window_of (fst (observe_run obs)) suffix \<or> started_ms (fst (observe_run obs)) = None \<and> suffix = []"
  proof (cases "obs = []")
    case True
    then show ?thesis using that [of "[]" "[]"] by (simp add: observe_run_def EquilibriumWindow_default_def)
  next
    case False
    then show ?thesis using snoc.IH that by blast
  qed
  obtain sfx where sfx: "\<exists>pre. suffix @ [(t, c)] = pre @ sfx" "window_of (fst (observe (fst (observe_run obs)) t c)) sfx"
    "snd (observe (fst (observe_run obs)) t c) = (window_of (fst (observe_run obs)) suffix \<and> sfx = suffix @ [(t, c)]
       \<and> 10000 \<le> unat t - unat (fst (hd suffix)))"
    using observe_window [OF ps(2)] by metis
  obtain pre where pre: "suffix @ [(t, c)] = pre @ sfx" using sfx(1) by blast
  have "obs @ [(t, c)] = (prefix @ pre) @ sfx" using ps(1) pre by simp
  moreover have "10000 \<le> unat (fst (last sfx)) - unat (fst (hd sfx))" if "snd (observe (fst (observe_run obs)) t c)"
    using that sfx(3) by (auto simp: window_of_def)
  ultimately show ?case unfolding o' observe_run_snoc using sfx(2) by blast
qed simp

text \<open>
  \<^bold>\<open>Equilibrium is not declared early.\<close> After any sequence of timed temperature observations, if
  the window reports equilibrium then the last of them span at least ten seconds, from the observation
  that opened the window to the present one, and all temperatures among them lie within one degree of each
  other.
\<close>

theorem equilibrium_is_sound:
  assumes "snd (observe_run obs)"
  shows "\<exists>prefix suffix. obs = prefix @ suffix \<and> suffix \<noteq> []
    \<and> 10000 \<le> unat (fst (last suffix)) - unat (fst (hd suffix))
    \<and> (\<forall>x\<in>set suffix. \<forall>y\<in>set suffix. snd x - snd y \<le> 100)"
proof -
  have "obs \<noteq> []" using assms by (auto simp: observe_run_def)
  then obtain prefix suffix where "obs = prefix @ suffix" "window_of (fst (observe_run obs)) suffix"
    "10000 \<le> unat (fst (last suffix)) - unat (fst (hd suffix))"
    using observe_run_window assms by blast
  moreover from this(2) have "suffix \<noteq> []" by (simp add: window_of_def)
  ultimately show ?thesis using window_of_band by (fastforce simp: within_band_def)
qed

theorem equilibrium_is_sound_witness:
  "\<exists>prefix suffix. [(0, 2500), (1000, 2700), (6000, 2750), (11000, 2720)] = prefix @ suffix \<and> suffix \<noteq> []
     \<and> 10000 \<le> unat (fst (last suffix) :: u32) - unat (fst (hd suffix)) \<and> (\<forall>x\<in>set suffix. \<forall>y\<in>set suffix. snd x - snd y \<le> (100 :: int))"
  by (rule equilibrium_is_sound) code_simp

end
