(* ===== verification/Heater_Codec.thy ===== *)
theory Heater_Codec
  imports Heater_Supply
begin

text \<open>
  The persistent form of a supply boundary, the functions \<open>encode\<close> and \<open>decode\<close> of
  \<open>src/firmware/src/heater_supply.rs\<close>: a header of 26 bytes and 11 bytes per point, each point
  packed into 88 bits. The lemmas show that every boundary whose voltages the fields can hold survives
  storage unchanged.
\<close>

section \<open>The persistent encoding\<close>

definition current_code :: "BoundaryPoint \<Rightarrow> u16" where
  "current_code point =
     (if \<not> tracking_only point then (request_current_ma point - 1000) div 100
      else if request_current_ma point = 3000 then THREE_AMP_TRACKING_CURRENT_CODE
      else TERMINAL_TRACKING_CURRENT_CODE)"

definition pack_point :: "BoundaryPoint \<Rightarrow> u128" where
  "pack_point point =
     ucast (elapsed_ms point div 50)
     OR push_bit 19 (ucast (rtd_code point))
     OR push_bit 31 (ucast (rtd_mv point))
     OR push_bit 43 (ucast (vin_code point))
     OR push_bit 55 (ucast (vin_mv point))
     OR push_bit 67 (ucast (tracking_request_mv point div 100))
     OR push_bit 75 (ucast (flat_request_mv point div 100))
     OR push_bit 83 (ucast (current_code point))"

definition header_bytes :: "SupplyBoundary \<Rightarrow> u8 list" where
  "header_bytes b =
     [BOUNDARY_FORMAT_VERSION, if wifi_started b then 1 else 0, point_count b, efuse_version (adc b),
      attenuation_db (adc b), if cutoff_reached b then 1 else 0]
     @ concat (map (to_le_bytes 2)
         [divider_supply_mv (adc b), reference_mv (adc b), reference_code (adc b), init_code (adc b),
          source_min_mv b, source_max_mv b, source_max_ma b, advertised_min_mv b, advertised_max_mv b])"

text \<open>The buffer after the call, and the length written. The buffer is cleared before it is filled, so
  a power limit that does not fit leaves the header without its last field.\<close>

definition encode :: "SupplyBoundary \<Rightarrow> u8 list \<Rightarrow> u8 list \<times> nat option" where
  "encode b out =
     (if \<not> boundary_is_valid b then (out, None)
      else let len = BOUNDARY_HEADER_BYTES + unat (point_count b) * BOUNDARY_POINT_BYTES in
        if length out < len then (out, None)
        else let power_units = source_power_limit_mw b div 10 in
          if power_units > 65535
          then (header_bytes b @ replicate (len - length (header_bytes b)) 0 @ drop len out, None)
          else (header_bytes b @ to_le_bytes 2 (ucast power_units :: u16)
                @ concat (map (\<lambda>point. take BOUNDARY_POINT_BYTES (to_le_bytes 16 (pack_point point))) (live_points b))
                @ drop len out, Some len))"

definition read_u16 :: "u8 list \<Rightarrow> nat \<Rightarrow> u16" where
  "read_u16 bs offset = from_le_bytes [bs ! offset, bs ! (offset + 1)]"

definition decode_point :: "u32 \<Rightarrow> u128 \<Rightarrow> BoundaryPoint option" where
  "decode_point power_limit_mw packed =
     (let current = ucast (drop_bit 83 packed AND 31) :: u16 in
      if current > 20 \<and> current \<noteq> TERMINAL_TRACKING_CURRENT_CODE \<and> current \<noteq> THREE_AMP_TRACKING_CURRENT_CODE
      then None
      else let request_mv = ucast (drop_bit 67 packed AND 0xff) * 100 in
        map_option (\<lambda>current_ma.
          \<lparr>elapsed_ms = (ucast packed AND (push_bit 19 1 - 1)) * 50,
           rtd_code = ucast (drop_bit 19 packed AND 0xfff),
           rtd_mv = ucast (drop_bit 31 packed AND 0xfff),
           vin_code = ucast (drop_bit 43 packed AND 0xfff),
           vin_mv = ucast (drop_bit 55 packed AND 0xfff),
           request_current_ma = current_ma,
           tracking_request_mv = request_mv,
           flat_request_mv = ucast (drop_bit 75 packed AND 0xff) * 100,
           tracking_only = (current = TERMINAL_TRACKING_CURRENT_CODE \<or> current = THREE_AMP_TRACKING_CURRENT_CODE)\<rparr>)
          (if current = THREE_AMP_TRACKING_CURRENT_CODE then Some 3000
           else if current = TERMINAL_TRACKING_CURRENT_CODE
           then terminal_tracking_current_ma power_limit_mw request_mv
           else Some (1000 + current * 100)))"

definition packed_at :: "u8 list \<Rightarrow> nat \<Rightarrow> u128" where
  "packed_at bs index =
     from_le_bytes (take BOUNDARY_POINT_BYTES (drop (BOUNDARY_HEADER_BYTES + index * BOUNDARY_POINT_BYTES) bs)
                    @ replicate (16 - BOUNDARY_POINT_BYTES) 0)"

definition decode :: "u8 list \<Rightarrow> SupplyBoundary option" where
  "decode bs =
     (if length bs < BOUNDARY_HEADER_BYTES \<or> bs ! 0 \<noteq> BOUNDARY_FORMAT_VERSION \<or> bs ! 1 > 1 \<or> bs ! 5 > 1
         \<or> unat (bs ! 2) > MAX_BOUNDARY_POINTS
         \<or> length bs \<noteq> BOUNDARY_HEADER_BYTES + unat (bs ! 2) * BOUNDARY_POINT_BYTES
      then None
      else let result = SupplyBoundary_default
             \<lparr>adc := \<lparr>divider_supply_mv = read_u16 bs 6, reference_mv = read_u16 bs 8, reference_code = read_u16 bs 10,
                      init_code = read_u16 bs 12, efuse_version = bs ! 3, attenuation_db = bs ! 4\<rparr>,
              wifi_started := (bs ! 1 = 1), cutoff_reached := (bs ! 5 = 1),
              source_min_mv := read_u16 bs 14, source_max_mv := read_u16 bs 16, source_max_ma := read_u16 bs 18,
              advertised_min_mv := read_u16 bs 20, advertised_max_mv := read_u16 bs 22,
              source_power_limit_mw := ucast (read_u16 bs 24) * 10, point_count := bs ! 2\<rparr>
        in Option.bind (those (map (\<lambda>index. decode_point (source_power_limit_mw result) (packed_at bs index))
                                   [0..<unat (bs ! 2)])) (\<lambda>decoded.
             let result = result\<lparr>points := decoded @ drop (length decoded) (points result)\<rparr>
             in if boundary_is_valid result then Some result else None))"

section \<open>Round trip\<close>

lemma packed_fields:
  fixes e r m v w t f c :: u128
  defines "raw \<equiv> cat 19 e (cat 12 r (cat 12 m (cat 12 v (cat 12 w (cat 8 t (cat 8 f (take_bit 5 c)))))))"
  shows "take_bit 19 raw = take_bit 19 e" "take_bit 12 (drop_bit 19 raw) = take_bit 12 r"
    "take_bit 12 (drop_bit 31 raw) = take_bit 12 m" "take_bit 12 (drop_bit 43 raw) = take_bit 12 v"
    "take_bit 12 (drop_bit 55 raw) = take_bit 12 w" "take_bit 8 (drop_bit 67 raw) = take_bit 8 t"
    "take_bit 8 (drop_bit 75 raw) = take_bit 8 f" "take_bit 5 (drop_bit 83 raw) = take_bit 5 c"
  unfolding raw_def by (simp_all add: cat_high cat_low)


lemma pack_point_cat:
  assumes "unat (elapsed_ms p div 50) < 2 ^ 19" "rtd_code p \<le> 4095" "rtd_mv p \<le> 4095" "vin_code p \<le> 4095" "vin_mv p \<le> 4095"
    "unat (tracking_request_mv p div 100) < 2 ^ 8" "unat (flat_request_mv p div 100) < 2 ^ 8" "unat (current_code p) < 2 ^ 5"
  shows "pack_point p = cat 19 (ucast (elapsed_ms p div 50)) (cat 12 (ucast (rtd_code p)) (cat 12 (ucast (rtd_mv p))
    (cat 12 (ucast (vin_code p)) (cat 12 (ucast (vin_mv p)) (cat 8 (ucast (tracking_request_mv p div 100))
    (cat 8 (ucast (flat_request_mv p div 100)) (take_bit 5 (ucast (current_code p)))))))))"
proof -
  have "take_bit 12 (ucast w :: u128) = ucast w" if "w \<le> 4095" for w :: u16
    using that by (intro field_fits) (simp_all add: word_le_nat_alt)
  moreover have "take_bit 19 (ucast (elapsed_ms p div 50) :: u128) = ucast (elapsed_ms p div 50)"
    "take_bit 8 (ucast (tracking_request_mv p div 100) :: u128) = ucast (tracking_request_mv p div 100)"
    "take_bit 8 (ucast (flat_request_mv p div 100) :: u128) = ucast (flat_request_mv p div 100)"
    "take_bit 5 (ucast (current_code p) :: u128) = ucast (current_code p)"
    using assms by (intro field_fits; simp)+
  ultimately show ?thesis
    using assms(2-5) by (simp add: pack_point_def cat_small push_bit_or push_bit_push_bit)
qed

lemma point_fields_fit:
  assumes "boundary_is_valid b" "point_is_valid b p" "advertised_max_mv b \<le> 25500"
  shows "unat (elapsed_ms p div 50) < 2 ^ 19" "rtd_code p \<le> 4095" "rtd_mv p \<le> 4095" "vin_code p \<le> 4095"
    "vin_mv p \<le> 4095" "unat (tracking_request_mv p div 100) < 2 ^ 8" "unat (flat_request_mv p div 100) < 2 ^ 8"
    "unat (current_code p) < 2 ^ 5"
proof -
  have src: "unat (source_max_mv b) \<le> 21000" "unat (source_max_mv b) \<le> unat (advertised_max_mv b)"
    "unat (advertised_max_mv b) \<le> 25500"
    using assms(1,3) by (auto simp: boundary_is_valid_def word_le_nat_alt)
  have "unat (tracking_request_mv p) \<le> 25500"
    using assms(2) src by (auto simp: point_is_valid_def terminal_tracking_def word_order_nat)
  then show "unat (tracking_request_mv p div 100) < 2 ^ 8" by (simp add: unat_div)
  have "unat (flat_request_mv p) \<le> 21000"
    using assms(2) src by (auto simp: point_is_valid_def word_order_nat)
  then show "unat (flat_request_mv p div 100) < 2 ^ 8" by (simp add: unat_div)
  show "unat (elapsed_ms p div 50) < 2 ^ 19" "rtd_code p \<le> 4095" "rtd_mv p \<le> 4095" "vin_code p \<le> 4095" "vin_mv p \<le> 4095"
    using assms(2) by (auto simp: point_is_valid_def word_less_nat_alt)
  have "unat (request_current_ma p - 1000) \<le> 2000" if "\<not> tracking_only p"
  proof -
    have "2000 \<le> unat (request_current_ma p)" "unat (request_current_ma p) \<le> 3000"
      using assms(2) that by (auto simp: point_is_valid_def regular_current_def terminal_tracking_def word_le_nat_alt)
    then show ?thesis by (subst unat_sub) (simp_all add: word_le_nat_alt)
  qed
  then show "unat (current_code p) < 2 ^ 5" by (auto simp: current_code_def unat_div)
qed

lemma regular_current_code:
  assumes "regular_current p"
  shows "1000 + (request_current_ma p - 1000) div 100 * 100 = request_current_ma p"
    "(request_current_ma p - 1000) div 100 \<le> 20"
proof -
  let ?c = "request_current_ma p"
  have c: "2000 \<le> unat ?c" "unat ?c \<le> 3000" "100 dvd unat ?c"
    using assms by (auto simp: regular_current_def word_le_nat_alt is_multiple_of_iff)
  then have sub: "unat (?c - 1000) = unat ?c - 1000" by (subst unat_sub) (simp_all add: word_le_nat_alt)
  have "100 dvd unat ?c - 1000" using c(3) by (simp add: dvd_diff_nat)
  then have "is_multiple_of (?c - 1000) 100" by (simp add: is_multiple_of_iff sub)
  then have "(?c - 1000) div 100 * 100 = ?c - 1000" by (rule aligned_div_mult)
  then show "1000 + (?c - 1000) div 100 * 100 = ?c" by simp
  show "(?c - 1000) div 100 \<le> 20" using c by (simp add: word_le_nat_alt unat_div sub)
qed

lemma decode_pack_point:
  assumes b: "boundary_is_valid b" "advertised_max_mv b \<le> 25500"
    and p: "point_is_valid b p" "is_multiple_of (flat_request_mv p) 100"
  shows "decode_point (source_power_limit_mw b) (pack_point p) = Some p"
proof -
  note fit = point_fields_fit [OF b(1) p(1) b(2)]
  define packed where "packed = pack_point p"
  note pack = pack_point_cat [OF fit, folded packed_def]
  have small: "take_bit 12 (ucast w :: u128) = ucast w" if "w \<le> 4095" for w :: u16
    using that by (intro field_fits) (simp_all add: word_le_nat_alt)
  have f: "take_bit 19 packed = ucast (elapsed_ms p div 50)" "take_bit 12 (drop_bit 19 packed) = ucast (rtd_code p)"
    "take_bit 12 (drop_bit 31 packed) = ucast (rtd_mv p)" "take_bit 12 (drop_bit 43 packed) = ucast (vin_code p)"
    "take_bit 12 (drop_bit 55 packed) = ucast (vin_mv p)"
    "take_bit 8 (drop_bit 67 packed) = ucast (tracking_request_mv p div 100)"
    "take_bit 8 (drop_bit 75 packed) = ucast (flat_request_mv p div 100)"
    "take_bit 5 (drop_bit 83 packed) = ucast (current_code p)"
    unfolding pack packed_fields using fit by (simp_all add: field_fits small)
  have align: "tracking_request_mv p div 100 * 100 = tracking_request_mv p" "elapsed_ms p div 50 * 50 = elapsed_ms p"
    "flat_request_mv p div 100 * 100 = flat_request_mv p"
    using p by (auto simp: point_is_valid_def intro: aligned_div_mult)
  have cur: "(if current_code p = 31 then Some 3000
      else if current_code p = 30 then terminal_tracking_current_ma (source_power_limit_mw b) (tracking_request_mv p)
      else Some (1000 + current_code p * 100)) = Some (request_current_ma p)
    \<and> (current_code p = 30 \<or> current_code p = 31) = tracking_only p
    \<and> \<not> (current_code p > 20 \<and> current_code p \<noteq> 30 \<and> current_code p \<noteq> 31)"
  proof (cases "tracking_only p")
    case True
    then show ?thesis using p(1) by (auto simp: current_code_def point_is_valid_def terminal_tracking_def)
  next
    case False
    then have r: "regular_current p" using p(1) by (auto simp: point_is_valid_def terminal_tracking_def)
    have "current_code p \<le> 20" using False regular_current_code(2) [OF r] by (simp add: current_code_def)
    then have "current_code p \<noteq> 30" "current_code p \<noteq> 31" by auto
    then show ?thesis
      using False regular_current_code [OF r] by (auto simp: current_code_def not_less)
  qed
  have upd: "\<lparr>elapsed_ms = elapsed_ms p, rtd_code = rtd_code p, rtd_mv = rtd_mv p, vin_code = vin_code p,
      vin_mv = vin_mv p, request_current_ma = z, tracking_request_mv = tracking_request_mv p,
      flat_request_mv = flat_request_mv p, tracking_only = tracking_only p\<rparr> = p \<longleftrightarrow> z = request_current_ma p" for z
    by (cases p) auto
  have "decode_point (source_power_limit_mw b) packed = Some p"
    unfolding decode_point_def Let_def
    using cur [THEN conjunct1]
    by (simp add: mask_simps f take_bit_ucast ucast_ucast_back align upd
        cur [THEN conjunct2, THEN conjunct1] cur [THEN conjunct2, THEN conjunct2] split: if_split_asm)
  then show ?thesis by (simp add: packed_def)
qed

definition storable :: "SupplyBoundary \<Rightarrow> bool" where
  "storable b \<longleftrightarrow> boundary_is_valid b \<and> length (points b) = MAX_BOUNDARY_POINTS
     \<and> drop (unat (point_count b)) (points b)
         = replicate (MAX_BOUNDARY_POINTS - unat (point_count b)) BoundaryPoint_default
     \<and> advertised_max_mv b \<le> 25500
     \<and> list_all (\<lambda>p. is_multiple_of (flat_request_mv p) 100) (live_points b)"

lemma valid_count: "boundary_is_valid b \<Longrightarrow> unat (point_count b) \<le> 41"
  by (auto simp: boundary_is_valid_def word_le_nat_alt)

lemma length_header_bytes: "length (header_bytes b) = 24"
  by (simp add: header_bytes_def)

lemma power_units:
  assumes "boundary_is_valid b"
  shows "\<not> source_power_limit_mw b div 10 > 65535" "ucast (ucast (source_power_limit_mw b div 10) :: u16) * 10 = source_power_limit_mw b"
proof -
  have P: "unat (source_power_limit_mw b) \<le> 105000" "is_multiple_of (source_power_limit_mw b) 10"
    using assms by (auto simp: boundary_is_valid_def word_le_nat_alt is_multiple_of_def)
  then have u: "unat (source_power_limit_mw b div 10) \<le> 10500" by (simp add: unat_div)
  then show "\<not> source_power_limit_mw b div 10 > 65535" by (simp add: word_less_nat_alt)
  have "ucast (ucast (source_power_limit_mw b div 10) :: u16) = source_power_limit_mw b div 10"
    using u by (simp add: word_unat_eq_iff unat_ucast_up unat_ucast_small)
  then show "ucast (ucast (source_power_limit_mw b div 10) :: u16) * 10 = source_power_limit_mw b"
    using P(2) by (simp add: aligned_div_mult)
qed

definition encoded_points :: "SupplyBoundary \<Rightarrow> u8 list" where
  "encoded_points b = concat (map (\<lambda>point. to_le_bytes 11 (pack_point point)) (live_points b))"

lemma encode_valid:
  assumes "boundary_is_valid b" "26 + unat (point_count b) * 11 \<le> length out"
  shows "encode b out = (header_bytes b @ to_le_bytes 2 (ucast (source_power_limit_mw b div 10) :: u16)
      @ encoded_points b @ drop (26 + unat (point_count b) * 11) out, Some (26 + unat (point_count b) * 11))"
  using assms power_units(1) [OF assms(1)]
  by (simp add: encode_def Let_def take_to_le_bytes encoded_points_def)

lemma pack_point_88:
  assumes "boundary_is_valid b" "point_is_valid b p" "advertised_max_mv b \<le> 25500"
  shows "take_bit 88 (pack_point p) = pack_point p"
  unfolding pack_point_cat [OF point_fields_fit [OF assms]] by (simp add: take_cat)

lemma packed_at_bytes:
  assumes "storable b" "length prefix = 26" "i < length (live_points b)"
  shows "packed_at (prefix @ encoded_points b) i = pack_point (live_points b ! i)"
proof -
  have b: "boundary_is_valid b" "advertised_max_mv b \<le> 25500" using assms(1) by (auto simp: storable_def)
  then have v: "point_is_valid b (live_points b ! i)"
    using nth_mem [OF assms(3)] by (auto simp: boundary_is_valid_def list_all_iff)
  have "take 11 (drop (26 + i * 11) (prefix @ encoded_points b)) = to_le_bytes 11 (pack_point (live_points b ! i))"
    using assms(2) concat_chunk_fixed [OF assms(3), of 11 pack_point] by (simp add: encoded_points_def)
  then show ?thesis
    using pack_point_88 [OF b(1) v b(2)] by (simp add: packed_at_def from_le_bytes_zeros from_to_le_bytes)
qed

lemma decode_points:
  assumes "storable b" "length prefix = 26"
  shows "those (map (\<lambda>i. decode_point (source_power_limit_mw b) (packed_at (prefix @ encoded_points b) i))
      [0..<unat (point_count b)]) = Some (live_points b)"
proof -
  have b: "boundary_is_valid b" "advertised_max_mv b \<le> 25500" "length (live_points b) = unat (point_count b)"
    using assms(1) valid_count [of b] by (auto simp: storable_def)
  have "decode_point (source_power_limit_mw b) (packed_at (prefix @ encoded_points b) i) = Some (live_points b ! i)"
    if "i < unat (point_count b)" for i
  proof -
    have i: "i < length (live_points b)" using that b(3) by simp
    then have mem: "live_points b ! i \<in> set (live_points b)" by (rule nth_mem)
    show ?thesis
      unfolding packed_at_bytes [OF assms i]
      using assms(1) mem by (intro decode_pack_point [OF b(1,2)])
        (auto simp: storable_def boundary_is_valid_def list_all_iff)
  qed
  then show ?thesis using b(3) by (simp add: those_eq_Some_iff list_eq_iff_nth_eq)
qed

lemma decode_encoded:
  assumes "storable b"
  shows "decode (header_bytes b @ to_le_bytes 2 (ucast (source_power_limit_mw b div 10) :: u16) @ encoded_points b) = Some b"
proof -
  let ?prefix = "header_bytes b @ to_le_bytes 2 (ucast (source_power_limit_mw b div 10) :: u16)"
  let ?bs = "?prefix @ encoded_points b"
  have b: "boundary_is_valid b" "length (live_points b) = unat (point_count b)" "unat (point_count b) \<le> 41"
    using assms valid_count [of b] by (auto simp: storable_def)
  have len: "length ?prefix = 26" "length ?bs = 26 + unat (point_count b) * 11"
    using b(2) by (simp_all add: length_header_bytes encoded_points_def length_concat_fixed)
  have hd: "?bs ! 0 = 6" "(?bs ! 1 = 1) = wifi_started b" "\<not> 1 < ?bs ! 1" "?bs ! 2 = point_count b"
    "?bs ! 3 = efuse_version (adc b)" "?bs ! 4 = attenuation_db (adc b)" "(?bs ! 5 = 1) = cutoff_reached b" "\<not> 1 < ?bs ! 5"
    by (simp_all add: header_bytes_def to_le_bytes_2)
  have rd: "read_u16 ?bs 6 = divider_supply_mv (adc b)" "read_u16 ?bs 8 = reference_mv (adc b)"
    "read_u16 ?bs 10 = reference_code (adc b)" "read_u16 ?bs 12 = init_code (adc b)" "read_u16 ?bs 14 = source_min_mv b"
    "read_u16 ?bs 16 = source_max_mv b" "read_u16 ?bs 18 = source_max_ma b" "read_u16 ?bs 20 = advertised_min_mv b"
    "read_u16 ?bs 22 = advertised_max_mv b" "read_u16 ?bs 24 = ucast (source_power_limit_mw b div 10)"
    by (simp_all add: read_u16_def header_bytes_def to_le_bytes_2 del: from_le_bytes.simps)
  have points: "live_points b @ replicate (41 - unat (point_count b)) BoundaryPoint_default = points b"
    using assms append_take_drop_id [of "unat (point_count b)" "points b"] by (simp add: storable_def)
  have eta: "\<lparr>adc = \<lparr>divider_supply_mv = divider_supply_mv (adc b), reference_mv = reference_mv (adc b),
        reference_code = reference_code (adc b), init_code = init_code (adc b), efuse_version = efuse_version (adc b),
        attenuation_db = attenuation_db (adc b)\<rparr>, wifi_started = wifi_started b, cutoff_reached = cutoff_reached b,
      source_min_mv = source_min_mv b, source_max_mv = source_max_mv b, source_max_ma = source_max_ma b,
      source_power_limit_mw = source_power_limit_mw b, advertised_min_mv = advertised_min_mv b,
      advertised_max_mv = advertised_max_mv b, point_count = point_count b, points = points b\<rparr> = b"
    by (cases b; cases "adc b"; simp)
  note pts = decode_points [OF assms len(1), unfolded append_assoc]
  show ?thesis
    using b hd rd len(2) pts points power_units(2) [OF b(1)]
    by (simp add: decode_def Let_def SupplyBoundary_default_def eta del: One_nat_def)
qed

text \<open>
  \<^bold>\<open>A calibrated boundary survives storage (C30).\<close> Take a valid boundary whose unused slots are
  empty, whose advertised maximum a PPS object can express and whose flat responses are multiples of
  100 mV. Encoding it into a large enough buffer succeeds, writes 26 bytes and 11 per point, leaves the
  rest of the buffer alone, and decoding exactly the written bytes gives the same boundary, every field
  of every point included.
\<close>

theorem boundary_survives_storage:
  assumes "storable b" "BOUNDARY_HEADER_BYTES + unat (point_count b) * BOUNDARY_POINT_BYTES \<le> length out"
  shows "\<exists>out' len. encode b out = (out', Some len)
    \<and> len = BOUNDARY_HEADER_BYTES + unat (point_count b) * BOUNDARY_POINT_BYTES
    \<and> length out' = length out \<and> drop len out' = drop len out \<and> decode (take len out') = Some b"
proof -
  let ?len = "26 + unat (point_count b) * 11"
  define bs where "bs = header_bytes b @ to_le_bytes 2 (ucast (source_power_limit_mw b div 10) :: u16) @ encoded_points b"
  have v: "boundary_is_valid b" "length (live_points b) = unat (point_count b)"
    using assms(1) valid_count [of b] by (auto simp: storable_def)
  have len: "length bs = ?len"
    using v(2) by (simp add: bs_def length_header_bytes encoded_points_def length_concat_fixed)
  have enc: "encode b out = (bs @ drop ?len out, Some ?len)"
    using encode_valid [OF v(1)] assms(2) by (simp add: bs_def)
  have dec: "decode bs = Some b" using decode_encoded [OF assms(1)] by (simp add: bs_def)
  show ?thesis
    using enc dec len assms(2) by (intro exI [of _ "bs @ drop ?len out"] exI [of _ ?len]) simp
qed

lemma bench_storable: "storable bench_boundary"
  by code_simp

theorem boundary_survives_storage_witness:
  "\<exists>out' len. encode bench_boundary (replicate 100 0) = (out', Some len) \<and> decode (take len out') = Some bench_boundary"
  using boundary_survives_storage [OF bench_storable, of "replicate 100 0"] by (auto simp: bench_boundary_def)

end
