(* ===== verification/Buzzer.thy ===== *)
theory Buzzer
  imports Prelude
begin

text \<open>
  The buzzer of \<open>src/firmware/src/buzzer.rs\<close>: the player that steps through a cue's pattern,
  the arbiter that decides which cue is heard, and the cadence that repeats the protection alarm.

  An index past the end of a pattern is a panic of the source and the value \<open>Panic\<close> here. The
  invariant of the arbiter shows that no run panics, that the safety cues are heard exactly in the
  safety states that ask for them, and that no waiting cue is stranded. A cue is played step by step
  however late the task wakes, and the alarm is repeated as a greedy schedule of one second.
\<close>

section \<open>Cues and patterns\<close>

datatype BuzzerCueId = UiInput | HeaterOn | HeaterOff | ActiveCoolingOn | ActiveCoolingOff
  | HeaterReject | ActiveCoolingReject | ProtectionAlarm | AttentionReminder

fun BuzzerCueId_label :: "BuzzerCueId \<Rightarrow> string" where
  "BuzzerCueId_label UiInput = ''ui_input''"
| "BuzzerCueId_label HeaterOn = ''heater_on''"
| "BuzzerCueId_label HeaterOff = ''heater_off''"
| "BuzzerCueId_label ActiveCoolingOn = ''active_cooling_on''"
| "BuzzerCueId_label ActiveCoolingOff = ''active_cooling_off''"
| "BuzzerCueId_label HeaterReject = ''heater_reject''"
| "BuzzerCueId_label ActiveCoolingReject = ''active_cooling_reject''"
| "BuzzerCueId_label ProtectionAlarm = ''protection_alarm''"
| "BuzzerCueId_label AttentionReminder = ''attention_reminder''"

definition BuzzerCueId_ALL :: "BuzzerCueId list" where
  "BuzzerCueId_ALL = [UiInput, HeaterOn, HeaterOff, ActiveCoolingOn, ActiveCoolingOff, HeaterReject,
     ActiveCoolingReject, ProtectionAlarm, AttentionReminder]"

fun is_feedback :: "BuzzerCueId \<Rightarrow> bool" where
  "is_feedback ProtectionAlarm = False"
| "is_feedback AttentionReminder = False"
| "is_feedback _ = True"

datatype BuzzerCueSource = FromStartup | FromFrontPanel | FromRuntimeControl | FromThermalProtection
  | FromThermalAttention | FromBuzzerTest

fun BuzzerCueSource_label :: "BuzzerCueSource \<Rightarrow> string" where
  "BuzzerCueSource_label FromStartup = ''startup''"
| "BuzzerCueSource_label FromFrontPanel = ''frontpanel''"
| "BuzzerCueSource_label FromRuntimeControl = ''runtime_control''"
| "BuzzerCueSource_label FromThermalProtection = ''thermal_protection''"
| "BuzzerCueSource_label FromThermalAttention = ''thermal_attention''"
| "BuzzerCueSource_label FromBuzzerTest = ''buzzer_test''"

datatype BuzzerDecisionDisposition = Started | Preempted | Queued | Coalesced | Replaced | Dropped | Stopped

fun BuzzerDecisionDisposition_label :: "BuzzerDecisionDisposition \<Rightarrow> string" where
  "BuzzerDecisionDisposition_label Started = ''started''"
| "BuzzerDecisionDisposition_label Preempted = ''preempted''"
| "BuzzerDecisionDisposition_label Queued = ''queued''"
| "BuzzerDecisionDisposition_label Coalesced = ''coalesced''"
| "BuzzerDecisionDisposition_label Replaced = ''replaced''"
| "BuzzerDecisionDisposition_label Dropped = ''dropped''"
| "BuzzerDecisionDisposition_label Stopped = ''stopped''"

record BuzzerDecision =
  decision_source :: BuzzerCueSource
  decision_cue :: BuzzerCueId
  disposition :: BuzzerDecisionDisposition

definition BuzzerDecision_new :: "BuzzerCueSource \<Rightarrow> BuzzerCueId \<Rightarrow> BuzzerDecisionDisposition \<Rightarrow> BuzzerDecision" where
  "BuzzerDecision_new source cue d = \<lparr>decision_source = source, decision_cue = cue, disposition = d\<rparr>"

record BuzzerStep =
  step_frequency_hz :: "u32 option"
  step_duty_percent :: u8
  duration_ms :: u32

definition tone :: "u32 \<Rightarrow> u32 \<Rightarrow> BuzzerStep" where
  "tone frequency_hz ms = \<lparr>step_frequency_hz = Some frequency_hz, step_duty_percent = 50, duration_ms = ms\<rparr>"

definition rest :: "u32 \<Rightarrow> BuzzerStep" where
  "rest ms = \<lparr>step_frequency_hz = None, step_duty_percent = 0, duration_ms = ms\<rparr>"

record BuzzerPattern =
  pattern_steps :: "BuzzerStep list"
  looping :: bool

record BuzzerOutput =
  output_frequency_hz :: "u32 option"
  output_duty_percent :: u8
  output_generation :: u32

definition silent_with_generation :: "u32 \<Rightarrow> BuzzerOutput" where
  "silent_with_generation g = \<lparr>output_frequency_hz = None, output_duty_percent = 0, output_generation = g\<rparr>"

definition silent :: BuzzerOutput where
  "silent = silent_with_generation 0"

record BuzzerTick =
  tick_output :: BuzzerOutput
  deferred_start :: "BuzzerDecision option"

definition UI_INPUT_PATTERN :: "BuzzerStep list" where
  "UI_INPUT_PATTERN = [tone 1080 45]"

definition HEATER_ON_PATTERN :: "BuzzerStep list" where
  "HEATER_ON_PATTERN = [tone 1240 60, rest 30, tone 1680 80]"

definition HEATER_OFF_PATTERN :: "BuzzerStep list" where
  "HEATER_OFF_PATTERN = [tone 1680 60, rest 30, tone 1240 80]"

definition ACTIVE_COOLING_ON_PATTERN :: "BuzzerStep list" where
  "ACTIVE_COOLING_ON_PATTERN = [tone 900 45, rest 25, tone 1200 45, rest 25, tone 1550 70]"

definition ACTIVE_COOLING_OFF_PATTERN :: "BuzzerStep list" where
  "ACTIVE_COOLING_OFF_PATTERN = [tone 1550 45, rest 25, tone 1200 45, rest 25, tone 900 70]"

definition HEATER_REJECT_PATTERN :: "BuzzerStep list" where
  "HEATER_REJECT_PATTERN = [tone 420 120, rest 35, tone 360 150]"

definition ACTIVE_COOLING_REJECT_PATTERN :: "BuzzerStep list" where
  "ACTIVE_COOLING_REJECT_PATTERN = [tone 480 75, rest 20, tone 480 75, rest 20, tone 320 120]"

definition PROTECTION_ALARM_PATTERN :: "BuzzerStep list" where
  "PROTECTION_ALARM_PATTERN = [tone 2300 90, rest 40, tone 2300 90, rest 80]"

definition ATTENTION_REMINDER_PATTERN :: "BuzzerStep list" where
  "ATTENTION_REMINDER_PATTERN = [tone 1650 70, rest 30, tone 2200 110]"

definition PROTECTION_ALARM_INTERVAL_MS :: u64 where
  "PROTECTION_ALARM_INTERVAL_MS = 1000"

definition ATTENTION_REMINDER_INTERVAL_MS :: u64 where
  "ATTENTION_REMINDER_INTERVAL_MS = 10000"

fun pattern_for :: "BuzzerCueId \<Rightarrow> BuzzerPattern" where
  "pattern_for UiInput = \<lparr>pattern_steps = UI_INPUT_PATTERN, looping = False\<rparr>"
| "pattern_for HeaterOn = \<lparr>pattern_steps = HEATER_ON_PATTERN, looping = False\<rparr>"
| "pattern_for HeaterOff = \<lparr>pattern_steps = HEATER_OFF_PATTERN, looping = False\<rparr>"
| "pattern_for ActiveCoolingOn = \<lparr>pattern_steps = ACTIVE_COOLING_ON_PATTERN, looping = False\<rparr>"
| "pattern_for ActiveCoolingOff = \<lparr>pattern_steps = ACTIVE_COOLING_OFF_PATTERN, looping = False\<rparr>"
| "pattern_for HeaterReject = \<lparr>pattern_steps = HEATER_REJECT_PATTERN, looping = False\<rparr>"
| "pattern_for ActiveCoolingReject = \<lparr>pattern_steps = ACTIVE_COOLING_REJECT_PATTERN, looping = False\<rparr>"
| "pattern_for ProtectionAlarm = \<lparr>pattern_steps = PROTECTION_ALARM_PATTERN, looping = False\<rparr>"
| "pattern_for AttentionReminder = \<lparr>pattern_steps = ATTENTION_REMINDER_PATTERN, looping = False\<rparr>"

definition output_for_step :: "BuzzerStep \<Rightarrow> u32 \<Rightarrow> BuzzerOutput" where
  "output_for_step s g =
     \<lparr>output_frequency_hz = step_frequency_hz s, output_duty_percent = step_duty_percent s, output_generation = g\<rparr>"

section \<open>The player\<close>

record ActiveCue =
  active_id :: BuzzerCueId
  step_index :: nat
  step_started_ms :: u64

record BuzzerController =
  active :: "ActiveCue option"
  player_output :: BuzzerOutput
  generation :: u32

definition BuzzerController_new :: BuzzerController where
  "BuzzerController_new = \<lparr>active = None, player_output = silent, generation = 0\<rparr>"

definition active_cue :: "BuzzerController \<Rightarrow> BuzzerCueId option" where
  "active_cue c = map_option active_id (active c)"

definition is_active :: "BuzzerController \<Rightarrow> bool" where
  "is_active c \<longleftrightarrow> active c \<noteq> None"

text \<open>A slice index: out of range it panics.\<close>

definition step_at :: "BuzzerStep list \<Rightarrow> nat \<Rightarrow> BuzzerStep rust" where
  "step_at steps i = (if i < length steps then Ret (steps ! i) else Panic)"

definition play :: "BuzzerController \<Rightarrow> BuzzerCueId \<Rightarrow> u64 \<Rightarrow> BuzzerController rust" where
  "play c cue now_ms =
     rbind (step_at (pattern_steps (pattern_for cue)) 0) (\<lambda>first_step.
     let g = generation c + 1 in
     Ret \<lparr>active = Some \<lparr>active_id = cue, step_index = 0, step_started_ms = now_ms\<rparr>,
          player_output = output_for_step first_step g, generation = g\<rparr>)"

definition stop_player :: "BuzzerController \<Rightarrow> BuzzerController" where
  "stop_player c =
     (let g = (if active c \<noteq> None \<or> output_frequency_hz (player_output c) \<noteq> None
                  \<or> output_duty_percent (player_output c) \<noteq> 0
               then generation c + 1 else generation c)
      in \<lparr>active = None, player_output = silent_with_generation g, generation = g\<rparr>)"

definition tick_player :: "BuzzerController \<Rightarrow> u64 \<Rightarrow> BuzzerController rust" where
  "tick_player c now_ms =
     (case active c of
        None \<Rightarrow> Ret (c\<lparr>player_output := silent_with_generation (generation c)\<rparr>)
      | Some a \<Rightarrow>
          let pattern = pattern_for (active_id a) in
          rbind (step_at (pattern_steps pattern) (step_index a)) (\<lambda>s.
          let scheduled_end_ms = sat_add (step_started_ms a) (ucast (duration_ms s)) in
          if now_ms < scheduled_end_ms
          then Ret (c\<lparr>player_output := output_for_step s (generation c), active := Some a\<rparr>)
          else
            let a = a\<lparr>step_started_ms := max scheduled_end_ms now_ms, step_index := step_index a + 1\<rparr>;
                past = step_index a \<ge> length (pattern_steps pattern)
            in
            if past \<and> \<not> looping pattern
            then let g = generation c + 1 in
              Ret \<lparr>active = None, player_output = silent_with_generation g, generation = g\<rparr>
            else
              let a = (if past then a\<lparr>step_index := 0\<rparr> else a) in
              rbind (step_at (pattern_steps pattern) (step_index a)) (\<lambda>next_step.
              Ret (c\<lparr>player_output := output_for_step next_step (generation c), active := Some a\<rparr>))))"

definition next_transition_ms :: "BuzzerController \<Rightarrow> u64 option rust" where
  "next_transition_ms c =
     (case active c of
        None \<Rightarrow> Ret None
      | Some a \<Rightarrow> rbind (step_at (pattern_steps (pattern_for (active_id a))) (step_index a)) (\<lambda>s.
          Ret (Some (sat_add (step_started_ms a) (ucast (duration_ms s))))))"

section \<open>The arbiter\<close>

datatype AudibleSafetyState = Normal | ProtectionActive | AttentionPending

record PendingCue =
  pending_source :: BuzzerCueSource
  pending_cue :: BuzzerCueId

definition PendingCue_decision :: "PendingCue \<Rightarrow> BuzzerDecisionDisposition \<Rightarrow> BuzzerDecision" where
  "PendingCue_decision p d = BuzzerDecision_new (pending_source p) (pending_cue p) d"

record BuzzerArbiter =
  controller :: BuzzerController
  safety_state :: AudibleSafetyState
  pending_feedback :: "PendingCue option"
  pending_attention :: "BuzzerCueSource option"

definition BuzzerArbiter_new :: BuzzerArbiter where
  "BuzzerArbiter_new = \<lparr>controller = BuzzerController_new, safety_state = Normal,
     pending_feedback = None, pending_attention = None\<rparr>"

definition arbiter_play :: "BuzzerArbiter \<Rightarrow> BuzzerCueId \<Rightarrow> u64 \<Rightarrow> BuzzerArbiter rust" where
  "arbiter_play a cue now_ms = rbind (play (controller a) cue now_ms) (\<lambda>c. Ret (a\<lparr>controller := c\<rparr>))"

abbreviation playing :: "BuzzerArbiter \<Rightarrow> BuzzerCueId option" where
  "playing a \<equiv> active_cue (controller a)"

definition activate_protection :: "BuzzerArbiter \<Rightarrow> BuzzerCueSource \<Rightarrow> u64 \<Rightarrow> (BuzzerArbiter \<times> BuzzerDecision) rust" where
  "activate_protection a source now_ms =
     (let d = (if is_active (controller a) then Preempted else Started);
          a = a\<lparr>safety_state := ProtectionActive, pending_feedback := None, pending_attention := None\<rparr>
      in rbind (arbiter_play a ProtectionAlarm now_ms) (\<lambda>a. Ret (a, BuzzerDecision_new source ProtectionAlarm d)))"

definition request_protection_replay :: "BuzzerArbiter \<Rightarrow> BuzzerCueSource \<Rightarrow> u64 \<Rightarrow> (BuzzerArbiter \<times> BuzzerDecision) rust" where
  "request_protection_replay a source now_ms =
     (if safety_state a \<noteq> ProtectionActive then Ret (a, BuzzerDecision_new source ProtectionAlarm Dropped)
      else if playing a = Some ProtectionAlarm then Ret (a, BuzzerDecision_new source ProtectionAlarm Coalesced)
      else
        let d = (if is_active (controller a) then Preempted else Started) in
        rbind (arbiter_play a ProtectionAlarm now_ms) (\<lambda>a. Ret (a, BuzzerDecision_new source ProtectionAlarm d)))"

definition enter_attention_pending :: "BuzzerArbiter \<Rightarrow> BuzzerArbiter \<times> BuzzerDecision option" where
  "enter_attention_pending a =
     (let a = a\<lparr>safety_state := AttentionPending, pending_feedback := None, pending_attention := None\<rparr> in
      if playing a = Some ProtectionAlarm
      then (a\<lparr>controller := stop_player (controller a)\<rparr>,
            Some (BuzzerDecision_new FromThermalProtection ProtectionAlarm Stopped))
      else (a, None))"

definition clear_attention :: "BuzzerArbiter \<Rightarrow> BuzzerArbiter \<times> BuzzerDecision option" where
  "clear_attention a =
     (let a = a\<lparr>safety_state := Normal, pending_feedback := None, pending_attention := None\<rparr> in
      case playing a of
        Some ProtectionAlarm \<Rightarrow>
          (a\<lparr>controller := stop_player (controller a)\<rparr>, Some (BuzzerDecision_new FromThermalProtection ProtectionAlarm Stopped))
      | Some AttentionReminder \<Rightarrow>
          (a\<lparr>controller := stop_player (controller a)\<rparr>, Some (BuzzerDecision_new FromThermalAttention AttentionReminder Stopped))
      | _ \<Rightarrow> (a, None))"

definition request_attention_reminder :: "BuzzerArbiter \<Rightarrow> BuzzerCueSource \<Rightarrow> u64 \<Rightarrow> (BuzzerArbiter \<times> BuzzerDecision) rust" where
  "request_attention_reminder a source now_ms =
     (if safety_state a \<noteq> AttentionPending then Ret (a, BuzzerDecision_new source AttentionReminder Dropped)
      else case playing a of
        None \<Rightarrow> rbind (arbiter_play a AttentionReminder now_ms) (\<lambda>a. Ret (a, BuzzerDecision_new source AttentionReminder Started))
      | Some AttentionReminder \<Rightarrow> Ret (a, BuzzerDecision_new source AttentionReminder Coalesced)
      | Some ProtectionAlarm \<Rightarrow> Ret (a, BuzzerDecision_new source AttentionReminder Coalesced)
      | Some _ \<Rightarrow>
          if pending_attention a \<noteq> None then Ret (a, BuzzerDecision_new source AttentionReminder Coalesced)
          else Ret (a\<lparr>pending_attention := Some source\<rparr>, BuzzerDecision_new source AttentionReminder Queued))"

definition request_feedback :: "BuzzerArbiter \<Rightarrow> BuzzerCueSource \<Rightarrow> BuzzerCueId \<Rightarrow> u64 \<Rightarrow> (BuzzerArbiter \<times> BuzzerDecision) rust" where
  "request_feedback a source cue now_ms =
     (if \<not> is_feedback cue then Ret (a, BuzzerDecision_new source cue Dropped)
      else if safety_state a \<noteq> Normal then Ret (a, BuzzerDecision_new source cue Dropped)
      else if \<not> is_active (controller a)
        then rbind (arbiter_play a cue now_ms) (\<lambda>a. Ret (a, BuzzerDecision_new source cue Started))
      else
        let pending = \<lparr>pending_source = source, pending_cue = cue\<rparr> in
        case pending_feedback a of
          None \<Rightarrow> Ret (a\<lparr>pending_feedback := Some pending\<rparr>, PendingCue_decision pending Queued)
        | Some _ \<Rightarrow>
            if cue = UiInput then Ret (a, PendingCue_decision pending Coalesced)
            else Ret (a\<lparr>pending_feedback := Some pending\<rparr>, PendingCue_decision pending Replaced))"

definition stop_test_playback :: "BuzzerArbiter \<Rightarrow> BuzzerArbiter \<times> BuzzerDecision option" where
  "stop_test_playback a =
     (let a = a\<lparr>pending_feedback := None, pending_attention := None, safety_state := Normal\<rparr> in
      case playing a of
        None \<Rightarrow> (a, None)
      | Some cue \<Rightarrow> (a\<lparr>controller := stop_player (controller a)\<rparr>, Some (BuzzerDecision_new FromBuzzerTest cue Stopped)))"

definition tick_arbiter :: "BuzzerArbiter \<Rightarrow> u64 \<Rightarrow> (BuzzerArbiter \<times> BuzzerTick) rust" where
  "tick_arbiter a now_ms =
     rbind (tick_player (controller a) now_ms) (\<lambda>c.
     let a = a\<lparr>controller := c\<rparr>; quiet = Ret (a, \<lparr>tick_output = player_output c, deferred_start = None\<rparr>) in
     if is_active c then quiet
     else if safety_state a = AttentionPending then
       case pending_attention a of
         None \<Rightarrow> quiet
       | Some source \<Rightarrow>
           rbind (arbiter_play (a\<lparr>pending_attention := None\<rparr>) AttentionReminder now_ms) (\<lambda>a.
           Ret (a, \<lparr>tick_output = player_output (controller a),
                    deferred_start = Some (BuzzerDecision_new source AttentionReminder Started)\<rparr>))
     else if safety_state a = Normal then
       case pending_feedback a of
         None \<Rightarrow> quiet
       | Some pending \<Rightarrow>
           rbind (arbiter_play (a\<lparr>pending_feedback := None\<rparr>) (pending_cue pending) now_ms) (\<lambda>a.
           Ret (a, \<lparr>tick_output = player_output (controller a),
                    deferred_start = Some (PendingCue_decision pending Started)\<rparr>))
     else quiet)"

section \<open>The alarm cadence\<close>

record ProtectionAlarmCadence =
  next_replay_ms :: "u64 option"

definition ProtectionAlarmCadence_new :: ProtectionAlarmCadence where
  "ProtectionAlarmCadence_new = \<lparr>next_replay_ms = None\<rparr>"

definition arm :: "ProtectionAlarmCadence \<Rightarrow> u64 \<Rightarrow> ProtectionAlarmCadence" where
  "arm d now_ms = d\<lparr>next_replay_ms := Some (sat_add now_ms PROTECTION_ALARM_INTERVAL_MS)\<rparr>"

definition clear_cadence :: "ProtectionAlarmCadence \<Rightarrow> ProtectionAlarmCadence" where
  "clear_cadence d = d\<lparr>next_replay_ms := None\<rparr>"

definition enter_with_source ::
  "ProtectionAlarmCadence \<Rightarrow> BuzzerArbiter \<Rightarrow> BuzzerCueSource \<Rightarrow> u64 \<Rightarrow> (ProtectionAlarmCadence \<times> BuzzerArbiter \<times> BuzzerDecision) rust" where
  "enter_with_source d buzzer source now_ms =
     rbind (activate_protection buzzer source now_ms) (\<lambda>(buzzer, decision). Ret (arm d now_ms, buzzer, decision))"

definition enter_cadence ::
  "ProtectionAlarmCadence \<Rightarrow> BuzzerArbiter \<Rightarrow> u64 \<Rightarrow> (ProtectionAlarmCadence \<times> BuzzerArbiter \<times> BuzzerDecision) rust" where
  "enter_cadence d buzzer now_ms = enter_with_source d buzzer FromThermalProtection now_ms"

definition replay_due :: "ProtectionAlarmCadence \<Rightarrow> bool \<Rightarrow> u64 \<Rightarrow> ProtectionAlarmCadence \<times> bool" where
  "replay_due d fault_present now_ms =
     (if \<not> fault_present then (clear_cadence d, False)
      else case next_replay_ms d of
        None \<Rightarrow> (d, False)
      | Some next \<Rightarrow> if now_ms < next then (d, False) else (arm d now_ms, True))"

definition tick_cadence ::
  "ProtectionAlarmCadence \<Rightarrow> bool \<Rightarrow> BuzzerArbiter \<Rightarrow> u64 \<Rightarrow> (ProtectionAlarmCadence \<times> BuzzerArbiter \<times> BuzzerDecision option) rust" where
  "tick_cadence d fault_present buzzer now_ms =
     (case replay_due d fault_present now_ms of
        (d, False) \<Rightarrow> Ret (d, buzzer, None)
      | (d, True) \<Rightarrow> rbind (request_protection_replay buzzer FromThermalProtection now_ms)
          (\<lambda>(buzzer, decision). Ret (d, buzzer, Some decision)))"

section \<open>The player keeps its place\<close>

lemmas pattern_defs = UI_INPUT_PATTERN_def HEATER_ON_PATTERN_def HEATER_OFF_PATTERN_def ACTIVE_COOLING_ON_PATTERN_def
  ACTIVE_COOLING_OFF_PATTERN_def HEATER_REJECT_PATTERN_def ACTIVE_COOLING_REJECT_PATTERN_def
  PROTECTION_ALARM_PATTERN_def ATTENTION_REMINDER_PATTERN_def

abbreviation steps_of :: "BuzzerCueId \<Rightarrow> BuzzerStep list" where
  "steps_of cue \<equiv> pattern_steps (pattern_for cue)"

lemma steps_nonempty [simp]: "steps_of cue \<noteq> []" "0 < length (steps_of cue)"
  by (cases cue; simp add: pattern_defs)+

lemma one_shot [simp]: "\<not> looping (pattern_for cue)"
  by (cases cue) simp_all

text \<open>The active step exists and the output shows it; without a cue the output is silent.\<close>

definition player_inv :: "BuzzerController \<Rightarrow> bool" where
  "player_inv c =
     (case active c of
        None \<Rightarrow> player_output c = silent_with_generation (generation c)
      | Some a \<Rightarrow> step_index a < length (steps_of (active_id a))
          \<and> player_output c = output_for_step (steps_of (active_id a) ! step_index a) (generation c))"

definition started :: "BuzzerController \<Rightarrow> BuzzerCueId \<Rightarrow> u64 \<Rightarrow> BuzzerController" where
  "started c cue now_ms =
     \<lparr>active = Some \<lparr>active_id = cue, step_index = 0, step_started_ms = now_ms\<rparr>,
      player_output = output_for_step (steps_of cue ! 0) (generation c + 1), generation = generation c + 1\<rparr>"

lemma play_started [simp]: "play c cue now_ms = Ret (started c cue now_ms)"
  by (simp add: play_def step_at_def started_def Let_def)

lemma started_facts [simp]:
  "player_inv (started c cue t)" "active_cue (started c cue t) = Some cue" "is_active (started c cue t)"
  by (simp_all add: started_def player_inv_def active_cue_def is_active_def)

lemma stopped_facts [simp]:
  "player_inv (stop_player c)" "active_cue (stop_player c) = None" "\<not> is_active (stop_player c)"
  by (simp_all add: stop_player_def Let_def player_inv_def active_cue_def is_active_def)

lemma arbiter_play_started [simp]: "arbiter_play a cue t = Ret (a\<lparr>controller := started (controller a) cue t\<rparr>)"
  by (simp add: arbiter_play_def)

lemma is_active_iff: "is_active c \<longleftrightarrow> active_cue c \<noteq> None"
  by (simp add: is_active_def active_cue_def)

text \<open>What one tick does to a player that keeps its place.\<close>

lemma tick_player_cases:
  assumes "player_inv c"
  obtains (idle) "active c = None" "tick_player c t = Ret c"
    | (hold) a where "active c = Some a"
        "t < sat_add (step_started_ms a) (ucast (duration_ms (steps_of (active_id a) ! step_index a)))" "tick_player c t = Ret c"
    | (advance) a where "active c = Some a" "Suc (step_index a) < length (steps_of (active_id a))"
        "sat_add (step_started_ms a) (ucast (duration_ms (steps_of (active_id a) ! step_index a))) \<le> t"
        "tick_player c t = Ret (c\<lparr>player_output := output_for_step (steps_of (active_id a) ! Suc (step_index a)) (generation c),
           active := Some (a\<lparr>step_index := Suc (step_index a), step_started_ms := t\<rparr>)\<rparr>)"
    | (finish) a where "active c = Some a" "Suc (step_index a) = length (steps_of (active_id a))"
        "sat_add (step_started_ms a) (ucast (duration_ms (steps_of (active_id a) ! step_index a))) \<le> t"
        "tick_player c t = Ret \<lparr>active = None, player_output = silent_with_generation (generation c + 1), generation = generation c + 1\<rparr>"
proof (cases "active c")
  case None
  then show ?thesis using assms idle by (simp add: tick_player_def player_inv_def)
next
  case (Some a)
  let ?s = "steps_of (active_id a) ! step_index a"
  let ?due = "sat_add (step_started_ms a) (ucast (duration_ms ?s))"
  have inv: "step_index a < length (steps_of (active_id a))" "player_output c = output_for_step ?s (generation c)"
    using assms Some by (simp_all add: player_inv_def)
  show ?thesis
  proof (cases "t < ?due")
    case True
    then show ?thesis using hold [OF Some] Some inv by (simp add: tick_player_def step_at_def Let_def)
  next
    case False
    then have max: "max ?due t = t" "?due \<le> t" by simp_all
    consider "Suc (step_index a) < length (steps_of (active_id a))" | "Suc (step_index a) = length (steps_of (active_id a))"
      using inv(1) by linarith
    then show ?thesis
    proof cases
      case 1
      then show ?thesis using advance [OF Some 1 max(2)] Some inv False max
        by (simp add: tick_player_def step_at_def Let_def)
    next
      case 2
      then show ?thesis using finish [OF Some 2 max(2)] Some inv False
        by (simp add: tick_player_def step_at_def Let_def)
    qed
  qed
qed

lemma tick_player_inv:
  assumes "player_inv c"
  obtains c' where "tick_player c t = Ret c'" "player_inv c'" "active_cue c' = None \<or> active_cue c' = active_cue c"
  using assms
proof (cases rule: tick_player_cases [where t = t])
  case idle
  then show ?thesis using that assms by simp
next
  case (hold a)
  then show ?thesis using that assms by simp
next
  case (advance a)
  then show ?thesis using that by (simp add: player_inv_def active_cue_def)
next
  case (finish a)
  then show ?thesis using that by (simp add: player_inv_def active_cue_def)
qed

section \<open>Runs of the arbiter\<close>

datatype ArbiterCall =
    CallActivateProtection BuzzerCueSource u64
  | CallProtectionReplay BuzzerCueSource u64
  | CallEnterAttention
  | CallClearAttention
  | CallAttentionReminder BuzzerCueSource u64
  | CallFeedback BuzzerCueSource BuzzerCueId u64
  | CallStopTest
  | CallTick u64

fun arbiter_call :: "BuzzerArbiter \<Rightarrow> ArbiterCall \<Rightarrow> BuzzerArbiter rust" where
  "arbiter_call a (CallActivateProtection s t) = rbind (activate_protection a s t) (\<lambda>(a, _). Ret a)"
| "arbiter_call a (CallProtectionReplay s t) = rbind (request_protection_replay a s t) (\<lambda>(a, _). Ret a)"
| "arbiter_call a CallEnterAttention = Ret (fst (enter_attention_pending a))"
| "arbiter_call a CallClearAttention = Ret (fst (clear_attention a))"
| "arbiter_call a (CallAttentionReminder s t) = rbind (request_attention_reminder a s t) (\<lambda>(a, _). Ret a)"
| "arbiter_call a (CallFeedback s cue t) = rbind (request_feedback a s cue t) (\<lambda>(a, _). Ret a)"
| "arbiter_call a CallStopTest = Ret (fst (stop_test_playback a))"
| "arbiter_call a (CallTick t) = rbind (tick_arbiter a t) (\<lambda>(a, _). Ret a)"

definition arbiter_step :: "BuzzerArbiter rust \<Rightarrow> ArbiterCall \<Rightarrow> BuzzerArbiter rust" where
  "arbiter_step m call = rbind m (\<lambda>a. arbiter_call a call)"

abbreviation arbiter_run :: "ArbiterCall list \<Rightarrow> BuzzerArbiter rust" where
  "arbiter_run calls \<equiv> run arbiter_step (Ret BuzzerArbiter_new) calls"

definition arbiter_inv :: "BuzzerArbiter \<Rightarrow> bool" where
  "arbiter_inv a \<longleftrightarrow> player_inv (controller a)
     \<and> (playing a = Some ProtectionAlarm \<longrightarrow> safety_state a = ProtectionActive)
     \<and> (playing a = Some AttentionReminder \<longrightarrow> safety_state a = AttentionPending)
     \<and> (safety_state a = ProtectionActive \<longrightarrow> playing a \<in> {None, Some ProtectionAlarm})
     \<and> (\<forall>p. pending_feedback a = Some p \<longrightarrow> safety_state a = Normal \<and> is_feedback (pending_cue p) \<and> playing a \<noteq> None)
     \<and> (pending_attention a \<noteq> None \<longrightarrow> safety_state a = AttentionPending \<and> playing a \<noteq> None)"

abbreviation arbiter_ok :: "BuzzerArbiter rust \<Rightarrow> bool" where
  "arbiter_ok \<equiv> rust_all arbiter_inv"

lemma feedback_is_not_safety [simp]:
  "is_feedback cue \<Longrightarrow> cue \<noteq> ProtectionAlarm" "is_feedback cue \<Longrightarrow> cue \<noteq> AttentionReminder"
  by (cases cue; simp)+

lemma not_feedback_iff: "\<not> is_feedback cue \<longleftrightarrow> cue = ProtectionAlarm \<or> cue = AttentionReminder"
  by (cases cue) simp_all

lemma tick_arbiter_inv:
  assumes "arbiter_inv a"
  shows "arbiter_ok (arbiter_call a (CallTick t))"
proof -
  have "player_inv (controller a)" using assms by (simp add: arbiter_inv_def)
  then obtain c where c: "tick_player (controller a) t = Ret c" "player_inv c"
      "active_cue c = None \<or> active_cue c = playing a"
    by (rule tick_player_inv)
  show ?thesis
    using assms c
    by (cases "pending_feedback a"; cases "pending_attention a"; cases "safety_state a")
      (auto simp: tick_arbiter_def arbiter_inv_def Let_def is_active_iff)
qed

lemma arbiter_call_inv:
  assumes "arbiter_inv a"
  shows "arbiter_ok (arbiter_call a call)"
proof (cases call)
  case (CallTick t)
  then show ?thesis using tick_arbiter_inv [OF assms] by simp
next
  case (CallFeedback s cue t)
  then show ?thesis using assms
    by (auto simp: request_feedback_def arbiter_inv_def is_active_iff Let_def split: option.split)
next
  case (CallAttentionReminder s t)
  then show ?thesis using assms
    by (auto simp: request_attention_reminder_def arbiter_inv_def split: option.split BuzzerCueId.split)
next
  case CallClearAttention
  then show ?thesis using assms
    by (auto simp: clear_attention_def arbiter_inv_def Let_def split: option.split BuzzerCueId.split)
next
  case CallStopTest
  then show ?thesis using assms
    by (auto simp: stop_test_playback_def arbiter_inv_def Let_def split: option.split)
qed (use assms in \<open>auto simp: activate_protection_def request_protection_replay_def enter_attention_pending_def
       arbiter_inv_def Let_def\<close>)

interpretation arbiter: invariant_machine arbiter_step arbiter_ok
proof
  show "arbiter_ok (arbiter_step m call)" if "arbiter_ok m" for m call
    using that by (cases m) (auto simp: arbiter_step_def arbiter_call_inv)
qed

lemma arbiter_new_inv: "arbiter_inv BuzzerArbiter_new"
  by (simp add: arbiter_inv_def BuzzerArbiter_new_def BuzzerController_new_def player_inv_def active_cue_def silent_def)

lemma arbiter_run_inv: "\<exists>a. arbiter_run calls = Ret a \<and> arbiter_inv a"
  using arbiter.run_inv [of "Ret BuzzerArbiter_new" calls] arbiter_new_inv by (cases "arbiter_run calls") auto

section \<open>What is heard\<close>

text \<open>The outputs of ticks at given times, and of ticks that come some time after the transition
  the player announces, as the buzzer task schedules them.\<close>

fun ticked :: "BuzzerController \<Rightarrow> u64 list \<Rightarrow> BuzzerOutput list rust" where
  "ticked c [] = Ret []"
| "ticked c (t # ts) = rbind (tick_player c t) (\<lambda>c. rbind (ticked c ts) (\<lambda>os. Ret (player_output c # os)))"

fun woken :: "BuzzerController \<Rightarrow> u64 list \<Rightarrow> BuzzerOutput list rust" where
  "woken c [] = Ret []"
| "woken c (late # ds) = rbind (next_transition_ms c) (\<lambda>n.
     case n of
       None \<Rightarrow> Ret []
     | Some t \<Rightarrow> rbind (tick_player c (sat_add t late)) (\<lambda>c. rbind (woken c ds) (\<lambda>os. Ret (player_output c # os))))"

text \<open>The outputs a player still owes: the current step, the steps after it, and silence.\<close>

definition score :: "BuzzerController \<Rightarrow> BuzzerOutput list" where
  "score c =
     (case active c of
        None \<Rightarrow> [silent_with_generation (generation c)]
      | Some a \<Rightarrow> map (\<lambda>s. output_for_step s (generation c)) (drop (step_index a) (steps_of (active_id a)))
          @ [silent_with_generation (generation c + 1)])"

lemma steps_alternate: "successively (\<lambda>s s'. step_frequency_hz s \<noteq> step_frequency_hz s') (steps_of cue)"
  by (cases cue) (simp_all add: pattern_defs tone_def rest_def)

lemma adjacent_outputs_differ:
  "Suc i < length (steps_of cue) \<Longrightarrow> output_for_step (steps_of cue ! i) g \<noteq> output_for_step (steps_of cue ! Suc i) g"
  using steps_alternate [of cue] by (auto simp: successively_conv_nth output_for_step_def)

lemma output_differs_from_later_silence: "output_for_step s g \<noteq> silent_with_generation (g + 1)"
  by (simp add: output_for_step_def silent_with_generation_def)

text \<open>A tick leaves the player alone or moves it one output further in its score.\<close>

lemma tick_follows_score:
  assumes "player_inv c"
  obtains "tick_player c t = Ret c"
    | c' where "tick_player c t = Ret c'" "player_inv c'" "score c = player_output c # score c'" "player_output c' \<noteq> player_output c"
  using assms
proof (cases rule: tick_player_cases [where t = t])
  case (advance a)
  let ?c = "c\<lparr>player_output := output_for_step (steps_of (active_id a) ! Suc (step_index a)) (generation c),
           active := Some (a\<lparr>step_index := Suc (step_index a), step_started_ms := t\<rparr>)\<rparr>"
  have "player_inv ?c" using advance by (simp add: player_inv_def)
  moreover have "score c = player_output c # score ?c" "player_output ?c \<noteq> player_output c"
    using advance assms adjacent_outputs_differ [of "step_index a" "active_id a" "generation c"]
    by (auto simp: score_def player_inv_def simp flip: Cons_nth_drop_Suc)
  ultimately show ?thesis using that(2) advance(4) by blast
next
  case (finish a)
  have "drop (step_index a) (steps_of (active_id a)) = [steps_of (active_id a) ! step_index a]"
    using finish(2) by (metis Cons_nth_drop_Suc drop_all lessI order_refl)
  then have "score c = player_output c # [silent_with_generation (generation c + 1)]"
    using finish assms by (simp add: score_def player_inv_def)
  moreover have "player_output c = output_for_step (steps_of (active_id a) ! step_index a) (generation c)"
    using finish assms by (simp add: player_inv_def)
  ultimately show ?thesis
    using that(2) [OF finish(4)] output_differs_from_later_silence [of _ "generation c", THEN not_sym]
    by (simp add: score_def player_inv_def)
qed (use that(1) in blast)+

lemma score_head: "player_inv c \<Longrightarrow> \<exists>os. score c = player_output c # os"
  by (cases "active c") (auto simp: score_def player_inv_def simp flip: Cons_nth_drop_Suc)

lemma ticked_hears_score:
  "player_inv c \<Longrightarrow> \<exists>os k. ticked c ts = Ret os \<and> remdups_adj (player_output c # os) = take (Suc k) (score c)"
proof (induction ts arbitrary: c)
  case Nil
  then show ?case using score_head [of c] by (auto intro: exI [of _ 0])
next
  case (Cons t ts)
  from Cons.prems show ?case
  proof (cases rule: tick_follows_score [where t = t])
    case 1
    then show ?thesis using Cons.IH [OF Cons.prems] by auto
  next
    case (2 c')
    obtain os k where os: "ticked c' ts = Ret os" "remdups_adj (player_output c' # os) = take (Suc k) (score c')"
      using Cons.IH [OF 2(2)] by blast
    then have "remdups_adj (player_output c # player_output c' # os) = take (Suc (Suc k)) (score c)"
      using 2(3,4) by simp
    then show ?thesis using 2(1) os(1) by auto
  qed
qed

lemma sat_add_ge: "a \<le> sat_add a (b :: 'a::len word)"
  by (auto simp: sat_add_def not_less word_order.extremum)

lemma next_transition_active:
  "player_inv c \<Longrightarrow> active c = Some a \<Longrightarrow>
     next_transition_ms c = Ret (Some (sat_add (step_started_ms a) (ucast (duration_ms (steps_of (active_id a) ! step_index a)))))"
  by (simp add: next_transition_ms_def step_at_def player_inv_def)

lemma woken_hears_score:
  assumes "player_inv c" "Suc (length ds) = length (score c)"
  shows "\<exists>os. woken c ds = Ret os \<and> player_output c # os = score c"
  using assms
proof (induction ds arbitrary: c)
  case Nil
  then show ?case using score_head [OF Nil.prems(1)] by (cases "score c") auto
next
  case (Cons late ds)
  obtain a where a: "active c = Some a" using Cons.prems(2) by (cases "active c") (auto simp: score_def)
  let ?t = "sat_add (step_started_ms a) (ucast (duration_ms (steps_of (active_id a) ! step_index a)))"
  note announced = next_transition_active [OF Cons.prems(1) a]
  from Cons.prems(1) have "tick_player c (sat_add ?t late) \<noteq> Ret c"
  proof (cases rule: tick_player_cases [where t = "sat_add ?t late"])
    case (hold a')
    then show ?thesis using a sat_add_ge [of ?t late] by simp
  next
    case (advance a')
    then show ?thesis by (auto dest!: arg_cong [of _ _ "\<lambda>c. map_option step_index (active c)"])
  qed (use a in \<open>auto dest!: arg_cong [of _ _ active]\<close>)
  then obtain c' where c': "tick_player c (sat_add ?t late) = Ret c'" "player_inv c'" "score c = player_output c # score c'"
    using tick_follows_score [OF Cons.prems(1), where t = "sat_add ?t late"] by metis
  then show ?case using Cons.IH [OF c'(2)] Cons.prems(2) announced by auto
qed

text \<open>
  \<^bold>\<open>A cue is heard step by step.\<close> Whatever the times at which the player is ticked after a cue
  starts, it never panics, and what is heard, with repetitions collapsed, is a prefix of the cue's
  pattern followed by silence: no step is skipped, repeated or reordered, however late a tick comes.
  When the task wakes some time after each announced transition, as often as the pattern has steps,
  the whole pattern and the closing silence are heard.
\<close>

theorem cue_is_heard_step_by_step:
  assumes "play c cue t0 = Ret c0" "length delays = length (pattern_steps (pattern_for cue))"
  shows "(\<exists>os k. ticked c0 ts = Ret os
      \<and> remdups_adj (player_output c0 # os) = take (Suc k)
          (map (\<lambda>s. output_for_step s (generation c + 1)) (pattern_steps (pattern_for cue)) @ [silent_with_generation (generation c + 2)]))
    \<and> (\<exists>os. woken c0 delays = Ret os
      \<and> player_output c0 # os =
          map (\<lambda>s. output_for_step s (generation c + 1)) (pattern_steps (pattern_for cue)) @ [silent_with_generation (generation c + 2)])"
proof -
  have c0: "c0 = started c cue t0" using assms by simp
  then have "score c0 = map (\<lambda>s. output_for_step s (generation c + 1)) (steps_of cue) @ [silent_with_generation (generation c + 2)]"
    by (simp add: score_def started_def add.assoc)
  then show ?thesis
    using ticked_hears_score [of c0 ts] woken_hears_score [of c0 delays] c0 assms(2) by simp
qed

theorem cue_is_heard_step_by_step_witness:
  "\<exists>os. woken (started BuzzerController_new HeaterOn 1000) [5, 0, 700] = Ret os
     \<and> player_output (started BuzzerController_new HeaterOn 1000) # os =
       [\<lparr>output_frequency_hz = Some 1240, output_duty_percent = 50, output_generation = 1\<rparr>,
        \<lparr>output_frequency_hz = None, output_duty_percent = 0, output_generation = 1\<rparr>,
        \<lparr>output_frequency_hz = Some 1680, output_duty_percent = 50, output_generation = 1\<rparr>,
        \<lparr>output_frequency_hz = None, output_duty_percent = 0, output_generation = 2\<rparr>]"
  using cue_is_heard_step_by_step [of BuzzerController_new HeaterOn 1000 _ "[5, 0, 700]"]
  by (simp add: HEATER_ON_PATTERN_def BuzzerController_new_def output_for_step_def tone_def rest_def silent_with_generation_def)

section \<open>Which cue may be heard\<close>

text \<open>
  \<^bold>\<open>Safety decides what the buzzer says (C11).\<close> After any sequence of calls the arbiter has not
  panicked; the protection alarm is heard only while protection is active, and nothing else is heard
  then; the attention reminder is heard only while attention is pending; a waiting feedback cue waits
  only in the normal state and a waiting reminder only while attention is pending, and each waits for a
  cue that is really being played, so that its turn comes; the output is silent exactly when no cue is
  played or the cue rests.
\<close>

theorem buzzer_respects_safety:
  "\<exists>a. arbiter_run calls = Ret a
     \<and> (active_cue (controller a) = Some ProtectionAlarm \<longrightarrow> safety_state a = ProtectionActive)
     \<and> (active_cue (controller a) = Some AttentionReminder \<longrightarrow> safety_state a = AttentionPending)
     \<and> (safety_state a = ProtectionActive \<longrightarrow> active_cue (controller a) \<in> {None, Some ProtectionAlarm})
     \<and> (pending_feedback a \<noteq> None \<longrightarrow> safety_state a = Normal \<and> is_active (controller a))
     \<and> (pending_attention a \<noteq> None \<longrightarrow> safety_state a = AttentionPending \<and> is_active (controller a))
     \<and> (\<not> is_active (controller a) \<longrightarrow> player_output (controller a) = silent_with_generation (generation (controller a)))"
proof -
  obtain a where "arbiter_run calls = Ret a" "arbiter_inv a" using arbiter_run_inv [of calls] by blast
  moreover from this(2) have "\<not> is_active (controller a) \<Longrightarrow> player_output (controller a) = silent_with_generation (generation (controller a))"
    by (simp add: arbiter_inv_def player_inv_def is_active_def)
  ultimately show ?thesis by (auto simp: arbiter_inv_def is_active_iff)
qed

theorem buzzer_respects_safety_witness:
  "\<exists>a. arbiter_run [CallFeedback FromFrontPanel UiInput 0, CallActivateProtection FromThermalProtection 10, CallFeedback FromFrontPanel HeaterOn 20] = Ret a
     \<and> safety_state a = ProtectionActive \<and> active_cue (controller a) = Some ProtectionAlarm \<and> pending_feedback a = None"
  using buzzer_respects_safety [of "[CallFeedback FromFrontPanel UiInput 0, CallActivateProtection FromThermalProtection 10, CallFeedback FromFrontPanel HeaterOn 20]"]
  by (auto simp: arbiter_step_def request_feedback_def activate_protection_def BuzzerArbiter_new_def
      BuzzerController_new_def is_active_def Let_def)

section \<open>How often the alarm repeats\<close>

text \<open>While protection is active the runtime ticks the cadence, and other calls reach the arbiter in
  between; the calls that end protection are not among them.\<close>

datatype AlarmEvent = CadenceTick bool u64 | OtherCall ArbiterCall

fun keeps_protection :: "AlarmEvent \<Rightarrow> bool" where
  "keeps_protection (OtherCall call) = (call \<notin> {CallEnterAttention, CallClearAttention, CallStopTest})"
| "keeps_protection (CadenceTick _ _) = True"

fun alarm_replays :: "ProtectionAlarmCadence \<Rightarrow> BuzzerArbiter \<Rightarrow> AlarmEvent list \<Rightarrow> (u64 \<times> BuzzerDecision) list rust" where
  "alarm_replays d a [] = Ret []"
| "alarm_replays d a (OtherCall call # es) = rbind (arbiter_call a call) (\<lambda>a. alarm_replays d a es)"
| "alarm_replays d a (CadenceTick fault t # es) =
     rbind (tick_cadence d fault a t) (\<lambda>(d, a, decision).
     rbind (alarm_replays d a es) (\<lambda>rs.
     Ret (case decision of None \<Rightarrow> rs | Some x \<Rightarrow> (t, x) # rs)))"

text \<open>The specification: a tick replays when a second has passed since the last replay, until the
  fault is gone.\<close>

fun once_a_second :: "nat \<Rightarrow> AlarmEvent list \<Rightarrow> u64 list" where
  "once_a_second due [] = []"
| "once_a_second due (OtherCall _ # es) = once_a_second due es"
| "once_a_second due (CadenceTick fault t # es) =
     (if \<not> fault then [] else if unat t < due then once_a_second due es else t # once_a_second (unat t + 1000) es)"

fun event_time :: "AlarmEvent \<Rightarrow> u64" where
  "event_time (CadenceTick _ t) = t"
| "event_time (OtherCall _) = 0"

lemma protection_persists:
  assumes "safety_state a = ProtectionActive" "keeps_protection (OtherCall call)" "arbiter_call a call = Ret a'"
  shows "safety_state a' = ProtectionActive"
  using assms
  by (cases call) (auto simp: activate_protection_def request_protection_replay_def request_attention_reminder_def
      request_feedback_def tick_arbiter_def Let_def split: if_splits)

lemma disarmed_is_quiet:
  assumes "next_replay_ms d = None" "arbiter_inv a"
  shows "alarm_replays d a es = Ret []"
  using assms
proof (induction es arbitrary: d a)
  case (Cons e es)
  show ?case
  proof (cases e)
    case (CadenceTick f t)
    then show ?thesis using Cons by (simp add: tick_cadence_def replay_due_def clear_cadence_def)
  next
    case (OtherCall call)
    then show ?thesis using Cons arbiter_call_inv [OF Cons.prems(2), of call] by (cases "arbiter_call a call") auto
  qed
qed simp

lemma replay_in_protection:
  assumes "arbiter_inv a" "safety_state a = ProtectionActive"
  obtains a' x where "request_protection_replay a s t = Ret (a', x)" "arbiter_inv a'" "safety_state a' = ProtectionActive"
    "decision_cue x = ProtectionAlarm" "disposition x \<in> {Started, Coalesced}" "playing a' = Some ProtectionAlarm"
proof -
  have "arbiter_ok (arbiter_call a (CallProtectionReplay s t))" by (rule arbiter_call_inv [OF assms(1)])
  then show ?thesis
    using that assms
    by (auto simp: request_protection_replay_def arbiter_inv_def is_active_iff BuzzerDecision_new_def split: if_splits)
qed

lemma armed_replays:
  assumes "arbiter_inv a" "safety_state a = ProtectionActive" "next_replay_ms d = Some next"
    "list_all keeps_protection es" "list_all (\<lambda>e. unat (event_time e) + 1000 < 2 ^ 64) es"
  shows "\<exists>rs. alarm_replays d a es = Ret rs \<and> map fst rs = once_a_second (unat next) es
    \<and> list_all (\<lambda>r. decision_cue (snd r) = ProtectionAlarm \<and> disposition (snd r) \<in> {Started, Coalesced}) rs"
  using assms
proof (induction es arbitrary: a d "next")
  case (Cons e es)
  show ?case
  proof (cases e)
    case (OtherCall call)
    obtain a' where a': "arbiter_call a call = Ret a'" "arbiter_inv a'"
      using arbiter_call_inv [OF Cons.prems(1), of call] by (cases "arbiter_call a call") auto
    moreover have "safety_state a' = ProtectionActive"
      using protection_persists [OF Cons.prems(2) _ a'(1)] Cons.prems(4) OtherCall by simp
    ultimately show ?thesis using Cons.IH [of a' d "next"] Cons.prems OtherCall by simp
  next
    case (CadenceTick fault t)
    consider "\<not> fault" | "fault" "t < next" | "fault" "next \<le> t" by force
    then show ?thesis
    proof cases
      case 1
      then show ?thesis using CadenceTick disarmed_is_quiet [OF _ Cons.prems(1), of "clear_cadence d" es]
        by (simp add: tick_cadence_def replay_due_def clear_cadence_def)
    next
      case 2
      then show ?thesis using CadenceTick Cons.IH [OF Cons.prems(1,2,3)] Cons.prems
        by (simp add: tick_cadence_def replay_due_def word_less_nat_alt)
    next
      case 3
      obtain a' x where x: "request_protection_replay a FromThermalProtection t = Ret (a', x)" "arbiter_inv a'"
        "safety_state a' = ProtectionActive" "decision_cue x = ProtectionAlarm" "disposition x \<in> {Started, Coalesced}"
        using replay_in_protection [OF Cons.prems(1,2)] by metis
      have "unat (sat_add t PROTECTION_ALARM_INTERVAL_MS) = unat t + 1000"
        using Cons.prems(5) CadenceTick by (simp add: unat_sat_add PROTECTION_ALARM_INTERVAL_MS_def)
      then obtain rs where "alarm_replays (arm d t) a' es = Ret rs" "map fst rs = once_a_second (unat t + 1000) es"
        "list_all (\<lambda>r. decision_cue (snd r) = ProtectionAlarm \<and> disposition (snd r) \<in> {Started, Coalesced}) rs"
        using Cons.IH [OF x(2,3), of "arm d t" "sat_add t PROTECTION_ALARM_INTERVAL_MS"] Cons.prems
        by (auto simp: arm_def)
      then show ?thesis using CadenceTick 3 Cons.prems(3) x
        by (auto simp: tick_cadence_def replay_due_def word_le_nat_alt word_less_nat_alt)
    qed
  qed
qed simp

text \<open>
  \<^bold>\<open>The alarm repeats once a second (C35).\<close> Enter protection in any reachable state, and let cadence
  ticks and other requests follow in any order, none of which ends protection. Nothing panics. The alarm is
  requested again at exactly those cadence ticks that come a second or more after the previous request
  (the first one a second after entry), as long as the fault has been present at every cadence tick; each
  of these requests is answered by starting the alarm or by the alarm that is still playing, never
  dropped. Once the fault is gone the cadence is disarmed.
\<close>

theorem alarm_repeats_once_a_second:
  assumes "arbiter_run calls = Ret a" "enter_cadence d a t0 = Ret (d', a', decision)"
    and "list_all keeps_protection es" "list_all (\<lambda>e. unat (event_time e) + 1000 < 2 ^ 64) es" "unat t0 + 1000 < 2 ^ 64"
  shows "\<exists>rs. alarm_replays d' a' es = Ret rs \<and> map fst rs = once_a_second (unat t0 + 1000) es
    \<and> list_all (\<lambda>r. decision_cue (snd r) = ProtectionAlarm \<and> disposition (snd r) \<in> {Started, Coalesced}) rs"
proof -
  have a: "arbiter_inv a" using arbiter_run_inv [of calls] assms(1) by auto
  have act: "arbiter_call a (CallActivateProtection FromThermalProtection t0) = Ret a'"
    using assms(2) by (auto simp: enter_cadence_def enter_with_source_def)
  have "arbiter_ok (Ret a')"
    using arbiter_call_inv [OF a, of "CallActivateProtection FromThermalProtection t0"] unfolding act .
  then have "arbiter_inv a'" by simp
  moreover have "safety_state a' = ProtectionActive" using act by (auto simp: activate_protection_def Let_def)
  moreover have "next_replay_ms d' = Some (sat_add t0 PROTECTION_ALARM_INTERVAL_MS)"
    using assms(2) by (auto simp: enter_cadence_def enter_with_source_def arm_def)
  ultimately show ?thesis
    using armed_replays [of a' d' "sat_add t0 PROTECTION_ALARM_INTERVAL_MS" es] assms(3-5)
    by (simp add: unat_sat_add PROTECTION_ALARM_INTERVAL_MS_def)
qed

theorem alarm_repeats_once_a_second_witness:
  "\<exists>d' a' x rs. enter_cadence ProtectionAlarmCadence_new BuzzerArbiter_new 0 = Ret (d', a', x)
     \<and> alarm_replays d' a' [CadenceTick True 999, OtherCall (CallTick 1200), CadenceTick True 1500, CadenceTick True 2499,
           CadenceTick True 2500, CadenceTick False 3000, CadenceTick True 9000] = Ret rs
     \<and> map fst rs = [1500, 2500]"
proof -
  obtain d' a' x where enter: "enter_cadence ProtectionAlarmCadence_new BuzzerArbiter_new 0 = Ret (d', a', x)"
    by (auto simp: enter_cadence_def enter_with_source_def activate_protection_def Let_def)
  show ?thesis
    using alarm_repeats_once_a_second [of "[]" BuzzerArbiter_new, OF _ enter, of "[CadenceTick True 999,
        OtherCall (CallTick 1200), CadenceTick True 1500, CadenceTick True 2499, CadenceTick True 2500,
        CadenceTick False 3000, CadenceTick True 9000]"] enter by auto
qed

end
