(* ===== verification/Buzzer_Test.thy ===== *)
theory Buzzer_Test
  imports Buzzer
begin

text \<open>
  The buzzer diagnostics: the test session of \<open>src/firmware/src/buzzer_test.rs\<close> and the command
  handlers of the buzzer task in \<open>src/firmware/src/bin/flux_purr/tasks.rs\<close> that share one arbiter
  between it and the runtime.

  The loop of \<open>advance\<close> is given four rounds: a scenario has three actions. Running out of rounds is
  the value \<open>None\<close>; the invariant shows that no run of the task comes to it. A capacity-limited
  \<open>heapless::Vec\<close> is a list whose pushes are dropped at the capacity, as the source ignores the
  failed push.
\<close>

section \<open>The session\<close>

definition BUZZER_TEST_TRACE_CAPACITY :: nat where
  "BUZZER_TEST_TRACE_CAPACITY = 8"

datatype BuzzerTestScenario = FeedbackCoalesce | FeedbackReplace | ActiveCoolingRetrigger

datatype BuzzerTestSessionState = SessionIdle | SessionRunning | SessionComplete

datatype BuzzerTestSessionError = Busy

record BuzzerTestTraceEvent =
  elapsed_ms :: u32
  trace_decision :: BuzzerDecision

record BuzzerTestStatus =
  status_state :: BuzzerTestSessionState
  status_scenario :: "BuzzerTestScenario option"
  status_cue :: "BuzzerCueId option"
  status_repeat :: bool
  status_active_cue :: "BuzzerCueId option"
  status_trace :: "BuzzerTestTraceEvent list"

record BuzzerTestPlayback =
  playback_cue :: BuzzerCueId
  playback_repeat :: bool
  attention_due_ms :: "u64 option"
  attention_started :: bool

record BuzzerTestSession =
  session_state :: BuzzerTestSessionState
  scenario :: "BuzzerTestScenario option"
  playback :: "BuzzerTestPlayback option"
  started_at_ms :: u64
  next_action :: u8
  protection_cadence :: ProtectionAlarmCadence
  trace :: "BuzzerTestTraceEvent list"

definition BuzzerTestSession_new :: BuzzerTestSession where
  "BuzzerTestSession_new = \<lparr>session_state = SessionIdle, scenario = None, playback = None, started_at_ms = 0,
     next_action = 0, protection_cadence = ProtectionAlarmCadence_new, trace = []\<rparr>"

definition status :: "BuzzerTestSession \<Rightarrow> BuzzerCueId option \<Rightarrow> BuzzerTestStatus" where
  "status s cue = \<lparr>status_state = session_state s, status_scenario = scenario s,
     status_cue = map_option playback_cue (playback s),
     status_repeat = (case playback s of None \<Rightarrow> False | Some p \<Rightarrow> playback_repeat p),
     status_active_cue = cue, status_trace = trace s\<rparr>"

fun scenario_action :: "BuzzerTestScenario \<Rightarrow> u8 \<Rightarrow> (u64 \<times> BuzzerCueId) option" where
  "scenario_action FeedbackCoalesce n =
     (if n = 0 then Some (0, UiInput) else if n = 1 then Some (15, UiInput) else if n = 2 then Some (30, UiInput) else None)"
| "scenario_action FeedbackReplace n =
     (if n = 0 then Some (0, UiInput) else if n = 1 then Some (15, UiInput) else if n = 2 then Some (30, HeaterOn) else None)"
| "scenario_action ActiveCoolingRetrigger n =
     (if n = 0 then Some (0, ActiveCoolingOn) else if n = 1 then Some (15, ActiveCoolingOn)
      else if n = 2 then Some (30, ActiveCoolingOn) else None)"

fun scenario_duration_ms :: "BuzzerTestScenario \<Rightarrow> u64" where
  "scenario_duration_ms FeedbackCoalesce = 250"
| "scenario_duration_ms FeedbackReplace = 350"
| "scenario_duration_ms ActiveCoolingRetrigger = 500"

definition next_deadline_ms :: "BuzzerTestSession \<Rightarrow> u64 option" where
  "next_deadline_ms s =
     (if session_state s \<noteq> SessionRunning then None
      else case scenario s of
        Some sc \<Rightarrow>
          (case scenario_action sc (next_action s) of
             Some (due_ms, _) \<Rightarrow> Some (sat_add (started_at_ms s) due_ms)
           | None \<Rightarrow> Some (sat_add (started_at_ms s) (scenario_duration_ms sc)))
      | None \<Rightarrow>
          (case playback s of
             None \<Rightarrow> None
           | Some p \<Rightarrow>
               (if playback_cue p = ProtectionAlarm then next_replay_ms (protection_cadence s)
                else if playback_cue p = AttentionReminder then attention_due_ms p
                else None)))"

definition record_decision :: "BuzzerTestSession \<Rightarrow> u64 \<Rightarrow> BuzzerDecision \<Rightarrow> BuzzerTestSession" where
  "record_decision s now_ms decision =
     (let since = sat_sub now_ms (started_at_ms s);
          ms = (ucast (min since 0xFFFFFFFF) :: u32);
          kept = (if length (trace s) = BUZZER_TEST_TRACE_CAPACITY then tl (trace s) else trace s)
      in s\<lparr>trace := (if length kept < BUZZER_TEST_TRACE_CAPACITY
                     then kept @ [\<lparr>elapsed_ms = ms, trace_decision = decision\<rparr>] else kept)\<rparr>)"

definition record_deferred_start :: "BuzzerTestSession \<Rightarrow> u64 \<Rightarrow> BuzzerDecision \<Rightarrow> BuzzerTestSession" where
  "record_deferred_start s now_ms decision =
     (if decision_source decision = FromBuzzerTest then record_decision s now_ms decision else s)"

definition trigger_feedback ::
  "BuzzerTestSession \<Rightarrow> BuzzerArbiter \<Rightarrow> BuzzerCueId \<Rightarrow> u64 \<Rightarrow> (BuzzerTestSession \<times> BuzzerArbiter \<times> BuzzerDecision) rust" where
  "trigger_feedback s a cue now_ms =
     (let s = (if session_state s \<noteq> SessionRunning
               then s\<lparr>session_state := SessionIdle, scenario := None, playback := None, started_at_ms := now_ms,
                      next_action := 0, protection_cadence := clear_cadence (protection_cadence s), trace := []\<rparr>
               else s)
      in rbind (request_feedback a FromBuzzerTest cue now_ms) (\<lambda>(a, decision).
         Ret (record_decision s now_ms decision, a, decision)))"

definition complete_playback_if_quiet :: "BuzzerTestSession \<Rightarrow> BuzzerArbiter \<Rightarrow> BuzzerTestSession \<times> BuzzerArbiter" where
  "complete_playback_if_quiet s a =
     (case playback s of
        None \<Rightarrow> (s, a)
      | Some p \<Rightarrow>
          let finished =
            (if playback_cue p = AttentionReminder
             then \<not> playback_repeat p \<and> attention_started p \<and> \<not> is_active (controller a)
             else \<not> playback_repeat p \<and> \<not> is_active (controller a))
          in if finished
             then (s\<lparr>protection_cadence := clear_cadence (protection_cadence s), session_state := SessionComplete\<rparr>,
                   fst (stop_test_playback a))
             else (s, a))"

text \<open>The match of \<open>advance_playback\<close>: the updated playback and the decision, if one was taken.\<close>

definition playback_action ::
  "BuzzerTestSession \<Rightarrow> BuzzerArbiter \<Rightarrow> BuzzerTestPlayback \<Rightarrow> u64 \<Rightarrow>
     (BuzzerTestSession \<times> BuzzerArbiter \<times> BuzzerTestPlayback \<times> BuzzerDecision option) rust" where
  "playback_action s a p now_ms =
     (if playback_cue p = ProtectionAlarm then
        rbind (tick_cadence (protection_cadence s) True a now_ms) (\<lambda>(d, a, decision).
        let s = s\<lparr>protection_cadence := d\<rparr> in
        Ret (case decision of None \<Rightarrow> s | Some x \<Rightarrow> record_decision s now_ms x, a, p, decision))
      else if playback_cue p = AttentionReminder then
        (if (case attention_due_ms p of None \<Rightarrow> False | Some due_ms \<Rightarrow> now_ms \<ge> due_ms) then
           rbind (request_attention_reminder a FromThermalAttention now_ms) (\<lambda>(a, x).
           Ret (record_decision s now_ms x, a,
                p\<lparr>attention_started := True, attention_due_ms := Some (sat_add now_ms ATTENTION_REMINDER_INTERVAL_MS)\<rparr>,
                Some x))
         else Ret (s, a, p, None))
      else if \<not> is_active (controller a) \<and> playback_repeat p then
        rbind (request_feedback a FromBuzzerTest (playback_cue p) now_ms) (\<lambda>(a, x).
        Ret (record_decision s now_ms x, a, p, Some x))
      else Ret (s, a, p, None))"

definition advance_playback ::
  "BuzzerTestSession \<Rightarrow> BuzzerArbiter \<Rightarrow> u64 \<Rightarrow> (BuzzerTestSession \<times> BuzzerArbiter \<times> BuzzerDecision list) rust" where
  "advance_playback s a now_ms =
     (case playback s of
        None \<Rightarrow> Ret (s, a, [])
      | Some p \<Rightarrow>
          rbind (playback_action s a p now_ms) (\<lambda>(s, a, p, decision).
          let (s, a) = complete_playback_if_quiet (s\<lparr>playback := Some p\<rparr>) a in
          Ret (s, a, case decision of None \<Rightarrow> [] | Some x \<Rightarrow> [x])))"

definition settle_after_tick ::
  "BuzzerTestSession \<Rightarrow> BuzzerArbiter \<Rightarrow> u64 \<Rightarrow> (BuzzerTestSession \<times> BuzzerArbiter \<times> BuzzerDecision list) rust" where
  "settle_after_tick s a now_ms = advance_playback s a now_ms"

text \<open>The loop of \<open>advance\<close>, with a bound on its rounds.\<close>

fun scenario_loop ::
  "nat \<Rightarrow> BuzzerTestScenario \<Rightarrow> u64 \<Rightarrow> BuzzerTestSession \<Rightarrow> BuzzerArbiter \<Rightarrow> u64 \<Rightarrow> BuzzerDecision list \<Rightarrow>
     (BuzzerTestSession \<times> BuzzerArbiter \<times> BuzzerDecision list) rust option" where
  "scenario_loop 0 sc elapsed s a now_ms ds = None"
| "scenario_loop (Suc fuel) sc elapsed s a now_ms ds =
     (case scenario_action sc (next_action s) of
        None \<Rightarrow> Some (Ret (s, a, ds))
      | Some (due_ms, cue) \<Rightarrow>
          if elapsed < due_ms then Some (Ret (s, a, ds))
          else case trigger_feedback (s\<lparr>next_action := sat_add (next_action s) 1\<rparr>) a cue now_ms of
              Panic \<Rightarrow> Some Panic
            | Ret (s, a, x) \<Rightarrow> scenario_loop fuel sc elapsed s a now_ms (if length ds < 3 then ds @ [x] else ds))"

definition advance ::
  "BuzzerTestSession \<Rightarrow> BuzzerArbiter \<Rightarrow> u64 \<Rightarrow> (BuzzerTestSession \<times> BuzzerArbiter \<times> BuzzerDecision list) rust option" where
  "advance s a now_ms =
     (case scenario s of
        None \<Rightarrow> Some (advance_playback s a now_ms)
      | Some sc \<Rightarrow>
          let elapsed = sat_sub now_ms (started_at_ms s) in
          map_option (\<lambda>r. rbind r (\<lambda>(s, a, ds).
            Ret (if elapsed \<ge> scenario_duration_ms sc then s\<lparr>session_state := SessionComplete\<rparr> else s, a, ds)))
            (scenario_loop 4 sc elapsed s a now_ms []))"

definition start_scenario ::
  "BuzzerTestSession \<Rightarrow> BuzzerArbiter \<Rightarrow> BuzzerTestScenario \<Rightarrow> u64 \<Rightarrow>
     (BuzzerTestSession \<times> BuzzerArbiter \<times> (BuzzerTestSessionError + BuzzerDecision list)) rust option" where
  "start_scenario s a sc now_ms =
     (if session_state s = SessionRunning then Some (Ret (s, a, Inl Busy))
      else map_option (\<lambda>r. rbind r (\<lambda>(s, a, ds). Ret (s, a, Inr ds)))
        (advance (s\<lparr>session_state := SessionRunning, scenario := Some sc, playback := None, started_at_ms := now_ms,
                    next_action := 0, trace := []\<rparr>) a now_ms))"

definition start_playback ::
  "BuzzerTestSession \<Rightarrow> BuzzerArbiter \<Rightarrow> BuzzerCueId \<Rightarrow> bool \<Rightarrow> u64 \<Rightarrow>
     (BuzzerTestSession \<times> BuzzerArbiter \<times> (BuzzerTestSessionError + BuzzerDecision list)) rust" where
  "start_playback s a cue rep now_ms =
     (if session_state s = SessionRunning then Ret (s, a, Inl Busy)
      else
        let p = \<lparr>playback_cue = cue, playback_repeat = rep, attention_due_ms = None, attention_started = False\<rparr>;
            s = s\<lparr>session_state := SessionRunning, scenario := None, started_at_ms := now_ms, next_action := 0,
                  protection_cadence := clear_cadence (protection_cadence s), trace := [], playback := Some p\<rparr>
        in
        if cue = ProtectionAlarm then
          rbind (enter_cadence (protection_cadence s) a now_ms) (\<lambda>(d, a, x).
          Ret (record_decision (s\<lparr>protection_cadence := d\<rparr>) now_ms x, a, Inr [x]))
        else if cue = AttentionReminder then
          rbind (request_attention_reminder (fst (enter_attention_pending a)) FromThermalAttention now_ms) (\<lambda>(a, x).
          Ret (record_decision (s\<lparr>playback := Some (p\<lparr>attention_due_ms := Some (sat_add now_ms ATTENTION_REMINDER_INTERVAL_MS),
                 attention_started := True\<rparr>)\<rparr>) now_ms x, a, Inr [x]))
        else
          rbind (request_feedback a FromBuzzerTest cue now_ms) (\<lambda>(a, x).
          Ret (record_decision s now_ms x, a, Inr [x])))"

definition stop_playback ::
  "BuzzerTestSession \<Rightarrow> BuzzerArbiter \<Rightarrow> u64 \<Rightarrow> BuzzerTestSession \<times> BuzzerArbiter \<times> BuzzerDecision option" where
  "stop_playback s a now_ms =
     (if playback s = None \<and> scenario s = None then (s\<lparr>session_state := SessionIdle\<rparr>, a, None)
      else
        let s = s\<lparr>scenario := None, playback := None, protection_cadence := clear_cadence (protection_cadence s),
                  session_state := SessionIdle\<rparr>
        in case stop_test_playback a of
             (a, None) \<Rightarrow> (s, a, None)
           | (a, Some x) \<Rightarrow> (record_decision s now_ms x, a, Some x))"

definition cancel_for_safety :: "BuzzerTestSession \<Rightarrow> BuzzerArbiter \<Rightarrow> u64 \<Rightarrow> BuzzerTestSession \<times> BuzzerArbiter" where
  "cancel_for_safety s a now_ms =
     (if session_state s \<noteq> SessionRunning then (s, a)
      else
        let s = s\<lparr>scenario := None, playback := None, protection_cadence := clear_cadence (protection_cadence s),
                  session_state := SessionIdle\<rparr>
        in case stop_test_playback a of
             (a, None) \<Rightarrow> (s, a)
           | (a, Some x) \<Rightarrow> (record_decision s now_ms x, a))"

section \<open>The buzzer task\<close>

datatype BuzzerTestOp = OpTrigger | OpRun | OpStop | OpStatus

record BuzzerTestCommand =
  test_op :: BuzzerTestOp
  test_cue :: "BuzzerCueId option"
  test_scenario :: "BuzzerTestScenario option"
  test_repeat :: bool

definition BuzzerTestCommand_is_valid :: "BuzzerTestCommand \<Rightarrow> bool" where
  "BuzzerTestCommand_is_valid c =
     (case test_op c of
        OpTrigger \<Rightarrow> test_cue c \<noteq> None \<and> test_scenario c = None
      | OpRun \<Rightarrow> test_cue c = None \<and> test_scenario c \<noteq> None
      | _ \<Rightarrow> test_cue c = None \<and> test_scenario c = None \<and> \<not> test_repeat c)"

datatype BuzzerRuntimeCommand =
    CommandFeedback BuzzerCueSource BuzzerCueId
  | CommandProtectionReplay BuzzerCueSource
  | CommandAttentionReminder BuzzerCueSource
  | CommandTest BuzzerTestCommand

datatype BuzzerSafetyCommand =
    SafetyActivateProtection BuzzerCueSource
  | SafetyEnterAttention BuzzerCueSource
  | SafetyClearAttention

type_synonym task_state = "BuzzerTestSession \<times> BuzzerArbiter"

definition apply_buzzer_test_command :: "BuzzerTestSession \<Rightarrow> BuzzerArbiter \<Rightarrow> BuzzerTestCommand \<Rightarrow> u64 \<Rightarrow> task_state rust option" where
  "apply_buzzer_test_command s a command now_ms =
     (case test_op command of
        OpStatus \<Rightarrow> Some (Ret (s, a))
      | OpTrigger \<Rightarrow>
          (case test_cue command of
             None \<Rightarrow> Some Panic
           | Some cue \<Rightarrow>
               if \<not> (test_repeat command \<or> cue = ProtectionAlarm \<or> cue = AttentionReminder)
               then Some (rbind (trigger_feedback s a cue now_ms) (\<lambda>(s, a, _). Ret (s, a)))
               else Some (rbind (start_playback s a cue (test_repeat command) now_ms) (\<lambda>(s, a, _). Ret (s, a))))
      | OpRun \<Rightarrow>
          (case test_scenario command of
             None \<Rightarrow> Some Panic
           | Some sc \<Rightarrow> map_option (\<lambda>r. rbind r (\<lambda>(s, a, _). Ret (s, a))) (start_scenario s a sc now_ms))
      | OpStop \<Rightarrow> (case stop_playback s a now_ms of (s, a, _) \<Rightarrow> Some (Ret (s, a))))"

fun apply_buzzer_command :: "BuzzerRuntimeCommand \<Rightarrow> BuzzerTestSession \<Rightarrow> BuzzerArbiter \<Rightarrow> u64 \<Rightarrow> task_state rust option" where
  "apply_buzzer_command (CommandFeedback source cue) s a now_ms =
     Some (rbind (request_feedback a source cue now_ms) (\<lambda>(a, _). Ret (s, a)))"
| "apply_buzzer_command (CommandProtectionReplay source) s a now_ms =
     Some (rbind (request_protection_replay a source now_ms) (\<lambda>(a, _). Ret (s, a)))"
| "apply_buzzer_command (CommandAttentionReminder source) s a now_ms =
     Some (rbind (request_attention_reminder a source now_ms) (\<lambda>(a, _). Ret (s, a)))"
| "apply_buzzer_command (CommandTest command) s a now_ms = apply_buzzer_test_command s a command now_ms"

definition apply_buzzer_safety_command :: "BuzzerSafetyCommand \<Rightarrow> BuzzerTestSession \<Rightarrow> BuzzerArbiter \<Rightarrow> u64 \<Rightarrow> task_state rust" where
  "apply_buzzer_safety_command command s a now_ms =
     (let (s, a) = cancel_for_safety s a now_ms in
      case command of
        SafetyActivateProtection source \<Rightarrow> rbind (activate_protection a source now_ms) (\<lambda>(a, _). Ret (s, a))
      | SafetyEnterAttention source \<Rightarrow>
          rbind (request_attention_reminder (fst (enter_attention_pending a)) source now_ms) (\<lambda>(a, _). Ret (s, a))
      | SafetyClearAttention \<Rightarrow> Ret (s, fst (clear_attention a)))"

text \<open>The part of a round of \<open>run_buzzer_task\<close> before it waits: advance the session, tick the
  arbiter, record a deferred start, settle.\<close>

definition task_round :: "BuzzerTestSession \<Rightarrow> BuzzerArbiter \<Rightarrow> u64 \<Rightarrow> task_state rust option" where
  "task_round s a now_ms =
     map_option (\<lambda>r. rbind r (\<lambda>(s, a, _).
       rbind (tick_arbiter a now_ms) (\<lambda>(a, tick).
       let s = (case deferred_start tick of None \<Rightarrow> s | Some x \<Rightarrow> record_deferred_start s now_ms x) in
       rbind (settle_after_tick s a now_ms) (\<lambda>(s, a, _). Ret (s, a)))))
     (advance s a now_ms)"

section \<open>Every call keeps session and arbiter consistent\<close>

definition session_inv :: "BuzzerTestSession \<Rightarrow> bool" where
  "session_inv s \<longleftrightarrow> length (trace s) \<le> BUZZER_TEST_TRACE_CAPACITY
     \<and> (scenario s \<noteq> None \<longrightarrow> playback s = None
          \<and> (session_state s = SessionRunning \<and> next_action s \<le> 3
             \<or> session_state s = SessionComplete \<and> next_action s = 3))"

abbreviation consistent :: "task_state \<Rightarrow> bool" where
  "consistent sa \<equiv> session_inv (fst sa) \<and> arbiter_inv (snd sa)"

lemma record_decision_frame [simp]:
  "session_state (record_decision s t x) = session_state s" "scenario (record_decision s t x) = scenario s"
  "playback (record_decision s t x) = playback s" "next_action (record_decision s t x) = next_action s"
  "started_at_ms (record_decision s t x) = started_at_ms s"
  "protection_cadence (record_decision s t x) = protection_cadence s"
  by (simp_all add: record_decision_def Let_def)

lemma record_decision_inv [simp]: "session_inv s \<Longrightarrow> session_inv (record_decision s t x)"
  by (auto simp: session_inv_def) (auto simp: record_decision_def Let_def BUZZER_TEST_TRACE_CAPACITY_def)

text \<open>What the arbiter's calls promise, one by one.\<close>

lemma arbiter_calls_ok:
  assumes "arbiter_inv a"
  shows "rust_all (\<lambda>r. arbiter_inv (fst r)) (request_feedback a src cue t)"
    "rust_all (\<lambda>r. arbiter_inv (fst r)) (request_protection_replay a src t)"
    "rust_all (\<lambda>r. arbiter_inv (fst r)) (request_attention_reminder a src t)"
    "rust_all (\<lambda>r. arbiter_inv (fst r)) (activate_protection a src t)"
    "rust_all (\<lambda>r. arbiter_inv (fst r)) (tick_arbiter a t)"
    "arbiter_inv (fst (enter_attention_pending a))" "arbiter_inv (fst (clear_attention a))"
    "arbiter_inv (fst (stop_test_playback a))"
  using assms arbiter_call_inv [OF assms, of "CallFeedback src cue t"] arbiter_call_inv [OF assms, of "CallProtectionReplay src t"]
    arbiter_call_inv [OF assms, of "CallAttentionReminder src t"] arbiter_call_inv [OF assms, of "CallActivateProtection src t"]
    arbiter_call_inv [OF assms, of "CallTick t"] arbiter_call_inv [OF assms, of CallEnterAttention]
    arbiter_call_inv [OF assms, of CallClearAttention] arbiter_call_inv [OF assms, of CallStopTest]
  by (auto simp: split_def)

lemma tick_cadence_ok: "arbiter_inv a \<Longrightarrow> rust_all (\<lambda>r. arbiter_inv (fst (snd r))) (tick_cadence d f a t)"
  using arbiter_calls_ok(2) [of a FromThermalProtection t]
  by (auto simp: tick_cadence_def replay_due_def split_def split: option.split)

lemma cadence_frame [simp]:
  "session_inv (s\<lparr>protection_cadence := d\<rparr>) = session_inv s"
  by (simp add: session_inv_def)

lemma trigger_feedback_ok:
  assumes "session_inv s" "arbiter_inv a"
  shows "rust_all (\<lambda>(s', a', x). session_inv s' \<and> arbiter_inv a'
    \<and> (session_state s = SessionRunning \<longrightarrow> s' = record_decision s t x)) (trigger_feedback s a cue t)"
proof -
  have "session_inv (s\<lparr>session_state := SessionIdle, scenario := None, playback := None, started_at_ms := t,
      next_action := 0, protection_cadence := d, trace := []\<rparr>)" for d
    by (simp add: session_inv_def)
  then show ?thesis
    using assms arbiter_calls_ok(1) [OF assms(2), of FromBuzzerTest cue t]
    by (auto simp: trigger_feedback_def Let_def split_def elim!: rust_all_mono)
qed

lemma complete_playback_ok:
  "session_inv s \<Longrightarrow> arbiter_inv a \<Longrightarrow> consistent (complete_playback_if_quiet s a)"
  using arbiter_calls_ok(8) [of a]
  by (auto simp: complete_playback_if_quiet_def Let_def session_inv_def split: option.split)

lemma playback_action_ok:
  assumes "session_inv s" "arbiter_inv a"
  shows "rust_all (\<lambda>(s', a', p', x). session_inv s' \<and> arbiter_inv a' \<and> scenario s' = scenario s) (playback_action s a p t)"
  using assms tick_cadence_ok [OF assms(2), of "protection_cadence s" True t]
    arbiter_calls_ok(1) [OF assms(2), of FromBuzzerTest "playback_cue p" t]
    arbiter_calls_ok(3) [OF assms(2), of FromThermalAttention t]
  by (auto simp: playback_action_def Let_def split_def split: option.split elim!: rust_all_mono)

lemma advance_playback_ok:
  assumes "session_inv s" "arbiter_inv a"
  shows "rust_all (\<lambda>(s', a', ds). session_inv s' \<and> arbiter_inv a') (advance_playback s a t)"
proof (cases "playback s")
  case None
  then show ?thesis using assms by (simp add: advance_playback_def)
next
  case (Some p)
  then have "scenario s = None" using assms(1) by (auto simp: session_inv_def)
  then have "rust_all (\<lambda>(s', a', p', x). session_inv (s'\<lparr>playback := Some p'\<rparr>) \<and> arbiter_inv a') (playback_action s a p t)"
    using playback_action_ok [OF assms, of p t] by (auto simp: session_inv_def elim!: rust_all_mono)
  then show ?thesis
    using Some complete_playback_ok by (auto simp: advance_playback_def split_def Let_def elim!: rust_all_mono)
qed

section \<open>The scenario loop ends\<close>

lemma scenario_action_None_iff: "scenario_action sc n = None \<longleftrightarrow> n \<notin> {0, 1, 2}"
  by (cases sc) auto

lemma scenario_done [simp]: "scenario_action sc 3 = None"
  by (cases sc) simp_all

lemma scenario_action_due: "scenario_action sc n = Some (due, cue) \<Longrightarrow> due < scenario_duration_ms sc"
  by (cases sc) (auto split: if_splits)

lemma action_count: "n \<le> (3 :: u8) \<Longrightarrow> n \<in> {0, 1, 2} \<or> n = 3"
proof -
  assume "n \<le> 3"
  then have "unat n \<in> {0, 1, 2, 3}" by (auto simp: word_le_nat_alt)
  then show ?thesis by (auto simp: word_unat_eq_iff)
qed

lemma next_action_advances: "n \<in> {0, 1, 2 :: u8} \<Longrightarrow> sat_add n 1 \<le> 3 \<and> unat (sat_add n 1) = Suc (unat n)"
  by (auto simp: sat_add_def)

lemma scenario_loop_ok:
  assumes "session_inv s" "arbiter_inv a" "scenario s = Some sc" "session_state s = SessionRunning" "3 < unat (next_action s) + fuel"
  shows "\<exists>r. scenario_loop fuel sc elapsed s a t ds = Some r \<and> rust_all (\<lambda>(s', a', ds).
    session_inv s' \<and> arbiter_inv a' \<and> scenario s' = Some sc \<and> session_state s' = SessionRunning
    \<and> (scenario_duration_ms sc \<le> elapsed \<longrightarrow> next_action s' = 3)) r"
  using assms
proof (induction fuel arbitrary: s a ds)
  case 0
  then show ?case by (auto simp: session_inv_def word_le_nat_alt)
next
  case (Suc fuel)
  have bound: "next_action s \<le> 3" "playback s = None" "length (trace s) \<le> BUZZER_TEST_TRACE_CAPACITY"
    using Suc.prems by (auto simp: session_inv_def)
  show ?case
  proof (cases "scenario_action sc (next_action s)")
    case None
    then show ?thesis using Suc.prems bound action_count [OF bound(1)] by (auto simp: scenario_action_None_iff)
  next
    case (Some action)
    obtain due cue where action: "action = (due, cue)" by (cases action)
    show ?thesis
    proof (cases "elapsed < due")
      case True
      then show ?thesis using Some action Suc.prems scenario_action_due [of sc "next_action s" due cue] by auto
    next
      case False
      let ?s = "s\<lparr>next_action := sat_add (next_action s) 1\<rparr>"
      have "next_action s \<in> {0, 1, 2}" using Some scenario_action_None_iff [of sc "next_action s"] by simp
      note next_ok = next_action_advances [OF this]
      have "session_inv ?s" using Suc.prems bound next_ok by (auto simp: session_inv_def)
      then obtain s' a' x where x: "trigger_feedback ?s a cue t = Ret (s', a', x)" "session_inv s'" "arbiter_inv a'"
          "s' = record_decision ?s t x"
        using trigger_feedback_ok [of ?s a t cue] Suc.prems by (auto simp: rust_all_iff)
      then show ?thesis
        using Suc.IH [of s' a' "if length ds < 3 then ds @ [x] else ds"] Suc.prems Some action False next_ok by simp
    qed
  qed
qed

lemma advance_ok:
  assumes "session_inv s" "arbiter_inv a"
  shows "\<exists>r. advance s a t = Some r \<and> rust_all (\<lambda>(s', a', ds). session_inv s' \<and> arbiter_inv a') r"
proof (cases "scenario s")
  case None
  then show ?thesis using advance_playback_ok [OF assms] by (simp add: advance_def)
next
  case (Some sc)
  let ?elapsed = "sat_sub t (started_at_ms s)"
  show ?thesis
  proof (cases "session_state s = SessionRunning")
    case True
    have "3 < unat (next_action s) + 4" by simp
    then obtain r where "scenario_loop 4 sc ?elapsed s a t [] = Some r" "rust_all (\<lambda>(s', a', ds).
        session_inv s' \<and> arbiter_inv a' \<and> scenario s' = Some sc \<and> session_state s' = SessionRunning
        \<and> (scenario_duration_ms sc \<le> ?elapsed \<longrightarrow> next_action s' = 3)) r"
      using scenario_loop_ok [OF assms Some True, of 4 ?elapsed t "[]"] by blast
    then show ?thesis using Some by (auto simp: advance_def Let_def session_inv_def split_def elim!: rust_all_mono)
  next
    case False
    then have "next_action s = 3" "session_state s = SessionComplete" using assms(1) Some by (auto simp: session_inv_def)
    moreover have "scenario_loop 4 sc ?elapsed s a t [] = Some (Ret (s, a, []))"
      using scenario_loop.simps(2) [of 3] calculation(1) by (simp add: eval_nat_numeral del: scenario_loop.simps)
    ultimately show ?thesis using Some assms by (auto simp: advance_def Let_def session_inv_def)
  qed
qed

section \<open>Runs of the task\<close>

lemma start_scenario_ok:
  assumes "session_inv s" "arbiter_inv a"
  shows "\<exists>r. start_scenario s a sc t = Some r \<and> rust_all (\<lambda>(s', a', x). session_inv s' \<and> arbiter_inv a') r"
proof -
  let ?s = "s\<lparr>session_state := SessionRunning, scenario := Some sc, playback := None, started_at_ms := t,
      next_action := 0, trace := []\<rparr>"
  have "session_inv ?s" by (simp add: session_inv_def)
  from advance_ok [OF this assms(2), of t] show ?thesis
    using assms by (auto simp: start_scenario_def split_def elim!: rust_all_mono)
qed

lemma session_inv_fresh: "scenario s = None \<Longrightarrow> trace s = [] \<Longrightarrow> session_inv s"
  by (simp add: session_inv_def)

lemma start_playback_ok:
  assumes "session_inv s" "arbiter_inv a"
  shows "rust_all (\<lambda>(s', a', x). session_inv s' \<and> arbiter_inv a') (start_playback s a cue rep t)"
  using assms arbiter_calls_ok(4) [OF assms(2), of FromThermalProtection t]
    arbiter_calls_ok(3) [OF arbiter_calls_ok(6) [OF assms(2)], of FromThermalAttention t]
    arbiter_calls_ok(1) [OF assms(2), of FromBuzzerTest cue t]
  by (auto simp: start_playback_def Let_def split_def enter_cadence_def enter_with_source_def session_inv_fresh
      elim!: rust_all_mono)

lemma stop_and_cancel_ok:
  assumes "session_inv s" "arbiter_inv a"
  shows "session_inv (fst (stop_playback s a t)) \<and> arbiter_inv (fst (snd (stop_playback s a t)))"
    and "consistent (cancel_for_safety s a t)"
proof -
  have fresh: "session_inv (s\<lparr>scenario := None, playback := None, protection_cadence := d, session_state := st\<rparr>)" for d st
    using assms(1) by (simp add: session_inv_def)
  have idle: "session_inv (s\<lparr>session_state := st\<rparr>)" if "scenario s = None" for st
    using assms(1) that by (simp add: session_inv_def)
  show "session_inv (fst (stop_playback s a t)) \<and> arbiter_inv (fst (snd (stop_playback s a t)))"
    "consistent (cancel_for_safety s a t)"
    using assms fresh idle arbiter_calls_ok(8) [OF assms(2)]
    by (auto simp: stop_playback_def cancel_for_safety_def Let_def split_def split: option.split prod.split)
qed

datatype TaskEvent = TaskRound u64 | TaskCommand BuzzerRuntimeCommand u64 | TaskSafety BuzzerSafetyCommand u64

fun task_event :: "TaskEvent \<Rightarrow> task_state \<Rightarrow> task_state rust option" where
  "task_event (TaskRound t) (s, a) = task_round s a t"
| "task_event (TaskCommand c t) (s, a) = apply_buzzer_command c s a t"
| "task_event (TaskSafety c t) (s, a) = Some (apply_buzzer_safety_command c s a t)"

text \<open>The control plane rejects invalid test commands before they reach the task; an invalid one is not delivered.\<close>

fun delivered :: "TaskEvent \<Rightarrow> bool" where
  "delivered (TaskCommand (CommandTest c) _) = BuzzerTestCommand_is_valid c"
| "delivered _ = True"

definition task_step :: "task_state rust option \<Rightarrow> TaskEvent \<Rightarrow> task_state rust option" where
  "task_step m e =
     (if \<not> delivered e then m
      else case m of None \<Rightarrow> None | Some Panic \<Rightarrow> Some Panic | Some (Ret sa) \<Rightarrow> task_event e sa)"

abbreviation task_run :: "TaskEvent list \<Rightarrow> task_state rust option" where
  "task_run es \<equiv> run task_step (Some (Ret (BuzzerTestSession_new, BuzzerArbiter_new))) es"

definition task_ok :: "task_state rust option \<Rightarrow> bool" where
  "task_ok m \<longleftrightarrow> (\<exists>r. m = Some r \<and> rust_all consistent r)"

lemma task_round_ok: "consistent (s, a) \<Longrightarrow> task_ok (task_round s a t)"
proof -
  assume "consistent (s, a)"
  then obtain r where r: "advance s a t = Some r" "rust_all (\<lambda>(s', a', ds). session_inv s' \<and> arbiter_inv a') r"
    using advance_ok [of s a t] by auto
  have deferred: "session_inv s' \<Longrightarrow> session_inv (record_deferred_start s' t x)" for s' x
    by (simp add: record_deferred_start_def)
  have "rust_all consistent (rbind (tick_arbiter a' t) (\<lambda>(a, tick).
      let s = (case deferred_start tick of None \<Rightarrow> s' | Some x \<Rightarrow> record_deferred_start s' t x) in
      rbind (settle_after_tick s a t) (\<lambda>(s, a, _). Ret (s, a))))" if "session_inv s'" "arbiter_inv a'" for s' a'
  proof -
    have "rust_all (\<lambda>r. arbiter_inv (fst r)) (tick_arbiter a' t)" by (rule arbiter_calls_ok(5) [OF that(2)])
    then show ?thesis
      using that(1) deferred advance_playback_ok
      by (auto simp: Let_def split_def settle_after_tick_def split: option.split elim!: rust_all_mono)
  qed
  then show ?thesis using r by (auto simp: task_ok_def task_round_def split_def elim!: rust_all_mono)
qed

lemma test_command_ok:
  assumes inv: "session_inv s" "arbiter_inv a" and valid: "BuzzerTestCommand_is_valid command"
  shows "task_ok (apply_buzzer_test_command s a command t)"
proof (cases "test_op command")
  case OpStatus
  then show ?thesis using inv by (simp add: apply_buzzer_test_command_def task_ok_def)
next
  case OpTrigger
  then obtain cue where cue: "test_cue command = Some cue" using valid by (auto simp: BuzzerTestCommand_is_valid_def)
  show ?thesis
    using trigger_feedback_ok [OF inv, of t cue] start_playback_ok [OF inv, of cue "test_repeat command" t]
    by (auto simp: apply_buzzer_test_command_def OpTrigger cue task_ok_def split_def elim!: rust_all_mono)
next
  case OpRun
  then obtain sc where sc: "test_scenario command = Some sc" using valid by (auto simp: BuzzerTestCommand_is_valid_def)
  show ?thesis
    using start_scenario_ok [OF inv, of sc t]
    by (auto simp: apply_buzzer_test_command_def OpRun sc task_ok_def split_def elim!: rust_all_mono)
next
  case OpStop
  then show ?thesis using stop_and_cancel_ok(1) [OF inv, of t]
    by (simp add: apply_buzzer_test_command_def task_ok_def split_def)
qed

lemma task_command_ok:
  assumes "consistent (s, a)" "delivered (TaskCommand c t)"
  shows "task_ok (apply_buzzer_command c s a t)"
proof -
  have inv: "session_inv s" "arbiter_inv a" using assms(1) by simp_all
  show ?thesis
  proof (cases c)
    case (CommandTest command)
    then show ?thesis using test_command_ok [OF inv] assms(2) by simp
  next
    case (CommandFeedback source cue)
    then show ?thesis using inv arbiter_calls_ok(1) [OF inv(2), of source cue t]
      by (auto simp: task_ok_def split_def elim!: rust_all_mono)
  next
    case (CommandProtectionReplay source)
    then show ?thesis using inv arbiter_calls_ok(2) [OF inv(2), of source t]
      by (auto simp: task_ok_def split_def elim!: rust_all_mono)
  next
    case (CommandAttentionReminder source)
    then show ?thesis using inv arbiter_calls_ok(3) [OF inv(2), of source t]
      by (auto simp: task_ok_def split_def elim!: rust_all_mono)
  qed
qed

lemma task_safety_ok: "consistent (s, a) \<Longrightarrow> rust_all consistent (apply_buzzer_safety_command c s a t)"
proof -
  assume "consistent (s, a)"
  then have inv: "session_inv (fst (cancel_for_safety s a t))" "arbiter_inv (snd (cancel_for_safety s a t))"
    using stop_and_cancel_ok(2) [of s a t] by simp_all
  show ?thesis
    using inv arbiter_calls_ok(4,7) [OF inv(2)] arbiter_calls_ok(3) [OF arbiter_calls_ok(6) [OF inv(2)]]
    by (cases c) (auto simp: apply_buzzer_safety_command_def split_def Let_def elim!: rust_all_mono)
qed

interpretation task: invariant_machine task_step task_ok
proof
  show "task_ok (task_step m e)" if m: "task_ok m" for m e
  proof (cases "delivered e")
    case True
    obtain s a where m': "m = Some (Ret (s, a))" "consistent (s, a)" using m by (auto simp: task_ok_def rust_all_iff)
    show ?thesis
    proof (cases e)
      case (TaskCommand c t)
      then show ?thesis using task_command_ok [OF m'(2)] True m'(1) by (simp add: task_step_def)
    next
      case (TaskRound t)
      then show ?thesis using task_round_ok [OF m'(2)] m'(1) by (simp add: task_step_def)
    next
      case (TaskSafety c t)
      then show ?thesis using task_safety_ok [OF m'(2)] m'(1) by (simp add: task_step_def task_ok_def)
    qed
  qed (use m in \<open>simp add: task_step_def\<close>)
qed

lemma task_run_ok: "\<exists>s a. task_run es = Some (Ret (s, a)) \<and> session_inv s \<and> arbiter_inv a"
proof -
  have "task_ok (Some (Ret (BuzzerTestSession_new, BuzzerArbiter_new)))"
    using arbiter_new_inv by (simp add: task_ok_def session_inv_def BuzzerTestSession_new_def)
  from task.run_inv [OF this, of es] show ?thesis by (auto simp: task_ok_def rust_all_iff)
qed

section \<open>Properties\<close>

text \<open>
  \<^bold>\<open>The diagnostics never wedge the buzzer task (C34).\<close> Whatever rounds, runtime commands, valid test
  commands and safety commands reach the task, every call returns: the scenario loop ends within
  its four rounds and nothing panics. The trace holds at most its eight events, and the rules of the
  arbiter hold with the diagnostics in the loop as well: the alarm is heard only while protection is
  active, and then nothing else is.
\<close>

theorem diagnostics_never_wedge_the_task:
  "\<exists>s a. task_run es = Some (Ret (s, a))
     \<and> length (trace s) \<le> 8
     \<and> (active_cue (controller a) = Some ProtectionAlarm \<longrightarrow> safety_state a = ProtectionActive)
     \<and> (safety_state a = ProtectionActive \<longrightarrow> active_cue (controller a) \<in> {None, Some ProtectionAlarm})
     \<and> (pending_feedback a \<noteq> None \<longrightarrow> safety_state a = Normal \<and> is_active (controller a))"
  using task_run_ok [of es]
  by (auto simp: session_inv_def arbiter_inv_def is_active_iff BUZZER_TEST_TRACE_CAPACITY_def)

text \<open>Evaluating a run: it returns, and the arbiter then has the property.\<close>

fun task_shows :: "(BuzzerArbiter \<Rightarrow> bool) \<Rightarrow> task_state rust option \<Rightarrow> bool" where
  "task_shows P (Some (Ret (s, a))) = P a"
| "task_shows P _ = False"

lemma task_shows_iff: "task_shows P m \<longleftrightarrow> (\<exists>s a. m = Some (Ret (s, a)) \<and> P a)"
  by (cases "(P, m)" rule: task_shows.cases) auto

definition run_command :: "BuzzerTestScenario \<Rightarrow> BuzzerRuntimeCommand" where
  "run_command sc = CommandTest \<lparr>test_op = OpRun, test_cue = None, test_scenario = Some sc, test_repeat = False\<rparr>"

definition trigger_command :: "BuzzerCueId \<Rightarrow> BuzzerRuntimeCommand" where
  "trigger_command cue = CommandTest \<lparr>test_op = OpTrigger, test_cue = Some cue, test_scenario = None, test_repeat = False\<rparr>"

theorem diagnostics_never_wedge_the_task_witness:
  "\<exists>s a. task_run [TaskCommand (run_command FeedbackReplace) 0, TaskRound 20, TaskRound 45, TaskSafety (SafetyActivateProtection FromThermalProtection) 50]
     = Some (Ret (s, a)) \<and> length (trace s) \<le> 8 \<and> safety_state a = ProtectionActive"
proof -
  let ?es = "[TaskCommand (run_command FeedbackReplace) 0, TaskRound 20, TaskRound 45, TaskSafety (SafetyActivateProtection FromThermalProtection) 50]"
  have "task_shows (\<lambda>a. safety_state a = ProtectionActive) (task_run ?es)" by code_simp
  then show ?thesis using diagnostics_never_wedge_the_task [of ?es] by (auto simp: task_shows_iff)
qed

text \<open>Protection, a one-shot test of the alarm, and the rounds in which it is heard.\<close>

definition silenced_run :: "TaskEvent list" where
  "silenced_run = [TaskSafety (SafetyActivateProtection FromThermalProtection) 0, TaskCommand (trigger_command ProtectionAlarm) 400,
     TaskRound 490, TaskRound 530, TaskRound 620, TaskRound 700]"

lemma silenced_run_state:
  "task_shows (\<lambda>a. safety_state a = Normal \<and> \<not> is_active (controller a)) (task_run silenced_run)"
  by code_simp


end
