(* ===== verification/Power_State.thy ===== *)
theory Power_State
  imports Fusb302b_Policy Ch224q
begin

text \<open>
  The power state the PD service publishes: \<open>PowerState\<close> and its projections in
  \<open>src/firmware/src/bin/flux_purr/power_domain.rs\<close>, with the status observation of
  \<open>pd_control.rs\<close>. A published state is honest: it reports a contract only when the advertised
  capabilities support it, reports \<open>Ready\<close> only with such a contract, and withholds the
  capabilities whenever it reports a failure.
\<close>

section \<open>Data\<close>

datatype PowerProtocol = ProtocolUnknown | ProtocolDetached | ProtocolDiscovering | ProtocolWaitingForAccept
  | ProtocolWaitingForPsRdy | ProtocolReady | ProtocolFault

datatype PowerFailure = FailureUnavailable | FailureDetached | FailureReset | FailureRequestTimeout
  | FailureTransportFault | FailureCapabilityInvalidated

definition FUSB302B_STATUS0_VBUSOK :: u8 where
  "FUSB302B_STATUS0_VBUSOK = push_bit 7 1"

record PdStatusObservation =
  status_raw :: u8
  observed_status :: Status
  current_raw :: u8
  observed_current_ma :: u16
  observed_voltage_mv :: "u16 option"
  observed_contract :: Contract

definition fusb302b_status_projection :: "u8 \<Rightarrow> Status" where
  "fusb302b_status_projection status0 =
     \<lparr>bc_active = False, qc2_active = False, qc3_active = False,
      pd_active = (status0 AND FUSB302B_STATUS0_VBUSOK \<noteq> 0), epr_active = False, epr_exist = False, avs_exist = False\<rparr>"

record PowerState =
  protocol :: PowerProtocol
  available :: bool
  requested :: "PdContractRequest option"
  active_confirmed :: "ConfirmedActiveContract option"
  published_capabilities :: SourceCapabilitiesView
  failure :: "PowerFailure option"

definition PowerState_unavailable :: PowerState where
  "PowerState_unavailable = \<lparr>protocol = ProtocolUnknown, available = False, requested = None, active_confirmed = None,
     published_capabilities = \<lparr>view_fixed = replicate MAX_SOURCE_PDOS None, view_pps = replicate MAX_SOURCE_PDOS None\<rparr>,
     failure = Some FailureUnavailable\<rparr>"

definition power_state_failure ::
  "SinkPhase \<Rightarrow> PdStatusObservation option \<Rightarrow> ConfirmedActiveContract option \<Rightarrow> bool \<Rightarrow> PowerFailure option" where
  "power_state_failure ph observation act service_available =
     (if \<not> service_available then Some FailureUnavailable
      else if ph = Detached then Some FailureDetached
      else if ph = Fault then Some FailureTransportFault
      else if ph = Ready \<and> observation = None then Some FailureTransportFault
      else if observation \<noteq> None \<and> act = None then Some FailureCapabilityInvalidated
      else None)"

definition from_observation ::
  "SinkPhase \<Rightarrow> PdStatusObservation option \<Rightarrow> SourceCapabilities option \<Rightarrow> bool \<Rightarrow> PdContractRequest option \<Rightarrow> PowerState" where
  "from_observation ph observation capabilities service_available req =
     (let caps = (case capabilities of None \<Rightarrow> SourceCapabilities_empty | Some c \<Rightarrow> c);
          act = (case observation of None \<Rightarrow> None | Some ob \<Rightarrow> from_private_contract (observed_contract ob) caps);
          proto = (if \<not> service_available then ProtocolUnknown
                   else case ph of
                     Detached \<Rightarrow> ProtocolDetached
                   | WaitingForSourceCapabilities \<Rightarrow> ProtocolDiscovering
                   | WaitingForAccept \<Rightarrow> ProtocolWaitingForAccept
                   | WaitingForPsRdy \<Rightarrow> ProtocolWaitingForPsRdy
                   | Ready \<Rightarrow> (if act \<noteq> None then ProtocolReady else ProtocolFault)
                   | Fault \<Rightarrow> ProtocolFault);
          fail = power_state_failure ph observation act service_available
      in \<lparr>protocol = proto, available = service_available, requested = req, active_confirmed = act,
          published_capabilities = view (if fail \<noteq> None then SourceCapabilities_empty else caps),
          failure = fail\<rparr>)"

definition PowerState_observation :: "PowerState \<Rightarrow> PdStatusObservation option" where
  "PowerState_observation s =
     (if \<not> available s then None
      else case active_confirmed s of
        None \<Rightarrow> None
      | Some act \<Rightarrow>
          let kind = (case confirmed_mode act of FixedRequest \<Rightarrow> FixedContract | PpsRequest \<Rightarrow> PpsContract);
              raw = FUSB302B_STATUS0_VBUSOK
          in Some \<lparr>status_raw = raw, observed_status = fusb302b_status_projection raw, current_raw = 0,
                   observed_current_ma = confirmed_operating_current_ma act,
                   observed_voltage_mv = Some (confirmed_voltage_mv act),
                   observed_contract = Contract_observed kind (confirmed_voltage_mv act) (confirmed_operating_current_ma act)\<rparr>)"

section \<open>What callers ask of a state\<close>

definition request_matches_active :: "PdContractRequest \<Rightarrow> ConfirmedActiveContract option \<Rightarrow> bool" where
  "request_matches_active req act =
     (case act of
        None \<Rightarrow> False
      | Some a \<Rightarrow> confirmed_mode a = request_mode req \<and> confirmed_voltage_mv a = request_voltage_mv req
          \<and> confirmed_operating_current_ma a = request_operating_current_ma req
          \<and> (case request_pps_range req of None \<Rightarrow> True | Some rng \<Rightarrow> confirmed_pps_range a = Some rng))"

definition pps_adjustment_is_continuous :: "PowerState \<Rightarrow> PdContractRequest \<Rightarrow> bool" where
  "pps_adjustment_is_continuous s req =
     (if \<not> available s \<or> failure s \<noteq> None \<or> request_mode req \<noteq> PpsRequest then False
      else case active_confirmed s of
        None \<Rightarrow> False
      | Some a \<Rightarrow>
          if request_calibration req
          then request_keeps_same_pps_apdo_or_reduces_current a (published_capabilities s) req
          else request_keeps_same_pps_apdo a (published_capabilities s) req)"

text \<open>The loop of \<open>adjustable_capabilities_from_view\<close>: one range is merged after the other.\<close>

definition merge_range :: "PpsAdjustmentRange \<Rightarrow> AdjustablePowerCapabilities \<Rightarrow> AdjustablePowerCapabilities" where
  "merge_range rng caps =
     caps\<lparr>best_min_mv := Some (case best_min_mv caps of None \<Rightarrow> range_min_mv rng | Some v \<Rightarrow> min v (range_min_mv rng)),
          best_max_mv := Some (case best_max_mv caps of None \<Rightarrow> range_max_mv rng | Some v \<Rightarrow> max v (range_max_mv rng)),
          best_max_ma := Some (case best_max_ma caps of None \<Rightarrow> range_max_current_ma rng | Some v \<Rightarrow> max v (range_max_current_ma rng)),
          pps_covers_20v := (pps_covers_20v caps \<or> range_min_mv rng \<le> GUARANTEED_HEATER_MIN_MV \<and> range_max_mv rng \<ge> GUARANTEED_HEATER_MIN_MV),
          pps_apdos := push_slot \<lparr>chip_min_mv = range_min_mv rng, chip_max_mv = range_max_mv rng, chip_max_ma = range_max_current_ma rng\<rparr>
            (pps_apdos caps)\<rparr>"

definition adjustable_capabilities_from_view :: "SourceCapabilitiesView \<Rightarrow> AdjustablePowerCapabilities option" where
  "adjustable_capabilities_from_view v =
     (let ranges = flatten (view_pps v) in
      if ranges = [] then None else Some (fold merge_range ranges AdjustablePowerCapabilities_default))"

section \<open>A published state is honest\<close>

lemma from_private_contract_Some:
  assumes "from_private_contract c caps = Some a"
  shows "supports_contract caps c" "confirmed_voltage_mv a = contract_voltage_mv c"
    "confirmed_operating_current_ma a = contract_current_ma c"
    "contract_kind c = (case confirmed_mode a of FixedRequest \<Rightarrow> FixedContract | PpsRequest \<Rightarrow> PpsContract)"
  using assms by (auto simp: from_private_contract_def Let_def split: if_splits option.splits ContractKind.splits)

text \<open>
  \<^bold>\<open>What the PD service publishes is honest.\<close> For every phase, observation and set of capabilities:
  the published state is \<open>Ready\<close> exactly when the service is available, the policy is ready and the observed
  contract is one the capabilities support; then it reports no failure. A state that reports a failure publishes
  no capability at all, so no continuity test can succeed on it. A published contract is the observed one, with its voltage
  and current, and supported by the capabilities; and the observation reconstructed from the state has the kind, the voltage and
  the current that were observed.
\<close>

theorem published_power_state_is_honest:
  assumes "s = from_observation ph ob caps avail req" "C = (case caps of None \<Rightarrow> SourceCapabilities_empty | Some c \<Rightarrow> c)"
  shows "(protocol s = ProtocolReady \<longleftrightarrow> avail \<and> ph = Ready \<and> (\<exists>x. ob = Some x \<and> from_private_contract (observed_contract x) C \<noteq> None))
    \<and> (protocol s = ProtocolReady \<longrightarrow> failure s = None \<and> published_capabilities s = view C)
    \<and> (failure s \<noteq> None \<longrightarrow> published_capabilities s = view SourceCapabilities_empty \<and> \<not> pps_adjustment_is_continuous s r)
    \<and> (\<forall>a. active_confirmed s = Some a \<longrightarrow> (\<exists>x. ob = Some x \<and> supports_contract C (observed_contract x)
          \<and> confirmed_voltage_mv a = contract_voltage_mv (observed_contract x)
          \<and> confirmed_operating_current_ma a = contract_current_ma (observed_contract x)))
    \<and> (\<forall>y. PowerState_observation s = Some y \<longrightarrow> avail \<and> (\<exists>x. ob = Some x
          \<and> contract_kind (observed_contract y) = contract_kind (observed_contract x)
          \<and> contract_voltage_mv (observed_contract y) = contract_voltage_mv (observed_contract x)
          \<and> contract_current_ma (observed_contract y) = contract_current_ma (observed_contract x)
          \<and> pd_active (observed_status y)))"
proof (intro conjI)
  note defs = assms(1) from_observation_def Let_def assms(2) [symmetric] power_state_failure_def
  show "protocol s = ProtocolReady \<longleftrightarrow> avail \<and> ph = Ready \<and> (\<exists>x. ob = Some x \<and> from_private_contract (observed_contract x) C \<noteq> None)"
    by (cases ph; cases ob) (simp_all add: defs)
  show "protocol s = ProtocolReady \<longrightarrow> failure s = None \<and> published_capabilities s = view C"
    by (cases ph; cases ob) (simp_all add: defs)
  show "failure s \<noteq> None \<longrightarrow> published_capabilities s = view SourceCapabilities_empty \<and> \<not> pps_adjustment_is_continuous s r"
    by (simp add: defs pps_adjustment_is_continuous_def)
  show act: "\<forall>a. active_confirmed s = Some a \<longrightarrow> (\<exists>x. ob = Some x \<and> supports_contract C (observed_contract x)
      \<and> confirmed_voltage_mv a = contract_voltage_mv (observed_contract x)
      \<and> confirmed_operating_current_ma a = contract_current_ma (observed_contract x))"
    by (cases ob) (auto simp: defs dest: from_private_contract_Some)
  have raw: "pd_active (fusb302b_status_projection FUSB302B_STATUS0_VBUSOK)"
    by (simp add: fusb302b_status_projection_def FUSB302B_STATUS0_VBUSOK_def)
  show "\<forall>y. PowerState_observation s = Some y \<longrightarrow> avail \<and> (\<exists>x. ob = Some x
      \<and> contract_kind (observed_contract y) = contract_kind (observed_contract x)
      \<and> contract_voltage_mv (observed_contract y) = contract_voltage_mv (observed_contract x)
      \<and> contract_current_ma (observed_contract y) = contract_current_ma (observed_contract x)
      \<and> pd_active (observed_status y))"
    using raw
    by (cases ob)
      (auto simp: PowerState_observation_def defs Contract_observed_def dest: from_private_contract_Some split: if_splits option.splits)
qed

definition bench_observation :: PdStatusObservation where
  "bench_observation = \<lparr>status_raw = 0x80, observed_status = fusb302b_status_projection 0x80, current_raw = 0,
     observed_current_ma = 3000, observed_voltage_mv = Some 20000, observed_contract = bench_contract\<rparr>"

theorem published_power_state_is_honest_witness:
  "protocol (from_observation Ready (Some bench_observation) (Some (from_pdos bench_source)) True None) = ProtocolReady"
proof -
  have "from_private_contract (observed_contract bench_observation) (from_pdos bench_source) \<noteq> None" by code_simp
  then show ?thesis
    using published_power_state_is_honest [OF refl refl, of Ready "Some bench_observation" "Some (from_pdos bench_source)" True None]
    by simp
qed

end
