(* ===== verification/Power_Coordinator.thy ===== *)
theory Power_Coordinator
  imports Power_State "HOL-Library.Multiset"
begin

text \<open>
  The power coordinator of \<open>src/firmware/src/bin/flux_purr/power_domain.rs\<close>: tickets and their six
  result slots, the commands clients queue, and the coordinator that arbitrates them for the PD service.

  The statics of the source (channels, atomics, result signals) and the coordinator's own state are the
  fields of one record. The coordinator runs on an interrupt executor and so as one step with respect to the
  clients, which run on the thread executor; a client's \<open>discard\<close>, which the coordinator can interrupt, is
  split at its atomic accesses. The compare-and-exchange loops retry until the value they read is current, so
  each is one atomic update.
\<close>

section \<open>Tickets, commands and the shared state\<close>

datatype PowerIntentOwner = ThermalPlantAuto | Calibration | ManualOperator | AutomaticThermal

fun priority :: "PowerIntentOwner \<Rightarrow> u8" where
  "priority ThermalPlantAuto = 4"
| "priority Calibration = 3"
| "priority ManualOperator = 2"
| "priority AutomaticThermal = 1"

record PowerTicket =
  ticket_owner :: "PowerIntentOwner option"
  ticket_sequence :: u32
  result_slot :: nat

datatype PowerAdmissionError = AdmissionBusy | FlashPreparationActive

datatype TicketOutcome = Confirmed ConfirmedActiveContract | CapabilitiesRefreshed | Rejected | TimedOut
  | TransportFault | TicketDetached | Superseded

datatype PowerCommand =
    Request PowerIntentOwner PdContractRequest PowerTicket
  | RefreshCapabilities PowerTicket
  | IdleCommand PowerTicket u16

datatype PdServiceCommand =
    ServiceAutomaticIdle PowerTicket u16
  | ServiceContract PdContractRequest PowerTicket
  | ServiceRefresh PowerTicket

definition POWER_COMMAND_CAPACITY :: nat where
  "POWER_COMMAND_CAPACITY = 1"

definition POWER_COMMANDS_CAPACITY :: nat where
  "POWER_COMMANDS_CAPACITY = 6"

definition POWER_TICKET_SLOT_COUNT :: nat where
  "POWER_TICKET_SLOT_COUNT = POWER_COMMANDS_CAPACITY"

record PowerDomain =
  ticket_slots :: u8
  ticket_discarded :: u8
  ticket_results :: "(PowerTicket \<times> TicketOutcome) option list"
  next_ticket_sequence :: u32
  power_commands :: "PowerCommand list"
  pd_service_commands :: "PdServiceCommand list"
  cancelled_ticket :: u32
  flash_preparation :: bool
  power_state_latest :: PowerState
  inflight :: "(PowerIntentOwner \<times> PowerTicket) option"
  inflight_refresh :: bool
  inflight_idle :: bool
  active_owner :: "PowerIntentOwner option"
  joined_refresh :: "PowerTicket list"
  deferred :: "PowerCommand option"

definition PowerDomain_new :: PowerDomain where
  "PowerDomain_new = \<lparr>ticket_slots = 0, ticket_discarded = 0, ticket_results = replicate POWER_TICKET_SLOT_COUNT None,
     next_ticket_sequence = 1, power_commands = [], pd_service_commands = [], cancelled_ticket = 0,
     flash_preparation = False, power_state_latest = PowerState_unavailable,
     inflight = None, inflight_refresh = False, inflight_idle = False, active_owner = None,
     joined_refresh = [], deferred = None\<rparr>"

section \<open>Slots\<close>

definition trailing_zeros :: "u8 \<Rightarrow> nat" where
  "trailing_zeros w = length (takeWhile Not (map (bit w) [0..<8]))"

definition reserve_ticket_slot :: "u8 \<Rightarrow> u8 \<times> nat option" where
  "reserve_ticket_slot slots =
     (let mask = push_bit POWER_TICKET_SLOT_COUNT 1 - 1; free = NOT slots AND mask; slot = trailing_zeros free in
      if slot \<ge> POWER_TICKET_SLOT_COUNT then (slots, None) else (slots OR push_bit slot 1, Some slot))"

definition release_ticket_slot :: "u8 \<Rightarrow> nat \<Rightarrow> u8" where
  "release_ticket_slot slots slot = slots AND NOT (push_bit slot 1)"

definition release_slot :: "PowerDomain \<Rightarrow> PowerTicket \<Rightarrow> PowerDomain" where
  "release_slot w t = w\<lparr>ticket_slots := release_ticket_slot (ticket_slots w) (result_slot t)\<rparr>"

text \<open>\<open>release_discarded_ticket_slot\<close>: clear the mark; if it was set, free the slot.\<close>

definition release_discarded_ticket_slot :: "PowerDomain \<Rightarrow> nat \<Rightarrow> PowerDomain \<times> bool" where
  "release_discarded_ticket_slot w slot =
     (let mask = push_bit slot 1; was = ticket_discarded w;
          w = w\<lparr>ticket_discarded := ticket_discarded w AND NOT mask\<rparr>
      in if was AND mask = 0 then (w, False)
         else (w\<lparr>ticket_slots := release_ticket_slot (ticket_slots w) slot\<rparr>, True))"

definition signal_ticket :: "PowerTicket \<Rightarrow> TicketOutcome \<Rightarrow> PowerDomain \<Rightarrow> PowerDomain" where
  "signal_ticket t outcome w =
     (case release_discarded_ticket_slot w (result_slot t) of
        (w, True) \<Rightarrow> w
      | (w, False) \<Rightarrow> w\<lparr>ticket_results := (ticket_results w)[result_slot t := Some (t, outcome)]\<rparr>)"

section \<open>The client\<close>

definition next_ticket :: "PowerDomain \<Rightarrow> PowerIntentOwner option \<Rightarrow> PowerDomain \<times> PowerTicket option" where
  "next_ticket w owner =
     (case reserve_ticket_slot (ticket_slots w) of
        (slots, None) \<Rightarrow> (w, None)
      | (slots, Some slot) \<Rightarrow>
          (w\<lparr>ticket_slots := slots, next_ticket_sequence := next_ticket_sequence w + 1\<rparr>,
           Some \<lparr>ticket_owner = owner, ticket_sequence = next_ticket_sequence w, result_slot = slot\<rparr>))"

text \<open>Reserve a ticket and queue its command; a full queue gives the slot back.\<close>

definition submit :: "PowerDomain \<Rightarrow> PowerIntentOwner option \<Rightarrow> (PowerTicket \<Rightarrow> PowerCommand) \<Rightarrow> PowerDomain \<times> (PowerAdmissionError + PowerTicket)" where
  "submit w owner command =
     (case next_ticket w owner of
        (w, None) \<Rightarrow> (w, Inl AdmissionBusy)
      | (w, Some t) \<Rightarrow>
          if length (power_commands w) < POWER_COMMANDS_CAPACITY
          then (w\<lparr>power_commands := power_commands w @ [command t]\<rparr>, Inr t)
          else (release_slot w t, Inl AdmissionBusy))"

definition request_power :: "PowerDomain \<Rightarrow> PowerIntentOwner \<Rightarrow> PdContractRequest \<Rightarrow> PowerDomain \<times> (PowerAdmissionError + PowerTicket)" where
  "request_power w owner req =
     (if flash_preparation w then (w, Inl FlashPreparationActive) else submit w (Some owner) (Request owner req))"

definition refresh_capabilities :: "PowerDomain \<Rightarrow> PowerDomain \<times> (PowerAdmissionError + PowerTicket)" where
  "refresh_capabilities w =
     (if flash_preparation w then (w, Inl FlashPreparationActive) else submit w None RefreshCapabilities)"

definition idle_at_minimum :: "PowerDomain \<Rightarrow> u16 \<Rightarrow> PowerDomain \<times> (PowerAdmissionError + PowerTicket)" where
  "idle_at_minimum w minimum_mv = submit w None (\<lambda>t. IdleCommand t minimum_mv)"

definition idle :: "PowerDomain \<Rightarrow> PowerDomain \<times> (PowerAdmissionError + PowerTicket)" where
  "idle w = idle_at_minimum w FUSB302B_PD_ABSOLUTE_MIN_MV"

text \<open>\<open>Signal::try_take\<close>: the stored value, leaving the signal empty.\<close>

definition take_result :: "PowerDomain \<Rightarrow> nat \<Rightarrow> PowerDomain \<times> (PowerTicket \<times> TicketOutcome) option" where
  "take_result w slot = (w\<lparr>ticket_results := (ticket_results w)[slot := None]\<rparr>, ticket_results w ! slot)"

definition put_result :: "PowerDomain \<Rightarrow> nat \<Rightarrow> PowerTicket \<times> TicketOutcome \<Rightarrow> PowerDomain" where
  "put_result w slot r = w\<lparr>ticket_results := (ticket_results w)[slot := Some r]\<rparr>"

definition try_take :: "PowerDomain \<Rightarrow> PowerTicket \<Rightarrow> PowerDomain \<times> TicketOutcome option" where
  "try_take w t =
     (case take_result w (result_slot t) of
        (w, None) \<Rightarrow> (w, None)
      | (w, Some (t', outcome)) \<Rightarrow>
          if t' = t then (release_slot w t, Some outcome) else (put_result w (result_slot t) (t', outcome), None))"

text \<open>The three parts of \<open>discard\<close> between which the coordinator may run: the first look, which may
  already finish; the mark; the second look.\<close>

definition discard_look :: "PowerDomain \<Rightarrow> PowerTicket \<Rightarrow> PowerDomain \<times> bool" where
  "discard_look w t =
     (case take_result w (result_slot t) of
        (w, None) \<Rightarrow> (w, False)
      | (w, Some (t', outcome)) \<Rightarrow>
          if t' = t then (release_slot w t, True) else (put_result w (result_slot t) (t', outcome), False))"

definition discard_mark :: "PowerDomain \<Rightarrow> PowerTicket \<Rightarrow> PowerDomain" where
  "discard_mark w t = w\<lparr>ticket_discarded := ticket_discarded w OR push_bit (result_slot t) 1\<rparr>"

definition discard_look_again :: "PowerDomain \<Rightarrow> PowerTicket \<Rightarrow> PowerDomain" where
  "discard_look_again w t =
     (case take_result w (result_slot t) of
        (w, None) \<Rightarrow> w
      | (w, Some (t', outcome)) \<Rightarrow>
          let w = w\<lparr>ticket_discarded := ticket_discarded w AND NOT (push_bit (result_slot t) 1)\<rparr> in
          if t' = t then release_slot w t else put_result w (result_slot t) (t', outcome))"

section \<open>The coordinator's decisions\<close>

definition should_join_refresh :: "bool \<Rightarrow> bool \<Rightarrow> bool" where
  "should_join_refresh refresh inflight_ref \<longleftrightarrow> refresh \<and> inflight_ref"

datatype PowerCommandAdmissionDecision = Dispatch | JoinRefresh | SupersedeInflight | SupersedeIncoming

definition power_command_admission_decision ::
  "PowerIntentOwner option \<Rightarrow> bool \<Rightarrow> bool \<Rightarrow> PowerIntentOwner option \<Rightarrow> bool \<Rightarrow> bool \<Rightarrow> PowerCommandAdmissionDecision" where
  "power_command_admission_decision owner refresh idl act inflight_ref inflight_idl =
     (if should_join_refresh refresh inflight_ref then JoinRefresh
      else case act of
        None \<Rightarrow> Dispatch
      | Some act \<Rightarrow>
          if idl \<or> (inflight_idl \<and> owner \<noteq> None \<and> \<not> refresh)
             \<or> (case owner of None \<Rightarrow> False | Some ow \<Rightarrow> priority ow > priority act)
          then SupersedeInflight else SupersedeIncoming)"

definition owner_priority :: "PowerIntentOwner option \<Rightarrow> u8" where
  "owner_priority ow = (case ow of None \<Rightarrow> 0 | Some ow \<Rightarrow> priority ow)"

definition deferred_command_is_replaced :: "PowerIntentOwner option \<Rightarrow> bool \<Rightarrow> bool \<Rightarrow> PowerIntentOwner option \<Rightarrow> bool" where
  "deferred_command_is_replaced owner refresh idl deferred_owner \<longleftrightarrow>
     idl \<or> refresh \<or> owner_priority owner \<ge> owner_priority deferred_owner"

definition terminal_matches_inflight :: "(PowerIntentOwner \<times> PowerTicket) option \<Rightarrow> PowerTicket \<Rightarrow> bool" where
  "terminal_matches_inflight fl t = (case fl of None \<Rightarrow> False | Some (_, current) \<Rightarrow> current = t)"

definition active_owner_after_terminal ::
  "PowerIntentOwner option \<Rightarrow> PowerIntentOwner option \<Rightarrow> bool \<Rightarrow> bool \<Rightarrow> TicketOutcome \<Rightarrow> PowerIntentOwner option" where
  "active_owner_after_terminal current completed was_refresh was_idle outcome =
     (if was_refresh \<and> outcome \<notin> {TimedOut, TransportFault, TicketDetached} then current
      else if (case outcome of Confirmed _ \<Rightarrow> True | _ \<Rightarrow> False) \<and> \<not> was_idle then completed
      else None)"

definition failed_contract_owner_for_terminal ::
  "(PowerIntentOwner \<times> PowerTicket) option \<Rightarrow> PowerTicket \<Rightarrow> bool \<Rightarrow> bool \<Rightarrow> TicketOutcome \<Rightarrow> PowerIntentOwner option" where
  "failed_contract_owner_for_terminal fl t was_refresh was_idle outcome =
     (if was_refresh \<or> was_idle
         \<or> (case outcome of Confirmed _ \<Rightarrow> True | CapabilitiesRefreshed \<Rightarrow> True | _ \<Rightarrow> False)
         \<or> \<not> terminal_matches_inflight fl t
      then None else map_option fst fl)"

definition select_pd_service_work :: "'t option \<Rightarrow> 'u option \<Rightarrow> 't option \<times> 'u option" where
  "select_pd_service_work pending queued_command = (if queued_command \<noteq> None then (None, queued_command) else (pending, None))"

fun power_command_details :: "PowerCommand \<Rightarrow> PowerTicket \<times> PowerIntentOwner option \<times> bool \<times> bool \<times> PdContractRequest option" where
  "power_command_details (Request owner req t) = (t, Some owner, False, False, Some req)"
| "power_command_details (RefreshCapabilities t) = (t, None, True, False, None)"
| "power_command_details (IdleCommand t _) = (t, None, False, True, None)"

fun power_command_allowed_during_preparation :: "PowerCommand \<Rightarrow> bool \<Rightarrow> bool" where
  "power_command_allowed_during_preparation (IdleCommand _ _) preparing = True"
| "power_command_allowed_during_preparation _ preparing = (\<not> preparing)"

definition power_pd_command ::
  "PowerCommand \<Rightarrow> (PowerTicket \<times> PowerIntentOwner option \<times> bool \<times> bool \<times> PdServiceCommand) option" where
  "power_pd_command command =
     (let (t, owner, refresh, idl, req) = power_command_details command in
      case (command, req) of
        (Request _ r _, Some _) \<Rightarrow> Some (t, owner, refresh, idl, ServiceContract r t)
      | (RefreshCapabilities _, None) \<Rightarrow> Some (t, owner, refresh, idl, ServiceRefresh t)
      | (IdleCommand _ minimum_mv, None) \<Rightarrow> Some (t, owner, refresh, idl, ServiceAutomaticIdle t minimum_mv)
      | _ \<Rightarrow> None)"

fun pd_service_command_ticket :: "PdServiceCommand \<Rightarrow> PowerTicket" where
  "pd_service_command_ticket (ServiceAutomaticIdle t _) = t"
| "pd_service_command_ticket (ServiceContract _ t) = t"
| "pd_service_command_ticket (ServiceRefresh t) = t"

definition cancel_pd_service_ticket :: "PowerTicket \<Rightarrow> PowerDomain \<Rightarrow> PowerDomain" where
  "cancel_pd_service_ticket t w =
     (if ticket_sequence t > cancelled_ticket w then w\<lparr>cancelled_ticket := ticket_sequence t\<rparr> else w)"

definition take_pd_service_ticket_cancelled :: "PowerDomain \<Rightarrow> PowerTicket \<Rightarrow> bool" where
  "take_pd_service_ticket_cancelled w t \<longleftrightarrow> ticket_sequence t \<le> cancelled_ticket w"

definition take_pd_service_command_cancelled :: "PowerDomain \<Rightarrow> PdServiceCommand \<Rightarrow> bool" where
  "take_pd_service_command_cancelled w c = take_pd_service_ticket_cancelled w (pd_service_command_ticket c)"

text \<open>\<open>while let Some(ticket) = joined_refresh.pop()\<close>: the tickets from the last to the first.\<close>

definition signal_joined :: "TicketOutcome \<Rightarrow> PowerDomain \<Rightarrow> PowerDomain" where
  "signal_joined outcome w = fold (\<lambda>t. signal_ticket t outcome) (rev (joined_refresh w)) (w\<lparr>joined_refresh := []\<rparr>)"

definition settle_inflight :: "TicketOutcome \<Rightarrow> PowerDomain \<Rightarrow> PowerDomain" where
  "settle_inflight outcome w =
     (let w = (case inflight w of
                 None \<Rightarrow> w
               | Some (_, t) \<Rightarrow> signal_ticket t outcome (cancel_pd_service_ticket t (w\<lparr>inflight := None\<rparr>)))
      in signal_joined outcome (w\<lparr>inflight_refresh := False\<rparr>))"

definition supersede_or_join_power_command ::
  "PowerTicket \<Rightarrow> PowerIntentOwner option \<Rightarrow> bool \<Rightarrow> bool \<Rightarrow> PowerDomain \<Rightarrow> PowerDomain \<times> bool" where
  "supersede_or_join_power_command t owner refresh idl w =
     (case power_command_admission_decision owner refresh idl (map_option fst (inflight w)) (inflight_refresh w) (inflight_idle w) of
        JoinRefresh \<Rightarrow>
          if length (joined_refresh w) < POWER_COMMANDS_CAPACITY
          then (w\<lparr>joined_refresh := joined_refresh w @ [t]\<rparr>, True)
          else (signal_ticket t Rejected w, True)
      | SupersedeInflight \<Rightarrow> (settle_inflight Superseded w, False)
      | SupersedeIncoming \<Rightarrow> (signal_ticket t Superseded w, True)
      | Dispatch \<Rightarrow> (w, False))"

definition owner_is_superseded :: "PowerIntentOwner option \<Rightarrow> PowerIntentOwner option \<Rightarrow> bool" where
  "owner_is_superseded owner act =
     (case (owner, act) of (Some ow, Some a) \<Rightarrow> priority ow < priority a | _ \<Rightarrow> False)"

definition queued_command_is_preempted_by_failed_owner :: "PowerCommand \<Rightarrow> PowerIntentOwner \<Rightarrow> bool" where
  "queued_command_is_preempted_by_failed_owner command failed_owner =
     (let (_, owner, refresh, idl, _) = power_command_details command in
      if idl then False else if refresh then True
      else (case owner of None \<Rightarrow> False | Some ow \<Rightarrow> priority ow \<le> priority failed_owner))"

definition try_send_pd_service_command :: "PowerDomain \<Rightarrow> PdServiceCommand \<Rightarrow> PowerDomain option" where
  "try_send_pd_service_command w c =
     (if length (pd_service_commands w) < POWER_COMMAND_CAPACITY
      then Some (w\<lparr>pd_service_commands := pd_service_commands w @ [c]\<rparr>) else None)"

abbreviation command_ticket :: "PowerCommand \<Rightarrow> PowerTicket" where
  "command_ticket command \<equiv> fst (power_command_details command)"

text \<open>The end of \<open>dispatch_power_command\<close>: send the command, or defer it when the service is busy.\<close>

definition send_or_defer ::
  "PowerCommand \<Rightarrow> PowerTicket \<Rightarrow> PowerIntentOwner option \<Rightarrow> bool \<Rightarrow> bool \<Rightarrow> PdServiceCommand \<Rightarrow> PowerDomain \<Rightarrow> PowerDomain \<times> PowerIntentOwner option" where
  "send_or_defer command t owner refresh idl pd_command w =
     (case try_send_pd_service_command w pd_command of
        None \<Rightarrow>
          (if deferred w \<noteq> None then signal_ticket t TransportFault w else w\<lparr>deferred := Some command\<rparr>, owner)
      | Some w \<Rightarrow>
          (case owner of
             Some ow \<Rightarrow> (w\<lparr>inflight := Some (ow, t), inflight_refresh := False, inflight_idle := False\<rparr>, None)
           | None \<Rightarrow> (w\<lparr>inflight := Some (AutomaticThermal, t), inflight_refresh := refresh, inflight_idle := idl\<rparr>, None)))"

definition admit_power_command :: "PowerCommand \<Rightarrow> PowerDomain \<Rightarrow> PowerDomain \<times> PowerIntentOwner option" where
  "admit_power_command command w =
     (case power_pd_command command of
        None \<Rightarrow> (signal_ticket (command_ticket command) Rejected w, None)
      | Some (t, owner, refresh, idl, pd_command) \<Rightarrow>
          if owner_is_superseded owner (active_owner w) then (signal_ticket t Superseded w, None)
          else case supersede_or_join_power_command t owner refresh idl w of
              (w, True) \<Rightarrow> (w, None)
            | (w, False) \<Rightarrow> send_or_defer command t owner refresh idl pd_command w)"

definition dispatch_power_command :: "PowerCommand \<Rightarrow> PowerDomain \<Rightarrow> PowerDomain \<times> PowerIntentOwner option" where
  "dispatch_power_command command w =
     (if \<not> power_command_allowed_during_preparation command (flash_preparation w)
      then (signal_ticket (command_ticket command) Rejected w, None)
      else
        let (_, new_owner, new_refresh, new_idle, _) = power_command_details command in
        case deferred w of
          None \<Rightarrow> admit_power_command command w
        | Some d \<Rightarrow>
            let (deferred_ticket, deferred_owner, _, _, _) = power_command_details d in
            if deferred_command_is_replaced new_owner new_refresh new_idle deferred_owner
            then admit_power_command command (signal_ticket deferred_ticket Superseded (w\<lparr>deferred := None\<rparr>))
            else (signal_ticket (command_ticket command) Superseded w, None))"

text \<open>\<open>collect_failed_owner_backlog\<close> empties the queue (its capacity bounds the loop) into the superseded
  tickets and the commands to dispatch.\<close>

definition collect_failed_owner_backlog :: "PowerIntentOwner \<Rightarrow> PowerDomain \<Rightarrow> PowerDomain \<times> PowerTicket list \<times> PowerCommand list" where
  "collect_failed_owner_backlog failed_owner w =
     (let received = take POWER_COMMANDS_CAPACITY (power_commands w);
          preempted = (\<lambda>c. queued_command_is_preempted_by_failed_owner c failed_owner)
      in (w\<lparr>power_commands := drop POWER_COMMANDS_CAPACITY (power_commands w)\<rparr>,
          map command_ticket (filter preempted received), filter (Not \<circ> preempted) received))"

fun dispatch_backlog :: "PowerIntentOwner \<Rightarrow> PowerCommand list \<Rightarrow> PowerDomain \<Rightarrow> PowerDomain" where
  "dispatch_backlog floor [] w = w"
| "dispatch_backlog floor (command # cs) w =
     (if queued_command_is_preempted_by_failed_owner command floor
      then dispatch_backlog floor cs (signal_ticket (command_ticket command) Superseded w)
      else
        let (w, next_floor) = dispatch_power_command command w in
        dispatch_backlog
          (case next_floor of None \<Rightarrow> floor | Some n \<Rightarrow> if priority n > priority floor then n else floor) cs w)"

definition settle_failed_owner_backlog :: "PowerIntentOwner \<Rightarrow> PowerTicket list \<times> PowerCommand list \<Rightarrow> PowerDomain \<Rightarrow> PowerDomain" where
  "settle_failed_owner_backlog failed_owner backlog w =
     dispatch_backlog failed_owner (snd backlog) (fold (\<lambda>t. signal_ticket t Superseded) (fst backlog) w)"

definition dispatch_and_settle :: "PowerCommand \<Rightarrow> PowerDomain \<Rightarrow> PowerDomain" where
  "dispatch_and_settle command w =
     (case dispatch_power_command command w of
        (w, None) \<Rightarrow> w
      | (w, Some failed_owner) \<Rightarrow>
          let (w, backlog) = collect_failed_owner_backlog failed_owner w in
          settle_failed_owner_backlog failed_owner backlog w)"

definition retry_deferred_power_command :: "PowerDomain \<Rightarrow> PowerDomain" where
  "retry_deferred_power_command w =
     (case deferred w of None \<Rightarrow> w | Some command \<Rightarrow> dispatch_and_settle command (w\<lparr>deferred := None\<rparr>))"

definition dispatch_power_terminal :: "PowerTicket \<Rightarrow> TicketOutcome \<Rightarrow> PowerDomain \<Rightarrow> PowerDomain \<times> bool" where
  "dispatch_power_terminal t outcome w =
     (if \<not> terminal_matches_inflight (inflight w) t then (w, False)
      else
        let w = w\<lparr>active_owner := active_owner_after_terminal (active_owner w) (map_option fst (inflight w))
                   (inflight_refresh w) (inflight_idle w) outcome\<rparr>;
            w = signal_ticket t outcome w;
            w = w\<lparr>inflight := None, inflight_refresh := False, inflight_idle := False\<rparr>
        in (signal_joined outcome w, True))"

text \<open>The three branches of the coordinator task: a command, a terminal of the service, a new state.\<close>

definition on_power_command :: "PowerDomain \<Rightarrow> PowerDomain" where
  "on_power_command w =
     (case power_commands w of
        [] \<Rightarrow> w
      | command # cs \<Rightarrow> dispatch_and_settle command (w\<lparr>power_commands := cs\<rparr>))"

definition on_service_terminal :: "PowerState \<Rightarrow> PowerTicket \<Rightarrow> TicketOutcome \<Rightarrow> PowerDomain \<Rightarrow> PowerDomain" where
  "on_service_terminal st t outcome w =
     (let failed_owner = failed_contract_owner_for_terminal (inflight w) t (inflight_refresh w) (inflight_idle w) outcome;
          (w, backlog) = (case failed_owner of None \<Rightarrow> (w, None)
             | Some ow \<Rightarrow> (let (w, b) = collect_failed_owner_backlog ow w in (w, Some b)));
          (w, accepted) = dispatch_power_terminal t outcome w;
          w = (if accepted then w\<lparr>power_state_latest := st\<rparr> else w);
          w = (case (failed_owner, backlog) of
                 (Some ow, Some b) \<Rightarrow> settle_failed_owner_backlog ow b w
               | _ \<Rightarrow> w)
      in retry_deferred_power_command w)"

definition on_service_state :: "PowerState \<Rightarrow> PowerDomain \<Rightarrow> PowerDomain" where
  "on_service_state st w = w\<lparr>power_state_latest := st\<rparr>"

end
