(* ===== verification/Power_Tickets.thy ===== *)
theory Power_Tickets
  imports Power_Coordinator
begin

text \<open>
  The accounting of power tickets. Every one of the six result slots is in one of five states, and every
  operation of \<open>Power_Coordinator\<close> moves a slot along an edge of the protocol between them. The coordinator's proofs
  rest on one rule: signalling a ticket it holds takes the ticket off its books.
\<close>

section \<open>Slot states\<close>

datatype SlotState = SlotFree | Pending PowerTicket | Abandoned PowerTicket
  | Answered PowerTicket TicketOutcome | AnsweredLate PowerTicket TicketOutcome

text \<open>How a slot state shows in the shared data: the tickets the coordinator holds for the slot, the
  result signal, the reservation bit and the discard bit.\<close>

fun slot_shows :: "nat \<Rightarrow> SlotState \<Rightarrow> PowerTicket multiset \<Rightarrow> (PowerTicket \<times> TicketOutcome) option \<Rightarrow> bool \<Rightarrow> bool \<Rightarrow> bool" where
  "slot_shows i SlotFree L r s d \<longleftrightarrow> L = {#} \<and> r = None \<and> \<not> s \<and> \<not> d"
| "slot_shows i (Pending t) L r s d \<longleftrightarrow> result_slot t = i \<and> L = {#t#} \<and> r = None \<and> s \<and> \<not> d"
| "slot_shows i (Abandoned t) L r s d \<longleftrightarrow> result_slot t = i \<and> L = {#t#} \<and> r = None \<and> s \<and> d"
| "slot_shows i (Answered t x) L r s d \<longleftrightarrow> result_slot t = i \<and> L = {#} \<and> r = Some (t, x) \<and> s \<and> \<not> d"
| "slot_shows i (AnsweredLate t x) L r s d \<longleftrightarrow> result_slot t = i \<and> L = {#} \<and> r = Some (t, x) \<and> s \<and> d"

text \<open>Where a client is in \<open>discard\<close>.\<close>

datatype Discarding = NotDiscarding | AboutToMark PowerTicket | Marked PowerTicket

fun in_discard :: "Discarding \<Rightarrow> nat \<Rightarrow> bool" where
  "in_discard NotDiscarding i = False"
| "in_discard (AboutToMark t) i = (result_slot t = i)"
| "in_discard (Marked t) i = (result_slot t = i)"

text \<open>Which tickets the clients hold in a slot, and which discard may be under way on it.\<close>

fun slot_client :: "nat \<Rightarrow> SlotState \<Rightarrow> PowerTicket set \<Rightarrow> Discarding \<Rightarrow> bool" where
  "slot_client i SlotFree H pc \<longleftrightarrow> H = {} \<and> (in_discard pc i \<longrightarrow> (\<exists>t. pc = Marked t))"
| "slot_client i (Pending t) H pc \<longleftrightarrow> (if in_discard pc i then H = {} \<and> pc = AboutToMark t else H = {t})"
| "slot_client i (Abandoned t) H pc \<longleftrightarrow> H = {} \<and> (in_discard pc i \<longrightarrow> pc = Marked t)"
| "slot_client i (Answered t x) H pc \<longleftrightarrow> (if in_discard pc i then H = {} \<and> pc = AboutToMark t else H = {t})"
| "slot_client i (AnsweredLate t x) H pc \<longleftrightarrow> H = {} \<and> pc = Marked t \<and> in_discard pc i"

definition at_slot :: "nat \<Rightarrow> PowerTicket multiset \<Rightarrow> PowerTicket multiset" where
  "at_slot i L = {#t \<in># L. result_slot t = i#}"

definition slot_ok :: "PowerTicket multiset \<Rightarrow> PowerTicket set \<Rightarrow> Discarding \<Rightarrow> PowerDomain \<Rightarrow> nat \<Rightarrow> SlotState \<Rightarrow> bool" where
  "slot_ok L H pc w i st \<longleftrightarrow>
     slot_shows i st (at_slot i L) (ticket_results w ! i) (bit (ticket_slots w) i) (bit (ticket_discarded w) i)
     \<and> slot_client i st {t \<in> H. result_slot t = i} pc"

text \<open>The books balance: \<open>L\<close> is what the coordinator holds, \<open>H\<close> what the clients hold.\<close>

definition ledger :: "PowerTicket multiset \<Rightarrow> PowerTicket set \<Rightarrow> Discarding \<Rightarrow> PowerDomain \<Rightarrow> bool" where
  "ledger L H pc w \<longleftrightarrow>
     length (ticket_results w) = 6 \<and> (\<forall>i\<ge>6. \<not> bit (ticket_slots w) i \<and> \<not> bit (ticket_discarded w) i)
     \<and> (\<forall>t\<in>#L. result_slot t < 6) \<and> (\<forall>t\<in>H. result_slot t < 6) \<and> (\<forall>i. in_discard pc i \<longrightarrow> i < 6)
     \<and> (\<forall>i<6. \<exists>st. slot_ok L H pc w i st)"

section \<open>Bits\<close>

lemma bit_one_u8: "bit ((2 :: u8) ^ i) j \<longleftrightarrow> i = j \<and> j < 8"
  by (auto simp: bit_exp_iff)

lemma bit_release [simp]: "bit (release_ticket_slot s i) j \<longleftrightarrow> bit s j \<and> j \<noteq> i"
  using bit_imp_le_length [of s j] by (auto simp: release_ticket_slot_def bit_and_iff bit_not_iff bit_one_u8)

lemma bit_mark: "i < 8 \<Longrightarrow> bit (s OR push_bit i 1 :: u8) j \<longleftrightarrow> bit s j \<or> j = i"
  by (auto simp: bit_or_iff bit_one_u8)

lemma and_bit_zero: "i < 8 \<Longrightarrow> (s AND push_bit i 1 = (0 :: u8)) \<longleftrightarrow> \<not> bit s i"
  unfolding bit_eq_iff [of "s AND push_bit i 1" 0] by (auto simp: bit_and_iff bit_one_u8)

lemma signal_ticket_cases:
  assumes "result_slot t < 6"
  shows "signal_ticket t x w =
    (if bit (ticket_discarded w) (result_slot t)
     then w\<lparr>ticket_discarded := release_ticket_slot (ticket_discarded w) (result_slot t),
            ticket_slots := release_ticket_slot (ticket_slots w) (result_slot t)\<rparr>
     else w\<lparr>ticket_discarded := release_ticket_slot (ticket_discarded w) (result_slot t),
            ticket_results := (ticket_results w)[result_slot t := Some (t, x)]\<rparr>)"
  using assms and_bit_zero [of "result_slot t" "ticket_discarded w"]
  by (simp add: signal_ticket_def release_discarded_ticket_slot_def Let_def release_ticket_slot_def)

section \<open>Moving one slot\<close>

lemma at_slot_simps [simp]:
  "at_slot i (add_mset t L) = (if result_slot t = i then add_mset t (at_slot i L) else at_slot i L)"
  "at_slot i {#} = {#}"
  by (simp_all add: at_slot_def)

text \<open>An operation that touches one slot keeps the books when that slot moves to a state that is
  consistent again.\<close>

lemma ledger_move:
  assumes "ledger L H pc w" "i < 6" "slot_ok L' H' pc' w' i st"
    and len: "length (ticket_results w') = 6"
    and other: "\<And>j. j \<noteq> i \<Longrightarrow> at_slot j L' = at_slot j L"
      "\<And>j. j \<noteq> i \<Longrightarrow> j < 6 \<Longrightarrow> ticket_results w' ! j = ticket_results w ! j"
      "\<And>j. j \<noteq> i \<Longrightarrow> bit (ticket_slots w') j = bit (ticket_slots w) j"
      "\<And>j. j \<noteq> i \<Longrightarrow> bit (ticket_discarded w') j = bit (ticket_discarded w) j"
      "\<And>j. j \<noteq> i \<Longrightarrow> {t \<in> H'. result_slot t = j} = {t \<in> H. result_slot t = j}"
      "\<And>j st. j \<noteq> i \<Longrightarrow> slot_client j st {t \<in> H. result_slot t = j} pc \<Longrightarrow> slot_client j st {t \<in> H. result_slot t = j} pc'"
      "\<And>j. in_discard pc' j \<Longrightarrow> j < 6"
  shows "ledger L' H' pc' w'"
proof -
  have slots: "\<exists>st. slot_ok L' H' pc' w' j st" if "j < 6" for j
  proof (cases "j = i")
    case True
    then show ?thesis using assms(3) by blast
  next
    case False
    obtain st where "slot_ok L H pc w j st" using assms(1) \<open>j < 6\<close> by (auto simp: ledger_def)
    then have "slot_ok L' H' pc' w' j st" using other False \<open>j < 6\<close> by (simp add: slot_ok_def)
    then show ?thesis ..
  qed
  have L': "result_slot t < 6" if "t \<in># L'" for t
  proof (cases "result_slot t = i")
    case False
    have "t \<in># at_slot (result_slot t) L'" using that by (simp add: at_slot_def)
    then have "t \<in># at_slot (result_slot t) L" using other(1) [OF False] by simp
    then have "t \<in># L" by (simp add: at_slot_def)
    then show ?thesis using assms(1) by (auto simp: ledger_def)
  qed (use \<open>i < 6\<close> in simp)
  have H': "result_slot t < 6" if "t \<in> H'" for t
  proof (cases "result_slot t = i")
    case False
    have "t \<in> {u \<in> H'. result_slot u = result_slot t}" using that by simp
    then have "t \<in> H" using other(5) [OF False] by simp
    then show ?thesis using assms(1) by (auto simp: ledger_def)
  qed (use \<open>i < 6\<close> in simp)
  have bits: "\<not> bit (ticket_slots w') j \<and> \<not> bit (ticket_discarded w') j" if "6 \<le> j" for j
    using that assms(1) other(3,4) [of j] \<open>i < 6\<close> by (auto simp: ledger_def)
  show ?thesis
    unfolding ledger_def using len bits L' H' slots other(7) by blast
qed

lemma ledger_slot:
  assumes "ledger L H pc w" "i < 6"
  obtains st where "slot_ok L H pc w i st"
  using assms by (auto simp: ledger_def)

text \<open>The rule of the coordinator: a held ticket that is signalled is off the books.\<close>

lemma slot_shows_held:
  "slot_shows i st (add_mset t M) r s d \<Longrightarrow> M = {#} \<and> (st = Pending t \<or> st = Abandoned t)"
  by (cases st) simp_all

lemma held_ticket_state:
  assumes "slot_ok (add_mset t L) H pc w (result_slot t) st"
  shows "at_slot (result_slot t) L = {#} \<and> (st = Pending t \<or> st = Abandoned t)"
  using assms unfolding slot_ok_def at_slot_simps if_P [OF refl] by (blast dest: slot_shows_held)

lemma ledger_signal:
  assumes "ledger (add_mset t L) H pc w"
  shows "ledger L H pc (signal_ticket t x w)"
proof -
  let ?i = "result_slot t"
  have i: "?i < 6" using assms by (simp add: ledger_def)
  obtain st where st: "slot_ok (add_mset t L) H pc w ?i st" using ledger_slot [OF assms i] .
  define w' where "w' = signal_ticket t x w"
  have len: "length (ticket_results w) = 6" using assms by (simp add: ledger_def)
  note sig = signal_ticket_cases [OF i, of x w]
  have held: "at_slot ?i L = {#}" "st = Pending t \<or> st = Abandoned t" using held_ticket_state [OF st] by blast+
  from held(2) have "\<exists>st'. slot_ok L H pc w' ?i st'"
  proof
    assume 1: "st = Pending t"
    then have "slot_ok L H pc w' ?i (Answered t x)"
      using held(1) st sig len i by (auto simp: slot_ok_def w'_def split: if_splits)
    then show ?thesis ..
  next
    assume "st = Abandoned t"
    then have "slot_ok L H pc w' ?i SlotFree"
      using held(1) st sig by (auto simp: slot_ok_def w'_def)
    then show ?thesis ..
  qed
  then obtain st' where st': "slot_ok L H pc w' ?i st'" ..
  show ?thesis
    unfolding w'_def [symmetric]
    by (rule ledger_move [OF assms i st'])
      (use sig len assms in \<open>auto simp: w'_def ledger_def\<close>)
qed

section \<open>Fields that do not matter to the books\<close>

lemma ledger_frame [simp]:
  "ledger L H pc (w\<lparr>next_ticket_sequence := a1\<rparr>) = ledger L H pc w"
  "ledger L H pc (w\<lparr>power_commands := a2\<rparr>) = ledger L H pc w"
  "ledger L H pc (w\<lparr>pd_service_commands := a3\<rparr>) = ledger L H pc w"
  "ledger L H pc (w\<lparr>cancelled_ticket := a4\<rparr>) = ledger L H pc w"
  "ledger L H pc (w\<lparr>flash_preparation := a5\<rparr>) = ledger L H pc w"
  "ledger L H pc (w\<lparr>power_state_latest := a6\<rparr>) = ledger L H pc w"
  "ledger L H pc (w\<lparr>inflight := a7\<rparr>) = ledger L H pc w"
  "ledger L H pc (w\<lparr>inflight_refresh := a8\<rparr>) = ledger L H pc w"
  "ledger L H pc (w\<lparr>inflight_idle := a9\<rparr>) = ledger L H pc w"
  "ledger L H pc (w\<lparr>active_owner := b1\<rparr>) = ledger L H pc w"
  "ledger L H pc (w\<lparr>joined_refresh := b2\<rparr>) = ledger L H pc w"
  "ledger L H pc (w\<lparr>deferred := b3\<rparr>) = ledger L H pc w"
  by (simp_all add: ledger_def slot_ok_def)

lemma signal_frame [simp]:
  "next_ticket_sequence (signal_ticket t x w) = next_ticket_sequence w"
  "power_commands (signal_ticket t x w) = power_commands w"
  "pd_service_commands (signal_ticket t x w) = pd_service_commands w"
  "cancelled_ticket (signal_ticket t x w) = cancelled_ticket w"
  "flash_preparation (signal_ticket t x w) = flash_preparation w"
  "power_state_latest (signal_ticket t x w) = power_state_latest w"
  "inflight (signal_ticket t x w) = inflight w"
  "inflight_refresh (signal_ticket t x w) = inflight_refresh w"
  "inflight_idle (signal_ticket t x w) = inflight_idle w"
  "active_owner (signal_ticket t x w) = active_owner w"
  "joined_refresh (signal_ticket t x w) = joined_refresh w"
  "deferred (signal_ticket t x w) = deferred w"
  by (simp_all add: signal_ticket_def release_discarded_ticket_slot_def Let_def)

lemma cancel_frame [simp]:
  "ledger L H pc (cancel_pd_service_ticket t w) = ledger L H pc w"
  "power_commands (cancel_pd_service_ticket t w) = power_commands w"
  "inflight (cancel_pd_service_ticket t w) = inflight w"
  "joined_refresh (cancel_pd_service_ticket t w) = joined_refresh w"
  "deferred (cancel_pd_service_ticket t w) = deferred w"
  by (simp_all add: cancel_pd_service_ticket_def)

section \<open>What the coordinator holds\<close>

definition owned :: "PowerDomain \<Rightarrow> PowerTicket multiset" where
  "owned w = mset (map command_ticket (power_commands w))
     + (case deferred w of None \<Rightarrow> {#} | Some c \<Rightarrow> {#command_ticket c#})
     + (case inflight w of None \<Rightarrow> {#} | Some (_, t) \<Rightarrow> {#t#})
     + mset (joined_refresh w)"

lemma owned_signal [simp]: "owned (signal_ticket t x w) = owned w"
  by (simp add: owned_def)

lemma fold_signal:
  "ledger (mset ts + L) H pc w \<Longrightarrow> ledger L H pc (fold (\<lambda>t. signal_ticket t x) ts w)"
  by (induction ts arbitrary: w) (auto intro: ledger_signal)

lemma fold_signal_frame [simp]:
  "power_commands (fold (\<lambda>t. signal_ticket t x) ts w) = power_commands w"
  "pd_service_commands (fold (\<lambda>t. signal_ticket t x) ts w) = pd_service_commands w"
  "cancelled_ticket (fold (\<lambda>t. signal_ticket t x) ts w) = cancelled_ticket w"
  "flash_preparation (fold (\<lambda>t. signal_ticket t x) ts w) = flash_preparation w"
  "next_ticket_sequence (fold (\<lambda>t. signal_ticket t x) ts w) = next_ticket_sequence w"
  "inflight (fold (\<lambda>t. signal_ticket t x) ts w) = inflight w"
  "inflight_refresh (fold (\<lambda>t. signal_ticket t x) ts w) = inflight_refresh w"
  "inflight_idle (fold (\<lambda>t. signal_ticket t x) ts w) = inflight_idle w"
  "active_owner (fold (\<lambda>t. signal_ticket t x) ts w) = active_owner w"
  "joined_refresh (fold (\<lambda>t. signal_ticket t x) ts w) = joined_refresh w"
  "deferred (fold (\<lambda>t. signal_ticket t x) ts w) = deferred w"
  by (induction ts arbitrary: w) simp_all

lemma ledger_signal_joined:
  assumes "ledger (M + owned w) H pc w"
  shows "ledger (M + owned (signal_joined x w)) H pc (signal_joined x w)"
proof -
  have "owned w = mset (rev (joined_refresh w)) + owned (w\<lparr>joined_refresh := []\<rparr>)" by (simp add: owned_def)
  then have "ledger (mset (rev (joined_refresh w)) + (M + owned (w\<lparr>joined_refresh := []\<rparr>))) H pc (w\<lparr>joined_refresh := []\<rparr>)"
    using assms by (simp add: ac_simps)
  from fold_signal [OF this] show ?thesis by (simp add: signal_joined_def owned_def)
qed

lemma settle_inflight_gone [simp]: "inflight (settle_inflight x w) = None"
  by (simp add: settle_inflight_def signal_joined_def Let_def split: option.split prod.split)

lemma ledger_settle_inflight:
  assumes "ledger (M + owned w) H pc w"
  shows "ledger (M + owned (settle_inflight x w)) H pc (settle_inflight x w)"
proof -
  define w1 where "w1 = (case inflight w of None \<Rightarrow> w
    | Some (_, t) \<Rightarrow> signal_ticket t x (cancel_pd_service_ticket t (w\<lparr>inflight := None\<rparr>)))"
  have "ledger (M + owned w1) H pc w1"
  proof (cases "inflight w")
    case None
    then show ?thesis using assms by (simp add: w1_def)
  next
    case (Some f)
    obtain ow t where f: "f = (ow, t)" by (cases f)
    let ?w = "cancel_pd_service_ticket t (w\<lparr>inflight := None\<rparr>)"
    have "owned w = add_mset t (owned ?w)" by (simp add: owned_def Some f)
    then have "ledger (add_mset t (M + owned ?w)) H pc ?w" using assms by simp
    from ledger_signal [OF this] show ?thesis by (simp add: w1_def Some f)
  qed
  then have "ledger (M + owned (w1\<lparr>inflight_refresh := False\<rparr>)) H pc (w1\<lparr>inflight_refresh := False\<rparr>)"
    by (simp add: owned_def)
  from ledger_signal_joined [OF this] show ?thesis by (simp add: settle_inflight_def w1_def)
qed

lemma ledger_supersede_or_join:
  assumes "ledger (add_mset t (M + owned w)) H pc w" "supersede_or_join_power_command t ow refresh idl w = (w', settled)"
  shows "if settled then ledger (M + owned w') H pc w' else ledger (add_mset t (M + owned w')) H pc w' \<and> inflight w' = None"
proof -
  let ?d = "power_command_admission_decision ow refresh idl (map_option fst (inflight w)) (inflight_refresh w) (inflight_idle w)"
  show ?thesis
  proof (cases ?d)
    case Dispatch
    then have "inflight w = None"
      by (auto simp: power_command_admission_decision_def split: if_splits option.splits)
    then show ?thesis using assms Dispatch by (auto simp: supersede_or_join_power_command_def)
  next
    case JoinRefresh
    have "M + owned (w\<lparr>joined_refresh := joined_refresh w @ [t]\<rparr>) = add_mset t (M + owned w)" by (simp add: owned_def)
    then show ?thesis
      using assms JoinRefresh ledger_signal [OF assms(1)] by (auto simp: supersede_or_join_power_command_def split: if_splits)
  next
    case SupersedeInflight
    then show ?thesis
      using assms ledger_settle_inflight [of "add_mset t M" w H pc] by (auto simp: supersede_or_join_power_command_def)
  next
    case SupersedeIncoming
    then show ?thesis using assms ledger_signal [OF assms(1)] by (auto simp: supersede_or_join_power_command_def)
  qed
qed

lemma ledger_send_or_defer:
  assumes "ledger (add_mset t (M + owned w)) H pc w" "inflight w = None" "command_ticket command = t"
  shows "ledger (M + owned (fst (send_or_defer command t ow refresh idl c w))) H pc (fst (send_or_defer command t ow refresh idl c w))"
proof (cases "try_send_pd_service_command w c")
  case None
  have "ledger (M + owned (w\<lparr>deferred := Some command\<rparr>)) H pc (w\<lparr>deferred := Some command\<rparr>)" if "deferred w = None"
    using assms that by (simp add: owned_def)
  then show ?thesis using None ledger_signal [OF assms(1)] by (auto simp: send_or_defer_def)
next
  case (Some w')
  then have w': "w' = w\<lparr>pd_service_commands := pd_service_commands w @ [c]\<rparr>"
    by (auto simp: try_send_pd_service_command_def split: if_splits)
  show ?thesis
    using assms(1,2) by (cases ow) (simp_all add: send_or_defer_def Some w' owned_def)
qed

lemma power_pd_command_details:
  "\<exists>c. power_pd_command command = Some (fst (power_command_details command), fst (snd (power_command_details command)),
     fst (snd (snd (power_command_details command))), fst (snd (snd (snd (power_command_details command)))), c)
     \<and> pd_service_command_ticket c = command_ticket command"
  by (cases command) (simp_all add: power_pd_command_def)

lemma ledger_admit:
  assumes "ledger (add_mset (command_ticket command) (M + owned w)) H pc w"
  shows "ledger (M + owned (fst (admit_power_command command w))) H pc (fst (admit_power_command command w))"
proof -
  obtain ow refresh idl c where pd: "power_pd_command command = Some (command_ticket command, ow, refresh, idl, c)"
    using power_pd_command_details [of command] by blast
  show ?thesis
  proof (cases "owner_is_superseded ow (active_owner w)")
    case True
    then show ?thesis using ledger_signal [OF assms] by (simp add: admit_power_command_def pd)
  next
    case False
    obtain w' settled where s: "supersede_or_join_power_command (command_ticket command) ow refresh idl w = (w', settled)"
      by (cases "supersede_or_join_power_command (command_ticket command) ow refresh idl w")
    note ledger_supersede_or_join [OF assms s]
    then show ?thesis
      using ledger_send_or_defer [of "command_ticket command" M w' H pc command] False s
      by (cases settled) (auto simp: admit_power_command_def pd)
  qed
qed

lemma ledger_dispatch:
  assumes "ledger (add_mset (command_ticket command) (M + owned w)) H pc w"
  shows "ledger (M + owned (fst (dispatch_power_command command w))) H pc (fst (dispatch_power_command command w))"
proof -
  note drop = ledger_signal [OF assms]
  show ?thesis
  proof (cases "power_command_allowed_during_preparation command (flash_preparation w)")
    case False
    then show ?thesis using drop by (simp add: dispatch_power_command_def)
  next
    case True
    show ?thesis
    proof (cases "deferred w")
      case None
      then show ?thesis using ledger_admit [OF assms] True by (simp add: dispatch_power_command_def split_def)
    next
      case (Some d)
      let ?w = "signal_ticket (command_ticket d) Superseded (w\<lparr>deferred := None\<rparr>)"
      have "add_mset (command_ticket command) (M + owned w)
          = add_mset (command_ticket d) (add_mset (command_ticket command) (M + owned ?w))"
        by (simp add: owned_def Some)
      then have "ledger (add_mset (command_ticket d) (add_mset (command_ticket command) (M + owned ?w))) H pc (w\<lparr>deferred := None\<rparr>)"
        using assms by (simp add: add_mset_commute)
      then have "ledger (add_mset (command_ticket command) (M + owned ?w)) H pc ?w" by (rule ledger_signal)
      from ledger_admit [OF this] show ?thesis
        using True Some drop by (simp add: dispatch_power_command_def split_def Let_def)
    qed
  qed
qed

lemma ledger_dispatch_backlog:
  "ledger (mset (map command_ticket cs) + owned w) H pc w \<Longrightarrow>
   ledger (owned (dispatch_backlog floor cs w)) H pc (dispatch_backlog floor cs w)"
proof (induction cs arbitrary: floor w)
  case (Cons c cs)
  let ?M = "mset (map command_ticket cs)"
  have w: "ledger (add_mset (command_ticket c) (?M + owned w)) H pc w" using Cons.prems by simp
  show ?case
    using Cons.IH ledger_signal [OF w] ledger_dispatch [OF w]
    by (simp add: split_def Let_def)
qed simp

lemma collect_backlog_owned:
  assumes "collect_failed_owner_backlog ow w = (w', superseded, dispatchable)"
  shows "owned w = mset superseded + mset (map command_ticket dispatchable) + owned w'"
    and "ledger L H pc w' = ledger L H pc w"
proof -
  let ?p = "\<lambda>c. queued_command_is_preempted_by_failed_owner c ow" and ?q = "take POWER_COMMANDS_CAPACITY (power_commands w)"
  have w': "w' = w\<lparr>power_commands := drop POWER_COMMANDS_CAPACITY (power_commands w)\<rparr>"
    and ts: "superseded = map command_ticket (filter ?p ?q)" "dispatchable = filter (Not \<circ> ?p) ?q"
    using assms by (auto simp: collect_failed_owner_backlog_def Let_def)
  have parts: "image_mset g (mset xs) = mset (map g (filter P xs)) + mset (map g (filter (Not \<circ> P) xs))" for g P and xs :: "PowerCommand list"
    by (induction xs) auto
  have "image_mset command_ticket (mset (power_commands w))
      = image_mset command_ticket (mset ?q) + image_mset command_ticket (mset (drop POWER_COMMANDS_CAPACITY (power_commands w)))"
    by (metis append_take_drop_id mset_append image_mset_union)
  then show "owned w = mset superseded + mset (map command_ticket dispatchable) + owned w'"
    using parts [of command_ticket ?q ?p] by (simp add: owned_def w' ts ac_simps)
  show "ledger L H pc w' = ledger L H pc w" by (simp add: w')
qed

lemma ledger_settle_backlog:
  assumes "ledger (mset superseded + mset (map command_ticket dispatchable) + owned w) H pc w"
  shows "ledger (owned (settle_failed_owner_backlog ow (superseded, dispatchable) w)) H pc
     (settle_failed_owner_backlog ow (superseded, dispatchable) w)"
proof -
  let ?w = "fold (\<lambda>t. signal_ticket t Superseded) superseded w"
  have "ledger (mset (map command_ticket dispatchable) + owned w) H pc ?w"
    by (rule fold_signal) (use assms in \<open>simp add: ac_simps\<close>)
  moreover have "owned ?w = owned w" by (simp add: owned_def)
  ultimately show ?thesis
    using ledger_dispatch_backlog [of dispatchable ?w H pc ow] by (simp add: settle_failed_owner_backlog_def)
qed

lemma ledger_dispatch_and_settle:
  assumes "ledger (add_mset (command_ticket command) (owned w)) H pc w"
  shows "ledger (owned (dispatch_and_settle command w)) H pc (dispatch_and_settle command w)"
proof -
  obtain w1 r where d: "dispatch_power_command command w = (w1, r)" by (cases "dispatch_power_command command w")
  have w1: "ledger (owned w1) H pc w1" using ledger_dispatch [of command "{#}" w H pc] assms d by simp
  show ?thesis
  proof (cases r)
    case None
    then show ?thesis using w1 d by (simp add: dispatch_and_settle_def)
  next
    case (Some ow)
    obtain w2 s ds where c: "collect_failed_owner_backlog ow w1 = (w2, s, ds)"
      by (cases "collect_failed_owner_backlog ow w1") auto
    have "ledger (mset s + mset (map command_ticket ds) + owned w2) H pc w2"
      using w1 collect_backlog_owned [OF c] by simp
    from ledger_settle_backlog [OF this, of ow] show ?thesis
      using d Some c by (simp add: dispatch_and_settle_def)
  qed
qed

lemma ledger_retry:
  assumes "ledger (owned w) H pc w"
  shows "ledger (owned (retry_deferred_power_command w)) H pc (retry_deferred_power_command w)"
proof (cases "deferred w")
  case (Some c)
  have "owned w = add_mset (command_ticket c) (owned (w\<lparr>deferred := None\<rparr>))" by (simp add: owned_def Some)
  then show ?thesis
    using ledger_dispatch_and_settle [of c "w\<lparr>deferred := None\<rparr>" H pc] assms Some
    by (simp add: retry_deferred_power_command_def)
qed (use assms in \<open>simp add: retry_deferred_power_command_def\<close>)

lemma ledger_terminal:
  assumes "ledger (M + owned w) H pc w"
  shows "ledger (M + owned (fst (dispatch_power_terminal t x w))) H pc (fst (dispatch_power_terminal t x w))"
proof (cases "terminal_matches_inflight (inflight w) t")
  case True
  then obtain ow where fl: "inflight w = Some (ow, t)" by (auto simp: terminal_matches_inflight_def split: option.splits)
  define a where "a = active_owner_after_terminal (active_owner w) (map_option fst (inflight w)) (inflight_refresh w) (inflight_idle w) x"
  let ?w = "signal_ticket t x (w\<lparr>active_owner := a\<rparr>)\<lparr>inflight := None, inflight_refresh := False, inflight_idle := False\<rparr>"
  have "M + owned w = add_mset t (M + owned ?w)" by (simp add: owned_def fl)
  then have "ledger (M + owned ?w) H pc ?w"
    using ledger_signal [of t "M + owned ?w" H pc "w\<lparr>active_owner := a\<rparr>" x] assms by simp
  from ledger_signal_joined [OF this, of x] show ?thesis
    using True by (simp add: dispatch_power_terminal_def Let_def a_def)
qed (use assms in \<open>simp add: dispatch_power_terminal_def\<close>)

lemma ledger_on_command:
  assumes "ledger (owned w) H pc w"
  shows "ledger (owned (on_power_command w)) H pc (on_power_command w)"
proof (cases "power_commands w")
  case (Cons c cs)
  have "owned w = add_mset (command_ticket c) (owned (w\<lparr>power_commands := cs\<rparr>))" by (simp add: owned_def Cons)
  then show ?thesis
    using ledger_dispatch_and_settle [of c "w\<lparr>power_commands := cs\<rparr>" H pc] assms Cons by (simp add: on_power_command_def)
qed (use assms in \<open>simp add: on_power_command_def\<close>)

lemma ledger_on_terminal:
  assumes "ledger (owned w) H pc w"
  shows "ledger (owned (on_service_terminal st t x w)) H pc (on_service_terminal st t x w)"
proof -
  define fo where "fo = failed_contract_owner_for_terminal (inflight w) t (inflight_refresh w) (inflight_idle w) x"
  have publish: "ledger (M + owned (w'\<lparr>power_state_latest := st\<rparr>)) H pc (w'\<lparr>power_state_latest := st\<rparr>)
      = ledger (M + owned w') H pc w'" for M w'
    by (simp add: owned_def)
  show ?thesis
  proof (cases fo)
    case None
    obtain w1 acc where d: "dispatch_power_terminal t x w = (w1, acc)" by (cases "dispatch_power_terminal t x w")
    have "ledger (owned w1) H pc w1" using ledger_terminal [of "{#}" w H pc t x] assms d by simp
    then show ?thesis
      using ledger_retry [of "if acc then w1\<lparr>power_state_latest := st\<rparr> else w1"] publish [of "{#}" w1] None d
      by (simp add: on_service_terminal_def fo_def [symmetric] split: if_splits)
  next
    case (Some ow)
    obtain w1 sup dis where c: "collect_failed_owner_backlog ow w = (w1, sup, dis)"
      by (cases "collect_failed_owner_backlog ow w") auto
    let ?M = "mset sup + mset (map command_ticket dis)"
    obtain w2 acc where d: "dispatch_power_terminal t x w1 = (w2, acc)" by (cases "dispatch_power_terminal t x w1")
    have "ledger (?M + owned w1) H pc w1" using assms collect_backlog_owned [OF c] by simp
    then have "ledger (?M + owned w2) H pc w2" using ledger_terminal [of ?M w1 H pc t x] d by simp
    then have "ledger (?M + owned (if acc then w2\<lparr>power_state_latest := st\<rparr> else w2)) H pc
        (if acc then w2\<lparr>power_state_latest := st\<rparr> else w2)"
      using publish by simp
    from ledger_retry [OF ledger_settle_backlog [OF this, of ow]] show ?thesis
      using Some c d by (simp add: on_service_terminal_def fo_def [symmetric])
  qed
qed

section \<open>The clients\<close>

lemma trailing_zeros_bits:
  shows "trailing_zeros w < 8 \<Longrightarrow> bit w (trailing_zeros w)" and "j < trailing_zeros w \<Longrightarrow> \<not> bit w j"
proof -
  let ?bs = "map (bit w) [0..<8]"
  show "bit w (trailing_zeros w)" if "trailing_zeros w < 8"
    using nth_length_takeWhile [of Not ?bs] that by (simp add: trailing_zeros_def del: upt_Suc)
  assume j: "j < trailing_zeros w"
  then have "takeWhile Not ?bs ! j \<in> set (takeWhile Not ?bs)" by (simp add: trailing_zeros_def)
  then have "\<not> takeWhile Not ?bs ! j" by (auto dest: set_takeWhileD)
  moreover have "takeWhile Not ?bs ! j = ?bs ! j" using j by (simp add: trailing_zeros_def takeWhile_nth)
  moreover have "length (takeWhile Not ?bs) \<le> 8" using length_takeWhile_le [of Not ?bs] by simp
  ultimately show "\<not> bit w j" using j by (simp add: trailing_zeros_def del: upt_Suc)
qed

lemma free_bits: "bit (NOT s AND (push_bit POWER_TICKET_SLOT_COUNT 1 - 1 :: u8)) j \<longleftrightarrow> \<not> bit s j \<and> j < 6"
proof -
  have "(push_bit POWER_TICKET_SLOT_COUNT 1 - 1 :: u8) = mask 6"
    by (simp add: POWER_TICKET_SLOT_COUNT_def POWER_COMMANDS_CAPACITY_def mask_eq_exp_minus_1)
  then show ?thesis by (auto simp: bit_and_iff bit_not_iff bit_mask_iff)
qed

lemma reserve_ticket_slot_cases:
  obtains "reserve_ticket_slot s = (s, None)" "\<forall>i<6. bit s i"
    | i where "reserve_ticket_slot s = (s OR push_bit i 1, Some i)" "i < 6" "\<not> bit s i"
proof -
  define free where "free = NOT s AND (push_bit POWER_TICKET_SLOT_COUNT 1 - 1 :: u8)"
  have count: "POWER_TICKET_SLOT_COUNT = 6" by (simp add: POWER_TICKET_SLOT_COUNT_def POWER_COMMANDS_CAPACITY_def)
  show ?thesis
  proof (cases "trailing_zeros free < 6")
    case True
    then have "bit free (trailing_zeros free)" by (intro trailing_zeros_bits(1)) simp
    then have "\<not> bit s (trailing_zeros free)" unfolding free_def free_bits by blast
    then show ?thesis using that(2) [of "trailing_zeros free"] True count
      by (simp add: reserve_ticket_slot_def Let_def free_def)
  next
    case False
    have "bit s i" if "i < 6" for i
    proof -
      have "\<not> bit free i" using trailing_zeros_bits(2) [of i free] that False by linarith
      then show ?thesis unfolding free_def free_bits using that by blast
    qed
    then show ?thesis using that(1) False count by (simp add: reserve_ticket_slot_def Let_def free_def)
  qed
qed

lemma ledger_reserve:
  assumes "ledger L H NotDiscarding w" "result_slot t < 6" "\<not> bit (ticket_slots w) (result_slot t)"
  shows "ledger (add_mset t L) (insert t H) NotDiscarding (w\<lparr>ticket_slots := ticket_slots w OR push_bit (result_slot t) 1\<rparr>)"
proof -
  let ?i = "result_slot t" and ?w = "w\<lparr>ticket_slots := ticket_slots w OR push_bit (result_slot t) 1\<rparr>"
  obtain st where st: "slot_ok L H NotDiscarding w ?i st" using ledger_slot [OF assms(1,2)] .
  then have "st = SlotFree" using assms(3) by (cases st) (auto simp: slot_ok_def)
  then have "slot_ok (add_mset t L) (insert t H) NotDiscarding ?w ?i (Pending t)"
    using st assms(2) bit_mark [of ?i "ticket_slots w" ?i] by (auto simp: slot_ok_def)
  then show ?thesis
    by (rule ledger_move [OF assms(1,2)])
      (use assms bit_mark [of ?i "ticket_slots w"] in \<open>auto simp: ledger_def\<close>)
qed

lemma slot_client_held:
  assumes "slot_client i st Hi pc" "t \<in> Hi"
  shows "st = Pending t \<or> (\<exists>x. st = Answered t x)" "Hi = {t}" "\<not> in_discard pc i"
  using assms by (cases st; auto split: if_splits)+

lemma slot_shows_result:
  "slot_shows i st Li (Some (t, x)) s d \<Longrightarrow> result_slot t = i \<and> (st = Answered t x \<or> st = AnsweredLate t x)"
  by (cases st) auto

text \<open>A ticket in the clients' hands is pending at the coordinator or its outcome is waiting.\<close>

lemma held_slot:
  assumes "ledger L H pc w" "t \<in> H" "i = result_slot t"
  obtains st where "slot_ok L H pc w i st" "i < 6" "st = Pending t \<or> (\<exists>x. st = Answered t x)"
    "{u \<in> H. result_slot u = i} = {t}" "\<not> in_discard pc i"
proof -
  have i: "i < 6" using assms by (auto simp: ledger_def)
  obtain st where st: "slot_ok L H pc w i st" using ledger_slot [OF assms(1) i] .
  have "t \<in> {u \<in> H. result_slot u = i}" using assms(2,3) by simp
  with st that [OF st i] show ?thesis using slot_client_held unfolding slot_ok_def by blast
qed

lemma held_by_client:
  assumes "ledger L H pc w" "t \<in> H" "i = result_slot t"
  shows "(at_slot i L = {#t#} \<and> ticket_results w ! i = None)
     \<or> (at_slot i L = {#} \<and> (\<exists>x. ticket_results w ! i = Some (t, x)))"
    and "bit (ticket_slots w) i" "\<not> bit (ticket_discarded w) i" "\<not> in_discard pc i" "i < 6"
proof -
  obtain st where st: "slot_ok L H pc w i st" "i < 6" "st = Pending t \<or> (\<exists>x. st = Answered t x)" "\<not> in_discard pc i"
    using held_slot [OF assms] by metis
  then show "(at_slot i L = {#t#} \<and> ticket_results w ! i = None)
     \<or> (at_slot i L = {#} \<and> (\<exists>x. ticket_results w ! i = Some (t, x)))"
    "bit (ticket_slots w) i" "\<not> bit (ticket_discarded w) i" "\<not> in_discard pc i" "i < 6"
    by (auto simp: slot_ok_def)
qed

lemma ledger_take:
  assumes "ledger L H NotDiscarding w" "t \<in> H" "i = result_slot t" "ticket_results w ! i = Some (t, x)"
  shows "ledger L (H - {t}) NotDiscarding (release_slot (w\<lparr>ticket_results := (ticket_results w)[i := None]\<rparr>) t)"
proof -
  define w' where "w' = release_slot (w\<lparr>ticket_results := (ticket_results w)[i := None]\<rparr>) t"
  have w': "ticket_results w' = (ticket_results w)[i := None]" "ticket_slots w' = release_ticket_slot (ticket_slots w) i"
    "ticket_discarded w' = ticket_discarded w"
    by (simp_all add: w'_def release_slot_def assms(3))
  have len: "length (ticket_results w) = 6" using assms(1) by (simp add: ledger_def)
  obtain st where st: "slot_ok L H NotDiscarding w i st" "i < 6" "st = Pending t \<or> (\<exists>x. st = Answered t x)"
      "{u \<in> H. result_slot u = i} = {t}"
    using held_slot [OF assms(1-3)] by metis
  have "{u \<in> H - {t}. result_slot u = i} = {}" using st(4) by blast
  then have "slot_ok L (H - {t}) NotDiscarding w' i SlotFree"
    using st(1-3) assms(4) len by (auto simp: slot_ok_def w')
  then show ?thesis
    unfolding w'_def [symmetric]
    by (rule ledger_move [OF assms(1) st(2)]) (use len assms(3) in \<open>auto simp: w'\<close>)
qed

lemma no_result_noop: "ticket_results w ! i = None \<Longrightarrow> w\<lparr>ticket_results := (ticket_results w)[i := None]\<rparr> = w"
  by (metis PowerDomain.surjective PowerDomain.update_convs(3) list_update_id)

lemma ledger_discard_start:
  assumes "ledger L H NotDiscarding w" "t \<in> H" "i = result_slot t"
  shows "ledger L (H - {t}) (AboutToMark t) w"
proof -
  obtain st where st: "slot_ok L H NotDiscarding w i st" "i < 6" "st = Pending t \<or> (\<exists>x. st = Answered t x)"
      "{u \<in> H. result_slot u = i} = {t}"
    using held_slot [OF assms] by metis
  have empty: "{u \<in> H - {t}. result_slot u = i} = {}" using st(4) by blast
  have "slot_client i st {} (AboutToMark t)" using st(3) assms(3) by auto
  then have ok: "slot_ok L (H - {t}) (AboutToMark t) w i st" using st(1) by (simp only: slot_ok_def empty simp_thms)
  have keep: "slot_client j s' K NotDiscarding \<Longrightarrow> slot_client j s' K (AboutToMark t)" if "j \<noteq> i" for j s' K
    using that assms(3) by (cases s') auto
  show ?thesis
    by (rule ledger_move [OF assms(1) st(2) ok]) (use st(2) assms keep in \<open>auto simp: ledger_def\<close>)
qed

lemma ledger_mark:
  assumes "ledger L H (AboutToMark t) w" "i = result_slot t"
  shows "ledger L H (Marked t) (discard_mark w t)"
proof -
  define w' where "w' = discard_mark w t"
  have i: "i < 6" and len: "length (ticket_results w) = 6" using assms by (auto simp: ledger_def)
  have w': "ticket_results w' = ticket_results w" "ticket_slots w' = ticket_slots w"
    "\<And>j. bit (ticket_discarded w') j \<longleftrightarrow> bit (ticket_discarded w) j \<or> j = i"
    using bit_mark [of i] i assms(2) by (simp_all add: w'_def discard_mark_def)
  obtain st where st: "slot_ok L H (AboutToMark t) w i st" using ledger_slot [OF assms(1) i] .
  have about: "in_discard (AboutToMark t) i" using assms(2) by simp
  then have state: "st = Pending t \<or> (\<exists>x. st = Answered t x)" and empty: "{u \<in> H. result_slot u = i} = {}"
    using st by (cases st; simp add: slot_ok_def del: in_discard.simps)+
  have "slot_client i (Abandoned t) {} (Marked t)" "slot_client i (AnsweredLate t x) {} (Marked t)" for x
    using assms(2) by simp_all
  then have "slot_ok L H (Marked t) w' i (Abandoned t) \<or> (\<exists>x. slot_ok L H (Marked t) w' i (AnsweredLate t x))"
    using st state unfolding slot_ok_def empty w' by auto
  then have "\<exists>st'. slot_ok L H (Marked t) w' i st'" by blast
  then obtain st' where ok: "slot_ok L H (Marked t) w' i st'" ..
  have keep: "slot_client j s' K (AboutToMark t) \<Longrightarrow> slot_client j s' K (Marked t)" if "j \<noteq> i" for j s' K
    using that assms(2) by (cases s') auto
  show ?thesis
    unfolding w'_def [symmetric]
    by (rule ledger_move [OF assms(1) i ok]) (use i len assms keep w' in \<open>auto simp: ledger_def\<close>)
qed

lemma ledger_look_again:
  assumes "ledger L H (Marked t) w" "i = result_slot t"
  shows "ledger L H NotDiscarding (discard_look_again w t)"
proof -
  define w' where "w' = discard_look_again w t"
  have i: "i < 6" and len: "length (ticket_results w) = 6" using assms by (auto simp: ledger_def)
  obtain st where st: "slot_ok L H (Marked t) w i st" using ledger_slot [OF assms(1) i] .
  have about: "in_discard (Marked t) i" using assms(2) by simp
  then have cases: "st = SlotFree \<or> st = Abandoned t \<or> (\<exists>x. st = AnsweredLate t x)" "{u \<in> H. result_slot u = i} = {}"
    using st by (cases st; simp add: slot_ok_def del: in_discard.simps)+
  have keep: "slot_client j s' K (Marked t) \<Longrightarrow> slot_client j s' K NotDiscarding" if "j \<noteq> i" for j s' K
    using that assms(2) by (cases s') auto
  show ?thesis
  proof (cases "ticket_results w ! i")
    case None
    then have "w' = w" using no_result_noop [OF None] assms(2) by (simp add: w'_def discard_look_again_def take_result_def)
    moreover have "slot_ok L H NotDiscarding w i st"
      using st cases None by (auto simp: slot_ok_def)
    ultimately show ?thesis
      unfolding w'_def [symmetric]
      by (intro ledger_move [OF assms(1) i, of _ _ _ _ st]) (use i len assms keep in \<open>auto simp: ledger_def\<close>)
  next
    case (Some r)
    then obtain x where st': "st = AnsweredLate t x" "r = (t, x)" using st cases by (auto simp: slot_ok_def)
    have "ticket_results w ! result_slot t = Some (t, x)" using Some st'(2) assms(2) by simp
    then have w': "ticket_results w' = (ticket_results w)[i := None]" "ticket_slots w' = release_ticket_slot (ticket_slots w) i"
      "ticket_discarded w' = release_ticket_slot (ticket_discarded w) i"
      using assms(2) by (simp_all add: w'_def discard_look_again_def take_result_def release_slot_def release_ticket_slot_def Let_def)
    have "slot_ok L H NotDiscarding w' i SlotFree"
      using st st'(1) cases(2) len i by (simp add: slot_ok_def w')
    then show ?thesis
      unfolding w'_def [symmetric]
      by (rule ledger_move [OF assms(1) i]) (use i len assms keep in \<open>auto simp: ledger_def w'\<close>)
  qed
qed

section \<open>The power domain as a transition system\<close>

text \<open>
  A configuration is the shared state, the tickets the clients hold, and the discard under way. The
  thread executor runs one client call at a time, so no other client call starts within a discard; the
  coordinator and the PD service interrupt at any point. The PD service is the environment: it takes commands, reports
  any terminals and publishes any states. A client takes and discards only tickets it holds.
\<close>

type_synonym configuration = "PowerDomain \<times> PowerTicket set \<times> Discarding"

inductive power_step :: "configuration \<Rightarrow> configuration \<Rightarrow> bool" where
  client_request: "request_power w ow req = (w', r) \<Longrightarrow> power_step (w, H, NotDiscarding) (w', H \<union> Inr -` {r}, NotDiscarding)"
| client_refresh: "refresh_capabilities w = (w', r) \<Longrightarrow> power_step (w, H, NotDiscarding) (w', H \<union> Inr -` {r}, NotDiscarding)"
| client_idle: "idle_at_minimum w mv = (w', r) \<Longrightarrow> power_step (w, H, NotDiscarding) (w', H \<union> Inr -` {r}, NotDiscarding)"
| client_take: "t \<in> H \<Longrightarrow> try_take w t = (w', r) \<Longrightarrow> power_step (w, H, NotDiscarding) (w', if r = None then H else H - {t}, NotDiscarding)"
| discard_first: "t \<in> H \<Longrightarrow> discard_look w t = (w', settled) \<Longrightarrow>
    power_step (w, H, NotDiscarding) (w', H - {t}, if settled then NotDiscarding else AboutToMark t)"
| discard_second: "power_step (w, H, AboutToMark t) (discard_mark w t, H, Marked t)"
| discard_third: "power_step (w, H, Marked t) (discard_look_again w t, H, NotDiscarding)"
| coordinator_command: "power_step (w, H, pc) (on_power_command w, H, pc)"
| coordinator_terminal: "power_step (w, H, pc) (on_service_terminal st t x w, H, pc)"
| coordinator_state: "power_step (w, H, pc) (on_service_state st w, H, pc)"
| service_receives: "power_step (w, H, pc) (w\<lparr>pd_service_commands := tl (pd_service_commands w)\<rparr>, H, pc)"
| flash_hold: "power_step (w, H, pc) (w\<lparr>flash_preparation := hold\<rparr>, H, pc)"

definition initial_configuration :: configuration where
  "initial_configuration = (PowerDomain_new, {}, NotDiscarding)"

abbreviation power_reachable :: "configuration \<Rightarrow> bool" where
  "power_reachable c \<equiv> power_step\<^sup>*\<^sup>* initial_configuration c"

fun balanced :: "configuration \<Rightarrow> bool" where
  "balanced (w, H, pc) \<longleftrightarrow> ledger (owned w) H pc w"

lemma distinct_map_if_filter_le_1: "(\<And>i. length (filter (\<lambda>t. f t = i) ts) \<le> 1) \<Longrightarrow> distinct (map f ts)"
proof (induction ts)
  case (Cons t ts)
  have "length (filter (\<lambda>t. f t = i) ts) \<le> 1" for i using Cons.prems [of i] by (simp split: if_splits)
  moreover have "filter (\<lambda>u. f u = f t) ts = []" using Cons.prems [of "f t"] by simp
  ultimately show ?case using Cons.IH by (auto simp: filter_empty_conv)
qed simp

lemma queue_bounded:
  assumes "ledger (owned w) H pc w"
  shows "length (power_commands w) \<le> card {i. i < 6 \<and> bit (ticket_slots w) i}"
proof -
  let ?ts = "map command_ticket (power_commands w)"
  have sub: "mset ?ts \<subseteq># owned w" by (simp add: owned_def)
  have one: "size (at_slot i (owned w)) \<le> 1" "at_slot i (owned w) \<noteq> {#} \<Longrightarrow> bit (ticket_slots w) i" if small: "i < 6" for i
  proof -
    obtain st where "slot_ok (owned w) H pc w i st" using ledger_slot [OF assms small] .
    then show "size (at_slot i (owned w)) \<le> 1" "at_slot i (owned w) \<noteq> {#} \<Longrightarrow> bit (ticket_slots w) i"
      by (cases st; auto simp: slot_ok_def)+
  qed
  have mem: "result_slot t < 6 \<and> bit (ticket_slots w) (result_slot t)" if "t \<in># owned w" for t
  proof -
    have "result_slot t < 6" using assms that by (auto simp: ledger_def)
    moreover have "t \<in># at_slot (result_slot t) (owned w)" using that by (simp add: at_slot_def)
    ultimately show ?thesis using one(2) by (metis empty_not_add_mset multi_member_split)
  qed
  have "length (filter (\<lambda>t. result_slot t = i) ?ts) \<le> 1" for i
  proof (cases "i < 6")
    case True
    have "mset (filter (\<lambda>t. result_slot t = i) ?ts) \<subseteq># at_slot i (owned w)"
      using multiset_filter_mono [OF sub] unfolding at_slot_def by simp
    from size_mset_mono [OF this] show ?thesis using one(1) [OF True] unfolding size_mset by linarith
  next
    case False
    then have "filter (\<lambda>t. result_slot t = i) ?ts = []"
      using mem mset_subset_eqD [OF sub] unfolding filter_empty_conv by auto
    then show ?thesis by (simp only: list.size)
  qed
  then have "distinct (map result_slot ?ts)" by (rule distinct_map_if_filter_le_1)
  from distinct_card [OF this] have "length ?ts = card (result_slot ` set ?ts)" by (simp add: image_image)
  also have "\<dots> \<le> card {i. i < 6 \<and> bit (ticket_slots w) i}"
  proof (rule card_mono)
    have "set ?ts \<subseteq> set_mset (owned w)" using sub by (metis set_mset_mono set_mset_mset)
    then show "result_slot ` set ?ts \<subseteq> {i. i < 6 \<and> bit (ticket_slots w) i}" using mem by blast
  qed simp
  finally show ?thesis by simp
qed

text \<open>Reserving a ticket always finds room in the queue: each queued command holds a slot.\<close>

lemma submit_cases:
  assumes "ledger (owned w) H NotDiscarding w" "submit w ow command = (w', r)" "\<And>t. command_ticket (command t) = t"
  shows "(r = Inl AdmissionBusy \<and> w' = w \<and> (\<forall>i<6. bit (ticket_slots w) i))
    \<or> (\<exists>t. r = Inr t \<and> t \<notin> H \<and> ledger (owned w') (insert t H) NotDiscarding w')"
proof (cases rule: reserve_ticket_slot_cases [of "ticket_slots w"])
  case 1
  then show ?thesis using assms(2) by (simp add: submit_def next_ticket_def)
next
  case (2 i)
  define t where "t = \<lparr>ticket_owner = ow, ticket_sequence = next_ticket_sequence w, result_slot = i\<rparr>"
  have t: "result_slot t = i" by (simp add: t_def)
  have "{j. j < 6 \<and> bit (ticket_slots w) j} \<subseteq> {..<6} - {i}" using 2(3) by auto
  then have "card {j. j < 6 \<and> bit (ticket_slots w) j} \<le> card ({..<6} - {i})" by (intro card_mono) auto
  also have "\<dots> = 5" using 2(2) by simp
  finally have room: "length (power_commands w) < POWER_COMMANDS_CAPACITY"
    using queue_bounded [OF assms(1)] by (simp add: POWER_COMMANDS_CAPACITY_def)
  let ?w = "w\<lparr>ticket_slots := ticket_slots w OR push_bit i 1, next_ticket_sequence := next_ticket_sequence w + 1\<rparr>"
  have r: "r = Inr t" "w' = ?w\<lparr>power_commands := power_commands w @ [command t]\<rparr>"
    using assms(2) 2(1) room by (simp_all add: submit_def next_ticket_def t_def)
  have "t \<notin> H" using held_by_client(2) [OF assms(1), of t i] t 2(3) by auto
  moreover have "ledger (add_mset t (owned w)) (insert t H) NotDiscarding ?w"
    using ledger_reserve [OF assms(1), of t] t 2(2,3) by simp
  moreover have "owned w' = add_mset t (owned w)" by (simp add: owned_def r assms(3))
  ultimately show ?thesis using r by simp
qed

lemma held_look:
  assumes "ledger L H NotDiscarding w" "t \<in> H"
  obtains x where "ticket_results w ! result_slot t = Some (t, x)"
      "take_result w (result_slot t) = (w\<lparr>ticket_results := (ticket_results w)[result_slot t := None]\<rparr>, Some (t, x))"
    | "ticket_results w ! result_slot t = None" "take_result w (result_slot t) = (w, None)"
  using held_by_client(1) [OF assms refl] no_result_noop [of w "result_slot t"] that
  by (auto simp: take_result_def)

lemma balanced_submit:
  assumes "ledger (owned w) H NotDiscarding w" "submit w ow command = (w', r)" "\<And>t. command_ticket (command t) = t"
  shows "ledger (owned w') (H \<union> Inr -` {r}) NotDiscarding w'"
  using submit_cases [OF assms] assms(1) by (auto simp: vimage_def)

lemma owned_results_frame:
  "owned (release_slot w t) = owned w" "owned (w\<lparr>ticket_results := rs\<rparr>) = owned w"
  "owned (discard_mark w t) = owned w" "owned (discard_look_again w t) = owned w"
  by (simp_all add: owned_def release_slot_def discard_mark_def discard_look_again_def take_result_def put_result_def
      Let_def split: option.split)

lemma power_step_balanced: "power_step c c' \<Longrightarrow> balanced c \<Longrightarrow> balanced c'"
proof (induction rule: power_step.induct)
  case (client_request w ow req w' r H)
  then show ?case using balanced_submit [of w H "Some ow" "Request ow req" w' r]
    by (auto simp: request_power_def vimage_def split: if_splits)
next
  case (client_refresh w w' r H)
  then show ?case using balanced_submit [of w H None RefreshCapabilities w' r]
    by (auto simp: refresh_capabilities_def vimage_def split: if_splits)
next
  case (client_idle w mv w' r H)
  then show ?case using balanced_submit [of w H None "\<lambda>t. IdleCommand t mv" w' r] by (simp add: idle_at_minimum_def)
next
  case (client_take t H w w' r)
  then have ledger: "ledger (owned w) H NotDiscarding w" by simp
  from ledger client_take(1) show ?case
  proof (cases rule: held_look)
    case (1 x)
    then show ?thesis using client_take(2) ledger_take [OF ledger client_take(1) refl 1(1)]
      by (auto simp: try_take_def owned_results_frame)
  next
    case 2
    then show ?thesis using client_take(2) ledger by (auto simp: try_take_def)
  qed
next
  case (discard_first t H w w' settled)
  then have ledger: "ledger (owned w) H NotDiscarding w" by simp
  from ledger discard_first(1) show ?case
  proof (cases rule: held_look)
    case (1 x)
    then show ?thesis using discard_first(2) ledger_take [OF ledger discard_first(1) refl 1(1)]
      by (auto simp: discard_look_def owned_results_frame)
  next
    case 2
    then show ?thesis using discard_first(2) ledger_discard_start [OF ledger discard_first(1) refl]
      by (auto simp: discard_look_def)
  qed
next
  case (discard_second w H t)
  then show ?case using ledger_mark [OF _ refl] by (simp add: owned_results_frame)
next
  case (discard_third w H t)
  then show ?case using ledger_look_again [OF _ refl] by (simp add: owned_results_frame)
next
  case (coordinator_command w H pc)
  then show ?case using ledger_on_command by simp
next
  case (coordinator_terminal w H pc st t x)
  then show ?case using ledger_on_terminal by simp
qed (simp_all add: on_service_state_def owned_def)

lemma initially_balanced: "balanced initial_configuration"
  by (auto simp: initial_configuration_def ledger_def slot_ok_def PowerDomain_new_def owned_def at_slot_def
      POWER_TICKET_SLOT_COUNT_def POWER_COMMANDS_CAPACITY_def intro!: exI [of _ SlotFree])

lemma reachable_balanced: "power_reachable c \<Longrightarrow> balanced c"
  by (induction rule: rtranclp_induct) (auto simp: initially_balanced power_step_balanced)

end
