(* ===== verification/Power_Properties.thy ===== *)
theory Power_Properties
  imports Power_Tickets
begin

text \<open>
  What the power domain promises its clients: tickets are never lost and slots never leak, stronger
  intents win, idle always gets through, and the monotone cancellation mark never hits a command that is
  still wanted.
\<close>

section \<open>The cancellation mark and the order of sequences\<close>

text \<open>The sequences of the commands the coordinator may still send, behind the cancellation mark: in flight,
  deferred, in its hands (\<open>M\<close>), queued.\<close>

definition sequences :: "PowerCommand list \<Rightarrow> PowerDomain \<Rightarrow> u32 list" where
  "sequences M w = cancelled_ticket w
     # map ticket_sequence (case inflight w of None \<Rightarrow> [] | Some (_, t) \<Rightarrow> [t])
     @ map (ticket_sequence \<circ> command_ticket) ((case deferred w of None \<Rightarrow> [] | Some c \<Rightarrow> [c]) @ M @ power_commands w)"

definition in_order :: "PowerCommand list \<Rightarrow> PowerDomain \<Rightarrow> bool" where
  "in_order M w \<longleftrightarrow> sorted_wrt (<) (sequences M w) \<and> (\<forall>s\<in>set (sequences M w). s < next_ticket_sequence w)
     \<and> (deferred w \<noteq> None \<longrightarrow> inflight w = None)"

text \<open>Dropping the command in hand, or the deferred one, keeps the order.\<close>

lemma in_order_drop: "in_order (c # M) w \<Longrightarrow> in_order M w"
  by (auto simp: in_order_def sequences_def sorted_wrt_append split: option.splits)

lemma in_order_drop_deferred: "in_order M w \<Longrightarrow> in_order M (w\<lparr>deferred := None\<rparr>)"
  by (auto simp: in_order_def sequences_def sorted_wrt_append split: option.splits)

lemma in_order_signal [simp]: "in_order M (signal_ticket t x w) = in_order M w"
  by (simp add: in_order_def sequences_def)

lemma in_order_frame [simp]:
  "in_order M (w\<lparr>joined_refresh := a\<rparr>) = in_order M w" "in_order M (w\<lparr>inflight_refresh := b\<rparr>) = in_order M w"
  "in_order M (w\<lparr>inflight_idle := b\<rparr>) = in_order M w" "in_order M (w\<lparr>active_owner := c\<rparr>) = in_order M w"
  "in_order M (w\<lparr>power_state_latest := d\<rparr>) = in_order M w" "in_order M (w\<lparr>pd_service_commands := e\<rparr>) = in_order M w"
  "in_order M (w\<lparr>flash_preparation := b\<rparr>) = in_order M w" "in_order M (w\<lparr>ticket_slots := f\<rparr>) = in_order M w"
  "in_order M (w\<lparr>ticket_discarded := f\<rparr>) = in_order M w" "in_order M (w\<lparr>ticket_results := g\<rparr>) = in_order M w"
  by (simp_all add: in_order_def sequences_def)

lemma in_order_fold_signal [simp]: "in_order M (fold (\<lambda>t. signal_ticket t x) ts w) = in_order M w"
  by (induction ts arbitrary: w) simp_all

lemma in_order_signal_joined [simp]: "in_order M (signal_joined x w) = in_order M w"
  by (simp add: signal_joined_def)

lemma in_order_forget_inflight: "in_order M w \<Longrightarrow> in_order M (w\<lparr>inflight := None\<rparr>)"
  by (auto simp: in_order_def sequences_def sorted_wrt_append split: option.splits)

lemma in_order_cancel:
  assumes "in_order M w" "inflight w = Some (ow, t)"
  shows "in_order M (cancel_pd_service_ticket t (w\<lparr>inflight := None\<rparr>))"
  using assms by (auto simp: in_order_def sequences_def cancel_pd_service_ticket_def)

lemma in_order_settle: "in_order M w \<Longrightarrow> in_order M (settle_inflight x w)"
  using in_order_cancel by (auto simp: settle_inflight_def Let_def split: option.split)

lemma in_order_supersede_or_join:
  assumes "in_order M w"
  shows "in_order M (fst (supersede_or_join_power_command t ow refresh idl w))"
  using assms in_order_settle
  by (auto simp: supersede_or_join_power_command_def split: PowerCommandAdmissionDecision.split)

lemma not_joined_is_free:
  assumes "supersede_or_join_power_command t ow refresh idl w = (w', False)"
  shows "inflight w' = None"
  using assms
  by (auto simp: supersede_or_join_power_command_def power_command_admission_decision_def
      split: PowerCommandAdmissionDecision.splits if_splits option.splits)

lemma in_order_send_or_defer:
  assumes "in_order (command # M) w" "inflight w = None" "deferred w = None" "t = command_ticket command"
  shows "in_order M (fst (send_or_defer command t ow refresh idl c w))"
  using assms
  by (auto simp: send_or_defer_def try_send_pd_service_command_def in_order_def sequences_def split: option.splits)

lemma deferred_frame:
  "deferred (fst (supersede_or_join_power_command t ow refresh idl w)) = deferred w"
  by (auto simp: supersede_or_join_power_command_def settle_inflight_def signal_joined_def Let_def
      split: PowerCommandAdmissionDecision.split option.split)

lemma in_order_admit:
  assumes "in_order (command # M) w" "deferred w = None"
  shows "in_order M (fst (admit_power_command command w))"
proof -
  obtain ow refresh idl c where pd: "power_pd_command command = Some (command_ticket command, ow, refresh, idl, c)"
    using power_pd_command_details [of command] by blast
  obtain w' settled where s: "supersede_or_join_power_command (command_ticket command) ow refresh idl w = (w', settled)"
    by (cases "supersede_or_join_power_command (command_ticket command) ow refresh idl w")
  have w': "in_order (command # M) w'" "deferred w' = None"
    using in_order_supersede_or_join [OF assms(1), of "command_ticket command" ow refresh idl]
      deferred_frame [of "command_ticket command" ow refresh idl w] assms(2) s by simp_all
  show ?thesis
  proof (cases settled)
    case True
    then show ?thesis using s pd in_order_drop [OF w'(1)] in_order_drop [OF assms(1)] by (simp add: admit_power_command_def)
  next
    case False
    then have "inflight w' = None" using s not_joined_is_free by simp
    then show ?thesis
      using s pd False in_order_send_or_defer [OF w'(1) _ w'(2) refl] in_order_drop [OF assms(1)]
      by (simp add: admit_power_command_def)
  qed
qed

lemma in_order_dispatch:
  assumes "in_order (command # M) w"
  shows "in_order M (fst (dispatch_power_command command w))"
proof (cases "deferred w")
  case None
  then show ?thesis
    using in_order_admit [OF assms None] in_order_drop [OF assms] by (simp add: dispatch_power_command_def split_def)
next
  case (Some d)
  have "in_order (command # M) (signal_ticket (command_ticket d) Superseded (w\<lparr>deferred := None\<rparr>))"
    using in_order_drop_deferred [OF assms] by simp
  from in_order_admit [OF this] show ?thesis
    using Some in_order_drop [OF assms] by (simp add: dispatch_power_command_def split_def Let_def)
qed

lemma in_order_drop_middle: "in_order (pre @ c # M) w \<Longrightarrow> in_order (pre @ M) w"
  by (auto simp: in_order_def sequences_def sorted_wrt_append split: option.splits)

lemma in_order_filter: "in_order (pre @ cs) w \<Longrightarrow> in_order (pre @ filter P cs) w"
proof (induction cs arbitrary: pre)
  case (Cons c cs)
  show ?case
  proof (cases "P c")
    case True
    then show ?thesis using Cons.IH [of "pre @ [c]"] Cons.prems by simp
  next
    case False
    then show ?thesis using Cons.IH [of pre] in_order_drop_middle [OF Cons.prems] by simp
  qed
qed simp

lemma in_order_dispatch_backlog: "in_order cs w \<Longrightarrow> in_order [] (dispatch_backlog floor cs w)"
proof (induction cs arbitrary: floor w)
  case (Cons c cs)
  then show ?case
    using in_order_drop [OF Cons.prems] in_order_dispatch [OF Cons.prems] by (simp add: split_def Let_def)
qed simp

lemma in_order_collect:
  assumes "in_order [] w" "collect_failed_owner_backlog ow w = (w', superseded, dispatchable)"
  shows "in_order dispatchable w'"
proof -
  let ?q = "take POWER_COMMANDS_CAPACITY (power_commands w)" and ?r = "drop POWER_COMMANDS_CAPACITY (power_commands w)"
  have "in_order ([] @ ?q) (w\<lparr>power_commands := ?r\<rparr>)"
    using assms(1) by (simp add: in_order_def sequences_def flip: append_assoc map_append)
  from in_order_filter [OF this] show ?thesis
    using assms(2) by (auto simp: collect_failed_owner_backlog_def Let_def comp_def)
qed

lemma in_order_settle_backlog:
  "in_order dispatchable w \<Longrightarrow> in_order [] (settle_failed_owner_backlog ow (superseded, dispatchable) w)"
  by (simp add: settle_failed_owner_backlog_def in_order_dispatch_backlog)

lemma in_order_dispatch_and_settle:
  assumes "in_order [command] w"
  shows "in_order [] (dispatch_and_settle command w)"
proof -
  obtain w1 r where d: "dispatch_power_command command w = (w1, r)" by (cases "dispatch_power_command command w")
  have w1: "in_order [] w1" using in_order_dispatch [OF assms] d by simp
  show ?thesis
  proof (cases r)
    case (Some ow)
    obtain w2 s ds where c: "collect_failed_owner_backlog ow w1 = (w2, s, ds)"
      by (cases "collect_failed_owner_backlog ow w1") auto
    show ?thesis
      using in_order_settle_backlog [OF in_order_collect [OF w1 c], of ow s] d Some c by (simp add: dispatch_and_settle_def)
  qed (use w1 d in \<open>simp add: dispatch_and_settle_def\<close>)
qed

lemma in_order_retry: "in_order [] w \<Longrightarrow> in_order [] (retry_deferred_power_command w)"
proof (cases "deferred w")
  case (Some c)
  assume "in_order [] w"
  then have "in_order [c] (w\<lparr>deferred := None\<rparr>)" using Some by (auto simp: in_order_def sequences_def)
  from in_order_dispatch_and_settle [OF this] show ?thesis by (simp add: retry_deferred_power_command_def Some)
qed (simp add: retry_deferred_power_command_def)

lemma in_order_terminal: "in_order M w \<Longrightarrow> in_order M (fst (dispatch_power_terminal t x w))"
  using in_order_forget_inflight by (auto simp: dispatch_power_terminal_def Let_def)

lemma in_order_on_terminal: "in_order [] w \<Longrightarrow> in_order [] (on_service_terminal st t x w)"
proof -
  assume w: "in_order [] w"
  define fo where "fo = failed_contract_owner_for_terminal (inflight w) t (inflight_refresh w) (inflight_idle w) x"
  show ?thesis
  proof (cases fo)
    case None
    obtain w1 acc where d: "dispatch_power_terminal t x w = (w1, acc)" by (cases "dispatch_power_terminal t x w")
    then have "in_order [] w1" using in_order_terminal [OF w, of t x] by simp
    then show ?thesis
      using None d in_order_retry [of "if acc then w1\<lparr>power_state_latest := st\<rparr> else w1"]
      by (simp add: on_service_terminal_def fo_def [symmetric] split: if_splits)
  next
    case (Some ow)
    obtain w1 sup dis where c: "collect_failed_owner_backlog ow w = (w1, sup, dis)"
      by (cases "collect_failed_owner_backlog ow w") auto
    obtain w2 acc where d: "dispatch_power_terminal t x w1 = (w2, acc)" by (cases "dispatch_power_terminal t x w1")
    have "in_order dis (if acc then w2\<lparr>power_state_latest := st\<rparr> else w2)"
      using in_order_terminal [OF in_order_collect [OF w c], of t x] d by simp
    from in_order_retry [OF in_order_settle_backlog [OF this, of ow sup]] show ?thesis
      using Some c d by (simp add: on_service_terminal_def fo_def [symmetric])
  qed
qed

lemma in_order_on_command: "in_order [] w \<Longrightarrow> in_order [] (on_power_command w)"
proof (cases "power_commands w")
  case (Cons c cs)
  assume "in_order [] w"
  then have "in_order [c] (w\<lparr>power_commands := cs\<rparr>)" using Cons by (simp add: in_order_def sequences_def)
  from in_order_dispatch_and_settle [OF this] show ?thesis by (simp add: on_power_command_def Cons)
qed (simp add: on_power_command_def)

lemma word_less_succ: "x + 1 \<noteq> 0 \<Longrightarrow> x < x + (1 :: u32)"
  using unatSuc [of x] by (simp add: word_less_nat_alt add.commute)

lemma in_order_issue:
  assumes "in_order [] w" "next_ticket_sequence w + 1 \<noteq> 0" "ticket_sequence (command_ticket c) = next_ticket_sequence w"
  shows "in_order [] (w\<lparr>next_ticket_sequence := next_ticket_sequence w + 1, power_commands := power_commands w @ [c]\<rparr>)"
    "in_order [] (w\<lparr>next_ticket_sequence := next_ticket_sequence w + 1\<rparr>)"
  using assms word_less_succ [OF assms(2)]
  by (auto simp: in_order_def sequences_def sorted_wrt_append intro: order.strict_trans split: option.splits)

lemma in_order_submit:
  assumes "in_order [] w" "submit w ow command = (w', r)" "\<And>t. command_ticket (command t) = t" "next_ticket_sequence w' \<noteq> 0"
  shows "in_order [] w'"
proof (cases "snd (reserve_ticket_slot (ticket_slots w))")
  case None
  then show ?thesis using assms(1,2) by (auto simp: submit_def next_ticket_def split: prod.splits)
next
  case (Some i)
  define t where "t = \<lparr>ticket_owner = ow, ticket_sequence = next_ticket_sequence w, result_slot = i\<rparr>"
  define w1 where "w1 = w\<lparr>ticket_slots := fst (reserve_ticket_slot (ticket_slots w))\<rparr>"
  have w1: "in_order [] w1" "next_ticket_sequence w1 = next_ticket_sequence w" "power_commands w1 = power_commands w"
    using assms(1) by (simp_all add: w1_def)
  have w': "w' = w1\<lparr>next_ticket_sequence := next_ticket_sequence w1 + 1, power_commands := power_commands w1 @ [command t]\<rparr>
      \<or> w' = release_slot (w1\<lparr>next_ticket_sequence := next_ticket_sequence w1 + 1\<rparr>) t"
    using assms(2) Some by (auto simp: submit_def next_ticket_def w1_def t_def split: prod.splits if_splits)
  then have "next_ticket_sequence w1 + 1 \<noteq> 0" using assms(4) by (auto simp: release_slot_def)
  note issue = in_order_issue [OF w1(1) this, of "command t"]
  show ?thesis using w' issue assms(3) w1(2) by (auto simp: release_slot_def t_def)
qed

text \<open>Steps in which the 32-bit sequence counter has not wrapped.\<close>

definition unwrapped_step :: "configuration \<Rightarrow> configuration \<Rightarrow> bool" where
  "unwrapped_step c c' \<longleftrightarrow> power_step c c' \<and> next_ticket_sequence (fst c') \<noteq> 0"

lemma in_order_results_frame:
  "in_order [] (fst (try_take w t)) = in_order [] w" "in_order [] (fst (discard_look w t)) = in_order [] w"
  "in_order [] (discard_mark w t) = in_order [] w" "in_order [] (discard_look_again w t) = in_order [] w"
  by (simp_all add: try_take_def discard_look_def discard_mark_def discard_look_again_def take_result_def put_result_def
      release_slot_def Let_def split: option.split)

lemma unwrapped_step_in_order:
  assumes "unwrapped_step c c'" "in_order [] (fst c)"
  shows "in_order [] (fst c')"
proof -
  have "power_step c c' \<Longrightarrow> next_ticket_sequence (fst c') \<noteq> 0 \<Longrightarrow> in_order [] (fst c) \<Longrightarrow> in_order [] (fst c')"
  proof (induction rule: power_step.induct)
    case (client_request w ow req w' r H)
    then show ?case using in_order_submit [of w "Some ow" "Request ow req" w' r] by (auto simp: request_power_def split: if_splits)
  next
    case (client_refresh w w' r H)
    then show ?case using in_order_submit [of w None RefreshCapabilities w' r] by (auto simp: refresh_capabilities_def split: if_splits)
  next
    case (client_idle w mv w' r H)
    then show ?case using in_order_submit [of w None "\<lambda>t. IdleCommand t mv" w' r] by (simp add: idle_at_minimum_def)
  next
    case (client_take t H w w' r)
    then show ?case using in_order_results_frame(1) [of w t] by simp
  next
    case (discard_first t H w w' settled)
    then show ?case using in_order_results_frame(2) [of w t] by simp
  qed (simp_all add: in_order_results_frame in_order_on_command in_order_on_terminal on_service_state_def)
  then show ?thesis using assms by (simp add: unwrapped_step_def)
qed

lemma initially_in_order: "in_order [] (fst initial_configuration)"
  by (simp add: initial_configuration_def PowerDomain_new_def in_order_def sequences_def)

lemma reachable_in_order: "unwrapped_step\<^sup>*\<^sup>* initial_configuration c \<Longrightarrow> in_order [] (fst c)"
  by (induction rule: rtranclp_induct) (simp_all only: initially_in_order unwrapped_step_in_order)

section \<open>Properties\<close>

lemma reserved_slot_owner:
  assumes "slot_shows i st (at_slot i L) r s d" "slot_client i st {t \<in> H. result_slot t = i} pc" "s"
  shows "\<exists>t. result_slot t = i \<and> (t \<in> H \<or> t \<in># L \<or> pc = AboutToMark t \<or> pc = Marked t)"
proof -
  have at: "t \<in># L" if "at_slot i L = {#t#}" for t
  proof -
    have "t \<in># at_slot i L" using that by simp
    then show ?thesis by (simp add: at_slot_def)
  qed
  have client: "t \<in> H" if "{u \<in> H. result_slot u = i} = {t}" for t using that by blast
  show ?thesis
  proof (cases st)
    case (Answered t x)
    then have "result_slot t = i" "pc = AboutToMark t \<or> {u \<in> H. result_slot u = i} = {t}"
      using assms(1,2) by (simp_all split: if_splits)
    then show ?thesis using client by blast
  next
    case (Pending t)
    then have "result_slot t = i" "at_slot i L = {#t#}" using assms(1) by simp_all
    then show ?thesis using at by blast
  next
    case (Abandoned t)
    then have "result_slot t = i" "at_slot i L = {#t#}" using assms(1) by simp_all
    then show ?thesis using at by blast
  next
    case (AnsweredLate t x)
    then have "result_slot t = i" "pc = Marked t" using assms(1,2) by simp_all
    then show ?thesis by blast
  qed (use assms(1,3) in simp)
qed

text \<open>
  \<^bold>\<open>Tickets are never lost and slots never leak (C1).\<close> In every reachable configuration, with the
  coordinator interrupting the clients at any point: a ticket a client holds is at the coordinator exactly
  once and has no outcome yet, or its own outcome is waiting and the coordinator is done with it; no two held
  tickets share a result slot; a reserved slot belongs to a ticket a client holds, or to a discarded one the
  coordinator still works on, or to the discard under way; and a client is told that the domain is busy only
  when all six slots are taken.
\<close>

theorem tickets_are_never_lost:
  assumes "power_reachable (w, H, pc)"
  shows "(\<forall>t\<in>H. (count (owned w) t = 1 \<and> ticket_results w ! result_slot t = None)
        \<or> (t \<notin># owned w \<and> (\<exists>x. ticket_results w ! result_slot t = Some (t, x))))
    \<and> inj_on result_slot H
    \<and> (\<forall>i. bit (ticket_slots w) i \<longrightarrow>
        i < 6 \<and> (\<exists>t. result_slot t = i \<and> (t \<in> H \<or> t \<in># owned w \<or> pc = AboutToMark t \<or> pc = Marked t)))
    \<and> (pc = NotDiscarding \<and> snd (idle_at_minimum w mv) = Inl AdmissionBusy \<longrightarrow> (\<forall>i<6. bit (ticket_slots w) i))"
proof (intro conjI ballI allI impI)
  have ledger: "ledger (owned w) H pc w" using reachable_balanced [OF assms] by simp
  fix t assume t: "t \<in> H"
  have eq: "count (owned w) t = count (at_slot (result_slot t) (owned w)) t" by (simp add: at_slot_def)
  show "(count (owned w) t = 1 \<and> ticket_results w ! result_slot t = None)
      \<or> (t \<notin># owned w \<and> (\<exists>x. ticket_results w ! result_slot t = Some (t, x)))"
    using held_by_client(1) [OF ledger t refl] eq by (auto simp: not_in_iff)
next
  have ledger: "ledger (owned w) H pc w" using reachable_balanced [OF assms] by simp
  show "inj_on result_slot H"
  proof (rule inj_onI)
    fix t u assume tu: "t \<in> H" "u \<in> H" "result_slot t = result_slot u"
    obtain st where "{v \<in> H. result_slot v = result_slot t} = {t}" using held_slot [OF ledger tu(1) refl] by metis
    then show "t = u" using tu by auto
  qed
next
  have ledger: "ledger (owned w) H pc w" using reachable_balanced [OF assms] by simp
  fix i assume bit: "bit (ticket_slots w) i"
  then show i: "i < 6" using ledger by (meson ledger_def not_less)
  obtain st where "slot_ok (owned w) H pc w i st" using ledger_slot [OF ledger i] .
  then show "\<exists>t. result_slot t = i \<and> (t \<in> H \<or> t \<in># owned w \<or> pc = AboutToMark t \<or> pc = Marked t)"
    unfolding slot_ok_def using reserved_slot_owner [of i st "owned w" _ _ _ H pc] bit by blast
next
  assume busy: "pc = NotDiscarding \<and> snd (idle_at_minimum w mv) = Inl AdmissionBusy"
  then obtain w' where "submit w None (\<lambda>t. IdleCommand t mv) = (w', Inl AdmissionBusy)"
    by (cases "submit w None (\<lambda>t. IdleCommand t mv)") (auto simp: idle_at_minimum_def)
  from submit_cases [OF _ this, of H] show "bit (ticket_slots w) i" if "i < 6" for i
    using reachable_balanced [OF assms] busy that by simp
qed

text \<open>
  \<^bold>\<open>A wanted command is never taken for cancelled (C17).\<close> The coordinator cancels by raising one mark: every ticket with a
  sequence up to the mark counts as cancelled. As long as the sequence counter has not wrapped, the mark stays below
  the command in flight, the deferred command and every queued command, so the PD service never drops a command the
  coordinator still waits for.
\<close>

theorem wanted_commands_are_never_cancelled:
  assumes "unwrapped_step\<^sup>*\<^sup>* initial_configuration (w, H, pc)"
    and "inflight w = Some (ow, ticket) \<or> (deferred w = Some command \<and> ticket = command_ticket command)
      \<or> (command \<in> set (power_commands w) \<and> ticket = command_ticket command)"
  shows "\<not> take_pd_service_ticket_cancelled w ticket"
  using reachable_in_order [OF assms(1)] assms(2)
  by (auto simp: in_order_def sequences_def take_pd_service_ticket_cancelled_def not_le)

definition bench_ticket :: PowerTicket where
  "bench_ticket = \<lparr>ticket_owner = None, ticket_sequence = 1, result_slot = 0\<rparr>"

definition bench_domain :: PowerDomain where
  "bench_domain = PowerDomain_new\<lparr>ticket_slots := 1, next_ticket_sequence := 2, power_commands := [IdleCommand bench_ticket 5000]\<rparr>"

lemma bench_idle: "idle_at_minimum PowerDomain_new 5000 = (bench_domain, Inr bench_ticket)"
  by (simp add: idle_at_minimum_def submit_def next_ticket_def reserve_ticket_slot_def trailing_zeros_def upt_rec
      POWER_TICKET_SLOT_COUNT_def POWER_COMMANDS_CAPACITY_def PowerDomain_new_def bench_domain_def bench_ticket_def Let_def)

lemma bench_step: "power_step initial_configuration (bench_domain, {bench_ticket}, NotDiscarding)"
  using client_idle [OF bench_idle, of "{}"] by (simp add: initial_configuration_def vimage_def)

theorem tickets_are_never_lost_witness:
  "count (owned bench_domain) bench_ticket = 1 \<and> ticket_results bench_domain ! 0 = None"
  using tickets_are_never_lost [OF r_into_rtranclp [of power_step, OF bench_step], of 0]
  by (simp add: bench_ticket_def bench_domain_def PowerDomain_new_def owned_def
      POWER_TICKET_SLOT_COUNT_def POWER_COMMANDS_CAPACITY_def)

theorem wanted_commands_are_never_cancelled_witness:
  "\<not> take_pd_service_ticket_cancelled bench_domain bench_ticket"
proof -
  have "unwrapped_step initial_configuration (bench_domain, {bench_ticket}, NotDiscarding)"
    using bench_step by (simp add: unwrapped_step_def bench_domain_def)
  from wanted_commands_are_never_cancelled [OF r_into_rtranclp [of unwrapped_step, OF this], of _ _ "IdleCommand bench_ticket 5000"]
  show ?thesis by (simp add: bench_domain_def)
qed

section \<open>Who wins\<close>

lemma service_frame [simp]:
  "pd_service_commands (cancel_pd_service_ticket t w) = pd_service_commands w"
  "pd_service_commands (signal_joined x w) = pd_service_commands w"
  "pd_service_commands (settle_inflight x w) = pd_service_commands w"
  "deferred (settle_inflight x w) = deferred w"
  by (simp_all add: cancel_pd_service_ticket_def signal_joined_def settle_inflight_def Let_def split: option.split)

lemma supersede_service_frame:
  "pd_service_commands (fst (supersede_or_join_power_command t ow refresh idl w)) = pd_service_commands w"
  by (auto simp: supersede_or_join_power_command_def split: PowerCommandAdmissionDecision.split)

text \<open>What it takes to get past the command in flight.\<close>

lemma admission_wins:
  assumes "supersede_or_join_power_command t ow refresh idl w = (w', False)" "inflight w = Some (ow', t')"
  shows "idl \<or> (\<exists>o1. ow = Some o1 \<and> (inflight_idle w \<and> \<not> refresh \<or> priority ow' < priority o1))"
  using assms
  by (auto simp: supersede_or_join_power_command_def power_command_admission_decision_def
      split: PowerCommandAdmissionDecision.splits if_splits option.splits)

lemma admit_sends:
  assumes "admit_power_command command w = (w', r)" "pd_service_commands w' \<noteq> pd_service_commands w" "deferred w = None"
    and pd: "power_pd_command command = Some (command_ticket command, ow, refresh, idl, c)"
  shows "pd_service_commands w = []" "pd_service_commands w' = [c]" "deferred w' = None"
    "map_option snd (inflight w') = Some (command_ticket command)" "\<not> owner_is_superseded ow (active_owner w)"
    "inflight w = Some (ow', t') \<Longrightarrow> idl \<or> (\<exists>o1. ow = Some o1 \<and> (inflight_idle w \<and> \<not> refresh \<or> priority ow' < priority o1))"
proof -
  let ?t = "command_ticket command"
  obtain w1 settled where s: "supersede_or_join_power_command ?t ow refresh idl w = (w1, settled)"
    by (cases "supersede_or_join_power_command ?t ow refresh idl w")
  have w1: "pd_service_commands w1 = pd_service_commands w" "deferred w1 = None"
    using supersede_service_frame [of ?t ow refresh idl w] deferred_frame [of ?t ow refresh idl w] s assms(3) by simp_all
  have not: "\<not> owner_is_superseded ow (active_owner w)" "\<not> settled"
    using assms(1,2) s w1(1) pd by (auto simp: admit_power_command_def split: if_splits)
  then have send: "send_or_defer command ?t ow refresh idl c w1 = (w', r)"
    using assms(1) s pd by (simp add: admit_power_command_def)
  then have room: "length (pd_service_commands w1) < POWER_COMMAND_CAPACITY"
    using assms(2) w1 by (auto simp: send_or_defer_def try_send_pd_service_command_def split: if_splits)
  then have empty: "pd_service_commands w1 = []" by (simp add: POWER_COMMAND_CAPACITY_def)
  show "\<not> owner_is_superseded ow (active_owner w)" by (rule not(1))
  show "pd_service_commands w = []" using empty w1(1) by simp
  show "pd_service_commands w' = [c]" "deferred w' = None" "map_option snd (inflight w') = Some ?t"
    using send room empty w1(2) by (auto simp: send_or_defer_def try_send_pd_service_command_def split: option.splits)
  show "inflight w = Some (ow', t') \<Longrightarrow> idl \<or> (\<exists>o1. ow = Some o1 \<and> (inflight_idle w \<and> \<not> refresh \<or> priority ow' < priority o1))"
    using admission_wins s not(2) by simp
qed

text \<open>
  \<^bold>\<open>Only a stronger intent reaches the PD service.\<close> When the coordinator hands a command to the service, the service's
  queue was empty and now holds that command alone, which is recorded as in flight, and nothing stays deferred. While
  a flash is prepared only idle is sent. A contract request is sent only if the intent confirmed last is not of higher
  priority, the command in flight is idle or of strictly lower priority, and a deferred request it
  displaces is not of higher priority. A capability refresh never displaces a command in flight.
\<close>

theorem only_stronger_intents_reach_the_service:
  assumes "dispatch_power_command command w = (w', r)" "pd_service_commands w' \<noteq> pd_service_commands w"
  shows "\<exists>c. pd_service_commands w = [] \<and> pd_service_commands w' = [c] \<and> pd_service_command_ticket c = command_ticket command
    \<and> map_option snd (inflight w') = Some (command_ticket command) \<and> deferred w' = None
    \<and> (flash_preparation w \<longrightarrow> (\<exists>t mv. command = IdleCommand t mv))
    \<and> (\<forall>ow req t. command = Request ow req t \<longrightarrow>
         (\<forall>a. active_owner w = Some a \<longrightarrow> priority a \<le> priority ow)
       \<and> (\<forall>ow' t'. inflight w = Some (ow', t') \<longrightarrow> inflight_idle w \<or> priority ow' < priority ow)
       \<and> (\<forall>ow' req' t'. deferred w = Some (Request ow' req' t') \<longrightarrow> priority ow' \<le> priority ow))
    \<and> (\<forall>t. command = RefreshCapabilities t \<longrightarrow> inflight w = None)"
proof -
  obtain ow refresh idl c where pd: "power_pd_command command = Some (command_ticket command, ow, refresh, idl, c)"
    and c: "pd_service_command_ticket c = command_ticket command"
    and flags: "ow = fst (snd (power_command_details command))" "refresh = fst (snd (snd (power_command_details command)))"
      "idl = fst (snd (snd (snd (power_command_details command))))"
    using power_pd_command_details [of command] by blast
  have allowed: "power_command_allowed_during_preparation command (flash_preparation w)"
    using assms by (auto simp: dispatch_power_command_def split: if_splits)
  define w1 where "w1 = (case deferred w of None \<Rightarrow> w | Some d \<Rightarrow> signal_ticket (command_ticket d) Superseded (w\<lparr>deferred := None\<rparr>))"
  have w1: "pd_service_commands w1 = pd_service_commands w" "deferred w1 = None" "inflight w1 = inflight w"
    "inflight_idle w1 = inflight_idle w" "active_owner w1 = active_owner w"
    by (simp_all add: w1_def split: option.split)
  have admit: "admit_power_command command w1 = (w', r)"
    and replaced: "\<And>d. deferred w = Some d \<Longrightarrow> deferred_command_is_replaced ow refresh idl (fst (snd (power_command_details d)))"
    using assms allowed by (auto simp: dispatch_power_command_def w1_def flags split_def Let_def split: option.splits if_splits)
  note sent = admit_sends [OF admit _ w1(2) pd, unfolded w1, OF assms(2)]
  have weaker: "priority ow' \<le> priority ow1" if "command = Request ow1 req t" "deferred w = Some (Request ow' req' t')" for ow1 req t ow' req' t'
    using replaced [OF that(2)] that(1) by (simp add: flags deferred_command_is_replaced_def owner_priority_def)
  have idle_service: "inflight w = None" if "command = RefreshCapabilities t" for t
    using sent(6) that by (cases "inflight w") (auto simp: flags)
  show ?thesis
    using sent(1-5) sent(6) c allowed weaker idle_service
    by (intro exI [of _ c] conjI allI impI; cases command)
      (auto simp: flags owner_is_superseded_def split: option.splits)
qed

definition bench_pps_request :: PdContractRequest where
  "bench_pps_request = \<lparr>request_mode = FixedRequest, request_voltage_mv = 20000, request_operating_current_ma = 3000,
     request_calibration = False, request_pps_range = None\<rparr>"

theorem only_stronger_intents_reach_the_service_witness:
  "pd_service_commands (fst (dispatch_power_command (Request ManualOperator bench_pps_request bench_ticket)
     (PowerDomain_new\<lparr>active_owner := Some AutomaticThermal\<rparr>))) = [ServiceContract bench_pps_request bench_ticket]
   \<and> priority AutomaticThermal \<le> priority ManualOperator"
proof -
  let ?w = "PowerDomain_new\<lparr>active_owner := Some AutomaticThermal\<rparr>"
  let ?c = "Request ManualOperator bench_pps_request bench_ticket"
  have sent: "pd_service_commands (fst (dispatch_power_command ?c ?w)) = [ServiceContract bench_pps_request bench_ticket]"
    "pd_service_commands ?w = []"
    by (simp_all add: dispatch_power_command_def admit_power_command_def power_pd_command_def PowerDomain_new_def
        owner_is_superseded_def supersede_or_join_power_command_def power_command_admission_decision_def
        should_join_refresh_def send_or_defer_def try_send_pd_service_command_def POWER_COMMAND_CAPACITY_def)
  then show ?thesis
    using only_stronger_intents_reach_the_service [of ?c ?w "fst (dispatch_power_command ?c ?w)" "snd (dispatch_power_command ?c ?w)"]
    by simp
qed

text \<open>
  \<^bold>\<open>Idle always gets through.\<close> An idle command is never refused: whatever is active, in flight, deferred
  or prepared, dispatching it leaves it in flight or, when the service is still busy with the command it displaces, as
  the deferred command; any command in flight before it is settled as superseded.
\<close>

theorem idle_always_gets_through:
  "map_option snd (inflight (fst (dispatch_power_command (IdleCommand t mv) w))) = Some t
   \<or> (deferred (fst (dispatch_power_command (IdleCommand t mv) w)) = Some (IdleCommand t mv)
      \<and> inflight (fst (dispatch_power_command (IdleCommand t mv) w)) = None)"
proof -
  have sends: "map_option snd (inflight (fst (send_or_defer (IdleCommand t mv) t None False True c w1))) = Some t
      \<or> (deferred (fst (send_or_defer (IdleCommand t mv) t None False True c w1)) = Some (IdleCommand t mv)
         \<and> inflight (fst (send_or_defer (IdleCommand t mv) t None False True c w1)) = None)"
    if "inflight w1 = None" "deferred w1 = None" for c w1
    using that by (simp add: send_or_defer_def try_send_pd_service_command_def)
  have admit: "map_option snd (inflight (fst (admit_power_command (IdleCommand t mv) w1))) = Some t
      \<or> (deferred (fst (admit_power_command (IdleCommand t mv) w1)) = Some (IdleCommand t mv)
         \<and> inflight (fst (admit_power_command (IdleCommand t mv) w1)) = None)"
    if "deferred w1 = None" for w1
  proof (cases "inflight w1")
    case None
    then show ?thesis using sends [OF None that]
      by (simp add: admit_power_command_def power_pd_command_def owner_is_superseded_def supersede_or_join_power_command_def
          power_command_admission_decision_def should_join_refresh_def)
  next
    case (Some f)
    then show ?thesis using sends [of "settle_inflight Superseded w1"] that
      by (simp add: admit_power_command_def power_pd_command_def owner_is_superseded_def supersede_or_join_power_command_def
          power_command_admission_decision_def should_join_refresh_def)
  qed
  show ?thesis
  proof (cases "deferred w")
    case None
    then show ?thesis using admit [OF None] by (simp add: dispatch_power_command_def)
  next
    case (Some d)
    then show ?thesis using admit [of "signal_ticket (command_ticket d) Superseded (w\<lparr>deferred := None\<rparr>)"]
      by (simp add: dispatch_power_command_def deferred_command_is_replaced_def split_def Let_def)
  qed
qed

end
