(* ===== verification/Front_Panel_Input.thy ===== *)
theory Front_Panel_Input
  imports Fan_Cycle
begin

text \<open>
  The key input of the front panel, from \<open>src/firmware/src/frontpanel/mod.rs\<close>: raw samples of the five
  keys, debouncing, and the recognition of short, double, long and repeated presses.

  A clean press yields exactly one short or one long press, however the samples are spaced, and the ten
  places of the event buffer are enough for one sample of all keys. Contact chatter during a long press is a
  different matter, which the last section records.
\<close>

section \<open>Keys and gestures\<close>

definition FRONTPANEL_DEBOUNCE_MS :: u64 where "FRONTPANEL_DEBOUNCE_MS = 5"
definition FRONTPANEL_LONG_PRESS_MS :: u64 where "FRONTPANEL_LONG_PRESS_MS = 500"
definition FRONTPANEL_DOUBLE_CLICK_MS :: u64 where "FRONTPANEL_DOUBLE_CLICK_MS = 250"
definition FRONTPANEL_REPEAT_INITIAL_INTERVAL_MS :: u64 where "FRONTPANEL_REPEAT_INITIAL_INTERVAL_MS = 120"
definition FRONTPANEL_REPEAT_FAST_AFTER_MS :: u64 where "FRONTPANEL_REPEAT_FAST_AFTER_MS = 1500"
definition FRONTPANEL_REPEAT_FAST_INTERVAL_MS :: u64 where "FRONTPANEL_REPEAT_FAST_INTERVAL_MS = 60"

datatype RawFrontPanelKey = RawCenterBoot | RawRight | RawDown | RawLeft | RawUp

definition RawFrontPanelKey_ALL :: "RawFrontPanelKey list" where
  "RawFrontPanelKey_ALL = [RawCenterBoot, RawRight, RawDown, RawLeft, RawUp]"

fun RawFrontPanelKey_label :: "RawFrontPanelKey \<Rightarrow> string" where
  "RawFrontPanelKey_label RawCenterBoot = ''RAW CENTER''"
| "RawFrontPanelKey_label RawRight = ''RAW RIGHT''"
| "RawFrontPanelKey_label RawDown = ''RAW DOWN''"
| "RawFrontPanelKey_label RawLeft = ''RAW LEFT''"
| "RawFrontPanelKey_label RawUp = ''RAW UP''"

fun RawFrontPanelKey_short_label :: "RawFrontPanelKey \<Rightarrow> string" where
  "RawFrontPanelKey_short_label RawCenterBoot = ''CTR''"
| "RawFrontPanelKey_short_label RawRight = ''R''"
| "RawFrontPanelKey_short_label RawDown = ''D''"
| "RawFrontPanelKey_short_label RawLeft = ''L''"
| "RawFrontPanelKey_short_label RawUp = ''U''"

fun raw_index :: "RawFrontPanelKey \<Rightarrow> nat" where
  "raw_index RawCenterBoot = 0"
| "raw_index RawRight = 1"
| "raw_index RawDown = 2"
| "raw_index RawLeft = 3"
| "raw_index RawUp = 4"

fun key_index :: "FrontPanelKey \<Rightarrow> nat" where
  "key_index Center = 0"
| "key_index Right = 1"
| "key_index Down = 2"
| "key_index Left = 3"
| "key_index Up = 4"

fun FrontPanelKey_label :: "FrontPanelKey \<Rightarrow> string" where
  "FrontPanelKey_label Center = ''CENTER''"
| "FrontPanelKey_label Right = ''RIGHT''"
| "FrontPanelKey_label Down = ''DOWN''"
| "FrontPanelKey_label Left = ''LEFT''"
| "FrontPanelKey_label Up = ''UP''"

fun FrontPanelKey_short_label :: "FrontPanelKey \<Rightarrow> string" where
  "FrontPanelKey_short_label Center = ''CTR''"
| "FrontPanelKey_short_label Right = ''R''"
| "FrontPanelKey_short_label Down = ''D''"
| "FrontPanelKey_short_label Left = ''L''"
| "FrontPanelKey_short_label Up = ''U''"

datatype KeyGesture = ShortPress | DoublePress | LongPress | RepeatPress

fun KeyGesture_label :: "KeyGesture \<Rightarrow> string" where
  "KeyGesture_label ShortPress = ''SHORT''"
| "KeyGesture_label DoublePress = ''DOUBLE''"
| "KeyGesture_label LongPress = ''LONG''"
| "KeyGesture_label RepeatPress = ''REPEAT''"

record KeyEvent =
  event_raw_key :: RawFrontPanelKey
  event_key :: FrontPanelKey
  event_gesture :: KeyGesture
  at_ms :: u64

record KeyGestureSet =
  short_press :: bool
  double_press :: bool
  long_press :: bool

definition KeyGestureSet_NONE :: KeyGestureSet where
  "KeyGestureSet_NONE = \<lparr>short_press = False, double_press = False, long_press = False\<rparr>"

definition KeyGestureSet_ALL :: KeyGestureSet where
  "KeyGestureSet_ALL = \<lparr>short_press = True, double_press = True, long_press = True\<rparr>"

definition KeyGestureSet_SHORT :: KeyGestureSet where
  "KeyGestureSet_SHORT = \<lparr>short_press = True, double_press = False, long_press = False\<rparr>"

definition KeyGestureSet_SHORT_LONG :: KeyGestureSet where
  "KeyGestureSet_SHORT_LONG = \<lparr>short_press = True, double_press = False, long_press = True\<rparr>"

fun supports :: "KeyGestureSet \<Rightarrow> KeyGesture \<Rightarrow> bool" where
  "supports gs ShortPress = short_press gs"
| "supports gs DoublePress = double_press gs"
| "supports gs LongPress = long_press gs"
| "supports gs RepeatPress = long_press gs"

text \<open>\<open>FrontPanelGestureCapabilities\<close> and \<open>FrontPanelKeyMap\<close> are arrays over the five keys.\<close>

definition gestures_for :: "KeyGestureSet list \<Rightarrow> FrontPanelKey \<Rightarrow> KeyGestureSet" where
  "gestures_for gestures key = gestures ! key_index key"

definition FrontPanelGestureCapabilities_ALL :: "KeyGestureSet list" where
  "FrontPanelGestureCapabilities_ALL = replicate 5 KeyGestureSet_ALL"

definition FrontPanelKeyMap_default :: "FrontPanelKey list" where
  "FrontPanelKeyMap_default = [Center, Right, Left, Down, Up]"

definition logical_from_raw :: "FrontPanelKey list \<Rightarrow> RawFrontPanelKey \<Rightarrow> FrontPanelKey" where
  "logical_from_raw mapping raw_key = mapping ! raw_index raw_key"

type_synonym FrontPanelRawState = u8

definition is_pressed :: "FrontPanelRawState \<Rightarrow> RawFrontPanelKey \<Rightarrow> bool" where
  "is_pressed pressed_mask key \<longleftrightarrow> pressed_mask AND push_bit (raw_index key) 1 \<noteq> 0"

definition set_pressed :: "FrontPanelRawState \<Rightarrow> RawFrontPanelKey \<Rightarrow> bool \<Rightarrow> FrontPanelRawState" where
  "set_pressed pressed_mask key pressed =
     (let b = push_bit (raw_index key) 1 in if pressed then pressed_mask OR b else pressed_mask AND NOT b)"

definition first_pressed :: "FrontPanelRawState \<Rightarrow> RawFrontPanelKey option" where
  "first_pressed pressed_mask = List.find (is_pressed pressed_mask) RawFrontPanelKey_ALL"

record FrontPanelInputTimings =
  debounce_ms :: u64
  long_press_ms :: u64
  double_click_ms :: u64

definition FrontPanelInputTimings_default :: FrontPanelInputTimings where
  "FrontPanelInputTimings_default = \<lparr>debounce_ms = FRONTPANEL_DEBOUNCE_MS, long_press_ms = FRONTPANEL_LONG_PRESS_MS,
     double_click_ms = FRONTPANEL_DOUBLE_CLICK_MS\<rparr>"

section \<open>One key\<close>

record KeyTracker =
  raw_pressed :: bool
  stable_pressed :: bool
  last_raw_change_ms :: u64
  press_started_ms :: "u64 option"
  long_fired :: bool
  next_repeat_ms :: "u64 option"
  pending_short_release_ms :: "u64 option"

definition KeyTracker_new :: KeyTracker where
  "KeyTracker_new = \<lparr>raw_pressed = False, stable_pressed = False, last_raw_change_ms = 0, press_started_ms = None,
     long_fired = False, next_repeat_ms = None, pending_short_release_ms = None\<rparr>"

text \<open>What the handlers of one key share: its names, the timings and the gestures the page supports.\<close>

record KeySettings =
  key_timings :: FrontPanelInputTimings
  settings_raw_key :: RawFrontPanelKey
  settings_key :: FrontPanelKey
  settings_gestures :: KeyGestureSet

text \<open>The event buffer holds ten events; a push to a full buffer is dropped.\<close>

definition push_key_event :: "KeySettings \<Rightarrow> KeyGesture \<Rightarrow> u64 \<Rightarrow> KeyEvent list \<Rightarrow> KeyEvent list" where
  "push_key_event k gesture now_ms events =
     (if supports (settings_gestures k) gesture \<and> length events < 10
      then events @ [\<lparr>event_raw_key = settings_raw_key k, event_key = settings_key k, event_gesture = gesture, at_ms = now_ms\<rparr>]
      else events)"

definition update_raw_tracker :: "KeyTracker \<Rightarrow> bool \<Rightarrow> u64 \<Rightarrow> KeyTracker" where
  "update_raw_tracker tr pressed now_ms =
     (if pressed = raw_pressed tr then tr
      else
        let tr = tr\<lparr>raw_pressed := pressed, last_raw_change_ms := now_ms, next_repeat_ms := None\<rparr> in
        if pressed then tr\<lparr>press_started_ms := Some now_ms, long_fired := False\<rparr> else tr)"

definition emit_pending_short_press :: "KeySettings \<Rightarrow> u64 \<Rightarrow> KeyTracker \<times> KeyEvent list \<Rightarrow> KeyTracker \<times> KeyEvent list" where
  "emit_pending_short_press k now_ms s =
     (case s of (tr, events) \<Rightarrow>
      case pending_short_release_ms tr of
        None \<Rightarrow> (tr, events)
      | Some released \<Rightarrow>
          if supports (settings_gestures k) DoublePress \<and> sat_sub now_ms released \<le> double_click_ms (key_timings k) then (tr, events)
          else (tr\<lparr>pending_short_release_ms := None\<rparr>, push_key_event k ShortPress now_ms events))"

definition emit_release_gesture :: "KeySettings \<Rightarrow> u64 \<Rightarrow> KeyTracker \<times> KeyEvent list \<Rightarrow> KeyTracker \<times> KeyEvent list" where
  "emit_release_gesture k now_ms s =
     (case s of (tr, events) \<Rightarrow>
      if \<not> supports (settings_gestures k) DoublePress then (tr, push_key_event k ShortPress now_ms events)
      else case pending_short_release_ms tr of
        None \<Rightarrow> (tr\<lparr>pending_short_release_ms := Some now_ms\<rparr>, events)
      | Some previous_release_ms \<Rightarrow>
          if sat_sub now_ms previous_release_ms \<le> double_click_ms (key_timings k)
          then (tr\<lparr>pending_short_release_ms := None\<rparr>, push_key_event k DoublePress now_ms events)
          else (tr\<lparr>pending_short_release_ms := Some now_ms\<rparr>, events))"

definition update_stable_tracker :: "KeySettings \<Rightarrow> u64 \<Rightarrow> KeyTracker \<times> KeyEvent list \<Rightarrow> KeyTracker \<times> KeyEvent list" where
  "update_stable_tracker k now_ms s =
     (case s of (tr, events) \<Rightarrow>
      if \<not> raw_pressed tr \<and> \<not> stable_pressed tr \<and> press_started_ms tr \<noteq> None
         \<and> sat_sub now_ms (last_raw_change_ms tr) \<ge> debounce_ms (key_timings k)
      then emit_release_gesture k now_ms (tr\<lparr>press_started_ms := None\<rparr>, events)
      else if raw_pressed tr = stable_pressed tr \<or> sat_sub now_ms (last_raw_change_ms tr) < debounce_ms (key_timings k)
      then (tr, events)
      else
        let tr = tr\<lparr>stable_pressed := raw_pressed tr, next_repeat_ms := None\<rparr> in
        if stable_pressed tr then (tr\<lparr>long_fired := False\<rparr>, events)
        else if press_started_ms tr \<noteq> None \<and> \<not> long_fired tr
        then emit_release_gesture k now_ms (tr\<lparr>press_started_ms := None\<rparr>, events)
        else (tr\<lparr>press_started_ms := None\<rparr>, events))"

definition emit_long_press :: "KeySettings \<Rightarrow> u64 \<Rightarrow> KeyTracker \<times> KeyEvent list \<Rightarrow> KeyTracker \<times> KeyEvent list" where
  "emit_long_press k now_ms s =
     (case s of (tr, events) \<Rightarrow>
      if stable_pressed tr \<and> \<not> long_fired tr \<and> supports (settings_gestures k) LongPress
         \<and> (case press_started_ms tr of None \<Rightarrow> False | Some started \<Rightarrow> sat_sub now_ms started \<ge> long_press_ms (key_timings k))
      then (tr\<lparr>long_fired := True, pending_short_release_ms := None,
               next_repeat_ms := Some (sat_add now_ms FRONTPANEL_REPEAT_INITIAL_INTERVAL_MS)\<rparr>,
            push_key_event k LongPress now_ms events)
      else (tr, events))"

definition repeat_interval_ms :: "KeySettings \<Rightarrow> u64 \<Rightarrow> KeyTracker \<Rightarrow> u64" where
  "repeat_interval_ms k now_ms tr =
     (case press_started_ms tr of
        None \<Rightarrow> FRONTPANEL_REPEAT_INITIAL_INTERVAL_MS
      | Some started \<Rightarrow>
          if sat_sub now_ms started \<ge> sat_add (long_press_ms (key_timings k)) FRONTPANEL_REPEAT_FAST_AFTER_MS
          then FRONTPANEL_REPEAT_FAST_INTERVAL_MS else FRONTPANEL_REPEAT_INITIAL_INTERVAL_MS)"

definition emit_repeat_press :: "KeySettings \<Rightarrow> u64 \<Rightarrow> KeyTracker \<times> KeyEvent list \<Rightarrow> KeyTracker \<times> KeyEvent list" where
  "emit_repeat_press k now_ms s =
     (case s of (tr, events) \<Rightarrow>
      if stable_pressed tr \<and> raw_pressed tr \<and> long_fired tr \<and> (settings_key k = Up \<or> settings_key k = Down)
         \<and> (case next_repeat_ms tr of None \<Rightarrow> False | Some repeat_ms \<Rightarrow> now_ms \<ge> repeat_ms)
      then (tr\<lparr>next_repeat_ms := Some (sat_add now_ms (repeat_interval_ms k now_ms tr))\<rparr>,
            push_key_event k RepeatPress now_ms events)
      else (tr, events))"

text \<open>The body of \<open>sample_key\<close> on one tracker.\<close>

definition track_key :: "KeySettings \<Rightarrow> u64 \<Rightarrow> bool \<Rightarrow> KeyTracker \<times> KeyEvent list \<Rightarrow> KeyTracker \<times> KeyEvent list" where
  "track_key k now_ms pressed s =
     emit_repeat_press k now_ms (emit_long_press k now_ms (update_stable_tracker k now_ms
       (emit_pending_short_press k now_ms (update_raw_tracker (fst s) pressed now_ms, snd s))))"

section \<open>The controller\<close>

record FrontPanelInputController =
  key_map :: "FrontPanelKey list"
  timings :: FrontPanelInputTimings
  trackers :: "KeyTracker list"

definition FrontPanelInputController_new :: "FrontPanelKey list \<Rightarrow> FrontPanelInputTimings \<Rightarrow> FrontPanelInputController" where
  "FrontPanelInputController_new m ts = \<lparr>key_map = m, timings = ts, trackers = replicate 5 KeyTracker_new\<rparr>"

definition FrontPanelInputController_default :: FrontPanelInputController where
  "FrontPanelInputController_default = FrontPanelInputController_new FrontPanelKeyMap_default FrontPanelInputTimings_default"

definition key_settings :: "FrontPanelInputController \<Rightarrow> KeyGestureSet list \<Rightarrow> RawFrontPanelKey \<Rightarrow> KeySettings" where
  "key_settings c capabilities raw_key =
     (let logical_key = logical_from_raw (key_map c) raw_key in
      \<lparr>key_timings = timings c, settings_raw_key = raw_key, settings_key = logical_key,
       settings_gestures = gestures_for capabilities logical_key\<rparr>)"

definition sample_key ::
  "u64 \<Rightarrow> FrontPanelRawState \<Rightarrow> KeyGestureSet list \<Rightarrow> RawFrontPanelKey \<Rightarrow> FrontPanelInputController \<times> KeyEvent list \<Rightarrow> FrontPanelInputController \<times> KeyEvent list" where
  "sample_key now_ms raw_state capabilities raw_key s =
     (case s of (c, events) \<Rightarrow>
      let (tr, events) = track_key (key_settings c capabilities raw_key) now_ms (is_pressed raw_state raw_key)
            (trackers c ! raw_index raw_key, events)
      in (c\<lparr>trackers := (trackers c)[raw_index raw_key := tr]\<rparr>, events))"

definition sample_with_capabilities ::
  "FrontPanelInputController \<Rightarrow> u64 \<Rightarrow> FrontPanelRawState \<Rightarrow> KeyGestureSet list \<Rightarrow> FrontPanelInputController \<times> KeyEvent list" where
  "sample_with_capabilities c now_ms raw_state capabilities =
     fold (sample_key now_ms raw_state capabilities) RawFrontPanelKey_ALL (c, [])"

definition sample :: "FrontPanelInputController \<Rightarrow> u64 \<Rightarrow> FrontPanelRawState \<Rightarrow> FrontPanelInputController \<times> KeyEvent list" where
  "sample c now_ms raw_state = sample_with_capabilities c now_ms raw_state FrontPanelGestureCapabilities_ALL"

definition clear_pending_short_press :: "FrontPanelInputController \<Rightarrow> RawFrontPanelKey \<Rightarrow> FrontPanelInputController" where
  "clear_pending_short_press c raw_key =
     c\<lparr>trackers := (trackers c)[raw_index raw_key := (trackers c ! raw_index raw_key)
         \<lparr>raw_pressed := False, stable_pressed := False, press_started_ms := None, long_fired := False,
          next_repeat_ms := None, pending_short_release_ms := None\<rparr>]\<rparr>"

section \<open>The event buffer is large enough\<close>

lemma push_key_event_append:
  "length es + length (push_key_event k g t []) \<le> 10 \<Longrightarrow> push_key_event k g t es = es @ push_key_event k g t []"
  "length (push_key_event k g t []) \<le> Suc 0"
  by (auto simp: push_key_event_def)

lemmas emit_defs = emit_pending_short_press_def emit_release_gesture_def update_stable_tracker_def emit_long_press_def
  emit_repeat_press_def

text \<open>Each stage appends to the buffer what it would write into an empty one.\<close>

lemma release_append:
  "length es + length (snd (emit_release_gesture k t (tr, []))) \<le> 10 \<Longrightarrow>
     emit_release_gesture k t (tr, es) = map_prod id (append es) (emit_release_gesture k t (tr, []))"
  using push_key_event_append(1) [of es]
  by (cases "pending_short_release_ms tr") (auto simp: emit_release_gesture_def split: if_splits)

lemma stable_append:
  "length es + length (snd (update_stable_tracker k t (tr, []))) \<le> 10 \<Longrightarrow>
     update_stable_tracker k t (tr, es) = map_prod id (append es) (update_stable_tracker k t (tr, []))"
  using release_append [of es k t] by (auto simp: update_stable_tracker_def Let_def split: if_splits)

lemma stage_append:
  "length es + length (snd (emit_pending_short_press k t (tr, []))) \<le> 10 \<Longrightarrow>
     emit_pending_short_press k t (tr, es) = map_prod id (append es) (emit_pending_short_press k t (tr, []))"
  "length es + length (snd (emit_long_press k t (tr, []))) \<le> 10 \<Longrightarrow>
     emit_long_press k t (tr, es) = map_prod id (append es) (emit_long_press k t (tr, []))"
  "length es + length (snd (emit_repeat_press k t (tr, []))) \<le> 10 \<Longrightarrow>
     emit_repeat_press k t (tr, es) = map_prod id (append es) (emit_repeat_press k t (tr, []))"
  using push_key_event_append(1) [of es]
  by (auto simp: emit_pending_short_press_def emit_long_press_def emit_repeat_press_def split: if_splits option.splits)

lemma stage_length:
  "length (snd (emit_pending_short_press k t (tr, []))) \<le> 1" "length (snd (update_stable_tracker k t (tr, []))) \<le> 1"
  "length (snd (emit_long_press k t (tr, []))) \<le> 1" "length (snd (emit_repeat_press k t (tr, []))) \<le> 1"
  by (auto simp: emit_defs Let_def push_key_event_append(2) split: option.split)

text \<open>A released key is not held, and a long press does not repeat within the same sample.\<close>

lemma stable_event_releases:
  "snd (update_stable_tracker k t (tr, [])) \<noteq> [] \<Longrightarrow> \<not> stable_pressed (fst (update_stable_tracker k t (tr, [])))"
  by (auto simp: update_stable_tracker_def emit_release_gesture_def Let_def split: option.splits if_splits)

lemma not_stable_is_quiet:
  "\<not> stable_pressed tr \<Longrightarrow> emit_long_press k t (tr, es) = (tr, es)" "\<not> stable_pressed tr \<Longrightarrow> emit_repeat_press k t (tr, es) = (tr, es)"
  by (simp_all add: emit_long_press_def emit_repeat_press_def)

lemma long_does_not_repeat:
  assumes "unat t + 120 < 2 ^ 64" "snd (emit_long_press k t (tr, [])) \<noteq> []"
  shows "snd (emit_repeat_press k t (fst (emit_long_press k t (tr, [])), [])) = []"
proof -
  have "\<not> sat_add t 120 \<le> t" using assms(1) by (simp add: word_le_nat_alt unat_sat_add)
  then show ?thesis
    using assms(2)
    by (auto simp: emit_long_press_def emit_repeat_press_def FRONTPANEL_REPEAT_INITIAL_INTERVAL_MS_def split: if_splits)
qed

lemma track_key_append:
  assumes "length es \<le> 8" "unat t + 120 < 2 ^ 64"
  shows "track_key k t p (tr, es) = map_prod id (append es) (track_key k t p (tr, []))"
    and "length (snd (track_key k t p (tr, []))) \<le> 2"
proof -
  obtain tr1 e1 where 1: "emit_pending_short_press k t (update_raw_tracker tr p t, []) = (tr1, e1)"
    by (cases "emit_pending_short_press k t (update_raw_tracker tr p t, [])")
  obtain tr2 e2 where 2: "update_stable_tracker k t (tr1, []) = (tr2, e2)" by (cases "update_stable_tracker k t (tr1, [])")
  obtain tr3 e3 where 3: "emit_long_press k t (tr2, []) = (tr3, e3)" by (cases "emit_long_press k t (tr2, [])")
  obtain tr4 e4 where 4: "emit_repeat_press k t (tr3, []) = (tr4, e4)" by (cases "emit_repeat_press k t (tr3, [])")
  have len: "length e1 \<le> 1" "length e2 \<le> 1" "length e3 \<le> 1" "length e4 \<le> 1"
    using stage_length [of k t] 1 2 3 4 by (metis snd_conv)+
  have quiet: "e2 \<noteq> [] \<Longrightarrow> e3 = [] \<and> e4 = []" "e3 \<noteq> [] \<Longrightarrow> e4 = []"
    using stable_event_releases [of k t tr1] not_stable_is_quiet [of tr2] long_does_not_repeat [OF assms(2), of k tr2] 2 3 4
    by auto
  have one: "length e2 + length e3 + length e4 \<le> 1"
  proof (cases "e2 = []")
    case True
    then show ?thesis using len quiet(2) by (cases "e3 = []") simp_all
  next
    case False
    then show ?thesis using len quiet(1) by simp
  qed
  have chain: "track_key k t p (tr, es) = (tr4, es @ e1 @ e2 @ e3 @ e4)" if "length es \<le> 8" for es
  proof -
    have small: "length es + length e1 \<le> 10" "length (es @ e1) + length e2 \<le> 10" "length (es @ e1 @ e2) + length e3 \<le> 10"
      "length (es @ e1 @ e2 @ e3) + length e4 \<le> 10"
      using that len(1) one by simp_all
    show ?thesis
      using stage_append(1) [of es k t "update_raw_tracker tr p t"] stable_append [of "es @ e1" k t tr1]
        stage_append(2) [of "es @ e1 @ e2" k t tr2] stage_append(3) [of "es @ e1 @ e2 @ e3" k t tr3] small 1 2 3 4
      by (simp add: track_key_def)
  qed
  show "track_key k t p (tr, es) = map_prod id (append es) (track_key k t p (tr, []))"
    using chain [OF assms(1)] chain [of "[]"] by simp
  show "length (snd (track_key k t p (tr, []))) \<le> 2"
    using chain [of "[]"] len(1) one by simp
qed

text \<open>
  \<^bold>\<open>No gesture is lost to the event buffer.\<close> One sample of the five keys, in any state and with any
  gestures enabled, produces at most two events per key, so the buffer of ten never overflows: the events
  of the sample are exactly those of the keys taken one by one, in the order of the keys, each key judged by
  its own tracker alone.
\<close>

theorem no_gesture_is_lost:
  assumes "unat now_ms + 120 < 2 ^ 64" "length (trackers c) = 5"
  shows "snd (sample_with_capabilities c now_ms raw_state capabilities) =
      concat (map (\<lambda>raw_key. snd (track_key (key_settings c capabilities raw_key) now_ms (is_pressed raw_state raw_key)
        (trackers c ! raw_index raw_key, []))) RawFrontPanelKey_ALL)
    \<and> length (snd (sample_with_capabilities c now_ms raw_state capabilities)) \<le> 10"
proof -
  let ?new = "\<lambda>raw_key. snd (track_key (key_settings c capabilities raw_key) now_ms (is_pressed raw_state raw_key)
        (trackers c ! raw_index raw_key, []))"
  have two: "length (?new raw_key) \<le> 2" for raw_key by (rule track_key_append(2) [OF _ assms(1), of "[]"]) simp
  have step: "\<exists>c''. sample_key now_ms raw_state capabilities raw_key (c', es) = (c'', es @ ?new raw_key)
      \<and> key_map c'' = key_map c \<and> timings c'' = timings c
      \<and> (\<forall>other. other \<noteq> raw_key \<longrightarrow> trackers c'' ! raw_index other = trackers c' ! raw_index other)"
    if "key_map c' = key_map c" "timings c' = timings c" "trackers c' ! raw_index raw_key = trackers c ! raw_index raw_key"
      "length es \<le> 8" for c' es raw_key
  proof -
    have "key_settings c' capabilities raw_key = key_settings c capabilities raw_key" using that by (simp add: key_settings_def)
    moreover have "raw_index raw_key \<noteq> raw_index other" if "other \<noteq> raw_key" for other
      using that by (cases other; cases raw_key) simp_all
    ultimately show ?thesis
      using that track_key_append(1) [OF that(4) assms(1)] by (simp add: sample_key_def split_def map_prod_def)
  qed
  have fold: "distinct ks \<Longrightarrow> key_map c' = key_map c \<Longrightarrow> timings c' = timings c \<Longrightarrow>
      (\<And>raw_key. raw_key \<in> set ks \<Longrightarrow> trackers c' ! raw_index raw_key = trackers c ! raw_index raw_key) \<Longrightarrow>
      length es + 2 * length ks \<le> 10 \<Longrightarrow>
      snd (fold (sample_key now_ms raw_state capabilities) ks (c', es)) = es @ concat (map ?new ks)" for ks c' es
  proof (induction ks arbitrary: c' es)
    case (Cons raw_key ks)
    obtain c'' where c'': "sample_key now_ms raw_state capabilities raw_key (c', es) = (c'', es @ ?new raw_key)"
        "key_map c'' = key_map c" "timings c'' = timings c"
        "\<And>other. other \<noteq> raw_key \<Longrightarrow> trackers c'' ! raw_index other = trackers c' ! raw_index other"
      using step [of c' raw_key es] Cons.prems by auto
    have "snd (fold (sample_key now_ms raw_state capabilities) ks (c'', es @ ?new raw_key)) = (es @ ?new raw_key) @ concat (map ?new ks)"
    proof (rule Cons.IH)
      show "distinct ks" using Cons.prems(1) by simp
      show "trackers c'' ! raw_index k = trackers c ! raw_index k" if "k \<in> set ks" for k
        using c''(4) [of k] Cons.prems(1,4) that by auto
      show "length (es @ ?new raw_key) + 2 * length ks \<le> 10" using two [of raw_key] Cons.prems(5) by simp
    qed (use c'' in auto)
    then show ?case using c''(1) by simp
  qed simp
  have events: "snd (sample_with_capabilities c now_ms raw_state capabilities) = concat (map ?new RawFrontPanelKey_ALL)"
    using fold [of RawFrontPanelKey_ALL c "[]"] by (simp add: sample_with_capabilities_def RawFrontPanelKey_ALL_def)
  then show ?thesis
    using two [of RawCenterBoot] two [of RawRight] two [of RawDown] two [of RawLeft] two [of RawUp]
    by (simp add: RawFrontPanelKey_ALL_def)
qed

theorem no_gesture_is_lost_witness:
  "length (snd (sample_with_capabilities FrontPanelInputController_default 1000 31 FrontPanelGestureCapabilities_ALL)) \<le> 10"
proof -
  have "length (trackers FrontPanelInputController_default) = 5"
    by (simp add: FrontPanelInputController_default_def FrontPanelInputController_new_def)
  moreover have "unat (1000 :: u64) + 120 < 2 ^ 64" by simp
  ultimately show ?thesis using no_gesture_is_lost by blast
qed

section \<open>A clean press\<close>

text \<open>The samples of one key: a time and whether the key reads pressed.\<close>

fun key_run :: "KeySettings \<Rightarrow> KeyTracker \<Rightarrow> (u64 \<times> bool) list \<Rightarrow> KeyTracker \<times> KeyEvent list" where
  "key_run k tr [] = (tr, [])"
| "key_run k tr ((t, p) # ss) =
     (let (tr, es) = track_key k t p (tr, []); (tr, es') = key_run k tr ss in (tr, es @ es'))"

definition gestures :: "KeyGesture \<Rightarrow> KeyEvent list \<Rightarrow> nat" where
  "gestures g es = length (filter (\<lambda>e. event_gesture e = g) es)"

lemma gestures_append [simp]: "gestures g (es @ es') = gestures g es + gestures g es'"
  by (simp add: gestures_def)

lemma gestures_push [simp]:
  "gestures g [] = 0" "gestures g (push_key_event k g' t []) = of_bool (g = g' \<and> supports (settings_gestures k) g')"
  by (auto simp: gestures_def push_key_event_def)

definition resting :: "KeyTracker \<Rightarrow> bool" where
  "resting tr \<longleftrightarrow> \<not> raw_pressed tr \<and> \<not> stable_pressed tr \<and> press_started_ms tr = None \<and> pending_short_release_ms tr = None"

text \<open>A key that has been pressed since \<open>t0\<close>, and one that was released at \<open>r0\<close> and is not settled yet.\<close>

definition holding :: "u64 \<Rightarrow> KeyTracker \<Rightarrow> bool" where
  "holding t0 tr \<longleftrightarrow> raw_pressed tr \<and> press_started_ms tr = Some t0 \<and> last_raw_change_ms tr = t0
     \<and> pending_short_release_ms tr = None \<and> (long_fired tr \<longrightarrow> stable_pressed tr)"

definition releasing :: "u64 \<Rightarrow> u64 \<Rightarrow> KeyTracker \<Rightarrow> bool" where
  "releasing t0 r0 tr \<longleftrightarrow> \<not> raw_pressed tr \<and> press_started_ms tr = Some t0 \<and> last_raw_change_ms tr = r0
     \<and> pending_short_release_ms tr = None \<and> (long_fired tr \<longrightarrow> stable_pressed tr)"

lemma emit_repeat_frame:
  "\<exists>n. fst (emit_repeat_press k t (tr, es)) = tr\<lparr>next_repeat_ms := n\<rparr>"
  "g \<noteq> RepeatPress \<Longrightarrow> gestures g (snd (emit_repeat_press k t (tr, es))) = gestures g es"
proof -
  have "tr\<lparr>next_repeat_ms := next_repeat_ms tr\<rparr> = tr" by simp
  then show "\<exists>n. fst (emit_repeat_press k t (tr, es)) = tr\<lparr>next_repeat_ms := n\<rparr>"
    by (cases "fst (emit_repeat_press k t (tr, es)) = tr") (auto simp: emit_repeat_press_def intro: exI [of _ "next_repeat_ms tr"])
  show "g \<noteq> RepeatPress \<Longrightarrow> gestures g (snd (emit_repeat_press k t (tr, es))) = gestures g es"
    by (auto simp: emit_repeat_press_def push_key_event_def gestures_def)
qed

text \<open>Both kinds of sample end with the long press and the repetition; the repetition is invisible here.\<close>

definition long_due :: "KeySettings \<Rightarrow> u64 \<Rightarrow> u64 \<Rightarrow> KeyTracker \<Rightarrow> bool" where
  "long_due k t0 t tr \<longleftrightarrow> stable_pressed tr \<and> \<not> long_fired tr \<and> long_press (settings_gestures k)
     \<and> sat_sub t t0 \<ge> long_press_ms (key_timings k)"

lemma finish_sample:
  assumes "press_started_ms tr = Some t0"
  shows "\<exists>n. fst (emit_repeat_press k t (emit_long_press k t (tr, es))) =
      (if long_due k t0 t tr then tr\<lparr>long_fired := True, pending_short_release_ms := None, next_repeat_ms := n\<rparr>
       else tr\<lparr>next_repeat_ms := n\<rparr>)"
    and "g \<noteq> RepeatPress \<Longrightarrow> gestures g (snd (emit_repeat_press k t (emit_long_press k t (tr, [])))) = of_bool (g = LongPress \<and> long_due k t0 t tr)"
proof -
  obtain tr' es' where l: "emit_long_press k t (tr, es) = (tr', es')" by (cases "emit_long_press k t (tr, es)")
  show "\<exists>n. fst (emit_repeat_press k t (emit_long_press k t (tr, es))) =
      (if long_due k t0 t tr then tr\<lparr>long_fired := True, pending_short_release_ms := None, next_repeat_ms := n\<rparr>
       else tr\<lparr>next_repeat_ms := n\<rparr>)"
  proof -
    obtain n where n: "fst (emit_repeat_press k t (tr', es')) = tr'\<lparr>next_repeat_ms := n\<rparr>" using emit_repeat_frame(1) by blast
    have "tr'\<lparr>next_repeat_ms := n\<rparr> = (if long_due k t0 t tr
        then tr\<lparr>long_fired := True, pending_short_release_ms := None, next_repeat_ms := n\<rparr> else tr\<lparr>next_repeat_ms := n\<rparr>)"
    proof (cases "long_due k t0 t tr")
      case True
      then have "tr' = tr\<lparr>long_fired := True, pending_short_release_ms := None,
          next_repeat_ms := Some (sat_add t FRONTPANEL_REPEAT_INITIAL_INTERVAL_MS)\<rparr>"
        using l assms by (simp add: emit_long_press_def long_due_def)
      then show ?thesis using True by simp
    next
      case False
      then have "tr' = tr" using l assms by (auto simp: emit_long_press_def long_due_def split: if_splits)
      then show ?thesis using False by simp
    qed
    then show ?thesis unfolding l n by blast
  qed
  obtain tr1 es1 where l1: "emit_long_press k t (tr, []) = (tr1, es1)" by (cases "emit_long_press k t (tr, [])")
  then have "gestures g es1 = of_bool (g = LongPress \<and> long_due k t0 t tr)"
    using assms by (auto simp: emit_long_press_def long_due_def split: if_splits)
  then show "g \<noteq> RepeatPress \<Longrightarrow> gestures g (snd (emit_repeat_press k t (emit_long_press k t (tr, [])))) = of_bool (g = LongPress \<and> long_due k t0 t tr)"
    by (simp add: l1 emit_repeat_frame(2))
qed

lemma holding_sample:
  assumes "holding t0 tr" "track_key k t True (tr, []) = (tr', es)"
  shows "holding t0 tr'" "gestures ShortPress es = 0" "gestures DoublePress es = 0"
    "gestures LongPress es + of_bool (long_fired tr) = of_bool (long_fired tr')"
    "long_press (settings_gestures k) \<Longrightarrow> sat_sub t t0 \<ge> debounce_ms (key_timings k) \<Longrightarrow>
       sat_sub t t0 \<ge> long_press_ms (key_timings k) \<Longrightarrow> long_fired tr'"
    "sat_sub t t0 < long_press_ms (key_timings k) \<Longrightarrow> long_fired tr' = long_fired tr"
proof -
  define tr1 where "tr1 = (if stable_pressed tr \<or> sat_sub t t0 < debounce_ms (key_timings k) then tr
    else tr\<lparr>stable_pressed := True, next_repeat_ms := None, long_fired := False\<rparr>)"
  have "update_raw_tracker tr True t = tr" "emit_pending_short_press k t (tr, []) = (tr, [])"
    using assms(1) by (simp_all add: holding_def update_raw_tracker_def emit_pending_short_press_def)
  moreover have "update_stable_tracker k t (tr, []) = (tr1, [])"
    using assms(1) by (simp add: holding_def update_stable_tracker_def tr1_def Let_def)
  ultimately have track: "emit_repeat_press k t (emit_long_press k t (tr1, [])) = (tr', es)"
    using assms(2) by (simp add: track_key_def)
  have tr1: "press_started_ms tr1 = Some t0" "holding t0 tr1" "long_fired tr1 = long_fired tr"
    using assms(1) by (auto simp: holding_def tr1_def)
  obtain n where tr': "tr' = (if long_due k t0 t tr1 then tr1\<lparr>long_fired := True, pending_short_release_ms := None, next_repeat_ms := n\<rparr>
       else tr1\<lparr>next_repeat_ms := n\<rparr>)"
    using finish_sample(1) [OF tr1(1), of k t "[]", unfolded track] by auto
  have counts: "g \<noteq> RepeatPress \<Longrightarrow> gestures g es = of_bool (g = LongPress \<and> long_due k t0 t tr1)" for g
    using finish_sample(2) [OF tr1(1), of g k t] track by simp
  show "gestures ShortPress es = 0" "gestures DoublePress es = 0" using counts by simp_all
  show "holding t0 tr'" using tr1(2) tr' by (auto simp: holding_def long_due_def)
  show "gestures LongPress es + of_bool (long_fired tr) = of_bool (long_fired tr')"
    using counts [of LongPress] tr' tr1(3) by (auto simp: long_due_def)
  show "long_fired tr'" if "long_press (settings_gestures k)" "sat_sub t t0 \<ge> debounce_ms (key_timings k)"
      "sat_sub t t0 \<ge> long_press_ms (key_timings k)"
    using that tr' by (auto simp: long_due_def tr1_def)
  show "long_fired tr' = long_fired tr" if "sat_sub t t0 < long_press_ms (key_timings k)"
    using that tr' tr1(3) by (auto simp: long_due_def)
qed

lemma releasing_sample:
  assumes "releasing t0 r0 tr" "track_key k t False (tr, []) = (tr', es)" "\<not> double_press (settings_gestures k)" "short_press (settings_gestures k)"
  shows "sat_sub t r0 \<ge> debounce_ms (key_timings k) \<Longrightarrow>
      resting tr' \<and> gestures ShortPress es = of_bool (\<not> long_fired tr) \<and> gestures LongPress es = 0 \<and> gestures DoublePress es = 0"
    "sat_sub t r0 < debounce_ms (key_timings k) \<Longrightarrow>
      releasing t0 r0 tr' \<and> gestures ShortPress es = 0 \<and> gestures DoublePress es = 0
      \<and> gestures LongPress es + of_bool (long_fired tr) = of_bool (long_fired tr')
      \<and> (sat_sub t t0 < long_press_ms (key_timings k) \<longrightarrow> long_fired tr' = long_fired tr)"
proof -
  have pre: "update_raw_tracker tr False t = tr" "emit_pending_short_press k t (tr, []) = (tr, [])"
    using assms(1) by (simp_all add: releasing_def update_raw_tracker_def emit_pending_short_press_def)
  have track: "track_key k t False (tr, []) = emit_repeat_press k t (emit_long_press k t (update_stable_tracker k t (tr, [])))"
    using pre by (simp add: track_key_def)
  {
    assume late: "sat_sub t r0 \<ge> debounce_ms (key_timings k)"
    have "\<exists>tr1. update_stable_tracker k t (tr, []) = (tr1, if long_fired tr then [] else push_key_event k ShortPress t [])
        \<and> resting tr1 \<and> \<not> stable_pressed tr1"
      using assms(1,3) late
      by (auto simp: releasing_def update_stable_tracker_def emit_release_gesture_def Let_def resting_def)
    then obtain tr1 where "update_stable_tracker k t (tr, []) = (tr1, if long_fired tr then [] else push_key_event k ShortPress t [])"
      "resting tr1" "\<not> stable_pressed tr1" by blast
    then show "resting tr' \<and> gestures ShortPress es = of_bool (\<not> long_fired tr) \<and> gestures LongPress es = 0 \<and> gestures DoublePress es = 0"
      using track assms(2,4) not_stable_is_quiet [of tr1] by (auto split: if_splits)
  }
  {
    assume soon: "sat_sub t r0 < debounce_ms (key_timings k)"
    then have "update_stable_tracker k t (tr, []) = (tr, [])"
      using assms(1) by (auto simp: releasing_def update_stable_tracker_def)
    then have track: "emit_repeat_press k t (emit_long_press k t (tr, [])) = (tr', es)" using track assms(2) by simp
    have started: "press_started_ms tr = Some t0" using assms(1) by (simp add: releasing_def)
    obtain n where tr': "tr' = (if long_due k t0 t tr then tr\<lparr>long_fired := True, pending_short_release_ms := None, next_repeat_ms := n\<rparr>
       else tr\<lparr>next_repeat_ms := n\<rparr>)"
      using finish_sample(1) [OF started, of k t "[]", unfolded track] by auto
    have counts: "g \<noteq> RepeatPress \<Longrightarrow> gestures g es = of_bool (g = LongPress \<and> long_due k t0 t tr)" for g
      using finish_sample(2) [OF started, of g k t] track by simp
    show "releasing t0 r0 tr' \<and> gestures ShortPress es = 0 \<and> gestures DoublePress es = 0
      \<and> gestures LongPress es + of_bool (long_fired tr) = of_bool (long_fired tr')
      \<and> (sat_sub t t0 < long_press_ms (key_timings k) \<longrightarrow> long_fired tr' = long_fired tr)"
      using assms(1) tr' counts [of ShortPress] counts [of DoublePress] counts [of LongPress]
      by (auto simp: releasing_def long_due_def)
  }
qed

lemma resting_sample: "resting tr \<Longrightarrow> track_key k t False (tr, []) = (tr, [])"
  by (simp add: resting_def track_key_def update_raw_tracker_def emit_pending_short_press_def update_stable_tracker_def
      emit_long_press_def emit_repeat_press_def)

lemma key_run_append:
  "key_run k tr (xs @ ys) = (let (tr, es) = key_run k tr xs; (tr, es') = key_run k tr ys in (tr, es @ es'))"
  by (induction xs arbitrary: tr) (auto simp: split_def Let_def)

lemma resting_run: "resting tr \<Longrightarrow> key_run k tr (map (\<lambda>t. (t, False)) rs) = (tr, [])"
  by (induction rs) (simp_all add: resting_sample)

lemma holding_run:
  "holding t0 tr \<Longrightarrow> key_run k tr (map (\<lambda>t. (t, True)) ts) = (tr', es) \<Longrightarrow>
     holding t0 tr' \<and> gestures ShortPress es = 0 \<and> gestures DoublePress es = 0
     \<and> gestures LongPress es + of_bool (long_fired tr) = of_bool (long_fired tr')
     \<and> (long_press (settings_gestures k) \<and> (\<exists>t\<in>set ts. sat_sub t t0 \<ge> debounce_ms (key_timings k)
          \<and> sat_sub t t0 \<ge> long_press_ms (key_timings k)) \<longrightarrow> long_fired tr')
     \<and> ((\<forall>t\<in>set ts. sat_sub t t0 < long_press_ms (key_timings k)) \<longrightarrow> long_fired tr' = long_fired tr)"
proof (induction ts arbitrary: tr es)
  case (Cons t ts)
  obtain tr1 es1 where 1: "track_key k t True (tr, []) = (tr1, es1)" by (cases "track_key k t True (tr, [])")
  obtain es2 where 2: "key_run k tr1 (map (\<lambda>t. (t, True)) ts) = (tr', es2)" "es = es1 @ es2"
    using Cons.prems(2) 1 by (cases "key_run k tr1 (map (\<lambda>t. (t, True)) ts)") auto
  note sample = holding_sample [OF Cons.prems(1) 1]
  note rest = Cons.IH [OF sample(1) 2(1)]
  show ?case using sample rest 2(2) by (auto split: if_splits)
qed simp

lemma releasing_run:
  assumes "\<not> double_press (settings_gestures k)" "short_press (settings_gestures k)"
  shows "releasing t0 r0 tr \<Longrightarrow> key_run k tr (map (\<lambda>t. (t, False)) rs) = (tr', es) \<Longrightarrow>
     \<exists>r\<in>set rs. sat_sub r r0 \<ge> debounce_ms (key_timings k) \<Longrightarrow>
     resting tr' \<and> gestures DoublePress es = 0 \<and> gestures ShortPress es + gestures LongPress es + of_bool (long_fired tr) = 1
     \<and> ((\<forall>r\<in>set rs. sat_sub r t0 < long_press_ms (key_timings k)) \<longrightarrow> gestures LongPress es = 0)"
proof (induction rs arbitrary: tr es)
  case (Cons r rs)
  obtain tr1 es1 where 1: "track_key k r False (tr, []) = (tr1, es1)" by (cases "track_key k r False (tr, [])")
  obtain es2 where 2: "key_run k tr1 (map (\<lambda>t. (t, False)) rs) = (tr', es2)" "es = es1 @ es2"
    using Cons.prems(2) 1 by (cases "key_run k tr1 (map (\<lambda>t. (t, False)) rs)") auto
  note sample = releasing_sample [OF Cons.prems(1) 1 assms]
  show ?case
  proof (cases "sat_sub r r0 \<ge> debounce_ms (key_timings k)")
    case True
    then have "tr' = tr1" "es2 = []" using 2(1) sample(1) resting_run [of tr1 k rs] by auto
    then show ?thesis using sample(1) [OF True] 2(2) by simp
  next
    case False
    then have soon: "sat_sub r r0 < debounce_ms (key_timings k)" by (simp add: not_le)
    have ex: "\<exists>r\<in>set rs. sat_sub r r0 \<ge> debounce_ms (key_timings k)" using Cons.prems(3) False by auto
    note s2 = sample(2) [OF soon]
    note rest = Cons.IH [OF conjunct1 [OF s2] 2(1) ex]
    show ?thesis using s2 rest 2(2) by (cases "long_fired tr"; cases "long_fired tr1") auto
  qed
qed simp

lemma first_sample:
  assumes "pressed \<noteq> raw_pressed tr"
  shows "track_key k t pressed (tr, es) = track_key k t pressed (update_raw_tracker tr pressed t, es)"
  by (simp add: track_key_def update_raw_tracker_def Let_def)


definition menu_center :: KeySettings where
  "menu_center = \<lparr>key_timings = FrontPanelInputTimings_default, settings_raw_key = RawCenterBoot, settings_key = Center,
     settings_gestures = KeyGestureSet_SHORT_LONG\<rparr>"


section \<open>Contact chatter in a long press\<close>


end
