(* ===== verification/Front_Panel_Ui.thy ===== *)
theory Front_Panel_Ui
  imports Front_Panel_Input Wifi_State
begin

text \<open>
  The pages of the front panel, from \<open>src/firmware/src/frontpanel/mod.rs\<close>: the user-interface state and
  what each key gesture does on each page. The state mirrors \<open>FrontPanelUiState\<close> field by
  field; drawing it (\<open>render.rs\<close>) is not modelled.

  Every sequence of calls keeps target, presets and selection in range, never indexes outside the presets, and shows a
  pairing code only on its own page; the arrow keys go to the nearest preset; and the
  recogniser is asked for every gesture that a page acts on.
\<close>

section \<open>Data\<close>

type_synonym i16 = int

definition i16_sat_add :: "i16 \<Rightarrow> i16 \<Rightarrow> i16" where
  "i16_sat_add a b = min 32767 (a + b)"

definition i16_sat_sub :: "i16 \<Rightarrow> i16 \<Rightarrow> i16" where
  "i16_sat_sub a b = max (- 32768) (a - b)"

definition FRONTPANEL_PRESET_COUNT :: nat where [simp]: "FRONTPANEL_PRESET_COUNT = 10"
definition FRONTPANEL_TARGET_TEMP_MIN_C :: i16 where [simp]: "FRONTPANEL_TARGET_TEMP_MIN_C = 0"
definition FRONTPANEL_TARGET_TEMP_MAX_C :: i16 where [simp]: "FRONTPANEL_TARGET_TEMP_MAX_C = 400"

datatype FrontPanelRuntimeMode = KeyTestMode | AppMode

definition FrontPanelRuntimeMode_compile_time_default :: FrontPanelRuntimeMode where
  "FrontPanelRuntimeMode_compile_time_default = AppMode"

datatype FrontPanelRoute =
  KeyTestRoute | DashboardRoute | MenuRoute | PresetTempRoute | ActiveCoolingRoute | WifiInfoRoute | DeviceInfoRoute

datatype FrontPanelMenuItem = PresetTempItem | ActiveCoolingItem | WifiInfoItem | DeviceInfoItem

definition FrontPanelMenuItem_ALL :: "FrontPanelMenuItem list" where
  "FrontPanelMenuItem_ALL = [PresetTempItem, ActiveCoolingItem, WifiInfoItem, DeviceInfoItem]"

fun FrontPanelMenuItem_label :: "FrontPanelMenuItem \<Rightarrow> string" where
  "FrontPanelMenuItem_label PresetTempItem = ''Preset Temp''"
| "FrontPanelMenuItem_label ActiveCoolingItem = ''FAN CTRL''"
| "FrontPanelMenuItem_label WifiInfoItem = ''WiFi Info''"
| "FrontPanelMenuItem_label DeviceInfoItem = ''Device Info''"

fun FrontPanelMenuItem_short_label :: "FrontPanelMenuItem \<Rightarrow> string" where
  "FrontPanelMenuItem_short_label PresetTempItem = ''TEMP''"
| "FrontPanelMenuItem_short_label ActiveCoolingItem = ''FAN''"
| "FrontPanelMenuItem_short_label WifiInfoItem = ''WIFI''"
| "FrontPanelMenuItem_short_label DeviceInfoItem = ''INFO''"

fun FrontPanelMenuItem_route :: "FrontPanelMenuItem \<Rightarrow> FrontPanelRoute" where
  "FrontPanelMenuItem_route PresetTempItem = PresetTempRoute"
| "FrontPanelMenuItem_route ActiveCoolingItem = ActiveCoolingRoute"
| "FrontPanelMenuItem_route WifiInfoItem = WifiInfoRoute"
| "FrontPanelMenuItem_route DeviceInfoItem = DeviceInfoRoute"

datatype FanDisplayState = DisplayOff | DisplayAuto | DisplayRun | DisplaySafe

fun FanDisplayState_label :: "FanDisplayState \<Rightarrow> string" where
  "FanDisplayState_label DisplayOff = ''OFF''"
| "FanDisplayState_label DisplayAuto = ''AUTO''"
| "FanDisplayState_label DisplayRun = ''RUN''"
| "FanDisplayState_label DisplaySafe = ''SAFE''"

datatype HeaterLockReason =
    CoolingDisabledOvertemp
  | HardOvertemp
  | SensorFault
  | PdContractUnavailable
  | ThermalModelMissingForSourceClass
  | NoSafeHeaterPower
  | PersistenceRequired

fun HeaterLockReason_label :: "HeaterLockReason \<Rightarrow> string" where
  "HeaterLockReason_label CoolingDisabledOvertemp = ''cooling-disabled-overtemp''"
| "HeaterLockReason_label HardOvertemp = ''hard-overtemp''"
| "HeaterLockReason_label SensorFault = ''sensor-fault''"
| "HeaterLockReason_label PdContractUnavailable = ''pd-contract-unavailable''"
| "HeaterLockReason_label ThermalModelMissingForSourceClass = ''thermal_model_missing_for_source_class''"
| "HeaterLockReason_label NoSafeHeaterPower = ''no-safe-heater-power''"
| "HeaterLockReason_label PersistenceRequired = ''persistence-required''"

datatype DashboardPresentationState = Initializing | EepromRestore | PresentationReady | InitialRtdFault

record KeyTestState =
  raw_state :: FrontPanelRawState
  last_raw_key :: "RawFrontPanelKey option"
  last_key :: "FrontPanelKey option"
  last_gesture :: "KeyGesture option"

definition KeyTestState_default :: KeyTestState where
  "KeyTestState_default = \<lparr>raw_state = 0, last_raw_key = None, last_key = None, last_gesture = None\<rparr>"

datatype DeviceInfoPage = Identity | Calibration | Runtime

record DeviceInfo =
  info_version :: string
  info_sha :: string
  info_device_id :: string
  info_board :: string
  info_reset :: string
  info_thermal :: string
  info_rtd :: string
  info_vin :: string
  info_config :: string
  info_uptime_seconds :: u64
  info_heater_percent :: u8
  info_fan_on :: bool

definition DeviceInfo_default :: DeviceInfo where
  "DeviceInfo_default = \<lparr>info_version = [], info_sha = [], info_device_id = [], info_board = [], info_reset = ''UNKNOWN'', info_thermal = ''MISSING'',
     info_rtd = ''DEFAULT'', info_vin = ''DEFAULT'', info_config = ''UNKNOWN'', info_uptime_seconds = 0, info_heater_percent = 0, info_fan_on = False\<rparr>"

record NetworkSummary =
  network_state :: NetworkState
  network_configuration_generation :: u32
  network_transition_sequence :: u32
  network_failure_code :: "NetworkFailureCode option"
  ssid :: "string option"
  wifi_password_length :: u8
  ip :: "string option"
  gateway :: "string option"
  dns :: "string list"
  wifi_rssi :: "i16 option"
  last_error :: "string option"

definition NetworkSummary_default :: NetworkSummary where
  "NetworkSummary_default = \<lparr>network_state = Disabled, network_configuration_generation = 0, network_transition_sequence = 0,
     network_failure_code = None, ssid = None, wifi_password_length = 0, ip = None, gateway = None, dns = [],
     wifi_rssi = None, last_error = None\<rparr>"

record PersistenceFault =
  fault_code :: string
  fault_phase :: string
  fault_attempt :: u8
  fault_sequence :: u32
  fault_slot :: "string option"
  fault_message :: string

record FrontPanelUiState =
  runtime_mode :: FrontPanelRuntimeMode
  device_info_page :: DeviceInfoPage
  device_info :: DeviceInfo
  route :: FrontPanelRoute
  dashboard_presentation :: DashboardPresentationState
  ui_current_temp_c :: i16
  current_temp_deci_c :: i16
  ui_pd_contract_mv :: u16
  ui_target_temp_c :: i16
  ui_heater_enabled :: bool
  heater_output_percent :: u8
  ui_fan_enabled :: bool
  fan_display_state :: FanDisplayState
  fan_policy_source :: FanPolicySource
  fan_output_level :: FanOutputLevel
  heater_lock_reason :: "HeaterLockReason option"
  dashboard_warning_visible :: bool
  eeprom_data_incompatible :: bool
  eeprom_required :: bool
  persistence_fault :: "PersistenceFault option"
  persistence_fault_attention_pending :: bool
  persistence_retry_requested :: bool
  manual_pps_enabled :: bool
  selected_menu_item :: FrontPanelMenuItem
  selected_preset_slot :: nat
  presets_c :: "i16 option list"
  active_cooling_enabled :: bool
  post_heat_cooling_mode :: PostHeatCoolingMode
  heating_fan_guard_mode :: HeatingFanGuardMode
  fan_settings_row :: u8
  fan_settings_draft_post_heat :: PostHeatCoolingMode
  fan_settings_draft_guard :: HeatingFanGuardMode
  fan_settings_apply_requested :: bool
  network :: NetworkSummary
  wifi_pairing_code :: "u8 list option"
  key_test :: KeyTestState

definition FrontPanelUiState_new :: "FrontPanelRuntimeMode \<Rightarrow> FrontPanelUiState" where
  "FrontPanelUiState_new mode =
     \<lparr>runtime_mode = mode, device_info_page = Identity, device_info = DeviceInfo_default,
      route = (case mode of KeyTestMode \<Rightarrow> KeyTestRoute | AppMode \<Rightarrow> DashboardRoute),
      dashboard_presentation = PresentationReady, ui_current_temp_c = 0, current_temp_deci_c = 0,
      ui_pd_contract_mv = millivolts DEFAULT_PD_VOLTAGE_REQUEST, ui_target_temp_c = 100,
      ui_heater_enabled = False, heater_output_percent = 0, ui_fan_enabled = False, fan_display_state = DisplayAuto,
      fan_policy_source = SourceIdle, fan_output_level = LevelOff, heater_lock_reason = None,
      dashboard_warning_visible = False, eeprom_data_incompatible = False, eeprom_required = False,
      persistence_fault = None, persistence_fault_attention_pending = False, persistence_retry_requested = False,
      manual_pps_enabled = False, selected_menu_item = ActiveCoolingItem, selected_preset_slot = 1,
      presets_c = map Some [50, 100, 120, 150, 180, 200, 210, 220, 250, 300],
      active_cooling_enabled = True, post_heat_cooling_mode = PostHeatNormal, heating_fan_guard_mode = GuardMedium,
      fan_settings_row = 0, fan_settings_draft_post_heat = PostHeatNormal, fan_settings_draft_guard = GuardMedium,
      fan_settings_apply_requested = False, network = NetworkSummary_default, wifi_pairing_code = None,
      key_test = KeyTestState_default\<rparr>"

definition new_startup :: "FrontPanelRuntimeMode \<Rightarrow> FrontPanelUiState" where
  "new_startup mode = (FrontPanelUiState_new mode)\<lparr>dashboard_presentation := Initializing\<rparr>"

section \<open>State updates\<close>

definition dashboard_is_ready :: "FrontPanelUiState \<Rightarrow> bool" where
  "dashboard_is_ready s \<longleftrightarrow> dashboard_presentation s = PresentationReady"

definition set_dashboard_presentation :: "DashboardPresentationState \<Rightarrow> FrontPanelUiState \<Rightarrow> FrontPanelUiState \<times> bool" where
  "set_dashboard_presentation presentation s =
     (if dashboard_presentation s = presentation then (s, False)
      else (s\<lparr>dashboard_presentation := presentation\<rparr>, True))"

definition apply_network_summary :: "NetworkSummary \<Rightarrow> FrontPanelUiState \<Rightarrow> FrontPanelUiState \<times> bool" where
  "apply_network_summary summary s =
     (if network s = summary then (s, False) else (s\<lparr>network := summary\<rparr>, True))"

definition set_raw_state :: "FrontPanelRawState \<Rightarrow> FrontPanelUiState \<Rightarrow> FrontPanelUiState" where
  "set_raw_state raw s =
     (let s = s\<lparr>key_test := (key_test s)\<lparr>raw_state := raw\<rparr>\<rparr> in
      case first_pressed raw of
        Some raw_key \<Rightarrow> s\<lparr>key_test := (key_test s)\<lparr>last_raw_key := Some raw_key\<rparr>\<rparr>
      | None \<Rightarrow> s)"

definition persistence_locked :: "FrontPanelUiState \<Rightarrow> bool" where
  "persistence_locked s \<longleftrightarrow> eeprom_data_incompatible s \<or> eeprom_required s"

definition clamp_target_temp_c :: "i16 \<Rightarrow> i16" where
  "clamp_target_temp_c t = clamp FRONTPANEL_TARGET_TEMP_MIN_C FRONTPANEL_TARGET_TEMP_MAX_C t"

text \<open>Indexing the presets panics outside their ten places.\<close>

definition preset_at :: "FrontPanelUiState \<Rightarrow> nat \<Rightarrow> i16 option rust" where
  "preset_at s i = (if i < length (presets_c s) then Ret (presets_c s ! i) else Panic)"

definition store_preset :: "nat \<Rightarrow> i16 option \<Rightarrow> FrontPanelUiState \<Rightarrow> FrontPanelUiState rust" where
  "store_preset i v s = (if i < length (presets_c s) then Ret (s\<lparr>presets_c := (presets_c s)[i := v]\<rparr>) else Panic)"

definition selected_preset :: "FrontPanelUiState \<Rightarrow> i16 option rust" where
  "selected_preset s = preset_at s (selected_preset_slot s)"

definition matching_preset_slot :: "FrontPanelUiState \<Rightarrow> nat option rust" where
  "matching_preset_slot s =
     rbind (selected_preset s) (\<lambda>selected.
       if selected = Some (ui_target_temp_c s) then Ret (Some (selected_preset_slot s))
       else Ret (position (\<lambda>preset. preset = Some (ui_target_temp_c s)) (presets_c s)))"

definition ensure_selected_preset_slot :: "FrontPanelUiState \<Rightarrow> FrontPanelUiState" where
  "ensure_selected_preset_slot s =
     (if selected_preset_slot s \<ge> FRONTPANEL_PRESET_COUNT then s\<lparr>selected_preset_slot := 0\<rparr> else s)"

definition set_target_temp_c :: "i16 \<Rightarrow> FrontPanelUiState \<Rightarrow> FrontPanelUiState rust" where
  "set_target_temp_c t s =
     (let s = s\<lparr>ui_target_temp_c := clamp_target_temp_c t\<rparr> in
      rbind (matching_preset_slot s) (\<lambda>m.
        Ret (s\<lparr>selected_preset_slot := (case m of Some i \<Rightarrow> i | None \<Rightarrow> selected_preset_slot s)\<rparr>)))"

definition is_ascii_digit :: "u8 \<Rightarrow> bool" where
  "is_ascii_digit d \<longleftrightarrow> 48 \<le> d \<and> d \<le> 57"

definition enter_wifi_pairing :: "u8 list option \<Rightarrow> FrontPanelUiState \<Rightarrow> FrontPanelUiState" where
  "enter_wifi_pairing c s =
     s\<lparr>route := WifiInfoRoute,
       wifi_pairing_code := (case c of None \<Rightarrow> None | Some v \<Rightarrow> if list_all is_ascii_digit v then Some v else None)\<rparr>"

definition leave_wifi_pairing :: "FrontPanelUiState \<Rightarrow> FrontPanelUiState" where
  "leave_wifi_pairing s = s\<lparr>wifi_pairing_code := None\<rparr>"

definition set_fan_settings :: "PostHeatCoolingMode \<Rightarrow> HeatingFanGuardMode \<Rightarrow> FrontPanelUiState \<Rightarrow> FrontPanelUiState" where
  "set_fan_settings post_heat guard s =
     s\<lparr>post_heat_cooling_mode := post_heat, heating_fan_guard_mode := guard,
       active_cooling_enabled := PostHeatCoolingMode_is_enabled post_heat,
       fan_settings_draft_post_heat := post_heat, fan_settings_draft_guard := guard,
       fan_settings_apply_requested := False\<rparr>"

definition take_fan_settings_apply_request :: "FrontPanelUiState \<Rightarrow> FrontPanelUiState \<times> bool" where
  "take_fan_settings_apply_request s = (s\<lparr>fan_settings_apply_requested := False\<rparr>, fan_settings_apply_requested s)"

definition take_persistence_retry_request :: "FrontPanelUiState \<Rightarrow> FrontPanelUiState \<times> bool" where
  "take_persistence_retry_request s = (s\<lparr>persistence_retry_requested := False\<rparr>, persistence_retry_requested s)"

fun cycle_post_heat :: "PostHeatCoolingMode \<Rightarrow> bool \<Rightarrow> PostHeatCoolingMode" where
  "cycle_post_heat PostHeatOff True = PostHeatNormal"
| "cycle_post_heat PostHeatNormal True = PostHeatFast"
| "cycle_post_heat PostHeatFast True = PostHeatOff"
| "cycle_post_heat PostHeatOff False = PostHeatFast"
| "cycle_post_heat PostHeatNormal False = PostHeatOff"
| "cycle_post_heat PostHeatFast False = PostHeatNormal"

fun cycle_heating_guard :: "HeatingFanGuardMode \<Rightarrow> bool \<Rightarrow> HeatingFanGuardMode" where
  "cycle_heating_guard GuardOff True = GuardLow"
| "cycle_heating_guard GuardLow True = GuardMedium"
| "cycle_heating_guard GuardMedium True = GuardHigh"
| "cycle_heating_guard GuardHigh True = GuardOff"
| "cycle_heating_guard GuardOff False = GuardHigh"
| "cycle_heating_guard GuardLow False = GuardOff"
| "cycle_heating_guard GuardMedium False = GuardLow"
| "cycle_heating_guard GuardHigh False = GuardMedium"

text \<open>
  The active presets come with their slots in ascending order of slot, so a stable sort by
  temperature is the order by temperature and then slot of the source.
\<close>

definition sorted_active_presets :: "FrontPanelUiState \<Rightarrow> (nat \<times> i16) list" where
  "sorted_active_presets s =
     sort_key snd (List.map_filter (\<lambda>(slot, preset). map_option (Pair slot) preset) (List.enumerate 0 (presets_c s)))"

definition find_neighbor_preset :: "bool \<Rightarrow> FrontPanelUiState \<Rightarrow> (nat \<times> i16) option" where
  "find_neighbor_preset ascending s =
     (let sorted = sorted_active_presets s in
      if ascending then List.find (\<lambda>(_, temp). temp > ui_target_temp_c s) sorted
      else List.find (\<lambda>(_, temp). temp < ui_target_temp_c s) (rev sorted))"

definition advance_preset_slot :: "FrontPanelUiState \<Rightarrow> nat" where
  "advance_preset_slot s = (selected_preset_slot s + 1) mod FRONTPANEL_PRESET_COUNT"

definition retreat_preset_slot :: "FrontPanelUiState \<Rightarrow> nat" where
  "retreat_preset_slot s =
     (if selected_preset_slot s = 0 then FRONTPANEL_PRESET_COUNT - 1 else selected_preset_slot s - 1)"

section \<open>Pages\<close>

definition apply_dashboard_event :: "KeyEvent \<Rightarrow> FrontPanelUiState \<Rightarrow> (FrontPanelUiState \<times> bool) rust" where
  "apply_dashboard_event e s =
     (let set_target = (\<lambda>t s. rbind (set_target_temp_c t s) (\<lambda>s. Ret (s, True)));
          go_to_neighbor = (\<lambda>ascending.
            case find_neighbor_preset ascending s of
              Some (slot, temp) \<Rightarrow> set_target temp (s\<lparr>selected_preset_slot := slot\<rparr>)
            | None \<Rightarrow> Ret (s, False)) in
      case (event_key e, event_gesture e) of
        (Up, ShortPress) \<Rightarrow> set_target (i16_sat_add (ui_target_temp_c s) 1) s
      | (Up, RepeatPress) \<Rightarrow> set_target (i16_sat_add (ui_target_temp_c s) 1) s
      | (Down, ShortPress) \<Rightarrow> set_target (i16_sat_sub (ui_target_temp_c s) 1) s
      | (Down, RepeatPress) \<Rightarrow> set_target (i16_sat_sub (ui_target_temp_c s) 1) s
      | (Left, ShortPress) \<Rightarrow> go_to_neighbor False
      | (Right, ShortPress) \<Rightarrow> go_to_neighbor True
      | (Center, ShortPress) \<Rightarrow> Ret (s\<lparr>ui_heater_enabled := \<not> ui_heater_enabled s\<rparr>, True)
      | (Center, DoublePress) \<Rightarrow> Ret (s, False)
      | (Center, LongPress) \<Rightarrow> Ret (s\<lparr>route := MenuRoute\<rparr>, True)
      | _ \<Rightarrow> Ret (s, False))"

definition apply_menu_event :: "KeyEvent \<Rightarrow> FrontPanelUiState \<Rightarrow> FrontPanelUiState \<times> bool" where
  "apply_menu_event e s =
     (case (event_key e, event_gesture e) of
        (Left, ShortPress) \<Rightarrow>
          (s\<lparr>selected_menu_item := (case selected_menu_item s of
               PresetTempItem \<Rightarrow> DeviceInfoItem | ActiveCoolingItem \<Rightarrow> PresetTempItem
             | WifiInfoItem \<Rightarrow> ActiveCoolingItem | DeviceInfoItem \<Rightarrow> WifiInfoItem)\<rparr>, True)
      | (Right, ShortPress) \<Rightarrow>
          (s\<lparr>selected_menu_item := (case selected_menu_item s of
               PresetTempItem \<Rightarrow> ActiveCoolingItem | ActiveCoolingItem \<Rightarrow> WifiInfoItem
             | WifiInfoItem \<Rightarrow> DeviceInfoItem | DeviceInfoItem \<Rightarrow> PresetTempItem)\<rparr>, True)
      | (Center, ShortPress) \<Rightarrow>
          (let s = s\<lparr>route := FrontPanelMenuItem_route (selected_menu_item s)\<rparr>;
               s = (if route s = DeviceInfoRoute then s\<lparr>device_info_page := Identity\<rparr> else s);
               s = (if route s \<noteq> WifiInfoRoute then leave_wifi_pairing s else s);
               s = (if route s = PresetTempRoute then ensure_selected_preset_slot s else s)
           in (s, True))
      | (Center, LongPress) \<Rightarrow> (s\<lparr>route := DashboardRoute\<rparr>, True)
      | _ \<Rightarrow> (s, False))"

definition apply_preset_temp_event :: "KeyEvent \<Rightarrow> FrontPanelUiState \<Rightarrow> (FrontPanelUiState \<times> bool) rust" where
  "apply_preset_temp_event e s =
     (let up =
            (let s = ensure_selected_preset_slot s in
             rbind (preset_at s (selected_preset_slot s)) (\<lambda>preset.
               let next_temp = clamp_target_temp_c
                     (case preset of Some temp \<Rightarrow> i16_sat_add temp 1 | None \<Rightarrow> FRONTPANEL_TARGET_TEMP_MIN_C) in
               rbind (store_preset (selected_preset_slot s) (Some next_temp) s) (\<lambda>s.
               rbind (set_target_temp_c next_temp s) (\<lambda>s. Ret (s, True)))));
          down =
            (let s = ensure_selected_preset_slot s;
                 clear = rbind (store_preset (selected_preset_slot s) None s) (\<lambda>s. Ret (s, True)) in
             rbind (preset_at s (selected_preset_slot s)) (\<lambda>preset.
               case preset of
                 None \<Rightarrow> clear
               | Some temp \<Rightarrow>
                   if temp > FRONTPANEL_TARGET_TEMP_MIN_C then
                     let next_temp = clamp_target_temp_c (i16_sat_sub temp 1) in
                     rbind (store_preset (selected_preset_slot s) (Some next_temp) s) (\<lambda>s.
                     rbind (set_target_temp_c next_temp s) (\<lambda>s. Ret (s, True)))
                   else clear));
          to_menu = Ret ((leave_wifi_pairing s)\<lparr>route := MenuRoute\<rparr>, True) in
      case (event_key e, event_gesture e) of
        (Right, ShortPress) \<Rightarrow> Ret (s\<lparr>selected_preset_slot := advance_preset_slot s\<rparr>, True)
      | (Left, ShortPress) \<Rightarrow> Ret (s\<lparr>selected_preset_slot := retreat_preset_slot s\<rparr>, True)
      | (Up, ShortPress) \<Rightarrow> up
      | (Up, RepeatPress) \<Rightarrow> up
      | (Down, ShortPress) \<Rightarrow> down
      | (Down, RepeatPress) \<Rightarrow> down
      | (Center, ShortPress) \<Rightarrow> to_menu
      | (Center, LongPress) \<Rightarrow> to_menu
      | _ \<Rightarrow> Ret (s, False))"

definition apply_active_cooling_event :: "KeyEvent \<Rightarrow> FrontPanelUiState \<Rightarrow> FrontPanelUiState \<times> bool" where
  "apply_active_cooling_event e s =
     (let other_row = (s\<lparr>fan_settings_row := if fan_settings_row s = 0 then 1 else 0\<rparr>, True);
          cycle = (\<lambda>forward.
            (if fan_settings_row s = 0
             then s\<lparr>fan_settings_draft_post_heat := cycle_post_heat (fan_settings_draft_post_heat s) forward\<rparr>
             else s\<lparr>fan_settings_draft_guard := cycle_heating_guard (fan_settings_draft_guard s) forward\<rparr>, True)) in
      case (event_key e, event_gesture e) of
        (Up, ShortPress) \<Rightarrow> other_row
      | (Down, ShortPress) \<Rightarrow> other_row
      | (Left, ShortPress) \<Rightarrow> cycle False
      | (Right, ShortPress) \<Rightarrow> cycle True
      | (Center, ShortPress) \<Rightarrow>
          (let s = s\<lparr>post_heat_cooling_mode := fan_settings_draft_post_heat s,
                     heating_fan_guard_mode := fan_settings_draft_guard s\<rparr>
           in (s\<lparr>active_cooling_enabled := PostHeatCoolingMode_is_enabled (post_heat_cooling_mode s),
                 fan_settings_apply_requested := True, route := MenuRoute\<rparr>, True))
      | (Center, LongPress) \<Rightarrow>
          (s\<lparr>fan_settings_draft_post_heat := post_heat_cooling_mode s,
             fan_settings_draft_guard := heating_fan_guard_mode s, route := MenuRoute\<rparr>, True)
      | _ \<Rightarrow> (s, False))"

definition apply_device_info_event :: "KeyEvent \<Rightarrow> FrontPanelUiState \<Rightarrow> FrontPanelUiState \<times> bool" where
  "apply_device_info_event e s =
     (case (event_key e, event_gesture e) of
        (Left, ShortPress) \<Rightarrow>
          (s\<lparr>device_info_page := (case device_info_page s of
               Identity \<Rightarrow> Runtime | Calibration \<Rightarrow> Identity | Runtime \<Rightarrow> Calibration)\<rparr>, True)
      | (Right, ShortPress) \<Rightarrow>
          (s\<lparr>device_info_page := (case device_info_page s of
               Identity \<Rightarrow> Calibration | Calibration \<Rightarrow> Runtime | Runtime \<Rightarrow> Identity)\<rparr>, True)
      | (Center, ShortPress) \<Rightarrow> (s\<lparr>route := MenuRoute\<rparr>, True)
      | (Center, LongPress) \<Rightarrow> (s\<lparr>route := MenuRoute\<rparr>, True)
      | _ \<Rightarrow> (s, False))"

definition apply_readonly_page_event :: "KeyEvent \<Rightarrow> FrontPanelUiState \<Rightarrow> FrontPanelUiState \<times> bool" where
  "apply_readonly_page_event e s =
     (let to_menu = ((if route s = WifiInfoRoute then leave_wifi_pairing s else s)\<lparr>route := MenuRoute\<rparr>, True) in
      case (event_key e, event_gesture e) of
        (Left, ShortPress) \<Rightarrow> to_menu
      | (Center, ShortPress) \<Rightarrow> to_menu
      | (Center, LongPress) \<Rightarrow> to_menu
      | _ \<Rightarrow> (s, False))"

definition apply_app_event :: "KeyEvent \<Rightarrow> FrontPanelUiState \<Rightarrow> (FrontPanelUiState \<times> bool) rust" where
  "apply_app_event e s =
     (case route s of
        KeyTestRoute \<Rightarrow> Ret (s\<lparr>route := DashboardRoute\<rparr>, True)
      | DashboardRoute \<Rightarrow> apply_dashboard_event e s
      | MenuRoute \<Rightarrow> Ret (apply_menu_event e s)
      | PresetTempRoute \<Rightarrow> apply_preset_temp_event e s
      | ActiveCoolingRoute \<Rightarrow> Ret (apply_active_cooling_event e s)
      | WifiInfoRoute \<Rightarrow> Ret (apply_readonly_page_event e s)
      | DeviceInfoRoute \<Rightarrow> Ret (apply_device_info_event e s))"

definition ui_handle_event :: "KeyEvent \<Rightarrow> FrontPanelUiState \<Rightarrow> (FrontPanelUiState \<times> bool) rust" where
  "ui_handle_event e s =
     (if \<not> dashboard_is_ready s then Ret (s, False)
      else
        let s = s\<lparr>key_test := (key_test s)\<lparr>last_raw_key := Some (event_raw_key e), last_key := Some (event_key e),
                    last_gesture := Some (event_gesture e)\<rparr>\<rparr>;
            error_page_visible = (persistence_fault_attention_pending s
              \<and> \<not> (dashboard_presentation s = EepromRestore \<or> dashboard_presentation s = InitialRtdFault)) in
        if error_page_visible \<and> event_key e = Center \<and> event_gesture e = LongPress
        then Ret (s\<lparr>persistence_fault_attention_pending := False, persistence_retry_requested := True\<rparr>, True)
        else
          let s = s\<lparr>persistence_fault_attention_pending := False\<rparr> in
          case runtime_mode s of KeyTestMode \<Rightarrow> Ret (s, True) | AppMode \<Rightarrow> apply_app_event e s)"

definition KeyGestureSet_SHORT_DOUBLE_LONG :: KeyGestureSet where
  "KeyGestureSet_SHORT_DOUBLE_LONG = KeyGestureSet_ALL"

definition gesture_capabilities :: "FrontPanelUiState \<Rightarrow> KeyGestureSet list" where
  "gesture_capabilities s =
     (case runtime_mode s of
        KeyTestMode \<Rightarrow> FrontPanelGestureCapabilities_ALL
      | AppMode \<Rightarrow> (case route s of
          KeyTestRoute \<Rightarrow> FrontPanelGestureCapabilities_ALL
        | DashboardRoute \<Rightarrow> [KeyGestureSet_SHORT_DOUBLE_LONG, KeyGestureSet_SHORT, KeyGestureSet_SHORT_LONG,
            KeyGestureSet_SHORT, KeyGestureSet_SHORT_LONG]
        | MenuRoute \<Rightarrow> [KeyGestureSet_SHORT_LONG, KeyGestureSet_SHORT, KeyGestureSet_NONE, KeyGestureSet_SHORT, KeyGestureSet_NONE]
        | PresetTempRoute \<Rightarrow> [KeyGestureSet_SHORT_LONG, KeyGestureSet_SHORT, KeyGestureSet_SHORT_LONG,
            KeyGestureSet_SHORT, KeyGestureSet_SHORT_LONG]
        | ActiveCoolingRoute \<Rightarrow> [KeyGestureSet_SHORT_LONG, KeyGestureSet_SHORT, KeyGestureSet_SHORT,
            KeyGestureSet_SHORT, KeyGestureSet_SHORT]
        | WifiInfoRoute \<Rightarrow> [KeyGestureSet_SHORT_LONG, KeyGestureSet_NONE, KeyGestureSet_NONE, KeyGestureSet_SHORT, KeyGestureSet_NONE]
        | DeviceInfoRoute \<Rightarrow> [KeyGestureSet_SHORT_LONG, KeyGestureSet_SHORT, KeyGestureSet_NONE,
            KeyGestureSet_SHORT, KeyGestureSet_SHORT]))"

section \<open>The invariant\<close>

text \<open>
  Target and presets stay within the temperature range, the selected slot exists, the cooling switch
  agrees with the cooling mode, and a pairing code is four ASCII digits shown on its own page.
\<close>

definition temp_ok :: "i16 \<Rightarrow> bool" where
  "temp_ok t \<longleftrightarrow> 0 \<le> t \<and> t \<le> 400"

definition ui_ok :: "FrontPanelUiState \<Rightarrow> bool" where
  "ui_ok s \<longleftrightarrow> temp_ok (ui_target_temp_c s) \<and> length (presets_c s) = 10 \<and> list_all (pred_option temp_ok) (presets_c s)
     \<and> selected_preset_slot s < 10 \<and> active_cooling_enabled s = PostHeatCoolingMode_is_enabled (post_heat_cooling_mode s)
     \<and> pred_option (\<lambda>c. route s = WifiInfoRoute \<and> list_all is_ascii_digit c) (wifi_pairing_code s)
     \<and> fan_settings_row s \<le> 1"

lemma temp_ok_clamp [simp]: "temp_ok (clamp_target_temp_c t)"
  by (auto simp: temp_ok_def clamp_target_temp_c_def clamp_def)

lemma temp_ok_clamp_id [simp]: "temp_ok t \<Longrightarrow> clamp_target_temp_c t = t"
  by (auto simp: temp_ok_def clamp_target_temp_c_def clamp_def)

lemma position_bound: "position p xs = Some i \<Longrightarrow> i < length xs \<and> p (xs ! i)"
  by (induction xs arbitrary: i) (auto split: if_splits)

text \<open>Setting the target never panics in range; it selects a slot that holds the new target, if there is one.\<close>

lemma set_target_temp_c_spec:
  assumes "selected_preset_slot s < length (presets_c s)"
  shows "\<exists>i. set_target_temp_c t s = Ret (s\<lparr>ui_target_temp_c := clamp_target_temp_c t, selected_preset_slot := i\<rparr>)
    \<and> i < length (presets_c s)
    \<and> (presets_c s ! selected_preset_slot s = Some (clamp_target_temp_c t) \<longrightarrow> i = selected_preset_slot s)"
proof -
  let ?s = "s\<lparr>ui_target_temp_c := clamp_target_temp_c t\<rparr>"
  define m where "m = (if presets_c s ! selected_preset_slot s = Some (clamp_target_temp_c t) then Some (selected_preset_slot s)
    else position (\<lambda>preset. preset = Some (clamp_target_temp_c t)) (presets_c s))"
  have m: "matching_preset_slot ?s = Ret m"
    using assms by (simp add: m_def matching_preset_slot_def selected_preset_def preset_at_def)
  have bound: "m = Some i \<Longrightarrow> i < length (presets_c s)" for i
    using assms by (auto simp: m_def dest: position_bound split: if_splits)
  show ?thesis
    by (rule exI [of _ "case m of Some i \<Rightarrow> i | None \<Rightarrow> selected_preset_slot s"])
      (use m bound assms in \<open>auto simp: set_target_temp_c_def Let_def m_def split: option.splits if_splits\<close>)
qed

lemma set_target_keeps_ok: "ui_ok s \<Longrightarrow> rust_all ui_ok (set_target_temp_c t s)"
  using set_target_temp_c_spec [of s t] by (auto simp: ui_ok_def)

lemma preset_edit_ok:
  assumes "ui_ok s" "pred_option temp_ok v"
  shows "ui_ok (s\<lparr>presets_c := (presets_c s)[selected_preset_slot s := v]\<rparr>)"
  using assms by (auto simp: ui_ok_def list_all_iff dest!: subsetD [OF set_update_subset_insert])

lemma enter_pairing_ok: "ui_ok s \<Longrightarrow> ui_ok (enter_wifi_pairing c s)"
  by (auto simp: ui_ok_def enter_wifi_pairing_def split: option.splits)

lemma ensure_slot_ok [simp]: "ui_ok s \<Longrightarrow> ensure_selected_preset_slot s = s"
  by (simp add: ui_ok_def ensure_selected_preset_slot_def)

lemma find_in_order:
  "sorted_wrt R xs \<Longrightarrow> List.find P xs = Some y \<Longrightarrow> y \<in> set xs \<and> P y \<and> (\<forall>z\<in>set xs. P z \<longrightarrow> z = y \<or> R y z)"
  by (induction xs) (auto split: if_splits)

lemma sorted_active_presets_set:
  "(i, t) \<in> set (sorted_active_presets s) \<longleftrightarrow> i < length (presets_c s) \<and> presets_c s ! i = Some t"
  by (auto simp: sorted_active_presets_def List.map_filter_def in_set_enumerate_eq image_iff)

lemma active_preset: "Some u \<in> set (presets_c s) \<Longrightarrow> \<exists>i. (i, u) \<in> set (sorted_active_presets s)"
  by (metis in_set_conv_nth sorted_active_presets_set)

lemma sorted_active_presets_sorted: "sorted_wrt (\<lambda>a b. snd a \<le> snd b) (sorted_active_presets s)"
proof -
  have "sorted (map snd (sorted_active_presets s))" by (simp add: sorted_active_presets_def)
  then show ?thesis by (simp add: sorted_wrt_map)
qed

text \<open>The preset next to the target in the given direction, and none only if there is none.\<close>

lemma find_neighbor_preset_Some:
  assumes "find_neighbor_preset up s = Some (i, t)"
  shows "i < length (presets_c s)" "presets_c s ! i = Some t"
    "if up then ui_target_temp_c s < t else t < ui_target_temp_c s"
    "Some u \<in> set (presets_c s) \<Longrightarrow> if up then ui_target_temp_c s < u \<longrightarrow> t \<le> u else u < ui_target_temp_c s \<longrightarrow> u \<le> t"
proof -
  let ?xs = "if up then sorted_active_presets s else rev (sorted_active_presets s)"
  let ?P = "\<lambda>x::nat \<times> i16. if up then ui_target_temp_c s < snd x else snd x < ui_target_temp_c s"
  have order: "sorted_wrt (\<lambda>a b. if up then snd a \<le> snd b else snd b \<le> snd a) ?xs"
    using sorted_active_presets_sorted [of s] by (simp add: sorted_wrt_rev)
  have "List.find ?P ?xs = Some (i, t)"
    using assms by (simp add: find_neighbor_preset_def split_def Let_def split: if_splits)
  note found = find_in_order [OF order this]
  show "i < length (presets_c s)" "presets_c s ! i = Some t"
    using found sorted_active_presets_set [of i t s] by (auto split: if_splits)
  show "if up then ui_target_temp_c s < t else t < ui_target_temp_c s" using found by (auto split: if_splits)
  show "if up then ui_target_temp_c s < u \<longrightarrow> t \<le> u else u < ui_target_temp_c s \<longrightarrow> u \<le> t"
    if u: "Some u \<in> set (presets_c s)"
  proof -
    obtain j where "(j, u) \<in> set (sorted_active_presets s)" using active_preset [OF u] by blast
    then show ?thesis using found by (auto split: if_splits)
  qed
qed

lemma find_neighbor_preset_None:
  assumes "find_neighbor_preset up s = None" "Some u \<in> set (presets_c s)"
  shows "if up then u \<le> ui_target_temp_c s else ui_target_temp_c s \<le> u"
proof -
  obtain j where "(j, u) \<in> set (sorted_active_presets s)" using active_preset [OF assms(2)] by blast
  then show ?thesis using assms(1) by (auto simp: find_neighbor_preset_def find_None_iff not_less split: if_splits)
qed

text \<open>Each page keeps the invariant.\<close>

lemma no_code_elsewhere: "ui_ok s \<Longrightarrow> route s \<noteq> WifiInfoRoute \<Longrightarrow> wifi_pairing_code s = None"
  by (cases "wifi_pairing_code s") (auto simp: ui_ok_def)

lemma leave_page_ok [simp]: "ui_ok s \<Longrightarrow> route s \<noteq> WifiInfoRoute \<Longrightarrow> ui_ok (s\<lparr>route := r\<rparr>)"
  using no_code_elsewhere [of s] by (simp add: ui_ok_def)

lemma leave_pairing_ok [simp]: "ui_ok s \<Longrightarrow> ui_ok ((leave_wifi_pairing s)\<lparr>route := r\<rparr>)"
  by (simp add: ui_ok_def leave_wifi_pairing_def)

lemma ui_ok_select [simp]: "ui_ok s \<Longrightarrow> i < 10 \<Longrightarrow> ui_ok (s\<lparr>selected_preset_slot := i\<rparr>)"
  by (simp add: ui_ok_def)

lemma set_target_event_ok:
  "ui_ok s \<Longrightarrow> rust_all (\<lambda>x. ui_ok (fst x)) (rbind (set_target_temp_c t s) (\<lambda>s. Ret (s, b)))"
  using set_target_keeps_ok [of s t] by simp

lemma dashboard_event_ok:
  assumes "ui_ok s" "route s = DashboardRoute"
  shows "rust_all (\<lambda>x. ui_ok (fst x)) (apply_dashboard_event e s)"
proof -
  have neighbor: "ui_ok (s\<lparr>selected_preset_slot := i\<rparr>)" if "find_neighbor_preset up s = Some (i, t)" for up i t
    using find_neighbor_preset_Some(1) [OF that] assms(1) by (simp add: ui_ok_def)
  have heater: "ui_ok (s\<lparr>ui_heater_enabled := b\<rparr>)" for b using assms(1) by (simp add: ui_ok_def)
  show ?thesis
    using assms heater
    by (auto simp: apply_dashboard_event_def Let_def neighbor set_target_event_ok [simplified]
        split: FrontPanelKey.split KeyGesture.split option.split)
qed

lemma menu_event_ok: "ui_ok s \<Longrightarrow> route s = MenuRoute \<Longrightarrow> ui_ok (fst (apply_menu_event e s))"
  using no_code_elsewhere [of s]
  by (auto simp: apply_menu_event_def Let_def ui_ok_def leave_wifi_pairing_def ensure_selected_preset_slot_def
      split: FrontPanelKey.split KeyGesture.split)

lemma preset_event_ok: "ui_ok s \<Longrightarrow> rust_all (\<lambda>x. ui_ok (fst x)) (apply_preset_temp_event e s)"
proof -
  assume ok: "ui_ok s"
  then have slot: "selected_preset_slot s < length (presets_c s)" "selected_preset_slot s < 10" by (simp_all add: ui_ok_def)
  have edit: "store_preset (selected_preset_slot s) v s = Ret (s\<lparr>presets_c := (presets_c s)[selected_preset_slot s := v]\<rparr>)" for v
    using slot by (simp add: store_preset_def)
  have cell: "preset_at s (selected_preset_slot s) = Ret (presets_c s ! selected_preset_slot s)"
    using slot by (simp add: preset_at_def)
  have turn: "advance_preset_slot s < 10" "retreat_preset_slot s < 10"
    using slot(2) by (auto simp: advance_preset_slot_def retreat_preset_slot_def)
  show ?thesis
    using ok turn preset_edit_ok [OF ok]
    by (auto simp: apply_preset_temp_event_def Let_def edit cell set_target_event_ok [simplified] split: FrontPanelKey.split KeyGesture.split option.split)
qed

lemma active_cooling_event_ok:
  "ui_ok s \<Longrightarrow> route s = ActiveCoolingRoute \<Longrightarrow> ui_ok (fst (apply_active_cooling_event e s))"
  using no_code_elsewhere [of s]
  by (auto simp: apply_active_cooling_event_def Let_def ui_ok_def split: FrontPanelKey.split KeyGesture.split)

lemma readonly_event_ok: "ui_ok s \<Longrightarrow> ui_ok (fst (apply_readonly_page_event e s))"
  using no_code_elsewhere [of s]
  by (auto simp: apply_readonly_page_event_def Let_def split: FrontPanelKey.split KeyGesture.split)

lemma device_info_event_ok:
  "ui_ok s \<Longrightarrow> route s = DeviceInfoRoute \<Longrightarrow> ui_ok (fst (apply_device_info_event e s))"
  using no_code_elsewhere [of s]
  by (auto simp: apply_device_info_event_def ui_ok_def split: FrontPanelKey.split KeyGesture.split)

lemma app_event_ok: "ui_ok s \<Longrightarrow> rust_all (\<lambda>x. ui_ok (fst x)) (apply_app_event e s)"
  by (cases "route s") (simp_all add: apply_app_event_def dashboard_event_ok menu_event_ok preset_event_ok
      active_cooling_event_ok readonly_event_ok device_info_event_ok)

lemma ui_handle_event_ok: "ui_ok s \<Longrightarrow> rust_all (\<lambda>x. ui_ok (fst x)) (ui_handle_event e s)"
proof -
  assume ok: "ui_ok s"
  have shown: "ui_ok (s\<lparr>key_test := kt, persistence_fault_attention_pending := b, persistence_retry_requested := b'\<rparr>)"
    "ui_ok (s\<lparr>key_test := kt, persistence_fault_attention_pending := b\<rparr>)" for kt b b'
    using ok by (simp_all add: ui_ok_def)
  show ?thesis using ok shown app_event_ok [OF shown(2)]
    by (auto simp: ui_handle_event_def Let_def split: FrontPanelRuntimeMode.split)
qed

section \<open>Every sequence of calls\<close>

text \<open>The calls the runtime makes on the state.\<close>

datatype UiCall =
    UiEvent KeyEvent
  | UiRawState FrontPanelRawState
  | UiPresentation DashboardPresentationState
  | UiNetwork NetworkSummary
  | UiTarget i16
  | UiEnterPairing "u8 list option"
  | UiLeavePairing
  | UiFanSettings PostHeatCoolingMode HeatingFanGuardMode
  | UiTakeFanRequest
  | UiTakeRetryRequest

fun ui_call :: "UiCall \<Rightarrow> FrontPanelUiState \<Rightarrow> FrontPanelUiState rust" where
  "ui_call (UiEvent e) s = rbind (ui_handle_event e s) (\<lambda>x. Ret (fst x))"
| "ui_call (UiRawState r) s = Ret (set_raw_state r s)"
| "ui_call (UiPresentation p) s = Ret (fst (set_dashboard_presentation p s))"
| "ui_call (UiNetwork n) s = Ret (fst (apply_network_summary n s))"
| "ui_call (UiTarget t) s = set_target_temp_c t s"
| "ui_call (UiEnterPairing c) s = Ret (enter_wifi_pairing c s)"
| "ui_call UiLeavePairing s = Ret (leave_wifi_pairing s)"
| "ui_call (UiFanSettings p g) s = Ret (set_fan_settings p g s)"
| "ui_call UiTakeFanRequest s = Ret (fst (take_fan_settings_apply_request s))"
| "ui_call UiTakeRetryRequest s = Ret (fst (take_persistence_retry_request s))"

fun ui_run :: "UiCall list \<Rightarrow> FrontPanelUiState \<Rightarrow> FrontPanelUiState rust" where
  "ui_run [] s = Ret s"
| "ui_run (c # cs) s = rbind (ui_call c s) (ui_run cs)"

lemma ui_call_ok: "ui_ok s \<Longrightarrow> rust_all ui_ok (ui_call c s)"
proof (cases c)
  case (UiEvent e)
  assume "ui_ok s"
  from ui_handle_event_ok [OF this, of e] show ?thesis using UiEvent by simp
qed (simp_all add: set_target_keeps_ok enter_pairing_ok, simp_all add: ui_ok_def set_raw_state_def set_dashboard_presentation_def
    apply_network_summary_def leave_wifi_pairing_def set_fan_settings_def take_fan_settings_apply_request_def
    take_persistence_retry_request_def Let_def split: option.split)

lemma ui_new_ok: "ui_ok (FrontPanelUiState_new mode)" "ui_ok (new_startup mode)"
  by (simp_all add: ui_ok_def new_startup_def FrontPanelUiState_new_def temp_ok_def PostHeatCoolingMode_is_enabled_def)

lemma ui_run_ok: "ui_ok s \<Longrightarrow> rust_all ui_ok (ui_run cs s)"
proof (induction cs arbitrary: s)
  case (Cons c cs)
  show ?case using rust_all_mono [OF ui_call_ok [OF Cons.prems, of c] Cons.IH] by simp
qed simp

text \<open>
  \<^bold>\<open>The panel state stays sound (C12).\<close> From boot, in either mode and after any sequence of key events and calls of the runtime,
  no call panics on the preset array; target and presets lie between 0 and 400 degrees; the selected slot exists; the
  cooling switch agrees with the cooling mode; and a pairing code, always of ASCII digits, is held only while
  the WiFi page is shown.
\<close>

theorem panel_state_stays_sound:
  "\<exists>s. ui_run cs (new_startup mode) = Ret s \<and> 0 \<le> ui_target_temp_c s \<and> ui_target_temp_c s \<le> 400
     \<and> length (presets_c s) = 10 \<and> list_all (pred_option (\<lambda>t. 0 \<le> t \<and> t \<le> 400)) (presets_c s)
     \<and> selected_preset_slot s < 10
     \<and> active_cooling_enabled s = PostHeatCoolingMode_is_enabled (post_heat_cooling_mode s)
     \<and> pred_option (\<lambda>c. route s = WifiInfoRoute \<and> list_all is_ascii_digit c) (wifi_pairing_code s)"
  using ui_run_ok [OF ui_new_ok(2), of cs mode] by (auto simp: rust_all_iff ui_ok_def temp_ok_def [abs_def])

section \<open>Presets\<close>

text \<open>
  \<^bold>\<open>Arrow keys reach the nearest preset.\<close> On the dashboard a short press of Right moves the target to the
  smallest preset above it, and of Left to the largest preset below it; the selected slot then holds the target. If there is no such
  preset the key is reported as ignored and nothing changes.
\<close>

theorem arrows_reach_the_nearest_preset:
  assumes "ui_ok s" "event_gesture e = ShortPress" "event_key e = Right \<or> event_key e = Left"
  defines "beyond \<equiv> (\<lambda>t. if event_key e = Right then ui_target_temp_c s < t else t < ui_target_temp_c s)"
  defines "nearer \<equiv> (\<lambda>t u. if event_key e = Right then t \<le> u else u \<le> t)"
  shows "\<exists>s' acted. apply_dashboard_event e s = Ret (s', acted)
    \<and> acted = (\<exists>t. Some t \<in> set (presets_c s) \<and> beyond t)
    \<and> (acted \<longrightarrow> beyond (ui_target_temp_c s') \<and> presets_c s ! selected_preset_slot s' = Some (ui_target_temp_c s')
        \<and> (\<forall>t. Some t \<in> set (presets_c s) \<and> beyond t \<longrightarrow> nearer (ui_target_temp_c s') t)
        \<and> s' = s\<lparr>ui_target_temp_c := ui_target_temp_c s', selected_preset_slot := selected_preset_slot s'\<rparr>)
    \<and> (\<not> acted \<longrightarrow> s' = s)"
proof -
  let ?up = "event_key e = Right"
  have step: "apply_dashboard_event e s = (case find_neighbor_preset ?up s of
      Some (slot, temp) \<Rightarrow> rbind (set_target_temp_c temp (s\<lparr>selected_preset_slot := slot\<rparr>)) (\<lambda>s. Ret (s, True))
    | None \<Rightarrow> Ret (s, False))"
    using assms(2,3) by (auto simp: apply_dashboard_event_def Let_def)
  show ?thesis
  proof (cases "find_neighbor_preset ?up s")
    case None
    have "\<not> beyond t" if "Some t \<in> set (presets_c s)" for t
      using find_neighbor_preset_None [OF None that] by (auto simp: beyond_def split: if_splits)
    then show ?thesis using step None by auto
  next
    case (Some p)
    obtain i t where p: "p = (i, t)" by (cases p)
    note found = find_neighbor_preset_Some [OF Some [unfolded p]]
    have t: "Some t \<in> set (presets_c s)" using found(1,2) by (metis nth_mem)
    then have ok: "temp_ok t" using assms(1) by (auto simp: ui_ok_def list_all_iff)
    obtain j where target: "set_target_temp_c t (s\<lparr>selected_preset_slot := i\<rparr>)
        = Ret (s\<lparr>selected_preset_slot := i, ui_target_temp_c := t, selected_preset_slot := j\<rparr>)" "j = i"
      using set_target_temp_c_spec [of "s\<lparr>selected_preset_slot := i\<rparr>" t] found(1,2) ok by auto
    have "apply_dashboard_event e s = Ret (s\<lparr>ui_target_temp_c := t, selected_preset_slot := i\<rparr>, True)"
      using step Some p target by simp
    moreover have "beyond t" using found(3) by (simp add: beyond_def split: if_splits)
    moreover have "nearer t u" if "Some u \<in> set (presets_c s)" "beyond u" for u
      using found(4) [OF that(1)] that(2) by (auto simp: nearer_def beyond_def split: if_splits)
    ultimately show ?thesis using t found(2) by auto
  qed
qed

definition short_right :: KeyEvent where
  "short_right = \<lparr>event_raw_key = RawRight, event_key = Right, event_gesture = ShortPress, at_ms = 0\<rparr>"

theorem arrows_reach_the_nearest_preset_witness:
  "\<exists>s'. apply_dashboard_event short_right (FrontPanelUiState_new AppMode) = Ret (s', True) \<and> ui_target_temp_c s' \<le> 120"
proof -
  let ?s = "FrontPanelUiState_new AppMode"
  have e: "event_gesture short_right = ShortPress" "event_key short_right = Right" by (simp_all add: short_right_def)
  have new: "ui_target_temp_c ?s = 100" "Some 120 \<in> set (presets_c ?s)" by (simp_all add: FrontPanelUiState_new_def)
  obtain s' acted where step: "apply_dashboard_event short_right ?s = Ret (s', acted)"
      "acted = (\<exists>t. Some t \<in> set (presets_c ?s) \<and> 100 < t)"
      "acted \<Longrightarrow> \<forall>t. Some t \<in> set (presets_c ?s) \<and> 100 < t \<longrightarrow> ui_target_temp_c s' \<le> t"
    using arrows_reach_the_nearest_preset [OF ui_new_ok(1), of short_right AppMode] unfolding e new(1) simp_thms(6) if_True by blast
  have "(100::i16) < 120" by simp
  then have acted using step(2) new(2) by blast
  then show ?thesis using step new(2) by auto
qed

section \<open>The recogniser and the pages agree\<close>

lemmas capability_defs = gesture_capabilities_def gestures_for_def FrontPanelGestureCapabilities_ALL_def
  KeyGestureSet_SHORT_DOUBLE_LONG_def KeyGestureSet_ALL_def KeyGestureSet_SHORT_def KeyGestureSet_SHORT_LONG_def
  KeyGestureSet_NONE_def

text \<open>
  \<^bold>\<open>Every gesture a page acts on is recognised.\<close> The gestures the recogniser emits depend on the page. Whenever an
  application page acts on an event, the page's capabilities include that gesture of that key: no function of
  the panel is out of reach because its gesture is filtered away.
\<close>

theorem acted_gestures_are_recognised:
  assumes "runtime_mode s = AppMode" "apply_app_event e s = Ret (s', True)"
  shows "supports (gestures_for (gesture_capabilities s) (event_key e)) (event_gesture e)"
proof (rule ccontr)
  assume unsupported: "\<not> ?thesis"
  have False if "route s = KeyTestRoute"
    using unsupported assms(1) that by (cases "event_key e"; cases "event_gesture e") (simp_all add: capability_defs)
  moreover have "apply_dashboard_event e s = Ret (s, False)" if "route s = DashboardRoute"
    using unsupported assms(1) that
    by (cases "event_key e"; cases "event_gesture e") (simp_all add: capability_defs, simp_all add: apply_dashboard_event_def)
  moreover have "apply_menu_event e s = (s, False)" if "route s = MenuRoute"
    using unsupported assms(1) that
    by (cases "event_key e"; cases "event_gesture e") (simp_all add: capability_defs, simp_all add: apply_menu_event_def)
  moreover have "apply_preset_temp_event e s = Ret (s, False)" if "route s = PresetTempRoute"
    using unsupported assms(1) that
    by (cases "event_key e"; cases "event_gesture e") (simp_all add: capability_defs, simp_all add: apply_preset_temp_event_def)
  moreover have "apply_active_cooling_event e s = (s, False)" if "route s = ActiveCoolingRoute"
    using unsupported assms(1) that
    by (cases "event_key e"; cases "event_gesture e") (simp_all add: capability_defs, simp_all add: apply_active_cooling_event_def)
  moreover have "apply_readonly_page_event e s = (s, False)" if "route s = WifiInfoRoute"
    using unsupported assms(1) that
    by (cases "event_key e"; cases "event_gesture e") (simp_all add: capability_defs, simp_all add: apply_readonly_page_event_def)
  moreover have "apply_device_info_event e s = (s, False)" if "route s = DeviceInfoRoute"
    using unsupported assms(1) that
    by (cases "event_key e"; cases "event_gesture e") (simp_all add: capability_defs, simp_all add: apply_device_info_event_def)
  ultimately show False using assms(2) by (cases "route s") (simp_all add: apply_app_event_def)
qed

theorem acted_gestures_are_recognised_witness:
  "supports (gestures_for (gesture_capabilities (FrontPanelUiState_new AppMode)) Center) LongPress"
  using acted_gestures_are_recognised [of "FrontPanelUiState_new AppMode"
      "\<lparr>event_raw_key = RawCenterBoot, event_key = Center, event_gesture = LongPress, at_ms = 0\<rparr>"
      "(FrontPanelUiState_new AppMode)\<lparr>route := MenuRoute\<rparr>"]
  by (simp add: FrontPanelUiState_new_def apply_app_event_def apply_dashboard_event_def Let_def)

end
