(* ===== verification/Watchdog.thy ===== *)
theory Watchdog
  imports Prelude
begin

text \<open>
  The feed gate of the hardware watchdog, from \<open>src/firmware/src/bin/flux_purr/watchdog.rs\<close>. A supervisor samples
  heartbeat counters of the boot sequence, the runtime loop and the PD service every 50 ms and feeds the watchdog only
  when the gate says so. A counter that no longer moves stops the feeding; while the counters move, it goes on.
\<close>

record WatchdogFeedGate =
  boot_heartbeat :: u32
  runtime_heartbeat :: u32
  pd_heartbeat :: u32
  armed :: bool
  runtime_started :: bool

definition WatchdogFeedGate_default :: WatchdogFeedGate where
  "WatchdogFeedGate_default = \<lparr>boot_heartbeat = 0, runtime_heartbeat = 0, pd_heartbeat = 0, armed = False, runtime_started = False\<rparr>"

definition observe_heartbeats :: "WatchdogFeedGate \<Rightarrow> u32 \<Rightarrow> u32 \<Rightarrow> u32 \<Rightarrow> bool \<Rightarrow> WatchdogFeedGate \<times> bool" where
  "observe_heartbeats g boot runtime pd pd_service_required =
     (if runtime = 0 then
        if boot = 0 then (g, False)
        else if \<not> armed g then (g\<lparr>boot_heartbeat := boot, armed := True\<rparr>, True)
        else if boot = boot_heartbeat g then (g, False)
        else (g\<lparr>boot_heartbeat := boot\<rparr>, True)
      else if pd_service_required \<and> pd = 0 then (g, False)
      else if \<not> armed g then
        (g\<lparr>runtime_heartbeat := runtime, pd_heartbeat := pd, armed := True, runtime_started := True\<rparr>, True)
      else if \<not> runtime_started g then
        (g\<lparr>runtime_heartbeat := runtime, pd_heartbeat := pd, runtime_started := True\<rparr>, True)
      else if runtime = runtime_heartbeat g \<or> pd_service_required \<and> pd = pd_heartbeat g then (g, False)
      else (g\<lparr>runtime_heartbeat := runtime, pd_heartbeat := pd\<rparr>, True))"

record HeartbeatSample =
  boot :: u32
  runtime :: u32
  pd :: u32
  pd_required :: bool

text \<open>The rounds of the supervisor, and whether each one feeds the watchdog.\<close>

fun feeds :: "WatchdogFeedGate \<Rightarrow> HeartbeatSample list \<Rightarrow> bool list" where
  "feeds g [] = []"
| "feeds g (x # xs) =
     (case observe_heartbeats g (boot x) (runtime x) (pd x) (pd_required x) of (g', fed) \<Rightarrow> fed # feeds g' xs)"

text \<open>What can stall: the runtime loop, the PD service while it is required, or the boot sequence.\<close>

definition stalled :: "HeartbeatSample \<Rightarrow> HeartbeatSample \<Rightarrow> bool" where
  "stalled x y \<longleftrightarrow>
     runtime x \<noteq> 0 \<and> runtime y = runtime x
   \<or> runtime x \<noteq> 0 \<and> runtime y \<noteq> 0 \<and> pd_required y \<and> pd y = pd x
   \<or> runtime x = 0 \<and> runtime y = 0 \<and> boot y = boot x"

text \<open>The gate has recorded the counters of \<open>x\<close>.\<close>

definition seen :: "HeartbeatSample \<Rightarrow> WatchdogFeedGate \<Rightarrow> bool" where
  "seen x g \<longleftrightarrow> armed g
     \<and> (if runtime x = 0 then boot_heartbeat g = boot x
        else runtime_started g \<and> runtime_heartbeat g = runtime x \<and> pd_heartbeat g = pd x)"

lemma fed_is_seen: "observe_heartbeats g (boot x) (runtime x) (pd x) (pd_required x) = (g', True) \<Longrightarrow> seen x g'"
  by (auto simp: observe_heartbeats_def seen_def split: if_splits)

lemma unfed_is_unchanged: "observe_heartbeats g b r p q = (g', False) \<Longrightarrow> g' = g"
  by (auto simp: observe_heartbeats_def split: if_splits)

lemma seen_stalled_not_fed:
  "seen x g \<Longrightarrow> stalled x y \<Longrightarrow> observe_heartbeats g (boot y) (runtime y) (pd y) (pd_required y) = (g, False)"
  by (auto simp: observe_heartbeats_def seen_def stalled_def split: if_splits)

lemma seen_stalled_starves: "seen x g \<Longrightarrow> list_all (stalled x) ys \<Longrightarrow> feeds g ys = replicate (length ys) False"
  by (induction ys) (simp_all add: seen_stalled_not_fed)

section \<open>Feeding\<close>

text \<open>
  \<^bold>\<open>A stalled task starves the watchdog (C20).\<close> Whatever the state of the gate: once it has fed on a sample, no sample is fed
  that shows the same runtime counter, or the same PD counter while the PD service is required, or, before the
  runtime runs, the same boot counter. The watchdog then resets the device.
\<close>

theorem stalled_task_starves_watchdog:
  assumes "observe_heartbeats g (boot x) (runtime x) (pd x) (pd_required x) = (g', True)" "list_all (stalled x) ys"
  shows "\<not> (\<exists>fed\<in>set (feeds g' ys). fed)"
  using seen_stalled_starves [OF fed_is_seen [OF assms(1)] assms(2)] by simp

theorem stalled_task_starves_watchdog_witness:
  "\<not> (\<exists>fed\<in>set (feeds (WatchdogFeedGate_default\<lparr>runtime_heartbeat := 7, pd_heartbeat := 3, armed := True, runtime_started := True\<rparr>)
      [\<lparr>boot = 1, runtime = 7, pd = 4, pd_required = True\<rparr>, \<lparr>boot = 1, runtime = 8, pd = 3, pd_required = True\<rparr>]). fed)"
  using stalled_task_starves_watchdog [of WatchdogFeedGate_default "\<lparr>boot = 1, runtime = 7, pd = 3, pd_required = True\<rparr>"
    "WatchdogFeedGate_default\<lparr>runtime_heartbeat := 7, pd_heartbeat := 3, armed := True, runtime_started := True\<rparr>"
    "[\<lparr>boot = 1, runtime = 7, pd = 4, pd_required = True\<rparr>, \<lparr>boot = 1, runtime = 8, pd = 3, pd_required = True\<rparr>]"]
  by (simp add: observe_heartbeats_def WatchdogFeedGate_default_def stalled_def)

text \<open>Consecutive samples in which every counter that matters has moved.\<close>

fun moving :: "HeartbeatSample list \<Rightarrow> bool" where
  "moving (x # y # ys) \<longleftrightarrow> (runtime x \<noteq> 0 \<longrightarrow> runtime y \<noteq> 0) \<and> \<not> stalled x y \<and> moving (y # ys)"
| "moving _ \<longleftrightarrow> True"

definition alive :: "HeartbeatSample \<Rightarrow> bool" where
  "alive x \<longleftrightarrow> (if runtime x = 0 then boot x \<noteq> 0 else pd_required x \<longrightarrow> pd x \<noteq> 0)"

definition fed_at :: "HeartbeatSample \<Rightarrow> WatchdogFeedGate \<Rightarrow> bool" where
  "fed_at x g \<longleftrightarrow> seen x g \<and> (runtime x = 0 \<longrightarrow> \<not> runtime_started g)"

lemma moving_is_fed:
  assumes "fed_at x g" "alive y" "runtime x \<noteq> 0 \<longrightarrow> runtime y \<noteq> 0" "\<not> stalled x y"
  shows "\<exists>g'. observe_heartbeats g (boot y) (runtime y) (pd y) (pd_required y) = (g', True) \<and> fed_at y g'"
  using assms by (auto simp: observe_heartbeats_def seen_def fed_at_def alive_def stalled_def split: if_splits)

lemma moving_run_is_fed: "fed_at x g \<Longrightarrow> moving (x # ys) \<Longrightarrow> list_all alive ys \<Longrightarrow> feeds g ys = replicate (length ys) True"
proof (induction ys arbitrary: x g)
  case (Cons y ys)
  then obtain g' where "observe_heartbeats g (boot y) (runtime y) (pd y) (pd_required y) = (g', True)" "fed_at y g'"
    using moving_is_fed [of x g y] by auto
  then show ?case using Cons.IH [of y g'] Cons.prems by simp
qed simp

text \<open>
  \<^bold>\<open>A healthy device is fed in every round.\<close> From reset, through the boot sequence and into the runtime, if in every sample
  the counters that matter are running and have moved since the sample before, every round feeds the watchdog:
  the gate never resets a device that works.
\<close>

theorem healthy_device_is_always_fed:
  assumes "list_all alive xs" "moving xs"
  shows "feeds WatchdogFeedGate_default xs = replicate (length xs) True"
proof (cases xs)
  case (Cons x ys)
  then obtain g where "observe_heartbeats WatchdogFeedGate_default (boot x) (runtime x) (pd x) (pd_required x) = (g, True)" "fed_at x g"
    using assms(1) by (auto simp: observe_heartbeats_def WatchdogFeedGate_default_def alive_def fed_at_def seen_def split: if_splits)
  then show ?thesis using moving_run_is_fed [of x g ys] assms Cons by simp
qed simp

theorem healthy_device_is_always_fed_witness:
  "feeds WatchdogFeedGate_default
     [\<lparr>boot = 1, runtime = 0, pd = 0, pd_required = False\<rparr>, \<lparr>boot = 2, runtime = 0, pd = 0, pd_required = False\<rparr>,
      \<lparr>boot = 2, runtime = 1, pd = 1, pd_required = True\<rparr>, \<lparr>boot = 2, runtime = 2, pd = 4, pd_required = True\<rparr>]
   = [True, True, True, True]"
  by (subst healthy_device_is_always_fed) (simp_all add: alive_def stalled_def)

end
