(* ===== verification/Thermal_Profile.thy ===== *)
theory Thermal_Profile
  imports Front_Panel_Ui
begin

text \<open>
  Thermal control profiles, the part of \<open>src/firmware/src/memory.rs\<close> that holds, cleans and stores
  them: the settings and up to ten target points, \<open>sanitize_thermal_control_profile\<close>, the packed
  layout \<open>TCP3\<close> the firmware writes, and the older layouts it still reads.

  A temperature of type \<open>i16\<close> is an \<open>int\<close> and becomes a \<open>u16\<close> only in storage. Arrays of options are
  lists of their fixed length. \<open>sort_unstable_by_key\<close> is a stable sort by the key, which is what
  \<open>core\<close> does on slices this short. Encoders return the bytes they write at the start of the caller's
  zeroed local buffer.

  The lemmas show that cleaning is idempotent and bounds every field, that a cleaned profile in
  canonical form survives the packed layout, and that every payload is decoded without reading past it.
\<close>

section \<open>Data\<close>

definition THERMAL_CONTROL_PROFILE_MAX_POINTS :: nat where
  [simp]: "THERMAL_CONTROL_PROFILE_MAX_POINTS = FRONTPANEL_PRESET_COUNT"
definition THERMAL_CONTROL_PROFILE_BRAKE_DISTANCE_MIN_CENTI_C :: u16 where
  [simp]: "THERMAL_CONTROL_PROFILE_BRAKE_DISTANCE_MIN_CENTI_C = 60"
definition THERMAL_CONTROL_PROFILE_PERSISTED_MAX_POINTS :: nat where
  [simp]: "THERMAL_CONTROL_PROFILE_PERSISTED_MAX_POINTS = THERMAL_CONTROL_PROFILE_MAX_POINTS"
definition THERMAL_CONTROL_PROFILE_TEMP_FILTER_ALPHA_PERMILLE_DEFAULT :: u16 where
  [simp]: "THERMAL_CONTROL_PROFILE_TEMP_FILTER_ALPHA_PERMILLE_DEFAULT = 750"
definition THERMAL_CONTROL_PROFILE_WARMUP_REENTER_CENTI_C_DEFAULT :: u16 where
  [simp]: "THERMAL_CONTROL_PROFILE_WARMUP_REENTER_CENTI_C_DEFAULT = 400"
definition THERMAL_CONTROL_PROFILE_HOLD_ENTRY_CENTI_C_DEFAULT :: u16 where
  [simp]: "THERMAL_CONTROL_PROFILE_HOLD_ENTRY_CENTI_C_DEFAULT = 90"
definition THERMAL_CONTROL_PROFILE_HOLD_EXIT_CENTI_C_DEFAULT :: u16 where
  [simp]: "THERMAL_CONTROL_PROFILE_HOLD_EXIT_CENTI_C_DEFAULT = 200"
definition THERMAL_CONTROL_PROFILE_HOLD_ON_CENTI_C_DEFAULT :: u16 where
  [simp]: "THERMAL_CONTROL_PROFILE_HOLD_ON_CENTI_C_DEFAULT = 30"
definition THERMAL_CONTROL_PROFILE_HOLD_OFF_CENTI_C_DEFAULT :: u16 where
  [simp]: "THERMAL_CONTROL_PROFILE_HOLD_OFF_CENTI_C_DEFAULT = 5"
definition THERMAL_CONTROL_PROFILE_OVERSHOOT_CUTOFF_CENTI_C_DEFAULT :: u16 where
  [simp]: "THERMAL_CONTROL_PROFILE_OVERSHOOT_CUTOFF_CENTI_C_DEFAULT = 25"
definition THERMAL_CONTROL_PROFILE_APPROACH_MAX_TICKS_DEFAULT :: u16 where
  [simp]: "THERMAL_CONTROL_PROFILE_APPROACH_MAX_TICKS_DEFAULT = 5"
definition THERMAL_CONTROL_PROFILE_APPROACH_MAX_TICKS_MAX :: u16 where
  [simp]: "THERMAL_CONTROL_PROFILE_APPROACH_MAX_TICKS_MAX = 255"
definition THERMAL_CONTROL_PROFILE_APPROACH_MIN_POWER_RATIO_PERMILLE_DEFAULT :: u16 where
  [simp]: "THERMAL_CONTROL_PROFILE_APPROACH_MIN_POWER_RATIO_PERMILLE_DEFAULT = 0"
definition THERMAL_CONTROL_PROFILE_HOLD_KP_PERMILLE_PER_C_DEFAULT :: u16 where
  [simp]: "THERMAL_CONTROL_PROFILE_HOLD_KP_PERMILLE_PER_C_DEFAULT = 120"
definition THERMAL_CONTROL_PROFILE_HOLD_KI_PERMILLE_PER_C_TICK_DEFAULT :: u16 where
  [simp]: "THERMAL_CONTROL_PROFILE_HOLD_KI_PERMILLE_PER_C_TICK_DEFAULT = 12"
definition THERMAL_CONTROL_PROFILE_HOLD_BLEND_TICKS_DEFAULT :: u16 where
  [simp]: "THERMAL_CONTROL_PROFILE_HOLD_BLEND_TICKS_DEFAULT = 12"
definition THERMAL_CONTROL_PROFILE_HOLD_REHEAT_POWER_PERMILLE_DEFAULT :: u16 where
  [simp]: "THERMAL_CONTROL_PROFILE_HOLD_REHEAT_POWER_PERMILLE_DEFAULT = 0"
definition THERMAL_CONTROL_PROFILE_APPROACH_LEAD_TICKS_DEFAULT :: u16 where
  [simp]: "THERMAL_CONTROL_PROFILE_APPROACH_LEAD_TICKS_DEFAULT = 0"
definition THERMAL_CONTROL_PROFILE_HOLD_LEAD_TICKS_DEFAULT :: u16 where
  [simp]: "THERMAL_CONTROL_PROFILE_HOLD_LEAD_TICKS_DEFAULT = 0"
definition THERMAL_CONTROL_PROFILE_APPROACH_DAMPING_EXPONENT_PERMILLE_DEFAULT :: u16 where
  [simp]: "THERMAL_CONTROL_PROFILE_APPROACH_DAMPING_EXPONENT_PERMILLE_DEFAULT = 1000"
definition THERMAL_CONTROL_PROFILE_APPROACH_DAMPING_EXPONENT_PERMILLE_MAX :: u16 where
  [simp]: "THERMAL_CONTROL_PROFILE_APPROACH_DAMPING_EXPONENT_PERMILLE_MAX = 4000"
definition THERMAL_CONTROL_PROFILE_APPROACH_TAIL_WINDOW_CENTI_C_MAX :: u16 where
  [simp]: "THERMAL_CONTROL_PROFILE_APPROACH_TAIL_WINDOW_CENTI_C_MAX = 375"
definition THERMAL_CONTROL_PROFILE_AUTO_ADJUSTABLE_WORKING_FLOOR_MV_DEFAULT :: u16 where
  [simp]: "THERMAL_CONTROL_PROFILE_AUTO_ADJUSTABLE_WORKING_FLOOR_MV_DEFAULT = 5000"
definition THERMAL_CONTROL_PROFILE_AUTO_ADJUSTABLE_WORKING_FLOOR_MV_MIN :: u16 where
  [simp]: "THERMAL_CONTROL_PROFILE_AUTO_ADJUSTABLE_WORKING_FLOOR_MV_MIN = 5000"
definition THERMAL_CONTROL_PROFILE_AUTO_ADJUSTABLE_WORKING_FLOOR_MV_MAX :: u16 where
  [simp]: "THERMAL_CONTROL_PROFILE_AUTO_ADJUSTABLE_WORKING_FLOOR_MV_MAX = 28000"
definition THERMAL_CONTROL_PROFILE_HEATER_CURRENT_RESERVE_MA_DEFAULT :: u16 where
  [simp]: "THERMAL_CONTROL_PROFILE_HEATER_CURRENT_RESERVE_MA_DEFAULT = 200"
definition THERMAL_CONTROL_PROFILE_HEATER_CURRENT_RESERVE_MA_MAX :: u16 where
  [simp]: "THERMAL_CONTROL_PROFILE_HEATER_CURRENT_RESERVE_MA_MAX = 1000"

record ThermalControlProfilePointConfig =
  pt_target_temp_c :: i16
  pt_brake_distance_centi_c :: u16
  pt_warmup_power_permille :: u16
  pt_warmup_reenter_centi_c :: u16
  pt_approach_power_permille :: u16
  pt_approach_floor_power_permille :: u16
  pt_approach_damping_exponent_permille :: u16
  pt_approach_tail_window_centi_c :: u16
  pt_hold_power_permille :: u16
  pt_hold_reheat_power_permille :: u16
  pt_hold_entry_centi_c :: u16
  pt_hold_exit_centi_c :: u16
  pt_hold_on_centi_c :: u16
  pt_hold_off_centi_c :: u16
  pt_overshoot_cutoff_centi_c :: u16
  pt_hold_kp_permille_per_c :: u16
  pt_hold_ki_permille_per_c_tick :: u16
  pt_hold_blend_ticks :: u16
  pt_approach_lead_ticks :: u16
  pt_hold_lead_ticks :: u16

record ThermalControlProfileSettingsConfig =
  st_temp_filter_alpha_permille :: u16
  st_warmup_reenter_centi_c :: u16
  st_hold_entry_centi_c :: u16
  st_hold_exit_centi_c :: u16
  st_hold_on_centi_c :: u16
  st_hold_off_centi_c :: u16
  st_overshoot_cutoff_centi_c :: u16
  st_approach_max_ticks :: u16
  st_approach_min_power_ratio_permille :: u16
  st_hold_kp_permille_per_c :: u16
  st_hold_ki_permille_per_c_tick :: u16
  st_hold_blend_ticks :: u16
  st_hold_reheat_power_permille :: u16
  st_approach_lead_ticks :: u16
  st_hold_lead_ticks :: u16
  st_auto_adjustable_working_floor_mv :: u16
  st_heater_current_reserve_ma :: u16

record ThermalControlProfileConfig =
  profile_settings :: ThermalControlProfileSettingsConfig
  profile_points :: "ThermalControlProfilePointConfig option list"

definition ThermalControlProfileSettingsConfig_default :: ThermalControlProfileSettingsConfig where
  "ThermalControlProfileSettingsConfig_default =
     \<lparr>st_temp_filter_alpha_permille = THERMAL_CONTROL_PROFILE_TEMP_FILTER_ALPHA_PERMILLE_DEFAULT,
      st_warmup_reenter_centi_c = THERMAL_CONTROL_PROFILE_WARMUP_REENTER_CENTI_C_DEFAULT,
      st_hold_entry_centi_c = THERMAL_CONTROL_PROFILE_HOLD_ENTRY_CENTI_C_DEFAULT,
      st_hold_exit_centi_c = THERMAL_CONTROL_PROFILE_HOLD_EXIT_CENTI_C_DEFAULT,
      st_hold_on_centi_c = THERMAL_CONTROL_PROFILE_HOLD_ON_CENTI_C_DEFAULT,
      st_hold_off_centi_c = THERMAL_CONTROL_PROFILE_HOLD_OFF_CENTI_C_DEFAULT,
      st_overshoot_cutoff_centi_c = THERMAL_CONTROL_PROFILE_OVERSHOOT_CUTOFF_CENTI_C_DEFAULT,
      st_approach_max_ticks = THERMAL_CONTROL_PROFILE_APPROACH_MAX_TICKS_DEFAULT,
      st_approach_min_power_ratio_permille = THERMAL_CONTROL_PROFILE_APPROACH_MIN_POWER_RATIO_PERMILLE_DEFAULT,
      st_hold_kp_permille_per_c = THERMAL_CONTROL_PROFILE_HOLD_KP_PERMILLE_PER_C_DEFAULT,
      st_hold_ki_permille_per_c_tick = THERMAL_CONTROL_PROFILE_HOLD_KI_PERMILLE_PER_C_TICK_DEFAULT,
      st_hold_blend_ticks = THERMAL_CONTROL_PROFILE_HOLD_BLEND_TICKS_DEFAULT,
      st_hold_reheat_power_permille = THERMAL_CONTROL_PROFILE_HOLD_REHEAT_POWER_PERMILLE_DEFAULT,
      st_approach_lead_ticks = THERMAL_CONTROL_PROFILE_APPROACH_LEAD_TICKS_DEFAULT,
      st_hold_lead_ticks = THERMAL_CONTROL_PROFILE_HOLD_LEAD_TICKS_DEFAULT,
      st_auto_adjustable_working_floor_mv = THERMAL_CONTROL_PROFILE_AUTO_ADJUSTABLE_WORKING_FLOOR_MV_DEFAULT,
      st_heater_current_reserve_ma = THERMAL_CONTROL_PROFILE_HEATER_CURRENT_RESERVE_MA_DEFAULT\<rparr>"

definition ThermalControlProfileConfig_default :: ThermalControlProfileConfig where
  "ThermalControlProfileConfig_default =
     \<lparr>profile_settings = ThermalControlProfileSettingsConfig_default,
      profile_points = replicate THERMAL_CONTROL_PROFILE_MAX_POINTS None\<rparr>"

section \<open>Cleaning\<close>

definition clamp_temp_c :: "i16 \<Rightarrow> i16" where
  "clamp_temp_c v =
     (if v < FRONTPANEL_TARGET_TEMP_MIN_C then FRONTPANEL_TARGET_TEMP_MIN_C
      else if v > FRONTPANEL_TARGET_TEMP_MAX_C then FRONTPANEL_TARGET_TEMP_MAX_C else v)"

definition default_or_min :: "u16 \<Rightarrow> u16 \<Rightarrow> u16 \<Rightarrow> u16" where
  "default_or_min v d m = (if v = 0 then d else min v m)"

definition sanitize_thermal_profile_settings ::
  "ThermalControlProfileSettingsConfig \<Rightarrow> ThermalControlProfileSettingsConfig" where
  "sanitize_thermal_profile_settings s =
     \<lparr>st_temp_filter_alpha_permille = clamp 1 1000 (st_temp_filter_alpha_permille s),
      st_warmup_reenter_centi_c = clamp 50 5000 (st_warmup_reenter_centi_c s),
      st_hold_entry_centi_c = clamp 1 5000 (st_hold_entry_centi_c s),
      st_hold_exit_centi_c = clamp 1 5000 (st_hold_exit_centi_c s),
      st_hold_on_centi_c = clamp 1 5000 (st_hold_on_centi_c s),
      st_hold_off_centi_c = clamp 0 5000 (st_hold_off_centi_c s),
      st_overshoot_cutoff_centi_c = clamp 1 5000 (st_overshoot_cutoff_centi_c s),
      st_approach_max_ticks = clamp 1 THERMAL_CONTROL_PROFILE_APPROACH_MAX_TICKS_MAX (st_approach_max_ticks s),
      st_approach_min_power_ratio_permille = min (st_approach_min_power_ratio_permille s) 1000,
      st_hold_kp_permille_per_c = min (st_hold_kp_permille_per_c s) 10000,
      st_hold_ki_permille_per_c_tick = min (st_hold_ki_permille_per_c_tick s) 10000,
      st_hold_blend_ticks = clamp 1 THERMAL_CONTROL_PROFILE_APPROACH_MAX_TICKS_MAX (st_hold_blend_ticks s),
      st_hold_reheat_power_permille = min (st_hold_reheat_power_permille s) 1000,
      st_approach_lead_ticks = min (st_approach_lead_ticks s) THERMAL_CONTROL_PROFILE_APPROACH_MAX_TICKS_MAX,
      st_hold_lead_ticks = min (st_hold_lead_ticks s) THERMAL_CONTROL_PROFILE_APPROACH_MAX_TICKS_MAX,
      st_auto_adjustable_working_floor_mv =
        clamp THERMAL_CONTROL_PROFILE_AUTO_ADJUSTABLE_WORKING_FLOOR_MV_MIN
          THERMAL_CONTROL_PROFILE_AUTO_ADJUSTABLE_WORKING_FLOOR_MV_MAX (st_auto_adjustable_working_floor_mv s),
      st_heater_current_reserve_ma =
        min (st_heater_current_reserve_ma s) THERMAL_CONTROL_PROFILE_HEATER_CURRENT_RESERVE_MA_MAX\<rparr>"

definition sanitize_thermal_profile_point ::
  "ThermalControlProfilePointConfig \<Rightarrow> ThermalControlProfileSettingsConfig \<Rightarrow> ThermalControlProfilePointConfig" where
  "sanitize_thermal_profile_point p s =
     \<lparr>pt_target_temp_c = clamp_temp_c (pt_target_temp_c p),
      pt_brake_distance_centi_c =
        clamp THERMAL_CONTROL_PROFILE_BRAKE_DISTANCE_MIN_CENTI_C 5000 (pt_brake_distance_centi_c p),
      pt_warmup_power_permille = min (pt_warmup_power_permille p) 1000,
      pt_warmup_reenter_centi_c =
        (if pt_warmup_reenter_centi_c p = 0 then st_warmup_reenter_centi_c s
         else clamp 50 5000 (pt_warmup_reenter_centi_c p)),
      pt_approach_power_permille = min (pt_approach_power_permille p) 1000,
      pt_approach_floor_power_permille = min (pt_approach_floor_power_permille p) 1000,
      pt_approach_damping_exponent_permille =
        (if pt_approach_damping_exponent_permille p = 0
         then THERMAL_CONTROL_PROFILE_APPROACH_DAMPING_EXPONENT_PERMILLE_DEFAULT
         else clamp 100 THERMAL_CONTROL_PROFILE_APPROACH_DAMPING_EXPONENT_PERMILLE_MAX
                (pt_approach_damping_exponent_permille p)),
      pt_approach_tail_window_centi_c =
        min (pt_approach_tail_window_centi_c p) THERMAL_CONTROL_PROFILE_APPROACH_TAIL_WINDOW_CENTI_C_MAX,
      pt_hold_power_permille = min (pt_hold_power_permille p) 1000,
      pt_hold_reheat_power_permille =
        (if pt_hold_reheat_power_permille p = 0 then st_hold_reheat_power_permille s
         else min (pt_hold_reheat_power_permille p) 1000),
      pt_hold_entry_centi_c = default_or_min (pt_hold_entry_centi_c p) (st_hold_entry_centi_c s) 5000,
      pt_hold_exit_centi_c = default_or_min (pt_hold_exit_centi_c p) (st_hold_exit_centi_c s) 5000,
      pt_hold_on_centi_c = default_or_min (pt_hold_on_centi_c p) (st_hold_on_centi_c s) 5000,
      pt_hold_off_centi_c = default_or_min (pt_hold_off_centi_c p) (st_hold_off_centi_c s) 5000,
      pt_overshoot_cutoff_centi_c =
        default_or_min (pt_overshoot_cutoff_centi_c p) (st_overshoot_cutoff_centi_c s) 5000,
      pt_hold_kp_permille_per_c =
        default_or_min (pt_hold_kp_permille_per_c p) (st_hold_kp_permille_per_c s) 10000,
      pt_hold_ki_permille_per_c_tick =
        default_or_min (pt_hold_ki_permille_per_c_tick p) (st_hold_ki_permille_per_c_tick s) 10000,
      pt_hold_blend_ticks =
        default_or_min (pt_hold_blend_ticks p) (st_hold_blend_ticks s) THERMAL_CONTROL_PROFILE_APPROACH_MAX_TICKS_MAX,
      pt_approach_lead_ticks = min (pt_approach_lead_ticks p) THERMAL_CONTROL_PROFILE_APPROACH_MAX_TICKS_MAX,
      pt_hold_lead_ticks = min (pt_hold_lead_ticks p) THERMAL_CONTROL_PROFILE_APPROACH_MAX_TICKS_MAX\<rparr>"

definition sanitize_thermal_control_profile :: "ThermalControlProfileConfig \<Rightarrow> ThermalControlProfileConfig" where
  "sanitize_thermal_control_profile c =
     (let settings = sanitize_thermal_profile_settings (profile_settings c);
          points = sort_key pt_target_temp_c
            (map (\<lambda>p. sanitize_thermal_profile_point p settings) (flatten (profile_points c)))
      in \<lparr>profile_settings = settings,
          profile_points = pack THERMAL_CONTROL_PROFILE_MAX_POINTS
            (take THERMAL_CONTROL_PROFILE_PERSISTED_MAX_POINTS points)\<rparr>)"

text \<open>The form in which a profile is persisted: once a point exists, the settings every point carries
  itself are back at their defaults.\<close>

definition canonical_profile_for_persistence :: "ThermalControlProfileConfig \<Rightarrow> ThermalControlProfileConfig" where
  "canonical_profile_for_persistence p =
     (let profile = sanitize_thermal_control_profile p in
      if list_ex (\<lambda>q. q \<noteq> None) (profile_points profile)
      then profile\<lparr>profile_settings := (profile_settings profile)
        \<lparr>st_warmup_reenter_centi_c := THERMAL_CONTROL_PROFILE_WARMUP_REENTER_CENTI_C_DEFAULT,
         st_hold_entry_centi_c := THERMAL_CONTROL_PROFILE_HOLD_ENTRY_CENTI_C_DEFAULT,
         st_hold_exit_centi_c := THERMAL_CONTROL_PROFILE_HOLD_EXIT_CENTI_C_DEFAULT,
         st_hold_on_centi_c := THERMAL_CONTROL_PROFILE_HOLD_ON_CENTI_C_DEFAULT,
         st_hold_off_centi_c := THERMAL_CONTROL_PROFILE_HOLD_OFF_CENTI_C_DEFAULT,
         st_overshoot_cutoff_centi_c := THERMAL_CONTROL_PROFILE_OVERSHOOT_CUTOFF_CENTI_C_DEFAULT,
         st_hold_kp_permille_per_c := THERMAL_CONTROL_PROFILE_HOLD_KP_PERMILLE_PER_C_DEFAULT,
         st_hold_ki_permille_per_c_tick := THERMAL_CONTROL_PROFILE_HOLD_KI_PERMILLE_PER_C_TICK_DEFAULT,
         st_hold_blend_ticks := THERMAL_CONTROL_PROFILE_HOLD_BLEND_TICKS_DEFAULT,
         st_hold_reheat_power_permille := THERMAL_CONTROL_PROFILE_HOLD_REHEAT_POWER_PERMILLE_DEFAULT,
         st_approach_lead_ticks := THERMAL_CONTROL_PROFILE_APPROACH_LEAD_TICKS_DEFAULT,
         st_hold_lead_ticks := THERMAL_CONTROL_PROFILE_HOLD_LEAD_TICKS_DEFAULT\<rparr>\<rparr>
      else profile)"

section \<open>The packed layout\<close>

definition PRESET_NONE_WIRE_VALUE :: i16 where [simp]: "PRESET_NONE_WIRE_VALUE = - 32768"
definition CALIBRATION_NONE_WIRE_VALUE :: u16 where [simp]: "CALIBRATION_NONE_WIRE_VALUE = 65535"
definition THERMAL_CONTROL_PROFILE_SETTINGS_PAYLOAD_LEN_LEGACY :: nat where
  [simp]: "THERMAL_CONTROL_PROFILE_SETTINGS_PAYLOAD_LEN_LEGACY = 10 * 2"
definition THERMAL_CONTROL_PROFILE_SETTINGS_PAYLOAD_LEN_WITH_APPROACH_MIN_RATIO :: nat where
  [simp]: "THERMAL_CONTROL_PROFILE_SETTINGS_PAYLOAD_LEN_WITH_APPROACH_MIN_RATIO = 11 * 2"
definition THERMAL_CONTROL_PROFILE_SETTINGS_PAYLOAD_LEN_WITH_LEAD_TICKS :: nat where
  [simp]: "THERMAL_CONTROL_PROFILE_SETTINGS_PAYLOAD_LEN_WITH_LEAD_TICKS = 14 * 2"
definition THERMAL_CONTROL_PROFILE_SETTINGS_PAYLOAD_LEN_WITH_HOLD_REHEAT :: nat where
  [simp]: "THERMAL_CONTROL_PROFILE_SETTINGS_PAYLOAD_LEN_WITH_HOLD_REHEAT = 15 * 2"
definition THERMAL_CONTROL_PROFILE_SETTINGS_PAYLOAD_LEN_PREVIOUS :: nat where
  [simp]: "THERMAL_CONTROL_PROFILE_SETTINGS_PAYLOAD_LEN_PREVIOUS = 18 * 2"
definition THERMAL_CONTROL_PROFILE_SETTINGS_PAYLOAD_LEN :: nat where
  [simp]: "THERMAL_CONTROL_PROFILE_SETTINGS_PAYLOAD_LEN = 17 * 2"
definition THERMAL_CONTROL_PROFILE_SETTINGS_PAYLOAD_LEN_WITH_GLOBALS_ONLY :: nat where
  [simp]: "THERMAL_CONTROL_PROFILE_SETTINGS_PAYLOAD_LEN_WITH_GLOBALS_ONLY = 7 * 2"
definition THERMAL_CONTROL_PROFILE_POINT_PAYLOAD_LEN_LEGACY :: nat where
  [simp]: "THERMAL_CONTROL_PROFILE_POINT_PAYLOAD_LEN_LEGACY = 8"
definition THERMAL_CONTROL_PROFILE_POINT_PAYLOAD_LEN_WITH_LEAD_TICKS :: nat where
  [simp]: "THERMAL_CONTROL_PROFILE_POINT_PAYLOAD_LEN_WITH_LEAD_TICKS = 28"
definition THERMAL_CONTROL_PROFILE_POINT_PAYLOAD_LEN_WITH_HOLD_REHEAT :: nat where
  [simp]: "THERMAL_CONTROL_PROFILE_POINT_PAYLOAD_LEN_WITH_HOLD_REHEAT = 30"
definition THERMAL_CONTROL_PROFILE_POINT_PAYLOAD_LEN_WITH_WARMUP :: nat where
  [simp]: "THERMAL_CONTROL_PROFILE_POINT_PAYLOAD_LEN_WITH_WARMUP = 32"
definition THERMAL_CONTROL_PROFILE_POINT_PAYLOAD_LEN :: nat where
  [simp]: "THERMAL_CONTROL_PROFILE_POINT_PAYLOAD_LEN = 34"
definition THERMAL_CONTROL_PROFILE_POINT_PAYLOAD_LEN_WITH_POINT_HOLD_ON :: nat where
  [simp]: "THERMAL_CONTROL_PROFILE_POINT_PAYLOAD_LEN_WITH_POINT_HOLD_ON = 36"
definition THERMAL_CONTROL_PROFILE_POINT_PAYLOAD_LEN_WITH_POINT_WARMUP_REENTER :: nat where
  [simp]: "THERMAL_CONTROL_PROFILE_POINT_PAYLOAD_LEN_WITH_POINT_WARMUP_REENTER = 38"

text \<open>The markers \<open>TCP2\<close> and \<open>TCP3\<close>.\<close>

definition THERMAL_CONTROL_PROFILE_LAYOUT_MARKER :: "u8 list" where
  [simp]: "THERMAL_CONTROL_PROFILE_LAYOUT_MARKER = [0x54, 0x43, 0x50, 0x32]"
definition THERMAL_CONTROL_PROFILE_LAYOUT_MARKER_LEN :: nat where
  [simp]: "THERMAL_CONTROL_PROFILE_LAYOUT_MARKER_LEN = 4"
definition THERMAL_CONTROL_PROFILE_PACKED_LAYOUT_MARKER :: "u8 list" where
  [simp]: "THERMAL_CONTROL_PROFILE_PACKED_LAYOUT_MARKER = [0x54, 0x43, 0x50, 0x33]"
definition THERMAL_CONTROL_PROFILE_PACKED_LAYOUT_MARKER_LEN :: nat where
  [simp]: "THERMAL_CONTROL_PROFILE_PACKED_LAYOUT_MARKER_LEN = 4"
definition THERMAL_CONTROL_PROFILE_PACKED_POINT_PAYLOAD_LEN :: nat where
  [simp]: "THERMAL_CONTROL_PROFILE_PACKED_POINT_PAYLOAD_LEN = 28"
definition THERMAL_CONTROL_PROFILE_APPROACH_DAMPING_VALUE_MASK :: u16 where
  [simp]: "THERMAL_CONTROL_PROFILE_APPROACH_DAMPING_VALUE_MASK = 0xfff"
definition THERMAL_CONTROL_PROFILE_APPROACH_TAIL_WINDOW_STEP_CENTI_C :: u16 where
  [simp]: "THERMAL_CONTROL_PROFILE_APPROACH_TAIL_WINDOW_STEP_CENTI_C = 25"

definition write_packed_profile_value :: "u8 list \<Rightarrow> nat \<Rightarrow> u16 \<Rightarrow> nat \<Rightarrow> u8 list \<times> nat" where
  "write_packed_profile_value out bit_cursor v width =
     (fold (\<lambda>b out.
        if (ucast v :: u32) AND push_bit b 1 \<noteq> 0
        then let index = bit_cursor + b in out[index div 8 := out ! (index div 8) OR push_bit (index mod 8) 1]
        else out) [0..<width] out, bit_cursor + width)"

definition read_packed_profile_value :: "u8 list \<Rightarrow> nat \<Rightarrow> nat \<Rightarrow> u16 \<times> nat" where
  "read_packed_profile_value bs bit_cursor width =
     (fold (\<lambda>b v.
        let index = bit_cursor + b in
        if bs ! (index div 8) AND push_bit (index mod 8) 1 \<noteq> 0 then v OR push_bit b 1 else v) [0..<width] 0,
      bit_cursor + width)"

text \<open>Successive calls that share the cursor.\<close>

fun write_packed_profile_values :: "u8 list \<Rightarrow> nat \<Rightarrow> (u16 \<times> nat) list \<Rightarrow> u8 list" where
  "write_packed_profile_values out bit_cursor [] = out"
| "write_packed_profile_values out bit_cursor ((v, width) # vs) =
     (let (out, bit_cursor) = write_packed_profile_value out bit_cursor v width
      in write_packed_profile_values out bit_cursor vs)"

fun read_packed_profile_values :: "u8 list \<Rightarrow> nat \<Rightarrow> nat list \<Rightarrow> u16 list" where
  "read_packed_profile_values bs bit_cursor [] = []"
| "read_packed_profile_values bs bit_cursor (width # ws) =
     (let (v, bit_cursor) = read_packed_profile_value bs bit_cursor width
      in v # read_packed_profile_values bs bit_cursor ws)"

definition packed_widths :: "nat list" where
  "packed_widths = [9, 13, 10, 10, 10, 12, 9, 10, 10, 13, 13, 13, 13, 13, 14, 14, 8, 8, 8, 13]"

definition packed_values :: "ThermalControlProfilePointConfig \<Rightarrow> u16 list" where
  "packed_values p =
     [word_of_int (clamp_temp_c (pt_target_temp_c p)),
      clamp THERMAL_CONTROL_PROFILE_BRAKE_DISTANCE_MIN_CENTI_C 5000 (pt_brake_distance_centi_c p),
      min (pt_warmup_power_permille p) 1000,
      min (pt_approach_power_permille p) 1000,
      min (pt_approach_floor_power_permille p) 1000,
      clamp 100 THERMAL_CONTROL_PROFILE_APPROACH_DAMPING_EXPONENT_PERMILLE_MAX
        (pt_approach_damping_exponent_permille p),
      min (pt_approach_tail_window_centi_c p) THERMAL_CONTROL_PROFILE_APPROACH_TAIL_WINDOW_CENTI_C_MAX,
      min (pt_hold_power_permille p) 1000,
      min (pt_hold_reheat_power_permille p) 1000,
      min (pt_hold_entry_centi_c p) 5000,
      min (pt_hold_exit_centi_c p) 5000,
      min (pt_hold_on_centi_c p) 5000,
      min (pt_hold_off_centi_c p) 5000,
      min (pt_overshoot_cutoff_centi_c p) 5000,
      min (pt_hold_kp_permille_per_c p) 10000,
      min (pt_hold_ki_permille_per_c_tick p) 10000,
      min (pt_hold_blend_ticks p) THERMAL_CONTROL_PROFILE_APPROACH_MAX_TICKS_MAX,
      min (pt_approach_lead_ticks p) THERMAL_CONTROL_PROFILE_APPROACH_MAX_TICKS_MAX,
      min (pt_hold_lead_ticks p) THERMAL_CONTROL_PROFILE_APPROACH_MAX_TICKS_MAX,
      clamp 50 5000 (pt_warmup_reenter_centi_c p)]"

definition encode_packed_profile_point :: "ThermalControlProfilePointConfig \<Rightarrow> u8 list" where
  "encode_packed_profile_point p =
     write_packed_profile_values (replicate THERMAL_CONTROL_PROFILE_PACKED_POINT_PAYLOAD_LEN 0) 0
       (zip (packed_values p) packed_widths)"

definition encode_thermal_control_profile_settings :: "ThermalControlProfileSettingsConfig \<Rightarrow> u8 list" where
  "encode_thermal_control_profile_settings s =
     concat (map (to_le_bytes 2)
       [st_temp_filter_alpha_permille s, st_approach_max_ticks s, st_approach_min_power_ratio_permille s,
        st_auto_adjustable_working_floor_mv s, st_heater_current_reserve_ma s, 0, 0 :: u16])"

definition encode_thermal_control_profile :: "ThermalControlProfileConfig \<Rightarrow> u8 list" where
  "encode_thermal_control_profile c =
     THERMAL_CONTROL_PROFILE_PACKED_LAYOUT_MARKER
     @ encode_thermal_control_profile_settings (profile_settings c)
     @ concat (map encode_packed_profile_point
         (take THERMAL_CONTROL_PROFILE_PERSISTED_MAX_POINTS (flatten (profile_points c))))"

definition decode_packed_profile_point :: "u8 list \<Rightarrow> ThermalControlProfilePointConfig" where
  "decode_packed_profile_point packed =
     (let f = read_packed_profile_values packed 0 packed_widths in
      \<lparr>pt_target_temp_c = sint (f ! 0), pt_brake_distance_centi_c = f ! 1, pt_warmup_power_permille = f ! 2,
       pt_warmup_reenter_centi_c = f ! 19, pt_approach_power_permille = f ! 3,
       pt_approach_floor_power_permille = f ! 4, pt_approach_damping_exponent_permille = f ! 5,
       pt_approach_tail_window_centi_c = f ! 6, pt_hold_power_permille = f ! 7,
       pt_hold_reheat_power_permille = f ! 8, pt_hold_entry_centi_c = f ! 9, pt_hold_exit_centi_c = f ! 10,
       pt_hold_on_centi_c = f ! 11, pt_hold_off_centi_c = f ! 12, pt_overshoot_cutoff_centi_c = f ! 13,
       pt_hold_kp_permille_per_c = f ! 14, pt_hold_ki_permille_per_c_tick = f ! 15, pt_hold_blend_ticks = f ! 16,
       pt_approach_lead_ticks = f ! 17, pt_hold_lead_ticks = f ! 18\<rparr>)"

section \<open>Settings of every layout\<close>

definition profile_settings_values :: "u8 list \<Rightarrow> u16 list" where
  "profile_settings_values bs =
     map (\<lambda>index. let cursor = index * 2 in
       if cursor + 1 < length bs then from_le_bytes [bs ! cursor, bs ! (cursor + 1)] else 0) [0..<18]"

definition decode_global_profile_settings :: "u16 list \<Rightarrow> ThermalControlProfileSettingsConfig" where
  "decode_global_profile_settings v = ThermalControlProfileSettingsConfig_default
     \<lparr>st_temp_filter_alpha_permille := v ! 0,
      st_approach_max_ticks := v ! 1,
      st_approach_min_power_ratio_permille := v ! 2,
      st_auto_adjustable_working_floor_mv :=
        clamp THERMAL_CONTROL_PROFILE_AUTO_ADJUSTABLE_WORKING_FLOOR_MV_MIN
          THERMAL_CONTROL_PROFILE_AUTO_ADJUSTABLE_WORKING_FLOOR_MV_MAX (v ! 3),
      st_heater_current_reserve_ma := min (v ! 4) THERMAL_CONTROL_PROFILE_HEATER_CURRENT_RESERVE_MA_MAX\<rparr>"

definition decode_extended_profile_settings :: "nat \<Rightarrow> u16 list \<Rightarrow> bool \<Rightarrow> ThermalControlProfileSettingsConfig" where
  "decode_extended_profile_settings len v previous_layout_with_extra_field =
     (let has_approach_min_ratio = len \<ge> THERMAL_CONTROL_PROFILE_SETTINGS_PAYLOAD_LEN_WITH_APPROACH_MIN_RATIO;
          has_lead_ticks = len \<ge> THERMAL_CONTROL_PROFILE_SETTINGS_PAYLOAD_LEN_WITH_LEAD_TICKS;
          has_hold_reheat = len \<ge> THERMAL_CONTROL_PROFILE_SETTINGS_PAYLOAD_LEN_WITH_HOLD_REHEAT;
          floor = clamp THERMAL_CONTROL_PROFILE_AUTO_ADJUSTABLE_WORKING_FLOOR_MV_MIN
            THERMAL_CONTROL_PROFILE_AUTO_ADJUSTABLE_WORKING_FLOOR_MV_MAX
      in \<lparr>st_temp_filter_alpha_permille = v ! 0, st_warmup_reenter_centi_c = v ! 1, st_hold_entry_centi_c = v ! 2,
          st_hold_exit_centi_c = v ! 3, st_hold_on_centi_c = v ! 4, st_hold_off_centi_c = v ! 5,
          st_overshoot_cutoff_centi_c = v ! 6, st_approach_max_ticks = v ! 7,
          st_approach_min_power_ratio_permille =
            (if has_approach_min_ratio then v ! 8
             else THERMAL_CONTROL_PROFILE_APPROACH_MIN_POWER_RATIO_PERMILLE_DEFAULT),
          st_hold_kp_permille_per_c = (if has_approach_min_ratio then v ! 9 else v ! 8),
          st_hold_ki_permille_per_c_tick = (if has_approach_min_ratio then v ! 10 else v ! 9),
          st_hold_blend_ticks =
            (if has_lead_ticks then v ! 11 else THERMAL_CONTROL_PROFILE_HOLD_BLEND_TICKS_DEFAULT),
          st_hold_reheat_power_permille =
            (if has_hold_reheat then min (v ! 12) 1000
             else THERMAL_CONTROL_PROFILE_HOLD_REHEAT_POWER_PERMILLE_DEFAULT),
          st_approach_lead_ticks =
            (if has_hold_reheat then min (v ! 13) THERMAL_CONTROL_PROFILE_APPROACH_MAX_TICKS_MAX
             else if has_lead_ticks then min (v ! 12) THERMAL_CONTROL_PROFILE_APPROACH_MAX_TICKS_MAX
             else THERMAL_CONTROL_PROFILE_APPROACH_LEAD_TICKS_DEFAULT),
          st_hold_lead_ticks =
            (if has_hold_reheat then min (v ! 14) THERMAL_CONTROL_PROFILE_APPROACH_MAX_TICKS_MAX
             else if has_lead_ticks then min (v ! 13) THERMAL_CONTROL_PROFILE_APPROACH_MAX_TICKS_MAX
             else THERMAL_CONTROL_PROFILE_HOLD_LEAD_TICKS_DEFAULT),
          st_auto_adjustable_working_floor_mv =
            (if len \<ge> THERMAL_CONTROL_PROFILE_SETTINGS_PAYLOAD_LEN_PREVIOUS \<or> previous_layout_with_extra_field
             then floor (v ! 16)
             else if len \<ge> THERMAL_CONTROL_PROFILE_SETTINGS_PAYLOAD_LEN then floor (v ! 15)
             else THERMAL_CONTROL_PROFILE_AUTO_ADJUSTABLE_WORKING_FLOOR_MV_DEFAULT),
          st_heater_current_reserve_ma =
            (if len \<ge> THERMAL_CONTROL_PROFILE_SETTINGS_PAYLOAD_LEN_PREVIOUS
             then min (v ! 17) THERMAL_CONTROL_PROFILE_HEATER_CURRENT_RESERVE_MA_MAX
             else if len \<ge> THERMAL_CONTROL_PROFILE_SETTINGS_PAYLOAD_LEN \<and> \<not> previous_layout_with_extra_field
             then min (v ! 16) THERMAL_CONTROL_PROFILE_HEATER_CURRENT_RESERVE_MA_MAX
             else THERMAL_CONTROL_PROFILE_HEATER_CURRENT_RESERVE_MA_DEFAULT)\<rparr>)"

definition decode_thermal_control_profile_settings :: "u8 list \<Rightarrow> ThermalControlProfileSettingsConfig" where
  "decode_thermal_control_profile_settings bs =
     (let v = profile_settings_values bs in
      if length bs = THERMAL_CONTROL_PROFILE_SETTINGS_PAYLOAD_LEN_WITH_GLOBALS_ONLY
      then decode_global_profile_settings v
      else decode_extended_profile_settings (length bs) v
        (length bs = THERMAL_CONTROL_PROFILE_SETTINGS_PAYLOAD_LEN
         \<and> (v ! 15 < THERMAL_CONTROL_PROFILE_AUTO_ADJUSTABLE_WORKING_FLOOR_MV_MIN
            \<or> v ! 15 < 6100 \<and> v ! 16 > THERMAL_CONTROL_PROFILE_HEATER_CURRENT_RESERVE_MA_MAX)))"

section \<open>Layouts\<close>

text \<open>Slices of exactly \<open>n\<close> items; a shorter rest is dropped.\<close>

definition chunks_exact :: "nat \<Rightarrow> 'a list \<Rightarrow> 'a list list" where
  "chunks_exact n xs = map (\<lambda>i. take n (drop (i * n) xs)) [0..<length xs div n]"

definition profile_size_matches :: "nat \<Rightarrow> nat \<Rightarrow> nat \<Rightarrow> bool" where
  "profile_size_matches len settings_len point_len \<longleftrightarrow>
     settings_len \<le> len \<and> (len - settings_len) mod point_len = 0
     \<and> (len - settings_len) div point_len \<le> THERMAL_CONTROL_PROFILE_MAX_POINTS"

definition decode_packed_thermal_profile :: "u8 list \<Rightarrow> ThermalControlProfileConfig option" where
  "decode_packed_thermal_profile bs =
     (let settings_start = THERMAL_CONTROL_PROFILE_PACKED_LAYOUT_MARKER_LEN;
          settings_end = settings_start + THERMAL_CONTROL_PROFILE_SETTINGS_PAYLOAD_LEN_WITH_GLOBALS_ONLY in
      if \<not> profile_size_matches (length bs) settings_end THERMAL_CONTROL_PROFILE_PACKED_POINT_PAYLOAD_LEN then None
      else Some \<lparr>profile_settings = decode_thermal_control_profile_settings
                   (take (settings_end - settings_start) (drop settings_start bs)),
                 profile_points = pack THERMAL_CONTROL_PROFILE_MAX_POINTS
                   (take THERMAL_CONTROL_PROFILE_MAX_POINTS
                     (map decode_packed_profile_point
                       (chunks_exact THERMAL_CONTROL_PROFILE_PACKED_POINT_PAYLOAD_LEN (drop settings_end bs))))\<rparr>)"

definition THERMAL_PROFILE_LEGACY_LAYOUTS :: "(nat \<times> nat) list" where
  "THERMAL_PROFILE_LEGACY_LAYOUTS =
     [(THERMAL_CONTROL_PROFILE_SETTINGS_PAYLOAD_LEN_PREVIOUS, THERMAL_CONTROL_PROFILE_POINT_PAYLOAD_LEN_WITH_POINT_HOLD_ON),
      (THERMAL_CONTROL_PROFILE_SETTINGS_PAYLOAD_LEN, THERMAL_CONTROL_PROFILE_POINT_PAYLOAD_LEN_WITH_POINT_HOLD_ON),
      (THERMAL_CONTROL_PROFILE_SETTINGS_PAYLOAD_LEN, THERMAL_CONTROL_PROFILE_POINT_PAYLOAD_LEN),
      (THERMAL_CONTROL_PROFILE_SETTINGS_PAYLOAD_LEN, THERMAL_CONTROL_PROFILE_POINT_PAYLOAD_LEN_WITH_WARMUP),
      (THERMAL_CONTROL_PROFILE_SETTINGS_PAYLOAD_LEN_WITH_HOLD_REHEAT, THERMAL_CONTROL_PROFILE_POINT_PAYLOAD_LEN_WITH_HOLD_REHEAT),
      (THERMAL_CONTROL_PROFILE_SETTINGS_PAYLOAD_LEN_WITH_HOLD_REHEAT, THERMAL_CONTROL_PROFILE_POINT_PAYLOAD_LEN_WITH_WARMUP),
      (THERMAL_CONTROL_PROFILE_SETTINGS_PAYLOAD_LEN_WITH_LEAD_TICKS, THERMAL_CONTROL_PROFILE_POINT_PAYLOAD_LEN_WITH_LEAD_TICKS),
      (THERMAL_CONTROL_PROFILE_SETTINGS_PAYLOAD_LEN_WITH_LEAD_TICKS, THERMAL_CONTROL_PROFILE_POINT_PAYLOAD_LEN_WITH_WARMUP),
      (THERMAL_CONTROL_PROFILE_SETTINGS_PAYLOAD_LEN_WITH_HOLD_REHEAT, THERMAL_CONTROL_PROFILE_POINT_PAYLOAD_LEN_LEGACY),
      (THERMAL_CONTROL_PROFILE_SETTINGS_PAYLOAD_LEN, THERMAL_CONTROL_PROFILE_POINT_PAYLOAD_LEN_LEGACY),
      (THERMAL_CONTROL_PROFILE_SETTINGS_PAYLOAD_LEN_WITH_LEAD_TICKS, THERMAL_CONTROL_PROFILE_POINT_PAYLOAD_LEN_LEGACY),
      (THERMAL_CONTROL_PROFILE_SETTINGS_PAYLOAD_LEN_LEGACY, THERMAL_CONTROL_PROFILE_POINT_PAYLOAD_LEN_LEGACY),
      (THERMAL_CONTROL_PROFILE_SETTINGS_PAYLOAD_LEN_WITH_GLOBALS_ONLY,
       THERMAL_CONTROL_PROFILE_POINT_PAYLOAD_LEN_WITH_POINT_WARMUP_REENTER)]"

definition THERMAL_PROFILE_POINT_ONLY_LAYOUTS :: "(nat \<times> nat) list" where
  "THERMAL_PROFILE_POINT_ONLY_LAYOUTS =
     map (\<lambda>point_len. (THERMAL_CONTROL_PROFILE_MAX_POINTS * point_len, point_len))
       [THERMAL_CONTROL_PROFILE_POINT_PAYLOAD_LEN_WITH_POINT_WARMUP_REENTER,
        THERMAL_CONTROL_PROFILE_POINT_PAYLOAD_LEN_WITH_POINT_HOLD_ON,
        THERMAL_CONTROL_PROFILE_POINT_PAYLOAD_LEN,
        THERMAL_CONTROL_PROFILE_POINT_PAYLOAD_LEN_WITH_WARMUP,
        THERMAL_CONTROL_PROFILE_POINT_PAYLOAD_LEN_WITH_HOLD_REHEAT,
        THERMAL_CONTROL_PROFILE_POINT_PAYLOAD_LEN_WITH_LEAD_TICKS]"

definition starts_with :: "'a list \<Rightarrow> 'a list \<Rightarrow> bool" where
  "starts_with bs prefix \<longleftrightarrow> take (length prefix) bs = prefix"

definition decode_marked_profile_layout ::
  "u8 list \<Rightarrow> ThermalControlProfileConfig \<Rightarrow> (ThermalControlProfileConfig \<times> nat \<times> nat) option" where
  "decode_marked_profile_layout bs config =
     (let settings_start = THERMAL_CONTROL_PROFILE_LAYOUT_MARKER_LEN;
          settings_end = settings_start + THERMAL_CONTROL_PROFILE_SETTINGS_PAYLOAD_LEN_WITH_GLOBALS_ONLY in
      if \<not> starts_with bs THERMAL_CONTROL_PROFILE_LAYOUT_MARKER
         \<or> \<not> profile_size_matches (length bs) settings_end
               THERMAL_CONTROL_PROFILE_POINT_PAYLOAD_LEN_WITH_POINT_WARMUP_REENTER
      then None
      else Some (config\<lparr>profile_settings := decode_thermal_control_profile_settings
                   (take (settings_end - settings_start) (drop settings_start bs))\<rparr>,
                 settings_end, THERMAL_CONTROL_PROFILE_POINT_PAYLOAD_LEN_WITH_POINT_WARMUP_REENTER))"

definition decode_point_only_layout :: "nat \<Rightarrow> nat option" where
  "decode_point_only_layout len =
     map_option snd (List.find (\<lambda>(total_len, point_len). len = total_len) THERMAL_PROFILE_POINT_ONLY_LAYOUTS)"

definition decode_legacy_profile_layout :: "u8 list \<Rightarrow> ThermalControlProfileConfig \<times> nat \<times> nat" where
  "decode_legacy_profile_layout bs =
     (let config = ThermalControlProfileConfig_default in
      case decode_marked_profile_layout bs config of
        Some layout \<Rightarrow> layout
      | None \<Rightarrow>
          (case List.find (\<lambda>(settings_len, point_len). profile_size_matches (length bs) settings_len point_len)
                  THERMAL_PROFILE_LEGACY_LAYOUTS of
             Some (settings_len, point_len) \<Rightarrow>
               (config\<lparr>profile_settings := decode_thermal_control_profile_settings (take settings_len bs)\<rparr>,
                settings_len, point_len)
           | None \<Rightarrow>
               (case decode_point_only_layout (length bs) of
                  Some point_len \<Rightarrow> (config, 0, point_len)
                | None \<Rightarrow> (config, 0, THERMAL_CONTROL_PROFILE_POINT_PAYLOAD_LEN_LEGACY))))"

section \<open>Points of the older layouts\<close>

text \<open>Reading past the payload panics.\<close>

definition read_profile_u16 :: "u8 list \<Rightarrow> nat \<Rightarrow> nat \<Rightarrow> u16 rust" where
  "read_profile_u16 bs cursor offset =
     (if cursor + offset + 1 < length bs
      then Ret (from_le_bytes [bs ! (cursor + offset), bs ! (cursor + offset + 1)]) else Panic)"

definition decode_profile_approach :: "u8 list \<Rightarrow> nat \<Rightarrow> nat \<Rightarrow> (u16 \<times> u16) rust" where
  "decode_profile_approach bs cursor point_payload_len =
     (if point_payload_len \<in> {THERMAL_CONTROL_PROFILE_POINT_PAYLOAD_LEN_WITH_POINT_WARMUP_REENTER,
           THERMAL_CONTROL_PROFILE_POINT_PAYLOAD_LEN_WITH_POINT_HOLD_ON, THERMAL_CONTROL_PROFILE_POINT_PAYLOAD_LEN}
      then rbind (read_profile_u16 bs cursor 4) (\<lambda>warmup.
           rbind (read_profile_u16 bs cursor 6) (\<lambda>approach. Ret (warmup, approach)))
      else rbind (read_profile_u16 bs cursor 4) (\<lambda>approach. Ret (approach, approach)))"

definition legacy_approach_floor_power :: "u16 \<Rightarrow> u16 \<Rightarrow> u16 \<Rightarrow> u16" where
  "legacy_approach_floor_power approach_power hold_power ratio_permille =
     (let scaled = ((ucast (min approach_power 1000) :: u32) * ucast (min ratio_permille 1000) + 500) div 1000
      in max (min hold_power 1000) (ucast (min scaled 1000)))"

definition decode_profile_power ::
  "u8 list \<Rightarrow> nat \<Rightarrow> nat \<Rightarrow> u16 \<Rightarrow> ThermalControlProfileSettingsConfig \<Rightarrow> (u16 \<times> u16 \<times> u16) rust" where
  "decode_profile_power bs cursor point_payload_len approach_power settings =
     (if point_payload_len \<in> {THERMAL_CONTROL_PROFILE_POINT_PAYLOAD_LEN_WITH_POINT_WARMUP_REENTER,
           THERMAL_CONTROL_PROFILE_POINT_PAYLOAD_LEN_WITH_POINT_HOLD_ON, THERMAL_CONTROL_PROFILE_POINT_PAYLOAD_LEN}
      then rbind (read_profile_u16 bs cursor 10) (\<lambda>packed.
           rbind (read_profile_u16 bs cursor 8) (\<lambda>approach_floor.
           rbind (read_profile_u16 bs cursor 12) (\<lambda>hold_power.
           Ret (approach_floor,
                clamp 100 THERMAL_CONTROL_PROFILE_APPROACH_DAMPING_EXPONENT_PERMILLE_MAX
                  (packed AND THERMAL_CONTROL_PROFILE_APPROACH_DAMPING_VALUE_MASK),
                hold_power))))
      else if point_payload_len = THERMAL_CONTROL_PROFILE_POINT_PAYLOAD_LEN_WITH_WARMUP
      then rbind (read_profile_u16 bs cursor 8) (\<lambda>approach_floor.
           rbind (read_profile_u16 bs cursor 10) (\<lambda>hold_power.
           Ret (approach_floor, THERMAL_CONTROL_PROFILE_APPROACH_DAMPING_EXPONENT_PERMILLE_DEFAULT, hold_power)))
      else if point_payload_len = THERMAL_CONTROL_PROFILE_POINT_PAYLOAD_LEN_WITH_HOLD_REHEAT
      then rbind (read_profile_u16 bs cursor 6) (\<lambda>approach_floor.
           rbind (read_profile_u16 bs cursor 8) (\<lambda>hold_power.
           Ret (approach_floor, THERMAL_CONTROL_PROFILE_APPROACH_DAMPING_EXPONENT_PERMILLE_DEFAULT, hold_power)))
      else rbind (read_profile_u16 bs cursor 6) (\<lambda>hold_power.
           Ret (legacy_approach_floor_power approach_power hold_power (st_approach_min_power_ratio_permille settings),
                THERMAL_CONTROL_PROFILE_APPROACH_DAMPING_EXPONENT_PERMILLE_DEFAULT, hold_power)))"

text \<open>Where each layout keeps the twelve hold values of a point; a value that a layout does not have
  comes from the settings.\<close>

definition PROFILE_HOLD_OFFSETS_POINT_WARMUP_REENTER :: "nat option list" where
  "PROFILE_HOLD_OFFSETS_POINT_WARMUP_REENTER =
     [Some 14, Some 16, Some 18, Some 20, Some 22, Some 24, Some 26, Some 28, Some 30, Some 32, Some 34, Some 36]"
definition PROFILE_HOLD_OFFSETS_POINT_HOLD_ON :: "nat option list" where
  "PROFILE_HOLD_OFFSETS_POINT_HOLD_ON =
     [Some 14, Some 16, Some 18, Some 20, Some 22, Some 24, Some 26, Some 28, Some 30, Some 32, Some 34, None]"
definition PROFILE_HOLD_OFFSETS_CURRENT :: "nat option list" where
  "PROFILE_HOLD_OFFSETS_CURRENT =
     [Some 14, Some 16, Some 18, None, Some 20, Some 22, Some 24, Some 26, Some 28, Some 30, Some 32, None]"
definition PROFILE_HOLD_OFFSETS_WARMUP :: "nat option list" where
  "PROFILE_HOLD_OFFSETS_WARMUP =
     [Some 12, Some 14, Some 16, None, Some 18, Some 20, Some 22, Some 24, Some 26, Some 28, Some 30, None]"
definition PROFILE_HOLD_OFFSETS_HOLD_REHEAT :: "nat option list" where
  "PROFILE_HOLD_OFFSETS_HOLD_REHEAT =
     [Some 10, Some 12, Some 14, None, Some 16, Some 18, Some 20, Some 22, Some 24, Some 26, Some 28, None]"
definition PROFILE_HOLD_OFFSETS_LEAD_TICKS :: "nat option list" where
  "PROFILE_HOLD_OFFSETS_LEAD_TICKS =
     [None, Some 10, Some 12, None, Some 14, Some 16, Some 18, Some 20, Some 22, Some 24, Some 26, None]"

definition profile_hold_offsets :: "nat \<Rightarrow> nat option list" where
  "profile_hold_offsets point_payload_len =
     (if point_payload_len = THERMAL_CONTROL_PROFILE_POINT_PAYLOAD_LEN_WITH_POINT_WARMUP_REENTER
      then PROFILE_HOLD_OFFSETS_POINT_WARMUP_REENTER
      else if point_payload_len = THERMAL_CONTROL_PROFILE_POINT_PAYLOAD_LEN_WITH_POINT_HOLD_ON
      then PROFILE_HOLD_OFFSETS_POINT_HOLD_ON
      else if point_payload_len = THERMAL_CONTROL_PROFILE_POINT_PAYLOAD_LEN then PROFILE_HOLD_OFFSETS_CURRENT
      else if point_payload_len = THERMAL_CONTROL_PROFILE_POINT_PAYLOAD_LEN_WITH_WARMUP then PROFILE_HOLD_OFFSETS_WARMUP
      else if point_payload_len = THERMAL_CONTROL_PROFILE_POINT_PAYLOAD_LEN_WITH_HOLD_REHEAT
      then PROFILE_HOLD_OFFSETS_HOLD_REHEAT
      else if point_payload_len = THERMAL_CONTROL_PROFILE_POINT_PAYLOAD_LEN_WITH_LEAD_TICKS
      then PROFILE_HOLD_OFFSETS_LEAD_TICKS
      else replicate 12 None)"

record ThermalProfileHoldValues =
  hv_hold_reheat_power_permille :: u16
  hv_hold_entry_centi_c :: u16
  hv_hold_exit_centi_c :: u16
  hv_hold_on_centi_c :: u16
  hv_hold_off_centi_c :: u16
  hv_overshoot_cutoff_centi_c :: u16
  hv_hold_kp_permille_per_c :: u16
  hv_hold_ki_permille_per_c_tick :: u16
  hv_hold_blend_ticks :: u16
  hv_approach_lead_ticks :: u16
  hv_hold_lead_ticks :: u16
  hv_warmup_reenter_centi_c :: u16

fun rust_map :: "('a \<Rightarrow> 'b rust) \<Rightarrow> 'a list \<Rightarrow> 'b list rust" where
  "rust_map f [] = Ret []"
| "rust_map f (x # xs) = rbind (f x) (\<lambda>y. rbind (rust_map f xs) (\<lambda>ys. Ret (y # ys)))"

definition decode_profile_hold ::
  "u8 list \<Rightarrow> nat \<Rightarrow> nat \<Rightarrow> ThermalControlProfileSettingsConfig \<Rightarrow> ThermalProfileHoldValues rust" where
  "decode_profile_hold bs cursor point_payload_len s =
     rbind (rust_map (\<lambda>(offset, fallback).
              case offset of Some offset \<Rightarrow> read_profile_u16 bs cursor offset | None \<Rightarrow> Ret fallback)
            (zip (profile_hold_offsets point_payload_len)
              [st_hold_reheat_power_permille s, st_hold_entry_centi_c s, st_hold_exit_centi_c s, st_hold_on_centi_c s,
               st_hold_off_centi_c s, st_overshoot_cutoff_centi_c s, st_hold_kp_permille_per_c s,
               st_hold_ki_permille_per_c_tick s, st_hold_blend_ticks s, st_approach_lead_ticks s, st_hold_lead_ticks s,
               st_warmup_reenter_centi_c s]))
       (\<lambda>v. Ret \<lparr>hv_hold_reheat_power_permille = v ! 0, hv_hold_entry_centi_c = v ! 1, hv_hold_exit_centi_c = v ! 2,
                hv_hold_on_centi_c = v ! 3, hv_hold_off_centi_c = v ! 4, hv_overshoot_cutoff_centi_c = v ! 5,
                hv_hold_kp_permille_per_c = v ! 6, hv_hold_ki_permille_per_c_tick = v ! 7, hv_hold_blend_ticks = v ! 8,
                hv_approach_lead_ticks = v ! 9, hv_hold_lead_ticks = v ! 10, hv_warmup_reenter_centi_c = v ! 11\<rparr>)"

definition decode_profile_tail_window :: "u8 list \<Rightarrow> nat \<Rightarrow> nat \<Rightarrow> u16 rust" where
  "decode_profile_tail_window bs cursor point_payload_len =
     (if point_payload_len \<in> {THERMAL_CONTROL_PROFILE_POINT_PAYLOAD_LEN_WITH_POINT_WARMUP_REENTER,
           THERMAL_CONTROL_PROFILE_POINT_PAYLOAD_LEN_WITH_POINT_HOLD_ON}
      then rbind (read_profile_u16 bs cursor 10) (\<lambda>packed.
           Ret (drop_bit 12 packed * THERMAL_CONTROL_PROFILE_APPROACH_TAIL_WINDOW_STEP_CENTI_C))
      else Ret 0)"

definition decode_legacy_profile_point ::
  "u8 list \<Rightarrow> nat \<Rightarrow> nat \<Rightarrow> ThermalControlProfileSettingsConfig \<Rightarrow> ThermalControlProfilePointConfig option rust" where
  "decode_legacy_profile_point bs cursor point_payload_len settings =
     rbind (read_profile_u16 bs cursor 0) (\<lambda>target.
     rbind (read_profile_u16 bs cursor 2) (\<lambda>brake_distance.
     rbind (decode_profile_approach bs cursor point_payload_len) (\<lambda>(warmup_power, approach_power).
     rbind (decode_profile_power bs cursor point_payload_len approach_power settings)
       (\<lambda>(approach_floor, damping, hold_power).
     rbind (decode_profile_hold bs cursor point_payload_len settings) (\<lambda>hold.
     rbind (decode_profile_tail_window bs cursor point_payload_len) (\<lambda>tail_window.
     if sint target = PRESET_NONE_WIRE_VALUE \<or> brake_distance = CALIBRATION_NONE_WIRE_VALUE
        \<or> approach_power = CALIBRATION_NONE_WIRE_VALUE \<or> approach_floor = CALIBRATION_NONE_WIRE_VALUE
        \<or> hold_power = CALIBRATION_NONE_WIRE_VALUE
     then Ret None
     else Ret (Some
       \<lparr>pt_target_temp_c = sint target, pt_brake_distance_centi_c = brake_distance,
        pt_warmup_power_permille = warmup_power, pt_warmup_reenter_centi_c = hv_warmup_reenter_centi_c hold,
        pt_approach_power_permille = approach_power, pt_approach_floor_power_permille = approach_floor,
        pt_approach_damping_exponent_permille = damping, pt_approach_tail_window_centi_c = tail_window,
        pt_hold_power_permille = hold_power, pt_hold_reheat_power_permille = hv_hold_reheat_power_permille hold,
        pt_hold_entry_centi_c = hv_hold_entry_centi_c hold, pt_hold_exit_centi_c = hv_hold_exit_centi_c hold,
        pt_hold_on_centi_c = hv_hold_on_centi_c hold, pt_hold_off_centi_c = hv_hold_off_centi_c hold,
        pt_overshoot_cutoff_centi_c = hv_overshoot_cutoff_centi_c hold,
        pt_hold_kp_permille_per_c = hv_hold_kp_permille_per_c hold,
        pt_hold_ki_permille_per_c_tick = hv_hold_ki_permille_per_c_tick hold,
        pt_hold_blend_ticks = hv_hold_blend_ticks hold, pt_approach_lead_ticks = hv_approach_lead_ticks hold,
        pt_hold_lead_ticks = hv_hold_lead_ticks hold\<rparr>)))))))"

definition decode_thermal_control_profile :: "u8 list \<Rightarrow> ThermalControlProfileConfig rust" where
  "decode_thermal_control_profile bs =
     (case decode_packed_thermal_profile bs of
        Some config \<Rightarrow> Ret config
      | None \<Rightarrow>
          (let (config, cursor, point_payload_len) = decode_legacy_profile_layout bs;
               point_count = (length bs - cursor) div point_payload_len
           in rbind (rust_map (\<lambda>index. decode_legacy_profile_point bs (cursor + index * point_payload_len)
                        point_payload_len (profile_settings config))
                      [0..<min point_count (length (profile_points config))])
                (\<lambda>decoded. Ret (config\<lparr>profile_points := decoded @ drop (length decoded) (profile_points config)\<rparr>))))"

text \<open>The test the older record format applies before it hands a payload to the decoder.\<close>

definition is_supported_thermal_control_profile :: "u8 list \<Rightarrow> bool" where
  "is_supported_thermal_control_profile bs \<longleftrightarrow>
     starts_with bs THERMAL_CONTROL_PROFILE_PACKED_LAYOUT_MARKER
       \<and> profile_size_matches (length bs)
           (THERMAL_CONTROL_PROFILE_PACKED_LAYOUT_MARKER_LEN + THERMAL_CONTROL_PROFILE_SETTINGS_PAYLOAD_LEN_WITH_GLOBALS_ONLY)
           THERMAL_CONTROL_PROFILE_PACKED_POINT_PAYLOAD_LEN
     \<or> starts_with bs THERMAL_CONTROL_PROFILE_LAYOUT_MARKER
       \<and> profile_size_matches (length bs)
           (THERMAL_CONTROL_PROFILE_LAYOUT_MARKER_LEN + THERMAL_CONTROL_PROFILE_SETTINGS_PAYLOAD_LEN_WITH_GLOBALS_ONLY)
           THERMAL_CONTROL_PROFILE_POINT_PAYLOAD_LEN_WITH_POINT_WARMUP_REENTER
     \<or> list_ex (\<lambda>(settings_len, point_len). profile_size_matches (length bs) settings_len point_len)
         THERMAL_PROFILE_LEGACY_LAYOUTS
     \<or> length bs \<in> set (map fst THERMAL_PROFILE_POINT_ONLY_LAYOUTS)"

section \<open>Bit packing\<close>

definition bit_at :: "u8 list \<Rightarrow> nat \<Rightarrow> bool" where
  "bit_at bs j = bit (bs ! (j div 8)) (j mod 8)"

lemma div_mod_8_eq: "j div 8 = i div 8 \<Longrightarrow> j mod 8 = i mod 8 \<Longrightarrow> j = (i :: nat)"
  by (metis div_mult_mod_eq)

lemma bit_at_set:
  assumes "i < 8 * length out" "j < 8 * length out"
  shows "bit_at (out[i div 8 := out ! (i div 8) OR push_bit (i mod 8) 1]) j \<longleftrightarrow> bit_at out j \<or> j = i"
proof (cases "j div 8 = i div 8")
  case True
  have "i div 8 < length out" using assms(1) by (simp add: less_mult_imp_div_less mult.commute)
  then show ?thesis using True div_mod_8_eq [of j i] by (auto simp: bit_at_def bit_simps)
next
  case False
  then show ?thesis by (auto simp: bit_at_def)
qed

lemmas bit_at_or = bit_at_set [simplified]

lemma packed_value_cursor [simp]:
  "snd (read_packed_profile_value bs c w) = c + w" "snd (write_packed_profile_value out c v w) = c + w"
  by (simp_all add: read_packed_profile_value_def write_packed_profile_value_def)

lemma length_write_packed_profile_value [simp]:
  "length (fst (write_packed_profile_value out cursor v width)) = length out"
proof -
  have "length (fold (\<lambda>b out. if P b then out[f b := g out b] else out) xs out) = length out"
    for P f g and xs :: "nat list" and out :: "u8 list"
    by (induction xs arbitrary: out) auto
  then show ?thesis unfolding write_packed_profile_value_def Let_def fst_conv .
qed

lemma write_packed_profile_value_Suc:
  "fst (write_packed_profile_value out cursor v (Suc width)) =
     (let o' = fst (write_packed_profile_value out cursor v width) in
      if bit v width then o'[(cursor + width) div 8 := o' ! ((cursor + width) div 8) OR push_bit ((cursor + width) mod 8) 1]
      else o')"
proof -
  have "(ucast v :: u32) AND push_bit b 1 \<noteq> 0 \<longleftrightarrow> bit v b" for b
    unfolding bit_iff_and_push_bit_not_eq_0 [symmetric] by (auto simp: bit_simps dest: bit_imp_le_length)
  then show ?thesis unfolding write_packed_profile_value_def Let_def by simp
qed

lemma write_packed_profile_value_bits:
  assumes "cursor + width \<le> 8 * length out" "j < 8 * length out"
  shows "bit_at (fst (write_packed_profile_value out cursor v width)) j
        \<longleftrightarrow> bit_at out j \<or> cursor \<le> j \<and> j < cursor + width \<and> bit v (j - cursor)"
  using assms
proof (induction width arbitrary: j)
  case 0
  then show ?case by (auto simp: write_packed_profile_value_def)
next
  case (Suc width)
  let ?o = "fst (write_packed_profile_value out cursor v width)"
  have sub: "j - cursor = width \<longleftrightarrow> j = cursor + width" if "cursor \<le> j" using that by auto
  show ?case
    using Suc.prems Suc.IH [of j]
    by (auto simp: write_packed_profile_value_Suc Let_def bit_at_or less_Suc_eq sub)
qed

lemma read_packed_profile_value_bits:
  "bit (fst (read_packed_profile_value bs cursor width)) k \<longleftrightarrow> k < width \<and> k < 16 \<and> bit_at bs (cursor + k)"
proof (induction width)
  case 0
  then show ?case by (simp add: read_packed_profile_value_def)
next
  case (Suc width)
  let ?v = "fst (read_packed_profile_value bs cursor width)"
  have "fst (read_packed_profile_value bs cursor (Suc width)) =
      (if bit_at bs (cursor + width) then ?v OR push_bit width 1 else ?v)"
    by (simp add: read_packed_profile_value_def Let_def bit_at_def bit_iff_and_push_bit_not_eq_0)
  then show ?case using Suc.IH by (auto simp: bit_simps less_Suc_eq)
qed

lemma packed_values_Cons:
  "write_packed_profile_values out cursor ((v, w) # vs)
     = write_packed_profile_values (fst (write_packed_profile_value out cursor v w)) (cursor + w) vs"
  "read_packed_profile_values bs cursor (w # ws)
     = fst (read_packed_profile_value bs cursor w) # read_packed_profile_values bs (cursor + w) ws"
  by (simp_all add: Let_def split_beta)

declare write_packed_profile_values.simps(2) [simp del] read_packed_profile_values.simps(2) [simp del]

lemma length_write_packed_profile_values [simp]:
  "length (write_packed_profile_values out cursor vs) = length out"
  by (induction vs arbitrary: out cursor) (auto simp: packed_values_Cons)

lemma write_packed_profile_values_below:
  assumes "cursor + sum_list (map snd vs) \<le> 8 * length out" "j < cursor"
  shows "bit_at (write_packed_profile_values out cursor vs) j = bit_at out j"
  using assms
  by (induction vs arbitrary: out cursor) (auto simp: packed_values_Cons write_packed_profile_value_bits)

lemma read_written_values:
  assumes "cursor + sum_list (map snd vs) \<le> 8 * length out"
    "\<And>j. cursor \<le> j \<Longrightarrow> j < 8 * length out \<Longrightarrow> \<not> bit_at out j"
  shows "read_packed_profile_values (write_packed_profile_values out cursor vs) cursor (map snd vs)
    = map (\<lambda>(v, w). take_bit w v) vs"
  using assms
proof (induction vs arbitrary: out cursor)
  case (Cons vw vs)
  obtain v w where vw [simp]: "vw = (v, w)" by (cases vw)
  let ?o = "fst (write_packed_profile_value out cursor v w)"
  let ?r = "write_packed_profile_values ?o (cursor + w) vs"
  have o: "bit_at ?o j \<longleftrightarrow> bit_at out j \<or> cursor \<le> j \<and> j < cursor + w \<and> bit v (j - cursor)"
    if "j < 8 * length out" for j
    using write_packed_profile_value_bits [of cursor w out j v] Cons.prems(1) that by auto
  have "fst (read_packed_profile_value ?r cursor w) = take_bit w v"
  proof (rule bit_word_eqI)
    fix k assume "k < LENGTH(16)"
    then show "bit (fst (read_packed_profile_value ?r cursor w)) k = bit (take_bit w v) k"
      using write_packed_profile_values_below [of "cursor + w" vs ?o "cursor + k"] o [of "cursor + k"] Cons.prems
      by (auto simp: read_packed_profile_value_bits bit_simps)
  qed
  moreover have "read_packed_profile_values ?r (cursor + w) (map snd vs) = map (\<lambda>(v, w). take_bit w v) vs"
    using Cons.prems o by (intro Cons.IH) auto
  ultimately show ?case by (simp add: packed_values_Cons)
qed simp

section \<open>Cleaned values\<close>

text \<open>The bounds that cleaning establishes.\<close>

definition settings_ok :: "ThermalControlProfileSettingsConfig \<Rightarrow> bool" where
  "settings_ok s \<longleftrightarrow>
     1 \<le> st_temp_filter_alpha_permille s \<and> st_temp_filter_alpha_permille s \<le> 1000
     \<and> 50 \<le> st_warmup_reenter_centi_c s \<and> st_warmup_reenter_centi_c s \<le> 5000
     \<and> 1 \<le> st_hold_entry_centi_c s \<and> st_hold_entry_centi_c s \<le> 5000
     \<and> 1 \<le> st_hold_exit_centi_c s \<and> st_hold_exit_centi_c s \<le> 5000
     \<and> 1 \<le> st_hold_on_centi_c s \<and> st_hold_on_centi_c s \<le> 5000
     \<and> st_hold_off_centi_c s \<le> 5000
     \<and> 1 \<le> st_overshoot_cutoff_centi_c s \<and> st_overshoot_cutoff_centi_c s \<le> 5000
     \<and> 1 \<le> st_approach_max_ticks s \<and> st_approach_max_ticks s \<le> 255
     \<and> st_approach_min_power_ratio_permille s \<le> 1000
     \<and> st_hold_kp_permille_per_c s \<le> 10000 \<and> st_hold_ki_permille_per_c_tick s \<le> 10000
     \<and> 1 \<le> st_hold_blend_ticks s \<and> st_hold_blend_ticks s \<le> 255
     \<and> st_hold_reheat_power_permille s \<le> 1000
     \<and> st_approach_lead_ticks s \<le> 255 \<and> st_hold_lead_ticks s \<le> 255
     \<and> 5000 \<le> st_auto_adjustable_working_floor_mv s \<and> st_auto_adjustable_working_floor_mv s \<le> 28000
     \<and> st_heater_current_reserve_ma s \<le> 1000"

definition point_ok :: "ThermalControlProfilePointConfig \<Rightarrow> bool" where
  "point_ok p \<longleftrightarrow>
     0 \<le> pt_target_temp_c p \<and> pt_target_temp_c p \<le> 400
     \<and> 60 \<le> pt_brake_distance_centi_c p \<and> pt_brake_distance_centi_c p \<le> 5000
     \<and> pt_warmup_power_permille p \<le> 1000
     \<and> 50 \<le> pt_warmup_reenter_centi_c p \<and> pt_warmup_reenter_centi_c p \<le> 5000
     \<and> pt_approach_power_permille p \<le> 1000 \<and> pt_approach_floor_power_permille p \<le> 1000
     \<and> 100 \<le> pt_approach_damping_exponent_permille p \<and> pt_approach_damping_exponent_permille p \<le> 4000
     \<and> pt_approach_tail_window_centi_c p \<le> 375
     \<and> pt_hold_power_permille p \<le> 1000 \<and> pt_hold_reheat_power_permille p \<le> 1000
     \<and> pt_hold_entry_centi_c p \<le> 5000 \<and> pt_hold_exit_centi_c p \<le> 5000 \<and> pt_hold_on_centi_c p \<le> 5000
     \<and> pt_hold_off_centi_c p \<le> 5000 \<and> pt_overshoot_cutoff_centi_c p \<le> 5000
     \<and> pt_hold_kp_permille_per_c p \<le> 10000 \<and> pt_hold_ki_permille_per_c_tick p \<le> 10000
     \<and> pt_hold_blend_ticks p \<le> 255 \<and> pt_approach_lead_ticks p \<le> 255 \<and> pt_hold_lead_ticks p \<le> 255"

lemma clamp_between [simp]: "lo \<le> hi \<Longrightarrow> lo \<le> clamp lo hi x" "lo \<le> hi \<Longrightarrow> clamp lo hi x \<le> hi"
  using clamp_bounds by blast+

lemma clamp_temp_c_bounds [simp]: "0 \<le> clamp_temp_c t" "clamp_temp_c t \<le> 400"
  by (auto simp: clamp_temp_c_def)

lemma clamp_temp_c_id [simp]: "0 \<le> t \<Longrightarrow> t \<le> 400 \<Longrightarrow> clamp_temp_c t = t"
  by (auto simp: clamp_temp_c_def)

lemma sanitized_settings_ok: "settings_ok (sanitize_thermal_profile_settings s)"
  by (simp add: settings_ok_def sanitize_thermal_profile_settings_def)

lemma sanitize_settings_id: "settings_ok s \<Longrightarrow> sanitize_thermal_profile_settings s = s"
  by (cases s) (simp add: settings_ok_def sanitize_thermal_profile_settings_def)

lemma default_or_min_le: "d \<le> m \<Longrightarrow> default_or_min v d m \<le> m"
  by (simp add: default_or_min_def)

lemma sanitized_point_ok: "settings_ok s \<Longrightarrow> point_ok (sanitize_thermal_profile_point p s)"
  by (simp add: point_ok_def settings_ok_def sanitize_thermal_profile_point_def default_or_min_le)

lemma default_or_min_idem: "d \<le> m \<Longrightarrow> default_or_min (default_or_min v d m) d m = default_or_min v d m"
  by (auto simp: default_or_min_def min_def split: if_splits)

lemma sanitize_point_idem:
  assumes "settings_ok s"
  shows "sanitize_thermal_profile_point (sanitize_thermal_profile_point p s) s = sanitize_thermal_profile_point p s"
proof -
  have nz: "clamp 50 5000 x \<noteq> (0::u16)" "clamp 100 4000 x \<noteq> (0::u16)" for x
    using clamp_bounds [of 50 5000 x] clamp_bounds [of 100 4000 x] by (auto simp del: clamp_between)
  have m: "min x 1000 = 0 \<longleftrightarrow> x = 0" for x :: u16 by (auto simp: min_def)
  show ?thesis
    using assms nz m by (auto simp: settings_ok_def sanitize_thermal_profile_point_def default_or_min_idem)
qed

lemma sanitize_profile_idem:
  "sanitize_thermal_control_profile (sanitize_thermal_control_profile c) = sanitize_thermal_control_profile c"
proof -
  let ?s = "sanitize_thermal_profile_settings (profile_settings c)"
  let ?f = "\<lambda>p. sanitize_thermal_profile_point p ?s"
  let ?xs = "sort_key pt_target_temp_c (map ?f (flatten (profile_points c)))"
  have s: "sanitize_thermal_profile_settings ?s = ?s" by (rule sanitize_settings_id [OF sanitized_settings_ok])
  have "map ?f (take 10 ?xs) = take 10 ?xs"
    by (rule map_idI) (auto dest!: in_set_takeD simp: sanitize_point_idem [OF sanitized_settings_ok])
  moreover have "sorted (map pt_target_temp_c (take 10 ?xs))"
    using sorted_sort_key [of pt_target_temp_c] by (simp add: take_map [symmetric] sorted_wrt_take)
  ultimately show ?thesis
    by (simp add: sanitize_thermal_control_profile_def Let_def s sort_key_id_if_sorted)
qed

section \<open>The packed layout is lossless\<close>

lemma sint_small: "0 \<le> t \<Longrightarrow> t \<le> 400 \<Longrightarrow> sint (take_bit 9 (word_of_int t :: u16)) = t"
  by (simp add: signed_take_bit_eq_if_positive sint_uint unsigned_take_bit_eq take_bit_int_eq_self
      uint_word_of_int bit_take_bit_iff signed_take_bit_int_eq_self)

lemma fits_width:
  "v \<le> 5000 \<Longrightarrow> take_bit 13 v = (v :: u16)" "v \<le> 1000 \<Longrightarrow> take_bit 10 v = v" "v \<le> 4000 \<Longrightarrow> take_bit 12 v = v"
  "v \<le> 375 \<Longrightarrow> take_bit 9 v = v" "v \<le> 10000 \<Longrightarrow> take_bit 14 v = v" "v \<le> 255 \<Longrightarrow> take_bit 8 v = v"
  by (rule take_bit_small; simp add: word_le_nat_alt)+

lemma decode_packed_profile_point_encode:
  assumes "point_ok p"
  shows "decode_packed_profile_point (encode_packed_profile_point p) = p"
proof -
  have vals: "packed_values p =
     [word_of_int (pt_target_temp_c p), pt_brake_distance_centi_c p, pt_warmup_power_permille p,
      pt_approach_power_permille p, pt_approach_floor_power_permille p, pt_approach_damping_exponent_permille p,
      pt_approach_tail_window_centi_c p, pt_hold_power_permille p, pt_hold_reheat_power_permille p,
      pt_hold_entry_centi_c p, pt_hold_exit_centi_c p, pt_hold_on_centi_c p, pt_hold_off_centi_c p,
      pt_overshoot_cutoff_centi_c p, pt_hold_kp_permille_per_c p, pt_hold_ki_permille_per_c_tick p,
      pt_hold_blend_ticks p, pt_approach_lead_ticks p, pt_hold_lead_ticks p, pt_warmup_reenter_centi_c p]"
    using assms by (simp add: packed_values_def point_ok_def min_absorb1)
  let ?vs = "zip (packed_values p) packed_widths"
  have w: "map snd ?vs = packed_widths" by (simp add: packed_values_def packed_widths_def)
  have rd: "read_packed_profile_values (encode_packed_profile_point p) 0 packed_widths = map (\<lambda>(v, w). take_bit w v) ?vs"
    using read_written_values [of 0 ?vs "replicate 28 0"] unfolding w
    by (simp add: encode_packed_profile_point_def packed_widths_def bit_at_def)
  have fields: "map (\<lambda>(v, w). take_bit w v) ?vs = take_bit 9 (word_of_int (pt_target_temp_c p)) # tl (packed_values p)"
    using assms by (simp add: vals packed_widths_def point_ok_def fits_width)
  show ?thesis
    unfolding decode_packed_profile_point_def Let_def trans [OF rd fields, unfolded vals]
    using assms by (simp add: point_ok_def sint_small)
qed

lemma length_encode_packed_profile_point [simp]: "length (encode_packed_profile_point p) = 28"
  by (simp add: encode_packed_profile_point_def)

lemma length_concat_const: "(\<And>x. x \<in> set xs \<Longrightarrow> length (g x) = n) \<Longrightarrow> length (concat (map g xs)) = length xs * n"
  by (induction xs) auto

lemma chunks_exact_concat:
  assumes "0 < n" "\<And>x. x \<in> set xs \<Longrightarrow> length (g x) = n"
  shows "chunks_exact n (concat (map g xs)) = map g xs"
proof -
  have "take n (drop (i * n) (concat (map g xs))) = g (xs ! i)" if "i < length xs" for i
    using that assms(2)
  proof (induction xs arbitrary: i)
    case (Cons x xs)
    then show ?case by (cases i) simp_all
  qed simp
  moreover have "length (concat (map g xs)) div n = length xs"
    using assms length_concat_const [of xs g n] by simp
  ultimately show ?thesis unfolding chunks_exact_def by (intro nth_equalityI) auto
qed

definition inherited_defaults :: "ThermalControlProfileSettingsConfig \<Rightarrow> ThermalControlProfileSettingsConfig" where
  "inherited_defaults s = ThermalControlProfileSettingsConfig_default
     \<lparr>st_temp_filter_alpha_permille := st_temp_filter_alpha_permille s,
      st_approach_max_ticks := st_approach_max_ticks s,
      st_approach_min_power_ratio_permille := st_approach_min_power_ratio_permille s,
      st_auto_adjustable_working_floor_mv := st_auto_adjustable_working_floor_mv s,
      st_heater_current_reserve_ma := st_heater_current_reserve_ma s\<rparr>"

lemma length_encode_settings [simp]: "length (encode_thermal_control_profile_settings s) = 14"
  by (simp add: encode_thermal_control_profile_settings_def)

lemma decode_settings_encode:
  assumes "settings_ok s"
  shows "decode_thermal_control_profile_settings (encode_thermal_control_profile_settings s) = inherited_defaults s"
proof -
  have "take 5 (profile_settings_values (encode_thermal_control_profile_settings s)) =
     [st_temp_filter_alpha_permille s, st_approach_max_ticks s, st_approach_min_power_ratio_permille s,
        st_auto_adjustable_working_floor_mv s, st_heater_current_reserve_ma s]"
    by (simp add: profile_settings_values_def encode_thermal_control_profile_settings_def to_le_bytes_2
        take_map Let_def upt_rec del: from_le_bytes.simps)
  then have "profile_settings_values (encode_thermal_control_profile_settings s) ! i =
     [st_temp_filter_alpha_permille s, st_approach_max_ticks s, st_approach_min_power_ratio_permille s,
        st_auto_adjustable_working_floor_mv s, st_heater_current_reserve_ma s] ! i" if "i < 5" for i
    using that by (metis nth_take)
  from this [of 0] this [of 1] this [of 2] this [of 3] this [of 4] show ?thesis
    using assms
    by (simp add: decode_thermal_control_profile_settings_def decode_global_profile_settings_def inherited_defaults_def
        settings_ok_def)
qed

lemma decode_profile_encode:
  assumes "settings_ok (profile_settings c)" "profile_points c = pack 10 xs" "length xs \<le> 10" "\<And>p. p \<in> set xs \<Longrightarrow> point_ok p"
  shows "decode_thermal_control_profile (encode_thermal_control_profile c)
    = Ret (c\<lparr>profile_settings := inherited_defaults (profile_settings c)\<rparr>)"
proof -
  let ?pts = "concat (map encode_packed_profile_point xs)"
  have enc: "encode_thermal_control_profile c = [0x54, 0x43, 0x50, 0x33]
      @ encode_thermal_control_profile_settings (profile_settings c) @ ?pts"
    using assms(2,3) by (simp add: encode_thermal_control_profile_def)
  have len: "length (encode_thermal_control_profile c) = 18 + length xs * 28"
    unfolding enc by (simp add: length_concat_const)
  have pts: "drop 18 (encode_thermal_control_profile c) = ?pts" unfolding enc by simp
  have set14: "take 14 (drop 4 (encode_thermal_control_profile c)) = encode_thermal_control_profile_settings (profile_settings c)"
    unfolding enc by simp
  have "map decode_packed_profile_point (chunks_exact 28 ?pts) = xs"
    using assms(4) by (simp add: chunks_exact_concat decode_packed_profile_point_encode map_idI)
  then show ?thesis
    using assms(2,3) len pts set14 decode_settings_encode [OF assms(1)]
    by (simp add: decode_thermal_control_profile_def decode_packed_thermal_profile_def profile_size_matches_def Let_def)
qed

definition sanitized_points :: "ThermalControlProfileConfig \<Rightarrow> ThermalControlProfilePointConfig list" where
  "sanitized_points c = take 10 (sort_key pt_target_temp_c
     (map (\<lambda>p. sanitize_thermal_profile_point p (sanitize_thermal_profile_settings (profile_settings c)))
       (flatten (profile_points c))))"

lemma sanitized_profile:
  "sanitize_thermal_control_profile c =
     \<lparr>profile_settings = sanitize_thermal_profile_settings (profile_settings c), profile_points = pack 10 (sanitized_points c)\<rparr>"
  by (simp add: sanitize_thermal_control_profile_def sanitized_points_def Let_def)

lemma length_sanitized_points: "length (sanitized_points c) \<le> 10"
  by (simp add: sanitized_points_def)

lemma sanitized_points_ok: "p \<in> set (sanitized_points c) \<Longrightarrow> point_ok p"
  by (auto simp: sanitized_points_def dest!: in_set_takeD simp: sanitized_point_ok [OF sanitized_settings_ok])

lemma sanitized_points_Nil [simp]: "sanitized_points c = [] \<longleftrightarrow> flatten (profile_points c) = []"
  by (auto simp: sanitized_points_def length_0_conv [symmetric] min_def simp del: length_0_conv)

lemma canonical_profile_split:
  "canonical_profile_for_persistence p =
     (let c = sanitize_thermal_control_profile p in
      if flatten (profile_points c) \<noteq> [] then c\<lparr>profile_settings := inherited_defaults (profile_settings c)\<rparr> else c)"
proof -
  have "list_ex (\<lambda>q. \<exists>y. q = Some y) xs \<longleftrightarrow> flatten xs \<noteq> []" for xs :: "ThermalControlProfilePointConfig option list"
    by (induction xs rule: flatten.induct) auto
  moreover have "s\<lparr>st_warmup_reenter_centi_c := 400, st_hold_entry_centi_c := 90, st_hold_exit_centi_c := 200,
      st_hold_on_centi_c := 30, st_hold_off_centi_c := 5, st_overshoot_cutoff_centi_c := 25,
      st_hold_kp_permille_per_c := 120, st_hold_ki_permille_per_c_tick := 12, st_hold_blend_ticks := 12,
      st_hold_reheat_power_permille := 0, st_approach_lead_ticks := 0, st_hold_lead_ticks := 0\<rparr>
      = inherited_defaults s" for s
    by (cases s) (simp add: inherited_defaults_def ThermalControlProfileSettingsConfig_default_def)
  ultimately show ?thesis by (simp add: canonical_profile_for_persistence_def Let_def)
qed

lemma settings_ok_inherited: "settings_ok s \<Longrightarrow> settings_ok (inherited_defaults s)"
  by (simp add: settings_ok_def inherited_defaults_def ThermalControlProfileSettingsConfig_default_def)

lemma inherited_defaults_idem [simp]: "inherited_defaults (inherited_defaults s) = inherited_defaults s"
  by (simp add: inherited_defaults_def)

text \<open>
  \<^bold>\<open>A tuned profile survives storage (C28).\<close> Whatever profile the user supplies, the form the firmware
  persists is decoded from its packed bytes as a profile with the same points, value for value, and the
  same five global settings. The twelve settings that a point inherits come back as their defaults;
  for a profile with at least one point these are the settings it was stored with, so the
  whole profile comes back unchanged.
\<close>

theorem profile_survives_storage:
  defines "c \<equiv> canonical_profile_for_persistence"
  shows "decode_thermal_control_profile (encode_thermal_control_profile (c p))
      = Ret ((c p)\<lparr>profile_settings := inherited_defaults (profile_settings (c p))\<rparr>)
    \<and> (flatten (profile_points p) \<noteq> [] \<longrightarrow>
         decode_thermal_control_profile (encode_thermal_control_profile (c p)) = Ret (c p))"
proof -
  let ?q = "sanitize_thermal_control_profile p"
  have "profile_points (c p) = pack 10 (sanitized_points p)" "settings_ok (profile_settings (c p))"
    by (auto simp: c_def canonical_profile_split Let_def settings_ok_inherited sanitized_profile sanitized_settings_ok)
  then have "decode_thermal_control_profile (encode_thermal_control_profile (c p))
      = Ret ((c p)\<lparr>profile_settings := inherited_defaults (profile_settings (c p))\<rparr>)"
    by (intro decode_profile_encode) (auto simp: length_sanitized_points sanitized_points_ok)
  then show ?thesis by (auto simp: c_def canonical_profile_split Let_def sanitized_profile)
qed

definition bench_point :: ThermalControlProfilePointConfig where
  "bench_point = sanitize_thermal_profile_point
     \<lparr>pt_target_temp_c = 180, pt_brake_distance_centi_c = 900, pt_warmup_power_permille = 1000,
      pt_warmup_reenter_centi_c = 0, pt_approach_power_permille = 420, pt_approach_floor_power_permille = 150,
      pt_approach_damping_exponent_permille = 1200, pt_approach_tail_window_centi_c = 110, pt_hold_power_permille = 180,
      pt_hold_reheat_power_permille = 0, pt_hold_entry_centi_c = 0, pt_hold_exit_centi_c = 0, pt_hold_on_centi_c = 0,
      pt_hold_off_centi_c = 0, pt_overshoot_cutoff_centi_c = 0, pt_hold_kp_permille_per_c = 0,
      pt_hold_ki_permille_per_c_tick = 0, pt_hold_blend_ticks = 0, pt_approach_lead_ticks = 3, pt_hold_lead_ticks = 4\<rparr>
     ThermalControlProfileSettingsConfig_default"

definition bench_profile :: ThermalControlProfileConfig where
  "bench_profile = ThermalControlProfileConfig_default\<lparr>profile_points := Some bench_point # replicate 9 None\<rparr>"

theorem profile_survives_storage_witness:
  "decode_thermal_control_profile (encode_thermal_control_profile (canonical_profile_for_persistence bench_profile))
     = Ret (canonical_profile_for_persistence bench_profile)"
proof -
  have "flatten (profile_points bench_profile) \<noteq> []" by (simp add: bench_profile_def)
  then show ?thesis using profile_survives_storage [of bench_profile] by blast
qed

section \<open>Decoding reads inside its payload\<close>

lemma rbind_Panic_iff: "rbind m f = Panic \<longleftrightarrow> m = Panic \<or> (\<exists>x. m = Ret x \<and> f x = Panic)"
  by (cases m) auto

lemma rust_map_Panic_iff: "rust_map f xs = Panic \<longleftrightarrow> (\<exists>x\<in>set xs. f x = Panic)"
proof (induction xs)
  case (Cons x xs)
  then show ?case by (cases "f x"; cases "rust_map f xs") auto
qed simp

lemma length_rust_map: "rust_map f xs = Ret ys \<Longrightarrow> length ys = length xs"
  by (induction xs arbitrary: ys) auto

lemma read_profile_u16_Panic: "read_profile_u16 bs cursor offset = Panic \<longleftrightarrow> length bs \<le> cursor + offset + 1"
  by (simp add: read_profile_u16_def)

definition point_lens :: "nat list" where
  "point_lens = [8, 28, 30, 32, 34, 36, 38]"

lemma hold_offsets_inside:
  assumes "n \<in> set point_lens" "Some offset \<in> set (profile_hold_offsets n)"
  shows "offset + 1 < n"
  using assms
  by (auto simp: point_lens_def profile_hold_offsets_def PROFILE_HOLD_OFFSETS_POINT_WARMUP_REENTER_def
      PROFILE_HOLD_OFFSETS_POINT_HOLD_ON_def PROFILE_HOLD_OFFSETS_CURRENT_def PROFILE_HOLD_OFFSETS_WARMUP_def
      PROFILE_HOLD_OFFSETS_HOLD_REHEAT_def PROFILE_HOLD_OFFSETS_LEAD_TICKS_def)

lemma decode_profile_hold_returns:
  assumes "n \<in> set point_lens" "cursor + n \<le> length bs"
  shows "decode_profile_hold bs cursor n s \<noteq> Panic"
proof -
  have "\<not> length bs \<le> cursor + offset + 1" if "(Some offset, y) \<in> set (zip (profile_hold_offsets n) ys)" for offset y ys
    using hold_offsets_inside [OF assms(1), of offset] assms(2) set_zip_leftD [OF that] by linarith
  then show ?thesis
    unfolding decode_profile_hold_def rbind_Panic_iff rust_map_Panic_iff
    by (fastforce simp: read_profile_u16_Panic split: option.splits)
qed

lemma decode_legacy_profile_point_returns:
  assumes "n \<in> set point_lens" "cursor + n \<le> length bs"
  shows "decode_legacy_profile_point bs cursor n s \<noteq> Panic"
proof -
  have in8: "\<not> length bs \<le> cursor + offset + 1" if "offset < 7" for offset
    using assms that by (auto simp: point_lens_def)
  have "decode_profile_approach bs cursor n \<noteq> Panic" "decode_profile_tail_window bs cursor n \<noteq> Panic"
    using assms
    by (auto simp: point_lens_def decode_profile_approach_def decode_profile_tail_window_def rbind_Panic_iff
        read_profile_u16_Panic)
  moreover have "decode_profile_power bs cursor n x s \<noteq> Panic" for x
    using assms by (auto simp: point_lens_def decode_profile_power_def rbind_Panic_iff read_profile_u16_Panic)
  ultimately show ?thesis
    unfolding decode_legacy_profile_point_def
    using in8 [of 0] in8 [of 2] decode_profile_hold_returns [OF assms, of s]
    by (auto simp: rbind_Panic_iff read_profile_u16_Panic split: prod.splits if_splits)
qed

lemma legacy_layout_lens: "decode_legacy_profile_layout bs = (c, cursor, n) \<Longrightarrow> n \<in> set point_lens"
  by (auto simp: decode_legacy_profile_layout_def decode_marked_profile_layout_def decode_point_only_layout_def
      THERMAL_PROFILE_LEGACY_LAYOUTS_def THERMAL_PROFILE_POINT_ONLY_LAYOUTS_def point_lens_def Let_def find_Some_iff
      split: option.splits if_splits dest!: find_SomeD)

lemma legacy_layout_slots: "decode_legacy_profile_layout bs = (c, cursor, n) \<Longrightarrow> length (profile_points c) = 10"
  by (auto simp: decode_legacy_profile_layout_def decode_marked_profile_layout_def ThermalControlProfileConfig_default_def
      Let_def split: option.splits if_splits)

lemma decode_profile_total:
  "\<exists>c. decode_thermal_control_profile bs = Ret c \<and> length (profile_points c) = THERMAL_CONTROL_PROFILE_MAX_POINTS"
proof (cases "decode_packed_thermal_profile bs")
  case (Some c)
  then show ?thesis
    by (auto simp: decode_thermal_control_profile_def decode_packed_thermal_profile_def Let_def split: if_splits)
next
  case None
  obtain c cursor n where l: "decode_legacy_profile_layout bs = (c, cursor, n)" by (cases "decode_legacy_profile_layout bs")
  let ?count = "min ((length bs - cursor) div n) (length (profile_points c))"
  let ?f = "\<lambda>index. decode_legacy_profile_point bs (cursor + index * n) n (profile_settings c)"
  have n: "n \<in> set point_lens" using legacy_layout_lens [OF l] .
  have "?f index \<noteq> Panic" if "index < ?count" for index
  proof (rule decode_legacy_profile_point_returns [OF n])
    have "Suc index * n \<le> (length bs - cursor) div n * n" using that by (intro mult_le_mono1) simp
    also have "\<dots> \<le> length bs - cursor" by simp
    finally have "n + index * n \<le> length bs - cursor" by simp
    moreover have "0 < n" using n by (auto simp: point_lens_def)
    ultimately show "cursor + index * n + n \<le> length bs" by linarith
  qed
  then have "rust_map ?f [0..<?count] \<noteq> Panic" by (auto simp: rust_map_Panic_iff)
  then obtain ys where ys: "rust_map ?f [0..<?count] = Ret ys" by (cases "rust_map ?f [0..<?count]") auto
  then show ?thesis
    using None l legacy_layout_slots [OF l] length_rust_map [OF ys] by (simp add: decode_thermal_control_profile_def)
qed

text \<open>
  \<^bold>\<open>No stored profile can crash the decoder.\<close> Whatever bytes a profile field holds and however
  long it is, decoding returns a profile of ten slots: no read of any of the layouts leaves the payload.
\<close>

theorem profile_decoding_never_panics:
  "\<exists>c. decode_thermal_control_profile bs = Ret c \<and> length (profile_points c) = THERMAL_CONTROL_PROFILE_MAX_POINTS"
  by (rule decode_profile_total)

section \<open>A legacy payload read as a packed one\<close>

text \<open>A profile as an earlier firmware stored it: fifteen settings and two points of four words.\<close>

definition legacy_two_points :: "u8 list" where
  "legacy_two_points =
     [238, 2, 144, 1, 90, 0, 200, 0, 30, 0, 5, 0, 25, 0, 5, 0, 0, 0, 120, 0, 12, 0, 12, 0, 0, 0, 0, 0, 0, 0,
      100, 0, 244, 1, 144, 1, 200, 0, 200, 0, 88, 2, 194, 1, 250, 0]"

definition profile_targets :: "ThermalControlProfileConfig rust \<Rightarrow> i16 list" where
  "profile_targets c = (case c of Panic \<Rightarrow> [] | Ret c \<Rightarrow> map pt_target_temp_c (flatten (profile_points c)))"

text \<open>
  \<^bold>\<open>An older profile of matching size is misread.\<close> The decoder tries the packed layout first and
  recognises it by size alone, although the packed bytes start with the marker \<open>TCP3\<close>. The legacy
  profile above has no such marker, its layout is the supported one of 30 bytes of settings and 8 per point,
  and its points are at 100 and 200 degrees; the decoder returns a single point at 120 degrees.
\<close>

theorem unmarked_profile_is_read_as_packed:
  "is_supported_thermal_control_profile legacy_two_points
   \<and> \<not> starts_with legacy_two_points THERMAL_CONTROL_PROFILE_PACKED_LAYOUT_MARKER
   \<and> snd (decode_legacy_profile_layout legacy_two_points) = (30, 8)
   \<and> rust_map (\<lambda>cursor. decode_profile_approach legacy_two_points cursor 8) [30, 38] = Ret [(400, 400), (450, 450)]
   \<and> rust_map (\<lambda>cursor. read_profile_u16 legacy_two_points cursor 0) [30, 38] = Ret [100, 200]
   \<and> profile_targets (decode_thermal_control_profile legacy_two_points) = [120]"
proof (intro conjI)
  have [simp]: "length legacy_two_points = 46" by (simp add: legacy_two_points_def)
  have find: "List.find (\<lambda>(settings_len, point_len). profile_size_matches 46 settings_len point_len)
      THERMAL_PROFILE_LEGACY_LAYOUTS = Some (30, 8)"
    by (simp add: THERMAL_PROFILE_LEGACY_LAYOUTS_def profile_size_matches_def)
  show "is_supported_thermal_control_profile legacy_two_points"
    by (simp add: is_supported_thermal_control_profile_def THERMAL_PROFILE_LEGACY_LAYOUTS_def profile_size_matches_def)
  show n: "\<not> starts_with legacy_two_points THERMAL_CONTROL_PROFILE_PACKED_LAYOUT_MARKER"
    by (simp add: starts_with_def legacy_two_points_def)
  have "\<not> starts_with legacy_two_points THERMAL_CONTROL_PROFILE_LAYOUT_MARKER"
    by (simp add: starts_with_def legacy_two_points_def)
  then show "snd (decode_legacy_profile_layout legacy_two_points) = (30, 8)"
    using find by (simp add: decode_legacy_profile_layout_def decode_marked_profile_layout_def Let_def)
  show "rust_map (\<lambda>cursor. read_profile_u16 legacy_two_points cursor 0) [30, 38] = Ret [100, 200]"
    by (simp add: read_profile_u16_def) (simp add: legacy_two_points_def)
  show "rust_map (\<lambda>cursor. decode_profile_approach legacy_two_points cursor 8) [30, 38] = Ret [(400, 400), (450, 450)]"
    by (simp add: decode_profile_approach_def read_profile_u16_def) (simp add: legacy_two_points_def)
  have pt: "pt_target_temp_c (decode_packed_profile_point bs) = sint (fst (read_packed_profile_value bs 0 9))" for bs
    by (simp add: decode_packed_profile_point_def packed_widths_def packed_values_Cons)
  have "drop 18 legacy_two_points = take 28 (drop 18 legacy_two_points)" by simp
  moreover have "fst (read_packed_profile_value (take 28 (drop 18 legacy_two_points)) 0 9) = 120"
    by (simp add: read_packed_profile_value_def legacy_two_points_def upt_rec)
  ultimately show "profile_targets (decode_thermal_control_profile legacy_two_points) = [120]"
    by (simp add: profile_targets_def decode_thermal_control_profile_def decode_packed_thermal_profile_def profile_size_matches_def
        chunks_exact_def pt)
qed

end
