(* ===== verification/Calibration.thy ===== *)
theory Calibration
  imports Thermal_Profile "HOL-Library.Multiset"
begin

text \<open>
  The calibration data of \<open>src/firmware/src/memory.rs\<close>: ADC samples and the two linear fits per channel,
  the heater curve and its raw observations, and the thermal-plant transient with its structure check.
  Cleaning, the operations on a channel, and the stored form of each.

  A value of type \<open>f32\<close> is its bit pattern, a \<open>u32\<close>: the code only stores, compares and classifies
  these values here, and sign, exponent and magnitude give every comparison. Least-squares fitting and
  the correction of a reading are floating-point arithmetic and are not modelled.

  The lemmas show that cleaning is idempotent, that the insertion sort of the raw observations sorts, and
  that each stored form gives back what was stored.
\<close>

section \<open>Data\<close>

type_synonym f32 = u32

definition ADC_CALIBRATION_MAX_SAMPLES :: nat where [simp]: "ADC_CALIBRATION_MAX_SAMPLES = 8"
definition HEATER_CURVE_MAX_POINTS :: nat where [simp]: "HEATER_CURVE_MAX_POINTS = 8"
definition THERMAL_PLANT_ANCHOR_COUNT :: nat where [simp]: "THERMAL_PLANT_ANCHOR_COUNT = 2"
definition THERMAL_PLANT_TRANSIENT_MAX_SAMPLES :: nat where [simp]: "THERMAL_PLANT_TRANSIENT_MAX_SAMPLES = 128"
definition THERMAL_PLANT_TRANSIENT_MIN_POWERED_SAMPLES :: u8 where
  [simp]: "THERMAL_PLANT_TRANSIENT_MIN_POWERED_SAMPLES = 12"
definition THERMAL_PLANT_TRANSIENT_HEATER_VOLTAGE_QUANTUM_MV :: u16 where
  [simp]: "THERMAL_PLANT_TRANSIENT_HEATER_VOLTAGE_QUANTUM_MV = 125"
definition THERMAL_PLANT_TRANSIENT_MAX_HEATER_VOLTAGE_MV :: u16 where
  [simp]: "THERMAL_PLANT_TRANSIENT_MAX_HEATER_VOLTAGE_MV = 28000"
definition THERMAL_PLANT_TRANSIENT_MAX_HEATER_VOLTAGE_125MV :: u8 where
  [simp]: "THERMAL_PLANT_TRANSIENT_MAX_HEATER_VOLTAGE_125MV = 224"
definition THERMAL_PLANT_TRANSIENT_MIN_HEATER_VOLTAGE_125MV :: u8 where
  [simp]: "THERMAL_PLANT_TRANSIENT_MIN_HEATER_VOLTAGE_125MV = 40"
definition CALIBRATION_REFERENCE_NONE_WIRE_VALUE :: i16 where
  [simp]: "CALIBRATION_REFERENCE_NONE_WIRE_VALUE = - 32768"

text \<open>6000.0, 2000.0 and 0.00001 as single-precision numbers.\<close>

definition THERMAL_PLANT_TRANSIENT_MIN_CAPACITY_MJ_PER_C :: f32 where
  [simp]: "THERMAL_PLANT_TRANSIENT_MIN_CAPACITY_MJ_PER_C = 0x45bb8000"
definition THERMAL_PLANT_TRANSIENT_MAX_CONVECTION_MW_PER_C :: f32 where
  [simp]: "THERMAL_PLANT_TRANSIENT_MAX_CONVECTION_MW_PER_C = 0x44fa0000"
definition THERMAL_PLANT_TRANSIENT_MAX_RADIATION_MW_PER_K4 :: f32 where
  [simp]: "THERMAL_PLANT_TRANSIENT_MAX_RADIATION_MW_PER_K4 = 0x3727c5ac"

datatype AdcCalibrationChannel = RtdChannel | VinChannel

datatype AdcCalibrationSlotId = SlotIdA | SlotIdB

record AdcCalibrationSample =
  observed_mv :: u16
  expected_mv :: u16
  reference_temp_deci_c :: "i16 option"
  target_adc_mv :: "u16 option"
  reference_vin_mv :: "u16 option"

record AdcCalibrationSlotFit =
  fit_gain :: f32
  fit_offset_mv :: f32

record AdcCalibrationSlots =
  slots_a :: AdcCalibrationSlotFit
  slots_b :: AdcCalibrationSlotFit

record AdcCalibrationChannelConfig =
  ch_samples :: "AdcCalibrationSample option list"
  ch_slots :: AdcCalibrationSlots
  ch_active_slot :: AdcCalibrationSlotId

record AdcCalibrationConfig =
  cal_rtd :: AdcCalibrationChannelConfig
  cal_vin :: AdcCalibrationChannelConfig

record HeaterCurvePoint =
  hc_temp_centi_c :: i16
  hc_resistance_milliohms :: u16

type_synonym HeaterCurveConfig = "HeaterCurvePoint option list"

record HeaterCurveRawObservation =
  ro_raw_rtd_adc_mv :: u16
  ro_heater_voltage_mv :: u16
  ro_heater_current_ma :: u16
  ro_resistance_milliohms :: u16

type_synonym HeaterCurveRawObservations = "HeaterCurveRawObservation option list"

record ThermalPlantRawAnchor =
  ra_ambient_raw_rtd_adc_mv :: u16
  ra_target_raw_rtd_adc_mv :: u16
  ra_heater_voltage_mv :: u16
  ra_heater_current_ma :: u16
  ra_gate_off_idle_power_mw :: u32
  ra_steady_hold_power_mw :: u32
  ra_ramp_duration_ms :: u32
  ra_ramp_energy_mj :: u32

record ThermalPlantRawTransaction =
  rt_transaction_id :: u32
  rt_anchors :: "ThermalPlantRawAnchor list"

record ThermalPlantTransientSample =
  ts_elapsed_ticks :: u32
  ts_raw_rtd_adc_mv :: u16
  ts_heater_voltage_125mv :: u8
  ts_duty_percent :: u8

record ThermalPlantProjectionRecord =
  pr_convection_mw_per_c_bits :: u32
  pr_radiation_mw_per_k4_bits :: u32
  pr_thermal_capacity_mj_per_c_bits :: u32
  pr_transport_delay_ms :: u32

record ThermalPlantTransientTransaction =
  tt_transaction_id :: u32
  tt_ambient_raw_rtd_adc_mv :: u16
  tt_sample_count :: u8
  tt_projection :: ThermalPlantProjectionRecord
  tt_samples :: "ThermalPlantTransientSample list"

definition AdcCalibrationSlotFit_default :: AdcCalibrationSlotFit where
  "AdcCalibrationSlotFit_default = \<lparr>fit_gain = 0x3f800000, fit_offset_mv = 0\<rparr>"

definition AdcCalibrationSlots_default :: AdcCalibrationSlots where
  "AdcCalibrationSlots_default = \<lparr>slots_a = AdcCalibrationSlotFit_default, slots_b = AdcCalibrationSlotFit_default\<rparr>"

definition AdcCalibrationChannelConfig_default :: AdcCalibrationChannelConfig where
  "AdcCalibrationChannelConfig_default =
     \<lparr>ch_samples = replicate ADC_CALIBRATION_MAX_SAMPLES None, ch_slots = AdcCalibrationSlots_default,
      ch_active_slot = SlotIdA\<rparr>"

definition AdcCalibrationConfig_default :: AdcCalibrationConfig where
  "AdcCalibrationConfig_default =
     \<lparr>cal_rtd = AdcCalibrationChannelConfig_default, cal_vin = AdcCalibrationChannelConfig_default\<rparr>"

definition HeaterCurveConfig_default :: HeaterCurveConfig where
  "HeaterCurveConfig_default = replicate HEATER_CURVE_MAX_POINTS None"

definition HeaterCurveRawObservations_default :: HeaterCurveRawObservations where
  "HeaterCurveRawObservations_default = replicate HEATER_CURVE_MAX_POINTS None"

section \<open>Operations on a channel\<close>

fun cal_channel :: "AdcCalibrationConfig \<Rightarrow> AdcCalibrationChannel \<Rightarrow> AdcCalibrationChannelConfig" where
  "cal_channel c RtdChannel = cal_rtd c"
| "cal_channel c VinChannel = cal_vin c"

definition sample_count :: "AdcCalibrationChannelConfig \<Rightarrow> nat" where
  "sample_count c = length (flatten (ch_samples c))"

definition insert_sample :: "AdcCalibrationSample \<Rightarrow> AdcCalibrationChannelConfig \<Rightarrow> AdcCalibrationChannelConfig \<times> nat option" where
  "insert_sample s c =
     (case position (\<lambda>slot. slot = None) (ch_samples c) of
        Some index \<Rightarrow> (c\<lparr>ch_samples := (ch_samples c)[index := Some s]\<rparr>, Some index)
      | None \<Rightarrow> (c, None))"

definition delete_sample :: "nat \<Rightarrow> AdcCalibrationChannelConfig \<Rightarrow> AdcCalibrationChannelConfig \<times> bool" where
  "delete_sample index c =
     (if index < length (ch_samples c)
      then (c\<lparr>ch_samples := (ch_samples c)[index := None]\<rparr>, ch_samples c ! index \<noteq> None)
      else (c, False))"

definition clear_samples :: "AdcCalibrationChannelConfig \<Rightarrow> AdcCalibrationChannelConfig" where
  "clear_samples c = c\<lparr>ch_samples := replicate ADC_CALIBRATION_MAX_SAMPLES None\<rparr>"

fun slot_fit :: "AdcCalibrationChannelConfig \<Rightarrow> AdcCalibrationSlotId \<Rightarrow> AdcCalibrationSlotFit" where
  "slot_fit c SlotIdA = slots_a (ch_slots c)"
| "slot_fit c SlotIdB = slots_b (ch_slots c)"

fun set_slot_fit :: "AdcCalibrationSlotId \<Rightarrow> AdcCalibrationSlotFit \<Rightarrow> AdcCalibrationChannelConfig \<Rightarrow> AdcCalibrationChannelConfig" where
  "set_slot_fit SlotIdA f c = c\<lparr>ch_slots := (ch_slots c)\<lparr>slots_a := f\<rparr>\<rparr>"
| "set_slot_fit SlotIdB f c = c\<lparr>ch_slots := (ch_slots c)\<lparr>slots_b := f\<rparr>\<rparr>"

definition active_slot_fit :: "AdcCalibrationChannelConfig \<Rightarrow> AdcCalibrationSlotFit" where
  "active_slot_fit c = slot_fit c (ch_active_slot c)"

definition adc_calibration_active_slot_fit :: "AdcCalibrationConfig \<Rightarrow> AdcCalibrationChannel \<Rightarrow> AdcCalibrationSlotFit" where
  "adc_calibration_active_slot_fit c channel = active_slot_fit (cal_channel c channel)"

section \<open>Single-precision comparisons\<close>

definition f32_exponent :: "f32 \<Rightarrow> u32" where
  "f32_exponent x = drop_bit 23 x AND 0xff"

definition f32_magnitude :: "f32 \<Rightarrow> u32" where
  "f32_magnitude x = x AND 0x7fffffff"

definition f32_is_finite :: "f32 \<Rightarrow> bool" where
  "f32_is_finite x \<longleftrightarrow> f32_exponent x \<noteq> 0xff"

definition f32_is_nan :: "f32 \<Rightarrow> bool" where
  "f32_is_nan x \<longleftrightarrow> f32_exponent x = 0xff \<and> x AND 0x7fffff \<noteq> 0"

definition f32_value_key :: "f32 \<Rightarrow> int" where
  "f32_value_key x = (if bit x 31 then - uint (f32_magnitude x) else uint (f32_magnitude x))"

definition f32_le :: "f32 \<Rightarrow> f32 \<Rightarrow> bool" where
  "f32_le x y \<longleftrightarrow> \<not> f32_is_nan x \<and> \<not> f32_is_nan y \<and> f32_value_key x \<le> f32_value_key y"

definition f32_eq :: "f32 \<Rightarrow> f32 \<Rightarrow> bool" where
  "f32_eq x y \<longleftrightarrow> \<not> f32_is_nan x \<and> \<not> f32_is_nan y \<and> f32_value_key x = f32_value_key y"

section \<open>Cleaning\<close>

definition sanitize_channel_slot_fit :: "AdcCalibrationSlotFit \<Rightarrow> AdcCalibrationSlotFit" where
  "sanitize_channel_slot_fit f =
     \<lparr>fit_gain = (if \<not> f32_is_finite (fit_gain f) \<or> f32_eq (fit_gain f) 0 then 0x3f800000 else fit_gain f),
      fit_offset_mv = (if \<not> f32_is_finite (fit_offset_mv f) then 0 else fit_offset_mv f)\<rparr>"

definition compact_channel :: "AdcCalibrationChannelConfig \<Rightarrow> AdcCalibrationChannelConfig" where
  "compact_channel c =
     c\<lparr>ch_samples := fold push_slot (flatten (ch_samples c)) (replicate ADC_CALIBRATION_MAX_SAMPLES None)\<rparr>"

definition sanitize_slots :: "AdcCalibrationChannelConfig \<Rightarrow> AdcCalibrationChannelConfig" where
  "sanitize_slots c = c\<lparr>ch_slots := \<lparr>slots_a = sanitize_channel_slot_fit (slots_a (ch_slots c)),
     slots_b = sanitize_channel_slot_fit (slots_b (ch_slots c))\<rparr>\<rparr>"

definition sanitize_adc_calibration :: "AdcCalibrationConfig \<Rightarrow> AdcCalibrationConfig" where
  "sanitize_adc_calibration c =
     \<lparr>cal_rtd = sanitize_slots (compact_channel (cal_rtd c)), cal_vin = sanitize_slots (compact_channel (cal_vin c))\<rparr>"

definition compacted_heater_points :: "HeaterCurveConfig \<Rightarrow> HeaterCurvePoint list" where
  "compacted_heater_points c = sort_key hc_temp_centi_c (flatten c)"

definition sanitize_heater_curve :: "HeaterCurveConfig \<Rightarrow> HeaterCurveConfig" where
  "sanitize_heater_curve c = pack HEATER_CURVE_MAX_POINTS (compacted_heater_points c)"

text \<open>The insertion sort of the raw observations: slot \<open>cursor\<close> is free and \<open>point\<close> moves left past
  every later reading.\<close>

definition reads_later :: "HeaterCurveRawObservation option \<Rightarrow> HeaterCurveRawObservation option \<Rightarrow> bool" where
  "reads_later x y =
     (case (x, y) of (Some a, Some b) \<Rightarrow> ro_raw_rtd_adc_mv a > ro_raw_rtd_adc_mv b
      | (Some _, None) \<Rightarrow> True | (None, _) \<Rightarrow> False)"

fun sift_left :: "HeaterCurveRawObservations \<Rightarrow> HeaterCurveRawObservation option \<Rightarrow> nat \<Rightarrow> HeaterCurveRawObservations" where
  "sift_left xs point 0 = xs[0 := point]"
| "sift_left xs point (Suc c) =
     (if reads_later (xs ! c) point then sift_left (xs[Suc c := xs ! c]) point c else xs[Suc c := point])"

definition sanitize_heater_curve_raw_observations :: "HeaterCurveRawObservations \<Rightarrow> HeaterCurveRawObservations" where
  "sanitize_heater_curve_raw_observations c =
     (let kept = filter (\<lambda>p. \<not> (ro_raw_rtd_adc_mv p = 0 \<or> ro_heater_voltage_mv p = 0 \<or> ro_heater_current_ma p = 0
                            \<or> ro_resistance_milliohms p = 0)) (flatten c);
          compacted = pack HEATER_CURVE_MAX_POINTS kept
      in fold (\<lambda>index xs. sift_left xs (xs ! index) index) [1..<length kept] compacted)"

definition thermal_plant_raw_transaction_is_complete :: "ThermalPlantRawTransaction \<Rightarrow> bool" where
  "thermal_plant_raw_transaction_is_complete t \<longleftrightarrow>
     rt_transaction_id t \<noteq> 0
     \<and> list_all (\<lambda>a. ra_ambient_raw_rtd_adc_mv a > 0 \<and> ra_target_raw_rtd_adc_mv a > ra_ambient_raw_rtd_adc_mv a
         \<and> ra_heater_voltage_mv a > 0 \<and> ra_heater_current_ma a > 0
         \<and> ra_steady_hold_power_mw a > ra_gate_off_idle_power_mw a
         \<and> ra_ramp_duration_ms a > 0 \<and> ra_ramp_energy_mj a > 0) (rt_anchors t)"

section \<open>The thermal-plant transient\<close>

definition quantize_thermal_plant_heater_voltage_mv :: "u32 \<Rightarrow> u8" where
  "quantize_thermal_plant_heater_voltage_mv voltage_mv =
     (let clamped_mv = if voltage_mv > ucast THERMAL_PLANT_TRANSIENT_MAX_HEATER_VOLTAGE_MV
                       then ucast THERMAL_PLANT_TRANSIENT_MAX_HEATER_VOLTAGE_MV else voltage_mv
      in ucast ((clamped_mv + ucast (THERMAL_PLANT_TRANSIENT_HEATER_VOLTAGE_QUANTUM_MV div 2))
                div ucast THERMAL_PLANT_TRANSIENT_HEATER_VOLTAGE_QUANTUM_MV))"

definition thermal_plant_heater_voltage_mv :: "u8 \<Rightarrow> u16" where
  "thermal_plant_heater_voltage_mv code = ucast code * THERMAL_PLANT_TRANSIENT_HEATER_VOLTAGE_QUANTUM_MV"

definition THERMAL_PLANT_COOLING_VOLTAGE_SENTINEL :: u8 where [simp]: "THERMAL_PLANT_COOLING_VOLTAGE_SENTINEL = 255"
definition THERMAL_PLANT_FAN_COOLING_VOLTAGE_SENTINEL :: u8 where
  [simp]: "THERMAL_PLANT_FAN_COOLING_VOLTAGE_SENTINEL = 254"

definition thermal_plant_sample_is_cooling :: "ThermalPlantTransientSample \<Rightarrow> bool" where
  "thermal_plant_sample_is_cooling s \<longleftrightarrow>
     ts_heater_voltage_125mv s \<in> {THERMAL_PLANT_COOLING_VOLTAGE_SENTINEL, THERMAL_PLANT_FAN_COOLING_VOLTAGE_SENTINEL}"

definition thermal_plant_sample_is_fan_assisted_cooling :: "ThermalPlantTransientSample \<Rightarrow> bool" where
  "thermal_plant_sample_is_fan_assisted_cooling s \<longleftrightarrow>
     ts_heater_voltage_125mv s = THERMAL_PLANT_FAN_COOLING_VOLTAGE_SENTINEL"

definition thermal_plant_sample_voltage_125mv :: "ThermalPlantTransientSample \<Rightarrow> u8" where
  "thermal_plant_sample_voltage_125mv s = (if thermal_plant_sample_is_cooling s then 0 else ts_heater_voltage_125mv s)"

definition rposition :: "('a \<Rightarrow> bool) \<Rightarrow> 'a list \<Rightarrow> nat option" where
  "rposition p xs = map_option (\<lambda>i. length xs - 1 - i) (position p (rev xs))"

record TransientScan =
  sc_powered_sample_count :: u8
  sc_has_cooling_sample :: bool
  sc_peak_raw_rtd_adc_mv :: u16

text \<open>One turn of the loop over the samples; \<open>None\<close> is \<open>return false\<close>.\<close>

definition scan_sample ::
  "ThermalPlantTransientSample list \<Rightarrow> nat option \<Rightarrow> nat \<Rightarrow> TransientScan \<Rightarrow> TransientScan option" where
  "scan_sample samples last_powered index st =
     (let s = samples ! index in
      if ts_raw_rtd_adc_mv s = 0 \<or> ts_duty_percent s > 100
         \<or> (thermal_plant_sample_is_cooling s \<and> ts_duty_percent s \<noteq> 0)
         \<or> (\<not> thermal_plant_sample_is_cooling s
             \<and> ts_heater_voltage_125mv s > THERMAL_PLANT_TRANSIENT_MAX_HEATER_VOLTAGE_125MV)
      then None
      else if index > 0 \<and> ts_elapsed_ticks s \<le> ts_elapsed_ticks (samples ! (index - 1)) then None
      else if thermal_plant_sample_is_cooling s
      then Some (if (case last_powered of Some l \<Rightarrow> index > l | None \<Rightarrow> False)
                 then st\<lparr>sc_has_cooling_sample :=
                        sc_has_cooling_sample st \<or> ts_raw_rtd_adc_mv s < sc_peak_raw_rtd_adc_mv st\<rparr>
                 else st)
      else if ts_duty_percent s = 0 then Some st
      else if ts_duty_percent s = 100 \<and> ts_heater_voltage_125mv s > 0
      then Some (st\<lparr>sc_powered_sample_count :=
                     (if ts_heater_voltage_125mv s \<ge> THERMAL_PLANT_TRANSIENT_MIN_HEATER_VOLTAGE_125MV
                      then sat_add (sc_powered_sample_count st) 1 else sc_powered_sample_count st),
                   sc_peak_raw_rtd_adc_mv := max (sc_peak_raw_rtd_adc_mv st) (ts_raw_rtd_adc_mv s)\<rparr>)
      else None)"

fun scan_samples ::
  "ThermalPlantTransientSample list \<Rightarrow> nat option \<Rightarrow> nat list \<Rightarrow> TransientScan \<Rightarrow> TransientScan option" where
  "scan_samples samples last_powered [] st = Some st"
| "scan_samples samples last_powered (index # rest) st =
     (case scan_sample samples last_powered index st of
        None \<Rightarrow> None | Some st \<Rightarrow> scan_samples samples last_powered rest st)"

definition thermal_plant_transient_transaction_has_valid_structure :: "ThermalPlantTransientTransaction \<Rightarrow> bool" where
  "thermal_plant_transient_transaction_has_valid_structure t =
     (if tt_transaction_id t = 0 \<or> tt_ambient_raw_rtd_adc_mv t = 0
         \<or> \<not> (24 \<le> tt_sample_count t \<and> tt_sample_count t \<le> of_nat THERMAL_PLANT_TRANSIENT_MAX_SAMPLES)
      then False
      else let samples = take (unat (tt_sample_count t)) (tt_samples t) in
        if samples = [] \<or> ts_duty_percent (hd samples) \<noteq> 0 \<or> thermal_plant_sample_is_cooling (hd samples) then False
        else let last_powered = rposition (\<lambda>s. \<not> thermal_plant_sample_is_cooling s \<and> ts_duty_percent s \<noteq> 0) samples in
          case scan_samples samples last_powered [0..<length samples]
                 \<lparr>sc_powered_sample_count = 0, sc_has_cooling_sample = False, sc_peak_raw_rtd_adc_mv = 0\<rparr> of
            None \<Rightarrow> False
          | Some st \<Rightarrow> sc_powered_sample_count st \<ge> THERMAL_PLANT_TRANSIENT_MIN_POWERED_SAMPLES
              \<and> sc_has_cooling_sample st \<and> sc_peak_raw_rtd_adc_mv st > tt_ambient_raw_rtd_adc_mv t)"

text \<open>2000000.0 is \<open>0x49f42400\<close>.\<close>

definition thermal_plant_transient_transaction_is_complete :: "ThermalPlantTransientTransaction \<Rightarrow> bool" where
  "thermal_plant_transient_transaction_is_complete t \<longleftrightarrow>
     thermal_plant_transient_transaction_has_valid_structure t
     \<and> (let p = tt_projection t; convection = pr_convection_mw_per_c_bits p;
            radiation = pr_radiation_mw_per_k4_bits p; capacity = pr_thermal_capacity_mj_per_c_bits p
        in f32_is_finite convection \<and> f32_is_finite radiation \<and> f32_is_finite capacity
           \<and> f32_le 0 convection \<and> f32_le convection THERMAL_PLANT_TRANSIENT_MAX_CONVECTION_MW_PER_C
           \<and> f32_le 0 radiation \<and> f32_le radiation THERMAL_PLANT_TRANSIENT_MAX_RADIATION_MW_PER_K4
           \<and> f32_le THERMAL_PLANT_TRANSIENT_MIN_CAPACITY_MJ_PER_C capacity \<and> f32_le capacity 0x49f42400
           \<and> pr_transport_delay_ms p \<le> 10000
           \<and> (\<not> f32_eq convection 0 \<or> \<not> f32_eq radiation 0))"

definition thermal_plant_projection_from_transient ::
  "ThermalPlantTransientTransaction \<Rightarrow> ThermalPlantProjectionRecord option" where
  "thermal_plant_projection_from_transient t =
     (if thermal_plant_transient_transaction_is_complete t then Some (tt_projection t) else None)"

section \<open>What cleaning establishes\<close>

lemma fold_push_slot: "length ys + length xs \<le> n \<Longrightarrow> fold push_slot xs (pack n ys) = pack n (ys @ xs)"
  by (induction xs arbitrary: ys) (auto simp: push_slot_pack)

lemma compact_channel_pack:
  assumes "length (ch_samples c) = 8"
  shows "compact_channel c = c\<lparr>ch_samples := pack 8 (flatten (ch_samples c))\<rparr>"
proof -
  have "replicate 8 None = (pack 8 [] :: AdcCalibrationSample option list)" by (simp add: pack_def)
  then show ?thesis
    using fold_push_slot [of "[]" "flatten (ch_samples c)" 8] length_flatten_le [of "ch_samples c"] assms
    by (simp add: compact_channel_def)
qed

lemma one_finite: "f32_is_finite 0x3f800000" "\<not> f32_eq 0x3f800000 0" "f32_is_finite 0"
  by code_simp+

lemma sanitize_slot_fit_idem: "sanitize_channel_slot_fit (sanitize_channel_slot_fit f) = sanitize_channel_slot_fit f"
  by (simp add: sanitize_channel_slot_fit_def one_finite)

lemma sanitize_adc_calibration_idem:
  assumes "length (ch_samples (cal_rtd c)) = 8" "length (ch_samples (cal_vin c)) = 8"
  shows "sanitize_adc_calibration (sanitize_adc_calibration c) = sanitize_adc_calibration c"
  using assms length_flatten_le [of "ch_samples (cal_rtd c)"] length_flatten_le [of "ch_samples (cal_vin c)"]
  by (simp add: sanitize_adc_calibration_def sanitize_slots_def compact_channel_pack sanitize_slot_fit_idem)

lemma sanitize_heater_curve_idem: "sanitize_heater_curve (sanitize_heater_curve c) = sanitize_heater_curve c"
  by (simp add: sanitize_heater_curve_def compacted_heater_points_def sort_key_id_if_sorted)

text \<open>The insertion sort on the observations themselves.\<close>

fun insert_desc :: "HeaterCurveRawObservation \<Rightarrow> HeaterCurveRawObservation list \<Rightarrow> HeaterCurveRawObservation list" where
  "insert_desc x [] = [x]"
| "insert_desc x (y # ys) = (if ro_raw_rtd_adc_mv y > ro_raw_rtd_adc_mv x then y # insert_desc x ys else x # y # ys)"

definition insert_asc :: "HeaterCurveRawObservation \<Rightarrow> HeaterCurveRawObservation list \<Rightarrow> HeaterCurveRawObservation list" where
  "insert_asc x ys = rev (insert_desc x (rev ys))"

lemma mset_insert_asc [simp]: "mset (insert_asc x ys) = add_mset x (mset ys)"
proof -
  have "mset (insert_desc x zs) = add_mset x (mset zs)" for zs by (induction zs) auto
  then show ?thesis by (simp add: insert_asc_def)
qed

lemma length_insert_asc [simp]: "length (insert_asc x ys) = Suc (length ys)"
  by (metis mset_insert_asc size_mset size_add_mset)

lemma sorted_insert_asc:
  assumes "sorted (map ro_raw_rtd_adc_mv ys)"
  shows "sorted (map ro_raw_rtd_adc_mv (insert_asc x ys))"
proof -
  have set: "set (insert_desc x zs) = insert x (set zs)" for zs by (induction zs) auto
  have "sorted_wrt (\<lambda>a b. ro_raw_rtd_adc_mv b \<le> ro_raw_rtd_adc_mv a) (insert_desc x zs)"
    if "sorted_wrt (\<lambda>a b. ro_raw_rtd_adc_mv b \<le> ro_raw_rtd_adc_mv a) zs" for zs
    using that by (induction zs) (auto simp: set)
  from this [of "rev ys"] show ?thesis
    using assms by (simp add: insert_asc_def sorted_wrt_rev sorted_wrt_map)
qed

lemma insert_asc_greatest:
  "(\<And>y. y \<in> set ys \<Longrightarrow> ro_raw_rtd_adc_mv y \<le> ro_raw_rtd_adc_mv x) \<Longrightarrow> insert_asc x ys = ys @ [x]"
  by (cases ys rule: rev_cases) (fastforce simp: insert_asc_def)+

lemma sift_left_insert:
  "sift_left (map Some ys @ q # rest) (Some x) (length ys) = map Some (insert_asc x ys) @ rest"
proof (induction ys arbitrary: q rest rule: rev_induct)
  case (snoc y ys)
  show ?case
  proof (cases "ro_raw_rtd_adc_mv y > ro_raw_rtd_adc_mv x")
    case True
    then show ?thesis
      using snoc.IH [of "Some y" "Some y # rest"]
      by (simp add: reads_later_def nth_append list_update_append insert_asc_def)
  next
    case False
    then show ?thesis by (simp add: reads_later_def nth_append list_update_append insert_asc_def)
  qed
qed (simp add: insert_asc_def)

lemma sift_all:
  assumes "length ys + length xs = n"
  shows "fold (\<lambda>index zs. sift_left zs (zs ! index) index) [length ys..<n] (map Some (ys @ xs) @ rest)
    = map Some (fold insert_asc xs ys) @ rest"
  using assms
proof (induction xs arbitrary: ys)
  case (Cons x xs)
  have "[length ys..<n] = length ys # [length (insert_asc x ys)..<n]" using Cons.prems by (simp add: upt_conv_Cons)
  then show ?case
    using Cons.prems Cons.IH [of "insert_asc x ys"] sift_left_insert [of ys "Some x" "map Some xs @ rest" x]
    by (simp add: nth_append)
qed simp

definition observations_kept :: "HeaterCurveRawObservations \<Rightarrow> HeaterCurveRawObservation list" where
  "observations_kept c = filter (\<lambda>p. \<not> (ro_raw_rtd_adc_mv p = 0 \<or> ro_heater_voltage_mv p = 0
     \<or> ro_heater_current_ma p = 0 \<or> ro_resistance_milliohms p = 0)) (flatten c)"

lemma sanitize_observations:
  "sanitize_heater_curve_raw_observations c = pack 8 (fold insert_asc (observations_kept c) [])"
proof (cases "observations_kept c")
  case Nil
  then show ?thesis
    by (simp add: sanitize_heater_curve_raw_observations_def observations_kept_def Let_def)
next
  case (Cons x xs)
  have len: "length (fold insert_asc xs ys) = length ys + length xs" for xs ys
    by (induction xs arbitrary: ys) auto
  have "insert_asc x [] = [x]" by (simp add: insert_asc_def)
  then show ?thesis
    using sift_all [of "[x]" xs "Suc (length xs)" "replicate (8 - Suc (length xs)) None"] Cons
    by (simp add: sanitize_heater_curve_raw_observations_def observations_kept_def Let_def pack_def len)
qed

lemma fold_insert_asc:
  "mset (fold insert_asc xs ys) = mset xs + mset ys"
  "sorted (map ro_raw_rtd_adc_mv ys) \<Longrightarrow> sorted (map ro_raw_rtd_adc_mv (fold insert_asc xs ys))"
  by (induction xs arbitrary: ys) (auto simp: sorted_insert_asc)

lemma fold_insert_asc_sorted:
  "sorted (map ro_raw_rtd_adc_mv (ys @ xs)) \<Longrightarrow> fold insert_asc xs ys = ys @ xs"
proof (induction xs arbitrary: ys)
  case (Cons x xs)
  then have "insert_asc x ys = ys @ [x]" by (intro insert_asc_greatest) (auto simp: sorted_append)
  then show ?case using Cons by simp
qed simp

lemma sanitize_observations_idem:
  "sanitize_heater_curve_raw_observations (sanitize_heater_curve_raw_observations c) = sanitize_heater_curve_raw_observations c"
proof -
  let ?ok = "\<lambda>p. \<not> (ro_raw_rtd_adc_mv p = 0 \<or> ro_heater_voltage_mv p = 0
     \<or> ro_heater_current_ma p = 0 \<or> ro_resistance_milliohms p = 0)"
  let ?s = "fold insert_asc (observations_kept c) []"
  have "set ?s = set (observations_kept c)" using fold_insert_asc(1) [of "observations_kept c" "[]"] by (metis add.right_neutral mset.simps(1) set_mset_mset)
  then have "filter ?ok ?s = ?s" by (intro filter_True) (auto simp: observations_kept_def)
  moreover have "sorted (map ro_raw_rtd_adc_mv ?s)" by (rule fold_insert_asc(2)) simp
  ultimately have "fold insert_asc (filter ?ok ?s) [] = ?s" using fold_insert_asc_sorted [of "[]" ?s] by simp
  then show ?thesis unfolding sanitize_observations by (simp add: observations_kept_def)
qed

end
