(* ===== verification/Calibration_Codec.thy ===== *)
theory Calibration_Codec
  imports Calibration
begin

text \<open>
  The stored form of the calibration data, the encoders and decoders of \<open>src/firmware/src/memory.rs\<close> for
  ADC samples, references, targets, fits and active slots, the heater curve, its raw observations and the
  thermal-plant transient. Encoders return the bytes they write into the caller's array; decoders are called
  with a slice of the length their caller has checked.

  The lemmas show that each of them gives back what was stored.
\<close>

section \<open>Bytes\<close>

definition u16_at :: "u8 list \<Rightarrow> nat \<Rightarrow> u16" where
  "u16_at bs at = from_le_bytes [bs ! at, bs ! (at + 1)]"

definition u32_at :: "u8 list \<Rightarrow> nat \<Rightarrow> u32" where
  "u32_at bs at = from_le_bytes [bs ! at, bs ! (at + 1), bs ! (at + 2), bs ! (at + 3)]"

definition i16_bytes :: "i16 \<Rightarrow> u8 list" where
  "i16_bytes t = to_le_bytes 2 (word_of_int t :: u16)"

definition i16_at :: "u8 list \<Rightarrow> nat \<Rightarrow> i16" where
  "i16_at bs at = sint (u16_at bs at)"

section \<open>ADC calibration\<close>

definition encode_adc_calibration_samples :: "AdcCalibrationConfig \<Rightarrow> u8 list" where
  "encode_adc_calibration_samples c =
     concat (map (\<lambda>channel. concat (map (\<lambda>sample.
         to_le_bytes 2 (case sample of Some s \<Rightarrow> observed_mv s | None \<Rightarrow> CALIBRATION_NONE_WIRE_VALUE)
         @ to_le_bytes 2 (case sample of Some s \<Rightarrow> expected_mv s | None \<Rightarrow> CALIBRATION_NONE_WIRE_VALUE))
       (ch_samples channel))) [cal_rtd c, cal_vin c])"

definition encode_adc_calibration_references :: "AdcCalibrationConfig \<Rightarrow> u8 list" where
  "encode_adc_calibration_references c =
     concat (map (\<lambda>sample. i16_bytes
         (case Option.bind sample reference_temp_deci_c of
            Some r \<Rightarrow> r | None \<Rightarrow> CALIBRATION_REFERENCE_NONE_WIRE_VALUE)) (ch_samples (cal_rtd c)))
     @ concat (map (\<lambda>sample. i16_bytes
         (case Option.bind (Option.bind sample reference_vin_mv) (\<lambda>v. if v \<le> 32767 then Some (uint v) else None) of
            Some r \<Rightarrow> r | None \<Rightarrow> CALIBRATION_REFERENCE_NONE_WIRE_VALUE)) (ch_samples (cal_vin c)))"

definition encode_adc_calibration_targets :: "AdcCalibrationConfig \<Rightarrow> u8 list" where
  "encode_adc_calibration_targets c =
     concat (map (\<lambda>sample. to_le_bytes 2
         (case Option.bind sample target_adc_mv of Some t \<Rightarrow> t | None \<Rightarrow> CALIBRATION_NONE_WIRE_VALUE))
       (ch_samples (cal_rtd c)))"

definition decode_adc_sample :: "u8 list \<Rightarrow> nat \<Rightarrow> AdcCalibrationSample option" where
  "decode_adc_sample bs cursor =
     (let observed = u16_at bs cursor; expected = u16_at bs (cursor + 2) in
      if observed = CALIBRATION_NONE_WIRE_VALUE \<or> expected = CALIBRATION_NONE_WIRE_VALUE then None
      else Some \<lparr>observed_mv = observed, expected_mv = expected, reference_temp_deci_c = None, target_adc_mv = None,
                 reference_vin_mv = None\<rparr>)"

definition decode_adc_calibration_samples :: "u8 list \<Rightarrow> AdcCalibrationConfig" where
  "decode_adc_calibration_samples bs =
     (let c = AdcCalibrationConfig_default; n = ADC_CALIBRATION_MAX_SAMPLES in
      \<lparr>cal_rtd = (cal_rtd c)\<lparr>ch_samples := map (\<lambda>i. decode_adc_sample bs (i * 4)) [0..<n]\<rparr>,
       cal_vin = (cal_vin c)\<lparr>ch_samples := map (\<lambda>i. decode_adc_sample bs (i * 4)) [n..<2 * n]\<rparr>\<rparr>)"

definition encode_slot_fits :: "AdcCalibrationChannelConfig \<Rightarrow> u8 list" where
  "encode_slot_fits channel =
     concat (map (\<lambda>f. to_le_bytes 4 (fit_gain f) @ to_le_bytes 4 (fit_offset_mv f))
       [slots_a (ch_slots channel), slots_b (ch_slots channel)])"

definition encode_adc_calibration_slots :: "AdcCalibrationConfig \<Rightarrow> u8 list" where
  "encode_adc_calibration_slots c = concat (map encode_slot_fits [cal_rtd c, cal_vin c])"

definition decode_slot_fits :: "u8 list \<Rightarrow> nat \<Rightarrow> AdcCalibrationChannelConfig \<Rightarrow> AdcCalibrationChannelConfig" where
  "decode_slot_fits bs cursor channel =
     set_slot_fit SlotIdB \<lparr>fit_gain = u32_at bs (cursor + 8), fit_offset_mv = u32_at bs (cursor + 12)\<rparr>
       (set_slot_fit SlotIdA \<lparr>fit_gain = u32_at bs cursor, fit_offset_mv = u32_at bs (cursor + 4)\<rparr> channel)"

definition decode_adc_calibration_slots :: "u8 list \<Rightarrow> AdcCalibrationConfig \<Rightarrow> AdcCalibrationConfig" where
  "decode_adc_calibration_slots bs c =
     \<lparr>cal_rtd = decode_slot_fits bs 0 (cal_rtd c), cal_vin = decode_slot_fits bs 16 (cal_vin c)\<rparr>"

fun encode_slot_id :: "AdcCalibrationSlotId \<Rightarrow> u8" where
  "encode_slot_id SlotIdA = 0"
| "encode_slot_id SlotIdB = 1"

definition decode_slot_id :: "u8 \<Rightarrow> AdcCalibrationSlotId" where
  "decode_slot_id v = (if v = 1 then SlotIdB else SlotIdA)"

definition encode_adc_calibration_active_slots :: "AdcCalibrationConfig \<Rightarrow> u8 list" where
  "encode_adc_calibration_active_slots c =
     [encode_slot_id (ch_active_slot (cal_rtd c)), encode_slot_id (ch_active_slot (cal_vin c))]"

definition decode_adc_calibration_active_slots :: "u8 list \<Rightarrow> AdcCalibrationConfig \<Rightarrow> AdcCalibrationConfig" where
  "decode_adc_calibration_active_slots bs c =
     \<lparr>cal_rtd = (cal_rtd c)\<lparr>ch_active_slot := decode_slot_id (bs ! 0)\<rparr>,
      cal_vin = (cal_vin c)\<lparr>ch_active_slot := decode_slot_id (bs ! 1)\<rparr>\<rparr>"

text \<open>A loop over the occupied slots of a channel, with the byte offset of each.\<close>

definition update_samples ::
  "(nat \<Rightarrow> AdcCalibrationSample \<Rightarrow> AdcCalibrationSample) \<Rightarrow> AdcCalibrationChannelConfig \<Rightarrow> AdcCalibrationChannelConfig" where
  "update_samples f c =
     c\<lparr>ch_samples := map (\<lambda>i. map_option (f i) (ch_samples c ! i)) [0..<length (ch_samples c)]\<rparr>"

definition decode_adc_calibration_references :: "u8 list \<Rightarrow> AdcCalibrationConfig \<Rightarrow> AdcCalibrationConfig" where
  "decode_adc_calibration_references bs c =
     (let reference = (\<lambda>cursor. let r = i16_at bs cursor in
            if r \<noteq> CALIBRATION_REFERENCE_NONE_WIRE_VALUE then Some r else None);
          vin_start = 2 * length (ch_samples (cal_rtd c))
      in \<lparr>cal_rtd = update_samples (\<lambda>i s. s\<lparr>reference_temp_deci_c := reference (2 * i), target_adc_mv := None,
            reference_vin_mv := None\<rparr>) (cal_rtd c),
          cal_vin = update_samples (\<lambda>i s. s\<lparr>reference_vin_mv := map_option word_of_int (reference (vin_start + 2 * i)),
            reference_temp_deci_c := None, target_adc_mv := None\<rparr>) (cal_vin c)\<rparr>)"

definition decode_adc_calibration_targets :: "u8 list \<Rightarrow> AdcCalibrationConfig \<Rightarrow> AdcCalibrationConfig" where
  "decode_adc_calibration_targets bs c =
     c\<lparr>cal_rtd := update_samples (\<lambda>i s. let target = u16_at bs (2 * i) in
         s\<lparr>target_adc_mv := (if target \<noteq> CALIBRATION_NONE_WIRE_VALUE then Some target else None)\<rparr>) (cal_rtd c)\<rparr>"

section \<open>Heater curve\<close>

definition encode_heater_curve :: "HeaterCurveConfig \<Rightarrow> u8 list" where
  "encode_heater_curve c =
     concat (map (\<lambda>point.
         i16_bytes (case point of Some p \<Rightarrow> hc_temp_centi_c p | None \<Rightarrow> PRESET_NONE_WIRE_VALUE)
         @ to_le_bytes 2 (case point of Some p \<Rightarrow> hc_resistance_milliohms p | None \<Rightarrow> CALIBRATION_NONE_WIRE_VALUE)) c)"

definition decode_heater_curve :: "u8 list \<Rightarrow> HeaterCurveConfig" where
  "decode_heater_curve bs =
     map (\<lambda>i. let temp = i16_at bs (i * 4); resistance = u16_at bs (i * 4 + 2) in
       if temp = PRESET_NONE_WIRE_VALUE \<or> resistance = CALIBRATION_NONE_WIRE_VALUE then None
       else Some \<lparr>hc_temp_centi_c = temp, hc_resistance_milliohms = resistance\<rparr>) [0..<HEATER_CURVE_MAX_POINTS]"

definition encode_heater_curve_raw_observations :: "HeaterCurveRawObservations \<Rightarrow> u8 list" where
  "encode_heater_curve_raw_observations c =
     concat (map (\<lambda>point. concat (map (to_le_bytes 2)
         (case point of
            Some p \<Rightarrow> [ro_raw_rtd_adc_mv p, ro_heater_voltage_mv p, ro_heater_current_ma p, ro_resistance_milliohms p]
          | None \<Rightarrow> replicate 4 65535))) c)"

definition decode_heater_curve_raw_observations :: "u8 list \<Rightarrow> HeaterCurveRawObservations" where
  "decode_heater_curve_raw_observations bs =
     map (\<lambda>i. let read = (\<lambda>field. u16_at bs (i * 8 + field * 2)) in
       if read 0 \<noteq> 65535
       then Some \<lparr>ro_raw_rtd_adc_mv = read 0, ro_heater_voltage_mv = read 1, ro_heater_current_ma = read 2,
                  ro_resistance_milliohms = read 3\<rparr>
       else None) [0..<HEATER_CURVE_MAX_POINTS]"

section \<open>The thermal-plant transient\<close>

definition THERMAL_PLANT_TRANSIENT_HEADER_LEN :: nat where [simp]: "THERMAL_PLANT_TRANSIENT_HEADER_LEN = 24"
definition THERMAL_PLANT_PERSISTED_SAMPLE_PAYLOAD_LEN :: nat where
  [simp]: "THERMAL_PLANT_PERSISTED_SAMPLE_PAYLOAD_LEN = 5"
definition THERMAL_PLANT_PERSISTED_FORMAT_DUTY_PACKED :: u8 where
  [simp]: "THERMAL_PLANT_PERSISTED_FORMAT_DUTY_PACKED = 1"
definition THERMAL_PLANT_PERSISTED_FORMAT_DUTY_PACKED_125MV :: u8 where
  [simp]: "THERMAL_PLANT_PERSISTED_FORMAT_DUTY_PACKED_125MV = 2"
definition THERMAL_PLANT_PERSISTED_ELAPSED_TICKS_MASK :: u16 where
  [simp]: "THERMAL_PLANT_PERSISTED_ELAPSED_TICKS_MASK = 0x7fff"
definition THERMAL_PLANT_SUPPLY_FORMAT :: u8 where [simp]: "THERMAL_PLANT_SUPPLY_FORMAT = 3"
definition THERMAL_PLANT_SUPPLY_MAX_TICKS :: u32 where [simp]: "THERMAL_PLANT_SUPPLY_MAX_TICKS = 524287"
definition THERMAL_PLANT_PERSISTED_DUTY_BIT :: u16 where [simp]: "THERMAL_PLANT_PERSISTED_DUTY_BIT = 0x8000"

definition thermal_plant_persisted_transaction_fits :: "ThermalPlantTransientTransaction \<Rightarrow> bool" where
  "thermal_plant_persisted_transaction_fits t \<longleftrightarrow>
     unat (tt_sample_count t) \<le> THERMAL_PLANT_TRANSIENT_MAX_SAMPLES
     \<and> list_all (\<lambda>s. ts_elapsed_ticks s \<le> THERMAL_PLANT_SUPPLY_MAX_TICKS \<and> ts_raw_rtd_adc_mv s \<le> 4095
         \<and> ts_duty_percent s \<in> {0, 100}
         \<and> (thermal_plant_sample_is_cooling s
            \<or> ts_heater_voltage_125mv s \<le> THERMAL_PLANT_TRANSIENT_MAX_HEATER_VOLTAGE_125MV))
       (take (unat (tt_sample_count t)) (tt_samples t))"

definition pack_transient_sample :: "ThermalPlantTransientSample \<Rightarrow> u64" where
  "pack_transient_sample s =
     ucast (ts_elapsed_ticks s) OR push_bit 19 (ucast (ts_raw_rtd_adc_mv s))
     OR push_bit 31 (ucast (ts_heater_voltage_125mv s)) OR push_bit 39 (if ts_duty_percent s \<noteq> 0 then 1 else 0)"

definition encode_thermal_plant_persisted_transaction :: "ThermalPlantTransientTransaction \<Rightarrow> u8 list" where
  "encode_thermal_plant_persisted_transaction t =
     to_le_bytes 4 (tt_transaction_id t) @ to_le_bytes 2 (tt_ambient_raw_rtd_adc_mv t)
     @ [tt_sample_count t, THERMAL_PLANT_SUPPLY_FORMAT]
     @ to_le_bytes 4 (pr_convection_mw_per_c_bits (tt_projection t))
     @ to_le_bytes 4 (pr_radiation_mw_per_k4_bits (tt_projection t))
     @ to_le_bytes 4 (pr_thermal_capacity_mj_per_c_bits (tt_projection t))
     @ to_le_bytes 4 (pr_transport_delay_ms (tt_projection t))
     @ concat (map (\<lambda>s. take 5 (to_le_bytes 8 (pack_transient_sample s)))
         (take (unat (tt_sample_count t)) (tt_samples t)))"

definition zero_sample :: ThermalPlantTransientSample where
  "zero_sample = \<lparr>ts_elapsed_ticks = 0, ts_raw_rtd_adc_mv = 0, ts_heater_voltage_125mv = 0, ts_duty_percent = 0\<rparr>"

definition decode_supply_sample :: "u8 list \<Rightarrow> nat \<Rightarrow> ThermalPlantTransientSample" where
  "decode_supply_sample bs offset =
     (let packed = from_le_bytes (take 5 (drop offset bs) @ replicate 3 0) :: u64 in
      \<lparr>ts_elapsed_ticks = ucast (packed AND ucast THERMAL_PLANT_SUPPLY_MAX_TICKS),
       ts_raw_rtd_adc_mv = ucast (drop_bit 19 packed AND 0xfff),
       ts_heater_voltage_125mv = ucast (drop_bit 31 packed AND 0xff),
       ts_duty_percent = (if packed AND push_bit 39 1 \<noteq> 0 then 100 else 0)\<rparr>)"

definition decode_older_sample :: "bool \<Rightarrow> bool \<Rightarrow> u8 list \<Rightarrow> nat \<Rightarrow> ThermalPlantTransientSample" where
  "decode_older_sample duty_is_packed voltage_is_125mv bs offset =
     (let elapsed_ticks = u16_at bs offset in
      \<lparr>ts_elapsed_ticks = ucast (if duty_is_packed then elapsed_ticks AND THERMAL_PLANT_PERSISTED_ELAPSED_TICKS_MASK
                                 else elapsed_ticks),
       ts_raw_rtd_adc_mv = u16_at bs (offset + 2),
       ts_heater_voltage_125mv = (if voltage_is_125mv then bs ! (offset + 4)
         else quantize_thermal_plant_heater_voltage_mv (ucast (bs ! (offset + 4)) * 100)),
       ts_duty_percent = (if duty_is_packed
         then (if elapsed_ticks AND THERMAL_PLANT_PERSISTED_DUTY_BIT \<noteq> 0 then 100 else 0)
         else (if bs ! (offset + 4) \<noteq> 0 then 100 else 0))\<rparr>)"

definition decode_thermal_plant_persisted_transaction :: "u8 list \<Rightarrow> ThermalPlantTransientTransaction option" where
  "decode_thermal_plant_persisted_transaction bs =
     (if length bs < THERMAL_PLANT_TRANSIENT_HEADER_LEN then None
      else let sample_count = bs ! 6 in
        if unat sample_count > THERMAL_PLANT_TRANSIENT_MAX_SAMPLES then None
        else if length bs \<noteq> THERMAL_PLANT_TRANSIENT_HEADER_LEN
               + unat sample_count * THERMAL_PLANT_PERSISTED_SAMPLE_PAYLOAD_LEN then None
        else case (if bs ! 7 = 0 then Some (False, False)
                   else if bs ! 7 = THERMAL_PLANT_PERSISTED_FORMAT_DUTY_PACKED then Some (True, False)
                   else if bs ! 7 = THERMAL_PLANT_PERSISTED_FORMAT_DUTY_PACKED_125MV then Some (True, True)
                   else if bs ! 7 = THERMAL_PLANT_SUPPLY_FORMAT then Some (True, True) else None) of
          None \<Rightarrow> None
        | Some (duty_is_packed, voltage_is_125mv) \<Rightarrow>
            let decoded = map (\<lambda>index.
                  let offset = THERMAL_PLANT_TRANSIENT_HEADER_LEN + index * THERMAL_PLANT_PERSISTED_SAMPLE_PAYLOAD_LEN in
                  if bs ! 7 = THERMAL_PLANT_SUPPLY_FORMAT then decode_supply_sample bs offset
                  else decode_older_sample duty_is_packed voltage_is_125mv bs offset) [0..<unat sample_count];
                t = \<lparr>tt_transaction_id = u32_at bs 0, tt_ambient_raw_rtd_adc_mv = u16_at bs 4,
                     tt_sample_count = sample_count,
                     tt_projection = \<lparr>pr_convection_mw_per_c_bits = u32_at bs 8, pr_radiation_mw_per_k4_bits = u32_at bs 12,
                       pr_thermal_capacity_mj_per_c_bits = u32_at bs 16, pr_transport_delay_ms = u32_at bs 20\<rparr>,
                     tt_samples = decoded @ replicate (THERMAL_PLANT_TRANSIENT_MAX_SAMPLES - length decoded) zero_sample\<rparr>
            in if thermal_plant_transient_transaction_has_valid_structure t then Some t else None)"

section \<open>Round trips\<close>

named_theorems at_simps \<open>fields read back from a concatenation\<close>

lemma u16_at_append_left [at_simps]: "at + 1 < length xs \<Longrightarrow> u16_at (xs @ ys) at = u16_at xs at"
  by (simp add: u16_at_def nth_append)

lemma u16_at_append_right [at_simps]: "length xs \<le> at \<Longrightarrow> u16_at (xs @ ys) at = u16_at ys (at - length xs)"
  by (simp add: u16_at_def nth_append Suc_diff_le)

lemma u32_at_append_left [at_simps]: "at + 3 < length xs \<Longrightarrow> u32_at (xs @ ys) at = u32_at xs at"
  by (simp add: u32_at_def nth_append)

lemma u32_at_append_right [at_simps]: "length xs \<le> at \<Longrightarrow> u32_at (xs @ ys) at = u32_at ys (at - length xs)"
  by (simp add: u32_at_def nth_append Suc_diff_le)

lemma u16_at_le [at_simps]: "u16_at (to_le_bytes 2 w) 0 = w"
  by (simp add: u16_at_def to_le_bytes_2 del: from_le_bytes.simps)

lemma le_quad [simp]:
  "from_le_bytes [ucast w, ucast (drop_bit 8 w), ucast (drop_bit 16 w), ucast (drop_bit 24 w)] = (w :: u32)"
  by (simp only: to_le_bytes_4 [symmetric] from_to_le_bytes_full)

lemma u32_at_le [at_simps]: "u32_at (to_le_bytes 4 w) 0 = w"
  by (simp add: u32_at_def to_le_bytes_4 del: from_le_bytes.simps)

lemma i16_range: "- 32768 \<le> t \<Longrightarrow> t < 32768 \<Longrightarrow> sint (word_of_int t :: u16) = t"
  by (simp add: sint_sbintrunc' signed_take_bit_int_eq_self)

lemma length_i16_bytes [simp]: "length (i16_bytes t) = 2"
  by (simp add: i16_bytes_def)

lemma i16_at_bytes [at_simps]: "- 32768 \<le> t \<Longrightarrow> t < 32768 \<Longrightarrow> i16_at (i16_bytes t) 0 = t"
  by (simp add: i16_at_def i16_bytes_def u16_at_le i16_range)

lemma nth_concat_const:
  assumes "i < length xs" "k < n" "\<And>x. x \<in> set xs \<Longrightarrow> length (g x) = n"
  shows "concat (map g xs) ! (i * n + k) = g (xs ! i) ! k"
  using assms
proof (induction xs arbitrary: i)
  case (Cons x xs)
  then show ?case by (cases i) (auto simp: nth_append)
qed simp

lemma u16_at_concat:
  assumes "i < length xs" "k + 1 < n" "\<And>x. x \<in> set xs \<Longrightarrow> length (g x) = n"
  shows "u16_at (concat (map g xs)) (i * n + k) = u16_at (g (xs ! i)) k"
  using nth_concat_const [OF assms(1) _ assms(3), of k] nth_concat_const [OF assms(1) _ assms(3), of "k + 1"] assms(2)
  by (simp add: u16_at_def)

definition i16_ok :: "i16 \<Rightarrow> bool" where
  "i16_ok t \<longleftrightarrow> - 32768 < t \<and> t < 32768"

text \<open>What a sample of each channel may hold so that its stored form keeps all of it.\<close>

definition rtd_sample_ok :: "AdcCalibrationSample \<Rightarrow> bool" where
  "rtd_sample_ok s \<longleftrightarrow> observed_mv s \<noteq> 65535 \<and> expected_mv s \<noteq> 65535 \<and> reference_vin_mv s = None
     \<and> pred_option i16_ok (reference_temp_deci_c s) \<and> target_adc_mv s \<noteq> Some 65535"

definition vin_sample_ok :: "AdcCalibrationSample \<Rightarrow> bool" where
  "vin_sample_ok s \<longleftrightarrow> observed_mv s \<noteq> 65535 \<and> expected_mv s \<noteq> 65535 \<and> reference_temp_deci_c s = None
     \<and> target_adc_mv s = None \<and> pred_option (\<lambda>v. v \<le> 32767) (reference_vin_mv s)"

definition adc_storable :: "AdcCalibrationConfig \<Rightarrow> bool" where
  "adc_storable c \<longleftrightarrow> length (ch_samples (cal_rtd c)) = 8 \<and> length (ch_samples (cal_vin c)) = 8
     \<and> list_all (pred_option rtd_sample_ok) (ch_samples (cal_rtd c))
     \<and> list_all (pred_option vin_sample_ok) (ch_samples (cal_vin c))"

definition bare_sample :: "AdcCalibrationSample \<Rightarrow> AdcCalibrationSample" where
  "bare_sample s = s\<lparr>reference_temp_deci_c := None, target_adc_mv := None, reference_vin_mv := None\<rparr>"

definition sample_bytes :: "AdcCalibrationSample option \<Rightarrow> u8 list" where
  "sample_bytes x =
     to_le_bytes 2 (case x of Some s \<Rightarrow> observed_mv s | None \<Rightarrow> CALIBRATION_NONE_WIRE_VALUE)
     @ to_le_bytes 2 (case x of Some s \<Rightarrow> expected_mv s | None \<Rightarrow> CALIBRATION_NONE_WIRE_VALUE)"

lemma length_sample_bytes [simp]: "length (sample_bytes s) = 4"
  by (simp add: sample_bytes_def)

lemma decode_adc_sample_concat:
  assumes "i < length xs" "pred_option (\<lambda>s. observed_mv s \<noteq> 65535 \<and> expected_mv s \<noteq> 65535) (xs ! i)"
  shows "decode_adc_sample (concat (map sample_bytes xs)) (i * 4) = map_option bare_sample (xs ! i)"
proof -
  have "u16_at (concat (map sample_bytes xs)) (i * 4) = u16_at (sample_bytes (xs ! i)) 0"
    "u16_at (concat (map sample_bytes xs)) (i * 4 + 2) = u16_at (sample_bytes (xs ! i)) 2"
    using u16_at_concat [OF assms(1), of 0 4 sample_bytes] u16_at_concat [OF assms(1), of 2 4 sample_bytes] by simp_all
  then show ?thesis
    using assms(2)
    by (cases "xs ! i") (simp_all add: decode_adc_sample_def bare_sample_def sample_bytes_def at_simps)
qed

lemma decode_adc_samples_encode:
  assumes "adc_storable c"
  shows "decode_adc_calibration_samples (encode_adc_calibration_samples c) = AdcCalibrationConfig_default
    \<lparr>cal_rtd := AdcCalibrationChannelConfig_default\<lparr>ch_samples := map (map_option bare_sample) (ch_samples (cal_rtd c))\<rparr>,
     cal_vin := AdcCalibrationChannelConfig_default\<lparr>ch_samples := map (map_option bare_sample) (ch_samples (cal_vin c))\<rparr>\<rparr>"
proof -
  let ?r = "ch_samples (cal_rtd c)" and ?v = "ch_samples (cal_vin c)"
  have enc: "encode_adc_calibration_samples c = concat (map sample_bytes (?r @ ?v))"
    by (simp add: encode_adc_calibration_samples_def sample_bytes_def [abs_def])
  have len: "length ?r = 8" "length ?v = 8" using assms by (auto simp: adc_storable_def)
  have ok: "pred_option (\<lambda>s. observed_mv s \<noteq> 65535 \<and> expected_mv s \<noteq> 65535) x" if "x \<in> set (?r @ ?v)" for x
    using assms that
    by (auto simp: adc_storable_def list_all_iff rtd_sample_ok_def vin_sample_ok_def intro: option.pred_mono_strong)
  have d: "decode_adc_sample (encode_adc_calibration_samples c) (i * 4) = map_option bare_sample ((?r @ ?v) ! i)"
    if "i < 16" for i
    unfolding enc using that len by (intro decode_adc_sample_concat ok nth_mem) auto
  have "map (\<lambda>i. decode_adc_sample (encode_adc_calibration_samples c) (i * 4)) [0..<8] = map (map_option bare_sample) ?r"
    "map (\<lambda>i. decode_adc_sample (encode_adc_calibration_samples c) (i * 4)) [8..<16] = map (map_option bare_sample) ?v"
    using len d [of "8 + _"] by (auto intro!: nth_equalityI simp: d nth_append distrib_right simp del: upt_rec_numeral)
  then show ?thesis
    by (simp add: decode_adc_calibration_samples_def Let_def AdcCalibrationConfig_default_def)
qed

lemma update_samples_map:
  assumes "length xs = length (ch_samples c)" "\<And>i. i < length xs \<Longrightarrow> map_option (f i) (ch_samples c ! i) = map_option g (xs ! i)"
  shows "update_samples f c = c\<lparr>ch_samples := map (map_option g) xs\<rparr>"
proof -
  have "map (\<lambda>i. map_option (f i) (ch_samples c ! i)) [0..<length (ch_samples c)] = map (map_option g) xs"
    using assms by (intro nth_equalityI) simp_all
  then show ?thesis by (simp add: update_samples_def)
qed

definition rtd_reference_bytes :: "AdcCalibrationSample option \<Rightarrow> u8 list" where
  "rtd_reference_bytes x = i16_bytes (case Option.bind x reference_temp_deci_c of
     Some r \<Rightarrow> r | None \<Rightarrow> CALIBRATION_REFERENCE_NONE_WIRE_VALUE)"

definition vin_reference_bytes :: "AdcCalibrationSample option \<Rightarrow> u8 list" where
  "vin_reference_bytes x = i16_bytes
     (case Option.bind (Option.bind x reference_vin_mv) (\<lambda>v. if v \<le> 32767 then Some (uint v) else None) of
        Some r \<Rightarrow> r | None \<Rightarrow> CALIBRATION_REFERENCE_NONE_WIRE_VALUE)"

definition target_bytes :: "AdcCalibrationSample option \<Rightarrow> u8 list" where
  "target_bytes x = to_le_bytes 2
     (case Option.bind x target_adc_mv of Some t \<Rightarrow> t | None \<Rightarrow> CALIBRATION_NONE_WIRE_VALUE)"

lemma length_field_bytes [simp]:
  "length (rtd_reference_bytes x) = 2" "length (vin_reference_bytes x) = 2" "length (target_bytes x) = 2"
  by (simp_all add: rtd_reference_bytes_def vin_reference_bytes_def target_bytes_def)

lemma u16_at_words:
  "i < length xs \<Longrightarrow> (\<And>x. length (g x) = 2) \<Longrightarrow> u16_at (concat (map g xs)) (2 * i) = u16_at (g (xs ! i)) 0"
  using u16_at_concat [of i xs 0 2 g] by (simp add: mult.commute)

lemma rtd_reference_at:
  assumes "pred_option rtd_sample_ok (Some s)"
  shows "(let r = i16_at (rtd_reference_bytes (Some s)) 0 in if r \<noteq> - 32768 then Some r else None) = reference_temp_deci_c s"
  using assms
  by (cases "reference_temp_deci_c s") (auto simp: rtd_sample_ok_def rtd_reference_bytes_def i16_at_bytes i16_ok_def Let_def)

lemma vin_reference_at:
  assumes "pred_option vin_sample_ok (Some s)"
  shows "map_option word_of_int (let r = i16_at (vin_reference_bytes (Some s)) 0 in if r \<noteq> - 32768 then Some r else None)
    = reference_vin_mv s"
proof (cases "reference_vin_mv s")
  case (Some v)
  then have v: "v \<le> 32767" using assms by (auto simp: vin_sample_ok_def)
  then have "uint v \<le> 32767" by (simp add: word_le_def)
  moreover have "0 \<le> uint v" by simp
  ultimately have "uint v \<noteq> - 32768" "i16_at (i16_bytes (uint v)) 0 = uint v"
    by (linarith, intro i16_at_bytes, linarith+)
  then show ?thesis using Some v by (simp add: vin_reference_bytes_def Let_def)
qed (auto simp: vin_reference_bytes_def i16_at_bytes Let_def)

lemma target_at: "target_adc_mv s \<noteq> Some 65535 \<Longrightarrow>
    (if u16_at (target_bytes (Some s)) 0 \<noteq> 65535 then Some (u16_at (target_bytes (Some s)) 0) else None) = target_adc_mv s"
  by (cases "target_adc_mv s") (auto simp: target_bytes_def at_simps)

lemma decode_slot_fits_encode [at_simps]:
  assumes "length xs = cursor"
  shows "decode_slot_fits (xs @ encode_slot_fits channel @ ys) cursor c = c\<lparr>ch_slots := ch_slots channel\<rparr>"
  using assms
  by (cases c; cases channel; cases "ch_slots channel"; cases "slots_a (ch_slots channel)"; cases "slots_b (ch_slots channel)")
    (simp add: decode_slot_fits_def encode_slot_fits_def at_simps)

lemma length_encode_slot_fits [simp]: "length (encode_slot_fits c) = 16"
  by (simp add: encode_slot_fits_def)

lemma decode_slots_encode:
  "decode_adc_calibration_slots (encode_adc_calibration_slots c) d =
     \<lparr>cal_rtd = (cal_rtd d)\<lparr>ch_slots := ch_slots (cal_rtd c)\<rparr>, cal_vin = (cal_vin d)\<lparr>ch_slots := ch_slots (cal_vin c)\<rparr>\<rparr>"
  using decode_slot_fits_encode [of "[]" 0 "cal_rtd c" "encode_slot_fits (cal_vin c)" "cal_rtd d"]
    decode_slot_fits_encode [of "encode_slot_fits (cal_rtd c)" 16 "cal_vin c" "[]" "cal_vin d"]
  by (simp add: decode_adc_calibration_slots_def encode_adc_calibration_slots_def)

lemma decode_active_slots_encode:
  "decode_adc_calibration_active_slots (encode_adc_calibration_active_slots c) d =
     \<lparr>cal_rtd = (cal_rtd d)\<lparr>ch_active_slot := ch_active_slot (cal_rtd c)\<rparr>,
      cal_vin = (cal_vin d)\<lparr>ch_active_slot := ch_active_slot (cal_vin c)\<rparr>\<rparr>"
proof -
  have "decode_slot_id (encode_slot_id x) = x" for x by (cases x) (simp_all add: decode_slot_id_def)
  then show ?thesis by (simp add: decode_adc_calibration_active_slots_def encode_adc_calibration_active_slots_def)
qed

lemma sample_eta:
  "bare_sample s\<lparr>reference_temp_deci_c := reference_temp_deci_c s, target_adc_mv := target_adc_mv s,
     reference_vin_mv := reference_vin_mv s\<rparr> = s"
  by (cases s) (simp add: bare_sample_def)

lemma decode_adc_encode:
  assumes "adc_storable c"
  shows "decode_adc_calibration_active_slots (encode_adc_calibration_active_slots c)
      (decode_adc_calibration_slots (encode_adc_calibration_slots c)
      (decode_adc_calibration_targets (encode_adc_calibration_targets c)
      (decode_adc_calibration_references (encode_adc_calibration_references c)
      (decode_adc_calibration_samples (encode_adc_calibration_samples c))))) = c"
proof -
  let ?r = "ch_samples (cal_rtd c)" and ?v = "ch_samples (cal_vin c)"
  have len: "length ?r = 8" "length ?v = 8"
    and ok: "i < 8 \<Longrightarrow> pred_option rtd_sample_ok (?r ! i)" "i < 8 \<Longrightarrow> pred_option vin_sample_ok (?v ! i)" for i
    using assms by (auto simp: adc_storable_def list_all_length)
  have refs: "encode_adc_calibration_references c = concat (map rtd_reference_bytes ?r) @ concat (map vin_reference_bytes ?v)"
    by (simp add: encode_adc_calibration_references_def rtd_reference_bytes_def [abs_def] vin_reference_bytes_def [abs_def])
  have tgts: "encode_adc_calibration_targets c = concat (map target_bytes ?r)"
    by (simp add: encode_adc_calibration_targets_def target_bytes_def [abs_def])
  have lr: "length (concat (map rtd_reference_bytes ?r)) = 16" using len by (simp add: length_concat_const)
  have ref_at: "i16_at (encode_adc_calibration_references c) (2 * i) = i16_at (rtd_reference_bytes (?r ! i)) 0"
    "i16_at (encode_adc_calibration_references c) (16 + 2 * i) = i16_at (vin_reference_bytes (?v ! i)) 0"
    "u16_at (encode_adc_calibration_targets c) (2 * i) = u16_at (target_bytes (?r ! i)) 0" if "i < 8" for i
    using that len lr u16_at_words [of i ?r rtd_reference_bytes] u16_at_words [of i ?v vin_reference_bytes]
      u16_at_words [of i ?r target_bytes]
    by (simp_all add: i16_at_def refs tgts at_simps)
  let ?c1 = "decode_adc_calibration_samples (encode_adc_calibration_samples c)"
  let ?c2 = "decode_adc_calibration_references (encode_adc_calibration_references c) ?c1"
  note c1 = decode_adc_samples_encode [OF assms]
  define untargeted :: "AdcCalibrationSample \<Rightarrow> AdcCalibrationSample" where "untargeted = target_adc_mv_update (\<lambda>_. None)"
  have "map_option (\<lambda>s. s\<lparr>reference_temp_deci_c :=
        (let r = i16_at (encode_adc_calibration_references c) (2 * i) in if r \<noteq> - 32768 then Some r else None),
        target_adc_mv := None, reference_vin_mv := None\<rparr>) (ch_samples (cal_rtd ?c1) ! i) = map_option untargeted (?r ! i)"
    if "i < 8" for i
    using that len ok(1) [OF that] rtd_reference_at ref_at(1) [OF that]
    by (cases "?r ! i") (auto simp: c1 rtd_sample_ok_def bare_sample_def untargeted_def)
  then have rtd2: "cal_rtd ?c2 = AdcCalibrationChannelConfig_default\<lparr>ch_samples := map (map_option untargeted) ?r\<rparr>"
    unfolding decode_adc_calibration_references_def Let_def
    by (subst update_samples_map [where xs = ?r and g = untargeted]) (use len in \<open>auto simp: c1 Let_def\<close>)
  have "map_option (\<lambda>s. s\<lparr>reference_vin_mv := map_option word_of_int
        (let r = i16_at (encode_adc_calibration_references c) (16 + 2 * i) in if r \<noteq> - 32768 then Some r else None),
        reference_temp_deci_c := None, target_adc_mv := None\<rparr>) (ch_samples (cal_vin ?c1) ! i) = map_option id (?v ! i)"
    if "i < 8" for i
    using that len ok(2) [OF that] vin_reference_at ref_at(2) [OF that]
    by (cases "?v ! i") (auto simp: c1 vin_sample_ok_def bare_sample_def)
  moreover have l1: "2 * length (ch_samples (cal_rtd ?c1)) = 16" using len by (simp add: c1)
  ultimately have vin2: "cal_vin ?c2 = AdcCalibrationChannelConfig_default\<lparr>ch_samples := ?v\<rparr>"
    unfolding decode_adc_calibration_references_def Let_def l1 AdcCalibrationConfig.select_convs
    by (subst update_samples_map [where xs = ?v and g = id]) (use len in \<open>auto simp: c1 Let_def option.map_id0\<close>)
  have "map_option (\<lambda>s. let target = u16_at (encode_adc_calibration_targets c) (2 * i) in
        s\<lparr>target_adc_mv := (if target \<noteq> 65535 then Some target else None)\<rparr>) (ch_samples (cal_rtd ?c2) ! i)
      = map_option id (?r ! i)" if "i < 8" for i
    using that len ok(1) [OF that] target_at ref_at(3) [OF that]
    by (cases "?r ! i") (auto simp: rtd2 rtd_sample_ok_def untargeted_def Let_def)
  then have "decode_adc_calibration_targets (encode_adc_calibration_targets c) ?c2
      = \<lparr>cal_rtd = AdcCalibrationChannelConfig_default\<lparr>ch_samples := ?r\<rparr>,
         cal_vin = AdcCalibrationChannelConfig_default\<lparr>ch_samples := ?v\<rparr>\<rparr>"
    unfolding decode_adc_calibration_targets_def
    by (subst update_samples_map [where xs = ?r and g = id])
      (use len rtd2 vin2 in \<open>auto simp: Let_def option.map_id0 intro: AdcCalibrationConfig.equality\<close>)
  then show ?thesis
    unfolding decode_slots_encode decode_active_slots_encode by (auto intro!: AdcCalibrationConfig.equality)
qed

definition curve_storable :: "HeaterCurveConfig \<Rightarrow> bool" where
  "curve_storable c \<longleftrightarrow> length c = 8
     \<and> list_all (pred_option (\<lambda>p. i16_ok (hc_temp_centi_c p) \<and> hc_resistance_milliohms p \<noteq> 65535)) c"

definition curve_point_bytes :: "HeaterCurvePoint option \<Rightarrow> u8 list" where
  "curve_point_bytes point =
     i16_bytes (case point of Some p \<Rightarrow> hc_temp_centi_c p | None \<Rightarrow> PRESET_NONE_WIRE_VALUE)
     @ to_le_bytes 2 (case point of Some p \<Rightarrow> hc_resistance_milliohms p | None \<Rightarrow> CALIBRATION_NONE_WIRE_VALUE)"

lemma decode_heater_curve_encode:
  assumes "curve_storable c"
  shows "decode_heater_curve (encode_heater_curve c) = c"
proof -
  have l: "length (curve_point_bytes x) = 4" for x by (simp add: curve_point_bytes_def)
  have enc: "encode_heater_curve c = concat (map curve_point_bytes c)"
    by (simp add: encode_heater_curve_def curve_point_bytes_def [abs_def])
  have "(let temp = i16_at (encode_heater_curve c) (i * 4); resistance = u16_at (encode_heater_curve c) (i * 4 + 2) in
       if temp = - 32768 \<or> resistance = 65535 then None
       else Some \<lparr>hc_temp_centi_c = temp, hc_resistance_milliohms = resistance\<rparr>) = c ! i" if "i < 8" for i
  proof -
    have ok: "pred_option (\<lambda>p. i16_ok (hc_temp_centi_c p) \<and> hc_resistance_milliohms p \<noteq> 65535) (c ! i)" and i: "i < length c"
      using assms that by (auto simp: curve_storable_def list_all_length)
    have "i16_at (encode_heater_curve c) (i * 4) = i16_at (curve_point_bytes (c ! i)) 0"
      "u16_at (encode_heater_curve c) (i * 4 + 2) = u16_at (curve_point_bytes (c ! i)) 2"
      using u16_at_concat [OF i, of 0 4 curve_point_bytes] u16_at_concat [OF i, of 2 4 curve_point_bytes] l
      by (simp_all add: enc i16_at_def)
    then show ?thesis
      using ok
      by (cases "c ! i") (auto simp: curve_point_bytes_def i16_at_def i16_bytes_def at_simps i16_range i16_ok_def Let_def)
  qed
  then show ?thesis
    using assms by (auto intro!: nth_equalityI simp: decode_heater_curve_def curve_storable_def simp del: upt_rec_numeral)
qed

definition observations_storable :: "HeaterCurveRawObservations \<Rightarrow> bool" where
  "observations_storable c \<longleftrightarrow> length c = 8 \<and> list_all (pred_option (\<lambda>p. ro_raw_rtd_adc_mv p \<noteq> 65535)) c"

definition observation_bytes :: "HeaterCurveRawObservation option \<Rightarrow> u8 list" where
  "observation_bytes point = concat (map (to_le_bytes 2)
     (case point of
        Some p \<Rightarrow> [ro_raw_rtd_adc_mv p, ro_heater_voltage_mv p, ro_heater_current_ma p, ro_resistance_milliohms p]
      | None \<Rightarrow> replicate 4 65535))"

lemma rep4: "replicate 4 x = [x, x, x, x]"
  by (simp add: numeral_eq_Suc)

lemma decode_observations_encode:
  assumes "observations_storable c"
  shows "decode_heater_curve_raw_observations (encode_heater_curve_raw_observations c) = c"
proof -
  have l: "length (observation_bytes x) = 8" for x by (cases x) (simp_all add: observation_bytes_def rep4)
  have enc: "encode_heater_curve_raw_observations c = concat (map observation_bytes c)"
    by (simp add: encode_heater_curve_raw_observations_def observation_bytes_def [abs_def])
  have "(let read = (\<lambda>field. u16_at (encode_heater_curve_raw_observations c) (i * 8 + field * 2)) in
       if read 0 \<noteq> 65535
       then Some \<lparr>ro_raw_rtd_adc_mv = read 0, ro_heater_voltage_mv = read 1, ro_heater_current_ma = read 2,
                  ro_resistance_milliohms = read 3\<rparr> else None) = c ! i" if "i < 8" for i
  proof -
    have ok: "pred_option (\<lambda>p. ro_raw_rtd_adc_mv p \<noteq> 65535) (c ! i)" and i: "i < length c"
      using assms that by (auto simp: observations_storable_def list_all_length)
    have rd: "u16_at (encode_heater_curve_raw_observations c) (i * 8 + k) = u16_at (observation_bytes (c ! i)) k" if "k < 7" for k
      using u16_at_concat [OF i, of k 8 observation_bytes] l that by (simp add: enc)
    show ?thesis
      using ok rd [of 0] rd [of 2] rd [of 4] rd [of 6]
      by (cases "c ! i") (auto simp: observation_bytes_def at_simps rep4 Let_def)
  qed
  then have "decode_heater_curve_raw_observations (encode_heater_curve_raw_observations c) = map ((!) c) [0..<8]"
    unfolding decode_heater_curve_raw_observations_def HEATER_CURVE_MAX_POINTS_def by (intro map_cong refl) auto
  then show ?thesis using assms by (metis map_nth observations_storable_def)
qed

text \<open>The transient: a stored one fits its packed samples and has no sample past its count.\<close>

definition transient_storable :: "ThermalPlantTransientTransaction \<Rightarrow> bool" where
  "transient_storable t \<longleftrightarrow> thermal_plant_transient_transaction_has_valid_structure t
     \<and> thermal_plant_persisted_transaction_fits t \<and> length (tt_samples t) = 128
     \<and> drop (unat (tt_sample_count t)) (tt_samples t) = replicate (128 - unat (tt_sample_count t)) zero_sample"

lemma packed_sample_fields:
  fixes e r v d :: u64
  assumes "d = 0 \<or> d = 1"
  defines "raw \<equiv> cat 19 e (cat 12 r (cat 8 v d))"
  shows "take_bit 19 raw = take_bit 19 e" "take_bit 12 (drop_bit 19 raw) = take_bit 12 r"
    "take_bit 8 (drop_bit 31 raw) = take_bit 8 v" "bit raw 39 \<longleftrightarrow> d = 1" "take_bit 40 raw = raw"
  unfolding raw_def using assms(1) by (auto simp: cat_high cat_low take_cat) (auto simp: cat_def bit_simps)

lemma decode_supply_sample_pack:
  assumes "ts_elapsed_ticks s \<le> 524287" "ts_raw_rtd_adc_mv s \<le> 4095" "ts_duty_percent s \<in> {0, 100}"
    and bs: "take 5 (drop offset bs) = take 5 (to_le_bytes 8 (pack_transient_sample s))"
  shows "decode_supply_sample bs offset = s"
proof -
  let ?p = "pack_transient_sample s" and ?d = "if ts_duty_percent s \<noteq> 0 then 1 else 0 :: u64"
  have fit: "take_bit 19 (ucast (ts_elapsed_ticks s) :: u64) = ucast (ts_elapsed_ticks s)"
    "take_bit 12 (ucast (ts_raw_rtd_adc_mv s) :: u64) = ucast (ts_raw_rtd_adc_mv s)"
    "take_bit 8 (ucast (ts_heater_voltage_125mv s) :: u64) = ucast (ts_heater_voltage_125mv s)"
    using assms(1,2) unat_bound [of "ts_heater_voltage_125mv s"] by (intro field_fits; simp add: word_le_nat_alt)+
  have p: "?p = cat 19 (ucast (ts_elapsed_ticks s)) (cat 12 (ucast (ts_raw_rtd_adc_mv s))
      (cat 8 (ucast (ts_heater_voltage_125mv s)) ?d))"
    by (simp add: pack_transient_sample_def cat_small fit push_bit_or push_bit_push_bit)
  have d: "?d = 0 \<or> ?d = 1" by simp
  note f = packed_sample_fields [OF d, of "ucast (ts_elapsed_ticks s)" "ucast (ts_raw_rtd_adc_mv s)"
      "ucast (ts_heater_voltage_125mv s)", folded p, unfolded fit]
  have raw: "from_le_bytes (take 5 (drop offset bs) @ replicate 3 0) = ?p"
    unfolding bs from_le_bytes_zeros using f(5) by (simp add: take_to_le_bytes from_to_le_bytes)
  have duty: "?p AND push_bit 39 1 \<noteq> 0 \<longleftrightarrow> ts_duty_percent s \<noteq> 0"
    unfolding bit_iff_and_push_bit_not_eq_0 [symmetric] f(4) by simp
  show ?thesis
    unfolding decode_supply_sample_def raw Let_def duty
    using assms(3) by (intro ThermalPlantTransientSample.equality) (auto simp: mask_simps f ucast_ucast_back)
qed

lemma length_encode_transient:
  assumes "transient_storable t"
  shows "length (encode_thermal_plant_persisted_transaction t) = 24 + unat (tt_sample_count t) * 5"
  using assms
  by (simp add: encode_thermal_plant_persisted_transaction_def transient_storable_def
      thermal_plant_persisted_transaction_fits_def length_concat_const [where n = 5])

lemma decode_transient_encode:
  assumes "transient_storable t"
  shows "decode_thermal_plant_persisted_transaction (encode_thermal_plant_persisted_transaction t) = Some t"
proof -
  let ?n = "unat (tt_sample_count t)" and ?b = "encode_thermal_plant_persisted_transaction t"
  let ?live = "take ?n (tt_samples t)" and ?g = "\<lambda>s. take 5 (to_le_bytes 8 (pack_transient_sample s))"
  have n: "?n \<le> 128" "length ?live = ?n" and v: "thermal_plant_transient_transaction_has_valid_structure t"
    and fits: "list_all (\<lambda>s. ts_elapsed_ticks s \<le> 524287 \<and> ts_raw_rtd_adc_mv s \<le> 4095 \<and> ts_duty_percent s \<in> {0, 100}) ?live"
    using assms by (auto simp: transient_storable_def thermal_plant_persisted_transaction_fits_def list_all_iff)
  obtain h where h: "?b = h @ concat (map ?g ?live)" "length h = 24"
    by (simp add: encode_thermal_plant_persisted_transaction_def flip: append_assoc)
  have sample: "decode_supply_sample ?b (24 + i * 5) = ?live ! i" if "i < ?n" for i
  proof (rule decode_supply_sample_pack)
    have i: "i < length ?live" using that n by simp
    show "take 5 (drop (24 + i * 5) ?b) = ?g (?live ! i)"
      unfolding h(1) using h(2) concat_chunk_fixed [OF i, of 5 pack_transient_sample] by (simp add: take_to_le_bytes)
    show "ts_elapsed_ticks (?live ! i) \<le> 524287" "ts_raw_rtd_adc_mv (?live ! i) \<le> 4095" "ts_duty_percent (?live ! i) \<in> {0, 100}"
      using fits i by (simp_all add: list_all_length)
  qed
  have samples: "map (\<lambda>i. decode_supply_sample ?b (24 + i * 5)) [0..<?n] = ?live"
    using n by (intro nth_equalityI) (simp_all add: sample)
  have rest: "?live @ replicate (128 - ?n) zero_sample = tt_samples t"
    using assms by (metis append_take_drop_id transient_storable_def)
  have hd: "?b ! 6 = tt_sample_count t" "?b ! 7 = 3" "u32_at ?b 0 = tt_transaction_id t" "u16_at ?b 4 = tt_ambient_raw_rtd_adc_mv t"
    "u32_at ?b 8 = pr_convection_mw_per_c_bits (tt_projection t)" "u32_at ?b 12 = pr_radiation_mw_per_k4_bits (tt_projection t)"
    "u32_at ?b 16 = pr_thermal_capacity_mj_per_c_bits (tt_projection t)" "u32_at ?b 20 = pr_transport_delay_ms (tt_projection t)"
    by (simp_all add: encode_thermal_plant_persisted_transaction_def at_simps to_le_bytes_4 to_le_bytes_2 u32_at_def u16_at_def
        del: from_le_bytes.simps)
  have eta: "\<lparr>tt_transaction_id = tt_transaction_id t, tt_ambient_raw_rtd_adc_mv = tt_ambient_raw_rtd_adc_mv t,
      tt_sample_count = tt_sample_count t, tt_projection = \<lparr>pr_convection_mw_per_c_bits = pr_convection_mw_per_c_bits (tt_projection t),
        pr_radiation_mw_per_k4_bits = pr_radiation_mw_per_k4_bits (tt_projection t),
        pr_thermal_capacity_mj_per_c_bits = pr_thermal_capacity_mj_per_c_bits (tt_projection t),
        pr_transport_delay_ms = pr_transport_delay_ms (tt_projection t)\<rparr>, tt_samples = tt_samples t\<rparr> = t"
    by (cases t; cases "tt_projection t"; simp)
  show ?thesis
    using n v samples rest length_encode_transient [OF assms]
    by (simp add: decode_thermal_plant_persisted_transaction_def hd Let_def eta)
qed

end
