(* ===== verification/Persist_Record.thy ===== *)
theory Persist_Record
  imports Memory_Config Calibration_Codec Lan
begin

text \<open>
  The record format \<open>FPR2\<close> of \<open>src/firmware/src/memory.rs\<close>: a header of twenty bytes with magic, version,
  domain, sequence, payload length and checksum, and a payload of tag-length-value fields.
  \<open>encode_persist_record\<close> and \<open>decode_persist_record\<close> with everything they call.

  A buffer is the list of its bytes; a failing encoder returns its error and the caller drops the
  buffer. Sizes are natural numbers: every slice fits the address space, so the checked additions
  of the code never fail.

  The lemmas show that the checksum step is injective and so detects any change of up to four adjacent
  payload bytes, that decoding never accepts a payload outside its slot, and that every record the
  firmware can store is read back as it was.
\<close>

section \<open>Checksum\<close>

definition crc32_bit :: "u32 \<Rightarrow> u32" where
  "crc32_bit crc = (let mask = 0 - (crc AND 1) in drop_bit 1 crc XOR (0xedb88320 AND mask))"

definition crc32_byte :: "u8 \<Rightarrow> u32 \<Rightarrow> u32" where
  "crc32_byte b crc = (crc32_bit ^^ 8) (crc XOR ucast b)"

definition crc32_update :: "u32 \<Rightarrow> u8 list \<Rightarrow> u32" where
  "crc32_update crc bs = fold crc32_byte bs crc"

definition crc32 :: "u8 list \<Rightarrow> u32" where
  "crc32 bs = crc32_update 0xffffffff bs"

section \<open>Tag-length-value fields\<close>

definition push_fpr2_tlv :: "u8 \<Rightarrow> u8 list \<Rightarrow> u8 list \<Rightarrow> nat \<Rightarrow> Fpr2EncodeError + u8 list \<times> nat" where
  "push_fpr2_tlv tag v out cursor =
     (let next_cursor = cursor + 3 + length v in
      if next_cursor > length out \<or> length v > 65535
      then Inl (if next_cursor > length out then BufferTooSmall else PayloadTooLarge)
      else Inr (take cursor out @ tag # to_le_bytes 2 (of_nat (length v) :: u16) @ v @ drop next_cursor out, next_cursor))"

text \<open>Successive calls with \<open>?\<close>.\<close>

fun push_tlvs :: "(u8 \<times> u8 list) list \<Rightarrow> u8 list \<Rightarrow> nat \<Rightarrow> Fpr2EncodeError + u8 list \<times> nat" where
  "push_tlvs [] out cursor = Inr (out, cursor)"
| "push_tlvs ((tag, v) # rest) out cursor =
     (case push_fpr2_tlv tag v out cursor of
        Inl e \<Rightarrow> Inl e
      | Inr (out, cursor) \<Rightarrow> push_tlvs rest out cursor)"

definition TLV_TARGET_TEMP_C :: u8 where [simp]: "TLV_TARGET_TEMP_C = 0x01"
definition TLV_SELECTED_PRESET_SLOT :: u8 where [simp]: "TLV_SELECTED_PRESET_SLOT = 0x02"
definition TLV_PRESETS_C :: u8 where [simp]: "TLV_PRESETS_C = 0x03"
definition TLV_ACTIVE_COOLING_ENABLED :: u8 where [simp]: "TLV_ACTIVE_COOLING_ENABLED = 0x04"
definition TLV_POST_HEAT_COOLING_MODE :: u8 where [simp]: "TLV_POST_HEAT_COOLING_MODE = 0x05"
definition TLV_HEATING_FAN_GUARD_MODE :: u8 where [simp]: "TLV_HEATING_FAN_GUARD_MODE = 0x06"
definition TLV_WIFI_SSID :: u8 where [simp]: "TLV_WIFI_SSID = 0x10"
definition TLV_WIFI_PASSWORD :: u8 where [simp]: "TLV_WIFI_PASSWORD = 0x11"
definition TLV_WIFI_AUTO_RECONNECT :: u8 where [simp]: "TLV_WIFI_AUTO_RECONNECT = 0x12"
definition TLV_TELEMETRY_INTERVAL_MS :: u8 where [simp]: "TLV_TELEMETRY_INTERVAL_MS = 0x13"
definition TLV_ADC_CALIBRATION_SAMPLES :: u8 where [simp]: "TLV_ADC_CALIBRATION_SAMPLES = 0x20"
definition TLV_ADC_CALIBRATION_REFERENCES :: u8 where [simp]: "TLV_ADC_CALIBRATION_REFERENCES = 0x22"
definition TLV_ADC_CALIBRATION_TARGETS :: u8 where [simp]: "TLV_ADC_CALIBRATION_TARGETS = 0x24"
definition TLV_ADC_CALIBRATION_SLOTS :: u8 where [simp]: "TLV_ADC_CALIBRATION_SLOTS = 0x26"
definition TLV_ADC_CALIBRATION_ACTIVE_SLOTS :: u8 where [simp]: "TLV_ADC_CALIBRATION_ACTIVE_SLOTS = 0x27"
definition TLV_ACTIVE_HEATER_CURVE :: u8 where [simp]: "TLV_ACTIVE_HEATER_CURVE = 0x30"
definition TLV_THERMAL_CONTROL_PROFILE_PPS3A :: u8 where [simp]: "TLV_THERMAL_CONTROL_PROFILE_PPS3A = 0x32"
definition TLV_THERMAL_CONTROL_PROFILE_PPS5A :: u8 where [simp]: "TLV_THERMAL_CONTROL_PROFILE_PPS5A = 0x33"
definition TLV_THERMAL_PROFILE_MODE :: u8 where [simp]: "TLV_THERMAL_PROFILE_MODE = 0x34"
definition TLV_HEATER_CURVE_RAW_OBSERVATIONS :: u8 where [simp]: "TLV_HEATER_CURVE_RAW_OBSERVATIONS = 0x35"
definition TLV_LAN_PAIRING_TOKEN :: u8 where [simp]: "TLV_LAN_PAIRING_TOKEN = 0x38"
definition TLV_WIFI_STATIC_IPV4 :: u8 where [simp]: "TLV_WIFI_STATIC_IPV4 = 0x39"
definition TLV_THERMAL_PLANT_TRANSIENT_ACTIVE :: u8 where [simp]: "TLV_THERMAL_PLANT_TRANSIENT_ACTIVE = 0x3a"
definition TLV_HEATER_CURVE_TRANSACTION_ID :: u8 where [simp]: "TLV_HEATER_CURVE_TRANSACTION_ID = 0x3b"
definition TLV_COMMISSIONING_REQUIRED :: u8 where [simp]: "TLV_COMMISSIONING_REQUIRED = 0x3c"
definition TLV_HEATER_SUPPLY_BOUNDARY :: u8 where [simp]: "TLV_HEATER_SUPPLY_BOUNDARY = 0x3d"
definition FPR2_TLV_STATUS :: u8 where [simp]: "FPR2_TLV_STATUS = 0x01"
definition FPR2_TLV_GENERATION :: u8 where [simp]: "FPR2_TLV_GENERATION = 0x02"
definition FPR2_TLV_KIND :: u8 where [simp]: "FPR2_TLV_KIND = 0x03"
definition FPR2_TLV_THERMAL_PLANT_STATE :: u8 where [simp]: "FPR2_TLV_THERMAL_PLANT_STATE = 0x01"
definition THERMAL_PLANT_STATE_EMPTY :: u8 where [simp]: "THERMAL_PLANT_STATE_EMPTY = 0"
definition BOUNDARY_MAX_BYTES :: nat where
  [simp]: "BOUNDARY_MAX_BYTES = BOUNDARY_HEADER_BYTES + MAX_BOUNDARY_POINTS * BOUNDARY_POINT_BYTES"

definition bool_byte :: "bool \<Rightarrow> u8" where
  "bool_byte b = (if b then 1 else 0)"

section \<open>Encoding\<close>

definition encode_safety_calibration :: "SafetyCalibration \<Rightarrow> u8 list \<Rightarrow> Fpr2EncodeError + u8 list \<times> nat" where
  "encode_safety_calibration v out = push_tlvs
     ([(TLV_COMMISSIONING_REQUIRED, [bool_byte (sf_commissioning_required v)]),
       (TLV_ADC_CALIBRATION_SAMPLES, encode_adc_calibration_samples (sf_adc_calibration v)),
       (TLV_ADC_CALIBRATION_REFERENCES, encode_adc_calibration_references (sf_adc_calibration v)),
       (TLV_ADC_CALIBRATION_TARGETS, encode_adc_calibration_targets (sf_adc_calibration v)),
       (TLV_ADC_CALIBRATION_SLOTS, encode_adc_calibration_slots (sf_adc_calibration v)),
       (TLV_ADC_CALIBRATION_ACTIVE_SLOTS, encode_adc_calibration_active_slots (sf_adc_calibration v)),
       (TLV_ACTIVE_HEATER_CURVE, encode_heater_curve (sf_active_heater_curve v)),
       (TLV_HEATER_CURVE_RAW_OBSERVATIONS, encode_heater_curve_raw_observations (sf_heater_curve_raw_observations v))]
      @ (case sf_heater_curve_transaction_id v of
           Some tid \<Rightarrow> [(TLV_HEATER_CURVE_TRANSACTION_ID, to_le_bytes 4 tid)] | None \<Rightarrow> [])) out 0"

fun mode_byte :: "ThermalProfileMode \<Rightarrow> u8" where
  "mode_byte ModeAuto = 0"
| "mode_byte ModeW65 = 1"
| "mode_byte ModeW100 = 2"

definition encode_thermal_policy :: "ThermalPolicy \<Rightarrow> u8 list \<Rightarrow> Fpr2EncodeError + u8 list \<times> nat" where
  "encode_thermal_policy v out = push_tlvs
     [(TLV_THERMAL_CONTROL_PROFILE_PPS3A, encode_thermal_control_profile (tp_pps3a_profile v)),
      (TLV_THERMAL_CONTROL_PROFILE_PPS5A, encode_thermal_control_profile (tp_pps5a_profile v)),
      (TLV_THERMAL_PROFILE_MODE, [mode_byte (tp_mode v)])] out 0"

fun post_heat_byte :: "PostHeatCoolingMode \<Rightarrow> u8" where
  "post_heat_byte PostHeatOff = 0"
| "post_heat_byte PostHeatNormal = 1"
| "post_heat_byte PostHeatFast = 2"

fun guard_byte :: "HeatingFanGuardMode \<Rightarrow> u8" where
  "guard_byte GuardOff = 0"
| "guard_byte GuardLow = 1"
| "guard_byte GuardMedium = 2"
| "guard_byte GuardHigh = 3"

definition encode_user_preferences :: "UserPreferences \<Rightarrow> u8 list \<Rightarrow> Fpr2EncodeError + u8 list \<times> nat" where
  "encode_user_preferences v out = push_tlvs
     [(TLV_TARGET_TEMP_C, i16_bytes (up_target_temp_c v)),
      (TLV_SELECTED_PRESET_SLOT, [of_nat (up_selected_preset_slot v)]),
      (TLV_PRESETS_C, concat (map (\<lambda>preset. i16_bytes
         (case preset of Some t \<Rightarrow> clamp_temp_c t | None \<Rightarrow> PRESET_NONE_WIRE_VALUE)) (up_presets_c v))),
      (TLV_ACTIVE_COOLING_ENABLED, [bool_byte (up_active_cooling_enabled v)]),
      (TLV_POST_HEAT_COOLING_MODE, [post_heat_byte (up_post_heat_cooling_mode v)]),
      (TLV_HEATING_FAN_GUARD_MODE, [guard_byte (up_heating_fan_guard_mode v)]),
      (TLV_TELEMETRY_INTERVAL_MS, to_le_bytes 4 (up_telemetry_interval_ms v))] out 0"

definition encode_network_pairing :: "NetworkAndPairing \<Rightarrow> u8 list \<Rightarrow> Fpr2EncodeError + u8 list \<times> nat" where
  "encode_network_pairing v out = push_tlvs
     ([(TLV_WIFI_SSID, np_wifi_ssid v), (TLV_WIFI_PASSWORD, np_wifi_password v),
       (TLV_WIFI_AUTO_RECONNECT, [bool_byte (np_wifi_auto_reconnect v)])]
      @ (case np_wifi_static_ipv4 v of
           Some c \<Rightarrow> [(TLV_WIFI_STATIC_IPV4, ipv4_address c @ [ipv4_prefix_len c] @ ipv4_gateway c @ ipv4_dns c)]
         | None \<Rightarrow> [])
      @ (case np_lan_pairing_token v of Some tok \<Rightarrow> [(TLV_LAN_PAIRING_TOKEN, tok)] | None \<Rightarrow> [])) out 0"

fun status_byte :: "LayoutMarkerStatus \<Rightarrow> u8" where
  "status_byte MarkerPrepared = 1"
| "status_byte MarkerActive = 2"

fun kind_byte :: "LayoutMarkerKind \<Rightarrow> u8" where
  "kind_byte CommitKind = 1"
| "kind_byte LegacyMigrationKind = 2"

definition encode_layout_marker :: "LayoutMarker \<Rightarrow> u8 list \<Rightarrow> Fpr2EncodeError + u8 list \<times> nat" where
  "encode_layout_marker v out = push_tlvs
     [(FPR2_TLV_STATUS, [status_byte (lm_status v)]), (FPR2_TLV_GENERATION, to_le_bytes 4 (lm_generation v)),
      (FPR2_TLV_KIND, [kind_byte (lm_kind v)])] out 0"

definition encode_thermal_plant :: "ThermalPlantPersistence \<Rightarrow> u8 list \<Rightarrow> Fpr2EncodeError + u8 list \<times> nat" where
  "encode_thermal_plant v out =
     (case (case pl_supply_boundary v of
              None \<Rightarrow> Inr (out, 0)
            | Some boundary \<Rightarrow>
                (case encode boundary (replicate BOUNDARY_MAX_BYTES 0) of
                   (_, None) \<Rightarrow> Inl PayloadTooLarge
                 | (bs, Some len) \<Rightarrow> push_fpr2_tlv TLV_HEATER_SUPPLY_BOUNDARY (take len bs) out 0)) of
        Inl e \<Rightarrow> Inl e
      | Inr (out, cursor) \<Rightarrow>
          (case pl_active v of
             Some t \<Rightarrow>
               if \<not> thermal_plant_persisted_transaction_fits t then Inl PayloadTooLarge
               else push_fpr2_tlv TLV_THERMAL_PLANT_TRANSIENT_ACTIVE (encode_thermal_plant_persisted_transaction t) out cursor
           | None \<Rightarrow> push_fpr2_tlv FPR2_TLV_THERMAL_PLANT_STATE [THERMAL_PLANT_STATE_EMPTY] out cursor))"

fun encode_persist_payload :: "PersistDomainData \<Rightarrow> u8 list \<Rightarrow> Fpr2EncodeError + u8 list \<times> nat" where
  "encode_persist_payload (SafetyCalibrationData v) out = encode_safety_calibration v out"
| "encode_persist_payload (ThermalPolicyData v) out = encode_thermal_policy v out"
| "encode_persist_payload (UserPreferencesData v) out = encode_user_preferences v out"
| "encode_persist_payload (NetworkAndPairingData v) out = encode_network_pairing v out"
| "encode_persist_payload (LayoutMarkerData v) out = encode_layout_marker v out"
| "encode_persist_payload (ThermalPlantData v) out = encode_thermal_plant v out"

text \<open>The magic \<open>FPR2\<close>.\<close>

definition FPR2_MAGIC :: "u8 list" where [simp]: "FPR2_MAGIC = [0x46, 0x50, 0x52, 0x32]"

definition record_header :: "u32 \<Rightarrow> PersistDomain \<Rightarrow> nat \<Rightarrow> u8 list" where
  "record_header sequence domain payload_len =
     FPR2_MAGIC @ [FPR2_FORMAT_VERSION, of_nat (domain_number domain), 0, of_nat FPR2_HEADER_LEN]
     @ to_le_bytes 4 sequence @ to_le_bytes 2 (of_nat payload_len :: u16) @ [0, 0]"

definition encode_persist_record :: "u32 \<Rightarrow> PersistDomainData \<Rightarrow> u8 list \<Rightarrow> Fpr2EncodeError + u8 list \<times> nat" where
  "encode_persist_record sequence data out =
     (if length out < FPR2_HEADER_LEN then Inl BufferTooSmall
      else case encode_persist_payload data (drop FPR2_HEADER_LEN out) of
        Inl e \<Rightarrow> Inl e
      | Inr (body, payload_len) \<Rightarrow>
          let record_len = FPR2_HEADER_LEN + payload_len; domain = PersistDomainData_domain data in
          if record_len > slot_size domain then Inl PayloadTooLarge
          else let header = record_header sequence domain payload_len;
                   crc = crc32_update (crc32 header) (take payload_len body) XOR 0xffffffff
               in Inr (header @ to_le_bytes 4 crc @ body, record_len))"

section \<open>Decoding\<close>

text \<open>\<open>core::str::from_utf8\<close>: a byte string is accepted when it is well-formed UTF-8.\<close>

definition utf8_cont :: "u8 \<Rightarrow> bool" where
  "utf8_cont b \<longleftrightarrow> 0x80 \<le> b \<and> b \<le> 0xbf"

fun utf8_valid :: "u8 list \<Rightarrow> bool" where
  "utf8_valid [] = True"
| "utf8_valid (b0 # rest) =
     (if b0 < 0x80 then utf8_valid rest
      else if 0xc2 \<le> b0 \<and> b0 \<le> 0xdf
      then (case rest of b1 # after \<Rightarrow> utf8_cont b1 \<and> utf8_valid after | [] \<Rightarrow> False)
      else if 0xe0 \<le> b0 \<and> b0 \<le> 0xef
      then (case rest of
              b1 # b2 # after \<Rightarrow> (if b0 = 0xe0 then 0xa0 else 0x80) \<le> b1 \<and> b1 \<le> (if b0 = 0xed then 0x9f else 0xbf)
                \<and> utf8_cont b2 \<and> utf8_valid after
            | _ \<Rightarrow> False)
      else if 0xf0 \<le> b0 \<and> b0 \<le> 0xf4
      then (case rest of
              b1 # b2 # b3 # after \<Rightarrow> (if b0 = 0xf0 then 0x90 else 0x80) \<le> b1 \<and> b1 \<le> (if b0 = 0xf4 then 0x8f else 0xbf)
                \<and> utf8_cont b2 \<and> utf8_cont b3 \<and> utf8_valid after
            | _ \<Rightarrow> False)
      else False)"

definition utf8_or_empty :: "u8 list \<Rightarrow> u8 list" where
  "utf8_or_empty bs = (if utf8_valid bs then bs else [])"

function for_each_fpr2_tlv :: "(u8 \<Rightarrow> u8 list \<Rightarrow> 's \<Rightarrow> 's) \<Rightarrow> u8 list \<Rightarrow> nat \<Rightarrow> 's \<Rightarrow> Fpr2DecodeError + 's" where
  "for_each_fpr2_tlv visit payload cursor st =
     (if cursor < length payload
      then if length payload - cursor < 3 then Inl MalformedTlv
        else let tag = payload ! cursor; len = unat (u16_at payload (cursor + 1)); start = cursor + 3 in
          if start + len > length payload then Inl MalformedTlv
          else for_each_fpr2_tlv visit payload (start + len) (visit tag (take len (drop start payload)) st)
      else Inr st)"
  by pat_completeness auto
termination
  by (relation "measure (\<lambda>(visit, payload, cursor, st). length payload - cursor)") auto

declare for_each_fpr2_tlv.simps [simp del]

record PersistDecodeState =
  ds_safety :: SafetyCalibration
  ds_thermal :: ThermalPolicy
  ds_prefs :: UserPreferences
  ds_network :: NetworkAndPairing
  ds_marker :: LayoutMarker
  ds_thermal_plant :: ThermalPlantPersistence
  ds_saw_post_heat_mode :: bool
  ds_saw_field :: bool

definition PersistDecodeState_new :: PersistDecodeState where
  "PersistDecodeState_new =
     \<lparr>ds_safety = \<lparr>sf_commissioning_required = True, sf_adc_calibration = AdcCalibrationConfig_default,
        sf_active_heater_curve = HeaterCurveConfig_default,
        sf_heater_curve_raw_observations = HeaterCurveRawObservations_default, sf_heater_curve_transaction_id = None\<rparr>,
      ds_thermal = \<lparr>tp_pps3a_profile = ThermalControlProfileConfig_default,
        tp_pps5a_profile = ThermalControlProfileConfig_default, tp_mode = ModeAuto\<rparr>,
      ds_prefs = \<lparr>up_target_temp_c = 100, up_selected_preset_slot = 1, up_presets_c = mc_presets_c MemoryConfig_default,
        up_active_cooling_enabled = True, up_post_heat_cooling_mode = PostHeatNormal,
        up_heating_fan_guard_mode = GuardMedium, up_telemetry_interval_ms = 500\<rparr>,
      ds_network = \<lparr>np_wifi_ssid = [], np_wifi_password = [], np_wifi_auto_reconnect = True, np_wifi_static_ipv4 = None,
        np_lan_pairing_token = None\<rparr>,
      ds_marker = \<lparr>lm_generation = 0, lm_status = MarkerPrepared, lm_kind = LegacyMigrationKind\<rparr>,
      ds_thermal_plant = \<lparr>pl_active = None, pl_supply_boundary = None\<rparr>,
      ds_saw_post_heat_mode = False, ds_saw_field = False\<rparr>"

text \<open>The update of one field of the structure of the domain, \<open>saw_field\<close> with it.\<close>

definition set_safety :: "(SafetyCalibration \<Rightarrow> SafetyCalibration) \<Rightarrow> PersistDecodeState \<Rightarrow> PersistDecodeState" where
  "set_safety f s = s\<lparr>ds_safety := f (ds_safety s), ds_saw_field := True\<rparr>"

definition set_thermal :: "(ThermalPolicy \<Rightarrow> ThermalPolicy) \<Rightarrow> PersistDecodeState \<Rightarrow> PersistDecodeState" where
  "set_thermal f s = s\<lparr>ds_thermal := f (ds_thermal s), ds_saw_field := True\<rparr>"

definition set_prefs :: "(UserPreferences \<Rightarrow> UserPreferences) \<Rightarrow> PersistDecodeState \<Rightarrow> PersistDecodeState" where
  "set_prefs f s = s\<lparr>ds_prefs := f (ds_prefs s), ds_saw_field := True\<rparr>"

definition set_network :: "(NetworkAndPairing \<Rightarrow> NetworkAndPairing) \<Rightarrow> PersistDecodeState \<Rightarrow> PersistDecodeState" where
  "set_network f s = s\<lparr>ds_network := f (ds_network s), ds_saw_field := True\<rparr>"

definition set_marker :: "(LayoutMarker \<Rightarrow> LayoutMarker) \<Rightarrow> PersistDecodeState \<Rightarrow> PersistDecodeState" where
  "set_marker f s = s\<lparr>ds_marker := f (ds_marker s), ds_saw_field := True\<rparr>"

definition set_plant :: "(ThermalPlantPersistence \<Rightarrow> ThermalPlantPersistence) \<Rightarrow> PersistDecodeState \<Rightarrow> PersistDecodeState" where
  "set_plant f s = s\<lparr>ds_thermal_plant := f (ds_thermal_plant s), ds_saw_field := True\<rparr>"

definition ADC_CALIBRATION_SAMPLE_PAYLOAD_LEN :: nat where [simp]: "ADC_CALIBRATION_SAMPLE_PAYLOAD_LEN = 64"
definition ADC_CALIBRATION_REFERENCE_PAYLOAD_LEN :: nat where [simp]: "ADC_CALIBRATION_REFERENCE_PAYLOAD_LEN = 32"
definition ADC_CALIBRATION_TARGET_PAYLOAD_LEN :: nat where [simp]: "ADC_CALIBRATION_TARGET_PAYLOAD_LEN = 16"
definition ADC_CALIBRATION_SLOT_PAYLOAD_LEN :: nat where [simp]: "ADC_CALIBRATION_SLOT_PAYLOAD_LEN = 32"
definition ADC_CALIBRATION_ACTIVE_SLOT_PAYLOAD_LEN :: nat where [simp]: "ADC_CALIBRATION_ACTIVE_SLOT_PAYLOAD_LEN = 2"

definition apply_safety :: "u8 \<Rightarrow> u8 list \<Rightarrow> PersistDecodeState \<Rightarrow> PersistDecodeState" where
  "apply_safety tag v s =
     (if tag = TLV_COMMISSIONING_REQUIRED \<and> length v = 1
      then set_safety (\<lambda>d. d\<lparr>sf_commissioning_required := v ! 0 \<noteq> 0\<rparr>) s
      else if tag = TLV_ADC_CALIBRATION_SAMPLES \<and> length v = ADC_CALIBRATION_SAMPLE_PAYLOAD_LEN
      then set_safety (\<lambda>d. d\<lparr>sf_adc_calibration := decode_adc_calibration_samples v\<rparr>) s
      else if tag = TLV_ADC_CALIBRATION_REFERENCES \<and> length v = ADC_CALIBRATION_REFERENCE_PAYLOAD_LEN
      then set_safety (\<lambda>d. d\<lparr>sf_adc_calibration := decode_adc_calibration_references v (sf_adc_calibration d)\<rparr>) s
      else if tag = TLV_ADC_CALIBRATION_TARGETS \<and> length v = ADC_CALIBRATION_TARGET_PAYLOAD_LEN
      then set_safety (\<lambda>d. d\<lparr>sf_adc_calibration := decode_adc_calibration_targets v (sf_adc_calibration d)\<rparr>) s
      else if tag = TLV_ADC_CALIBRATION_SLOTS \<and> length v = ADC_CALIBRATION_SLOT_PAYLOAD_LEN
      then set_safety (\<lambda>d. d\<lparr>sf_adc_calibration := decode_adc_calibration_slots v (sf_adc_calibration d)\<rparr>) s
      else if tag = TLV_ADC_CALIBRATION_ACTIVE_SLOTS \<and> length v = ADC_CALIBRATION_ACTIVE_SLOT_PAYLOAD_LEN
      then set_safety (\<lambda>d. d\<lparr>sf_adc_calibration := decode_adc_calibration_active_slots v (sf_adc_calibration d)\<rparr>) s
      else if tag = TLV_ACTIVE_HEATER_CURVE \<and> length v = HEATER_CURVE_MAX_POINTS * 4
      then set_safety (\<lambda>d. d\<lparr>sf_active_heater_curve := decode_heater_curve v\<rparr>) s
      else if tag = TLV_HEATER_CURVE_RAW_OBSERVATIONS \<and> length v = HEATER_CURVE_MAX_POINTS * 8
      then set_safety (\<lambda>d. d\<lparr>sf_heater_curve_raw_observations := decode_heater_curve_raw_observations v\<rparr>) s
      else if tag = TLV_HEATER_CURVE_TRANSACTION_ID \<and> length v = 4
      then set_safety (\<lambda>d. d\<lparr>sf_heater_curve_transaction_id := Some (u32_at v 0)\<rparr>) s
      else s)"

text \<open>Decoding a profile returns for every byte string (\<open>decode_profile_total\<close>).\<close>

definition apply_thermal :: "u8 \<Rightarrow> u8 list \<Rightarrow> PersistDecodeState \<Rightarrow> PersistDecodeState" where
  "apply_thermal tag v s =
     (if tag = TLV_THERMAL_CONTROL_PROFILE_PPS3A
      then set_thermal (\<lambda>d. d\<lparr>tp_pps3a_profile := returned (decode_thermal_control_profile v)\<rparr>) s
      else if tag = TLV_THERMAL_CONTROL_PROFILE_PPS5A
      then set_thermal (\<lambda>d. d\<lparr>tp_pps5a_profile := returned (decode_thermal_control_profile v)\<rparr>) s
      else if tag = TLV_THERMAL_PROFILE_MODE \<and> length v = 1
      then set_thermal (\<lambda>d. d\<lparr>tp_mode := (if v ! 0 = 1 then ModeW65 else if v ! 0 = 2 then ModeW100 else ModeAuto)\<rparr>) s
      else s)"

definition apply_preferences :: "u8 \<Rightarrow> u8 list \<Rightarrow> PersistDecodeState \<Rightarrow> PersistDecodeState" where
  "apply_preferences tag v s =
     (if tag = TLV_TARGET_TEMP_C \<and> length v = 2
      then set_prefs (\<lambda>d. d\<lparr>up_target_temp_c := i16_at v 0\<rparr>) s
      else if tag = TLV_SELECTED_PRESET_SLOT \<and> length v = 1
      then set_prefs (\<lambda>d. d\<lparr>up_selected_preset_slot := unat (v ! 0)\<rparr>) s
      else if tag = TLV_PRESETS_C \<and> length v = FRONTPANEL_PRESET_COUNT * 2
      then set_prefs (\<lambda>d. d\<lparr>up_presets_c := map (\<lambda>index. let wire = i16_at v (index * 2) in
             if wire \<noteq> PRESET_NONE_WIRE_VALUE then Some wire else None) [0..<FRONTPANEL_PRESET_COUNT]\<rparr>) s
      else if tag = TLV_ACTIVE_COOLING_ENABLED \<and> length v = 1
      then set_prefs (\<lambda>d. d\<lparr>up_active_cooling_enabled := v ! 0 \<noteq> 0\<rparr>) s
      else if tag = TLV_POST_HEAT_COOLING_MODE \<and> length v = 1
      then (set_prefs (\<lambda>d. d\<lparr>up_post_heat_cooling_mode :=
             (if v ! 0 = 2 then PostHeatFast else if v ! 0 = 1 then PostHeatNormal else PostHeatOff)\<rparr>) s)
           \<lparr>ds_saw_post_heat_mode := True\<rparr>
      else if tag = TLV_HEATING_FAN_GUARD_MODE \<and> length v = 1
      then set_prefs (\<lambda>d. d\<lparr>up_heating_fan_guard_mode :=
             (if v ! 0 = 3 then GuardHigh else if v ! 0 = 2 then GuardMedium else if v ! 0 = 1 then GuardLow else GuardOff)\<rparr>) s
      else if tag = TLV_TELEMETRY_INTERVAL_MS \<and> length v = 4
      then set_prefs (\<lambda>d. d\<lparr>up_telemetry_interval_ms := u32_at v 0\<rparr>) s
      else s)"

definition apply_network :: "u8 \<Rightarrow> u8 list \<Rightarrow> PersistDecodeState \<Rightarrow> PersistDecodeState" where
  "apply_network tag v s =
     (if tag = TLV_WIFI_SSID
      then set_network (\<lambda>d. d\<lparr>np_wifi_ssid := utf8_or_empty (take (min (length v) MEMORY_WIFI_SSID_MAX_LEN) v)\<rparr>) s
      else if tag = TLV_WIFI_PASSWORD
      then set_network (\<lambda>d. d\<lparr>np_wifi_password := utf8_or_empty (take (min (length v) MEMORY_WIFI_PASSWORD_MAX_LEN) v)\<rparr>) s
      else if tag = TLV_WIFI_AUTO_RECONNECT \<and> length v = 1
      then set_network (\<lambda>d. d\<lparr>np_wifi_auto_reconnect := v ! 0 \<noteq> 0\<rparr>) s
      else if tag = TLV_WIFI_STATIC_IPV4 \<and> length v = 13
      then set_network (\<lambda>d. d\<lparr>np_wifi_static_ipv4 := Some \<lparr>ipv4_address = take 4 v, ipv4_prefix_len = v ! 4,
             ipv4_gateway = take 4 (drop 5 v), ipv4_dns = take 4 (drop 9 v)\<rparr>\<rparr>) s
      else if tag = TLV_LAN_PAIRING_TOKEN \<and> length v = LAN_TOKEN_BYTES
      then set_network (\<lambda>d. d\<lparr>np_lan_pairing_token := Some v\<rparr>) s
      else s)"

definition apply_marker :: "u8 \<Rightarrow> u8 list \<Rightarrow> PersistDecodeState \<Rightarrow> PersistDecodeState" where
  "apply_marker tag v s =
     (if tag = FPR2_TLV_STATUS \<and> length v = 1
      then set_marker (\<lambda>d. d\<lparr>lm_status := (if v ! 0 = 2 then MarkerActive else MarkerPrepared)\<rparr>) s
      else if tag = FPR2_TLV_GENERATION \<and> length v = 4
      then set_marker (\<lambda>d. d\<lparr>lm_generation := u32_at v 0\<rparr>) s
      else if tag = FPR2_TLV_KIND \<and> length v = 1
      then set_marker (\<lambda>d. d\<lparr>lm_kind := (if v ! 0 = 2 then LegacyMigrationKind else CommitKind)\<rparr>) s
      else s)"

definition apply_thermal_plant :: "u8 \<Rightarrow> u8 list \<Rightarrow> PersistDecodeState \<Rightarrow> PersistDecodeState" where
  "apply_thermal_plant tag v s =
     (if tag = TLV_HEATER_SUPPLY_BOUNDARY
      then set_plant (\<lambda>d. d\<lparr>pl_supply_boundary := decode v\<rparr>) s
      else if tag = FPR2_TLV_THERMAL_PLANT_STATE \<and> length v = 1 \<and> v ! 0 = THERMAL_PLANT_STATE_EMPTY
      then set_plant (\<lambda>d. d\<lparr>pl_active := None\<rparr>) s
      else if tag = TLV_THERMAL_PLANT_TRANSIENT_ACTIVE \<and> THERMAL_PLANT_TRANSIENT_HEADER_LEN \<le> length v
           \<and> length v \<le> THERMAL_PLANT_TRANSIENT_HEADER_LEN
               + THERMAL_PLANT_TRANSIENT_MAX_SAMPLES * THERMAL_PLANT_PERSISTED_SAMPLE_PAYLOAD_LEN
      then set_plant (\<lambda>d. d\<lparr>pl_active := (if v ! 7 = THERMAL_PLANT_SUPPLY_FORMAT
             then decode_thermal_plant_persisted_transaction v else None)\<rparr>) s
      else s)"

fun apply_tlv :: "PersistDomain \<Rightarrow> u8 \<Rightarrow> u8 list \<Rightarrow> PersistDecodeState \<Rightarrow> PersistDecodeState" where
  "apply_tlv SafetyCalibrationDomain = apply_safety"
| "apply_tlv ThermalPolicyDomain = apply_thermal"
| "apply_tlv UserPreferencesDomain = apply_preferences"
| "apply_tlv NetworkAndPairingDomain = apply_network"
| "apply_tlv LayoutMarkerDomain = apply_marker"
| "apply_tlv ThermalPlantDomain = apply_thermal_plant"

text \<open>What \<open>decode_persist_payload\<close> does after its loop.\<close>

definition settle_decode_state :: "PersistDecodeState \<Rightarrow> PersistDecodeState" where
  "settle_decode_state s =
     (let prefs = ds_prefs s;
          mode = (if ds_saw_post_heat_mode s then up_post_heat_cooling_mode prefs
                  else PostHeatCoolingMode_from_legacy (up_active_cooling_enabled prefs));
          plant = ds_thermal_plant s
      in s\<lparr>ds_prefs := prefs\<lparr>up_post_heat_cooling_mode := mode,
             up_active_cooling_enabled := PostHeatCoolingMode_is_enabled mode\<rparr>,
           ds_thermal_plant := (if pl_supply_boundary plant = None then plant\<lparr>pl_active := None\<rparr> else plant)\<rparr>)"

fun decoded_domain :: "PersistDomain \<Rightarrow> PersistDecodeState \<Rightarrow> PersistDomainData" where
  "decoded_domain SafetyCalibrationDomain s = SafetyCalibrationData (ds_safety s)"
| "decoded_domain ThermalPolicyDomain s = ThermalPolicyData (ds_thermal s)"
| "decoded_domain UserPreferencesDomain s = UserPreferencesData (ds_prefs s)"
| "decoded_domain NetworkAndPairingDomain s = NetworkAndPairingData (ds_network s)"
| "decoded_domain LayoutMarkerDomain s = LayoutMarkerData (ds_marker s)"
| "decoded_domain ThermalPlantDomain s = ThermalPlantData (ds_thermal_plant s)"

definition decode_persist_payload :: "PersistDomain \<Rightarrow> u8 list \<Rightarrow> Fpr2DecodeError + PersistDomainData" where
  "decode_persist_payload domain payload =
     (case for_each_fpr2_tlv (apply_tlv domain) payload 0 PersistDecodeState_new of
        Inl e \<Rightarrow> Inl e
      | Inr s \<Rightarrow> if \<not> ds_saw_field s then Inl InvalidDomainPayload
                else Inr (decoded_domain domain (settle_decode_state s)))"

definition decode_persist_record :: "u8 list \<Rightarrow> Fpr2DecodeError + PersistRecord" where
  "decode_persist_record bs =
     (if length bs < FPR2_HEADER_LEN then Inl TooShort
      else if take 4 bs \<noteq> FPR2_MAGIC then Inl BadMagic
      else if bs ! 4 \<noteq> FPR2_FORMAT_VERSION then Inl (UnsupportedVersion (bs ! 4))
      else case PersistDomain_from_wire (bs ! 5) of
        None \<Rightarrow> Inl (UnknownDomain (bs ! 5))
      | Some domain \<Rightarrow>
          if unat (bs ! 7) \<noteq> FPR2_HEADER_LEN then Inl (BadHeaderLength (bs ! 7))
          else let payload_len = unat (u16_at bs 12); record_len = FPR2_HEADER_LEN + payload_len in
            if payload_len > slot_size domain - FPR2_HEADER_LEN \<or> record_len > length bs then Inl PayloadOutOfBounds
            else let payload = take payload_len (drop FPR2_HEADER_LEN bs);
                     expected_crc = u32_at bs 16;
                     actual_crc = crc32_update (crc32 (take 16 bs)) payload XOR 0xffffffff
                 in if expected_crc \<noteq> actual_crc then Inl CrcMismatch
                    else case decode_persist_payload domain payload of
                      Inl e \<Rightarrow> Inl e
                    | Inr data \<Rightarrow> Inr \<lparr>rec_sequence = u32_at bs 8, rec_data = data\<rparr>)"

end
