(* ===== verification/Persist_Laws.thy ===== *)
theory Persist_Laws
  imports Persist_Record
begin

text \<open>
  What the record format of \<open>Persist_Record\<close> promises: the checksum detects every change of up to four
  adjacent bytes, and every record the firmware can store is read back as it was stored.
\<close>

section \<open>The checksum\<close>

lemma xor_right_cancel: "x XOR z = y XOR z \<longleftrightarrow> x = (y :: 'a::len word)"
proof
  assume "x XOR z = y XOR z"
  then have "(x XOR z) XOR z = (y XOR z) XOR z" by simp
  then show "x = y" unfolding xor.assoc by simp
qed simp

lemma xor_left_cancel: "z XOR x = z XOR y \<longleftrightarrow> x = (y :: 'a::len word)"
  using xor_right_cancel [of x z y] by (simp add: xor.commute)

lemma crc32_bit_cases: "crc32_bit x = drop_bit 1 x XOR (if odd x then 0xedb88320 else 0)"
proof -
  have "x AND 1 = (if odd x then 1 else 0)" by (simp add: and_one_eq mod_2_eq_odd)
  then show ?thesis by (simp add: crc32_bit_def Let_def)
qed

lemma crc32_bit_xor: "crc32_bit (x XOR y) = crc32_bit x XOR crc32_bit y"
proof -
  have "odd (x XOR y) \<longleftrightarrow> odd x \<noteq> odd y" by (simp add: even_xor_iff)
  then show ?thesis by (auto simp: crc32_bit_cases drop_bit_xor ac_simps)
qed

lemma crc32_bit_0 [simp]: "crc32_bit 0 = 0"
  by (simp add: crc32_bit_cases)

lemma crc32_bit_eq_0: "crc32_bit x = 0 \<longleftrightarrow> x = 0"
proof
  assume z: "crc32_bit x = 0"
  have "\<not> odd x"
  proof
    assume "odd x"
    then have "bit (crc32_bit x) 31" using bit_imp_le_length [of x 32] by (auto simp: crc32_bit_cases bit_simps)
    then show False using z by simp
  qed
  then have "drop_bit 1 x = 0" "even x" using z by (simp_all add: crc32_bit_cases)
  have "\<not> bit x n" for n
  proof (cases n)
    case (Suc k)
    then show ?thesis using \<open>drop_bit 1 x = 0\<close> bit_drop_bit_eq [of 1 x, THEN fun_cong, of k] by simp
  qed (use \<open>even x\<close> in \<open>simp add: bit_0\<close>)
  then show "x = 0" by (intro bit_word_eqI) simp
qed simp

lemma crc32_bits_xor: "(crc32_bit ^^ n) (x XOR y) = (crc32_bit ^^ n) x XOR (crc32_bit ^^ n) y"
  by (induction n) (simp_all add: crc32_bit_xor)

lemma crc32_bits_inj: "(crc32_bit ^^ n) x = (crc32_bit ^^ n) y \<longleftrightarrow> x = y"
proof -
  have "(crc32_bit ^^ n) z = 0 \<longleftrightarrow> z = 0" for z by (induction n) (simp_all add: crc32_bit_eq_0)
  moreover have "a XOR b = 0 \<longleftrightarrow> a = b" for a b :: u32 using xor_right_cancel [of a b b] by simp
  ultimately show ?thesis by (metis crc32_bits_xor)
qed

text \<open>Shifting a short word up is undone by as many steps.\<close>

lemma crc32_bits_push: "n + m \<le> 32 \<Longrightarrow> (crc32_bit ^^ n) (push_bit n (take_bit m x)) = take_bit m x"
proof (induction n)
  case (Suc n)
  let ?y = "push_bit n (take_bit m x)"
  have "odd (push_bit (Suc n) (take_bit m x)) = False" by simp
  moreover have "drop_bit 1 (push_bit (Suc n) (take_bit m x)) = ?y"
    using Suc.prems by (intro bit_word_eqI) (auto simp: bit_simps simp del: push_bit_Suc)
  ultimately have "crc32_bit (push_bit (Suc n) (take_bit m x)) = ?y" by (simp add: crc32_bit_cases)
  then show ?case using Suc by (simp add: funpow_Suc_right del: funpow.simps)
qed simp

lemma from_le_bytes_snoc:
  "from_le_bytes (bs @ [b]) = (from_le_bytes bs XOR push_bit (8 * length bs) (ucast b) :: u32)"
proof (rule bit_word_eqI)
  fix i assume i: "i < LENGTH(32)"
  show "bit (from_le_bytes (bs @ [b]) :: u32) i = bit (from_le_bytes bs XOR push_bit (8 * length bs) (ucast b) :: u32) i"
  proof (cases "i < 8 * length bs")
    case True
    then show ?thesis using i by (auto simp: bit_from_le_bytes bit_simps nth_append)
  next
    case False
    then obtain j where j: "i = 8 * length bs + j" by (metis add_diff_inverse_nat)
    show ?thesis
    proof (cases "j < 8")
      case True
      then show ?thesis using i j by (auto simp: bit_from_le_bytes bit_simps nth_append)
    next
      case False
      then have "\<not> bit b j" by (auto dest: bit_imp_le_length)
      then show ?thesis using i j False by (auto simp: bit_from_le_bytes bit_simps)
    qed
  qed
qed

lemma crc32_update_append [simp]: "crc32_update crc (xs @ ys) = crc32_update (crc32_update crc xs) ys"
  by (simp add: crc32_update_def)

lemma crc32_update_word:
  "length bs \<le> 4 \<Longrightarrow> crc32_update crc bs = (crc32_bit ^^ (8 * length bs)) (crc XOR from_le_bytes bs)"
proof (induction bs rule: rev_induct)
  case (snoc b bs)
  let ?n = "8 * length bs"
  have b: "take_bit 8 (ucast b) = (ucast b :: u32)" by (rule bit_word_eqI) (auto simp: bit_simps dest: bit_imp_le_length)
  have "crc32_update crc (bs @ [b]) = (crc32_bit ^^ 8) ((crc32_bit ^^ ?n) (crc XOR from_le_bytes bs) XOR ucast b)"
    using snoc by (simp add: crc32_update_def crc32_byte_def)
  also have "ucast b = (crc32_bit ^^ ?n) (push_bit ?n (ucast b))"
    using crc32_bits_push [of ?n 8 "ucast b"] snoc.prems b by simp
  also have "(crc32_bit ^^ ?n) (crc XOR from_le_bytes bs) XOR (crc32_bit ^^ ?n) (push_bit ?n (ucast b))
      = (crc32_bit ^^ ?n) (crc XOR from_le_bytes (bs @ [b]))"
    unfolding from_le_bytes_snoc crc32_bits_xor [symmetric] by (simp add: xor.assoc)
  also have "(crc32_bit ^^ 8) ((crc32_bit ^^ ?n) (crc XOR from_le_bytes (bs @ [b])))
      = (crc32_bit ^^ (8 + ?n)) (crc XOR from_le_bytes (bs @ [b]))"
    unfolding funpow_add by simp
  finally show ?case by (simp del: funpow.simps)
qed (simp add: crc32_update_def)

lemma crc32_update_inj: "crc32_update x bs = crc32_update y bs \<longleftrightarrow> x = y"
proof (induction bs arbitrary: x y)
  case (Cons b bs)
  then show ?case by (simp add: crc32_update_def crc32_byte_def crc32_bits_inj xor_right_cancel del: funpow.simps)
qed (simp add: crc32_update_def)

text \<open>Two messages that differ only in a window of up to four bytes have different checksums.\<close>

lemma crc32_burst:
  assumes "length xs = length ys" "length xs \<le> 4" "xs \<noteq> ys"
  shows "crc32_update crc (xs @ zs) \<noteq> crc32_update crc (ys @ zs)"
proof -
  have "from_le_bytes xs \<noteq> (from_le_bytes ys :: u32)"
  proof
    assume "from_le_bytes xs = (from_le_bytes ys :: u32)"
    then have "to_le_bytes (length xs) (from_le_bytes xs :: u32) = to_le_bytes (length ys) (from_le_bytes ys :: u32)"
      using assms(1) by simp
    then show False using assms by (simp add: to_from_le_bytes)
  qed
  then have "crc32_update crc xs \<noteq> crc32_update crc ys"
    using assms by (simp add: crc32_update_word crc32_bits_inj xor_left_cancel)
  then show ?thesis by (simp add: crc32_update_inj)
qed

section \<open>Fields\<close>

definition tlv_bytes :: "u8 \<times> u8 list \<Rightarrow> u8 list" where
  "tlv_bytes f = fst f # to_le_bytes 2 (of_nat (length (snd f)) :: u16) @ snd f"

definition fields_bytes :: "(u8 \<times> u8 list) list \<Rightarrow> u8 list" where
  "fields_bytes fs = concat (map tlv_bytes fs)"

definition fields_fit :: "(u8 \<times> u8 list) list \<Rightarrow> bool" where
  "fields_fit fs \<longleftrightarrow> list_all (\<lambda>f. length (snd f) \<le> 65535) fs"

lemma fields_bytes_simps [simp]:
  "fields_bytes [] = []" "fields_bytes (f # fs) = tlv_bytes f @ fields_bytes fs"
  "fields_bytes (fs @ gs) = fields_bytes fs @ fields_bytes gs"
  by (simp_all add: fields_bytes_def)

lemma length_tlv_bytes [simp]: "length (tlv_bytes f) = 3 + length (snd f)"
  by (simp add: tlv_bytes_def)

lemma fields_fit_simps [simp]:
  "fields_fit []" "fields_fit (f # fs) \<longleftrightarrow> length (snd f) \<le> 65535 \<and> fields_fit fs"
  "fields_fit (fs @ gs) \<longleftrightarrow> fields_fit fs \<and> fields_fit gs"
  by (auto simp: fields_fit_def)

lemma fields_fit_short: "length (fields_bytes fs) \<le> 65535 \<Longrightarrow> fields_fit fs"
  by (induction fs) auto

lemma unat_u16: "n \<le> 65535 \<Longrightarrow> unat (of_nat n :: u16) = n"
  by (simp add: unat_of_nat)

lemma push_fpr2_tlv_fits:
  assumes "cursor + 3 + length v \<le> length out" "length v \<le> 65535"
  shows "push_fpr2_tlv tag v out cursor =
    Inr (take cursor out @ tlv_bytes (tag, v) @ drop (cursor + 3 + length v) out, cursor + 3 + length v)"
  using assms by (simp add: push_fpr2_tlv_def Let_def tlv_bytes_def)

lemma push_tlvs_fits:
  assumes "fields_fit fs" "cursor + length (fields_bytes fs) \<le> length out"
  shows "push_tlvs fs out cursor =
    Inr (take cursor out @ fields_bytes fs @ drop (cursor + length (fields_bytes fs)) out, cursor + length (fields_bytes fs))"
  using assms
proof (induction fs out cursor rule: push_tlvs.induct)
  case (2 tag v rest out cursor)
  let ?out = "take cursor out @ tlv_bytes (tag, v) @ drop (cursor + 3 + length v) out"
  have push: "push_fpr2_tlv tag v out cursor = Inr (?out, cursor + 3 + length v)"
    using "2.prems" by (intro push_fpr2_tlv_fits) simp_all
  have "push_tlvs rest ?out (cursor + 3 + length v) = Inr (take (cursor + 3 + length v) ?out @ fields_bytes rest
      @ drop (cursor + 3 + length v + length (fields_bytes rest)) ?out, cursor + 3 + length v + length (fields_bytes rest))"
    using "2.prems" by (intro "2.IH" [OF push refl]) simp_all
  then show ?case using "2.prems" push by (simp add: min_absorb1 min_absorb2 ac_simps)
qed simp

lemma for_each_fields:
  assumes "fields_fit fs"
  shows "for_each_fpr2_tlv visit (pre @ fields_bytes fs) (length pre) st = Inr (fold (\<lambda>(t, v). visit t v) fs st)"
  using assms
proof (induction fs arbitrary: pre st)
  case (Cons f fs)
  obtain t v where f: "f = (t, v)" by (cases f)
  let ?p = "pre @ fields_bytes (f # fs)"
  have len: "unat (u16_at ?p (Suc (length pre))) = length v"
    using Cons.prems
    by (simp add: f tlv_bytes_def u16_at_def to_le_bytes_2 nth_append unat_u16 del: from_le_bytes.simps)
  have tag: "?p ! length pre = t" and val: "take (length v) (drop (length pre + 3) ?p) = v"
    by (simp_all add: f tlv_bytes_def nth_append)
  have "for_each_fpr2_tlv visit ?p (length pre) st = for_each_fpr2_tlv visit ?p (length pre + 3 + length v) (visit t v st)"
    by (subst for_each_fpr2_tlv.simps) (use len tag val in \<open>simp add: f\<close>)
  also have "\<dots> = for_each_fpr2_tlv visit ((pre @ tlv_bytes f) @ fields_bytes fs) (length (pre @ tlv_bytes f)) (visit t v st)"
    by (simp add: f add.assoc)
  also have "\<dots> = Inr (fold (\<lambda>(t, v). visit t v) fs (visit t v st))" using Cons.prems by (intro Cons.IH) simp
  finally show ?case by (simp add: f)
qed (simp add: for_each_fpr2_tlv.simps)

section \<open>The bytes of a record\<close>

definition record_bytes :: "u32 \<Rightarrow> PersistDomain \<Rightarrow> u8 list \<Rightarrow> u8 list" where
  "record_bytes sequence domain payload =
     (let header = record_header sequence domain (length payload) in
      header @ to_le_bytes 4 (crc32_update (crc32 header) payload XOR 0xffffffff) @ payload)"

lemma length_record_header [simp]: "length (record_header s d n) = 16"
  by (simp add: record_header_def)

lemma length_record_bytes [simp]: "length (record_bytes s d payload) = 20 + length payload"
  by (simp add: record_bytes_def Let_def)

lemma from_wire_number [simp]: "PersistDomain_from_wire (of_nat (domain_number d)) = Some d"
  by (cases d) (simp_all add: PersistDomain_from_wire_def)

lemma slot_size_bounds: "slot_size d \<le> 768" "20 < slot_size d"
  by (cases d; simp)+

lemma record_header_explicit:
  "record_header s d n = [0x46, 0x50, 0x52, 0x32, 2, of_nat (domain_number d), 0, 20, ucast s, ucast (drop_bit 8 s),
     ucast (drop_bit 16 s), ucast (drop_bit 24 s), ucast (of_nat n :: u16), ucast (drop_bit 8 (of_nat n :: u16)), 0, 0]"
  by (simp add: record_header_def to_le_bytes_4 to_le_bytes_2)

text \<open>A record whose bytes are intact passes every check of the header and the checksum; its payload decides.\<close>

lemma decode_record_bytes:
  assumes "20 + length payload \<le> slot_size d"
  shows "decode_persist_record (record_bytes s d payload @ rest) =
    (case decode_persist_payload d payload of Inl e \<Rightarrow> Inl e | Inr data \<Rightarrow> Inr \<lparr>rec_sequence = s, rec_data = data\<rparr>)"
proof -
  let ?h = "record_header s d (length payload)" and ?crc = "crc32_update (crc32 (record_header s d (length payload))) payload XOR 0xffffffff"
  let ?bs = "record_bytes s d payload @ rest"
  have bs: "?bs = ?h @ to_le_bytes 4 ?crc @ payload @ rest" by (simp add: record_bytes_def Let_def)
  have n: "length payload \<le> 65535" using assms slot_size_bounds(1) [of d] by simp
  have h: "take 4 ?bs = [0x46, 0x50, 0x52, 0x32]" "?bs ! 4 = 2" "?bs ! 5 = of_nat (domain_number d)" "?bs ! 7 = 20"
    "u32_at ?bs 8 = s" "unat (u16_at ?bs 12) = length payload"
    unfolding bs using n
    by (simp_all add: record_header_explicit u32_at_def u16_at_def unat_u16 del: from_le_bytes.simps)
  have c: "u32_at ?bs 16 = ?crc" "take 16 ?bs = ?h" "take (length payload) (drop 20 ?bs) = payload"
    unfolding bs by (simp_all add: at_simps)
  show ?thesis
    unfolding decode_persist_record_def Let_def using assms h c by (auto split: sum.split)
qed

section \<open>What can be stored\<close>

definition safety_storable :: "SafetyCalibration \<Rightarrow> bool" where
  "safety_storable v \<longleftrightarrow> adc_storable (sf_adc_calibration v) \<and> curve_storable (sf_active_heater_curve v)
     \<and> observations_storable (sf_heater_curve_raw_observations v)"

text \<open>A cleaned profile whose inherited settings are the defaults.\<close>

definition profile_storable :: "ThermalControlProfileConfig \<Rightarrow> bool" where
  "profile_storable c \<longleftrightarrow> settings_ok (profile_settings c) \<and> inherited_defaults (profile_settings c) = profile_settings c
     \<and> profile_points c = pack 10 (flatten (profile_points c)) \<and> length (flatten (profile_points c)) \<le> 10
     \<and> (\<forall>p\<in>set (flatten (profile_points c)). point_ok p)"

definition prefs_storable :: "UserPreferences \<Rightarrow> bool" where
  "prefs_storable v \<longleftrightarrow> i16_ok (up_target_temp_c v) \<and> up_selected_preset_slot v < 256 \<and> length (up_presets_c v) = 10
     \<and> list_all (pred_option (\<lambda>t. clamp_temp_c t = t)) (up_presets_c v)
     \<and> up_active_cooling_enabled v = PostHeatCoolingMode_is_enabled (up_post_heat_cooling_mode v)"

definition ipv4_shape :: "WifiStaticIpv4Config \<Rightarrow> bool" where
  "ipv4_shape c \<longleftrightarrow> length (ipv4_address c) = 4 \<and> length (ipv4_gateway c) = 4 \<and> length (ipv4_dns c) = 4"

definition network_storable :: "NetworkAndPairing \<Rightarrow> bool" where
  "network_storable v \<longleftrightarrow> length (np_wifi_ssid v) \<le> 32 \<and> utf8_valid (np_wifi_ssid v) \<and> length (np_wifi_password v) \<le> 64
     \<and> utf8_valid (np_wifi_password v) \<and> pred_option ipv4_shape (np_wifi_static_ipv4 v)
     \<and> pred_option (\<lambda>t. length t = 32) (np_lan_pairing_token v)"

definition plant_storable :: "ThermalPlantPersistence \<Rightarrow> bool" where
  "plant_storable v \<longleftrightarrow> pred_option storable (pl_supply_boundary v) \<and> pred_option transient_storable (pl_active v)
     \<and> (pl_supply_boundary v = None \<longrightarrow> pl_active v = None)
     \<and> (case pl_supply_boundary v of None \<Rightarrow> 0 | Some b \<Rightarrow> 29 + 11 * unat (point_count b))
       + (case pl_active v of None \<Rightarrow> 4 | Some t \<Rightarrow> 27 + 5 * unat (tt_sample_count t)) \<le> 748"

fun data_storable :: "PersistDomainData \<Rightarrow> bool" where
  "data_storable (SafetyCalibrationData v) = safety_storable v"
| "data_storable (ThermalPolicyData v) = (profile_storable (tp_pps3a_profile v) \<and> profile_storable (tp_pps5a_profile v))"
| "data_storable (UserPreferencesData v) = prefs_storable v"
| "data_storable (NetworkAndPairingData v) = network_storable v"
| "data_storable (LayoutMarkerData v) = True"
| "data_storable (ThermalPlantData v) = plant_storable v"

text \<open>
  A payload of a domain as a list of fields: its encoder succeeds in any buffer that is
  large enough, and decoding gives the data back.
\<close>

definition encodes :: "PersistDomainData \<Rightarrow> (u8 \<times> u8 list) list \<Rightarrow> bool" where
  "encodes data fs \<longleftrightarrow> 20 + length (fields_bytes fs) \<le> slot_size (PersistDomainData_domain data)
     \<and> (\<forall>out. length (fields_bytes fs) \<le> length out \<longrightarrow> encode_persist_payload data out =
          Inr (fields_bytes fs @ drop (length (fields_bytes fs)) out, length (fields_bytes fs)))
     \<and> decode_persist_payload (PersistDomainData_domain data) (fields_bytes fs) = Inr data"

lemma encodesI:
  assumes "\<And>out. length (fields_bytes fs) \<le> length out \<Longrightarrow> encode_persist_payload data out = push_tlvs fs out 0"
    and "20 + length (fields_bytes fs) \<le> slot_size d"
    and "PersistDomainData_domain data = d"
    and "fold (\<lambda>(t, v). apply_tlv d t v) fs PersistDecodeState_new = s"
    and "ds_saw_field s" "decoded_domain d (settle_decode_state s) = data"
  shows "encodes data fs"
proof -
  have fit: "fields_fit fs" using assms(2) slot_size_bounds(1) [of d] by (intro fields_fit_short) simp
  have "for_each_fpr2_tlv (apply_tlv d) (fields_bytes fs) 0 PersistDecodeState_new = Inr s"
    using for_each_fields [OF fit, of "apply_tlv d" "[]"] assms(4) by simp
  then show ?thesis
    using assms push_tlvs_fits [OF fit, of 0] by (simp add: encodes_def decode_persist_payload_def)
qed

lemma encode_record_encodes:
  assumes "encodes data fs" "768 \<le> length out"
  shows "encode_persist_record s data out =
    Inr (record_bytes s (PersistDomainData_domain data) (fields_bytes fs) @ drop (20 + length (fields_bytes fs)) out,
      20 + length (fields_bytes fs))"
proof -
  let ?n = "length (fields_bytes fs)"
  have "?n \<le> length (drop 20 out)"
    using assms slot_size_bounds(1) [of "PersistDomainData_domain data"] by (auto simp: encodes_def)
  then have "encode_persist_payload data (drop 20 out) = Inr (fields_bytes fs @ drop ?n (drop 20 out), ?n)"
    using assms(1) by (simp add: encodes_def)
  then show ?thesis
    using assms by (simp add: encode_persist_record_def encodes_def record_bytes_def Let_def add.commute)
qed

lemma decode_record_encodes:
  assumes "encodes data fs"
  shows "decode_persist_record (record_bytes s (PersistDomainData_domain data) (fields_bytes fs) @ rest)
    = Inr \<lparr>rec_sequence = s, rec_data = data\<rparr>"
  using assms by (subst decode_record_bytes) (simp_all add: encodes_def)

lemmas applied_simps = set_safety_def set_thermal_def set_prefs_def set_network_def set_marker_def set_plant_def
  settle_decode_state_def PersistDecodeState_new_def Let_def

definition marker_fields :: "LayoutMarker \<Rightarrow> (u8 \<times> u8 list) list" where
  "marker_fields v =
     [(FPR2_TLV_STATUS, [status_byte (lm_status v)]), (FPR2_TLV_GENERATION, to_le_bytes 4 (lm_generation v)),
      (FPR2_TLV_KIND, [kind_byte (lm_kind v)])]"

lemma encodes_marker: "encodes (LayoutMarkerData v) (marker_fields v)"
  by (rule encodesI [where d = LayoutMarkerDomain, OF _ _ _ refl], cases v; cases "lm_status v"; cases "lm_kind v")
    (simp_all add: marker_fields_def encode_layout_marker_def apply_marker_def applied_simps at_simps)

lemma length_encode_adc:
  assumes "adc_storable c"
  shows "length (encode_adc_calibration_samples c) = 64" "length (encode_adc_calibration_references c) = 32"
    "length (encode_adc_calibration_targets c) = 16" "length (encode_adc_calibration_slots c) = 32"
    "length (encode_adc_calibration_active_slots c) = 2"
  using assms
  by (simp_all add: adc_storable_def encode_adc_calibration_samples_def encode_adc_calibration_references_def
      encode_adc_calibration_targets_def encode_adc_calibration_slots_def encode_adc_calibration_active_slots_def
      length_concat_const [where n = 4] length_concat_const [where n = 2])

lemma length_encode_curves:
  "curve_storable c \<Longrightarrow> length (encode_heater_curve c) = 32"
  "observations_storable r \<Longrightarrow> length (encode_heater_curve_raw_observations r) = 64"
  by (simp_all add: curve_storable_def encode_heater_curve_def observations_storable_def
      encode_heater_curve_raw_observations_def length_concat_const [where n = 4] length_concat_const [where n = 8] rep4
      split: option.split)

lemma encodes_safety:
  assumes "safety_storable v"
  shows "\<exists>fs. encodes (SafetyCalibrationData v) fs"
proof -
  let ?a = "sf_adc_calibration v" and ?i = "sf_heater_curve_transaction_id v"
  let ?fs = "[(TLV_COMMISSIONING_REQUIRED, [bool_byte (sf_commissioning_required v)]),
       (TLV_ADC_CALIBRATION_SAMPLES, encode_adc_calibration_samples ?a),
       (TLV_ADC_CALIBRATION_REFERENCES, encode_adc_calibration_references ?a),
       (TLV_ADC_CALIBRATION_TARGETS, encode_adc_calibration_targets ?a),
       (TLV_ADC_CALIBRATION_SLOTS, encode_adc_calibration_slots ?a),
       (TLV_ADC_CALIBRATION_ACTIVE_SLOTS, encode_adc_calibration_active_slots ?a),
       (TLV_ACTIVE_HEATER_CURVE, encode_heater_curve (sf_active_heater_curve v)),
       (TLV_HEATER_CURVE_RAW_OBSERVATIONS, encode_heater_curve_raw_observations (sf_heater_curve_raw_observations v))]
      @ (case ?i of Some tid \<Rightarrow> [(TLV_HEATER_CURVE_TRANSACTION_ID, to_le_bytes 4 tid)] | None \<Rightarrow> [])"
  have ok: "adc_storable ?a" "curve_storable (sf_active_heater_curve v)" "observations_storable (sf_heater_curve_raw_observations v)"
    using assms by (simp_all add: safety_storable_def)
  note len = length_encode_adc [OF ok(1)] length_encode_curves(1) [OF ok(2)] length_encode_curves(2) [OF ok(3)]
  note dec = decode_adc_encode [OF ok(1)] decode_heater_curve_encode [OF ok(2)] decode_observations_encode [OF ok(3)]
  have size: "20 + length (fields_bytes ?fs) \<le> slot_size SafetyCalibrationDomain" by (cases ?i) (simp_all add: len)
  have fold: "fold (\<lambda>(t, v). apply_tlv SafetyCalibrationDomain t v) ?fs PersistDecodeState_new
      = PersistDecodeState_new\<lparr>ds_safety := v, ds_saw_field := True\<rparr>"
    by (cases ?i; simp add: apply_safety_def len set_safety_def dec; rule PersistDecodeState.equality; simp;
        rule SafetyCalibration.equality; simp add: bool_byte_def PersistDecodeState_new_def u32_at_le)
  have "encodes (SafetyCalibrationData v) ?fs"
    by (rule encodesI [OF _ size _ fold]) (simp_all add: encode_safety_calibration_def settle_decode_state_def Let_def)
  then show ?thesis ..
qed

lemma length_encode_profile:
  assumes "profile_storable c"
  shows "length (encode_thermal_control_profile c) \<le> 298"
proof -
  obtain xs where "profile_points c = pack 10 xs" "length xs \<le> 10"
    using assms by (metis profile_storable_def)
  then show ?thesis by (simp add: encode_thermal_control_profile_def length_concat_const [where n = 28])
qed

lemma decode_profile_storable:
  assumes "profile_storable c"
  shows "decode_thermal_control_profile (encode_thermal_control_profile c) = Ret c"
  using assms decode_profile_encode [of c "flatten (profile_points c)"]
  by (cases c) (auto simp: profile_storable_def)

lemma encodes_thermal:
  assumes "profile_storable (tp_pps3a_profile v)" "profile_storable (tp_pps5a_profile v)"
  shows "\<exists>fs. encodes (ThermalPolicyData v) fs"
proof -
  let ?fs = "[(TLV_THERMAL_CONTROL_PROFILE_PPS3A, encode_thermal_control_profile (tp_pps3a_profile v)),
      (TLV_THERMAL_CONTROL_PROFILE_PPS5A, encode_thermal_control_profile (tp_pps5a_profile v)),
      (TLV_THERMAL_PROFILE_MODE, [mode_byte (tp_mode v)])]"
  have "encodes (ThermalPolicyData v) ?fs"
    using length_encode_profile [OF assms(1)] length_encode_profile [OF assms(2)]
      decode_profile_storable [OF assms(1)] decode_profile_storable [OF assms(2)]
    by (intro encodesI [where d = ThermalPolicyDomain, OF _ _ _ refl]; cases v; cases "tp_mode v")
      (simp_all add: encode_thermal_policy_def apply_thermal_def applied_simps)
  then show ?thesis ..
qed

definition preset_bytes :: "i16 option \<Rightarrow> u8 list" where
  "preset_bytes preset = i16_bytes (case preset of Some t \<Rightarrow> clamp_temp_c t | None \<Rightarrow> PRESET_NONE_WIRE_VALUE)"

lemma presets_read_back:
  assumes "length xs = 10" "list_all (pred_option (\<lambda>t. clamp_temp_c t = t)) xs"
  shows "map (\<lambda>index. let wire = i16_at (concat (map preset_bytes xs)) (index * 2) in
      if wire \<noteq> PRESET_NONE_WIRE_VALUE then Some wire else None) [0..<10] = xs"
proof (rule nth_equalityI)
  fix i assume "i < length (map (\<lambda>index. let wire = i16_at (concat (map preset_bytes xs)) (index * 2) in
      if wire \<noteq> PRESET_NONE_WIRE_VALUE then Some wire else None) [0..<10])"
  then have i: "i < length xs" using assms(1) by simp
  have "i16_at (concat (map preset_bytes xs)) (i * 2) = i16_at (preset_bytes (xs ! i)) 0"
    using u16_at_concat [OF i, of 0 2 preset_bytes] by (simp add: i16_at_def preset_bytes_def)
  moreover have "pred_option (\<lambda>t. clamp_temp_c t = t) (xs ! i)" using assms(2) i by (simp add: list_all_length)
  moreover have "- 32768 < clamp_temp_c t \<and> clamp_temp_c t < 32768" for t by (simp add: clamp_temp_c_def)
  then have "i16_at (i16_bytes (clamp_temp_c t)) 0 = clamp_temp_c t \<and> clamp_temp_c t \<noteq> - 32768" for t
    by (smt (verit) i16_at_bytes)
  moreover have "i16_at (i16_bytes (- 32768)) 0 = - 32768" by (simp add: i16_at_bytes)
  ultimately have "(let wire = i16_at (concat (map preset_bytes xs)) (i * 2) in
      if wire \<noteq> PRESET_NONE_WIRE_VALUE then Some wire else None) = xs ! i"
    by (cases "xs ! i") (auto simp: preset_bytes_def)
  then show "map (\<lambda>index. let wire = i16_at (concat (map preset_bytes xs)) (index * 2) in
      if wire \<noteq> PRESET_NONE_WIRE_VALUE then Some wire else None) [0..<10] ! i = xs ! i"
    using i assms(1) by simp
qed (use assms(1) in simp)

lemma encodes_prefs:
  assumes "prefs_storable v"
  shows "\<exists>fs. encodes (UserPreferencesData v) fs"
proof -
  let ?p = "concat (map preset_bytes (up_presets_c v))"
  let ?fs = "[(TLV_TARGET_TEMP_C, i16_bytes (up_target_temp_c v)),
      (TLV_SELECTED_PRESET_SLOT, [of_nat (up_selected_preset_slot v)]), (TLV_PRESETS_C, ?p),
      (TLV_ACTIVE_COOLING_ENABLED, [bool_byte (up_active_cooling_enabled v)]),
      (TLV_POST_HEAT_COOLING_MODE, [post_heat_byte (up_post_heat_cooling_mode v)]),
      (TLV_HEATING_FAN_GUARD_MODE, [guard_byte (up_heating_fan_guard_mode v)]),
      (TLV_TELEMETRY_INTERVAL_MS, to_le_bytes 4 (up_telemetry_interval_ms v))]"
  have p: "length ?p = 20"
    using assms by (simp add: prefs_storable_def preset_bytes_def length_concat_const [where n = 2])
  have target: "i16_at (i16_bytes (up_target_temp_c v)) 0 = up_target_temp_c v"
    using assms by (simp add: prefs_storable_def i16_ok_def at_simps)
  have slot: "unat (of_nat (up_selected_preset_slot v) :: u8) = up_selected_preset_slot v"
    using assms by (simp add: prefs_storable_def unat_of_nat)
  have presets: "map (\<lambda>index. let wire = i16_at ?p (index * 2) in
      if wire \<noteq> PRESET_NONE_WIRE_VALUE then Some wire else None) [0..<10] = up_presets_c v"
    using assms by (intro presets_read_back) (simp_all add: prefs_storable_def)
  have size: "20 + length (fields_bytes ?fs) \<le> slot_size UserPreferencesDomain" by (simp add: p)
  have whole: "(ds_prefs PersistDecodeState_new)\<lparr>up_target_temp_c := up_target_temp_c v,
      up_selected_preset_slot := up_selected_preset_slot v, up_presets_c := up_presets_c v,
      up_active_cooling_enabled := up_active_cooling_enabled v, up_post_heat_cooling_mode := up_post_heat_cooling_mode v,
      up_heating_fan_guard_mode := up_heating_fan_guard_mode v, up_telemetry_interval_ms := up_telemetry_interval_ms v\<rparr> = v"
    by (cases v) (simp add: PersistDecodeState_new_def)
  have fold: "fold (\<lambda>(t, v). apply_tlv UserPreferencesDomain t v) ?fs PersistDecodeState_new
      = PersistDecodeState_new\<lparr>ds_prefs := v, ds_saw_post_heat_mode := True, ds_saw_field := True\<rparr>"
    using p
    by (cases "up_post_heat_cooling_mode v"; cases "up_heating_fan_guard_mode v"; subst whole [symmetric])
      (simp_all add: apply_preferences_def set_prefs_def target slot u32_at_le presets [simplified] bool_byte_def
        del: upt_rec_numeral)
  have "encodes (UserPreferencesData v) ?fs"
    using assms
    by (intro encodesI [OF _ size _ fold])
      (simp_all add: encode_user_preferences_def preset_bytes_def [abs_def] settle_decode_state_def Let_def prefs_storable_def)
  then show ?thesis ..
qed

lemma encodes_network:
  assumes "network_storable v"
  shows "\<exists>fs. encodes (NetworkAndPairingData v) fs"
proof -
  let ?ip = "np_wifi_static_ipv4 v" and ?tok = "np_lan_pairing_token v"
  let ?fs = "[(TLV_WIFI_SSID, np_wifi_ssid v), (TLV_WIFI_PASSWORD, np_wifi_password v),
       (TLV_WIFI_AUTO_RECONNECT, [bool_byte (np_wifi_auto_reconnect v)])]
      @ (case ?ip of
           Some c \<Rightarrow> [(TLV_WIFI_STATIC_IPV4, ipv4_address c @ [ipv4_prefix_len c] @ ipv4_gateway c @ ipv4_dns c)]
         | None \<Rightarrow> [])
      @ (case ?tok of Some tok \<Rightarrow> [(TLV_LAN_PAIRING_TOKEN, tok)] | None \<Rightarrow> [])"
  have len: "length (np_wifi_ssid v) \<le> 32" "length (np_wifi_password v) \<le> 64"
    and utf: "utf8_valid (np_wifi_ssid v)" "utf8_valid (np_wifi_password v)"
    and opt: "?ip = Some c \<Longrightarrow> ipv4_shape c" "?tok = Some tok \<Longrightarrow> length tok = 32" for c tok
    using assms by (auto simp: network_storable_def)
  have size: "20 + length (fields_bytes ?fs) \<le> slot_size NetworkAndPairingDomain"
    using len opt by (cases ?ip; cases ?tok) (simp_all add: ipv4_shape_def)
  have ip: "\<lparr>ipv4_address = ipv4_address c, ipv4_prefix_len = ipv4_prefix_len c, ipv4_gateway = ipv4_gateway c,
      ipv4_dns = ipv4_dns c\<rparr> = c" for c :: WifiStaticIpv4Config
    by (cases c) simp
  have whole: "(ds_network PersistDecodeState_new)\<lparr>np_wifi_ssid := np_wifi_ssid v, np_wifi_password := np_wifi_password v,
      np_wifi_auto_reconnect := np_wifi_auto_reconnect v, np_wifi_static_ipv4 := ?ip, np_lan_pairing_token := ?tok\<rparr> = v"
    by (cases v) (simp add: PersistDecodeState_new_def)
  have fold: "fold (\<lambda>(t, v). apply_tlv NetworkAndPairingDomain t v) ?fs PersistDecodeState_new
      = PersistDecodeState_new\<lparr>ds_network := (ds_network PersistDecodeState_new)\<lparr>np_wifi_ssid := np_wifi_ssid v,
          np_wifi_password := np_wifi_password v, np_wifi_auto_reconnect := np_wifi_auto_reconnect v,
          np_wifi_static_ipv4 := ?ip, np_lan_pairing_token := ?tok\<rparr>, ds_saw_field := True\<rparr>"
    by (cases ?ip; cases ?tok; use len utf opt in \<open>simp add: apply_network_def set_network_def utf8_or_empty_def min_absorb1
      bool_byte_def ip ipv4_shape_def nth_append PersistDecodeState_new_def\<close>)
  have "encodes (NetworkAndPairingData v) ?fs"
    by (intro encodesI [OF _ size _ fold [unfolded whole]])
      (simp_all add: encode_network_pairing_def settle_decode_state_def Let_def)
  then show ?thesis ..
qed

definition plant_fields :: "ThermalPlantPersistence \<Rightarrow> (u8 \<times> u8 list) list" where
  "plant_fields v =
     (case pl_supply_boundary v of None \<Rightarrow> []
      | Some b \<Rightarrow> [(TLV_HEATER_SUPPLY_BOUNDARY,
          header_bytes b @ to_le_bytes 2 (ucast (source_power_limit_mw b div 10) :: u16) @ encoded_points b)])
     @ (case pl_active v of None \<Rightarrow> [(FPR2_TLV_THERMAL_PLANT_STATE, [THERMAL_PLANT_STATE_EMPTY])]
        | Some t \<Rightarrow> [(TLV_THERMAL_PLANT_TRANSIENT_ACTIVE, encode_thermal_plant_persisted_transaction t)])"

lemma length_encoded_points: "storable b \<Longrightarrow> length (encoded_points b) = 11 * unat (point_count b)"
  using valid_count [of b]
  by (auto simp: encoded_points_def storable_def length_concat_const [where n = 11])

lemma encodes_plant:
  assumes "plant_storable v"
  shows "\<exists>fs. encodes (ThermalPlantData v) fs"
proof -
  let ?b = "pl_supply_boundary v" and ?t = "pl_active v"
  have b: "?b = Some x \<Longrightarrow> storable x" and t: "?t = Some y \<Longrightarrow> transient_storable y" and n: "?b = None \<Longrightarrow> ?t = None" for x y
    using assms by (auto simp: plant_storable_def)
  have size: "20 + length (fields_bytes (plant_fields v)) \<le> slot_size ThermalPlantDomain"
    using assms by (cases ?b; cases ?t)
      (auto simp: plant_storable_def plant_fields_def length_header_bytes length_encoded_points length_encode_transient)
  have enc: "encode_persist_payload (ThermalPlantData v) out = push_tlvs (plant_fields v) out 0" for out
    proof (cases ?b)
    case (Some x)
    have "encode x (replicate BOUNDARY_MAX_BYTES 0) = (header_bytes x @ to_le_bytes 2 (ucast (source_power_limit_mw x div 10) :: u16)
        @ encoded_points x @ drop (26 + unat (point_count x) * 11) (replicate BOUNDARY_MAX_BYTES 0), Some (26 + unat (point_count x) * 11))"
      using b [OF Some] valid_count [of x] by (intro encode_valid) (auto simp: storable_def)
    then show ?thesis
      using b [OF Some] t Some
      by (cases ?t) (auto simp: encode_thermal_plant_def plant_fields_def length_header_bytes length_encoded_points
          transient_storable_def split: sum.splits prod.splits)
  qed (use t n in \<open>auto simp: encode_thermal_plant_def plant_fields_def split: sum.splits prod.splits\<close>)
  have trans: "decode_thermal_plant_persisted_transaction (encode_thermal_plant_persisted_transaction y) = Some y
      \<and> length (encode_thermal_plant_persisted_transaction y) = 24 + unat (tt_sample_count y) * 5
      \<and> unat (tt_sample_count y) \<le> 128 \<and> encode_thermal_plant_persisted_transaction y ! 7 = 3" if "?t = Some y" for y
    using decode_transient_encode [OF t [OF that]] length_encode_transient [OF t [OF that]] t [OF that]
    by (simp add: transient_storable_def thermal_plant_persisted_transaction_fits_def)
      (simp add: encode_thermal_plant_persisted_transaction_def to_le_bytes_4 to_le_bytes_2)
  have fold: "fold (\<lambda>(t, v). apply_tlv ThermalPlantDomain t v) (plant_fields v) PersistDecodeState_new
      = PersistDecodeState_new\<lparr>ds_thermal_plant := \<lparr>pl_active = ?t, pl_supply_boundary = ?b\<rparr>, ds_saw_field := True\<rparr>"
    by (cases ?b; cases ?t; use b t n trans in \<open>simp add: plant_fields_def apply_thermal_plant_def set_plant_def
      decode_encoded PersistDecodeState_new_def\<close>)
  have "encodes (ThermalPlantData v) (plant_fields v)"
    by (intro encodesI [OF enc size _ fold]) (use n in \<open>simp_all add: settle_decode_state_def Let_def\<close>)
  then show ?thesis ..
qed

lemma storable_encodes: "data_storable data \<Longrightarrow> \<exists>fs. encodes data fs"
  using encodes_marker
  by (cases data) (auto simp add: encodes_safety encodes_thermal encodes_prefs encodes_network encodes_plant)

text \<open>
  \<^bold>\<open>Every record is read back as it was stored (C7).\<close> Whatever the domain, the encoder succeeds
  in a buffer of the size the firmware uses, stays inside the slot, leaves the rest of the
  buffer alone, and the decoder returns the sequence number and the data, whatever bytes follow the
  record in the slot.
\<close>

theorem record_survives_storage:
  assumes "data_storable data" "FPR2_MAX_RECORD_SIZE \<le> length out"
  shows "\<exists>bytes n. encode_persist_record sequence data out = Inr (bytes, n)
    \<and> n \<le> slot_size (PersistDomainData_domain data) \<and> drop n bytes = drop n out
    \<and> (\<forall>rest. decode_persist_record (take n bytes @ rest) = Inr \<lparr>rec_sequence = sequence, rec_data = data\<rparr>)"
proof -
  obtain fs where fs: "encodes data fs" using storable_encodes [OF assms(1)] by blast
  have "encode_persist_record sequence data out =
      Inr (record_bytes sequence (PersistDomainData_domain data) (fields_bytes fs) @ drop (20 + length (fields_bytes fs)) out,
        20 + length (fields_bytes fs))"
    using fs assms(2) by (intro encode_record_encodes) simp_all
  then show ?thesis using fs decode_record_encodes [OF fs] by (simp add: encodes_def)
qed

definition bench_network :: NetworkAndPairing where
  "bench_network = \<lparr>np_wifi_ssid = [0x6c, 0xc3, 0xa9], np_wifi_password = [0x70, 0x77], np_wifi_auto_reconnect = True,
     np_wifi_static_ipv4 = Some \<lparr>ipv4_address = [10, 0, 0, 7], ipv4_prefix_len = 24, ipv4_gateway = [10, 0, 0, 1],
       ipv4_dns = [10, 0, 0, 1]\<rparr>, np_lan_pairing_token = Some (replicate 32 7)\<rparr>"

lemma bench_network_storable: "network_storable bench_network"
  by (simp add: network_storable_def bench_network_def ipv4_shape_def utf8_cont_def)

theorem record_survives_storage_witness:
  "\<exists>bytes n. encode_persist_record 7 (NetworkAndPairingData bench_network) (replicate 768 0xff) = Inr (bytes, n)
    \<and> decode_persist_record (take n bytes @ [1, 2]) = Inr \<lparr>rec_sequence = 7, rec_data = NetworkAndPairingData bench_network\<rparr>"
proof -
  have "data_storable (NetworkAndPairingData bench_network)" "FPR2_MAX_RECORD_SIZE \<le> length (replicate 768 (0xff :: u8))"
    by (simp_all add: bench_network_storable)
  then show ?thesis using record_survives_storage by blast
qed

section \<open>Damaged records\<close>

lemma u32_at_slice: "at + 4 \<le> length bs \<Longrightarrow> u32_at bs at = from_le_bytes (take 4 (drop at bs))"
proof -
  assume "at + 4 \<le> length bs"
  then have "take 4 (drop at bs) = map (\<lambda>i. bs ! (at + i)) [0..<4]" by (intro nth_equalityI) auto
  then show ?thesis by (simp add: u32_at_def upt_rec numeral_3_eq_3 del: from_le_bytes.simps)
qed

lemma le_word_inj:
  assumes "length xs = 4" "length ys = 4"
  shows "from_le_bytes xs = (from_le_bytes ys :: u32) \<longleftrightarrow> xs = ys"
proof
  assume eq: "from_le_bytes xs = (from_le_bytes ys :: u32)"
  have "xs = to_le_bytes 4 (from_le_bytes xs :: u32)" using assms by (simp add: to_from_le_bytes)
  also have "\<dots> = ys" unfolding eq using assms by (simp add: to_from_le_bytes)
  finally show "xs = ys" .
qed simp

definition crc_input :: "u8 list \<Rightarrow> u8 list" where
  "crc_input bs = take 16 bs @ take (unat (u16_at bs 12)) (drop 20 bs)"

lemma decode_OkD:
  assumes "decode_persist_record bs = Inr r"
  shows "20 + unat (u16_at bs 12) \<le> length bs" "u32_at bs 16 = crc32_update 0xffffffff (crc_input bs) XOR 0xffffffff"
    "rec_sequence r = u32_at bs 8" "take 4 bs = FPR2_MAGIC"
  using assms unfolding decode_persist_record_def
  by (auto simp: Let_def crc32_def crc_input_def split: if_splits option.splits sum.splits)

lemma decode_bad_crc:
  assumes "decode_persist_record bs = Inr r" "length bs' = length bs" "take 8 bs' = take 8 bs" "u16_at bs' 12 = u16_at bs 12"
    and "u32_at bs' 16 \<noteq> crc32_update 0xffffffff (crc_input bs') XOR 0xffffffff"
  shows "decode_persist_record bs' = Inl CrcMismatch"
proof -
  have n: "bs' ! i = bs ! i" if "i < 8" for i using that assms(3) by (metis nth_take)
  have "take 4 (take 8 bs') = take 4 (take 8 bs)" unfolding assms(3) ..
  then have "take 4 bs' = take 4 bs" by simp
  then show ?thesis
    using assms unfolding decode_persist_record_def
    by (auto simp: Let_def crc32_def crc_input_def n split: if_splits option.splits)
qed

lemma burst_rejected:
  assumes "decode_persist_record (pre @ old @ post) = Inr r"
    and "length new = length old" "length old \<le> 4" "new \<noteq> old"
    and "8 \<le> length pre \<and> length pre + length old \<le> 12 \<or> 16 \<le> length pre \<and> length pre + length old \<le> 20
      \<or> 20 \<le> length pre \<and> length pre + length old \<le> 20 + unat (u16_at (pre @ old @ post) 12)"
  shows "decode_persist_record (pre @ new @ post) = Inl CrcMismatch"
proof -
  let ?bs = "pre @ old @ post" and ?bs' = "pre @ new @ post"
  note ok = decode_OkD [OF assms(1)]
  have hd: "take 8 ?bs' = take 8 ?bs" using assms(5) by auto
  have len: "u16_at ?bs' 12 = u16_at ?bs 12"
    using assms(2,5) by (auto simp: u16_at_def nth_append)
  show ?thesis
  proof (rule decode_bad_crc [OF assms(1) _ hd len])
    show "u32_at ?bs' 16 \<noteq> crc32_update 0xffffffff (crc_input ?bs') XOR 0xffffffff"
    proof (cases "16 \<le> length pre \<and> length pre + length old \<le> 20")
      case True
      then have "drop (20 - length pre) new = []" "drop (20 - length pre) old = []" using assms(2) by auto
      then have "crc_input ?bs' = crc_input ?bs" unfolding crc_input_def len using True assms(2) by simp
      moreover have "take (20 - length pre) new = new" "take (20 - length pre) old = old" using True assms(2) by auto
      then have "take 4 (drop 16 ?bs') \<noteq> take 4 (drop 16 ?bs)" using True assms(2,4) ok(1) by simp
      then have "u32_at ?bs' 16 \<noteq> u32_at ?bs 16" 
        using u32_at_slice [of 16 ?bs'] u32_at_slice [of 16 ?bs] le_word_inj [of "take 4 (drop 16 ?bs')" "take 4 (drop 16 ?bs)"]
          ok(1) assms(2) by (simp del: take_append drop_append)
      ultimately show ?thesis using ok(2) by simp
    next
      case False
      let ?n = "unat (u16_at ?bs 12)" and ?l = "length pre + length old"
      have "u32_at ?bs' 16 = u32_at ?bs 16"
        using False assms(2,5) ok(1) by (subst (1 2) u32_at_slice) (auto simp: drop_all)
      moreover obtain xs ys where "crc_input ?bs = xs @ old @ ys" "crc_input ?bs' = xs @ new @ ys"
      proof (cases "20 \<le> length pre")
        case True
        show thesis
          by (rule that [of "take 16 pre @ drop 20 pre" "take (?n - (?l - 20)) post"])
            (use True False assms(2,5) in \<open>simp_all add: crc_input_def len\<close>)
      next
        case low: False
        show thesis
          by (rule that [of pre "take (16 - ?l) post @ take ?n (drop (20 - ?l) post)"])
            (use low False assms(2,5) in \<open>auto simp: crc_input_def len\<close>)
      qed
      ultimately show ?thesis
        using crc32_burst [OF assms(2), of "crc32_update 0xffffffff xs" ys] assms(2-4) ok(2)
        by (auto simp: xor_right_cancel)
    qed
  qed (simp add: assms(2))
qed

text \<open>
  \<^bold>\<open>A damaged record is rejected (C13).\<close> Take a slot that decodes and change up to four adjacent
  bytes of its sequence number, of its checksum or anywhere in its payload: the decoder reports
  \<open>CrcMismatch\<close>. No single-byte error and no burst of up to 32 bits is ever accepted.
\<close>

theorem damaged_record_is_rejected:
  assumes "decode_persist_record (pre @ old @ post) = Inr r"
    and "length new = length old" "length old \<le> 4" "new \<noteq> old"
    and "8 \<le> length pre \<and> length pre + length old \<le> 12 \<or> 16 \<le> length pre \<and> length pre + length old \<le> 20
      \<or> 20 \<le> length pre \<and> length pre + length old \<le> 20 + unat (u16_at (pre @ old @ post) 12)"
  shows "decode_persist_record (pre @ new @ post) = Inl CrcMismatch"
  using assms by (rule burst_rejected)

definition bench_marker :: LayoutMarker where
  "bench_marker = \<lparr>lm_generation = 7, lm_status = MarkerActive, lm_kind = CommitKind\<rparr>"

definition bench_marker_bytes :: "u8 list" where
  "bench_marker_bytes = record_bytes 7 LayoutMarkerDomain (fields_bytes (marker_fields bench_marker))"

theorem damaged_record_is_rejected_witness:
  "decode_persist_record (take 23 bench_marker_bytes @ [1, 2] @ drop 25 bench_marker_bytes) = Inl CrcMismatch"
proof -
  have bytes: "bench_marker_bytes = take 23 bench_marker_bytes @ [2, 2] @ drop 25 bench_marker_bytes"
    by (simp add: bench_marker_bytes_def record_bytes_def Let_def marker_fields_def bench_marker_def tlv_bytes_def
        record_header_explicit to_le_bytes_4 to_le_bytes_2)
  have len: "unat (u16_at bench_marker_bytes 12) = 15" "length bench_marker_bytes = 35"
    by (simp_all add: bench_marker_bytes_def record_bytes_def Let_def marker_fields_def bench_marker_def tlv_bytes_def
        record_header_explicit u16_at_def to_le_bytes_4 to_le_bytes_2)
  have "decode_persist_record bench_marker_bytes = Inr \<lparr>rec_sequence = 7, rec_data = LayoutMarkerData bench_marker\<rparr>"
    using decode_record_encodes [OF encodes_marker, of 7 bench_marker "[]"] by (simp add: bench_marker_bytes_def)
  then have ok: "decode_persist_record (take 23 bench_marker_bytes @ [2, 2] @ drop 25 bench_marker_bytes)
      = Inr \<lparr>rec_sequence = 7, rec_data = LayoutMarkerData bench_marker\<rparr>"
    using bytes by simp
  show ?thesis
    by (rule damaged_record_is_rejected [OF ok]) (use len bytes in \<open>simp_all\<close>)
qed

end
