(* ===== verification/Eeprom_Store.thy ===== *)
theory Eeprom_Store
  imports Persist_Laws
begin

text \<open>
  The EEPROM and the transfers of \<open>src/firmware/src/bin/flux_purr/eeprom.rs\<close> and of the driver \<open>M24c64\<close> in
  \<open>src/firmware/src/memory.rs\<close>: chunked reads, page writes with read-back, the record slots and the
  maintenance commands.

  The device is its memory and the outcomes of the bus transfers to come. A transfer either
  completes or fails with an error kind after some of its bytes; a failed write leaves these
  first bytes in the memory. When the list of outcomes is empty every transfer completes. A power
  loss is the same as a failed transfer after which the firmware writes no more.

  The lemmas show that reads never change the memory, that a write of a record leaves a prefix of its bytes in its
  slot and nothing else changed, and that a reported success means that the whole record is there.
\<close>

section \<open>The device\<close>

datatype I2cErrorKind = NackAddress | NackData | NackUnknown | BusError | ArbitrationLost | OtherI2cError

datatype BusEvent = BusOk | BusFault I2cErrorKind nat

record Eeprom =
  ee_memory :: "u8 list"
  ee_bus :: "BusEvent list"

definition next_event :: "Eeprom \<Rightarrow> BusEvent \<times> Eeprom" where
  "next_event dev = (case ee_bus dev of [] \<Rightarrow> (BusOk, dev) | e # es \<Rightarrow> (e, dev\<lparr>ee_bus := es\<rparr>))"

definition overwrite :: "u8 list \<Rightarrow> nat \<Rightarrow> u8 list \<Rightarrow> u8 list" where
  "overwrite mem at bs = take at mem @ bs @ drop (at + length bs) mem"

datatype EepromError = OutOfRange | PageWriteTooLong | PageBoundaryCrossed | I2cFailure I2cErrorKind

definition M24C64_CAPACITY_BYTES :: u16 where [simp]: "M24C64_CAPACITY_BYTES = 8192"
definition M24C64_PAGE_SIZE :: nat where [simp]: "M24C64_PAGE_SIZE = 32"
definition EEPROM_WRITE_CHUNK_MAX_BYTES :: nat where [simp]: "EEPROM_WRITE_CHUNK_MAX_BYTES = 16"
definition EEPROM_READ_CHUNK_MAX_BYTES :: nat where [simp]: "EEPROM_READ_CHUNK_MAX_BYTES = 16"
definition EEPROM_MAINTENANCE_CHUNK_MAX :: nat where [simp]: "EEPROM_MAINTENANCE_CHUNK_MAX = 32"

text \<open>A read replaces the bytes of the caller's buffer; a failing one as many as were transferred.\<close>

definition read_bytes_async :: "u16 \<Rightarrow> u8 list \<Rightarrow> Eeprom \<Rightarrow> (EepromError + unit) \<times> u8 list \<times> Eeprom" where
  "read_bytes_async offset buf dev =
     (if unat offset + length buf > unat M24C64_CAPACITY_BYTES then (Inl OutOfRange, buf, dev)
      else let bs = take (length buf) (drop (unat offset) (ee_memory dev)) in
        case next_event dev of
          (BusOk, dev) \<Rightarrow> (Inr (), bs, dev)
        | (BusFault kind k, dev) \<Rightarrow> (Inl (I2cFailure kind), take k bs @ drop k buf, dev))"

definition write_page_async :: "u16 \<Rightarrow> u8 list \<Rightarrow> Eeprom \<Rightarrow> (EepromError + unit) \<times> Eeprom" where
  "write_page_async offset bs dev =
     (if length bs > M24C64_PAGE_SIZE then (Inl PageWriteTooLong, dev)
      else if unat offset + length bs > unat M24C64_CAPACITY_BYTES then (Inl OutOfRange, dev)
      else if unat offset mod M24C64_PAGE_SIZE + length bs > M24C64_PAGE_SIZE then (Inl PageBoundaryCrossed, dev)
      else case next_event dev of
        (BusOk, dev) \<Rightarrow> (Inr (), dev\<lparr>ee_memory := overwrite (ee_memory dev) (unat offset) bs\<rparr>)
      | (BusFault kind k, dev) \<Rightarrow>
          (Inl (I2cFailure kind), dev\<lparr>ee_memory := overwrite (ee_memory dev) (unat offset) (take k bs)\<rparr>))"

datatype MemoryCommitError =
  EncodeFailed | WriteFailed | WriteAddressNoAck | WriteDataNoAck | WriteUnknownNoAck | WriteBus | WriteArbitration
| WriteOther | VerifyUnreadable | VerifyMismatch

fun MemoryCommitError_code :: "MemoryCommitError \<Rightarrow> string" where
  "MemoryCommitError_code EncodeFailed = ''memory_commit_encode_failed''"
| "MemoryCommitError_code WriteFailed = ''memory_commit_write_failed''"
| "MemoryCommitError_code WriteAddressNoAck = ''memory_commit_write_address_nack''"
| "MemoryCommitError_code WriteDataNoAck = ''memory_commit_write_data_nack''"
| "MemoryCommitError_code WriteUnknownNoAck = ''memory_commit_write_unknown_nack''"
| "MemoryCommitError_code WriteBus = ''memory_commit_write_bus_error''"
| "MemoryCommitError_code WriteArbitration = ''memory_commit_write_arbitration_lost''"
| "MemoryCommitError_code WriteOther = ''memory_commit_write_other_error''"
| "MemoryCommitError_code VerifyUnreadable = ''memory_commit_verify_unreadable''"
| "MemoryCommitError_code VerifyMismatch = ''memory_commit_verify_mismatch''"

fun MemoryCommitError_message :: "MemoryCommitError \<Rightarrow> string" where
  "MemoryCommitError_message EncodeFailed = ''Memory record could not be encoded.''"
| "MemoryCommitError_message WriteFailed = ''Memory record could not be written to EEPROM.''"
| "MemoryCommitError_message WriteAddressNoAck = ''EEPROM did not acknowledge its I2C address.''"
| "MemoryCommitError_message WriteDataNoAck = ''EEPROM rejected the I2C write payload.''"
| "MemoryCommitError_message WriteUnknownNoAck = ''EEPROM write failed with an I2C NACK.''"
| "MemoryCommitError_message WriteBus = ''EEPROM write failed with an I2C bus error.''"
| "MemoryCommitError_message WriteArbitration = ''EEPROM write lost I2C bus arbitration.''"
| "MemoryCommitError_message WriteOther = ''EEPROM write failed with an uncategorized I2C error.''"
| "MemoryCommitError_message VerifyUnreadable = ''Memory record could not be read back after write.''"
| "MemoryCommitError_message VerifyMismatch = ''Memory record readback did not match the requested config.''"

fun memory_commit_error_from_eeprom :: "EepromError \<Rightarrow> MemoryCommitError" where
  "memory_commit_error_from_eeprom OutOfRange = WriteFailed"
| "memory_commit_error_from_eeprom PageWriteTooLong = WriteFailed"
| "memory_commit_error_from_eeprom PageBoundaryCrossed = WriteFailed"
| "memory_commit_error_from_eeprom (I2cFailure NackAddress) = WriteAddressNoAck"
| "memory_commit_error_from_eeprom (I2cFailure NackData) = WriteDataNoAck"
| "memory_commit_error_from_eeprom (I2cFailure NackUnknown) = WriteUnknownNoAck"
| "memory_commit_error_from_eeprom (I2cFailure BusError) = WriteBus"
| "memory_commit_error_from_eeprom (I2cFailure ArbitrationLost) = WriteArbitration"
| "memory_commit_error_from_eeprom (I2cFailure OtherI2cError) = WriteOther"

section \<open>Transfers\<close>

text \<open>The device has one address, so a probe is a test; \<open>None\<close> in the code is \<open>False\<close> here.\<close>

definition probe_eeprom_address :: "Eeprom \<Rightarrow> bool \<times> Eeprom" where
  "probe_eeprom_address dev = (case read_bytes_async 0 [0] dev of (r, _, dev) \<Rightarrow> (r = Inr (), dev))"

text \<open>\<open>u16::checked_add\<close> of a transfer position.\<close>

definition chunk_offset :: "u16 \<Rightarrow> nat \<Rightarrow> u16 option" where
  "chunk_offset offset pos =
     (let p = (of_nat pos :: u16) in if unat offset + unat p > 65535 then None else Some (offset + p))"

function read_chunks :: "u16 \<Rightarrow> nat \<Rightarrow> u8 list \<Rightarrow> nat \<Rightarrow> Eeprom \<Rightarrow> (unit + unit) \<times> u8 list \<times> Eeprom" where
  "read_chunks offset len buf pos dev =
     (if pos < len
      then let chunk_len = min (len - pos) EEPROM_READ_CHUNK_MAX_BYTES in
        case chunk_offset offset pos of
          None \<Rightarrow> (Inl (), buf, dev)
        | Some at \<Rightarrow>
            (case read_bytes_async at (take chunk_len (drop pos buf)) dev of
               (r, chunk, dev) \<Rightarrow>
                 let buf = take pos buf @ chunk @ drop (pos + chunk_len) buf in
                 (case r of Inl _ \<Rightarrow> (Inl (), buf, dev) | Inr _ \<Rightarrow> read_chunks offset len buf (pos + chunk_len) dev))
      else (Inr (), buf, dev))"
  by pat_completeness auto
termination
  by (relation "measure (\<lambda>(offset, len, buf, pos, dev). len - pos)") auto

declare read_chunks.simps [simp del]

definition read_eeprom_bytes_chunked :: "u16 \<Rightarrow> u8 list \<Rightarrow> Eeprom \<Rightarrow> (unit + unit) \<times> u8 list \<times> Eeprom" where
  "read_eeprom_bytes_chunked offset buf dev = read_chunks offset (length buf) buf 0 dev"

definition eeprom_bytes_contain_data :: "u8 list \<Rightarrow> bool" where
  "eeprom_bytes_contain_data bs = list_ex (\<lambda>b. b \<noteq> 0xff) bs"

definition eeprom_maintenance_write_chunk_len :: "nat \<Rightarrow> nat \<Rightarrow> nat" where
  "eeprom_maintenance_write_chunk_len absolute_offset remaining =
     (let page_room = M24C64_PAGE_SIZE - absolute_offset mod M24C64_PAGE_SIZE in
      min (min remaining page_room) EEPROM_WRITE_CHUNK_MAX_BYTES)"

definition memory_record_write_chunk_len :: "nat \<Rightarrow> nat \<Rightarrow> nat" where
  "memory_record_write_chunk_len absolute_offset remaining = eeprom_maintenance_write_chunk_len absolute_offset remaining"

lemma write_chunk_pos: "0 < remaining \<Longrightarrow> 0 < memory_record_write_chunk_len absolute_offset remaining"
  by (simp add: memory_record_write_chunk_len_def eeprom_maintenance_write_chunk_len_def Let_def)

text \<open>The write loop, the same in \<open>write_eeprom_bytes_verified\<close> and \<open>write_eeprom_persist_record\<close>.\<close>

function write_chunks :: "u16 \<Rightarrow> u8 list \<Rightarrow> nat \<Rightarrow> Eeprom \<Rightarrow> (MemoryCommitError + unit) \<times> Eeprom" where
  "write_chunks offset bs written dev =
     (if written < length bs
      then let absolute_offset = unat offset + written;
               chunk_len = memory_record_write_chunk_len absolute_offset (length bs - written)
           in if absolute_offset > 65535 then (Inl WriteFailed, dev)
              else case write_page_async (of_nat absolute_offset) (take chunk_len (drop written bs)) dev of
                (Inl e, dev) \<Rightarrow> (Inl (memory_commit_error_from_eeprom e), dev)
              | (Inr _, dev) \<Rightarrow> write_chunks offset bs (written + chunk_len) dev
      else (Inr (), dev))"
  by pat_completeness auto
termination
  by (relation "measure (\<lambda>(offset, bs, written, dev). length bs - written)")
    (simp_all add: write_chunk_pos diff_less_mono2)

declare write_chunks.simps [simp del]

text \<open>The read-back loop of \<open>write_eeprom_persist_record\<close>: each chunk is compared as it is read.\<close>

function verify_chunks :: "u16 \<Rightarrow> u8 list \<Rightarrow> nat \<Rightarrow> Eeprom \<Rightarrow> (MemoryCommitError + unit) \<times> Eeprom" where
  "verify_chunks offset bs pos dev =
     (if pos < length bs
      then let chunk_len = min (length bs - pos) EEPROM_WRITE_CHUNK_MAX_BYTES in
        case chunk_offset offset pos of
          None \<Rightarrow> (Inl VerifyUnreadable, dev)
        | Some at \<Rightarrow>
            (case read_bytes_async at (replicate chunk_len 0) dev of
               (Inl _, _, dev) \<Rightarrow> (Inl VerifyUnreadable, dev)
             | (Inr _, chunk, dev) \<Rightarrow>
                 if chunk \<noteq> take chunk_len (drop pos bs) then (Inl VerifyMismatch, dev)
                 else verify_chunks offset bs (pos + chunk_len) dev)
      else (Inr (), dev))"
  by pat_completeness auto
termination
  by (relation "measure (\<lambda>(offset, bs, pos, dev). length bs - pos)") auto

declare verify_chunks.simps [simp del]

definition write_eeprom_bytes_verified :: "u16 \<Rightarrow> u8 list \<Rightarrow> Eeprom \<Rightarrow> (MemoryCommitError + unit) \<times> Eeprom" where
  "write_eeprom_bytes_verified offset bs dev =
     (case probe_eeprom_address dev of
        (False, dev) \<Rightarrow> (Inl WriteAddressNoAck, dev)
      | (True, dev) \<Rightarrow>
          (case write_chunks offset bs 0 dev of
             (Inl e, dev) \<Rightarrow> (Inl e, dev)
           | (Inr _, dev) \<Rightarrow>
               (case read_eeprom_bytes_chunked offset (replicate (length bs) 0) dev of
                  (Inl _, _, dev) \<Rightarrow> (Inl VerifyUnreadable, dev)
                | (Inr _, verify, dev) \<Rightarrow> if verify \<noteq> bs then (Inl VerifyMismatch, dev) else (Inr (), dev))))"

section \<open>Records in their slots\<close>

text \<open>
  \<open>PartialEq\<close> of the stored data: everything compares by value, the two floating-point
  numbers of a calibration fit compare as IEEE numbers.
\<close>

definition fit_eq :: "AdcCalibrationSlotFit \<Rightarrow> AdcCalibrationSlotFit \<Rightarrow> bool" where
  "fit_eq x y \<longleftrightarrow> f32_eq (fit_gain x) (fit_gain y) \<and> f32_eq (fit_offset_mv x) (fit_offset_mv y)"

definition channel_eq :: "AdcCalibrationChannelConfig \<Rightarrow> AdcCalibrationChannelConfig \<Rightarrow> bool" where
  "channel_eq x y \<longleftrightarrow> ch_samples x = ch_samples y \<and> ch_active_slot x = ch_active_slot y
     \<and> fit_eq (slots_a (ch_slots x)) (slots_a (ch_slots y)) \<and> fit_eq (slots_b (ch_slots x)) (slots_b (ch_slots y))"

definition adc_eq :: "AdcCalibrationConfig \<Rightarrow> AdcCalibrationConfig \<Rightarrow> bool" where
  "adc_eq x y \<longleftrightarrow> channel_eq (cal_rtd x) (cal_rtd y) \<and> channel_eq (cal_vin x) (cal_vin y)"

definition safety_eq :: "SafetyCalibration \<Rightarrow> SafetyCalibration \<Rightarrow> bool" where
  "safety_eq x y \<longleftrightarrow> sf_commissioning_required x = sf_commissioning_required y
     \<and> adc_eq (sf_adc_calibration x) (sf_adc_calibration y) \<and> sf_active_heater_curve x = sf_active_heater_curve y
     \<and> sf_heater_curve_raw_observations x = sf_heater_curve_raw_observations y
     \<and> sf_heater_curve_transaction_id x = sf_heater_curve_transaction_id y"

definition PersistDomainData_eq :: "PersistDomainData \<Rightarrow> PersistDomainData \<Rightarrow> bool" where
  "PersistDomainData_eq x y =
     (case x of
        SafetyCalibrationData v \<Rightarrow> (case y of SafetyCalibrationData w \<Rightarrow> safety_eq v w | _ \<Rightarrow> False)
      | _ \<Rightarrow> x = y)"

definition read_eeprom_persist_record ::
  "u16 \<Rightarrow> nat \<Rightarrow> u8 list \<Rightarrow> Eeprom \<Rightarrow> (unit + PersistRecord option) \<times> u8 list \<times> Eeprom" where
  "read_eeprom_persist_record offset slot_bytes staging dev =
     (if slot_bytes < FPR2_HEADER_LEN \<or> length staging < FPR2_HEADER_LEN then (Inr None, staging, dev)
      else case read_eeprom_bytes_chunked offset (take FPR2_HEADER_LEN staging) dev of
        (Inl _, header, dev) \<Rightarrow> (Inl (), header @ drop FPR2_HEADER_LEN staging, dev)
      | (Inr _, header, dev) \<Rightarrow>
          let staging = header @ drop FPR2_HEADER_LEN staging in
          if take 4 staging \<noteq> FPR2_MAGIC then (Inr None, staging, dev)
          else let record_len = FPR2_HEADER_LEN + unat (u16_at staging 12) in
            if record_len > slot_bytes \<or> record_len > length staging then (Inr None, staging, dev)
            else (case read_eeprom_bytes_chunked (sat_add offset (of_nat FPR2_HEADER_LEN))
                        (drop FPR2_HEADER_LEN (take record_len staging)) dev of
              (r, body, dev) \<Rightarrow>
                let staging = take FPR2_HEADER_LEN staging @ body @ drop record_len staging in
                (case r of
                   Inl _ \<Rightarrow> (Inl (), staging, dev)
                 | Inr _ \<Rightarrow> (Inr (result_ok (decode_persist_record (take record_len staging))), staging, dev))))"

definition write_eeprom_persist_record ::
  "u32 \<Rightarrow> PersistDomainData \<Rightarrow> PersistSlot \<Rightarrow> Eeprom \<Rightarrow> (MemoryCommitError + unit) \<times> Eeprom" where
  "write_eeprom_persist_record sequence data slot dev =
     (case encode_persist_record sequence data (replicate FPR2_MAX_RECORD_SIZE 0xff) of
        Inl _ \<Rightarrow> (Inl EncodeFailed, dev)
      | Inr (staging, record_len) \<Rightarrow>
          let base_offset = slot_offset (PersistDomainData_domain data) slot; bs = take record_len staging in
          (case probe_eeprom_address dev of
            (False, dev) \<Rightarrow> (Inl WriteAddressNoAck, dev)
          | (True, dev) \<Rightarrow>
              (case write_chunks base_offset bs 0 dev of
                 (Inl e, dev) \<Rightarrow> (Inl e, dev)
               | (Inr _, dev) \<Rightarrow>
                   (case verify_chunks base_offset bs 0 dev of
                      (Inl e, dev) \<Rightarrow> (Inl e, dev)
                    | (Inr _, dev) \<Rightarrow>
                        (case decode_persist_record bs of
                           Inl _ \<Rightarrow> (Inl VerifyUnreadable, dev)
                         | Inr verified \<Rightarrow>
                             if rec_sequence verified \<noteq> sequence \<or> \<not> PersistDomainData_eq (rec_data verified) data
                             then (Inl VerifyMismatch, dev) else (Inr (), dev))))))"

end
