(* ===== verification/Eeprom_Laws.thy ===== *)
theory Eeprom_Laws
  imports Eeprom_Store
begin

text \<open>
  What the transfers of \<open>Eeprom_Store\<close> do to the memory: writing a record leaves a prefix of its bytes in its slot,
  the whole of it when the write reports success, and nothing else changes.
\<close>

section \<open>Memory\<close>

lemma length_overwrite [simp]: "at + length bs \<le> length mem \<Longrightarrow> length (overwrite mem at bs) = length mem"
  by (simp add: overwrite_def)

lemma overwrite_Nil [simp]: "overwrite mem at [] = mem"
  by (simp add: overwrite_def)

lemma overwrite_append:
  assumes "at + length xs + length ys \<le> length mem"
  shows "overwrite (overwrite mem at xs) (at + length xs) ys = overwrite mem at (xs @ ys)"
  using assms by (simp add: overwrite_def min_absorb2 ac_simps)

lemma nth_overwrite:
  "at + length bs \<le> length mem \<Longrightarrow> i < length mem \<Longrightarrow>
    overwrite mem at bs ! i = (if at \<le> i \<and> i < at + length bs then bs ! (i - at) else mem ! i)"
  by (auto simp: overwrite_def nth_append)

lemma overwrite_slice:
  assumes "start + k + length bs \<le> length mem" "k + length bs \<le> n" "start + n \<le> length mem"
  shows "take n (drop start (overwrite mem (start + k) bs)) = overwrite (take n (drop start mem)) k bs"
  using assms by (intro nth_equalityI) (auto simp: nth_overwrite)

lemma overwrite_elsewhere:
  assumes "at + length bs \<le> length mem" "start + n \<le> at \<or> at + length bs \<le> start"
  shows "take n (drop start (overwrite mem at bs)) = take n (drop start mem)"
  using assms by (intro nth_equalityI) (auto simp: nth_overwrite)

section \<open>Transfers\<close>

definition healthy :: "u8 list \<Rightarrow> Eeprom" where
  "healthy mem = \<lparr>ee_memory = mem, ee_bus = []\<rparr>"

lemma next_event_memory: "next_event dev = (e, dev') \<Longrightarrow> ee_memory dev' = ee_memory dev"
  by (auto simp: next_event_def split: list.splits)

lemma next_event_bus: "next_event dev = (e, dev') \<Longrightarrow> ee_bus dev = [] \<Longrightarrow> e = BusOk \<and> ee_bus dev' = []"
  by (auto simp: next_event_def)

lemma next_event_healthy [simp]: "next_event (healthy mem) = (BusOk, healthy mem)"
  by (simp add: next_event_def healthy_def)

lemma ee_memory_healthy [simp]: "ee_memory (healthy mem) = mem"
  by (simp add: healthy_def)

lemma read_bytes_memory: "read_bytes_async offset buf dev = (r, bs, dev') \<Longrightarrow> ee_memory dev' = ee_memory dev"
  by (auto simp: read_bytes_async_def Let_def dest: next_event_memory split: if_splits prod.splits BusEvent.splits)

lemma read_bytes_healthy:
  "unat offset + length buf \<le> 8192 \<Longrightarrow>
    read_bytes_async offset buf (healthy mem) = (Inr (), take (length buf) (drop (unat offset) mem), healthy mem)"
  by (simp add: read_bytes_async_def Let_def)

lemma probe_memory: "probe_eeprom_address dev = (b, dev') \<Longrightarrow> ee_memory dev' = ee_memory dev"
  by (auto simp: probe_eeprom_address_def dest: read_bytes_memory split: prod.splits)

lemma probe_healthy [simp]: "probe_eeprom_address (healthy mem) = (True, healthy mem)"
  by (simp add: probe_eeprom_address_def read_bytes_healthy)

lemma chunk_offset_inside:
  "unat offset + pos \<le> 8192 \<Longrightarrow> \<exists>at. chunk_offset offset pos = Some at \<and> unat at = unat offset + pos"
  by (simp add: chunk_offset_def Let_def unat_of_nat unat_word_ariths)

lemma read_chunks_memory: "read_chunks offset len buf pos dev = (r, bs, dev') \<Longrightarrow> ee_memory dev' = ee_memory dev"
proof (induction offset len buf pos dev arbitrary: r bs dev' rule: read_chunks.induct)
  case (1 offset len buf pos dev)
  show ?case
  proof (cases "pos < len")
    case True
    let ?n = "min (len - pos) EEPROM_READ_CHUNK_MAX_BYTES"
    show ?thesis
    proof (cases "chunk_offset offset pos")
      case (Some at)
      obtain q chunk d where rd: "read_bytes_async at (take ?n (drop pos buf)) dev = (q, chunk, d)"
        by (cases "read_bytes_async at (take ?n (drop pos buf)) dev")
      note step = "1.prems" [unfolded read_chunks.simps [of offset len buf pos dev] Let_def if_P [OF True] Some option.case rd prod.case]
      show ?thesis
        using step "1.IH" [OF True refl Some rd [symmetric] refl refl] read_bytes_memory [OF rd] by (cases q) simp_all
    qed (use True "1.prems" read_chunks.simps [of offset len buf pos dev] in simp)
  qed (use "1.prems" read_chunks.simps [of offset len buf pos dev] in simp)
qed

lemma read_chunks_healthy:
  assumes "length buf = len" "unat offset + len \<le> 8192" "length mem = 8192" "pos \<le> len"
  shows "read_chunks offset len buf pos (healthy mem) =
    (Inr (), take pos buf @ take (len - pos) (drop (unat offset + pos) mem), healthy mem)"
  using assms
proof (induction "len - pos" arbitrary: buf pos rule: less_induct)
  case less
  show ?case
  proof (cases "pos < len")
    case True
    let ?n = "min (len - pos) 16"
    obtain at where at: "chunk_offset offset pos = Some at" "unat at = unat offset + pos"
      using chunk_offset_inside [of offset pos] less.prems by auto
    let ?buf = "take pos buf @ take ?n (drop (unat offset + pos) mem) @ drop (pos + ?n) buf"
    have "read_chunks offset len buf pos (healthy mem) = read_chunks offset len ?buf (pos + ?n) (healthy mem)"
      using True at less.prems by (subst read_chunks.simps) (simp add: Let_def read_bytes_healthy)
    also have "\<dots> = (Inr (), take (pos + ?n) ?buf @ take (len - (pos + ?n)) (drop (unat offset + (pos + ?n)) mem), healthy mem)"
      using True less.prems by (intro less.hyps) auto
    also have "take (pos + ?n) ?buf @ take (len - (pos + ?n)) (drop (unat offset + (pos + ?n)) mem)
        = take pos buf @ take (len - pos) (drop (unat offset + pos) mem)"
    proof -
      have "take (pos + ?n) ?buf = take pos buf @ take ?n (drop (unat offset + pos) mem)"
        using less.prems True by simp
      moreover have "take (len - pos) xs = take ?n xs @ take (len - (pos + ?n)) (drop ?n xs)" for xs :: "u8 list"
      proof -
        have "?n + (len - (pos + ?n)) = len - pos" using True by linarith
        then show ?thesis by (metis take_add)
      qed
      ultimately show ?thesis by (simp add: ac_simps)
    qed
    finally show ?thesis .
  next
    case False
    then show ?thesis using less.prems by (subst read_chunks.simps) simp
  qed
qed

lemma read_chunked_memory: "read_eeprom_bytes_chunked offset buf dev = (r, bs, dev') \<Longrightarrow> ee_memory dev' = ee_memory dev"
  unfolding read_eeprom_bytes_chunked_def by (rule read_chunks_memory)

lemma read_chunked_healthy:
  assumes "unat offset + length buf \<le> 8192" "length mem = 8192"
  shows "read_eeprom_bytes_chunked offset buf (healthy mem) = (Inr (), take (length buf) (drop (unat offset) mem), healthy mem)"
  unfolding read_eeprom_bytes_chunked_def using assms by (subst read_chunks_healthy) simp_all

section \<open>Writing a record\<close>

lemma write_page_inside:
  assumes "length bs \<le> 16" "unat offset + length bs \<le> 8192" "unat offset mod 32 + length bs \<le> 32"
    and "length (ee_memory dev) = 8192"
  shows "\<exists>r dev' k. write_page_async offset bs dev = (r, dev') \<and> k \<le> length bs
    \<and> ee_memory dev' = overwrite (ee_memory dev) (unat offset) (take k bs) \<and> (r = Inr () \<longrightarrow> k = length bs)
    \<and> (r = Inr () \<or> (\<exists>kind. r = Inl (I2cFailure kind))) \<and> (ee_bus dev = [] \<longrightarrow> r = Inr () \<and> ee_bus dev' = [])"
proof -
  obtain e d where e: "next_event dev = (e, d)" by (cases "next_event dev")
  show ?thesis
  proof (cases e)
    case BusOk
    then show ?thesis
      using assms e next_event_bus [OF e] next_event_memory [OF e]
      by (intro exI [of _ "Inr ()"] exI [of _ "d\<lparr>ee_memory := overwrite (ee_memory d) (unat offset) bs\<rparr>"] exI [of _ "length bs"])
        (simp add: write_page_async_def)
  next
    case (BusFault kind k)
    then show ?thesis
      using assms e next_event_bus [OF e] next_event_memory [OF e]
      by (intro exI [of _ "Inl (I2cFailure kind)"] exI [of _ "d\<lparr>ee_memory := overwrite (ee_memory d) (unat offset) (take k bs)\<rparr>"]
          exI [of _ "min k (length bs)"]) (auto simp: write_page_async_def min_def)
  qed
qed

lemma write_chunk_fits:
  "memory_record_write_chunk_len at n \<le> 16" "memory_record_write_chunk_len at n \<le> n"
  "at mod 32 + memory_record_write_chunk_len at n \<le> 32"
proof -
  have "at mod 32 < 32" by simp
  then show "memory_record_write_chunk_len at n \<le> 16" "memory_record_write_chunk_len at n \<le> n"
    "at mod 32 + memory_record_write_chunk_len at n \<le> 32"
    unfolding memory_record_write_chunk_len_def eeprom_maintenance_write_chunk_len_def Let_def by simp_all
qed

text \<open>
  The write loop leaves a prefix of the bytes in the memory, and nothing else changes. It fails only
  because of the bus: no chunk crosses a page or leaves the device.
\<close>

lemma write_chunks_effect:
  assumes "unat offset + length bs \<le> 8192" "written \<le> length bs" "length (ee_memory dev) = 8192"
  shows "\<exists>r dev' j. write_chunks offset bs written dev = (r, dev') \<and> written \<le> j \<and> j \<le> length bs
    \<and> ee_memory dev' = overwrite (ee_memory dev) (unat offset + written) (take (j - written) (drop written bs))
    \<and> (r = Inr () \<longrightarrow> j = length bs) \<and> r \<noteq> Inl WriteFailed
    \<and> (ee_bus dev = [] \<longrightarrow> r = Inr () \<and> ee_bus dev' = [])"
  using assms
proof (induction "length bs - written" arbitrary: written dev rule: less_induct)
  case less
  show ?case
  proof (cases "written < length bs")
    case True
    let ?at = "unat offset + written" and ?n = "memory_record_write_chunk_len (unat offset + written) (length bs - written)"
    let ?c = "take ?n (drop written bs)"
    have n: "0 < ?n" "?n \<le> length bs - written" "length ?c = ?n"
      using True write_chunk_pos [of "length bs - written" ?at] write_chunk_fits(2) [of ?at "length bs - written"] by auto
    have at: "unat (of_nat ?at :: u16) = ?at" 
      using less.prems unat_of_nat [of ?at, where 'a = 16] by (simp del: of_nat_add)
    obtain r d k where w: "write_page_async (of_nat ?at) ?c dev = (r, d)" "k \<le> ?n"
      "ee_memory d = overwrite (ee_memory dev) ?at (take k ?c)" "r = Inr () \<longrightarrow> k = ?n" "r = Inr () \<or> (\<exists>kind. r = Inl (I2cFailure kind))"
      "ee_bus dev = [] \<longrightarrow> r = Inr () \<and> ee_bus d = []"
    proof -
      have "length ?c \<le> 16" "unat (of_nat ?at :: u16) + length ?c \<le> 8192" "unat (of_nat ?at :: u16) mod 32 + length ?c \<le> 32"
        unfolding at n(3) using n less.prems write_chunk_fits [of ?at "length bs - written"] by simp_all
      from write_page_inside [OF this less.prems(3), unfolded at n(3)] show thesis using that by blast
    qed
    note step = write_chunks.simps [of offset bs written dev]
    show ?thesis
    proof (cases "r = Inr ()")
      case ok: True
      have d: "length (ee_memory d) = 8192" using w(3) n less.prems by simp
      obtain r' d' j where ih: "write_chunks offset bs (written + ?n) d = (r', d')" "written + ?n \<le> j" "j \<le> length bs"
        "ee_memory d' = overwrite (ee_memory d) (unat offset + (written + ?n)) (take (j - (written + ?n)) (drop (written + ?n) bs))"
        "r' = Inr () \<longrightarrow> j = length bs" "r' \<noteq> Inl WriteFailed" "ee_bus d = [] \<longrightarrow> r' = Inr () \<and> ee_bus d' = []"
      proof -
        have "length bs - (written + ?n) < length bs - written" "written + ?n \<le> length bs" using n True by linarith+
        from less.hyps [OF this(1) less.prems(1) this(2) d] show thesis using that by blast
      qed
      have "ee_memory d' = overwrite (overwrite (ee_memory dev) ?at ?c) (?at + length ?c)
          (take (j - (written + ?n)) (drop (written + ?n) bs))"
        using ih(4) w(3,4) ok n by (simp add: add.assoc)
      also have "\<dots> = overwrite (ee_memory dev) ?at (?c @ take (j - (written + ?n)) (drop (written + ?n) bs))"
        using n ih(3) less.prems by (intro overwrite_append) simp
      also have "?c @ take (j - (written + ?n)) (drop (written + ?n) bs) = take (j - written) (drop written bs)"
      proof -
        have "j - written = ?n + (j - (written + ?n))" using ih(2) by simp
        then show ?thesis by (simp add: take_add add.commute)
      qed
      finally show ?thesis
        using step True w(1,6) ok ih less.prems by (intro exI [of _ r'] exI [of _ d'] exI [of _ j]) (simp add: Let_def)
    next
      case False
      then obtain kind where "r = Inl (I2cFailure kind)" using w(5) by auto
      then show ?thesis
        using step True w(1-3,6) n less.prems
        by (intro exI [of _ "Inl (memory_commit_error_from_eeprom (I2cFailure kind))"] exI [of _ d] exI [of _ "written + k"])
          (cases kind; simp add: Let_def min_def)
    qed
  next
    case False
    then show ?thesis using less.prems write_chunks.simps [of offset bs written dev] by simp
  qed
qed

text \<open>The read-back changes nothing and succeeds on a working bus when the bytes are there.\<close>

lemma verify_chunks_memory: "verify_chunks offset bs pos dev = (r, dev') \<Longrightarrow> ee_memory dev' = ee_memory dev"
proof (induction offset bs pos dev arbitrary: r dev' rule: verify_chunks.induct)
  case (1 offset bs pos dev)
  note simps = verify_chunks.simps [of offset bs pos dev]
  show ?case
  proof (cases "pos < length bs")
    case True
    let ?n = "min (length bs - pos) EEPROM_WRITE_CHUNK_MAX_BYTES"
    show ?thesis
    proof (cases "chunk_offset offset pos")
      case (Some at)
      obtain q chunk d where rd: "read_bytes_async at (replicate ?n 0) dev = (q, chunk, d)"
        by (cases "read_bytes_async at (replicate ?n 0) dev")
      note step = "1.prems" [unfolded simps Let_def if_P [OF True] Some option.case rd prod.case]
      show ?thesis
      proof (cases q)
        case (Inr u)
        show ?thesis
        proof (cases "chunk = take ?n (drop pos bs)")
          case same: True
          then show ?thesis
            using step Inr "1.IH" [OF True refl Some rd [symmetric] Inr refl] read_bytes_memory [OF rd] by simp
        qed (use step Inr read_bytes_memory [OF rd] in simp)
      qed (use step read_bytes_memory [OF rd] in simp)
    qed (use True "1.prems" simps in simp)
  qed (use "1.prems" simps in simp)
qed

lemma verify_chunks_healthy:
  assumes "unat offset + length bs \<le> 8192" "length mem = 8192" "take (length bs) (drop (unat offset) mem) = bs" "pos \<le> length bs"
  shows "verify_chunks offset bs pos (healthy mem) = (Inr (), healthy mem)"
  using assms
proof (induction "length bs - pos" arbitrary: pos rule: less_induct)
  case less
  note simps = verify_chunks.simps [of offset bs pos "healthy mem"]
  show ?case
  proof (cases "pos < length bs")
    case True
    let ?n = "min (length bs - pos) 16"
    obtain at where at: "chunk_offset offset pos = Some at" "unat at = unat offset + pos"
      using chunk_offset_inside [of offset pos] less.prems by auto
    have "take ?n (drop pos bs) = take ?n (drop pos (take (length bs) (drop (unat offset) mem)))" using less.prems(3) by simp
    also have "\<dots> = take ?n (drop (unat at) mem)" using True by (simp add: drop_take at add.commute)
    finally have same: "take ?n (drop (unat at) mem) = take ?n (drop pos bs)" by simp
    have "verify_chunks offset bs (pos + ?n) (healthy mem) = (Inr (), healthy mem)"
      using True less.prems by (intro less.hyps) auto
    moreover have "read_bytes_async at (replicate ?n 0) (healthy mem) = (Inr (), take ?n (drop (unat at) mem), healthy mem)"
      using read_bytes_healthy [of at "replicate ?n 0" mem] at True less.prems by simp
    ultimately show ?thesis using True simps at(1) same by (simp add: Let_def)
  qed (use simps in simp)
qed

section \<open>Slots\<close>

definition slot_contents :: "u8 list \<Rightarrow> PersistDomain \<Rightarrow> PersistSlot \<Rightarrow> u8 list" where
  "slot_contents mem domain slot = take (slot_size domain) (drop (unat (slot_offset domain slot)) mem)"

text \<open>The record a slot holds, as the firmware reads it.\<close>

definition stored :: "u8 list \<Rightarrow> PersistDomain \<Rightarrow> PersistSlot \<Rightarrow> PersistRecord option" where
  "stored mem domain slot = result_ok (decode_persist_record (slot_contents mem domain slot))"

lemma slot_inside: "(d, s) \<in> set used_slots \<Longrightarrow> unat (slot_offset d s) + slot_size d \<le> 4096"
  by (auto simp: used_slots_def)

lemma length_slot_contents: "(d, s) \<in> set used_slots \<Longrightarrow> length mem = 8192 \<Longrightarrow> length (slot_contents mem d s) = slot_size d"
  using slot_inside [of d s] by (simp add: slot_contents_def)

lemma slot_contents_overwrite:
  assumes "(d, s) \<in> set used_slots" "length mem = 8192" "length bs \<le> slot_size d"
  shows "slot_contents (overwrite mem (unat (slot_offset d s)) bs) d s = bs @ drop (length bs) (slot_contents mem d s)"
  using assms slot_inside [OF assms(1)] overwrite_slice [of "unat (slot_offset d s)" 0 bs mem "slot_size d"]
  by (simp add: slot_contents_def overwrite_def)

lemma slot_contents_other:
  assumes "(d, s) \<in> set used_slots" "(d', s') \<in> set used_slots" "(d', s') \<noteq> (d, s)" "length mem = 8192" "length bs \<le> slot_size d"
  shows "slot_contents (overwrite mem (unat (slot_offset d s)) bs) d' s' = slot_contents mem d' s'"
proof -
  have "slot_range (d, s) \<inter> slot_range (d', s') = {}" using slots_disjoint assms(1-3) by blast
  moreover have "0 < slot_size d" "0 < slot_size d'" using slot_size_bounds(2) [of d] slot_size_bounds(2) [of d'] by simp_all
  moreover have "a + m \<le> b \<or> b + n \<le> a" if "{a..<a + m} \<inter> {b..<b + n} = {}" "0 < m" "0 < n" for a b m n :: nat
  proof (rule ccontr)
    assume "\<not> (a + m \<le> b \<or> b + n \<le> a)"
    then have "max a b \<in> {a..<a + m} \<inter> {b..<b + n}" using that(2,3) by auto
    then show False using that(1) by blast
  qed
  ultimately have "unat (slot_offset d s) + slot_size d \<le> unat (slot_offset d' s')
      \<or> unat (slot_offset d' s') + slot_size d' \<le> unat (slot_offset d s)"
    unfolding slot_range_def by simp
  then show ?thesis
    unfolding slot_contents_def using assms(4,5) slot_inside [OF assms(1)] by (intro overwrite_elsewhere) auto
qed

lemma decode_take:
  assumes "n = 20 + unat (u16_at bs 12)" "n \<le> length bs"
  shows "decode_persist_record (take n bs) = decode_persist_record bs"
proof -
  have "u16_at (take n bs) 12 = u16_at bs 12" "u32_at (take n bs) 8 = u32_at bs 8" "u32_at (take n bs) 16 = u32_at bs 16"
    using assms by (simp_all add: u16_at_def u32_at_def)
  then show ?thesis using assms 
    by (simp add: decode_persist_record_def Let_def drop_take min_absorb1 min_absorb2 split: option.split sum.split)
qed

lemma result_ok_None: "result_ok x = None \<longleftrightarrow> (\<forall>r. x \<noteq> Inr r)"
  by (cases x) auto

lemma result_ok_Some [simp]: "result_ok x = Some r \<longleftrightarrow> x = Inr r"
  by (cases x) auto

text \<open>On a working bus the firmware reads the record a slot holds.\<close>

lemma read_slot_healthy:
  assumes "(d, s) \<in> set used_slots" "length mem = 8192"
  shows "\<exists>staging. read_eeprom_persist_record (slot_offset d s) (slot_size d) (replicate 768 0xff) (healthy mem)
      = (Inr (stored mem d s), staging, healthy mem) \<and> take 20 staging = take 20 (slot_contents mem d s)"
proof -
  let ?o = "slot_offset d s" and ?c = "slot_contents mem d s" and ?ff = "replicate 748 (0xff :: u8)"
  let ?h = "take 20 ?c" and ?n = "20 + unat (u16_at (slot_contents mem d s) 12)"
  have o: "unat ?o + slot_size d \<le> 4096" "20 < slot_size d" "slot_size d \<le> 768"
    using slot_inside [OF assms(1)] slot_size_bounds by simp_all
  have c: "length ?c = slot_size d" by (rule length_slot_contents [OF assms])
  have h: "take 20 (drop (unat ?o) mem) = ?h" using o by (simp add: slot_contents_def min_absorb1)
  have rep: "replicate 768 (0xff :: u8) = replicate 20 0xff @ ?ff" by (simp flip: replicate_add)
  have header: "read_eeprom_bytes_chunked ?o (take 20 (replicate 768 0xff)) (healthy mem) = (Inr (), ?h, healthy mem)"
    using o assms(2) h by (subst read_chunked_healthy) simp_all
  have at12: "u16_at (?h @ ?ff) 12 = u16_at ?c 12" using c o by (simp add: u16_at_def nth_append)
  note def = read_eeprom_persist_record_def [of ?o "slot_size d" "replicate 768 0xff" "healthy mem", unfolded FPR2_HEADER_LEN_def header]
  have view: "read_eeprom_persist_record ?o (slot_size d) (replicate 768 0xff) (healthy mem) =
      (if take 4 ?c \<noteq> FPR2_MAGIC then (Inr None, ?h @ ?ff, healthy mem)
       else if ?n > slot_size d then (Inr None, ?h @ ?ff, healthy mem)
       else case read_eeprom_bytes_chunked (sat_add ?o 20) (replicate (?n - 20) 0xff) (healthy mem) of
         (r, body, dev) \<Rightarrow> (case r of Inl _ \<Rightarrow> (Inl (), ?h @ body @ drop ?n (?h @ ?ff), dev)
           | Inr _ \<Rightarrow> (Inr (result_ok (decode_persist_record (take ?n (?h @ body @ drop ?n (?h @ ?ff))))),
               ?h @ body @ drop ?n (?h @ ?ff), dev)))"
    unfolding def using o c at12 by (auto simp: Let_def drop_take min_absorb1 split: prod.splits sum.splits)
  show ?thesis
  proof (cases "take 4 ?c = FPR2_MAGIC \<and> ?n \<le> slot_size d")
    case True
    let ?b = "take (?n - 20) (drop 20 ?c)"
    have at: "unat (sat_add ?o 20) = unat ?o + 20" using o by (simp add: unat_sat_add)
    have "take (?n - 20) (drop (unat ?o + 20) mem) = ?b"
    proof -
      have "?n - 20 \<le> slot_size d - 20" using True by (intro diff_le_mono) blast
      then show ?thesis unfolding slot_contents_def drop_take take_take drop_drop by (simp add: min_absorb1 add.commute)
    qed
    then have body: "read_eeprom_bytes_chunked (sat_add ?o 20) (replicate (?n - 20) 0xff) (healthy mem) = (Inr (), ?b, healthy mem)"
      using True o assms(2) at by (subst read_chunked_healthy) simp_all
    have whole: "?h @ ?b = take ?n ?c" using take_add [of 20 "?n - 20" ?c] by simp
    then have "take ?n (?h @ ?b @ drop ?n (?h @ ?ff)) = take ?n ?c" using True c by (simp add: append_assoc [symmetric] del: append_assoc)
    then have "result_ok (decode_persist_record (take ?n (?h @ ?b @ drop ?n (?h @ ?ff)))) = stored mem d s"
      using True c decode_take [of ?n ?c] by (simp add: stored_def)
    then show ?thesis using True view body c o by auto
  next
    case False
    then have "stored mem d s = None"
      using decode_OkD(1,4) [of ?c] c by (auto simp: stored_def result_ok_None)
    then show ?thesis using False view c o by auto
  qed
qed

section \<open>Writing a slot\<close>

definition comparable :: "PersistDomainData \<Rightarrow> bool" where
  "comparable data = PersistDomainData_eq data data"

lemma write_record_effect:
  fixes n :: u32
  assumes "encodes data fs" "(PersistDomainData_domain data, slot) \<in> set used_slots" "length (ee_memory dev) = 8192"
  defines "w \<equiv> record_bytes n (PersistDomainData_domain data) (fields_bytes fs)"
  shows "\<exists>r dev' j. write_eeprom_persist_record n data slot dev = (r, dev') \<and> j \<le> length w
    \<and> ee_memory dev' = overwrite (ee_memory dev) (unat (slot_offset (PersistDomainData_domain data) slot)) (take j w)
    \<and> (r = Inr () \<longrightarrow> j = length w) \<and> (ee_bus dev = [] \<and> comparable data \<longrightarrow> r = Inr () \<and> ee_bus dev' = [])"
proof -
  let ?d = "PersistDomainData_domain data"
  let ?o = "slot_offset ?d slot"
  have enc: "encode_persist_record n data (replicate FPR2_MAX_RECORD_SIZE 0xff) = Inr (w @ replicate (768 - length w) 0xff, length w)"
    using encode_record_encodes [OF assms(1), of "replicate 768 0xff" n] by (simp add: w_def)
  have fits: "unat ?o + length w \<le> 8192" "length w \<le> slot_size ?d"
    using assms(1) slot_inside [OF assms(2)] by (auto simp: w_def encodes_def)
  have dec: "decode_persist_record w = Inr \<lparr>rec_sequence = n, rec_data = data\<rparr>"
    using decode_record_encodes [OF assms(1), of n "[]"] by (simp add: w_def)
  obtain b d where p: "probe_eeprom_address dev = (b, d)" by (cases "probe_eeprom_address dev")
  have d: "ee_memory d = ee_memory dev" by (rule probe_memory [OF p])
  have hp: "b \<and> ee_bus d = []" if "ee_bus dev = []"
  proof -
    have "dev = healthy (ee_memory dev)" using that by (simp add: healthy_def)
    then have "probe_eeprom_address dev = (True, dev)" by (metis probe_healthy)
    then show ?thesis using p that by simp
  qed
  note simps = write_eeprom_persist_record_def [of n data slot dev, unfolded enc]
  obtain r d' j where wr: "write_chunks ?o w 0 d = (r, d')" "j \<le> length w" "ee_memory d' = overwrite (ee_memory dev) (unat ?o) (take j w)"
    "r = Inr () \<longrightarrow> j = length w" "ee_bus d = [] \<longrightarrow> r = Inr () \<and> ee_bus d' = []"
    using write_chunks_effect [of ?o w 0 d] fits assms(3) d by auto
  obtain v d'' where ver: "verify_chunks ?o w 0 d' = (v, d'')" by (cases "verify_chunks ?o w 0 d'")
  have d'': "ee_memory d'' = ee_memory d'" by (rule verify_chunks_memory [OF ver])
  have hv: "v = Inr () \<and> ee_bus d'' = []" if "ee_bus d' = []" "r = Inr ()"
  proof -
    have h: "d' = healthy (ee_memory d')" using that by (simp add: healthy_def)
    have "ee_memory d' = overwrite (ee_memory dev) (unat ?o) w" using wr that by simp
    then have "take (length w) (drop (unat ?o) (ee_memory d')) = w" "length (ee_memory d') = 8192"
      using fits assms(3) by (simp_all add: overwrite_def)
    then have "verify_chunks ?o w 0 (healthy (ee_memory d')) = (Inr (), healthy (ee_memory d'))"
      using fits by (intro verify_chunks_healthy) simp_all
    then show ?thesis using ver h by (metis Pair_inject that(1))
  qed
  consider "\<not> b" | "b" "r \<noteq> Inr ()" | "b" "r = Inr ()" by blast
  then show ?thesis
  proof cases
    case 1
    then show ?thesis using simps p d hp by (intro exI [of _ "Inl WriteAddressNoAck"] exI [of _ d] exI [of _ 0]) auto
  next
    case 2
    then obtain e where "r = Inl e" by (cases r) auto
    then show ?thesis using simps p wr hp 2 by (intro exI [of _ "Inl e"] exI [of _ d'] exI [of _ j]) auto
  next
    case 3
    show ?thesis
    proof (cases v)
      case (Inl e)
      then show ?thesis using simps p wr ver 3 d'' hv hp by (intro exI [of _ "Inl e"] exI [of _ d''] exI [of _ j]) auto
    next
      case (Inr u)
      then show ?thesis
        using simps p wr ver 3 d'' hv hp dec
        by (intro exI [of _ "if PersistDomainData_eq data data then Inr () else Inl VerifyMismatch"] exI [of _ d''] exI [of _ j])
          (auto simp: comparable_def)
    qed
  qed
qed

section \<open>Interrupted writes\<close>

text \<open>A slot the firmware may write: erased, or holding a record of its domain.\<close>

definition slot_clean :: "PersistDomain \<Rightarrow> u8 list \<Rightarrow> bool" where
  "slot_clean d c \<longleftrightarrow> c = replicate (length c) 0xff
     \<or> take 8 c = take 8 (record_header 0 d 0) \<and> result_ok (decode_persist_record c) \<noteq> None"

lemma take_8_record_bytes: "take 8 (record_bytes n d p) = take 8 (record_header 0 d 0)"
  by (simp add: record_bytes_def Let_def record_header_explicit)

lemma u32_at_8_record_bytes: "12 \<le> j \<Longrightarrow> u32_at (take j (record_bytes n d p) @ rest) 8 = n"
  by (simp add: record_bytes_def Let_def record_header_explicit u32_at_def nth_append del: from_le_bytes.simps)

lemma torn_contents:
  fixes n :: u32
  assumes "slot_clean d c" "length c = slot_size d" "j \<le> 20 + length p"
  defines "c' \<equiv> take j (record_bytes n d p) @ drop j c"
  shows "result_ok (decode_persist_record c') = result_ok (decode_persist_record c)
    \<or> result_ok (decode_persist_record c') = None
    \<or> (\<exists>r. result_ok (decode_persist_record c') = Some r \<and> rec_sequence r = n \<and> 12 \<le> j)"
proof (cases "12 \<le> j")
  case True
  then show ?thesis
    using decode_OkD(3) [of c'] u32_at_8_record_bytes [OF True, of n d p "drop j c"]
    by (cases "decode_persist_record c'") (auto simp: c'_def)
next
  case False
  let ?w = "record_bytes n d p"
  have len: "20 < length c" "length c \<le> 768" using assms(2) slot_size_bounds [of d] by simp_all
  show ?thesis
  proof (cases "c = replicate (length c) 0xff")
    case True
    have "c ! i = 0xff" if "i < length c" for i using True that by (metis nth_replicate)
    then have "c' ! 12 = 0xff" "c' ! 13 = 0xff" using False len by (simp_all add: c'_def nth_append)
    then have "u16_at c' 12 = 0xffff" by (simp add: u16_at_def)
    then show ?thesis using decode_OkD(1) [of c'] len False by (auto simp: result_ok_None c'_def)
  next
    case rec: False
    then have hd: "take 8 c = take 8 ?w" and ok: "result_ok (decode_persist_record c) \<noteq> None"
      using assms(1) take_8_record_bytes [of n d p] by (auto simp: slot_clean_def)
    then obtain r where r: "decode_persist_record c = Inr r" by auto
    show ?thesis
    proof (cases "j \<le> 8")
      case True
      have "take j (take 8 c) = take j (take 8 ?w)" using hd by simp
      then have "take j ?w = take j c" using True by simp
      then have "c' = c" by (simp add: c'_def)
      then show ?thesis by simp
    next
      case mid: False
      let ?pre = "take 8 c" and ?old = "take 4 (drop 8 c)" and ?post = "drop 12 c"
      let ?new = "take (j - 8) (drop 8 ?w) @ drop j (take 12 c)"
      have "?pre @ ?old = take 12 c" using take_add [of 8 4 c] by simp
      then have split: "c = ?pre @ ?old @ ?post" by (metis append_assoc append_take_drop_id)
      have "take j ?w = take 8 ?w @ take (j - 8) (drop 8 ?w)" using mid take_add [of 8 "j - 8" ?w] by simp
      moreover have "drop j c = drop j (take 12 c) @ drop 12 c"
        using False len drop_append [of j "take 12 c" "drop 12 c"] by simp
      ultimately have c': "c' = ?pre @ ?new @ ?post" using hd by (simp add: c'_def)
      have ln: "length ?new = length ?old" "length ?old \<le> 4" using False mid len by simp_all
      show ?thesis
      proof (cases "?new = ?old")
        case True
        then show ?thesis using c' split by metis
      next
        case diff: False
        have "decode_persist_record (?pre @ ?old @ ?post) = Inr r" using r split by metis
        then have "decode_persist_record (?pre @ ?new @ ?post) = Inl CrcMismatch"
          by (rule burst_rejected [OF _ ln diff]) (use len in simp)
        then show ?thesis unfolding c' by simp
      qed
    qed
  qed
qed

section \<open>Interrupted marker writes\<close>

definition marker_image :: "LayoutMarker \<Rightarrow> u8 list" where
  "marker_image m = record_bytes (lm_generation m) LayoutMarkerDomain (fields_bytes (marker_fields m))"

text \<open>The generation a marker slot announces as active, as \<open>scan_fpr2_layout_markers\<close> reads it.\<close>

definition active_in :: "u8 list \<Rightarrow> u32 option" where
  "active_in c =
     (case result_ok (decode_persist_record c) of
        Some r \<Rightarrow> (case rec_data r of
            LayoutMarkerData m \<Rightarrow> if lm_generation m = rec_sequence r \<and> lm_status m = MarkerActive then Some (rec_sequence r) else None
          | _ \<Rightarrow> None)
      | None \<Rightarrow> None)"

lemma decode_data:
  assumes "decode_persist_record bs = Inr r"
  shows "\<exists>d. PersistDomain_from_wire (bs ! 5) = Some d
    \<and> decode_persist_payload d (take (unat (u16_at bs 12)) (drop 20 bs)) = Inr (rec_data r)"
  using assms unfolding decode_persist_record_def
  by (auto simp: Let_def split: if_splits option.splits sum.splits)

lemma marker_payload:
  "decode_persist_payload LayoutMarkerDomain [1, 1, 0, st, 2, 4, 0, g0, g1, g2, g3, 3, 1, 0, k] =
    Inr (LayoutMarkerData \<lparr>lm_generation = from_le_bytes [g0, g1, g2, g3],
      lm_status = (if st = 2 then MarkerActive else MarkerPrepared),
      lm_kind = (if k = 2 then LegacyMigrationKind else CommitKind)\<rparr>)"
proof -
  let ?fs = "[(1 :: u8, [st]), (2, [g0, g1, g2, g3]), (3, [k])]"
  have bytes: "fields_bytes ?fs = [1, 1, 0, st, 2, 4, 0, g0, g1, g2, g3, 3, 1, 0, k]"
    by (simp add: tlv_bytes_def to_le_bytes_2)
  have "for_each_fpr2_tlv (apply_tlv LayoutMarkerDomain) (fields_bytes ?fs) 0 PersistDecodeState_new
      = Inr (fold (\<lambda>(t, v). apply_tlv LayoutMarkerDomain t v) ?fs PersistDecodeState_new)"
    using for_each_fields [of ?fs "apply_tlv LayoutMarkerDomain" "[]"] by simp
  then show ?thesis
    unfolding bytes decode_persist_payload_def
    by (simp add: apply_marker_def applied_simps u32_at_def del: from_le_bytes.simps)
qed

lemma marker_image_bytes:
  "length (marker_image m) = 35" "marker_image m ! 5 = 5"
  "marker_image m ! 20 = 1" "marker_image m ! 21 = 1" "marker_image m ! 22 = 0" "marker_image m ! 23 = status_byte (lm_status m)"
  "marker_image m ! 24 = 2" "marker_image m ! 25 = 4" "marker_image m ! 26 = 0"
  "from_le_bytes [marker_image m ! 27, marker_image m ! 28, marker_image m ! 29, marker_image m ! 30] = lm_generation m"
  "marker_image m ! 31 = 3" "marker_image m ! 32 = 1" "marker_image m ! 33 = 0" "marker_image m ! 34 = kind_byte (lm_kind m)"
  "marker_image m ! 12 = 15" "marker_image m ! 13 = 0"
  by (simp_all add: marker_image_def record_bytes_def Let_def record_header_explicit marker_fields_def tlv_bytes_def
      to_le_bytes_2 to_le_bytes_4 u16_at_def del: from_le_bytes.simps)

lemma tlv_step:
  assumes "q ! (pos + 1) = l" "q ! (pos + 2) = 0" "pos + 3 + unat l \<le> length q"
  shows "for_each_fpr2_tlv visit q pos st = for_each_fpr2_tlv visit q (pos + 3 + unat l) (visit (q ! pos) (take (unat l) (drop (pos + 3) q)) st)"
proof -
  have "unat (u16_at q (pos + 1)) = unat l"
    using assms unat_bound [of l] by (simp add: u16_at_def unat_ucast_up)
  moreover have "pos < length q" "\<not> length q - pos < 3" using assms(3) by linarith+
  ultimately show ?thesis using assms by (subst for_each_fpr2_tlv.simps) (simp add: Let_def)
qed

lemma tlv_erased_length:
  assumes "q ! (pos + 2) = 0xff" "pos < length q" "length q \<le> 255"
  shows "for_each_fpr2_tlv visit q pos st = Inl MalformedTlv"
proof -
  have "bit (u16_at q (pos + 1)) 15" using assms(1) by (simp add: u16_at_def bit_simps)
  have "32768 \<le> unat (u16_at q (pos + 1))"
  proof (rule ccontr)
    assume "\<not> 32768 \<le> unat (u16_at q (pos + 1))"
    then have "take_bit 15 (u16_at q (pos + 1)) = u16_at q (pos + 1)" by (intro take_bit_small) simp
    then have "bit (take_bit 15 (u16_at q (pos + 1))) 15" using \<open>bit (u16_at q (pos + 1)) 15\<close> by simp
    then show False by (simp only: bit_take_bit_iff) simp
  qed
  then show ?thesis using assms by (subst for_each_fpr2_tlv.simps) (simp add: Let_def)
qed

definition marker_clean :: "u8 list \<Rightarrow> bool" where
  "marker_clean c \<longleftrightarrow> length c = 128 \<and> (c = replicate 128 0xff \<or> (\<exists>m. take 35 c = marker_image m))"

lemma decode_marker_image:
  assumes "take 35 c = marker_image m"
  shows "decode_persist_record c = Inr \<lparr>rec_sequence = lm_generation m, rec_data = LayoutMarkerData m\<rparr>"
proof -
  have "c = marker_image m @ drop 35 c" using assms by (metis append_take_drop_id)
  then show ?thesis using decode_record_encodes [OF encodes_marker [of m]] by (metis PersistDomainData_domain.simps(5) marker_image_def)
qed

lemma marker_slot_clean: "marker_clean c \<Longrightarrow> slot_clean LayoutMarkerDomain c"
proof -
  assume c: "marker_clean c"
  show ?thesis
  proof (cases "c = replicate 128 0xff")
    case False
    then obtain m where m: "take 35 c = marker_image m" using c by (auto simp: marker_clean_def)
    have "take 8 (take 35 c) = take 8 (record_header 0 LayoutMarkerDomain 0)"
      unfolding m marker_image_def by (rule take_8_record_bytes)
    then show ?thesis using decode_marker_image [OF m] by (simp add: slot_clean_def)
  qed (simp add: slot_clean_def)
qed

lemma active_in_marker: "take 35 c = marker_image m \<Longrightarrow> active_in c = (if lm_status m = MarkerActive then Some (lm_generation m) else None)"
  by (simp add: active_in_def decode_marker_image)

text \<open>Active means that the payload says so.\<close>

lemma active_in_payload:
  assumes "active_in c = Some g" "c ! 5 = 5"
  shows "\<exists>m. decode_persist_payload LayoutMarkerDomain (take (unat (u16_at c 12)) (drop 20 c)) = Inr (LayoutMarkerData m)
    \<and> lm_generation m = g \<and> lm_status m = MarkerActive \<and> decode_persist_record c = Inr \<lparr>rec_sequence = g, rec_data = LayoutMarkerData m\<rparr>"
proof -
  obtain r where r: "decode_persist_record c = Inr r" using assms(1) by (cases "decode_persist_record c") (auto simp: active_in_def)
  have "decode_persist_payload LayoutMarkerDomain (take (unat (u16_at c 12)) (drop 20 c)) = Inr (rec_data r)"
    using decode_data [OF r] assms(2) by (simp add: PersistDomain_from_wire_def)
  then show ?thesis using assms(1) r by (cases r) (auto simp: active_in_def split: PersistDomainData.splits if_splits)
qed

lemma nth_torn:
  assumes "j \<le> length w" "length w \<le> length c" "i < length c"
  shows "(take j w @ drop j c) ! i = (if i < j then w ! i else c ! i)"
  using assms by (simp add: nth_append)

lemma slice_15:
  assumes "35 \<le> length c"
  shows "take 15 (drop 20 c) = [c ! 20, c ! 21, c ! 22, c ! 23, c ! 24, c ! 25, c ! 26, c ! 27, c ! 28, c ! 29, c ! 30,
    c ! 31, c ! 32, c ! 33, c ! 34]"
proof -
  have "take 15 (drop 20 c) = map (\<lambda>i. c ! (20 + i)) [0..<15]" using assms by (intro nth_equalityI) auto
  also have "[0..<15] = [0, 1, 2, 3, 4, 5, 6, 7, 8, 9, 10, 11, 12, 13, 14]" by (simp add: upt_rec)
  finally show ?thesis by simp
qed

lemma torn_over_marker:
  fixes m :: LayoutMarker
  assumes "take 35 c = marker_image m0" "length c = 128" "j \<le> 35"
  defines "c' \<equiv> take j (marker_image m) @ drop j c"
  assumes "active_in c' = Some g"
  shows "g = from_le_bytes [c' ! 27, c' ! 28, c' ! 29, c' ! 30] \<and> c' ! 23 = 2"
proof -
  have c: "c ! i = marker_image m0 ! i" if "i < 35" for i using assms(1) that by (metis nth_take)
  have n: "c' ! i = (if i < j then marker_image m ! i else marker_image m0 ! i)" if "i < 35" for i
    using nth_torn [of j "marker_image m" c i] c [OF that] that assms(2,3) by (simp add: c'_def marker_image_bytes)
  have len: "length c' = 128" using assms(2,3) by (simp add: c'_def marker_image_bytes)
  have "unat (u16_at c' 12) = 15" by (simp add: u16_at_def n marker_image_bytes)
  moreover have "take 15 (drop 20 c') = [1, 1, 0, c' ! 23, 2, 4, 0, c' ! 27, c' ! 28, c' ! 29, c' ! 30, 3, 1, 0, c' ! 34]"
    using slice_15 [of c'] len by (simp add: n [of 20] n [of 21] n [of 22] n [of 24] n [of 25] n [of 26] n [of 31] n [of 32] n [of 33] marker_image_bytes)
  moreover have "c' ! 5 = 5" by (simp add: n marker_image_bytes)
  ultimately show ?thesis
    using active_in_payload [OF assms(5)] by (auto simp: marker_payload simp del: from_le_bytes.simps split: if_splits)
qed

lemma torn_active:
  assumes "take 35 c = marker_image (m\<lparr>lm_status := MarkerPrepared\<rparr>)" "length c = 128" "lm_status m = MarkerActive" "j \<le> 35"
  defines "c' \<equiv> take j (marker_image m) @ drop j c"
  shows "active_in c' = None \<or> active_in c' = Some (lm_generation m) \<and> take 35 c' = marker_image m"
proof (cases "23 < j")
  case True
  let ?m0 = "m\<lparr>lm_status := MarkerPrepared\<rparr>"
  have "drop 24 (marker_image ?m0) = drop 24 (marker_image m)"
    by (simp add: marker_image_def record_bytes_def Let_def marker_fields_def tlv_bytes_def)
  then have "drop (j - 24) (drop 24 (marker_image ?m0)) = drop (j - 24) (drop 24 (marker_image m))" by simp
  then have "drop j (marker_image ?m0) = drop j (marker_image m)" using True by simp
  moreover have "take 35 c' = take j (marker_image m) @ drop j (take 35 c)"
    using assms(2,4) by (simp add: c'_def marker_image_bytes drop_take min_absorb1)
  ultimately have "take 35 c' = marker_image m" using assms(1) by simp
  then show ?thesis using active_in_marker assms(3) by simp
next
  case False
  then have "c' ! 23 = 1"
    using assms(1,2,4) nth_torn [of j "marker_image m" c 23] nth_take [of 23 35 c] by (simp add: c'_def marker_image_bytes)
  then show ?thesis using torn_over_marker [OF assms(1,2,4), of m] by (cases "active_in c'") (auto simp: c'_def)
qed

lemma torn_over_erased:
  assumes "j \<le> 35" "lm_status m = MarkerPrepared"
  defines "c' \<equiv> take j (marker_image m) @ replicate (128 - j) 0xff"
  shows "active_in c' = None"
proof (rule ccontr)
  assume "active_in c' \<noteq> None"
  then obtain g where g: "active_in c' = Some g" by auto
  have n: "c' ! i = (if i < j then marker_image m ! i else 0xff)" if "i < 128" for i
    using that assms(1) by (auto simp: c'_def nth_append marker_image_bytes)
  let ?q = "take 15 (drop 20 c')" and ?v = "apply_tlv LayoutMarkerDomain"
  have len: "length c' = 128" "length ?q = 15" using assms(1) by (auto simp: c'_def marker_image_bytes)
  have q: "?q ! i = c' ! (20 + i)" if "i < 15" for i using that len by simp
  obtain r where r: "decode_persist_record c' = Inr r" using g by (cases "decode_persist_record c'") (auto simp: active_in_def)
  have j14: "14 \<le> j"
  proof (rule ccontr)
    assume "\<not> 14 \<le> j"
    then have "bit (u16_at c' 12) 15" using n [of 13] by (simp add: u16_at_def bit_simps)
    then have "\<not> unat (u16_at c' 12) < 2 ^ 15"
      using take_bit_small [of "u16_at c' 12" 15] bit_take_bit_iff [of 15 "u16_at c' 12" 15] by auto
    then show False using decode_OkD(1) [OF r] len by simp
  qed
  have "unat (u16_at c' 12) = 15" using j14 by (simp add: u16_at_def n marker_image_bytes)
  then obtain m' where m': "decode_persist_payload LayoutMarkerDomain ?q = Inr (LayoutMarkerData m')" "lm_status m' = MarkerActive"
    using active_in_payload [OF g] n [of 5] j14 by (auto simp: marker_image_bytes)
  have walk: "for_each_fpr2_tlv ?v ?q 0 PersistDecodeState_new \<noteq> Inl e" for e
    using m'(1) by (auto simp: decode_persist_payload_def)
  have stop: "for_each_fpr2_tlv ?v ?q pos s = Inl MalformedTlv" if "pos < 13" "j \<le> pos + 22" for pos s
    by (rule tlv_erased_length) (use that q [of "pos + 2"] n [of "20 + (pos + 2)"] len in \<open>simp_all\<close>)
  have j23: "23 \<le> j" using walk stop [of 0] by (cases "23 \<le> j") auto
  have first: "for_each_fpr2_tlv ?v ?q 0 s = for_each_fpr2_tlv ?v ?q 4 (?v (?q ! 0) (take 1 (drop 3 ?q)) s)" for s
    using tlv_step [of ?q 0 1 ?v s] j23 n q [of 1] q [of 2] len by (simp add: marker_image_bytes)
  have j27: "27 \<le> j" using walk first stop [of 4] by (cases "27 \<le> j") auto
  have second: "for_each_fpr2_tlv ?v ?q 4 s = for_each_fpr2_tlv ?v ?q 11 (?v (?q ! 4) (take 4 (drop 7 ?q)) s)" for s
    using tlv_step [of ?q 4 4 ?v s] j27 n q [of 5] q [of 6] len by (simp add: marker_image_bytes)
  have "34 \<le> j" using walk first second stop [of 11] by (cases "34 \<le> j") auto
  then have "?q = [1, 1, 0, 1, 2, 4, 0, c' ! 27, c' ! 28, c' ! 29, c' ! 30, 3, 1, 0, c' ! 34]"
    using slice_15 [of c'] len assms(2) by (simp add: n [of 20] n [of 21] n [of 22] n [of 23] n [of 24] n [of 25] n [of 26] n [of 31] n [of 32] n [of 33] marker_image_bytes)
  then show False using m' by (auto simp: marker_payload simp del: from_le_bytes.simps)
qed

lemma torn_prepared:
  assumes "marker_clean c" "\<And>m0. take 35 c = marker_image m0 \<Longrightarrow> lm_generation m0 \<noteq> lm_generation m"
    and "lm_status m = MarkerPrepared" "j \<le> 35"
  defines "c' \<equiv> take j (marker_image m) @ drop j c"
  shows "active_in c' = active_in c \<or> active_in c' = None"
proof (rule ccontr)
  assume *: "\<not> (active_in c' = active_in c \<or> active_in c' = None)"
  then obtain g where g: "active_in c' = Some g" by auto
  have len: "length c = 128" "length c' = 128" using assms(1,4) by (auto simp: marker_clean_def c'_def marker_image_bytes)
  have seq: "g = lm_generation m \<and> 12 \<le> j"
  proof -
    have "result_ok (decode_persist_record c') = result_ok (decode_persist_record c)
        \<or> result_ok (decode_persist_record c') = None
        \<or> (\<exists>r. result_ok (decode_persist_record c') = Some r \<and> rec_sequence r = lm_generation m \<and> 12 \<le> j)"
      unfolding c'_def marker_image_def
      by (rule torn_contents [OF marker_slot_clean [OF assms(1)]]) (use len assms(4) in \<open>simp_all add: marker_fields_def\<close>)
    then show ?thesis using * g by (auto simp: active_in_def split: PersistDomainData.splits if_splits option.splits)
  qed
  have n: "c' ! i = (if i < j then marker_image m ! i else c ! i)" if "i < 128" for i
    using nth_torn [of j "marker_image m" c i] that len assms(4) by (simp add: c'_def marker_image_bytes)
  show False
  proof (cases "c = replicate 128 0xff")
    case False
    then obtain m0 where m0: "take 35 c = marker_image m0" using assms(1) by (auto simp: marker_clean_def)
    have t: "g = from_le_bytes [c' ! 27, c' ! 28, c' ! 29, c' ! 30]" "c' ! 23 = 2"
      using torn_over_marker [OF m0 len(1) assms(4)] g by (auto simp: c'_def simp del: from_le_bytes.simps)
    have "\<not> 23 < j" using t(2) n [of 23] assms(3) by (auto simp: marker_image_bytes)
    then have "c' ! i = marker_image m0 ! i" if "23 < i" "i < 35" for i
      using n [of i] that m0 nth_take [of i 35 c] by simp
    then have "g = lm_generation m0" using t(1) by (simp add: marker_image_bytes del: from_le_bytes.simps)
    then show False using assms(2) [OF m0] seq by simp
  next
    case True
    have "active_in c' = None"
      unfolding c'_def by (subst True) (use torn_over_erased [OF assms(4,3)] assms(4) in simp)
    then show False using g by simp
  qed
qed

end
