(* ===== verification/Eeprom_Commit.thy ===== *)
theory Eeprom_Commit
  imports Eeprom_Laws
begin

text \<open>
  Committing and restoring the configuration, from \<open>src/firmware/src/bin/flux_purr/eeprom.rs\<close>: which domains a change touches,
  the commit of a set of domains between a \<open>PREPARED\<close> and an \<open>ACTIVE\<close> layout marker, the migration of a legacy
  record, the recovery of a prepared layout, the scan of the markers and slots at boot, and the maintenance
  commands of the serial port.

  Every function takes the device and returns it. Log lines are not modelled; the scratch and staging
  buffers are refilled before each use and are local here.
\<close>

section \<open>Domain masks\<close>

type_synonym PersistDomainMask = u8

definition MASK_SAFETY :: PersistDomainMask where [simp]: "MASK_SAFETY = 1"
definition MASK_THERMAL :: PersistDomainMask where [simp]: "MASK_THERMAL = 2"
definition MASK_PREFERENCES :: PersistDomainMask where [simp]: "MASK_PREFERENCES = 4"
definition MASK_NETWORK :: PersistDomainMask where [simp]: "MASK_NETWORK = 8"
definition MASK_THERMAL_PLANT :: PersistDomainMask where [simp]: "MASK_THERMAL_PLANT = 16"
definition MASK_ALL :: PersistDomainMask where
  [simp]: "MASK_ALL = MASK_SAFETY OR MASK_THERMAL OR MASK_PREFERENCES OR MASK_NETWORK OR MASK_THERMAL_PLANT"

fun mask_includes :: "PersistDomainMask \<Rightarrow> PersistDomain \<Rightarrow> bool" where
  "mask_includes m SafetyCalibrationDomain = (m AND MASK_SAFETY \<noteq> 0)"
| "mask_includes m ThermalPolicyDomain = (m AND MASK_THERMAL \<noteq> 0)"
| "mask_includes m UserPreferencesDomain = (m AND MASK_PREFERENCES \<noteq> 0)"
| "mask_includes m NetworkAndPairingDomain = (m AND MASK_NETWORK \<noteq> 0)"
| "mask_includes m LayoutMarkerDomain = False"
| "mask_includes m ThermalPlantDomain = (m AND MASK_THERMAL_PLANT \<noteq> 0)"

definition mask_is_empty :: "PersistDomainMask \<Rightarrow> bool" where
  "mask_is_empty m \<longleftrightarrow> m = 0"

definition mask_union :: "PersistDomainMask \<Rightarrow> PersistDomainMask \<Rightarrow> PersistDomainMask" where
  "mask_union m other = (m OR other)"

definition mask_from_fault :: "PersistenceFault option \<Rightarrow> PersistDomainMask" where
  "mask_from_fault fault =
     (case fault of
        None \<Rightarrow> 0
      | Some f \<Rightarrow>
          if fault_code f = ''safety_calibration_persistence_failed'' then MASK_SAFETY
          else if fault_code f = ''thermal_policy_persistence_failed'' then MASK_THERMAL
          else if fault_code f = ''user_preferences_persistence_failed'' then MASK_PREFERENCES
          else if fault_code f = ''network_pairing_persistence_failed'' then MASK_NETWORK
          else if fault_code f = ''layout_marker_persistence_failed'' then MASK_ALL
          else if fault_code f = ''thermal_plant_persistence_failed'' then MASK_THERMAL_PLANT
          else 0)"

definition persist_domain_mask_between :: "MemoryConfig \<Rightarrow> MemoryConfig \<Rightarrow> PersistDomainMask" where
  "persist_domain_mask_between c p =
     (let m = 0;
          m = (if mc_commissioning_required c \<noteq> mc_commissioning_required p
                   \<or> \<not> adc_eq (mc_adc_calibration c) (mc_adc_calibration p)
                   \<or> mc_active_heater_curve c \<noteq> mc_active_heater_curve p
                   \<or> mc_heater_curve_raw_observations c \<noteq> mc_heater_curve_raw_observations p
                   \<or> mc_heater_curve_transaction_id c \<noteq> mc_heater_curve_transaction_id p
                  then m OR MASK_SAFETY else m);
          m = (if mc_thermal_plant_transient_active c \<noteq> mc_thermal_plant_transient_active p
                   \<or> mc_heater_supply_boundary c \<noteq> mc_heater_supply_boundary p
                  then m OR MASK_THERMAL_PLANT else m);
          m = (if mc_active_thermal_control_profile c \<noteq> mc_active_thermal_control_profile p
                   \<or> mc_thermal_control_profile_pps5a c \<noteq> mc_thermal_control_profile_pps5a p
                   \<or> mc_thermal_profile_mode c \<noteq> mc_thermal_profile_mode p
                  then m OR MASK_THERMAL else m);
          m = (if mc_target_temp_c c \<noteq> mc_target_temp_c p \<or> mc_selected_preset_slot c \<noteq> mc_selected_preset_slot p
                   \<or> mc_presets_c c \<noteq> mc_presets_c p \<or> mc_active_cooling_enabled c \<noteq> mc_active_cooling_enabled p
                   \<or> mc_post_heat_cooling_mode c \<noteq> mc_post_heat_cooling_mode p
                   \<or> mc_heating_fan_guard_mode c \<noteq> mc_heating_fan_guard_mode p
                   \<or> mc_telemetry_interval_ms c \<noteq> mc_telemetry_interval_ms p
                  then m OR MASK_PREFERENCES else m);
          m = (if mc_wifi_ssid c \<noteq> mc_wifi_ssid p \<or> mc_wifi_password c \<noteq> mc_wifi_password p
                   \<or> mc_wifi_auto_reconnect c \<noteq> mc_wifi_auto_reconnect p
                   \<or> mc_wifi_static_ipv4 c \<noteq> mc_wifi_static_ipv4 p
                   \<or> mc_lan_pairing_token c \<noteq> mc_lan_pairing_token p
                  then m OR MASK_NETWORK else m)
      in m)"

definition copy_persisted_domains :: "MemoryConfig \<Rightarrow> PersistDomainMask \<Rightarrow> MemoryConfig \<Rightarrow> MemoryConfig" where
  "copy_persisted_domains c domains p =
     (let p = (if mask_includes domains SafetyCalibrationDomain
               then p\<lparr>mc_commissioning_required := mc_commissioning_required c, mc_adc_calibration := mc_adc_calibration c,
                      mc_active_heater_curve := mc_active_heater_curve c,
                      mc_heater_curve_raw_observations := mc_heater_curve_raw_observations c,
                      mc_heater_curve_transaction_id := mc_heater_curve_transaction_id c\<rparr> else p);
          p = (if mask_includes domains ThermalPlantDomain
               then p\<lparr>mc_thermal_plant_transient_active := mc_thermal_plant_transient_active c,
                      mc_heater_supply_boundary := mc_heater_supply_boundary c\<rparr> else p);
          p = (if mask_includes domains ThermalPolicyDomain
               then p\<lparr>mc_active_thermal_control_profile := mc_active_thermal_control_profile c,
                      mc_thermal_control_profile_pps5a := mc_thermal_control_profile_pps5a c,
                      mc_thermal_profile_mode := mc_thermal_profile_mode c\<rparr> else p);
          p = (if mask_includes domains UserPreferencesDomain
               then p\<lparr>mc_target_temp_c := mc_target_temp_c c, mc_selected_preset_slot := mc_selected_preset_slot c,
                      mc_presets_c := mc_presets_c c, mc_active_cooling_enabled := mc_active_cooling_enabled c,
                      mc_post_heat_cooling_mode := mc_post_heat_cooling_mode c,
                      mc_heating_fan_guard_mode := mc_heating_fan_guard_mode c,
                      mc_telemetry_interval_ms := mc_telemetry_interval_ms c\<rparr> else p);
          p = (if mask_includes domains NetworkAndPairingDomain
               then p\<lparr>mc_wifi_ssid := mc_wifi_ssid c, mc_wifi_password := mc_wifi_password c,
                      mc_wifi_auto_reconnect := mc_wifi_auto_reconnect c, mc_wifi_static_ipv4 := mc_wifi_static_ipv4 c,
                      mc_lan_pairing_token := mc_lan_pairing_token c\<rparr> else p)
      in p)"

section \<open>Failures\<close>

record MemoryCommitFailure =
  mf_error :: MemoryCommitError
  mf_phase :: string
  mf_attempt :: u8
  mf_sequence :: u32
  mf_domain :: PersistDomain
  mf_slot :: PersistSlot

definition MemoryCommitFailure_code :: "MemoryCommitFailure \<Rightarrow> string" where
  "MemoryCommitFailure_code f =
     (case mf_domain f of
        SafetyCalibrationDomain \<Rightarrow> ''safety_calibration_persistence_failed''
      | ThermalPolicyDomain \<Rightarrow> ''thermal_policy_persistence_failed''
      | UserPreferencesDomain \<Rightarrow> ''user_preferences_persistence_failed''
      | NetworkAndPairingDomain \<Rightarrow> ''network_pairing_persistence_failed''
      | LayoutMarkerDomain \<Rightarrow> ''layout_marker_persistence_failed''
      | ThermalPlantDomain \<Rightarrow> ''thermal_plant_persistence_failed'')"

definition memory_failure_requires_heater_lock :: "MemoryCommitFailure \<Rightarrow> bool" where
  "memory_failure_requires_heater_lock f =
     (case mf_domain f of
        SafetyCalibrationDomain \<Rightarrow> True | ThermalPolicyDomain \<Rightarrow> True | ThermalPlantDomain \<Rightarrow> True
      | LayoutMarkerDomain \<Rightarrow> True | _ \<Rightarrow> False)"

definition persistence_fault_from_commit :: "MemoryCommitFailure \<Rightarrow> PersistenceFault" where
  "persistence_fault_from_commit f =
     \<lparr>fault_code = MemoryCommitFailure_code f, fault_phase = mf_phase f, fault_attempt = mf_attempt f,
      fault_sequence = mf_sequence f, fault_slot = Some (PersistSlot_as_str (mf_slot f)),
      fault_message = MemoryCommitError_message (mf_error f)\<rparr>"

section \<open>Committing\<close>

definition write_layout_marker_record ::
  "u32 \<Rightarrow> LayoutMarkerStatus \<Rightarrow> LayoutMarkerKind \<Rightarrow> PersistSlot \<Rightarrow> string \<Rightarrow> Eeprom \<Rightarrow> (MemoryCommitFailure + unit) \<times> Eeprom" where
  "write_layout_marker_record generation status kind slot phase dev =
     (case write_eeprom_persist_record generation
             (LayoutMarkerData \<lparr>lm_generation = generation, lm_status = status, lm_kind = kind\<rparr>) slot dev of
        (Inl e, dev) \<Rightarrow> (Inl \<lparr>mf_error = e, mf_phase = phase, mf_attempt = 1, mf_sequence = generation,
                           mf_domain = LayoutMarkerDomain, mf_slot = slot\<rparr>, dev)
      | (Inr _, dev) \<Rightarrow> (Inr (), dev))"

definition config_domains :: "MemoryConfig \<Rightarrow> (PersistDomainData \<times> PersistSlot) list" where
  "config_domains c =
     [(SafetyCalibrationData (SafetyCalibration_from_config c), SlotA),
      (ThermalPolicyData (ThermalPolicy_from_config c), SlotA),
      (UserPreferencesData (UserPreferences_from_config c), SlotSingle),
      (NetworkAndPairingData (NetworkAndPairing_from_config c), SlotSingle),
      (ThermalPlantData (ThermalPlantPersistence_from_config c), SlotSingle)]"

definition parity_slot :: "u32 \<Rightarrow> PersistSlot" where
  "parity_slot n = (if n mod 2 = 1 then SlotA else SlotB)"

fun persist_loop ::
  "(PersistDomainData \<times> PersistSlot) list \<Rightarrow> u32 \<Rightarrow> PersistDomainMask \<Rightarrow> bool \<Rightarrow> string \<Rightarrow> Eeprom
    \<Rightarrow> (MemoryCommitFailure + unit) \<times> Eeprom" where
  "persist_loop [] n domains double phase dev = (Inr (), dev)"
| "persist_loop ((data, single_slot) # rest) n domains double phase dev =
     (let domain = PersistDomainData_domain data in
      if \<not> mask_includes domains domain \<or> (slot_count domain = 2) \<noteq> double then persist_loop rest n domains double phase dev
      else let slot = (if slot_count domain = 2 then parity_slot n else single_slot) in
        case write_eeprom_persist_record n data slot dev of
          (Inl e, dev) \<Rightarrow> (Inl \<lparr>mf_error = e, mf_phase = phase, mf_attempt = 1, mf_sequence = n, mf_domain = domain,
                             mf_slot = slot\<rparr>, dev)
        | (Inr _, dev) \<Rightarrow> persist_loop rest n domains double phase dev)"

definition persist_memory_domains ::
  "u32 \<Rightarrow> MemoryConfig \<Rightarrow> PersistDomainMask \<Rightarrow> bool \<Rightarrow> string \<Rightarrow> Eeprom \<Rightarrow> (MemoryCommitFailure + unit) \<times> Eeprom" where
  "persist_memory_domains n expected_config domains double phase dev =
     persist_loop (config_domains expected_config) n domains double phase dev"

text \<open>The operator \<open>?\<close> on two calls that share the device.\<close>

definition and_then ::
  "(MemoryCommitFailure + unit) \<times> Eeprom \<Rightarrow> (Eeprom \<Rightarrow> (MemoryCommitFailure + 'a) \<times> Eeprom) \<Rightarrow> (MemoryCommitFailure + 'a) \<times> Eeprom" where
  "and_then r f = (case r of (Inl e, dev) \<Rightarrow> (Inl e, dev) | (Inr _, dev) \<Rightarrow> f dev)"

text \<open>The result carries the new value of \<open>memory_sequence\<close>; on failure it keeps its value.\<close>

definition commit_memory_config_now ::
  "u32 \<Rightarrow> MemoryConfig \<Rightarrow> PersistDomainMask \<Rightarrow> Eeprom \<Rightarrow> (MemoryCommitFailure + u32) \<times> Eeprom" where
  "commit_memory_config_now memory_sequence memory_config domains dev =
     (if mask_is_empty domains then (Inr memory_sequence, dev)
      else let expected_config = sanitize_config memory_config;
               next_sequence = sat_add memory_sequence 1;
               marker_slot = parity_slot next_sequence
           in and_then (write_layout_marker_record next_sequence MarkerPrepared CommitKind marker_slot ''prepared'' dev) (\<lambda>dev.
              and_then (persist_memory_domains next_sequence expected_config domains True ''write'' dev) (\<lambda>dev.
              and_then (persist_memory_domains next_sequence expected_config domains False ''write-single'' dev) (\<lambda>dev.
              and_then (write_layout_marker_record next_sequence MarkerActive CommitKind marker_slot ''active'' dev) (\<lambda>dev.
                (Inr next_sequence, dev))))))"

definition commit_memory_config_domains_without_marker ::
  "u32 \<Rightarrow> MemoryConfig \<Rightarrow> PersistDomainMask \<Rightarrow> string \<Rightarrow> Eeprom \<Rightarrow> (MemoryCommitFailure + unit) \<times> Eeprom" where
  "commit_memory_config_domains_without_marker n memory_config domains phase dev =
     (let expected_config = sanitize_config memory_config in
      and_then (persist_memory_domains n expected_config domains True phase dev) (\<lambda>dev.
        persist_memory_domains n expected_config domains False phase dev))"

definition initialize_fpr2_defaults :: "Eeprom \<Rightarrow> u32 option \<times> Eeprom" where
  "initialize_fpr2_defaults dev =
     (case commit_memory_config_now 0 MemoryConfig_default MASK_ALL dev of
        (Inl _, dev) \<Rightarrow> (None, dev)
      | (Inr n, dev) \<Rightarrow> (Some n, dev))"

definition MEMORY_SLOT_A_OFFSET :: u16 where [simp]: "MEMORY_SLOT_A_OFFSET = 0x1000"
definition MEMORY_SLOT_B_OFFSET :: u16 where [simp]: "MEMORY_SLOT_B_OFFSET = 0x1800"
definition PREVIOUS_MEMORY_SLOT_A_OFFSET :: u16 where [simp]: "PREVIOUS_MEMORY_SLOT_A_OFFSET = 0x0400"
definition PREVIOUS_MEMORY_SLOT_B_OFFSET :: u16 where [simp]: "PREVIOUS_MEMORY_SLOT_B_OFFSET = 0x0800"
definition LEGACY_MEMORY_SLOT_A_OFFSET :: u16 where [simp]: "LEGACY_MEMORY_SLOT_A_OFFSET = 0x0000"
definition LEGACY_MEMORY_SLOT_B_OFFSET :: u16 where [simp]: "LEGACY_MEMORY_SLOT_B_OFFSET = 0x0200"

definition invalidate_legacy_v5_magic :: "Eeprom \<Rightarrow> (MemoryCommitError + unit) \<times> Eeprom" where
  "invalidate_legacy_v5_magic dev =
     (case probe_eeprom_address dev of
        (False, dev) \<Rightarrow> (Inl WriteAddressNoAck, dev)
      | (True, dev) \<Rightarrow>
          (case write_page_async MEMORY_SLOT_A_OFFSET (replicate 4 0xff) dev of
             (Inl e, dev) \<Rightarrow> (Inl (memory_commit_error_from_eeprom e), dev)
           | (Inr _, dev) \<Rightarrow>
               (case write_page_async MEMORY_SLOT_B_OFFSET (replicate 4 0xff) dev of
                  (Inl e, dev) \<Rightarrow> (Inl (memory_commit_error_from_eeprom e), dev)
                | (Inr _, dev) \<Rightarrow> (Inr (), dev))))"

definition migrate_legacy_memory_config :: "u32 \<Rightarrow> MemoryConfig \<Rightarrow> Eeprom \<Rightarrow> (MemoryCommitFailure + u32) \<times> Eeprom" where
  "migrate_legacy_memory_config legacy_sequence config dev =
     (let n = sat_add legacy_sequence 1 in
      and_then (write_layout_marker_record n MarkerPrepared LegacyMigrationKind SlotA ''prepared'' dev) (\<lambda>dev.
      and_then (write_layout_marker_record n MarkerPrepared LegacyMigrationKind SlotB ''prepared'' dev) (\<lambda>dev.
      and_then (commit_memory_config_domains_without_marker n config MASK_ALL ''write-migration'' dev) (\<lambda>dev.
      and_then (case invalidate_legacy_v5_magic dev of
                  (Inl e, dev) \<Rightarrow> (Inl \<lparr>mf_error = e, mf_phase = ''invalidate'', mf_attempt = 1, mf_sequence = n,
                                     mf_domain = LayoutMarkerDomain, mf_slot = SlotSingle\<rparr>, dev)
                | (Inr _, dev) \<Rightarrow> (Inr (), dev)) (\<lambda>dev.
      and_then (write_layout_marker_record n MarkerActive LegacyMigrationKind SlotA ''active'' dev) (\<lambda>dev.
      and_then (write_layout_marker_record n MarkerActive LegacyMigrationKind SlotB ''active'' dev) (\<lambda>dev.
        (Inr n, dev))))))))"

section \<open>Restoring\<close>

record MemoryRecord =
  mr_sequence :: u32
  mr_config :: MemoryConfig

record EepromMarkerScan =
  scan_contains_data :: bool
  scan_legacy_format_present :: bool
  scan_read_failed :: bool
  scan_latest_active_marker :: "LayoutMarker option"
  scan_latest_prepared_marker :: "LayoutMarker option"

definition blank_staging :: "u8 list" where
  "blank_staging = replicate FPR2_MAX_RECORD_SIZE 0xff"

text \<open>\<open>current.is_none_or(|current| sequence > current.generation)\<close>.\<close>

definition newer_than :: "u32 \<Rightarrow> LayoutMarker option \<Rightarrow> bool" where
  "newer_than n marker = (case marker of None \<Rightarrow> True | Some m \<Rightarrow> n > lm_generation m)"

definition scan_marker_slot :: "u16 \<Rightarrow> EepromMarkerScan \<times> Eeprom \<Rightarrow> EepromMarkerScan \<times> Eeprom" where
  "scan_marker_slot offset st =
     (case st of (scan, dev) \<Rightarrow>
      case read_eeprom_persist_record offset FPR2_LAYOUT_SLOT_SIZE blank_staging dev of
        (candidate, staging, dev) \<Rightarrow>
          let scan = scan\<lparr>scan_contains_data := (scan_contains_data scan \<or> eeprom_bytes_contain_data (take FPR2_HEADER_LEN staging))\<rparr>;
              scan = (case candidate of Inl _ \<Rightarrow> scan\<lparr>scan_read_failed := True\<rparr> | Inr _ \<Rightarrow> scan)
          in (case candidate of
                Inr (Some r) \<Rightarrow>
                  (case rec_data r of
                     LayoutMarkerData marker \<Rightarrow>
                       if lm_generation marker \<noteq> rec_sequence r then scan
                       else if lm_status marker = MarkerActive \<and> newer_than (rec_sequence r) (scan_latest_active_marker scan)
                       then scan\<lparr>scan_latest_active_marker := Some marker\<rparr>
                       else if lm_status marker = MarkerPrepared \<and> newer_than (rec_sequence r) (scan_latest_prepared_marker scan)
                       then scan\<lparr>scan_latest_prepared_marker := Some marker\<rparr>
                       else scan
                   | _ \<Rightarrow> scan)
              | _ \<Rightarrow> scan, dev))"

definition scan_fpr2_layout_markers :: "Eeprom \<Rightarrow> EepromMarkerScan \<times> Eeprom" where
  "scan_fpr2_layout_markers dev =
     fold scan_marker_slot [FPR2_LAYOUT_A_OFFSET, FPR2_LAYOUT_B_OFFSET]
       (\<lparr>scan_contains_data = False, scan_legacy_format_present = False, scan_read_failed = False,
         scan_latest_active_marker = None, scan_latest_prepared_marker = None\<rparr>, dev)"

text \<open>The magic \<open>FPM1\<close> of the legacy format.\<close>

definition FPM1_MAGIC :: "u8 list" where [simp]: "FPM1_MAGIC = [0x46, 0x50, 0x4d, 0x31]"

definition scan_legacy_slot :: "u16 \<Rightarrow> EepromMarkerScan \<times> Eeprom \<Rightarrow> EepromMarkerScan \<times> Eeprom" where
  "scan_legacy_slot offset st =
     (case st of (scan, dev) \<Rightarrow>
      (case read_eeprom_bytes_chunked offset (replicate 4 0) dev of
         (Inl _, _, dev) \<Rightarrow> (scan\<lparr>scan_read_failed := True\<rparr>, dev)
       | (Inr _, bs, dev) \<Rightarrow>
           (scan\<lparr>scan_contains_data := (scan_contains_data scan \<or> eeprom_bytes_contain_data bs),
              scan_legacy_format_present := (scan_legacy_format_present scan \<or> bs = FPM1_MAGIC)\<rparr>, dev)))"

definition scan_legacy_slots :: "EepromMarkerScan \<Rightarrow> Eeprom \<Rightarrow> EepromMarkerScan \<times> Eeprom" where
  "scan_legacy_slots scan dev =
     fold scan_legacy_slot
       [PREVIOUS_MEMORY_SLOT_A_OFFSET, PREVIOUS_MEMORY_SLOT_B_OFFSET, LEGACY_MEMORY_SLOT_A_OFFSET,
        LEGACY_MEMORY_SLOT_B_OFFSET, MEMORY_SLOT_A_OFFSET, MEMORY_SLOT_B_OFFSET] (scan, dev)"

text \<open>The slots the restore reads, in its order.\<close>

definition domain_specs :: "(PersistDomain \<times> u16 list \<times> nat) list" where
  "domain_specs =
     [(SafetyCalibrationDomain, [FPR2_SAFETY_A_OFFSET, FPR2_SAFETY_B_OFFSET], FPR2_SAFETY_SLOT_SIZE),
      (ThermalPolicyDomain, [FPR2_THERMAL_A_OFFSET, FPR2_THERMAL_B_OFFSET], FPR2_THERMAL_SLOT_SIZE),
      (UserPreferencesDomain, [FPR2_PREFERENCES_OFFSET, 0], 128),
      (NetworkAndPairingDomain, [FPR2_NETWORK_OFFSET, 0], 256),
      (ThermalPlantDomain, [FPR2_THERMAL_PLANT_OFFSET, 0], FPR2_THERMAL_SLOT_SIZE)]"

record DomainScan =
  dsc_domains :: "PersistRecord option list"
  dsc_contains_data :: bool
  dsc_read_failed :: bool

text \<open>
  One slot of a domain: the candidate replaces the selected record when it passes the test and is newer.
\<close>

definition read_domain_slot ::
  "PersistDomain \<Rightarrow> nat \<Rightarrow> (PersistRecord \<Rightarrow> bool) \<Rightarrow> u16 \<Rightarrow> PersistRecord option \<times> bool \<times> bool \<times> Eeprom
    \<Rightarrow> PersistRecord option \<times> bool \<times> bool \<times> Eeprom" where
  "read_domain_slot domain len wanted offset st =
     (case st of (selected, contains_data, read_failed, dev) \<Rightarrow>
      case read_eeprom_persist_record offset len blank_staging dev of
        (candidate, staging, dev) \<Rightarrow>
          (case candidate of
             Inr (Some r) \<Rightarrow>
               if PersistDomainData_domain (rec_data r) = domain \<and> wanted r
                  \<and> (case selected of None \<Rightarrow> True | Some s \<Rightarrow> rec_sequence r > rec_sequence s)
               then Some r else selected
           | _ \<Rightarrow> selected,
           contains_data \<or> eeprom_bytes_contain_data (take FPR2_HEADER_LEN staging),
           read_failed \<or> candidate = Inl (), dev))"

definition read_domain ::
  "(PersistRecord \<Rightarrow> bool) \<Rightarrow> PersistDomain \<times> u16 list \<times> nat \<Rightarrow> DomainScan \<times> Eeprom \<Rightarrow> DomainScan \<times> Eeprom" where
  "read_domain wanted spec st =
     (case (spec, st) of ((domain, offsets, len), (scan, dev)) \<Rightarrow>
      case fold (read_domain_slot domain len wanted) (take (unat (slot_count domain)) offsets)
             (None, dsc_contains_data scan, dsc_read_failed scan, dev) of
        (selected, contains_data, read_failed, dev) \<Rightarrow>
          (\<lparr>dsc_domains = (dsc_domains scan)[domain_number domain - 1 := selected], dsc_contains_data = contains_data,
            dsc_read_failed = read_failed\<rparr>, dev))"

definition empty_domains :: DomainScan where
  "empty_domains = \<lparr>dsc_domains = replicate 6 None, dsc_contains_data = False, dsc_read_failed = False\<rparr>"

definition read_fpr2_domains :: "u32 option \<Rightarrow> Eeprom \<Rightarrow> DomainScan \<times> Eeprom" where
  "read_fpr2_domains read_generation dev =
     (case read_generation of
        None \<Rightarrow> (empty_domains, dev)
      | Some g \<Rightarrow> fold (read_domain (\<lambda>r. rec_sequence r \<le> g)) domain_specs (empty_domains, dev))"

definition merge_persist_records :: "PersistRecord option list \<Rightarrow> u32 \<Rightarrow> MemoryRecord option" where
  "merge_persist_records domains n =
     (if \<not> fpr2_snapshot_is_complete domains n then None
      else let config = sanitize_config (fold (\<lambda>r. apply_record_data (rec_data r)) (flatten domains) MemoryConfig_default);
               present = (flatten domains \<noteq> [])
           in if present then Some \<lparr>mr_sequence = n, mr_config = config\<rparr> else None)"

definition eeprom_data_is_incompatible :: "bool \<Rightarrow> bool \<Rightarrow> bool" where
  "eeprom_data_is_incompatible has_valid_record contains_data \<longleftrightarrow> \<not> has_valid_record \<and> contains_data"

definition load_eeprom_memory_record :: "Eeprom \<Rightarrow> (MemoryRecord option \<times> bool \<times> bool \<times> bool) \<times> Eeprom" where
  "load_eeprom_memory_record dev =
     (case probe_eeprom_address dev of
        (False, dev) \<Rightarrow> ((None, False, True, False), dev)
      | (True, dev) \<Rightarrow>
          (case scan_fpr2_layout_markers dev of (scan, dev) \<Rightarrow>
           case (if scan_latest_active_marker scan = None then scan_legacy_slots scan dev else (scan, dev)) of (scan, dev) \<Rightarrow>
             let active_generation = map_option lm_generation (scan_latest_active_marker scan);
                 migrating = option_filter (\<lambda>m. lm_kind m = LegacyMigrationKind) (scan_latest_prepared_marker scan);
                 read_generation = (case active_generation of Some g \<Rightarrow> Some g | None \<Rightarrow> map_option lm_generation migrating)
             in case read_fpr2_domains read_generation dev of (ds, dev) \<Rightarrow>
               let contains_data = (scan_contains_data scan \<or> dsc_contains_data ds);
                   read_failed = (scan_read_failed scan \<or> dsc_read_failed ds);
                   domains = dsc_domains ds;
                   prepared_recovery = (scan_latest_active_marker scan = None
                     \<and> (case migrating of None \<Rightarrow> False
                        | Some m \<Rightarrow> \<not> scan_legacy_format_present scan \<and> fpr2_prepared_generation_is_complete domains (lm_generation m)));
                   selected = (case active_generation of
                       Some g \<Rightarrow> merge_persist_records domains g
                     | None \<Rightarrow> if prepared_recovery
                         then merge_persist_records domains
                                (case scan_latest_prepared_marker scan of None \<Rightarrow> 0 | Some m \<Rightarrow> lm_generation m)
                         else None);
                   incompatible = (scan_legacy_format_present scan
                     \<or> eeprom_data_is_incompatible (selected \<noteq> None) contains_data);
                   required = (read_failed \<and> selected = None
                     \<or> contains_data \<and> (domains ! 0 = None \<or> domains ! 1 = None)
                     \<or> contains_data \<and> scan_latest_active_marker scan = None \<and> \<not> prepared_recovery)
               in ((selected, incompatible, required, prepared_recovery), dev)))"

section \<open>Recovering a prepared layout\<close>

definition read_prepared_fpr2_domains :: "u32 \<Rightarrow> Eeprom \<Rightarrow> DomainScan \<times> Eeprom" where
  "read_prepared_fpr2_domains n dev = fold (read_domain (\<lambda>r. rec_sequence r = n)) domain_specs (empty_domains, dev)"

definition recovered_marker_write :: "u32 \<Rightarrow> PersistSlot \<Rightarrow> Eeprom \<Rightarrow> (MemoryCommitFailure + unit) \<times> Eeprom" where
  "recovered_marker_write n slot dev =
     (case write_eeprom_persist_record n
             (LayoutMarkerData \<lparr>lm_generation = n, lm_status = MarkerActive, lm_kind = LegacyMigrationKind\<rparr>) slot dev of
        (Inl e, dev) \<Rightarrow> (Inl \<lparr>mf_error = e, mf_phase = ''active-recovery'', mf_attempt = 1, mf_sequence = n,
                           mf_domain = LayoutMarkerDomain, mf_slot = slot\<rparr>, dev)
      | (Inr _, dev) \<Rightarrow> (Inr (), dev))"

definition write_recovered_active_markers :: "u32 \<Rightarrow> Eeprom \<Rightarrow> (MemoryCommitFailure + unit) \<times> Eeprom" where
  "write_recovered_active_markers n dev =
     and_then (recovered_marker_write n SlotA dev) (\<lambda>dev. recovered_marker_write n SlotB dev)"

definition recovery_failure :: "MemoryCommitError \<Rightarrow> u32 \<Rightarrow> MemoryCommitFailure" where
  "recovery_failure e n = \<lparr>mf_error = e, mf_phase = ''active-recovery'', mf_attempt = 1, mf_sequence = n,
     mf_domain = LayoutMarkerDomain, mf_slot = SlotA\<rparr>"

definition recover_prepared_fpr2_layout :: "u32 \<Rightarrow> Eeprom \<Rightarrow> (MemoryCommitFailure + unit) \<times> Eeprom" where
  "recover_prepared_fpr2_layout n dev =
     (case probe_eeprom_address dev of
        (False, dev) \<Rightarrow> (Inl (recovery_failure VerifyUnreadable n), dev)
      | (True, dev) \<Rightarrow>
          (case read_prepared_fpr2_domains n dev of (ds, dev) \<Rightarrow>
             if dsc_read_failed ds \<or> \<not> fpr2_prepared_generation_is_complete (dsc_domains ds) n
             then (Inl (recovery_failure (if dsc_read_failed ds then VerifyUnreadable else VerifyMismatch) n), dev)
             else write_recovered_active_markers n dev))"

section \<open>The front panel\<close>

definition apply_memory_config_to_ui :: "MemoryConfig \<Rightarrow> FrontPanelUiState \<Rightarrow> FrontPanelUiState rust" where
  "apply_memory_config_to_ui config s =
     rbind (set_target_temp_c (mc_target_temp_c config) s) (\<lambda>s.
       let s = ensure_selected_preset_slot (s\<lparr>selected_preset_slot := mc_selected_preset_slot config\<rparr>);
           s = s\<lparr>presets_c := mc_presets_c config\<rparr>
       in Ret (set_fan_settings (mc_post_heat_cooling_mode config) (mc_heating_fan_guard_mode config) s))"

definition restore_persisted_memory_domains ::
  "MemoryConfig \<Rightarrow> PersistDomainMask \<Rightarrow> MemoryConfig \<Rightarrow> FrontPanelUiState \<Rightarrow> MemoryConfig \<times> FrontPanelUiState rust" where
  "restore_persisted_memory_domains last_persisted domains config s =
     (let config = copy_persisted_domains last_persisted domains config in (config, apply_memory_config_to_ui config s))"

definition memory_config_from_ui :: "FrontPanelUiState \<Rightarrow> MemoryConfig \<Rightarrow> MemoryConfig" where
  "memory_config_from_ui s previous = previous
     \<lparr>mc_target_temp_c := ui_target_temp_c s, mc_selected_preset_slot := selected_preset_slot s, mc_presets_c := presets_c s,
      mc_active_cooling_enabled := active_cooling_enabled s, mc_post_heat_cooling_mode := post_heat_cooling_mode s,
      mc_heating_fan_guard_mode := heating_fan_guard_mode s\<rparr>"

end
