(* ===== verification/Eeprom_Snapshot.thy ===== *)
theory Eeprom_Snapshot
  imports Eeprom_Commit
begin

text \<open>
  What the restore of \<open>Eeprom_Commit\<close> reads on a working bus, as a function of the memory: the newest active generation, for
  each domain the newest record not after it, and the configuration they make.
\<close>

section \<open>Markers\<close>

fun latest :: "u32 option \<Rightarrow> u32 option \<Rightarrow> u32 option" where
  "latest (Some x) (Some y) = Some (max x y)"
| "latest None y = y"
| "latest x None = x"

definition active_generation :: "u8 list \<Rightarrow> u32 option" where
  "active_generation mem =
     latest (active_in (slot_contents mem LayoutMarkerDomain SlotA)) (active_in (slot_contents mem LayoutMarkerDomain SlotB))"

lemma scan_marker_slot_healthy:
  assumes "s = SlotA \<or> s = SlotB" "length mem = 8192"
    and "map_option lm_generation (scan_latest_active_marker scan) = a"
  shows "\<exists>scan'. scan_marker_slot (slot_offset LayoutMarkerDomain s) (scan, healthy mem) = (scan', healthy mem)
    \<and> map_option lm_generation (scan_latest_active_marker scan') = latest a (active_in (slot_contents mem LayoutMarkerDomain s))"
proof -
  have used: "(LayoutMarkerDomain, s) \<in> set used_slots" using assms(1) by (auto simp: used_slots_def)
  obtain staging where rd: "read_eeprom_persist_record (slot_offset LayoutMarkerDomain s) 128 blank_staging (healthy mem)
      = (Inr (stored mem LayoutMarkerDomain s), staging, healthy mem)"
    using read_slot_healthy [OF used assms(2)] by (auto simp: blank_staging_def)
  show ?thesis
  proof (cases "stored mem LayoutMarkerDomain s")
    case None
    then show ?thesis
      using rd assms(3) by (cases a) (auto simp: scan_marker_slot_def Let_def active_in_def stored_def)
  next
    case (Some r)
    show ?thesis
    proof (cases "rec_data r")
      case (LayoutMarkerData m)
      show ?thesis
        using rd Some LayoutMarkerData assms(3)
        by (cases "scan_latest_active_marker scan"; cases "lm_status m")
          (auto simp: scan_marker_slot_def Let_def active_in_def stored_def newer_than_def max_def)
    qed (use rd Some assms(3) in \<open>(cases a; auto simp: scan_marker_slot_def Let_def active_in_def stored_def)\<close>)+
  qed
qed

lemma scan_markers_healthy:
  assumes "length mem = 8192"
  shows "\<exists>scan. scan_fpr2_layout_markers (healthy mem) = (scan, healthy mem)
    \<and> map_option lm_generation (scan_latest_active_marker scan) = active_generation mem"
proof -
  let ?s0 = "\<lparr>scan_contains_data = False, scan_legacy_format_present = False, scan_read_failed = False,
    scan_latest_active_marker = None, scan_latest_prepared_marker = None\<rparr>"
  obtain s1 where s1: "scan_marker_slot (slot_offset LayoutMarkerDomain SlotA) (?s0, healthy mem) = (s1, healthy mem)"
    "map_option lm_generation (scan_latest_active_marker s1) = active_in (slot_contents mem LayoutMarkerDomain SlotA)"
    using scan_marker_slot_healthy [of SlotA mem ?s0 None] assms by auto
  obtain s2 where "scan_marker_slot (slot_offset LayoutMarkerDomain SlotB) (s1, healthy mem) = (s2, healthy mem)"
    "map_option lm_generation (scan_latest_active_marker s2) = active_generation mem"
    using scan_marker_slot_healthy [OF _ assms s1(2), of SlotB] by (auto simp: active_generation_def)
  then show ?thesis using s1(1) by (simp add: scan_fpr2_layout_markers_def)
qed

section \<open>Records\<close>

definition record_at :: "u8 list \<Rightarrow> u32 \<Rightarrow> PersistDomain \<Rightarrow> PersistSlot \<Rightarrow> PersistRecord option" where
  "record_at mem g d s = option_filter (\<lambda>r. PersistDomainData_domain (rec_data r) = d \<and> rec_sequence r \<le> g) (stored mem d s)"

definition newest :: "PersistRecord option \<Rightarrow> PersistRecord option \<Rightarrow> PersistRecord option" where
  "newest x y =
     (case x of None \<Rightarrow> y
      | Some a \<Rightarrow> (case y of None \<Rightarrow> x | Some b \<Rightarrow> if rec_sequence b > rec_sequence a then y else x))"

text \<open>The record of a domain that belongs to a generation.\<close>

fun live :: "u8 list \<Rightarrow> u32 \<Rightarrow> PersistDomain \<Rightarrow> PersistRecord option" where
  "live mem g SafetyCalibrationDomain = newest (record_at mem g SafetyCalibrationDomain SlotA) (record_at mem g SafetyCalibrationDomain SlotB)"
| "live mem g ThermalPolicyDomain = newest (record_at mem g ThermalPolicyDomain SlotA) (record_at mem g ThermalPolicyDomain SlotB)"
| "live mem g d = record_at mem g d SlotSingle"

definition live_domains :: "u8 list \<Rightarrow> u32 \<Rightarrow> PersistRecord option list" where
  "live_domains mem g =
     [live mem g SafetyCalibrationDomain, live mem g ThermalPolicyDomain, live mem g UserPreferencesDomain,
      live mem g NetworkAndPairingDomain, None, live mem g ThermalPlantDomain]"

lemma read_domain_slot_healthy:
  assumes "(d, s) \<in> set used_slots" "length mem = 8192"
  shows "\<exists>cd. read_domain_slot d (slot_size d) (\<lambda>r. rec_sequence r \<le> g) (slot_offset d s) (sel, c, f, healthy mem)
    = (newest sel (record_at mem g d s), cd, f, healthy mem)"
proof -
  obtain staging where "read_eeprom_persist_record (slot_offset d s) (slot_size d) blank_staging (healthy mem)
      = (Inr (stored mem d s), staging, healthy mem)"
    using read_slot_healthy [OF assms] by (auto simp: blank_staging_def)
  then show ?thesis
    by (cases sel; cases "stored mem d s") (auto simp: read_domain_slot_def record_at_def newest_def)
qed

definition domain_slots :: "PersistDomain \<Rightarrow> PersistSlot list" where
  "domain_slots d = (if slot_count d = 2 then [SlotA, SlotB] else [SlotSingle])"

lemma read_domain_healthy:
  assumes "d \<in> set FPR2_SNAPSHOT_DOMAINS" "length mem = 8192"
    and "take (unat (slot_count d)) offsets = map (slot_offset d) (domain_slots d)"
  shows "\<exists>cd. read_domain (\<lambda>r. rec_sequence r \<le> g) (d, offsets, slot_size d) (scan, healthy mem)
    = (\<lparr>dsc_domains = (dsc_domains scan)[domain_number d - 1 := live mem g d], dsc_contains_data = cd,
        dsc_read_failed = dsc_read_failed scan\<rparr>, healthy mem)"
proof (cases "slot_count d = 2")
  case True
  then have d: "d = SafetyCalibrationDomain \<or> d = ThermalPolicyDomain" using assms(1) by (auto simp: FPR2_SNAPSHOT_DOMAINS_def)
  then have u: "(d, SlotA) \<in> set used_slots" "(d, SlotB) \<in> set used_slots" by (auto simp: used_slots_def)
  obtain c1 where 1: "read_domain_slot d (slot_size d) (\<lambda>r. rec_sequence r \<le> g) (slot_offset d SlotA)
      (None, dsc_contains_data scan, dsc_read_failed scan, healthy mem)
      = (record_at mem g d SlotA, c1, dsc_read_failed scan, healthy mem)"
    using read_domain_slot_healthy [OF u(1) assms(2), of g None] by (auto simp: newest_def)
  obtain c2 where 2: "read_domain_slot d (slot_size d) (\<lambda>r. rec_sequence r \<le> g) (slot_offset d SlotB)
      (record_at mem g d SlotA, c1, dsc_read_failed scan, healthy mem)
      = (newest (record_at mem g d SlotA) (record_at mem g d SlotB), c2, dsc_read_failed scan, healthy mem)"
    using read_domain_slot_healthy [OF u(2) assms(2)] by blast
  have "live mem g d = newest (record_at mem g d SlotA) (record_at mem g d SlotB)" using d by auto
  then show ?thesis using True assms(3) 1 2 by (simp add: read_domain_def domain_slots_def)
next
  case False
  then have d: "d = UserPreferencesDomain \<or> d = NetworkAndPairingDomain \<or> d = ThermalPlantDomain"
    using assms(1) by (auto simp: FPR2_SNAPSHOT_DOMAINS_def)
  then have u: "(d, SlotSingle) \<in> set used_slots" by (auto simp: used_slots_def)
  obtain c1 where 1: "read_domain_slot d (slot_size d) (\<lambda>r. rec_sequence r \<le> g) (slot_offset d SlotSingle)
      (None, dsc_contains_data scan, dsc_read_failed scan, healthy mem)
      = (record_at mem g d SlotSingle, c1, dsc_read_failed scan, healthy mem)"
    using read_domain_slot_healthy [OF u assms(2), of g None] by (auto simp: newest_def)
  have "live mem g d = record_at mem g d SlotSingle" using d by auto
  then show ?thesis using False assms(3) 1 by (simp add: read_domain_def domain_slots_def)
qed

lemma domain_specs_slots:
  "(d, offsets, len) \<in> set domain_specs \<Longrightarrow>
    d \<in> set FPR2_SNAPSHOT_DOMAINS \<and> len = slot_size d \<and> take (unat (slot_count d)) offsets = map (slot_offset d) (domain_slots d)"
  by (auto simp: domain_specs_def FPR2_SNAPSHOT_DOMAINS_def domain_slots_def)

lemma read_domains_fold:
  assumes "set specs \<subseteq> set domain_specs" "length mem = 8192"
  shows "\<exists>cd. fold (read_domain (\<lambda>r. rec_sequence r \<le> g)) specs (scan, healthy mem)
    = (\<lparr>dsc_domains = fold (\<lambda>(d, _) ds. ds[domain_number d - 1 := live mem g d]) specs (dsc_domains scan),
        dsc_contains_data = cd, dsc_read_failed = dsc_read_failed scan\<rparr>, healthy mem)"
  using assms(1)
proof (induction specs arbitrary: scan)
  case Nil
  show ?case by (cases scan) simp
next
  case (Cons spec specs)
  obtain d offsets len where spec: "spec = (d, offsets, len)" by (cases spec)
  then have d: "d \<in> set FPR2_SNAPSHOT_DOMAINS" "len = slot_size d"
    "take (unat (slot_count d)) offsets = map (slot_offset d) (domain_slots d)"
    using domain_specs_slots Cons.prems by auto
  obtain cd where step: "read_domain (\<lambda>r. rec_sequence r \<le> g) spec (scan, healthy mem)
      = (\<lparr>dsc_domains = (dsc_domains scan)[domain_number d - 1 := live mem g d], dsc_contains_data = cd,
          dsc_read_failed = dsc_read_failed scan\<rparr>, healthy mem)"
    using read_domain_healthy [OF d(1) assms(2) d(3)] by (auto simp: spec d(2))
  show ?case using Cons.IH [of "fst (read_domain (\<lambda>r. rec_sequence r \<le> g) spec (scan, healthy mem))"] Cons.prems step by (simp add: spec)
qed

lemma read_fpr2_domains_healthy:
  assumes "length mem = 8192"
  shows "\<exists>cd. read_fpr2_domains (Some g) (healthy mem)
    = (\<lparr>dsc_domains = live_domains mem g, dsc_contains_data = cd, dsc_read_failed = False\<rparr>, healthy mem)"
  using read_domains_fold [OF subset_refl assms, of g empty_domains]
  by (auto simp: read_fpr2_domains_def domain_specs_def empty_domains_def live_domains_def numeral_eq_Suc)

text \<open>The configuration a memory with an active generation holds.\<close>

definition snapshot :: "u8 list \<Rightarrow> u32 \<Rightarrow> MemoryConfig option" where
  "snapshot mem g = fpr2_snapshot_config (live_domains mem g) g False"

lemma snapshot_live:
  "snapshot mem g =
     (if list_all (\<lambda>d. live mem g d \<noteq> None) FPR2_SNAPSHOT_DOMAINS
      then Some (sanitize_config (fold (\<lambda>r. apply_record_data (rec_data r)) (flatten (live_domains mem g)) MemoryConfig_default))
      else None)"
proof -
  have ok: "live mem g d = Some r \<Longrightarrow> PersistDomainData_domain (rec_data r) = d \<and> rec_sequence r \<le> g" for d r
    by (cases d) (auto simp: newest_def record_at_def split: option.splits if_splits)
  have "record_fits_snapshot (live_domains mem g) g False d = (live mem g d \<noteq> None)" if "d \<in> set FPR2_SNAPSHOT_DOMAINS" for d
    using that ok [of d]
    by (cases "live mem g d") (auto simp: FPR2_SNAPSHOT_DOMAINS_def record_fits_snapshot_def live_domains_def numeral_eq_Suc
        not_less simp del: live.simps)
  then have "list_all (record_fits_snapshot (live_domains mem g) g False) FPR2_SNAPSHOT_DOMAINS
      = list_all (\<lambda>d. live mem g d \<noteq> None) FPR2_SNAPSHOT_DOMAINS" by (simp add: list_all_iff)
  then show ?thesis unfolding snapshot_def fpr2_snapshot_config_eq by simp
qed

text \<open>
  The restore: with an active marker the firmware boots with the configuration of its generation.
\<close>

lemma load_active:
  assumes "length mem = 8192" "active_generation mem = Some g"
  shows "fst (fst (load_eeprom_memory_record (healthy mem))) = map_option (\<lambda>c. \<lparr>mr_sequence = g, mr_config = c\<rparr>) (snapshot mem g)"
proof -
  obtain scan where scan: "scan_fpr2_layout_markers (healthy mem) = (scan, healthy mem)"
    "map_option lm_generation (scan_latest_active_marker scan) = Some g"
    using scan_markers_healthy [OF assms(1)] assms(2) by auto
  obtain cd where ds: "read_fpr2_domains (Some g) (healthy mem)
      = (\<lparr>dsc_domains = live_domains mem g, dsc_contains_data = cd, dsc_read_failed = False\<rparr>, healthy mem)"
    using read_fpr2_domains_healthy [OF assms(1)] by blast
  have "merge_persist_records (live_domains mem g) g = map_option (\<lambda>c. \<lparr>mr_sequence = g, mr_config = c\<rparr>) (snapshot mem g)"
    unfolding merge_persist_records_def fpr2_snapshot_is_complete_def snapshot_def [symmetric]
    by (auto simp: snapshot_live Let_def FPR2_SNAPSHOT_DOMAINS_def live_domains_def)
  then show ?thesis
    using scan ds by (auto simp: load_eeprom_memory_record_def Let_def split: prod.split)
qed

end
