(* ===== verification/Eeprom_Safety.thy ===== *)
theory Eeprom_Safety
  imports Eeprom_Snapshot
begin

text \<open>
  Commits against power loss and bus faults. A commit is a list of record writes; whatever the bus does, the memory
  afterwards is that of some first writes and a part of the next one. From this follow what the next boot
  restores: the new configuration after a success, and after an interruption the old one, the new one or,
  when a single-slot domain was being written, none. Together with it stands the case the slot choice
  does not protect: a domain that earlier commits skipped.
\<close>

section \<open>Slots as a store\<close>

definition record_image :: "u32 \<Rightarrow> PersistDomainData \<Rightarrow> u8 list" where
  "record_image n data =
     (case encode_persist_record n data (replicate FPR2_MAX_RECORD_SIZE 0xff) of Inr (bs, len) \<Rightarrow> take len bs | Inl _ \<Rightarrow> [])"

lemma record_image_encodes:
  "encodes data fs \<Longrightarrow> record_image n data = record_bytes n (PersistDomainData_domain data) (fields_bytes fs)"
  by (simp add: record_image_def encode_record_encodes)

lemma record_image_storable:
  assumes "data_storable data"
  shows "length (record_image n data) \<le> slot_size (PersistDomainData_domain data)"
    "decode_persist_record (record_image n data @ rest) = Inr \<lparr>rec_sequence = n, rec_data = data\<rparr>"
    "\<exists>p. record_image n data = record_bytes n (PersistDomainData_domain data) p"
proof -
  obtain fs where fs: "encodes data fs" using storable_encodes [OF assms] by blast
  show "length (record_image n data) \<le> slot_size (PersistDomainData_domain data)"
    using fs by (simp add: record_image_encodes encodes_def)
  show "decode_persist_record (record_image n data @ rest) = Inr \<lparr>rec_sequence = n, rec_data = data\<rparr>"
    unfolding record_image_encodes [OF fs] by (rule decode_record_encodes [OF fs])
  show "\<exists>p. record_image n data = record_bytes n (PersistDomainData_domain data) p" using record_image_encodes [OF fs] by blast
qed

definition put_record :: "u32 \<Rightarrow> PersistSlot \<times> PersistDomainData \<Rightarrow> u8 list \<Rightarrow> u8 list" where
  "put_record n w mem =
     overwrite mem (unat (slot_offset (PersistDomainData_domain (snd w)) (fst w))) (record_image n (snd w))"

definition slot_of :: "PersistSlot \<times> PersistDomainData \<Rightarrow> PersistDomain \<times> PersistSlot" where
  "slot_of w = (PersistDomainData_domain (snd w), fst w)"

definition writable :: "PersistSlot \<times> PersistDomainData \<Rightarrow> bool" where
  "writable w \<longleftrightarrow> data_storable (snd w) \<and> slot_of w \<in> set used_slots"

text \<open>
  The contract of a store of record slots: a record put into a slot is read back from it, and
  no other slot changes.
\<close>

locale record_slots =
  fixes get :: "'m \<Rightarrow> PersistDomain \<times> PersistSlot \<Rightarrow> PersistRecord option"
    and put :: "u32 \<Rightarrow> PersistSlot \<times> PersistDomainData \<Rightarrow> 'm \<Rightarrow> 'm"
    and ok :: "'m \<Rightarrow> bool"
  assumes ok_put: "ok m \<Longrightarrow> writable w \<Longrightarrow> ok (put n w m)"
    and get_put: "ok m \<Longrightarrow> writable w \<Longrightarrow> get (put n w m) (slot_of w) = Some \<lparr>rec_sequence = n, rec_data = snd w\<rparr>"
    and get_put_other: "ok m \<Longrightarrow> writable w \<Longrightarrow> x \<in> set used_slots \<Longrightarrow> x \<noteq> slot_of w \<Longrightarrow> get (put n w m) x = get m x"
begin

lemma ok_put_all: "ok m \<Longrightarrow> list_all writable ws \<Longrightarrow> ok (fold (put n) ws m)"
  by (induction ws arbitrary: m) (simp_all add: ok_put)

lemma get_put_all_other:
  "ok m \<Longrightarrow> list_all writable ws \<Longrightarrow> x \<in> set used_slots \<Longrightarrow> x \<notin> set (map slot_of ws) \<Longrightarrow> get (fold (put n) ws m) x = get m x"
  by (induction ws arbitrary: m) (simp_all add: ok_put get_put_other)

lemma get_put_all:
  assumes "ok m" "list_all writable ws" "distinct (map slot_of ws)" "w \<in> set ws"
  shows "get (fold (put n) ws m) (slot_of w) = Some \<lparr>rec_sequence = n, rec_data = snd w\<rparr>"
  using assms
proof (induction ws arbitrary: m)
  case (Cons v ws)
  show ?case
  proof (cases "w \<in> set ws")
    case False
    then have "w = v" using Cons.prems by simp
    moreover have "slot_of v \<in> set used_slots" using Cons.prems by (simp add: writable_def)
    ultimately show ?thesis using Cons.prems by (simp add: get_put_all_other ok_put get_put)
  qed (use Cons in \<open>simp add: ok_put\<close>)
qed simp

end

definition sized :: "u8 list \<Rightarrow> bool" where
  "sized mem \<longleftrightarrow> length mem = 8192"

lemma writable_fits:
  assumes "writable w"
  shows "unat (slot_offset (PersistDomainData_domain (snd w)) (fst w)) + length (record_image n (snd w)) \<le> 8192"
    "length (record_image n (snd w)) \<le> slot_size (PersistDomainData_domain (snd w))"
    "(PersistDomainData_domain (snd w), fst w) \<in> set used_slots"
  using assms record_image_storable(1) [of "snd w" n] slot_inside [of "PersistDomainData_domain (snd w)" "fst w"]
  by (auto simp: writable_def slot_of_def)

lemma contents_put:
  assumes "sized mem" "writable w"
  shows "slot_contents (put_record n w mem) (PersistDomainData_domain (snd w)) (fst w)
    = record_image n (snd w) @ drop (length (record_image n (snd w))) (slot_contents mem (PersistDomainData_domain (snd w)) (fst w))"
  unfolding put_record_def using assms writable_fits(1,2) [OF assms(2), of n] writable_fits(3) [OF assms(2)] by (intro slot_contents_overwrite) (simp_all add: sized_def)

lemma contents_put_other:
  assumes "sized mem" "writable w" "(d, s) \<in> set used_slots" "(d, s) \<noteq> slot_of w"
  shows "slot_contents (put_record n w mem) d s = slot_contents mem d s"
  unfolding put_record_def using assms writable_fits(1,2) [OF assms(2), of n] writable_fits(3) [OF assms(2)]
  by (intro slot_contents_other) (simp_all add: sized_def slot_of_def)

interpretation eeprom: record_slots "\<lambda>mem x. stored mem (fst x) (snd x)" put_record sized
proof
  fix mem n and w :: "PersistSlot \<times> PersistDomainData"
  assume m: "sized mem" and w: "writable w"
  show "sized (put_record n w mem)"
    using m writable_fits(1) [OF w, of n] by (simp add: sized_def put_record_def)
  show "stored (put_record n w mem) (fst (slot_of w)) (snd (slot_of w)) = Some \<lparr>rec_sequence = n, rec_data = snd w\<rparr>"
    using record_image_storable(2) [of "snd w" n] w by (simp add: stored_def slot_of_def contents_put [OF m w] writable_def)
  fix x assume "x \<in> set used_slots" "x \<noteq> slot_of w"
  then show "stored (put_record n w mem) (fst x) (snd x) = stored mem (fst x) (snd x)"
    using contents_put_other [OF m w, of "fst x" "snd x" n] by (simp add: stored_def)
qed

section \<open>A commit as a list of writes\<close>

definition marker_write :: "u32 \<Rightarrow> LayoutMarkerStatus \<Rightarrow> PersistSlot \<times> PersistDomainData" where
  "marker_write n status = (parity_slot n, LayoutMarkerData \<lparr>lm_generation = n, lm_status = status, lm_kind = CommitKind\<rparr>)"

definition domain_write :: "u32 \<Rightarrow> PersistDomainData \<times> PersistSlot \<Rightarrow> PersistSlot \<times> PersistDomainData" where
  "domain_write n x = (if slot_count (PersistDomainData_domain (fst x)) = 2 then parity_slot n else snd x, fst x)"

definition chosen :: "PersistDomainMask \<Rightarrow> bool \<Rightarrow> PersistDomainData \<times> PersistSlot \<Rightarrow> bool" where
  "chosen domains double x \<longleftrightarrow> mask_includes domains (PersistDomainData_domain (fst x))
     \<and> (slot_count (PersistDomainData_domain (fst x)) = 2) = double"

definition domain_writes :: "u32 \<Rightarrow> MemoryConfig \<Rightarrow> PersistDomainMask \<Rightarrow> bool \<Rightarrow> (PersistSlot \<times> PersistDomainData) list" where
  "domain_writes n c domains double = map (domain_write n) (filter (chosen domains double) (config_domains c))"

text \<open>A memory some of whose planned writes are done, the next one perhaps in part.\<close>

inductive torn :: "u32 \<Rightarrow> (PersistSlot \<times> PersistDomainData) list \<Rightarrow> u8 list \<Rightarrow> u8 list \<Rightarrow> bool" for n where
  torn_stop: "torn n ws mem mem"
| torn_part: "j \<le> length (record_image n data) \<Longrightarrow> torn n ((slot, data) # ws) mem
    (overwrite mem (unat (slot_offset (PersistDomainData_domain data) slot)) (take j (record_image n data)))"
| torn_more: "torn n ws (put_record n w mem) mem' \<Longrightarrow> torn n (w # ws) mem mem'"

inductive_cases torn_NilE: "torn n [] mem mem'"
inductive_cases torn_ConsE: "torn n (w # ws) mem mem'"

lemma torn_done: "torn n ws mem (fold (put_record n) ws mem)"
  by (induction ws arbitrary: mem) (auto intro: torn.intros)

lemma torn_left: "torn n xs mem mem' \<Longrightarrow> torn n (xs @ ys) mem mem'"
  by (induction rule: torn.induct) (auto intro: torn.intros)

lemma torn_right: "torn n ys (fold (put_record n) xs mem) mem' \<Longrightarrow> torn n (xs @ ys) mem mem'"
  by (induction xs arbitrary: mem) (auto intro: torn.intros)

text \<open>A function of the firmware performs a list of writes.\<close>

definition performs :: "u32 \<Rightarrow> (PersistSlot \<times> PersistDomainData) list \<Rightarrow> Eeprom \<Rightarrow> (MemoryCommitFailure + 'a) \<times> Eeprom \<Rightarrow> bool" where
  "performs n ws dev result \<longleftrightarrow>
     torn n ws (ee_memory dev) (ee_memory (snd result))
     \<and> ((\<exists>x. fst result = Inr x) \<longrightarrow> ee_memory (snd result) = fold (put_record n) ws (ee_memory dev))
     \<and> (ee_bus dev = [] \<and> list_all (comparable \<circ> snd) ws \<longrightarrow> (\<exists>x. fst result = Inr x) \<and> ee_bus (snd result) = [])"

lemma performs_nothing: "performs n [] dev (Inr x, dev)"
  by (simp add: performs_def torn_stop)

lemma performs_write:
  assumes "writable (slot, data)" "sized (ee_memory dev)"
  shows "performs n [(slot, data)] dev
    (case write_eeprom_persist_record n data slot dev of (Inl e, dev) \<Rightarrow> (Inl (f e), dev) | (Inr _, dev) \<Rightarrow> (Inr (), dev))"
proof -
  obtain fs where fs: "encodes data fs" using assms(1) storable_encodes by (auto simp: writable_def)
  have used: "(PersistDomainData_domain data, slot) \<in> set used_slots" using assms(1) by (simp add: writable_def slot_of_def)
  obtain r dev' j where w: "write_eeprom_persist_record n data slot dev = (r, dev')" "j \<le> length (record_image n data)"
    "ee_memory dev' = overwrite (ee_memory dev) (unat (slot_offset (PersistDomainData_domain data) slot)) (take j (record_image n data))"
    "r = Inr () \<longrightarrow> j = length (record_image n data)" "ee_bus dev = [] \<and> comparable data \<longrightarrow> r = Inr () \<and> ee_bus dev' = []"
    using write_record_effect [OF fs used, of dev n] assms(2) unfolding record_image_encodes [OF fs, of n] by (auto simp: sized_def)
  then show ?thesis
    using torn_part [of j n data slot "[]" "ee_memory dev"] by (cases r) (auto simp: performs_def put_record_def)
qed

lemma performs_and_then:
  assumes "performs n xs dev r" "sized (ee_memory dev)" "list_all writable xs"
    and "\<And>d. sized (ee_memory d) \<Longrightarrow> performs n ys d (f d)"
  shows "performs n (xs @ ys) dev (and_then r f)"
proof -
  obtain q d where r: "r = (q, d)" by (cases r)
  show ?thesis
  proof (cases q)
    case (Inl e)
    then show ?thesis using assms(1) r by (auto simp: performs_def and_then_def intro: torn_left)
  next
    case (Inr u)
    have m: "ee_memory d = fold (put_record n) xs (ee_memory dev)" using assms(1) r Inr by (auto simp: performs_def)
    have "sized (ee_memory d)" unfolding m using assms(2,3) by (rule eeprom.ok_put_all)
    note f = assms(4) [OF this]
    have "ee_bus d = []" if "ee_bus dev = []" "list_all (comparable \<circ> snd) xs"
      using assms(1) that r by (simp add: performs_def)
    then show ?thesis
      using f r Inr m torn_right [of n ys xs "ee_memory dev"] by (auto simp: performs_def and_then_def)
  qed
qed

lemma persist_loop_performs:
  assumes "list_all (\<lambda>x. writable (domain_write n x)) xs" "sized (ee_memory dev)"
  shows "performs n (map (domain_write n) (filter (chosen domains double) xs)) dev (persist_loop xs n domains double phase dev)"
  using assms
proof (induction xs arbitrary: dev)
  case (Cons x xs)
  obtain data single where x: "x = (data, single)" by (cases x)
  show ?case
  proof (cases "chosen domains double x")
    case True
    let ?d = "PersistDomainData_domain data"
    let ?slot = "if slot_count ?d = 2 then parity_slot n else single"
    let ?f = "\<lambda>e. \<lparr>mf_error = e, mf_phase = phase, mf_attempt = 1, mf_sequence = n, mf_domain = ?d, mf_slot = ?slot\<rparr>"
    let ?r = "case write_eeprom_persist_record n data ?slot dev of (Inl e, dev) \<Rightarrow> (Inl (?f e), dev) | (Inr _, dev) \<Rightarrow> (Inr (), dev)"
    have w: "domain_write n x = (?slot, data)" by (simp add: domain_write_def x)
    have ok: "writable (?slot, data)" using Cons.prems(1) w by simp
    have "performs n ([(?slot, data)] @ map (domain_write n) (filter (chosen domains double) xs)) dev
        (and_then ?r (persist_loop xs n domains double phase))"
      using Cons ok by (intro performs_and_then performs_write) simp_all
    moreover have "and_then ?r (persist_loop xs n domains double phase) = persist_loop (x # xs) n domains double phase dev"
      using True by (auto simp: x chosen_def and_then_def Let_def split: prod.splits sum.splits)
    ultimately show ?thesis using True w by simp
  next
    case False
    then show ?thesis using Cons by (auto simp: x chosen_def Let_def)
  qed
qed (simp add: performs_nothing)

definition config_storable :: "MemoryConfig \<Rightarrow> bool" where
  "config_storable c \<longleftrightarrow> list_all (\<lambda>x. data_storable (fst x)) (config_domains c)"

lemma parity_slot_cases: "parity_slot n = SlotA \<or> parity_slot n = SlotB"
  by (simp add: parity_slot_def)

lemma config_domain_slots:
  assumes "x \<in> set (config_domains c)"
  shows "slot_of (domain_write n x) \<in> set used_slots" "PersistDomainData_domain (fst x) \<in> set FPR2_SNAPSHOT_DOMAINS"
proof -
  have "(PersistDomainData_domain (fst x), snd x) \<in> {(SafetyCalibrationDomain, SlotA), (ThermalPolicyDomain, SlotA),
      (UserPreferencesDomain, SlotSingle), (NetworkAndPairingDomain, SlotSingle), (ThermalPlantDomain, SlotSingle)}"
    using assms unfolding config_domains_def by force
  then show "slot_of (domain_write n x) \<in> set used_slots" "PersistDomainData_domain (fst x) \<in> set FPR2_SNAPSHOT_DOMAINS"
    using parity_slot_cases [of n] by (auto simp: slot_of_def domain_write_def used_slots_def FPR2_SNAPSHOT_DOMAINS_def)
qed

lemma domain_write_writable:
  assumes "config_storable c" "x \<in> set (config_domains c)"
  shows "writable (domain_write n x)"
proof -
  have "data_storable (fst x)" using assms unfolding config_storable_def list_all_iff by blast
  then show ?thesis using config_domain_slots(1) [OF assms(2)] by (simp add: writable_def domain_write_def)
qed

lemma marker_write_writable: "writable (marker_write n status)"
  by (simp add: writable_def marker_write_def slot_of_def used_slots_def parity_slot_def)

definition commit_plan :: "u32 \<Rightarrow> MemoryConfig \<Rightarrow> PersistDomainMask \<Rightarrow> (PersistSlot \<times> PersistDomainData) list" where
  "commit_plan n c domains =
     [marker_write n MarkerPrepared] @ domain_writes n c domains True @ domain_writes n c domains False @ [marker_write n MarkerActive]"

lemma domain_writes_writable: "config_storable c \<Longrightarrow> list_all writable (domain_writes n c domains double)"
  by (auto simp: domain_writes_def list_all_iff domain_write_writable)

lemma commit_plan_writable: "config_storable c \<Longrightarrow> list_all writable (commit_plan n c domains)"
  by (simp add: commit_plan_def marker_write_writable domain_writes_writable)

lemma performs_marker:
  assumes "sized (ee_memory dev)"
  shows "performs n [marker_write n status] dev (write_layout_marker_record n status CommitKind (parity_slot n) phase dev)"
proof -
  have w: "writable (parity_slot n, LayoutMarkerData \<lparr>lm_generation = n, lm_status = status, lm_kind = CommitKind\<rparr>)"
    using marker_write_writable [of n status] by (simp add: marker_write_def)
  show ?thesis unfolding write_layout_marker_record_def marker_write_def using performs_write [OF w assms] by simp
qed

lemma performs_domains:
  assumes "config_storable c" "sized (ee_memory dev)"
  shows "performs n (domain_writes n c domains double) dev (persist_memory_domains n c domains double phase dev)"
  unfolding persist_memory_domains_def domain_writes_def
  using assms domain_write_writable by (intro persist_loop_performs) (auto simp: list_all_iff)

text \<open>The commit performs its plan, and a success returns the new sequence number.\<close>

lemma commit_performs:
  fixes g :: u32
  assumes "domains \<noteq> 0" "config_storable (sanitize_config c)" "sized (ee_memory dev)"
  defines "n \<equiv> sat_add g 1"
  shows "performs n (commit_plan n (sanitize_config c) domains) dev (commit_memory_config_now g c domains dev)"
proof -
  have "performs n ([marker_write n MarkerActive] @ []) d
      (and_then (write_layout_marker_record n MarkerActive CommitKind (parity_slot n) ''active'' d) (\<lambda>d. (Inr n, d)))"
    if "sized (ee_memory d)" for d
    using that by (intro performs_and_then performs_marker performs_nothing) (simp_all add: marker_write_writable)
  then show ?thesis
    unfolding commit_memory_config_now_def mask_is_empty_def commit_plan_def Let_def n_def [symmetric] if_not_P [OF assms(1)]
    using assms(2,3)
    by (intro performs_and_then performs_marker performs_domains) (simp_all add: marker_write_writable domain_writes_writable)
qed

lemma commit_sequence: "domains \<noteq> 0 \<Longrightarrow> fst (commit_memory_config_now g c domains dev) = Inr x \<Longrightarrow> x = sat_add g 1"
  by (auto simp: commit_memory_config_now_def mask_is_empty_def Let_def and_then_def split: prod.splits sum.splits)

section \<open>Slots during a commit\<close>

lemma torn_append_cases: "torn n (xs @ ys) mem mem' \<Longrightarrow> torn n xs mem mem' \<or> torn n ys (fold (put_record n) xs mem) mem'"
proof (induction xs arbitrary: mem)
  case (Cons w xs)
  from Cons.prems show ?case
    by (auto elim!: torn_ConsE dest: Cons.IH intro: torn.intros)
qed simp

definition partial_write :: "u32 \<Rightarrow> nat \<Rightarrow> PersistSlot \<times> PersistDomainData \<Rightarrow> u8 list \<Rightarrow> u8 list" where
  "partial_write n j w mem = overwrite mem (unat (slot_offset (PersistDomainData_domain (snd w)) (fst w))) (take j (record_image n (snd w)))"

lemma partial_write_contents:
  assumes "sized mem" "writable w" "j \<le> length (record_image n (snd w))"
  shows "slot_contents (partial_write n j w mem) (PersistDomainData_domain (snd w)) (fst w)
      = take j (record_image n (snd w)) @ drop j (slot_contents mem (PersistDomainData_domain (snd w)) (fst w))"
    "(d, s) \<in> set used_slots \<Longrightarrow> (d, s) \<noteq> slot_of w \<Longrightarrow> slot_contents (partial_write n j w mem) d s = slot_contents mem d s"
    "sized (partial_write n j w mem)"
proof -
  note f = writable_fits(1,2) [OF assms(2), of n] writable_fits(3) [OF assms(2)]
  show "slot_contents (partial_write n j w mem) (PersistDomainData_domain (snd w)) (fst w)
      = take j (record_image n (snd w)) @ drop j (slot_contents mem (PersistDomainData_domain (snd w)) (fst w))"
    using slot_contents_overwrite [OF f(3), of mem "take j (record_image n (snd w))"] assms f(2)
    by (simp add: partial_write_def sized_def)
  show "slot_contents (partial_write n j w mem) d s = slot_contents mem d s" if "(d, s) \<in> set used_slots" "(d, s) \<noteq> slot_of w"
    using slot_contents_other [OF f(3) that(1), of mem "take j (record_image n (snd w))"] that(2) assms f(2)
    by (simp add: partial_write_def sized_def slot_of_def)
  show "sized (partial_write n j w mem)" using assms f(1) by (simp add: partial_write_def sized_def)
qed

text \<open>What a slot may hold after some of the writes.\<close>

definition slot_after :: "u32 \<Rightarrow> u8 list \<Rightarrow> u8 list \<Rightarrow> PersistDomain \<Rightarrow> PersistSlot \<Rightarrow> bool" where
  "slot_after n mem mem' d s \<longleftrightarrow> stored mem' d s = stored mem d s \<or> stored mem' d s = None
     \<or> (\<exists>r. stored mem' d s = Some r \<and> rec_sequence r = n)"

lemma partial_write_after:
  assumes "sized mem" "writable w" "j \<le> length (record_image n (snd w))"
    and "slot_clean (PersistDomainData_domain (snd w)) (slot_contents mem (PersistDomainData_domain (snd w)) (fst w))"
  shows "slot_after n mem (partial_write n j w mem) (PersistDomainData_domain (snd w)) (fst w)"
proof -
  obtain p where p: "record_image n (snd w) = record_bytes n (PersistDomainData_domain (snd w)) p"
    using record_image_storable(3) [of "snd w"] assms(2) by (auto simp: writable_def)
  have len: "length (slot_contents mem (PersistDomainData_domain (snd w)) (fst w)) = slot_size (PersistDomainData_domain (snd w))"
    using assms(1,2) by (intro length_slot_contents) (auto simp: sized_def writable_def slot_of_def)
  show ?thesis
    unfolding slot_after_def stored_def partial_write_contents(1) [OF assms(1-3)] p
    using torn_contents [OF assms(4) len, of j p n] assms(3) p by auto
qed

lemma torn_slots:
  assumes "torn n ws mem mem'" "sized mem" "list_all writable ws" "distinct (map slot_of ws)"
  shows "sized mem' \<and> (\<forall>(d, s) \<in> set used_slots.
    ((d, s) \<notin> set (map slot_of ws) \<longrightarrow> slot_contents mem' d s = slot_contents mem d s)
    \<and> ((d, s) \<in> set (map slot_of ws) \<longrightarrow> slot_clean d (slot_contents mem d s) \<longrightarrow> slot_after n mem mem' d s))"
  using assms
proof (induction rule: torn.induct)
  case (torn_stop ws mem)
  then show ?case by (auto simp: slot_after_def)
next
  case (torn_part j data slot ws mem)
  let ?w = "(slot, data)" and ?m = "partial_write n j (slot, data) mem"
  have w: "sized mem" "writable ?w" "j \<le> length (record_image n (snd ?w))" using torn_part by simp_all
  note c = partial_write_contents [OF w] and after = partial_write_after [OF w]
  have eq: "overwrite mem (unat (slot_offset (PersistDomainData_domain data) slot)) (take j (record_image n data)) = ?m"
    by (simp add: partial_write_def)
  have "((d, s) \<notin> set (map slot_of (?w # ws)) \<longrightarrow> slot_contents ?m d s = slot_contents mem d s)
      \<and> (slot_clean d (slot_contents mem d s) \<longrightarrow> slot_after n mem ?m d s)" if "(d, s) \<in> set used_slots" for d s
  proof (cases "(d, s) = slot_of ?w")
    case True
    then show ?thesis using after by (simp add: slot_of_def)
  next
    case False
    then show ?thesis using c(2) [OF that] by (simp add: slot_after_def stored_def)
  qed
  then show ?case unfolding eq using c(3) by blast
next
  case (torn_more ws w mem mem')
  have w: "sized mem" "writable w" using torn_more.prems by simp_all
  have ih: "sized mem' \<and> (\<forall>(d, s) \<in> set used_slots.
    ((d, s) \<notin> set (map slot_of ws) \<longrightarrow> slot_contents mem' d s = slot_contents (put_record n w mem) d s)
    \<and> ((d, s) \<in> set (map slot_of ws) \<longrightarrow> slot_clean d (slot_contents (put_record n w mem) d s) \<longrightarrow> slot_after n (put_record n w mem) mem' d s))"
    using torn_more.prems eeprom.ok_put [OF w, of n] by (intro torn_more.IH) simp_all
  show ?case
  proof (intro conjI ballI, goal_cases)
    case 1
    then show ?case using ih by blast
  next
    case (2 x)
    obtain d s where x: "x = (d, s)" by (cases x)
    note ihx = bspec [OF conjunct2 [OF ih] 2 [unfolded x], unfolded prod.case]
    show ?case
    proof (cases "(d, s) = slot_of w")
      case True
      then have "(d, s) \<notin> set (map slot_of ws)" using torn_more.prems(3) by simp
      then have "slot_contents mem' d s = slot_contents (put_record n w mem) d s" using ihx by blast
      then have "stored mem' d s = Some \<lparr>rec_sequence = n, rec_data = snd w\<rparr>"
        using eeprom.get_put [OF w, of n] True [symmetric] by (simp add: stored_def)
      then have "slot_after n mem mem' d s" by (simp add: slot_after_def)
      then show ?thesis unfolding x prod.case using True by auto
    next
      case False
      then have same: "slot_contents (put_record n w mem) d s = slot_contents mem d s" using contents_put_other [OF w] 2 x by blast
      have "slot_after n (put_record n w mem) mem' d s = slot_after n mem mem' d s" by (simp add: slot_after_def stored_def same)
      then show ?thesis using ihx x same False by simp
    qed
  qed
qed

section \<open>The writes of a commit\<close>

lemma parity_slot_Suc: "parity_slot (n + 1) \<noteq> parity_slot n"
  by (simp add: parity_slot_def mod_2_eq_odd)

lemma parity_slots: "{parity_slot n, parity_slot (n + 1)} = {SlotA, SlotB}"
  using parity_slot_cases [of n] parity_slot_cases [of "n + 1"] parity_slot_Suc [of n] by auto

fun config_data :: "MemoryConfig \<Rightarrow> PersistDomain \<Rightarrow> PersistDomainData" where
  "config_data c SafetyCalibrationDomain = SafetyCalibrationData (SafetyCalibration_from_config c)"
| "config_data c ThermalPolicyDomain = ThermalPolicyData (ThermalPolicy_from_config c)"
| "config_data c UserPreferencesDomain = UserPreferencesData (UserPreferences_from_config c)"
| "config_data c NetworkAndPairingDomain = NetworkAndPairingData (NetworkAndPairing_from_config c)"
| "config_data c ThermalPlantDomain = ThermalPlantData (ThermalPlantPersistence_from_config c)"
| "config_data c LayoutMarkerDomain = LayoutMarkerData \<lparr>lm_generation = 0, lm_status = MarkerPrepared, lm_kind = CommitKind\<rparr>"

definition commit_slot :: "u32 \<Rightarrow> PersistDomain \<Rightarrow> PersistSlot" where
  "commit_slot n d = (if slot_count d = 2 then parity_slot n else SlotSingle)"

definition data_writes :: "u32 \<Rightarrow> MemoryConfig \<Rightarrow> PersistDomainMask \<Rightarrow> (PersistSlot \<times> PersistDomainData) list" where
  "data_writes n c domains = domain_writes n c domains True @ domain_writes n c domains False"

lemma config_domains_data:
  "domain_write n ` set (config_domains c) = (\<lambda>d. (commit_slot n d, config_data c d)) ` set FPR2_SNAPSHOT_DOMAINS"
  by (simp add: config_domains_def FPR2_SNAPSHOT_DOMAINS_def domain_write_def commit_slot_def)

lemma domain_config_data [simp]: "PersistDomainData_domain (config_data c d) = d"
  by (cases d) simp_all

lemma set_data_writes:
  "set (data_writes n c domains) =
    (\<lambda>d. (commit_slot n d, config_data c d)) ` {d \<in> set FPR2_SNAPSHOT_DOMAINS. mask_includes domains d}"
proof -
  have snd: "snd (domain_write n x) = fst x" for x by (simp add: domain_write_def)
  have "set (data_writes n c domains) = {w \<in> domain_write n ` set (config_domains c). mask_includes domains (PersistDomainData_domain (snd w))}"
    by (auto simp: data_writes_def domain_writes_def chosen_def snd)
  then show ?thesis unfolding config_domains_data by auto
qed

lemma slots_data_writes:
  "set (map slot_of (data_writes n c domains)) = (\<lambda>d. (d, commit_slot n d)) ` {d \<in> set FPR2_SNAPSHOT_DOMAINS. mask_includes domains d}"
  by (auto simp: set_data_writes slot_of_def image_image simp del: image_Collect)

lemma distinct_config_domains: "distinct (map (PersistDomainData_domain \<circ> fst) (config_domains c))"
  by (simp add: config_domains_def)

lemma distinct_data_writes: "distinct (map slot_of (data_writes n c domains))"
proof -
  have inj: "inj_on (slot_of \<circ> domain_write n) (set (config_domains c))" and d: "distinct (config_domains c)"
    using distinct_config_domains [of c] by (auto simp: distinct_map inj_on_def slot_of_def domain_write_def)
  let ?xs = "filter (chosen domains True) (config_domains c) @ filter (chosen domains False) (config_domains c)"
  have "distinct ?xs" using d by (auto simp: chosen_def)
  moreover have "inj_on (slot_of \<circ> domain_write n) (set ?xs)" by (rule inj_on_subset [OF inj]) auto
  ultimately have "distinct (map (slot_of \<circ> domain_write n) ?xs)" unfolding distinct_map by blast
  then show ?thesis by (simp only: data_writes_def domain_writes_def map_append map_map)
qed

lemma data_writes_writable: "config_storable c \<Longrightarrow> list_all writable (data_writes n c domains)"
  by (simp add: data_writes_def domain_writes_writable)

lemma commit_plan_split: "commit_plan n c domains = marker_write n MarkerPrepared # data_writes n c domains @ [marker_write n MarkerActive]"
  by (simp add: commit_plan_def data_writes_def)

lemma commit_slot_used: "d \<in> set FPR2_SNAPSHOT_DOMAINS \<Longrightarrow> (d, commit_slot n d) \<in> set used_slots"
  using parity_slot_cases [of n] by (auto simp: FPR2_SNAPSHOT_DOMAINS_def commit_slot_def used_slots_def)

section \<open>Snapshots across a commit\<close>

definition data_slots :: "(PersistDomain \<times> PersistSlot) set" where
  "data_slots = {x \<in> set used_slots. fst x \<noteq> LayoutMarkerDomain}"

lemma newest_absorb:
  "newest x y = x \<Longrightarrow> y' = y \<or> y' = None \<Longrightarrow> newest x y' = x"
  "newest y x = x \<Longrightarrow> y' = y \<or> y' = None \<Longrightarrow> newest y' x = x"
  by (auto simp: newest_def split: option.splits if_splits)

lemma live_slots:
  assumes "slot_count d = 2" "d \<noteq> LayoutMarkerDomain"
  shows "live mem g d = newest (record_at mem g d SlotA) (record_at mem g d SlotB)"
  using assms by (cases d) simp_all

lemma live_single:
  assumes "slot_count d \<noteq> 2"
  shows "live mem g d = record_at mem g d SlotSingle"
  using assms by (cases d) simp_all

text \<open>
  The slots of a commit in progress, seen at the old generation: a domain whose current record is in
  the other slot keeps it, a single-slot domain keeps its record or loses it.
\<close>

lemma live_old:
  assumes after: "\<And>x. x \<in> data_slots \<Longrightarrow> x \<notin> W \<Longrightarrow> stored mem' (fst x) (snd x) = stored mem (fst x) (snd x)"
    "\<And>x. x \<in> data_slots \<Longrightarrow> slot_after n mem mem' (fst x) (snd x)"
    and W: "W \<subseteq> (\<lambda>d. (d, commit_slot n d)) ` D" and gn: "g < n" and d: "d \<in> set FPR2_SNAPSHOT_DOMAINS"
    and alternate: "slot_count d = 2 \<Longrightarrow> d \<in> D \<Longrightarrow> live mem g d = record_at mem g d (parity_slot (n + 1))"
  shows "live mem' g d = live mem g d \<or> slot_count d \<noteq> 2 \<and> d \<in> D \<and> live mem' g d = None"
proof -
  have at: "record_at mem' g d s = record_at mem g d s \<or> record_at mem' g d s = None" if "(d, s) \<in> data_slots" for s
    using after(2) [OF that] gn by (auto simp: slot_after_def record_at_def split: if_splits)
  have same: "record_at mem' g d s = record_at mem g d s" if "(d, s) \<in> data_slots" "(d, s) \<notin> W" for s
    using after(1) [OF that] by (simp add: record_at_def)
  show ?thesis
  proof (cases "slot_count d = 2")
    case True
    then have slots: "(d, SlotA) \<in> data_slots" "(d, SlotB) \<in> data_slots" and m: "d \<noteq> LayoutMarkerDomain"
      using d by (auto simp: data_slots_def used_slots_def FPR2_SNAPSHOT_DOMAINS_def)
    show ?thesis
    proof (cases "d \<in> D")
      case False
      then have "(d, s) \<notin> W" for s using W by auto
      then show ?thesis using slots same by (simp add: live_slots [OF True m])
    next
      case inD: True
      have keep: "record_at mem' g d (parity_slot (n + 1)) = record_at mem g d (parity_slot (n + 1))"
        using W parity_slot_Suc [of n] parity_slot_cases [of "n + 1"] slots True by (intro same) (auto simp: commit_slot_def)
      note alt = alternate [OF True inD, unfolded live_slots [OF True m]]
      have "newest (record_at mem' g d SlotA) (record_at mem' g d SlotB) = newest (record_at mem g d SlotA) (record_at mem g d SlotB)"
        using alt keep at [OF slots(1)] at [OF slots(2)] newest_absorb parity_slot_cases [of "n + 1"] by metis
      then show ?thesis by (simp add: live_slots [OF True m])
    qed
  next
    case False
    then have slot: "(d, SlotSingle) \<in> data_slots" using d by (auto simp: data_slots_def used_slots_def FPR2_SNAPSHOT_DOMAINS_def)
    show ?thesis using at [OF slot] same [OF slot] W False by (auto simp: live_single [OF False])
  qed
qed

end
