(* ===== verification/Eeprom_Theorems.thy ===== *)
theory Eeprom_Theorems
  imports Eeprom_Safety
begin

text \<open>
  What a commit leaves behind for the next boot. A store between commits carries an active marker, and every slot is
  erased or holds a record no newer than it. A commit on a working bus makes the next boot restore
  the new configuration; a commit cut off anywhere makes it restore the old configuration or the new one,
  provided no single-slot domain was written and no double-slot domain had been skipped. The last
  section shows what happens otherwise.
\<close>

section \<open>A store between two commits\<close>

abbreviation marker_slot :: "u8 list \<Rightarrow> PersistSlot \<Rightarrow> u8 list" where
  "marker_slot mem s \<equiv> slot_contents mem LayoutMarkerDomain s"

text \<open>The active marker of a generation; before the first commit there is none.\<close>

definition active_marker :: "u8 list \<Rightarrow> u32 \<Rightarrow> bool" where
  "active_marker mem g \<longleftrightarrow> (\<exists>k. take 35 (marker_slot mem (parity_slot g))
     = marker_image \<lparr>lm_generation = g, lm_status = MarkerActive, lm_kind = k\<rparr>)"

definition store_ready :: "u8 list \<Rightarrow> u32 \<Rightarrow> bool" where
  "store_ready mem g \<longleftrightarrow> sized mem
     \<and> (active_marker mem g \<or> g = 0 \<and> marker_slot mem (parity_slot g) = replicate 128 0xff)
     \<and> marker_clean (marker_slot mem (parity_slot (g + 1)))
     \<and> (\<forall>m. take 35 (marker_slot mem (parity_slot (g + 1))) = marker_image m \<longrightarrow> lm_generation m \<le> g)
     \<and> (\<forall>x\<in>data_slots. slot_clean (fst x) (slot_contents mem (fst x) (snd x))
          \<and> (\<forall>r. stored mem (fst x) (snd x) = Some r \<longrightarrow> rec_sequence r \<le> g))"

lemma parity_slot_twice [simp]: "parity_slot (g + 1 + 1) = parity_slot g" "parity_slot (2 + g) = parity_slot g"
  by (simp_all add: parity_slot_def mod_2_eq_odd)

lemma marker_slots_used: "(LayoutMarkerDomain, parity_slot n) \<in> set used_slots"
  using parity_slot_cases [of n] by (auto simp: used_slots_def)

lemma data_slots_used: "x \<in> data_slots \<Longrightarrow> x \<in> set used_slots \<and> fst x \<noteq> LayoutMarkerDomain"
  by (simp add: data_slots_def)

lemma latest_commute: "latest x y = latest y x"
  by (cases x; cases y) (auto simp: max.commute)

lemma active_generation_parity:
  "active_generation mem = latest (active_in (marker_slot mem (parity_slot g))) (active_in (marker_slot mem (parity_slot (g + 1))))"
  using parity_slot_cases [of g] parity_slot_cases [of "g + 1"] parity_slot_Suc [of g]
  by (auto simp: active_generation_def latest_commute)

lemma active_marker_in: "active_marker mem g \<Longrightarrow> active_in (marker_slot mem (parity_slot g)) = Some g"
  by (auto simp: active_marker_def active_in_marker)

lemma erased_undecodable: "4 \<le> k \<Longrightarrow> result_ok (decode_persist_record (replicate k 0xff)) = None"
proof -
  assume "4 \<le> k"
  moreover have "replicate 4 (0xff :: u8) = [0xff, 0xff, 0xff, 0xff]" by (simp add: numeral_eq_Suc)
  ultimately have "take 4 (replicate k (0xff :: u8)) \<noteq> FPR2_MAGIC" by (simp add: min_absorb1)
  then show ?thesis using decode_OkD(4) [of "replicate k 0xff"] by (auto simp: result_ok_None)
qed

lemma active_in_erased: "active_in (replicate 128 0xff) = None"
  by (simp add: active_in_def erased_undecodable)

lemma marker_not_erased: "take 35 c = marker_image m \<Longrightarrow> c \<noteq> replicate 128 0xff"
  using decode_marker_image [of c m] erased_undecodable [of 128] by auto

lemma ready_other_marker:
  assumes "store_ready mem g" "active_in (marker_slot mem (parity_slot (g + 1))) = Some a"
  shows "a \<le> g"
proof -
  have c: "marker_clean (marker_slot mem (parity_slot (g + 1)))" using assms(1) by (simp add: store_ready_def)
  have "marker_slot mem (parity_slot (g + 1)) \<noteq> replicate 128 0xff" using assms(2) active_in_erased by auto
  then obtain m where m: "take 35 (marker_slot mem (parity_slot (g + 1))) = marker_image m" using c by (auto simp: marker_clean_def)
  then have "lm_generation m \<le> g" using assms(1) by (simp add: store_ready_def)
  then show ?thesis using assms(2) active_in_marker [OF m] by (auto split: if_splits)
qed

lemma active_generation_old:
  assumes "active_in (marker_slot mem (parity_slot g)) = Some g"
    and "\<And>a. active_in (marker_slot mem (parity_slot (g + 1))) = Some a \<Longrightarrow> a \<le> g"
  shows "active_generation mem = Some g"
  using assms(2) unfolding active_generation_parity [of mem g] assms(1)
  by (cases "active_in (marker_slot mem (parity_slot (g + 1)))") (auto simp: max_def)

lemma active_generation_new:
  assumes "active_in (marker_slot mem (parity_slot (g + 1))) = Some (g + 1)" "g < g + 1"
    and "\<And>a. active_in (marker_slot mem (parity_slot g)) = Some a \<Longrightarrow> a \<le> g"
  shows "active_generation mem = Some (g + 1)"
  using assms(2,3) unfolding active_generation_parity [of mem g] assms(1)
  by (cases "active_in (marker_slot mem (parity_slot g))") (force simp: max_def)+

lemma ready_own_marker:
  assumes "store_ready mem g" "active_in (marker_slot mem (parity_slot g)) = Some a"
  shows "a \<le> g"
  using assms active_marker_in [of mem g] active_in_erased by (auto simp: store_ready_def)

section \<open>A completed commit\<close>

lemma contents_unwritten:
  assumes "sized mem" "list_all writable ws" "(d, s) \<in> set used_slots" "(d, s) \<notin> set (map slot_of ws)"
  shows "slot_contents (fold (put_record n) ws mem) d s = slot_contents mem d s"
  using assms
proof (induction ws arbitrary: mem)
  case (Cons w ws)
  then show ?case using contents_put_other [of mem w d s n] eeprom.ok_put [of mem w n] by auto
qed simp

lemma clean_written:
  assumes "sized mem" "writable w"
  shows "slot_clean (PersistDomainData_domain (snd w)) (slot_contents (put_record n w mem) (PersistDomainData_domain (snd w)) (fst w))"
proof -
  have s: "data_storable (snd w)" using assms(2) by (simp add: writable_def)
  obtain p where p: "record_image n (snd w) = record_bytes n (PersistDomainData_domain (snd w)) p"
    using record_image_storable(3) [OF s] by blast
  have "20 \<le> length (record_image n (snd w))" unfolding p by (simp add: record_bytes_def Let_def)
  then have "take 8 (record_image n (snd w) @ rest) = take 8 (record_header 0 (PersistDomainData_domain (snd w)) 0)" for rest
    using take_8_record_bytes [of n "PersistDomainData_domain (snd w)" p] by (simp add: p)
  then show ?thesis unfolding contents_put [OF assms] slot_clean_def record_image_storable(2) [OF s] by simp
qed

lemma clean_after:
  assumes "sized mem" "list_all writable ws" "(d, s) \<in> set used_slots" "slot_clean d (slot_contents mem d s)"
  shows "slot_clean d (slot_contents (fold (put_record n) ws mem) d s)"
  using assms
proof (induction ws arbitrary: mem)
  case (Cons w ws)
  have "slot_clean d (slot_contents (put_record n w mem) d s)"
    using Cons.prems clean_written [of mem w n] contents_put_other [of mem w d s n] by (cases "(d, s) = slot_of w") (auto simp: slot_of_def)
  then show ?case using Cons eeprom.ok_put [of mem w n] by simp
qed simp

lemma record_image_marker:
  "record_image n (LayoutMarkerData \<lparr>lm_generation = n, lm_status = status, lm_kind = k\<rparr>)
    = marker_image \<lparr>lm_generation = n, lm_status = status, lm_kind = k\<rparr>"
  using record_image_encodes [OF encodes_marker [of "\<lparr>lm_generation = n, lm_status = status, lm_kind = k\<rparr>"], of n]
  by (simp add: marker_image_def)

lemma marker_put:
  assumes "sized mem"
  shows "take 35 (marker_slot (put_record n (marker_write n status) mem) (parity_slot n))
    = marker_image \<lparr>lm_generation = n, lm_status = status, lm_kind = CommitKind\<rparr>"
  using contents_put [OF assms marker_write_writable [of n status], of n]
  by (simp add: marker_write_def record_image_marker marker_image_bytes(1))

lemma marker_slot_of: "slot_of (marker_write n status) = (LayoutMarkerDomain, parity_slot n)"
  by (simp add: slot_of_def marker_write_def)

text \<open>The records of a store after the data of a commit is written.\<close>

definition data_committed :: "u32 \<Rightarrow> MemoryConfig \<Rightarrow> PersistDomainMask \<Rightarrow> u8 list \<Rightarrow> u8 list \<Rightarrow> bool" where
  "data_committed n c domains mem mem' \<longleftrightarrow> (\<forall>x\<in>data_slots. stored mem' (fst x) (snd x) =
     (if mask_includes domains (fst x) \<and> snd x = commit_slot n (fst x)
      then Some \<lparr>rec_sequence = n, rec_data = config_data c (fst x)\<rparr> else stored mem (fst x) (snd x)))"

lemma snapshot_domains: "x \<in> data_slots \<Longrightarrow> fst x \<in> set FPR2_SNAPSHOT_DOMAINS"
  by (auto simp: data_slots_def used_slots_def FPR2_SNAPSHOT_DOMAINS_def)

lemma slots_committed: "x \<in> data_slots \<Longrightarrow>
    x \<in> set (map slot_of (data_writes n c domains)) \<longleftrightarrow> mask_includes domains (fst x) \<and> snd x = commit_slot n (fst x)"
  using snapshot_domains [of x] unfolding slots_data_writes by (cases x) auto

lemma data_writes_committed:
  assumes "sized mem" "config_storable c"
  shows "data_committed n c domains mem (fold (put_record n) (data_writes n c domains) mem)"
  unfolding data_committed_def
proof
  fix x assume x: "x \<in> data_slots"
  note w = data_writes_writable [OF assms(2), of n domains]
  show "stored (fold (put_record n) (data_writes n c domains) mem) (fst x) (snd x) =
     (if mask_includes domains (fst x) \<and> snd x = commit_slot n (fst x)
      then Some \<lparr>rec_sequence = n, rec_data = config_data c (fst x)\<rparr> else stored mem (fst x) (snd x))"
  proof (cases "mask_includes domains (fst x) \<and> snd x = commit_slot n (fst x)")
    case True
    have "(commit_slot n (fst x), config_data c (fst x)) \<in> set (data_writes n c domains)"
      using True snapshot_domains [OF x] by (auto simp: set_data_writes)
    then show ?thesis
      using eeprom.get_put_all [OF assms(1) w distinct_data_writes, of "(commit_slot n (fst x), config_data c (fst x))" n] True
      by (simp add: slot_of_def)
  next
    case False
    then show ?thesis
      using eeprom.get_put_all_other [OF assms(1) w, of x n] slots_committed [OF x] data_slots_used [OF x] by auto
  qed
qed

text \<open>The records a commit publishes, and the configuration they make.\<close>

definition committed_record :: "u8 list \<Rightarrow> u32 \<Rightarrow> MemoryConfig \<Rightarrow> PersistDomainMask \<Rightarrow> PersistDomain \<Rightarrow> PersistRecord option" where
  "committed_record mem g c domains d =
     (if mask_includes domains d then Some \<lparr>rec_sequence = g + 1, rec_data = config_data (sanitize_config c) d\<rparr> else live mem g d)"

definition committed :: "u8 list \<Rightarrow> u32 \<Rightarrow> MemoryConfig \<Rightarrow> PersistDomainMask \<Rightarrow> MemoryConfig option" where
  "committed mem g c domains =
     fpr2_snapshot_config
       [committed_record mem g c domains SafetyCalibrationDomain, committed_record mem g c domains ThermalPolicyDomain,
        committed_record mem g c domains UserPreferencesDomain, committed_record mem g c domains NetworkAndPairingDomain,
        None, committed_record mem g c domains ThermalPlantDomain] (g + 1) False"

lemma newest_new:
  assumes "\<And>r. x = Some r \<Longrightarrow> rec_sequence r < rec_sequence new"
  shows "newest (Some new) x = Some new" "newest x (Some new) = Some new"
  using assms by (cases x; force simp: newest_def)+

lemma live_committed:
  assumes "data_committed (g + 1) (sanitize_config c) domains mem mem'" "g < g + 1"
    and old: "\<And>x r. x \<in> data_slots \<Longrightarrow> stored mem (fst x) (snd x) = Some r \<Longrightarrow> rec_sequence r \<le> g"
    and d: "d \<in> set FPR2_SNAPSHOT_DOMAINS"
  shows "live mem' (g + 1) d = committed_record mem g c domains d"
proof -
  let ?n = "g + 1" and ?new = "\<lparr>rec_sequence = g + 1, rec_data = config_data (sanitize_config c) d\<rparr>"
  have new: "record_at mem' ?n d s = Some ?new" if "(d, s) \<in> data_slots" "mask_includes domains d" "s = commit_slot ?n d" for s
    using assms(1) that by (auto simp: data_committed_def record_at_def)
  have same: "record_at mem' ?n d s = record_at mem g d s" if "(d, s) \<in> data_slots" "\<not> (mask_includes domains d \<and> s = commit_slot ?n d)" for s
  proof -
    have "stored mem' d s = stored mem d s" using assms(1) that by (auto simp: data_committed_def)
    then show ?thesis using old [OF that(1)] assms(2) by (cases "stored mem d s") (auto simp: record_at_def)
  qed
  have below: "rec_sequence r < rec_sequence ?new" if "record_at mem g d s = Some r" for s r
    using that assms(2) by (auto simp: record_at_def)
  show ?thesis
  proof (cases "slot_count d = 2")
    case True
    then have slots: "(d, SlotA) \<in> data_slots" "(d, SlotB) \<in> data_slots" and m: "d \<noteq> LayoutMarkerDomain"
      using d by (auto simp: data_slots_def used_slots_def FPR2_SNAPSHOT_DOMAINS_def)
    have cs: "commit_slot ?n d = SlotA \<or> commit_slot ?n d = SlotB" using parity_slot_cases by (simp add: commit_slot_def True)
    show ?thesis
      using new [OF slots(1)] new [OF slots(2)] same [OF slots(1)] same [OF slots(2)] cs
        newest_new [OF below [of SlotA]] newest_new [OF below [of SlotB]]
      unfolding live_slots [OF True m] committed_record_def
      by (cases "mask_includes domains d"; cases "commit_slot ?n d = SlotA") auto
  next
    case False
    then have slot: "(d, SlotSingle) \<in> data_slots" and cs: "commit_slot ?n d = SlotSingle"
      using d by (auto simp: data_slots_def used_slots_def FPR2_SNAPSHOT_DOMAINS_def commit_slot_def)
    show ?thesis using new [OF slot] same [OF slot] cs by (simp add: live_single [OF False] committed_record_def)
  qed
qed

lemma snapshot_committed:
  assumes "data_committed (g + 1) (sanitize_config c) domains mem mem'" "g < g + 1" "store_ready mem g"
  shows "snapshot mem' (g + 1) = committed mem g c domains"
proof -
  have live: "live mem' (g + 1) d = committed_record mem g c domains d" if "d \<in> set FPR2_SNAPSHOT_DOMAINS" for d
    using assms that by (intro live_committed) (auto simp: store_ready_def)
  show ?thesis unfolding snapshot_def live_domains_def committed_def
    by (simp add: live FPR2_SNAPSHOT_DOMAINS_def del: live.simps)
qed

text \<open>What the next boot restores.\<close>

definition restored :: "u8 list \<Rightarrow> MemoryRecord option" where
  "restored mem = fst (fst (load_eeprom_memory_record (healthy mem)))"

lemma restored_at:
  assumes "sized mem" "active_generation mem = Some g"
  shows "restored mem = map_option (\<lambda>c. \<lparr>mr_sequence = g, mr_config = c\<rparr>) (snapshot mem g)"
  using load_active [OF _ assms(2)] assms(1) by (simp add: restored_def sized_def)

lemma restored_new:
  assumes "store_ready mem g" "g < g + 1" "sized mem'" "data_committed (g + 1) (sanitize_config c) domains mem mem'"
    and "active_in (marker_slot mem' (parity_slot (g + 1))) = Some (g + 1)"
    and "marker_slot mem' (parity_slot g) = marker_slot mem (parity_slot g)"
  shows "restored mem' = map_option (\<lambda>c. \<lparr>mr_sequence = g + 1, mr_config = c\<rparr>) (committed mem g c domains)"
proof -
  have "active_generation mem' = Some (g + 1)"
    using active_generation_new [OF assms(5,2)] ready_own_marker [OF assms(1)] assms(6) by simp
  then show ?thesis using restored_at [OF assms(3)] snapshot_committed [OF assms(4,2,1)] by simp
qed

lemma plan_stages:
  fixes mem :: "u8 list" and n :: u32 and domains :: PersistDomainMask
  assumes "sized mem" "config_storable c"
  defines "mem1 \<equiv> put_record n (marker_write n MarkerPrepared) mem"
  defines "mem2 \<equiv> fold (put_record n) (data_writes n c domains) mem1"
  shows "sized mem1" "sized mem2" "\<And>d s. (d, s) \<in> data_slots \<Longrightarrow> slot_contents mem1 d s = slot_contents mem d s"
    "take 35 (marker_slot mem1 (parity_slot n)) = marker_image \<lparr>lm_generation = n, lm_status = MarkerPrepared, lm_kind = CommitKind\<rparr>"
    "marker_slot mem1 (parity_slot (n + 1)) = marker_slot mem (parity_slot (n + 1))"
    "marker_slot mem2 s = marker_slot mem1 s \<or> s = SlotSingle"
    "data_committed n c domains mem mem2"
    "\<And>d s. (d, s) \<in> data_slots \<Longrightarrow> slot_clean d (slot_contents mem d s) \<Longrightarrow> slot_clean d (slot_contents mem2 d s)"
proof -
  note w = marker_write_writable [of n MarkerPrepared] and ws = data_writes_writable [OF assms(2), of n domains]
  show s1: "sized mem1" unfolding mem1_def using assms(1) w by (rule eeprom.ok_put)
  show "sized mem2" unfolding mem2_def using s1 ws by (rule eeprom.ok_put_all)
  show data1: "slot_contents mem1 d s = slot_contents mem d s" if "(d, s) \<in> data_slots" for d s
    unfolding mem1_def using data_slots_used [OF that] by (intro contents_put_other [OF assms(1) w]) (auto simp: marker_slot_of)
  show "take 35 (marker_slot mem1 (parity_slot n)) = marker_image \<lparr>lm_generation = n, lm_status = MarkerPrepared, lm_kind = CommitKind\<rparr>"
    unfolding mem1_def by (rule marker_put [OF assms(1)])
  show "marker_slot mem1 (parity_slot (n + 1)) = marker_slot mem (parity_slot (n + 1))"
    unfolding mem1_def using parity_slot_Suc [of n] by (intro contents_put_other [OF assms(1) w] marker_slots_used) (simp add: marker_slot_of)
  have "(LayoutMarkerDomain, s) \<notin> set (map slot_of (data_writes n c domains))"
    unfolding slots_data_writes by (auto simp: FPR2_SNAPSHOT_DOMAINS_def)
  then show "marker_slot mem2 s = marker_slot mem1 s \<or> s = SlotSingle"
    unfolding mem2_def using contents_unwritten [OF s1 ws, of LayoutMarkerDomain s] by (cases s) (simp_all add: used_slots_def)
  have "data_committed n c domains mem1 mem2" unfolding mem2_def by (rule data_writes_committed [OF s1 assms(2)])
  then show "data_committed n c domains mem mem2" using data1 by (auto simp: data_committed_def stored_def)
  show "slot_clean d (slot_contents mem2 d s)" if "(d, s) \<in> data_slots" "slot_clean d (slot_contents mem d s)" for d s
    unfolding mem2_def using that data1 data_slots_used by (intro clean_after [OF s1 ws]) auto
qed

lemma committed_below:
  assumes "data_committed (g + 1) c domains mem mem'" "g < g + 1" "store_ready mem g" "x \<in> data_slots" "stored mem' (fst x) (snd x) = Some r"
  shows "rec_sequence r \<le> g + 1"
  using assms by (fastforce simp: data_committed_def store_ready_def split: if_splits)

lemma ready_after_commit:
  assumes "store_ready mem g" "g < g + 1" "config_storable c"
  shows "store_ready (fold (put_record (g + 1)) (commit_plan (g + 1) c domains) mem) (g + 1)"
    "active_marker (fold (put_record (g + 1)) (commit_plan (g + 1) c domains) mem) (g + 1)"
    "data_committed (g + 1) c domains mem (fold (put_record (g + 1)) (commit_plan (g + 1) c domains) mem)"
    "marker_slot (fold (put_record (g + 1)) (commit_plan (g + 1) c domains) mem) (parity_slot g) = marker_slot mem (parity_slot g)"
proof -
  let ?n = "g + 1"
  let ?m1 = "put_record ?n (marker_write ?n MarkerPrepared) mem"
  let ?m2 = "fold (put_record ?n) (data_writes ?n c domains) ?m1"
  let ?m3 = "fold (put_record ?n) (commit_plan ?n c domains) mem"
  have sized: "sized mem" using assms(1) by (simp add: store_ready_def)
  note st = plan_stages(2,6-8) [OF sized assms(3), where n = ?n and domains = domains] plan_stages(5) [OF sized assms(3), where n = ?n]
  note w = marker_write_writable [of ?n MarkerActive]
  have m3: "?m3 = put_record ?n (marker_write ?n MarkerActive) ?m2" by (simp add: commit_plan_split)
  have data: "slot_contents ?m3 d s = slot_contents ?m2 d s" if "(d, s) \<in> data_slots" for d s
    unfolding m3 using data_slots_used [OF that] by (intro contents_put_other [OF st(1) w]) (auto simp: marker_slot_of)
  show active: "active_marker ?m3 ?n" unfolding active_marker_def m3 using marker_put [OF st(1), of ?n MarkerActive] by blast
  show dc: "data_committed ?n c domains mem ?m3" using st(3) data by (auto simp: data_committed_def stored_def)
  have "marker_slot ?m3 (parity_slot g) = marker_slot ?m2 (parity_slot g)"
    unfolding m3 using parity_slot_Suc [of g] by (intro contents_put_other [OF st(1) w] marker_slots_used) (simp add: marker_slot_of)
  then show other: "marker_slot ?m3 (parity_slot g) = marker_slot mem (parity_slot g)"
    using st(5) st(2) [of "parity_slot g"] parity_slot_cases [of g] by auto
  have "sized ?m3" unfolding m3 using st(1) w by (rule eeprom.ok_put)
  moreover have len: "length (marker_slot mem (parity_slot g)) = 128"
    using length_slot_contents [OF marker_slots_used] sized by (simp add: sized_def)
  moreover have "marker_clean (marker_slot mem (parity_slot g))"
    using assms(1) len by (auto simp: store_ready_def active_marker_def marker_clean_def)
  moreover have "lm_generation m \<le> g + 1" if m: "take 35 (marker_slot mem (parity_slot g)) = marker_image m" for m
  proof -
    obtain k where k: "take 35 (marker_slot mem (parity_slot g)) = marker_image \<lparr>lm_generation = g, lm_status = MarkerActive, lm_kind = k\<rparr>"
      using assms(1) marker_not_erased [OF m] by (auto simp: store_ready_def active_marker_def)
    have "lm_generation m = g" using decode_marker_image [OF m] decode_marker_image [OF k] by simp
    then show ?thesis using assms(2) by simp
  qed
  moreover have "slot_clean (fst x) (slot_contents ?m3 (fst x) (snd x))" if "x \<in> data_slots" for x
    using st(4) [of "fst x" "snd x"] data [of "fst x" "snd x"] that assms(1) by (auto simp: store_ready_def)
  moreover have "rec_sequence r \<le> ?n" if "x \<in> data_slots" "stored ?m3 (fst x) (snd x) = Some r" for x r
    using committed_below [OF dc assms(2,1) that] .
  ultimately show "store_ready ?m3 ?n" using active other by (auto simp: store_ready_def)
qed

lemma successor_word: "g < 0xffffffff \<Longrightarrow> g < g + 1 \<and> sat_add g 1 = g + 1" for g :: u32
  by (auto simp: word_less_nat_alt unat_plus_if' intro!: word_unat_eq_iff [THEN iffD2] simp: unat_sat_add)

lemma plan_comparable:
  assumes "comparable (config_data c SafetyCalibrationDomain)"
  shows "list_all (comparable \<circ> snd) (commit_plan n c domains)"
proof -
  have "comparable (config_data c d)" for d using assms by (cases d) (simp_all add: comparable_def PersistDomainData_eq_def)
  then show ?thesis
    by (auto simp: commit_plan_split list_all_iff set_data_writes marker_write_def comparable_def [of "LayoutMarkerData _"] PersistDomainData_eq_def)
qed

lemma commit_healthy:
  assumes "store_ready mem g" "g < 0xffffffff" "domains \<noteq> 0" "config_storable (sanitize_config c)"
    and "comparable (config_data (sanitize_config c) SafetyCalibrationDomain)"
  shows "commit_memory_config_now g c domains (healthy mem)
    = (Inr (g + 1), healthy (fold (put_record (g + 1)) (commit_plan (g + 1) (sanitize_config c) domains) mem))"
proof -
  note n = successor_word [OF assms(2)]
  have "sized (ee_memory (healthy mem))" using assms(1) by (simp add: store_ready_def healthy_def)
  from commit_performs [OF assms(3,4) this, of g] plan_comparable [OF assms(5), of "g + 1" domains] n
  obtain x where "fst (commit_memory_config_now g c domains (healthy mem)) = Inr x"
    "ee_bus (snd (commit_memory_config_now g c domains (healthy mem))) = []"
    "ee_memory (snd (commit_memory_config_now g c domains (healthy mem)))
      = fold (put_record (g + 1)) (commit_plan (g + 1) (sanitize_config c) domains) mem"
    by (auto simp: performs_def healthy_def)
  then show ?thesis using commit_sequence [OF assms(3)] n by (metis Eeprom.surjective healthy_def old.unit.exhaust prod.collapse)
qed

lemma restored_after_commit:
  fixes domains :: PersistDomainMask
  assumes "store_ready mem g" "g < 0xffffffff" "config_storable (sanitize_config c)"
  defines "mem' \<equiv> fold (put_record (g + 1)) (commit_plan (g + 1) (sanitize_config c) domains) mem"
  shows "restored mem' = map_option (\<lambda>c. \<lparr>mr_sequence = g + 1, mr_config = c\<rparr>) (committed mem g c domains)"
proof -
  have n: "g < g + 1" using successor_word [OF assms(2)] by simp
  note r = ready_after_commit [OF assms(1) n assms(3), of domains, folded mem'_def]
  have "active_in (marker_slot mem' (parity_slot (g + 1))) = Some (g + 1)" by (rule active_marker_in [OF r(2)])
  moreover have "sized mem'" using r(1) by (simp add: store_ready_def)
  ultimately show ?thesis using restored_new [OF assms(1) n _ r(3) _ r(4)] by blast
qed

text \<open>The part of a configuration that reaches the EEPROM.\<close>

definition persisted_form :: "MemoryConfig \<Rightarrow> MemoryConfig" where
  "persisted_form c = c
     \<lparr>mc_post_heat_cooling_mode := persisted_post_heat_cooling_mode c,
      mc_active_heater_curve := HeaterCurveConfig_default,
      mc_heater_curve_raw_observations := HeaterCurveRawObservations_default,
      mc_heater_curve_transaction_id := None,
      mc_thermal_plant_active := None,
      mc_thermal_plant_transient_active := pl_active (ThermalPlantPersistence_from_config c),
      mc_heater_supply_boundary := pl_supply_boundary (ThermalPlantPersistence_from_config c),
      mc_active_thermal_control_profile := canonical_profile_for_persistence (mc_active_thermal_control_profile c),
      mc_thermal_control_profile_pps5a := canonical_profile_for_persistence (mc_thermal_control_profile_pps5a c)\<rparr>"

lemma plant_round_trip:
  "option_and (option_filter boundary_is_valid b) (option_filter p (option_and (option_filter boundary_is_valid b) t))
    = option_filter p (option_and (option_filter boundary_is_valid b) t)"
  by (cases "option_filter boundary_is_valid b") simp_all

lemma persisted_form_applied:
  "fold apply_record_data [config_data c SafetyCalibrationDomain, config_data c ThermalPolicyDomain, config_data c UserPreferencesDomain,
     config_data c NetworkAndPairingDomain, config_data c ThermalPlantDomain] MemoryConfig_default = persisted_form c"
  by (simp add: persisted_form_def SafetyCalibration_from_config_def SafetyCalibration_apply_to_config_def
      ThermalPolicy_from_config_def ThermalPolicy_apply_to_config_def UserPreferences_from_config_def
      UserPreferences_apply_to_config_def NetworkAndPairing_from_config_def NetworkAndPairing_apply_to_config_def
      ThermalPlantPersistence_from_config_def ThermalPlantPersistence_apply_to_config_def MemoryConfig_default_def
      Let_def plant_round_trip)

lemma committed_all: "committed mem g c MASK_ALL = Some (sanitize_config (persisted_form (sanitize_config c)))"
proof -
  have "mask_includes MASK_ALL d" if "d \<noteq> LayoutMarkerDomain" for d using that by (cases d) simp_all
  then have "committed_record mem g c MASK_ALL d = Some \<lparr>rec_sequence = g + 1, rec_data = config_data (sanitize_config c) d\<rparr>"
    if "d \<noteq> LayoutMarkerDomain" for d using that by (simp add: committed_record_def)
  then show ?thesis
    unfolding committed_def fpr2_snapshot_config_eq
    using persisted_form_applied [of "sanitize_config c"]
    by (simp add: record_fits_snapshot_def FPR2_SNAPSHOT_DOMAINS_def numeral_eq_Suc del: MASK_ALL_def config_data.simps)
qed

lemma slot_contents_erased: "(d, s) \<in> set used_slots \<Longrightarrow> slot_contents (replicate 8192 0xff) d s = replicate (slot_size d) 0xff"
  using slot_inside [of d s] by (simp add: slot_contents_def min_absorb2)

lemma erased_ready: "store_ready (replicate 8192 0xff) 0"
proof -
  have m: "marker_slot (replicate 8192 0xff) (parity_slot n) = replicate 128 0xff" for n
    using slot_contents_erased [OF marker_slots_used] by simp
  have d: "slot_contents (replicate 8192 0xff) (fst x) (snd x) = replicate (slot_size (fst x)) 0xff" if "x \<in> data_slots" for x
    using slot_contents_erased [of "fst x" "snd x"] data_slots_used [OF that] by simp
  have "4 \<le> slot_size d" for d by (cases d) simp_all
  then show ?thesis
    using marker_not_erased [of "replicate 128 0xff"] unfolding store_ready_def m
    by (auto simp: sized_def marker_clean_def slot_clean_def d [of "(_, _)", simplified] stored_def erased_undecodable)
qed

lemma default_clean: "sanitize_config MemoryConfig_default = MemoryConfig_default"
  by code_simp

lemma default_storable:
  "config_storable (sanitize_config MemoryConfig_default)"
  "comparable (config_data (sanitize_config MemoryConfig_default) SafetyCalibrationDomain)"
proof -
  have "data_storable (config_data MemoryConfig_default SafetyCalibrationDomain)"
    by (simp add: safety_storable_def SafetyCalibration_from_config_def MemoryConfig_default_def adc_storable_def
        AdcCalibrationConfig_default_def AdcCalibrationChannelConfig_default_def curve_storable_def observations_storable_def
        HeaterCurveConfig_default_def HeaterCurveRawObservations_default_def list_all_iff)
  moreover have "data_storable (config_data MemoryConfig_default ThermalPolicyDomain)" by code_simp
  moreover have "data_storable (config_data MemoryConfig_default UserPreferencesDomain)"
    by (simp add: prefs_storable_def UserPreferences_from_config_def MemoryConfig_default_def
        persisted_post_heat_cooling_mode_def i16_ok_def clamp_temp_c_def PostHeatCoolingMode_is_enabled_def)
  moreover have "data_storable (config_data MemoryConfig_default NetworkAndPairingDomain)"
    by (simp add: network_storable_def NetworkAndPairing_from_config_def MemoryConfig_default_def)
  moreover have "data_storable (config_data MemoryConfig_default ThermalPlantDomain)"
    by (simp add: plant_storable_def ThermalPlantPersistence_from_config_def MemoryConfig_default_def)
  ultimately show "config_storable (sanitize_config MemoryConfig_default)"
    unfolding default_clean by (simp add: config_storable_def config_domains_def)
  show "comparable (config_data (sanitize_config MemoryConfig_default) SafetyCalibrationDomain)" unfolding default_clean by code_simp
qed

text \<open>
  \<^bold>\<open>A commit is restored (C6).\<close> On a working bus a commit of a storable configuration on a store between commits
  succeeds with the next sequence number, leaves a store ready for the next commit, and the next boot
  restores the configuration made of the committed domains and, for the domains left out, of the records current before.
  After a commit of all domains that is the committed configuration itself, but for what is not persisted.
\<close>

theorem commit_then_restore:
  assumes "store_ready mem g" "g < 0xffffffff" "domains \<noteq> 0" "config_storable (sanitize_config c)"
    and "comparable (config_data (sanitize_config c) SafetyCalibrationDomain)"
  shows "\<exists>mem'. commit_memory_config_now g c domains (healthy mem) = (Inr (g + 1), healthy mem') \<and> store_ready mem' (g + 1)
    \<and> restored mem' = map_option (\<lambda>c. \<lparr>mr_sequence = g + 1, mr_config = c\<rparr>) (committed mem g c domains)
    \<and> (domains = MASK_ALL \<longrightarrow>
         restored mem' = Some \<lparr>mr_sequence = g + 1, mr_config = sanitize_config (persisted_form (sanitize_config c))\<rparr>)"
  using commit_healthy [OF assms] restored_after_commit [OF assms(1,2,4), of domains]
    ready_after_commit(1) [OF assms(1) _ assms(4), of domains] successor_word [OF assms(2)] committed_all [of mem g c] by auto

theorem commit_then_restore_witness:
  "\<exists>mem'. commit_memory_config_now 0 MemoryConfig_default MASK_ALL (healthy (replicate 8192 0xff)) = (Inr 1, healthy mem')
    \<and> restored mem' = Some \<lparr>mr_sequence = 1, mr_config = sanitize_config (persisted_form (sanitize_config MemoryConfig_default))\<rparr>"
  using commit_then_restore [OF erased_ready _ _ default_storable, of MASK_ALL] by auto

section \<open>An interrupted commit\<close>

text \<open>Every double-slot domain to be written has its current record in the slot of the current generation.\<close>

definition alternates :: "u8 list \<Rightarrow> u32 \<Rightarrow> PersistDomainMask \<Rightarrow> bool" where
  "alternates mem g domains \<longleftrightarrow>
     (\<forall>d\<in>set FPR2_SNAPSHOT_DOMAINS. mask_includes domains d \<longrightarrow> slot_count d = 2 \<longrightarrow> live mem g d = record_at mem g d (parity_slot g))"

definition writes_single_slot :: "PersistDomainMask \<Rightarrow> bool" where
  "writes_single_slot domains \<longleftrightarrow> (\<exists>d\<in>set FPR2_SNAPSHOT_DOMAINS. mask_includes domains d \<and> slot_count d = 1)"

lemma snapshot_old:
  assumes "\<And>d. d \<in> set FPR2_SNAPSHOT_DOMAINS \<Longrightarrow>
      live mem' g d = live mem g d \<or> slot_count d \<noteq> 2 \<and> mask_includes domains d \<and> live mem' g d = None"
  shows "snapshot mem' g = snapshot mem g \<or> snapshot mem' g = None \<and> writes_single_slot domains"
proof (cases "\<forall>d\<in>set FPR2_SNAPSHOT_DOMAINS. live mem' g d = live mem g d")
  case True
  then have "live_domains mem' g = live_domains mem g" by (simp add: live_domains_def FPR2_SNAPSHOT_DOMAINS_def del: live.simps)
  then show ?thesis by (simp add: snapshot_def)
next
  case False
  then obtain d where d: "d \<in> set FPR2_SNAPSHOT_DOMAINS" "slot_count d \<noteq> 2" "mask_includes domains d" "live mem' g d = None"
    using assms by blast
  have "slot_count d = 1" using d(2) by (cases d) simp_all
  then have "writes_single_slot domains" using d by (auto simp: writes_single_slot_def)
  moreover have "snapshot mem' g = None" unfolding snapshot_live using d by (auto simp: list_all_iff)
  ultimately show ?thesis by blast
qed

lemma restored_old:
  assumes ready: "store_ready mem g" "active_marker mem g" "g < g + 1" and "sized mem'" "alternates mem g domains"
    and own: "marker_slot mem' (parity_slot g) = marker_slot mem (parity_slot g)"
    and other: "\<And>a. active_in (marker_slot mem' (parity_slot (g + 1))) = Some a \<Longrightarrow> a \<le> g"
    and data: "\<And>x. x \<in> data_slots \<Longrightarrow> x \<notin> set (map slot_of (data_writes (g + 1) c domains)) \<Longrightarrow> stored mem' (fst x) (snd x) = stored mem (fst x) (snd x)"
      "\<And>x. x \<in> data_slots \<Longrightarrow> slot_after (g + 1) mem mem' (fst x) (snd x)"
  shows "restored mem' = restored mem \<or> restored mem' = None \<and> writes_single_slot domains"
proof -
  have sized: "sized mem" using ready(1) by (simp add: store_ready_def)
  have "active_generation mem = Some g"
    using active_generation_old [OF active_marker_in [OF ready(2)]] ready_other_marker [OF ready(1)] by blast
  note old = restored_at [OF sized this]
  have "active_in (marker_slot mem' (parity_slot g)) = Some g" using active_marker_in [OF ready(2)] own by simp
  then have "active_generation mem' = Some g" using active_generation_old other by blast
  note new = restored_at [OF assms(4) this]
  have "live mem' g d = live mem g d \<or> slot_count d \<noteq> 2 \<and> d \<in> {d \<in> set FPR2_SNAPSHOT_DOMAINS. mask_includes domains d} \<and> live mem' g d = None"
    if "d \<in> set FPR2_SNAPSHOT_DOMAINS" for d
    by (rule live_old [OF data equalityD1 [OF slots_data_writes] ready(3) that]) (use assms(5) in \<open>simp_all add: alternates_def\<close>)
  then have "snapshot mem' g = snapshot mem g \<or> snapshot mem' g = None \<and> writes_single_slot domains"
    by (intro snapshot_old) blast
  then show ?thesis using old new by auto
qed

lemma active_torn_after:
  assumes "sized mem" "take 35 (marker_slot mem (parity_slot n)) = marker_image \<lparr>lm_generation = n, lm_status = MarkerPrepared, lm_kind = CommitKind\<rparr>"
    and "j \<le> length (record_image n (snd (marker_write n MarkerActive)))"
  shows "active_in (marker_slot (partial_write n j (marker_write n MarkerActive) mem) (parity_slot n)) \<in> {None, Some n}"
proof -
  let ?m = "\<lparr>lm_generation = n, lm_status = MarkerActive, lm_kind = CommitKind\<rparr>"
  have "length (marker_slot mem (parity_slot n)) = 128"
    using length_slot_contents [OF marker_slots_used] assms(1) by (simp add: sized_def)
  moreover have "j \<le> 35" using assms(3) by (simp add: marker_write_def record_image_marker marker_image_bytes(1))
  ultimately show ?thesis
    using torn_active [of "marker_slot mem (parity_slot n)" ?m j] assms(2) partial_write_contents(1) [OF assms(1) marker_write_writable assms(3)]
    by (auto simp: marker_write_def record_image_marker)
qed

lemma prepared_torn_after:
  assumes "store_ready mem g" "g < g + 1" "j \<le> length (record_image (g + 1) (snd (marker_write (g + 1) MarkerPrepared)))"
    and "active_in (marker_slot (partial_write (g + 1) j (marker_write (g + 1) MarkerPrepared) mem) (parity_slot (g + 1))) = Some a"
  shows "a \<le> g"
proof -
  let ?m = "\<lparr>lm_generation = g + 1, lm_status = MarkerPrepared, lm_kind = CommitKind\<rparr>"
  let ?c = "marker_slot mem (parity_slot (g + 1))"
  have sized: "sized mem" using assms(1) by (simp add: store_ready_def)
  have "marker_clean ?c" "take 35 ?c = marker_image m0 \<Longrightarrow> lm_generation m0 \<noteq> lm_generation ?m" for m0
    using assms(1,2) by (auto simp: store_ready_def not_le)
  moreover have "j \<le> 35" using assms(3) by (simp add: marker_write_def record_image_marker marker_image_bytes(1))
  ultimately have "active_in (take j (marker_image ?m) @ drop j ?c) = active_in ?c \<or> active_in (take j (marker_image ?m) @ drop j ?c) = None"
    by (intro torn_prepared) simp_all
  then show ?thesis
    using assms(4) ready_other_marker [OF assms(1)] partial_write_contents(1) [OF sized marker_write_writable assms(3)]
    by (auto simp: marker_write_def record_image_marker)
qed

lemma partial_marker_slots:
  assumes "sized mem" "j \<le> length (record_image n (snd (marker_write n status)))"
  shows "sized (partial_write n j (marker_write n status) mem)"
    "x \<in> data_slots \<Longrightarrow> slot_contents (partial_write n j (marker_write n status) mem) (fst x) (snd x) = slot_contents mem (fst x) (snd x)"
    "marker_slot (partial_write n j (marker_write n status) mem) (parity_slot (n + 1)) = marker_slot mem (parity_slot (n + 1))"
  using partial_write_contents(2,3) [OF assms(1) marker_write_writable assms(2)] data_slots_used [of x] marker_slots_used [of "n + 1"]
    parity_slot_Suc [of n] by (auto simp: marker_slot_of)

lemma torn_marker_cases:
  assumes "torn n (marker_write n status # ws) mem mem'"
  shows "(\<exists>j \<le> length (record_image n (snd (marker_write n status))). mem' = partial_write n j (marker_write n status) mem)
    \<or> torn n ws (put_record n (marker_write n status) mem) mem'"
  using assms
  by (rule torn_ConsE) (auto simp: partial_write_def marker_write_def intro: exI [of _ 0])

text \<open>The three stages a commit can be cut off in.\<close>

lemma torn_commit_old:
  assumes "store_ready mem g" "active_marker mem g" "g < g + 1" "config_storable c" "alternates mem g domains"
    and "torn (g + 1) (data_writes (g + 1) c domains) (put_record (g + 1) (marker_write (g + 1) MarkerPrepared) mem) mem2"
    and "sized mem'" "\<And>x. x \<in> data_slots \<Longrightarrow> slot_contents mem' (fst x) (snd x) = slot_contents mem2 (fst x) (snd x)"
    and "marker_slot mem' (parity_slot g) = marker_slot mem2 (parity_slot g)"
    and "\<And>a. active_in (marker_slot mem' (parity_slot (g + 1))) = Some a \<Longrightarrow> a \<le> g"
  shows "restored mem' = restored mem \<or> restored mem' = None \<and> writes_single_slot domains"
proof -
  let ?m1 = "put_record (g + 1) (marker_write (g + 1) MarkerPrepared) mem" and ?ws = "data_writes (g + 1) c domains"
  have sized: "sized mem" using assms(1) by (simp add: store_ready_def)
  note st = plan_stages(1,3,5) [OF sized assms(4), where n = "g + 1"]
  note slots = conjunct2 [OF torn_slots [OF assms(6) st(1) data_writes_writable [OF assms(4)] distinct_data_writes]]
  have clean: "slot_clean (fst x) (slot_contents ?m1 (fst x) (snd x))" if "x \<in> data_slots" for x
    using assms(1) that st(2) [of "fst x" "snd x"] by (simp add: store_ready_def)
  have same: "stored ?m1 (fst x) (snd x) = stored mem (fst x) (snd x)" if "x \<in> data_slots" for x
    using st(2) [of "fst x" "snd x"] that by (simp add: stored_def)
  have m': "stored mem' (fst x) (snd x) = stored mem2 (fst x) (snd x)" if "x \<in> data_slots" for x
    using assms(8) [OF that] by (simp add: stored_def)
  have slot: "(x \<notin> set (map slot_of ?ws) \<longrightarrow> slot_contents mem2 (fst x) (snd x) = slot_contents ?m1 (fst x) (snd x))
      \<and> (x \<in> set (map slot_of ?ws) \<longrightarrow> slot_after (g + 1) ?m1 mem2 (fst x) (snd x))" if "x \<in> data_slots" for x
    using bspec [OF slots, of x] clean [OF that] data_slots_used [OF that] by (cases x) simp
  have "(LayoutMarkerDomain, parity_slot g) \<notin> set (map slot_of ?ws)" unfolding slots_data_writes by (auto simp: FPR2_SNAPSHOT_DOMAINS_def)
  then have own: "marker_slot mem' (parity_slot g) = marker_slot mem (parity_slot g)"
    using bspec [OF slots marker_slots_used [of g]] st(3) assms(9) by simp
  show ?thesis
  proof (rule restored_old [OF assms(1-3,7,5) own assms(10)])
    fix x assume x: "x \<in> data_slots"
    show "stored mem' (fst x) (snd x) = stored mem (fst x) (snd x)" if "x \<notin> set (map slot_of ?ws)"
      using slot [OF x] that m' [OF x] same [OF x] by (simp add: stored_def)
    then show "slot_after (g + 1) mem mem' (fst x) (snd x)"
      using slot [OF x] m' [OF x] same [OF x] by (cases "x \<in> set (map slot_of ?ws)") (simp_all add: slot_after_def)
  qed
qed

definition new_record :: "u8 list \<Rightarrow> u32 \<Rightarrow> MemoryConfig \<Rightarrow> PersistDomainMask \<Rightarrow> MemoryRecord option" where
  "new_record mem g c domains = map_option (\<lambda>c. \<lparr>mr_sequence = g + 1, mr_config = c\<rparr>) (committed mem g c domains)"

lemma torn_commit_data:
  assumes "store_ready mem g" "active_marker mem g" "g < g + 1" "config_storable c" "alternates mem g domains"
    and "torn (g + 1) (data_writes (g + 1) c domains) (put_record (g + 1) (marker_write (g + 1) MarkerPrepared) mem) mem'"
  shows "restored mem' = restored mem \<or> restored mem' = None \<and> writes_single_slot domains"
proof (rule torn_commit_old [OF assms])
  let ?ws = "data_writes (g + 1) c domains"
  have sized: "sized mem" using assms(1) by (simp add: store_ready_def)
  note st = plan_stages(1,4) [OF sized assms(4), where n = "g + 1"]
  note slots = torn_slots [OF assms(6) st(1) data_writes_writable [OF assms(4)] distinct_data_writes]
  show "sized mem'" using slots by blast
  have "(LayoutMarkerDomain, parity_slot (g + 1)) \<notin> set (map slot_of ?ws)" unfolding slots_data_writes by (auto simp: FPR2_SNAPSHOT_DOMAINS_def)
  then show "a \<le> g" if "active_in (marker_slot mem' (parity_slot (g + 1))) = Some a" for a
    using that bspec [OF conjunct2 [OF slots] marker_slots_used [of "g + 1"]] active_in_marker [OF st(2)] by simp
qed simp_all

lemma torn_commit_active:
  assumes "store_ready mem g" "active_marker mem g" "g < g + 1" "config_storable (sanitize_config c)" "alternates mem g domains"
    and "torn (g + 1) [marker_write (g + 1) MarkerActive]
      (fold (put_record (g + 1)) (data_writes (g + 1) (sanitize_config c) domains) (put_record (g + 1) (marker_write (g + 1) MarkerPrepared) mem)) mem'"
  shows "restored mem' = restored mem \<or> restored mem' = None \<and> writes_single_slot domains \<or> restored mem' = new_record mem g c domains"
proof -
  let ?n = "g + 1" and ?c = "sanitize_config c"
  let ?prep = "marker_write ?n MarkerPrepared" and ?act = "marker_write ?n MarkerActive" and ?ws = "data_writes ?n ?c domains"
  let ?m1 = "put_record ?n ?prep mem" and ?m2 = "fold (put_record ?n) ?ws (put_record ?n ?prep mem)"
  have sized: "sized mem" using assms(1) by (simp add: store_ready_def)
  note early = plan_stages(4,5) [OF sized assms(4), where n = ?n] and late = plan_stages(2,6,7) [OF sized assms(4), where n = ?n and domains = domains]
  have m2: "marker_slot ?m2 (parity_slot k) = marker_slot ?m1 (parity_slot k)" for k
    using late(2) [of "parity_slot k"] parity_slot_cases [of k] by auto
  consider (part) j where "j \<le> length (record_image ?n (snd ?act))" "mem' = partial_write ?n j ?act ?m2" | (all) "mem' = put_record ?n ?act ?m2"
    using torn_marker_cases [OF assms(6)] by (auto elim: torn_NilE)
  then show ?thesis
  proof cases
    case (part j)
    note p = partial_marker_slots [OF late(1) part(1), folded part(2)]
    have own: "marker_slot mem' (parity_slot g) = marker_slot ?m2 (parity_slot g)" using p(3) by simp
    have "active_in (marker_slot mem' (parity_slot ?n)) = None \<or> active_in (marker_slot mem' (parity_slot ?n)) = Some ?n"
      using active_torn_after [OF late(1) _ part(1)] m2 early(1) by (simp add: part(2))
    then show ?thesis
    proof
      assume "active_in (marker_slot mem' (parity_slot ?n)) = None"
      then show ?thesis using torn_commit_old [OF assms(1-5) torn_done p(1) p(2) own] by auto
    next
      assume "active_in (marker_slot mem' (parity_slot ?n)) = Some ?n"
      moreover have "data_committed ?n ?c domains mem mem'" using late(3) p(2) by (auto simp: data_committed_def stored_def)
      moreover have "marker_slot mem' (parity_slot g) = marker_slot mem (parity_slot g)" using own m2 [of g] early(2) by simp
      ultimately show ?thesis using restored_new [OF assms(1,3) p(1)] by (simp add: new_record_def)
    qed
  next
    case all
    have whole: "mem' = fold (put_record ?n) (commit_plan ?n ?c domains) mem" by (simp add: all commit_plan_split)
    note r = ready_after_commit [OF assms(1,3,4), of domains, folded whole]
    have "sized mem'" using r(1) by (simp add: store_ready_def)
    then show ?thesis using restored_new [OF assms(1,3) _ r(3) active_marker_in [OF r(2)] r(4)] by (simp add: new_record_def)
  qed
qed

lemma torn_commit:
  assumes "store_ready mem g" "active_marker mem g" "g < g + 1" "config_storable (sanitize_config c)" "alternates mem g domains"
    and "torn (g + 1) (commit_plan (g + 1) (sanitize_config c) domains) mem mem'"
  shows "restored mem' = restored mem \<or> restored mem' = None \<and> writes_single_slot domains \<or> restored mem' = new_record mem g c domains"
proof -
  let ?n = "g + 1"
  let ?prep = "marker_write ?n MarkerPrepared" and ?act = "marker_write ?n MarkerActive" and ?ws = "data_writes ?n (sanitize_config c) domains"
  have sized: "sized mem" using assms(1) by (simp add: store_ready_def)
  consider (prepared) j where "j \<le> length (record_image ?n (snd ?prep))" "mem' = partial_write ?n j ?prep mem"
    | (data) "torn ?n ?ws (put_record ?n ?prep mem) mem'"
    | (active) "torn ?n [?act] (fold (put_record ?n) ?ws (put_record ?n ?prep mem)) mem'"
    using torn_marker_cases [of ?n MarkerPrepared "?ws @ [?act]" mem mem'] assms(6)
      torn_append_cases [of ?n ?ws "[?act]" "put_record ?n ?prep mem" mem'] unfolding commit_plan_split by blast
  then show ?thesis
  proof cases
    case (prepared j)
    note p = partial_marker_slots [OF sized prepared(1)]
    have "restored mem' = restored mem \<or> restored mem' = None \<and> writes_single_slot domains"
      unfolding prepared(2)
      by (rule restored_old [OF assms(1-3) p(1) assms(5)])
        (use p(2,3) prepared_torn_after [OF assms(1,3) prepared(1)] in \<open>auto simp: stored_def slot_after_def\<close>)
    then show ?thesis by blast
  next
    case data
    then show ?thesis using torn_commit_data [OF assms(1-5)] by blast
  next
    case active
    then show ?thesis using torn_commit_active [OF assms(1-5)] by blast
  qed
qed


text \<open>Commits that write every double-slot domain keep alternating between the slots.\<close>

lemma alternates_after:
  assumes "data_committed (g + 1) (sanitize_config c) domains mem mem'" "g < g + 1" "store_ready mem g"
    and "\<And>d. d \<in> set FPR2_SNAPSHOT_DOMAINS \<Longrightarrow> slot_count d = 2 \<Longrightarrow> mask_includes later d \<Longrightarrow> mask_includes domains d"
  shows "alternates mem' (g + 1) later"
  unfolding alternates_def
proof (intro ballI impI)
  fix d assume d: "d \<in> set FPR2_SNAPSHOT_DOMAINS" "mask_includes later d" "slot_count d = 2"
  have m: "mask_includes domains d" by (rule assms(4) [OF d(1,3,2)])
  have x: "(d, parity_slot (g + 1)) \<in> data_slots"
    using d parity_slot_cases [of "g + 1"] by (auto simp: data_slots_def used_slots_def FPR2_SNAPSHOT_DOMAINS_def)
  have "record_at mem' (g + 1) d (parity_slot (g + 1)) = Some \<lparr>rec_sequence = g + 1, rec_data = config_data (sanitize_config c) d\<rparr>"
    using assms(1) x m d(3) by (auto simp: data_committed_def record_at_def commit_slot_def)
  moreover have "live mem' (g + 1) d = committed_record mem g c domains d"
    using assms(1-3) d(1) by (intro live_committed) (auto simp: store_ready_def)
  ultimately show "live mem' (g + 1) d = record_at mem' (g + 1) d (parity_slot (g + 1))" using m by (simp add: committed_record_def)
qed

definition first_commit :: "u8 list" where
  "first_commit = fold (put_record 1) (commit_plan 1 MemoryConfig_default MASK_ALL) (replicate 8192 0xff)"

lemma first_commit_ready: "store_ready first_commit 1" "active_marker first_commit 1" "alternates first_commit 1 later"
proof -
  note r = ready_after_commit [OF erased_ready _ default_storable(1) [unfolded default_clean], of MASK_ALL, simplified add_0 word_gt_0_no first_commit_def [symmetric]]
  show "store_ready first_commit 1" "active_marker first_commit 1" using r by simp_all
  have "alternates first_commit (0 + 1) later"
    by (rule alternates_after [of 0 MemoryConfig_default MASK_ALL "replicate 8192 0xff"])
      (use r(3) erased_ready in \<open>auto simp: default_clean FPR2_SNAPSHOT_DOMAINS_def\<close>)
  then show "alternates first_commit 1 later" by simp
qed


section \<open>Where a commit is not atomic\<close>

text \<open>A commit up to its last write, the active marker.\<close>

definition commit_until_active :: "u32 \<Rightarrow> MemoryConfig \<Rightarrow> PersistDomainMask \<Rightarrow> Eeprom \<Rightarrow> (MemoryCommitFailure + unit) \<times> Eeprom" where
  "commit_until_active g c domains dev =
     and_then (write_layout_marker_record (sat_add g 1) MarkerPrepared CommitKind (parity_slot (sat_add g 1)) ''prepared'' dev) (\<lambda>dev.
     and_then (persist_memory_domains (sat_add g 1) (sanitize_config c) domains True ''write'' dev)
       (persist_memory_domains (sat_add g 1) (sanitize_config c) domains False ''write-single''))"

lemma commit_splits:
  assumes "domains \<noteq> 0"
  shows "commit_memory_config_now g c domains dev = and_then (commit_until_active g c domains dev) (\<lambda>dev.
    and_then (write_layout_marker_record (sat_add g 1) MarkerActive CommitKind (parity_slot (sat_add g 1)) ''active'' dev) (\<lambda>dev.
      (Inr (sat_add g 1), dev)))"
  using assms
  by (auto simp: commit_memory_config_now_def mask_is_empty_def commit_until_active_def and_then_def Let_def split: prod.splits sum.splits)

definition unfinished :: "u32 \<Rightarrow> MemoryConfig \<Rightarrow> PersistDomainMask \<Rightarrow> u8 list \<Rightarrow> u8 list" where
  "unfinished n c domains mem = fold (put_record n) (data_writes n c domains) (put_record n (marker_write n MarkerPrepared) mem)"

lemma until_active_healthy:
  assumes "sized mem" "g < 0xffffffff" "config_storable (sanitize_config c)"
    and "comparable (config_data (sanitize_config c) SafetyCalibrationDomain)"
  shows "commit_until_active g c domains (healthy mem) = (Inr (), healthy (unfinished (g + 1) (sanitize_config c) domains mem))"
proof -
  let ?n = "g + 1" and ?c = "sanitize_config c" and ?r = "commit_until_active g c domains (healthy mem)"
  let ?ws = "[marker_write ?n MarkerPrepared] @ domain_writes ?n ?c domains True @ domain_writes ?n ?c domains False"
  have n: "sat_add g 1 = ?n" using successor_word [OF assms(2)] by simp
  have "performs ?n ?ws (healthy mem) ?r"
    unfolding commit_until_active_def n using assms(1,3)
    by (intro performs_and_then performs_marker performs_domains)
      (simp_all add: marker_write_writable domain_writes_writable healthy_def)
  moreover have "list_all (comparable \<circ> snd) ?ws"
    using plan_comparable [OF assms(4), of ?n domains] by (simp add: commit_plan_def)
  ultimately have p: "\<exists>x. fst ?r = Inr x" "ee_bus (snd ?r) = []" "ee_memory (snd ?r) = fold (put_record ?n) ?ws mem"
    by (auto simp: performs_def healthy_def)
  have "fold (put_record ?n) ?ws mem = unfinished ?n ?c domains mem" by (simp add: unfinished_def data_writes_def)
  then show ?thesis using p by (metis Eeprom.surjective healthy_def old.unit.exhaust prod.collapse)
qed

lemma unfinished_restored:
  assumes "store_ready mem g" "active_marker mem g" "g < g + 1" "config_storable c"
  shows "restored (unfinished (g + 1) c domains mem)
      = map_option (\<lambda>c. \<lparr>mr_sequence = g, mr_config = c\<rparr>) (snapshot (unfinished (g + 1) c domains mem) g)"
    "data_committed (g + 1) c domains mem (unfinished (g + 1) c domains mem)"
proof -
  let ?m = "unfinished (g + 1) c domains mem" and ?m1 = "put_record (g + 1) (marker_write (g + 1) MarkerPrepared) mem"
  have sized: "sized mem" using assms(1) by (simp add: store_ready_def)
  note early = plan_stages(4,5) [OF sized assms(4), where n = "g + 1"]
  note late = plan_stages(2,6,7) [OF sized assms(4), where n = "g + 1" and domains = domains, folded unfinished_def]
  show "data_committed (g + 1) c domains mem ?m" by (rule late(3))
  have same: "marker_slot ?m (parity_slot k) = marker_slot ?m1 (parity_slot k)" for k
    using late(2) [of "parity_slot k"] parity_slot_cases [of k] by auto
  have "active_in (marker_slot ?m (parity_slot g)) = Some g" using active_marker_in [OF assms(2)] same [of g] early(2) by simp
  moreover have "active_in (marker_slot ?m (parity_slot (g + 1))) = None" using active_in_marker [OF early(1)] same [of "g + 1"] by simp
  ultimately have "active_generation ?m = Some g" by (intro active_generation_old) simp_all
  then show "restored ?m = map_option (\<lambda>c. \<lparr>mr_sequence = g, mr_config = c\<rparr>) (snapshot ?m g)" by (rule restored_at [OF late(1)])
qed

text \<open>A device that completes its setup, then changes a preference.\<close>

definition setup_config :: "bool \<Rightarrow> MemoryConfig" where
  "setup_config required = MemoryConfig_default\<lparr>mc_commissioning_required := required\<rparr>"

lemma setup_clean: "sanitize_config (setup_config required) = setup_config required"
proof -
  have "sanitize_config (c\<lparr>mc_commissioning_required := required\<rparr>) = (sanitize_config c)\<lparr>mc_commissioning_required := required\<rparr>" for c
    by (simp add: sanitize_config_def)
  then show ?thesis by (simp add: setup_config_def default_clean)
qed

lemma setup_storable:
  "config_storable (sanitize_config (setup_config required))"
  "comparable (config_data (sanitize_config (setup_config required)) SafetyCalibrationDomain)"
  using default_storable unfolding setup_clean default_clean
  by (simp_all add: setup_config_def config_storable_def config_domains_def SafetyCalibration_from_config_def ThermalPolicy_from_config_def
      UserPreferences_from_config_def persisted_post_heat_cooling_mode_def NetworkAndPairing_from_config_def ThermalPlantPersistence_from_config_def
      safety_storable_def prefs_storable_def comparable_def PersistDomainData_eq_def safety_eq_def)

definition after_commit :: "u32 \<Rightarrow> MemoryConfig \<Rightarrow> PersistDomainMask \<Rightarrow> u8 list \<Rightarrow> u8 list" where
  "after_commit n c domains mem = fold (put_record n) (commit_plan n c domains) mem"

lemma setup_commit:
  fixes required :: bool and domains :: PersistDomainMask
  assumes "store_ready mem g" "g < 0xffffffff" "domains \<noteq> 0"
  defines "mem' \<equiv> after_commit (g + 1) (setup_config required) domains mem"
  shows "commit_memory_config_now g (setup_config required) domains (healthy mem) = (Inr (g + 1), healthy mem')"
    "store_ready mem' (g + 1)" "active_marker mem' (g + 1)" "data_committed (g + 1) (setup_config required) domains mem mem'"
    "restored mem' = map_option (\<lambda>c. \<lparr>mr_sequence = g + 1, mr_config = c\<rparr>) (snapshot mem' (g + 1))"
proof -
  have n: "g < g + 1" using successor_word [OF assms(2)] by simp
  note c = setup_storable(1) [of required, unfolded setup_clean]
  note r = ready_after_commit [OF assms(1) n c, of domains, folded after_commit_def, folded mem'_def]
  show "store_ready mem' (g + 1)" "active_marker mem' (g + 1)" and d: "data_committed (g + 1) (setup_config required) domains mem mem'"
    using r by simp_all
  show "commit_memory_config_now g (setup_config required) domains (healthy mem) = (Inr (g + 1), healthy mem')"
    using commit_healthy [OF assms(1-3) setup_storable] by (simp add: setup_clean mem'_def after_commit_def)
  show "restored mem' = map_option (\<lambda>c. \<lparr>mr_sequence = g + 1, mr_config = c\<rparr>) (snapshot mem' (g + 1))"
    using restored_after_commit [OF assms(1,2) setup_storable(1) [of required], of domains]
      snapshot_committed [of g "setup_config required" domains mem mem'] d n assms(1)
    by (simp add: setup_clean mem'_def after_commit_def)
qed

lemma setup_unfinished:
  fixes required :: bool and domains :: PersistDomainMask
  assumes "store_ready mem g" "active_marker mem g" "g < 0xffffffff"
  defines "mem' \<equiv> unfinished (g + 1) (setup_config required) domains mem"
  shows "commit_until_active g (setup_config required) domains (healthy mem) = (Inr (), healthy mem')"
    "data_committed (g + 1) (setup_config required) domains mem mem'"
    "restored mem' = map_option (\<lambda>c. \<lparr>mr_sequence = g, mr_config = c\<rparr>) (snapshot mem' g)"
proof -
  have n: "g < g + 1" and sized: "sized mem" using successor_word [OF assms(3)] assms(1) by (simp_all add: store_ready_def)
  show "commit_until_active g (setup_config required) domains (healthy mem) = (Inr (), healthy mem')"
    using until_active_healthy [OF sized assms(3) setup_storable] by (simp add: setup_clean mem'_def)
  note r = unfinished_restored [OF assms(1,2) n setup_storable(1) [of required, unfolded setup_clean], of domains]
  show "data_committed (g + 1) (setup_config required) domains mem mem'"
    "restored mem' = map_option (\<lambda>c. \<lparr>mr_sequence = g, mr_config = c\<rparr>) (snapshot mem' g)" using r by (simp_all add: mem'_def)
qed

lemma committed_slot:
  assumes "data_committed n c domains mem mem'" "(d, s) \<in> data_slots"
  shows "stored mem' d s = (if mask_includes domains d \<and> s = commit_slot n d
      then Some \<lparr>rec_sequence = n, rec_data = config_data c d\<rparr> else stored mem d s)"
  using assms by (auto simp: data_committed_def)

lemma data_slot_simps:
  "(SafetyCalibrationDomain, SlotA) \<in> data_slots" "(SafetyCalibrationDomain, SlotB) \<in> data_slots"
  "(ThermalPolicyDomain, SlotA) \<in> data_slots" "(ThermalPolicyDomain, SlotB) \<in> data_slots"
  "(UserPreferencesDomain, SlotSingle) \<in> data_slots" "(NetworkAndPairingDomain, SlotSingle) \<in> data_slots"
  "(ThermalPlantDomain, SlotSingle) \<in> data_slots"
  by (simp_all add: data_slots_def used_slots_def)

lemma stored_erased: "(d, s) \<in> data_slots \<Longrightarrow> stored (replicate 8192 0xff) d s = None"
proof -
  assume "(d, s) \<in> data_slots"
  moreover have "4 \<le> slot_size d" by (cases d) simp_all
  ultimately show ?thesis using data_slots_used [of "(d, s)"] by (simp add: stored_def slot_contents_erased erased_undecodable)
qed

lemma snapshot_commissioning:
  assumes "\<And>d. d \<in> set FPR2_SNAPSHOT_DOMAINS \<Longrightarrow> live mem g d = Some \<lparr>rec_sequence = seq d, rec_data = config_data (cfg d) d\<rparr>"
  shows "map_option mc_commissioning_required (snapshot mem g) = Some (mc_commissioning_required (cfg SafetyCalibrationDomain))"
proof -
  have "live_domains mem g = [Some \<lparr>rec_sequence = seq SafetyCalibrationDomain, rec_data = config_data (cfg SafetyCalibrationDomain) SafetyCalibrationDomain\<rparr>,
      Some \<lparr>rec_sequence = seq ThermalPolicyDomain, rec_data = config_data (cfg ThermalPolicyDomain) ThermalPolicyDomain\<rparr>,
      Some \<lparr>rec_sequence = seq UserPreferencesDomain, rec_data = config_data (cfg UserPreferencesDomain) UserPreferencesDomain\<rparr>,
      Some \<lparr>rec_sequence = seq NetworkAndPairingDomain, rec_data = config_data (cfg NetworkAndPairingDomain) NetworkAndPairingDomain\<rparr>, None,
      Some \<lparr>rec_sequence = seq ThermalPlantDomain, rec_data = config_data (cfg ThermalPlantDomain) ThermalPlantDomain\<rparr>]"
    using assms by (simp add: live_domains_def FPR2_SNAPSHOT_DOMAINS_def del: live.simps)
  moreover have "list_all (\<lambda>d. live mem g d \<noteq> None) FPR2_SNAPSHOT_DOMAINS" using assms by (auto simp: list_all_iff)
  ultimately show ?thesis
    by (simp add: snapshot_live sanitize_config_def SafetyCalibration_apply_to_config_def ThermalPolicy_apply_to_config_def
        UserPreferences_apply_to_config_def NetworkAndPairing_apply_to_config_def ThermalPlantPersistence_apply_to_config_def
        SafetyCalibration_from_config_def Let_def)
qed



section \<open>Which domains a change touches\<close>

lemma mask_bits:
  fixes a b c d e :: bool
  defines "m \<equiv> (let m = 0 :: u8; m = (if a then m OR 1 else m); m = (if b then m OR 16 else m); m = (if c then m OR 2 else m);
    m = (if d then m OR 4 else m); m = (if e then m OR 8 else m) in m)"
  shows "m AND 1 \<noteq> 0 \<longleftrightarrow> a" "m AND 16 \<noteq> 0 \<longleftrightarrow> b" "m AND 2 \<noteq> 0 \<longleftrightarrow> c" "m AND 4 \<noteq> 0 \<longleftrightarrow> d" "m AND 8 \<noteq> 0 \<longleftrightarrow> e"
    "m = 0 \<longleftrightarrow> \<not> (a \<or> b \<or> c \<or> d \<or> e)"
  unfolding m_def by (cases a; cases b; cases c; cases d; cases e; simp)+

lemma mask_between_includes:
  "mask_includes (persist_domain_mask_between c p) SafetyCalibrationDomain \<longleftrightarrow>
     mc_commissioning_required c \<noteq> mc_commissioning_required p \<or> \<not> adc_eq (mc_adc_calibration c) (mc_adc_calibration p)
     \<or> mc_active_heater_curve c \<noteq> mc_active_heater_curve p \<or> mc_heater_curve_raw_observations c \<noteq> mc_heater_curve_raw_observations p
     \<or> mc_heater_curve_transaction_id c \<noteq> mc_heater_curve_transaction_id p"
  "mask_includes (persist_domain_mask_between c p) ThermalPlantDomain \<longleftrightarrow>
     mc_thermal_plant_transient_active c \<noteq> mc_thermal_plant_transient_active p
     \<or> mc_heater_supply_boundary c \<noteq> mc_heater_supply_boundary p"
  "mask_includes (persist_domain_mask_between c p) ThermalPolicyDomain \<longleftrightarrow>
     mc_active_thermal_control_profile c \<noteq> mc_active_thermal_control_profile p
     \<or> mc_thermal_control_profile_pps5a c \<noteq> mc_thermal_control_profile_pps5a p \<or> mc_thermal_profile_mode c \<noteq> mc_thermal_profile_mode p"
  "mask_includes (persist_domain_mask_between c p) UserPreferencesDomain \<longleftrightarrow>
     mc_target_temp_c c \<noteq> mc_target_temp_c p \<or> mc_selected_preset_slot c \<noteq> mc_selected_preset_slot p
     \<or> mc_presets_c c \<noteq> mc_presets_c p \<or> mc_active_cooling_enabled c \<noteq> mc_active_cooling_enabled p
     \<or> mc_post_heat_cooling_mode c \<noteq> mc_post_heat_cooling_mode p \<or> mc_heating_fan_guard_mode c \<noteq> mc_heating_fan_guard_mode p
     \<or> mc_telemetry_interval_ms c \<noteq> mc_telemetry_interval_ms p"
  "mask_includes (persist_domain_mask_between c p) NetworkAndPairingDomain \<longleftrightarrow>
     mc_wifi_ssid c \<noteq> mc_wifi_ssid p \<or> mc_wifi_password c \<noteq> mc_wifi_password p
     \<or> mc_wifi_auto_reconnect c \<noteq> mc_wifi_auto_reconnect p \<or> mc_wifi_static_ipv4 c \<noteq> mc_wifi_static_ipv4 p
     \<or> mc_lan_pairing_token c \<noteq> mc_lan_pairing_token p"
  unfolding persist_domain_mask_between_def MASK_SAFETY_def MASK_THERMAL_PLANT_def MASK_THERMAL_def MASK_PREFERENCES_def MASK_NETWORK_def
    mask_includes.simps mask_bits by (rule refl)+

lemma mask_between_empty:
  "persist_domain_mask_between c p = 0 \<longleftrightarrow> (\<forall>d. \<not> mask_includes (persist_domain_mask_between c p) d)"
proof -
  have "(\<forall>d. \<not> mask_includes m d) \<longleftrightarrow> \<not> (mask_includes m SafetyCalibrationDomain \<or> mask_includes m ThermalPlantDomain
      \<or> mask_includes m ThermalPolicyDomain \<or> mask_includes m UserPreferencesDomain \<or> mask_includes m NetworkAndPairingDomain)" for m
    by (metis PersistDomain.exhaust mask_includes.simps(5))
  then show ?thesis
    unfolding persist_domain_mask_between_def MASK_SAFETY_def MASK_THERMAL_PLANT_def MASK_THERMAL_def MASK_PREFERENCES_def MASK_NETWORK_def
    mask_includes.simps mask_bits by (simp only: mask_includes.simps MASK_SAFETY_def MASK_THERMAL_PLANT_def MASK_THERMAL_def MASK_PREFERENCES_def MASK_NETWORK_def mask_bits)
qed

lemma copied_fields:
  "mc_commissioning_required (copy_persisted_domains c m p) = (if mask_includes m SafetyCalibrationDomain then mc_commissioning_required c else mc_commissioning_required p)"
  "mc_adc_calibration (copy_persisted_domains c m p) = (if mask_includes m SafetyCalibrationDomain then mc_adc_calibration c else mc_adc_calibration p)"
  "mc_active_heater_curve (copy_persisted_domains c m p) = (if mask_includes m SafetyCalibrationDomain then mc_active_heater_curve c else mc_active_heater_curve p)"
  "mc_heater_curve_raw_observations (copy_persisted_domains c m p) = (if mask_includes m SafetyCalibrationDomain then mc_heater_curve_raw_observations c else mc_heater_curve_raw_observations p)"
  "mc_heater_curve_transaction_id (copy_persisted_domains c m p) = (if mask_includes m SafetyCalibrationDomain then mc_heater_curve_transaction_id c else mc_heater_curve_transaction_id p)"
  "mc_thermal_plant_transient_active (copy_persisted_domains c m p) = (if mask_includes m ThermalPlantDomain then mc_thermal_plant_transient_active c else mc_thermal_plant_transient_active p)"
  "mc_heater_supply_boundary (copy_persisted_domains c m p) = (if mask_includes m ThermalPlantDomain then mc_heater_supply_boundary c else mc_heater_supply_boundary p)"
  "mc_active_thermal_control_profile (copy_persisted_domains c m p) = (if mask_includes m ThermalPolicyDomain then mc_active_thermal_control_profile c else mc_active_thermal_control_profile p)"
  "mc_thermal_control_profile_pps5a (copy_persisted_domains c m p) = (if mask_includes m ThermalPolicyDomain then mc_thermal_control_profile_pps5a c else mc_thermal_control_profile_pps5a p)"
  "mc_thermal_profile_mode (copy_persisted_domains c m p) = (if mask_includes m ThermalPolicyDomain then mc_thermal_profile_mode c else mc_thermal_profile_mode p)"
  "mc_target_temp_c (copy_persisted_domains c m p) = (if mask_includes m UserPreferencesDomain then mc_target_temp_c c else mc_target_temp_c p)"
  "mc_selected_preset_slot (copy_persisted_domains c m p) = (if mask_includes m UserPreferencesDomain then mc_selected_preset_slot c else mc_selected_preset_slot p)"
  "mc_presets_c (copy_persisted_domains c m p) = (if mask_includes m UserPreferencesDomain then mc_presets_c c else mc_presets_c p)"
  "mc_active_cooling_enabled (copy_persisted_domains c m p) = (if mask_includes m UserPreferencesDomain then mc_active_cooling_enabled c else mc_active_cooling_enabled p)"
  "mc_post_heat_cooling_mode (copy_persisted_domains c m p) = (if mask_includes m UserPreferencesDomain then mc_post_heat_cooling_mode c else mc_post_heat_cooling_mode p)"
  "mc_heating_fan_guard_mode (copy_persisted_domains c m p) = (if mask_includes m UserPreferencesDomain then mc_heating_fan_guard_mode c else mc_heating_fan_guard_mode p)"
  "mc_telemetry_interval_ms (copy_persisted_domains c m p) = (if mask_includes m UserPreferencesDomain then mc_telemetry_interval_ms c else mc_telemetry_interval_ms p)"
  "mc_wifi_ssid (copy_persisted_domains c m p) = (if mask_includes m NetworkAndPairingDomain then mc_wifi_ssid c else mc_wifi_ssid p)"
  "mc_wifi_password (copy_persisted_domains c m p) = (if mask_includes m NetworkAndPairingDomain then mc_wifi_password c else mc_wifi_password p)"
  "mc_wifi_auto_reconnect (copy_persisted_domains c m p) = (if mask_includes m NetworkAndPairingDomain then mc_wifi_auto_reconnect c else mc_wifi_auto_reconnect p)"
  "mc_wifi_static_ipv4 (copy_persisted_domains c m p) = (if mask_includes m NetworkAndPairingDomain then mc_wifi_static_ipv4 c else mc_wifi_static_ipv4 p)"
  "mc_lan_pairing_token (copy_persisted_domains c m p) = (if mask_includes m NetworkAndPairingDomain then mc_lan_pairing_token c else mc_lan_pairing_token p)"
  unfolding copy_persisted_domains_def Let_def by (simp_all del: mask_includes.simps)

text \<open>
  \<^bold>\<open>No change is missed.\<close> The mask between two configurations names every domain that
  differs: after these domains are copied over, no domain is left to commit. The gains and offsets of the
  calibration must be numbers, since a NaN differs from itself.
\<close>

theorem mask_names_what_changed:
  assumes "adc_eq (mc_adc_calibration c) (mc_adc_calibration c)"
  shows "persist_domain_mask_between c (copy_persisted_domains c (persist_domain_mask_between c p) p) = 0"
proof -
  let ?m = "persist_domain_mask_between c p"
  have "\<not> mask_includes (persist_domain_mask_between c (copy_persisted_domains c ?m p)) d" for d
  proof (cases "mask_includes ?m d")
    case True
    then show ?thesis using assms by (cases d) (simp_all only: mask_between_includes copied_fields if_True simp_thms mask_includes.simps(5))
  next
    case False
    then show ?thesis by (cases d) (auto simp only: mask_between_includes copied_fields if_False mask_includes.simps(5))
  qed
  then show ?thesis unfolding mask_between_empty [of c "copy_persisted_domains c ?m p"] by blast
qed

theorem mask_names_what_changed_witness:
  "persist_domain_mask_between (setup_config False)
     (copy_persisted_domains (setup_config False) (persist_domain_mask_between (setup_config False) MemoryConfig_default) MemoryConfig_default) = 0"
proof (rule mask_names_what_changed)
  show "adc_eq (mc_adc_calibration (setup_config False)) (mc_adc_calibration (setup_config False))"
    using setup_storable(2) [of False] unfolding setup_clean
    by (simp add: comparable_def PersistDomainData_eq_def safety_eq_def SafetyCalibration_from_config_def)
qed

end
