(* ===== verification/Heater_Scan.thy ===== *)
theory Heater_Scan
  imports Heater_Supply "HOL-Library.Signed_Division"
begin

text \<open>
  The scan that measures a supply boundary, \<open>src/firmware/src/heater_supply_scan.rs\<close>: a state machine that requests
  contracts of the source, heats the plate under them, watches whether the input voltage follows the request, and
  retains the operating points it observed.

  Temperatures in hundredths of a degree are \<open>int\<close> with the saturation of \<open>i16\<close> written out. Every operation that
  indexes the point array answers with \<open>Panic\<close> where the code would.
\<close>

section \<open>Constants and data\<close>

definition SETTLE_MS :: u32 where [simp]: "SETTLE_MS = 1000"
definition RAPID_SETTLE_MS :: u32 where [simp]: "RAPID_SETTLE_MS = 500"
definition STAGE_TIMEOUT_MS :: u32 where [simp]: "STAGE_TIMEOUT_MS = 900000"
definition MIN_THERMAL_COVERAGE_CENTI_C :: int where [simp]: "MIN_THERMAL_COVERAGE_CENTI_C = 22000"
definition RAPID_MIN_COVERAGE_CENTI_C :: int where [simp]: "RAPID_MIN_COVERAGE_CENTI_C = MIN_BOUNDARY_COVERAGE_CENTI_C"
definition RAPID_REPROBE_STEP_CENTI_C :: int where [simp]: "RAPID_REPROBE_STEP_CENTI_C = 1000"
definition RAPID_COARSE_STEP_MV :: u16 where [simp]: "RAPID_COARSE_STEP_MV = 500"
definition RAPID_FINE_STEP_MV :: u16 where [simp]: "RAPID_FINE_STEP_MV = 100"
definition RAPID_SOURCE_CEILING_CONFIRMATIONS :: u8 where [simp]: "RAPID_SOURCE_CEILING_CONFIRMATIONS = 2"
definition PROBE_RECOVERY_STEP_MV :: u16 where [simp]: "PROBE_RECOVERY_STEP_MV = 500"
definition NORMAL_PROBE_FLAT_CONFIRMATIONS :: u8 where [simp]: "NORMAL_PROBE_FLAT_CONFIRMATIONS = 5"
definition NORMAL_PROBE_AMBIGUOUS_CONFIRMATIONS :: u8 where [simp]: "NORMAL_PROBE_AMBIGUOUS_CONFIRMATIONS = 8"
definition NORMAL_PROBE_TIMEOUT_MS :: u32 where [simp]: "NORMAL_PROBE_TIMEOUT_MS = 10000"
definition NORMAL_PROBE_MIN_TEMPERATURE_STEP_CENTI_C :: int where [simp]: "NORMAL_PROBE_MIN_TEMPERATURE_STEP_CENTI_C = 1000"
definition RAPID_FINE_RETEST_WINDOW_MV :: u16 where [simp]: "RAPID_FINE_RETEST_WINDOW_MV = 500"
definition TERMINAL_PROBE_CURRENT_STEP_MA :: u16 where [simp]: "TERMINAL_PROBE_CURRENT_STEP_MA = 50"
definition RAPID_MIN_BOUNDARY_SPAN_MV :: u16 where [simp]: "RAPID_MIN_BOUNDARY_SPAN_MV = 500"
definition THREE_AMP_COVERAGE_START_CENTI_C :: int where [simp]: "THREE_AMP_COVERAGE_START_CENTI_C = 6000"

datatype ScanPhase =
  Baseline | Preflight | PreflightRecovery | Sweep | SourceBoundaryRecovery | RapidWarmup | TerminalProbe
| TemperatureSettle | Equilibrium | ProbeRecovery | Complete | Failed

fun ScanPhase_label :: "ScanPhase \<Rightarrow> string" where
  "ScanPhase_label Baseline = ''baseline''"
| "ScanPhase_label Preflight = ''preflight''"
| "ScanPhase_label PreflightRecovery = ''preflight_recovery''"
| "ScanPhase_label Sweep = ''sweep''"
| "ScanPhase_label SourceBoundaryRecovery = ''source_boundary_recovery''"
| "ScanPhase_label RapidWarmup = ''rapid_warmup''"
| "ScanPhase_label TerminalProbe = ''terminal_probe''"
| "ScanPhase_label TemperatureSettle = ''temperature_settle''"
| "ScanPhase_label Equilibrium = ''equilibrium''"
| "ScanPhase_label ProbeRecovery = ''probe_recovery''"
| "ScanPhase_label Complete = ''complete''"
| "ScanPhase_label Failed = ''failed''"

datatype ScanMode = Detailed | Rapid

datatype ScanFailure = WifiChanged | SupplyUnstable | AmbiguousResponse | StageTimeout | InvalidSample

fun ScanFailure_code :: "ScanFailure \<Rightarrow> string" where
  "ScanFailure_code WifiChanged = ''supply_scan_wifi_changed''"
| "ScanFailure_code SupplyUnstable = ''supply_scan_supply_unstable''"
| "ScanFailure_code AmbiguousResponse = ''supply_scan_ambiguous_response''"
| "ScanFailure_code StageTimeout = ''supply_scan_stage_timeout''"
| "ScanFailure_code InvalidSample = ''supply_scan_invalid_sample''"

record ScanInput =
  in_now_ms :: u32
  in_temperature_centi_c :: int
  in_wifi_started :: bool
  in_confirmed :: bool
  in_physical_percent :: u8
  in_rtd_code :: u16
  in_rtd_mv :: u16
  in_vin_code :: u16
  in_vin_mv :: u16

record ScanOutput =
  out_request_mv :: u16
  out_request_ma :: u16
  out_heater_enabled :: bool

record SupplyScan =
  sc_boundary :: SupplyBoundary
  sc_phase :: ScanPhase
  sc_failure :: "ScanFailure option"
  sc_cutoff_reached :: bool
  sc_request_mv :: u16
  sc_request_ma :: u16
  sc_changed_at_ms :: u32
  sc_stage_started_ms :: u32
  sc_baseline_vin_mv :: u16
  sc_baseline_request_mv :: u16
  sc_previous :: "ScanInput option"
  sc_last_tracking :: "BoundaryPoint option"
  sc_flat_request_mv :: u16
  sc_flat_count :: u8
  sc_ambiguous_count :: u8
  sc_equilibrium :: EquilibriumWindow
  sc_stability_temperature :: "int option"
  sc_normal_probe :: bool
  sc_normal_probe_started_ms :: u32
  sc_last_normal_probe_temperature :: "int option"
  sc_return_current_ma :: u16
  sc_return_request_mv :: u16
  sc_normal_bins :: "BoundaryPoint option list"
  sc_rapid_tracking_confirmations :: u8
  sc_last_rapid_probe_temperature :: "int option"
  sc_rapid_boundary_reached :: bool
  sc_rapid_probe_since_boundary :: bool
  sc_rapid_failed_probe_mv :: "u16 option"
  sc_rapid_failed_probe_count :: u8
  sc_terminal_probe_confirmations :: u8
  sc_hot_boundary_reached :: bool
  sc_mode :: ScanMode

abbreviation scan_min_mv :: "SupplyScan \<Rightarrow> u16" where "scan_min_mv s \<equiv> source_min_mv (sc_boundary s)"
abbreviation scan_max_mv :: "SupplyScan \<Rightarrow> u16" where "scan_max_mv s \<equiv> source_max_mv (sc_boundary s)"

definition new_with_mode :: "SupplyBoundary \<Rightarrow> ScanMode \<Rightarrow> SupplyScan option" where
  "new_with_mode b mode =
     (if source_min_mv b < 5500 \<or> source_min_mv b \<ge> source_max_mv b \<or> source_max_mv b > 21000 \<or> source_max_ma b < 3000
      then None
      else Some
        \<lparr>sc_boundary = b\<lparr>point_count := 0, cutoff_reached := False, points := replicate (length (points b)) BoundaryPoint_default\<rparr>,
         sc_phase = Baseline, sc_failure = None, sc_cutoff_reached = False, sc_request_mv = source_max_mv b,
         sc_request_ma = 3000, sc_changed_at_ms = 0, sc_stage_started_ms = 0, sc_baseline_vin_mv = 0,
         sc_baseline_request_mv = source_max_mv b, sc_previous = None, sc_last_tracking = None,
         sc_flat_request_mv = 0, sc_flat_count = 0, sc_ambiguous_count = 0, sc_equilibrium = EquilibriumWindow_default,
         sc_stability_temperature = None, sc_normal_probe = False, sc_normal_probe_started_ms = 0,
         sc_last_normal_probe_temperature = None, sc_return_current_ma = 3000, sc_return_request_mv = source_min_mv b,
         sc_normal_bins = replicate 20 None, sc_rapid_tracking_confirmations = 0, sc_last_rapid_probe_temperature = None,
         sc_rapid_boundary_reached = False, sc_rapid_probe_since_boundary = False, sc_rapid_failed_probe_mv = None,
         sc_rapid_failed_probe_count = 0, sc_terminal_probe_confirmations = 0, sc_hot_boundary_reached = False,
         sc_mode = mode\<rparr>)"

definition scan_new :: "SupplyBoundary \<Rightarrow> SupplyScan option" where
  "scan_new b = new_with_mode b Detailed"

definition scan_new_rapid :: "SupplyBoundary \<Rightarrow> SupplyScan option" where
  "scan_new_rapid b = new_with_mode b Rapid"

section \<open>Helpers of the scan\<close>

definition is_rapid :: "SupplyScan \<Rightarrow> bool" where
  "is_rapid s \<longleftrightarrow> sc_mode s = Rapid"

definition scan_settle_ms :: "SupplyScan \<Rightarrow> u32" where
  "scan_settle_ms s =
     (case (sc_mode s, sc_phase s) of
        (Rapid, TemperatureSettle) \<Rightarrow> SETTLE_MS
      | (Detailed, _) \<Rightarrow> SETTLE_MS
      | (Rapid, _) \<Rightarrow> RAPID_SETTLE_MS)"

definition rapid_same_current_recovery :: "SupplyScan \<Rightarrow> bool" where
  "rapid_same_current_recovery s \<longleftrightarrow> is_rapid s \<and> sc_phase s \<in> {ProbeRecovery, SourceBoundaryRecovery}"

definition scan_output :: "SupplyScan \<Rightarrow> ScanOutput" where
  "scan_output s =
     \<lparr>out_request_mv = sc_request_mv s, out_request_ma = sc_request_ma s,
      out_heater_enabled = (sc_phase s \<in> {Sweep, RapidWarmup, TerminalProbe, TemperatureSettle, Equilibrium}
        \<or> rapid_same_current_recovery s)\<rparr>"

definition scan_fail :: "ScanFailure \<Rightarrow> SupplyScan \<Rightarrow> SupplyScan" where
  "scan_fail reason s = s\<lparr>sc_phase := Failed, sc_failure := Some reason\<rparr>"

definition scan_change :: "ScanInput \<Rightarrow> u16 \<Rightarrow> u16 \<Rightarrow> SupplyScan \<Rightarrow> SupplyScan" where
  "scan_change i mv ma s = s\<lparr>sc_request_mv := mv, sc_request_ma := ma, sc_changed_at_ms := in_now_ms i\<rparr>"

text \<open>\<open>i16::saturating_sub\<close>.\<close>

definition centi_sat_sub :: "int \<Rightarrow> int \<Rightarrow> int" where
  "centi_sat_sub a b = clamp (- 32768) 32767 (a - b)"

definition stability_filter :: "int \<Rightarrow> SupplyScan \<Rightarrow> int \<times> SupplyScan" where
  "stability_filter raw s =
     (let filtered = (case sc_stability_temperature s of None \<Rightarrow> raw | Some previous \<Rightarrow> previous + (raw - previous) sdiv 4)
      in (clamp (- 32768) 32767 filtered, s\<lparr>sc_stability_temperature := Some filtered\<rparr>))"

definition scan_point :: "SupplyScan \<Rightarrow> ScanInput \<Rightarrow> BoundaryPoint" where
  "scan_point s i =
     \<lparr>elapsed_ms = in_now_ms i, rtd_code = in_rtd_code i, rtd_mv = in_rtd_mv i, vin_code = in_vin_code i,
      vin_mv = in_vin_mv i, request_current_ma = sc_request_ma s, tracking_request_mv = sc_request_mv s,
      flat_request_mv = sc_flat_request_mv s, tracking_only = sc_normal_probe s\<rparr>"

text \<open>\<open>u32::saturating_mul\<close>.\<close>

definition sat_mul32 :: "u32 \<Rightarrow> u32 \<Rightarrow> u32" where
  "sat_mul32 a b = (if unat a * unat b < 2 ^ 32 then a * b else - 1)"

definition preflight_min_vin_mv :: "SupplyScan \<Rightarrow> u16" where
  "preflight_min_vin_mv s =
     (let request_mv = max (sc_baseline_request_mv s) 1;
          scaled_floor = sat_mul32 (ucast (sc_baseline_vin_mv s)) (ucast (scan_min_mv s)) div ucast request_mv
      in ucast (min (div_ceil (sat_mul32 scaled_floor 90) 100) 65535))"

definition voltage_tracks_request :: "SupplyScan \<Rightarrow> ScanInput \<Rightarrow> bool" where
  "voltage_tracks_request s i =
     (let relative_match = (case sc_last_tracking s of
            None \<Rightarrow> True | Some point \<Rightarrow> voltage_response_matches point (sc_request_mv s) (in_vin_mv i));
          absolute_match = (if sc_baseline_vin_mv s = 0 \<or> sc_baseline_request_mv s = 0 then True
            else let expected_vin_mv = div_ceil (sat_mul32 (ucast (sc_baseline_vin_mv s)) (ucast (sc_request_mv s)))
                       (ucast (sc_baseline_request_mv s))
              in (ucast (in_vin_mv i) :: u32) * 100 \<ge> expected_vin_mv * 90)
      in relative_match \<and> absolute_match)"

definition rapid_flat_boundary_ready :: "SupplyScan \<Rightarrow> ScanInput \<Rightarrow> bool" where
  "rapid_flat_boundary_ready s i =
     (if \<not> is_rapid s then True
      else case sc_last_tracking s of
        None \<Rightarrow> False
      | Some tracked \<Rightarrow> sat_sub (sc_request_mv s) (tracking_request_mv tracked) \<ge> RAPID_MIN_BOUNDARY_SPAN_MV
          \<or> \<not> voltage_response_matches tracked (sc_request_mv s) (in_vin_mv i))"

definition rapid_probe_step_mv :: "SupplyScan \<Rightarrow> u16" where
  "rapid_probe_step_mv s =
     (if \<not> sc_rapid_boundary_reached s then RAPID_COARSE_STEP_MV
      else case sc_rapid_failed_probe_mv s of
        None \<Rightarrow> RAPID_FINE_STEP_MV
      | Some failed \<Rightarrow>
          if sat_add (sc_request_mv s) RAPID_FINE_RETEST_WINDOW_MV < failed then RAPID_COARSE_STEP_MV
          else if sc_request_mv s < failed then RAPID_FINE_STEP_MV
          else if sat_add (sc_request_mv s) RAPID_COARSE_STEP_MV \<ge> scan_max_mv s then RAPID_FINE_STEP_MV
          else RAPID_COARSE_STEP_MV)"

definition terminal_probe_target :: "SupplyScan \<Rightarrow> (u16 \<times> u16) option" where
  "terminal_probe_target s =
     (let b = sc_boundary s; target_mv = min (advertised_max_mv b) 21000 div 100 * 100 in
      if target_mv \<le> source_max_mv b \<or> source_power_limit_mw b = 0 then None
      else let target_ma = ucast (source_power_limit_mw b * 1000 div ucast target_mv)
                 div TERMINAL_PROBE_CURRENT_STEP_MA * TERMINAL_PROBE_CURRENT_STEP_MA
        in if target_ma \<ge> 1000 then Some (target_mv, target_ma) else None)"

section \<open>Retention\<close>

text \<open>The loop that moves the points to keep to the front of the array.\<close>

definition compact_points :: "BoundaryPoint list \<Rightarrow> nat \<Rightarrow> BoundaryPoint list \<times> nat" where
  "compact_points ps count =
     fold (\<lambda>index (ps, keep). if \<not> tracking_only (ps ! index) then (ps[keep := ps ! index], keep + 1) else (ps, keep))
       [0..<count] (ps, 0)"

fun retain_all :: "BoundaryPoint list \<Rightarrow> SupplyBoundary \<Rightarrow> SupplyBoundary rust" where
  "retain_all [] b = Ret b"
| "retain_all (point # ps) b = rbind (retain b point) (\<lambda>(b, _). retain_all ps b)"

definition rebuild_normal_points :: "SupplyScan \<Rightarrow> SupplyScan rust" where
  "rebuild_normal_points s =
     (let b = sc_boundary s; count = unat (point_count b) in
      if count > length (points b) then Panic
      else case compact_points (points b) count of (ps, keep) \<Rightarrow>
        rbind (retain_all (List.map_filter (\<lambda>x. x) (sc_normal_bins s)) (b\<lparr>points := ps, point_count := of_nat keep\<rparr>))
          (\<lambda>b. Ret (s\<lparr>sc_boundary := b\<rparr>)))"

definition normal_bin :: "ScanInput \<Rightarrow> nat" where
  "normal_bin i = nat (min (max (in_temperature_centi_c i - 2000) 0 sdiv 1000) 19)"

definition retain_normal_tracking :: "ScanInput \<Rightarrow> SupplyScan \<Rightarrow> SupplyScan rust" where
  "retain_normal_tracking i s =
     (if sc_request_ma s \<noteq> 3000 then Ret s
      else let bin = normal_bin i; point = (scan_point s i)\<lparr>tracking_only := True\<rparr> in
        if bin \<ge> length (sc_normal_bins s) then Panic
        else if (case sc_normal_bins s ! bin of None \<Rightarrow> True
                 | Some previous \<Rightarrow> tracking_request_mv point > tracking_request_mv previous)
        then rebuild_normal_points (s\<lparr>sc_normal_bins := (sc_normal_bins s)[bin := Some point]\<rparr>)
        else Ret s)"

definition retain_tracking :: "SupplyScan \<Rightarrow> SupplyScan rust" where
  "retain_tracking s =
     (case sc_last_tracking s of
        None \<Rightarrow> Ret s
      | Some point \<Rightarrow> if sc_normal_probe s then Ret s
          else rbind (retain (sc_boundary s) point) (\<lambda>(b, _). Ret (s\<lparr>sc_boundary := b\<rparr>)))"

section \<open>The preflight and the terminal probe\<close>

definition preflight :: "ScanInput \<Rightarrow> SupplyScan \<Rightarrow> SupplyScan" where
  "preflight i s =
     (if in_vin_mv i < preflight_min_vin_mv s then scan_fail SupplyUnstable s
      else case sc_previous s of
        Some previous \<Rightarrow>
          if (ucast (in_vin_mv i) :: u32) * 100 < ucast (in_vin_mv previous) * 99 then scan_fail SupplyUnstable s
          else let ma = (if is_rapid s then 3000 else MIN_HEATED_CURRENT_MA) in
            scan_change i (scan_min_mv s) ma
              (s\<lparr>sc_request_ma := ma, sc_phase := Sweep, sc_previous := None, sc_normal_probe := False,
                 sc_return_request_mv := scan_min_mv s, sc_last_tracking := None, sc_flat_request_mv := 0,
                 sc_flat_count := 0, sc_ambiguous_count := 0, sc_equilibrium := EquilibriumWindow_default,
                 sc_stage_started_ms := in_now_ms i\<rparr>)
      | None \<Rightarrow> s\<lparr>sc_previous := Some i, sc_changed_at_ms := in_now_ms i\<rparr>)"

definition begin_terminal_probe :: "ScanInput \<Rightarrow> SupplyScan \<Rightarrow> SupplyScan \<times> bool" where
  "begin_terminal_probe i s =
     (case terminal_probe_target s of
        None \<Rightarrow> (s, False)
      | Some (target_mv, target_ma) \<Rightarrow>
          (s\<lparr>sc_request_mv := target_mv, sc_request_ma := target_ma, sc_terminal_probe_confirmations := 0,
             sc_phase := TerminalProbe, sc_previous := None, sc_changed_at_ms := in_now_ms i,
             sc_stage_started_ms := in_now_ms i\<rparr>, True))"

definition begin_terminal_probe_or_complete :: "ScanInput \<Rightarrow> SupplyScan \<Rightarrow> SupplyScan" where
  "begin_terminal_probe_or_complete i s =
     (case begin_terminal_probe i s of (s, begun) \<Rightarrow> if \<not> begun then s\<lparr>sc_phase := Complete\<rparr> else s)"

definition terminal_probe :: "ScanInput \<Rightarrow> SupplyScan \<Rightarrow> SupplyScan rust" where
  "terminal_probe i s =
     (if \<not> in_confirmed i \<or> in_physical_percent i \<noteq> 100 then Ret (s\<lparr>sc_changed_at_ms := in_now_ms i\<rparr>)
      else if \<not> voltage_tracks_request s i then
        Ret (scan_change i (scan_max_mv s) 3000
          (s\<lparr>sc_terminal_probe_confirmations := 0, sc_phase := SourceBoundaryRecovery, sc_previous := None,
             sc_return_request_mv := scan_max_mv s, sc_return_current_ma := 3000, sc_rapid_tracking_confirmations := 0,
             sc_rapid_probe_since_boundary := True,
             sc_last_rapid_probe_temperature := Some (in_temperature_centi_c i)\<rparr>))
      else let s = s\<lparr>sc_terminal_probe_confirmations := sat_add (sc_terminal_probe_confirmations s) 1\<rparr> in
        if sc_terminal_probe_confirmations s \<ge> 2 then
          rbind (retain (sc_boundary s) ((scan_point s i)\<lparr>flat_request_mv := 0, tracking_only := True\<rparr>))
            (\<lambda>(b, kept). let s = s\<lparr>sc_boundary := b\<rparr> in
               Ret (if \<not> kept then scan_fail SupplyUnstable s else s\<lparr>sc_phase := Complete\<rparr>))
        else Ret (s\<lparr>sc_changed_at_ms := in_now_ms i\<rparr>))"

section \<open>The probes at 3 A and the sweep\<close>

definition begin_three_amp_probe :: "ScanInput \<Rightarrow> SupplyScan \<Rightarrow> SupplyScan" where
  "begin_three_amp_probe i s =
     (if (case sc_last_normal_probe_temperature s of None \<Rightarrow> False
          | Some previous \<Rightarrow> centi_sat_sub (in_temperature_centi_c i) previous < NORMAL_PROBE_MIN_TEMPERATURE_STEP_CENTI_C)
      then scan_change i (scan_min_mv s) (min (sat_add (sc_request_ma s) 100) 3000)
        (s\<lparr>sc_normal_probe := False, sc_phase := Sweep, sc_previous := None, sc_last_tracking := None,
           sc_flat_count := 0, sc_ambiguous_count := 0, sc_flat_request_mv := 0,
           sc_equilibrium := EquilibriumWindow_default, sc_stage_started_ms := in_now_ms i\<rparr>)
      else let return_mv = max (sc_request_mv s) (scan_min_mv s);
               return_ma = (if sc_phase s = Equilibrium then min (sc_request_ma s + 100) 3000 else sc_request_ma s) in
        scan_change i return_mv 3000
          (s\<lparr>sc_return_request_mv := return_mv, sc_normal_probe := True,
             sc_last_normal_probe_temperature := Some (in_temperature_centi_c i), sc_return_current_ma := return_ma,
             sc_phase := Sweep, sc_previous := None, sc_last_tracking := None, sc_flat_count := 0,
             sc_ambiguous_count := 0, sc_flat_request_mv := 0, sc_stage_started_ms := in_now_ms i,
             sc_normal_probe_started_ms := in_now_ms i\<rparr>))"

definition finish_normal_probe :: "ScanInput \<Rightarrow> SupplyScan \<Rightarrow> SupplyScan" where
  "finish_normal_probe i s =
     scan_change i (sc_request_mv s) (sc_return_current_ma s)
       (s\<lparr>sc_normal_probe := False, sc_phase := ProbeRecovery, sc_previous := None, sc_last_tracking := None,
          sc_flat_count := 0, sc_flat_request_mv := 0, sc_stage_started_ms := in_now_ms i\<rparr>)"

definition begin_equilibrium :: "ScanInput \<Rightarrow> SupplyScan \<Rightarrow> SupplyScan" where
  "begin_equilibrium i s =
     (case sc_last_tracking s of
        None \<Rightarrow> scan_fail AmbiguousResponse s
      | Some point \<Rightarrow>
          if sc_normal_probe s then finish_normal_probe i s
          else if is_rapid s then
            s\<lparr>sc_phase := RapidWarmup, sc_previous := None, sc_last_rapid_probe_temperature := None,
              sc_changed_at_ms := in_now_ms i, sc_request_mv := tracking_request_mv point\<rparr>
          else scan_change i (max (sat_sub (tracking_request_mv point) 100) (scan_min_mv s)) (sc_request_ma s)
            (s\<lparr>sc_phase := Equilibrium, sc_equilibrium := EquilibriumWindow_default, sc_previous := Some i\<rparr>))"

definition probe_next_voltage :: "ScanInput \<Rightarrow> SupplyScan \<Rightarrow> SupplyScan" where
  "probe_next_voltage i s =
     (if sc_request_mv s \<ge> scan_max_mv s then
        (if is_rapid s then
           s\<lparr>sc_phase := RapidWarmup, sc_previous := None, sc_last_rapid_probe_temperature := None,
             sc_changed_at_ms := in_now_ms i\<rparr>
         else begin_equilibrium i s)
      else let step_mv = (if is_rapid s then rapid_probe_step_mv s else 100) in
        scan_change i (min (sat_add (sc_request_mv s) step_mv) (scan_max_mv s)) (sc_request_ma s) s)"

definition handle_ambiguous_confirmation :: "ScanInput \<Rightarrow> SupplyScan \<Rightarrow> SupplyScan" where
  "handle_ambiguous_confirmation i s =
     (if rapid_flat_boundary_ready s i then begin_equilibrium i (s\<lparr>sc_flat_request_mv := sc_request_mv s\<rparr>)
      else probe_next_voltage i (s\<lparr>sc_ambiguous_count := 0\<rparr>))"

definition handle_flat_confirmation :: "ScanInput \<Rightarrow> SupplyScan \<Rightarrow> SupplyScan" where
  "handle_flat_confirmation i s =
     (if \<not> rapid_flat_boundary_ready s i then probe_next_voltage i (s\<lparr>sc_flat_count := 0\<rparr>)
      else let s = s\<lparr>sc_flat_request_mv := sc_request_mv s\<rparr> in
        begin_equilibrium i
          (s\<lparr>sc_last_tracking := map_option (\<lambda>point. point\<lparr>flat_request_mv := sc_flat_request_mv s\<rparr>) (sc_last_tracking s)\<rparr>))"

definition last_safe_point :: "SupplyScan \<Rightarrow> BoundaryPoint option rust" where
  "last_safe_point s =
     (case (case sc_last_tracking s of None \<Rightarrow> None
            | Some point \<Rightarrow> if tracking_request_mv point < sc_request_mv s then Some point else None) of
        Some point \<Rightarrow> Ret (Some point)
      | None \<Rightarrow>
          if unat (point_count (sc_boundary s)) > length (points (sc_boundary s)) then Panic
          else Ret (max_by (\<lambda>p q. tracking_request_mv p \<le> tracking_request_mv q)
            (filter (\<lambda>point. request_current_ma point = sc_request_ma s \<and> tracking_request_mv point < sc_request_mv s)
              (live_points (sc_boundary s)))))"

definition begin_source_boundary_recovery :: "ScanInput \<Rightarrow> SupplyScan \<Rightarrow> SupplyScan rust" where
  "begin_source_boundary_recovery i s =
     rbind (last_safe_point s) (\<lambda>last_safe.
       let failed = sc_request_mv s;
           recovery_step_mv = (if is_rapid s then RAPID_COARSE_STEP_MV else PROBE_RECOVERY_STEP_MV);
           coarse_recovery_mv = max (sat_sub failed recovery_step_mv) (scan_min_mv s);
           return_mv = (case last_safe of None \<Rightarrow> coarse_recovery_mv
             | Some point \<Rightarrow> max (min (tracking_request_mv point) coarse_recovery_mv) (scan_min_mv s));
           s = s\<lparr>sc_return_request_mv := return_mv\<rparr>
       in if return_mv \<ge> failed then Ret (scan_fail SupplyUnstable s)
          else let s = s\<lparr>sc_return_current_ma := sc_request_ma s, sc_normal_probe := False, sc_last_tracking := None\<rparr>;
                   hot = (in_temperature_centi_c i \<ge> RAPID_MIN_COVERAGE_CENTI_C);
                   s = (if is_rapid s then
                          s\<lparr>sc_rapid_boundary_reached := True,
                            sc_rapid_failed_probe_count := (if hot then sat_add (sc_rapid_failed_probe_count s) 1 else 0),
                            sc_rapid_failed_probe_mv := Some (sc_request_mv s), sc_hot_boundary_reached := hot\<rparr>
                        else s)
            in Ret (scan_change i return_mv (sc_return_current_ma s)
              (s\<lparr>sc_rapid_tracking_confirmations := 0, sc_phase := SourceBoundaryRecovery, sc_previous := None,
                 sc_flat_count := 0, sc_ambiguous_count := 0, sc_flat_request_mv := sc_request_mv s\<rparr>)))"

text \<open>The end of \<open>sweep\<close>, after the response was classified as tracking or flat.\<close>

definition sweep_classified :: "ScanInput \<Rightarrow> SupplyScan \<Rightarrow> SupplyScan" where
  "sweep_classified i s =
     (let s = s\<lparr>sc_previous := Some i\<rparr> in
      if sc_flat_count s \<ge> (if sc_normal_probe s then NORMAL_PROBE_FLAT_CONFIRMATIONS else 2)
      then handle_flat_confirmation i s else probe_next_voltage i s)"

definition sweep :: "ScanInput \<Rightarrow> SupplyScan \<Rightarrow> SupplyScan rust" where
  "sweep i s =
     (case sc_previous s of
        None \<Rightarrow> rbind (retain_normal_tracking i (s\<lparr>sc_last_tracking := Some (scan_point s i)\<rparr>))
          (\<lambda>s. Ret (probe_next_voltage i (s\<lparr>sc_previous := Some i\<rparr>)))
      | Some previous \<Rightarrow>
          if is_rapid s \<and> \<not> voltage_tracks_request s i then begin_source_boundary_recovery i s
          else if is_rapid s \<and> sc_request_mv s \<ge> scan_max_mv s then
            (if voltage_tracks_request s i then
               Ret (s\<lparr>sc_phase := RapidWarmup, sc_previous := Some i, sc_rapid_tracking_confirmations := 0,
                      sc_last_rapid_probe_temperature := None, sc_changed_at_ms := in_now_ms i\<rparr>)
             else begin_source_boundary_recovery i s)
          else
            let expected_delta = div_ceil (ucast (sc_baseline_vin_mv s) * 100) (ucast (max (sc_baseline_request_mv s) 1)) :: u32;
                observed_delta = ucast (sat_sub (in_vin_mv i) (in_vin_mv previous)) :: u32;
                thermal_ramp = (\<bar>in_temperature_centi_c i - in_temperature_centi_c previous\<bar> > 100)
            in if observed_delta * 100 \<ge> expected_delta * 80 then
                 rbind (retain_normal_tracking i (s\<lparr>sc_last_tracking := Some (scan_point s i)\<rparr>))
                   (\<lambda>s. Ret (sweep_classified i (s\<lparr>sc_flat_count := 0, sc_ambiguous_count := 0\<rparr>)))
               else if thermal_ramp then
                 Ret (probe_next_voltage i (s\<lparr>sc_flat_count := 0, sc_ambiguous_count := 0, sc_previous := Some i\<rparr>))
               else if observed_delta * 100 \<le> expected_delta * 25 then
                 Ret (sweep_classified i (s\<lparr>sc_flat_count := sc_flat_count s + 1\<rparr>))
               else
                 let s = s\<lparr>sc_ambiguous_count := sat_add (sc_ambiguous_count s) 1, sc_previous := Some i,
                           sc_changed_at_ms := in_now_ms i\<rparr>
                 in Ret (if sc_ambiguous_count s \<ge> (if sc_normal_probe s then NORMAL_PROBE_AMBIGUOUS_CONFIRMATIONS else 5)
                         then handle_ambiguous_confirmation i s else s))"

section \<open>The warm-up of the rapid scan\<close>

definition begin_rapid_voltage_reprobe :: "ScanInput \<Rightarrow> SupplyScan \<Rightarrow> SupplyScan" where
  "begin_rapid_voltage_reprobe i s =
     (let stepped = sat_add (sc_request_mv s) (rapid_probe_step_mv s);
          next_mv = min (case sc_rapid_failed_probe_mv s of
              None \<Rightarrow> stepped
            | Some failed \<Rightarrow>
                if failed > sc_request_mv s \<and> sat_sub failed (sc_request_mv s) \<le> RAPID_FINE_RETEST_WINDOW_MV
                then failed else stepped) (scan_max_mv s)
      in if next_mv \<le> sc_request_mv s then s\<lparr>sc_phase := Complete\<rparr>
         else scan_change i next_mv 3000
           (s\<lparr>sc_phase := Sweep, sc_normal_probe := False, sc_previous := Some i,
              sc_last_tracking := Some (scan_point (s\<lparr>sc_normal_probe := False\<rparr>) i), sc_flat_request_mv := 0,
              sc_flat_count := 0, sc_ambiguous_count := 0, sc_equilibrium := EquilibriumWindow_default,
              sc_stage_started_ms := in_now_ms i, sc_rapid_tracking_confirmations := 0,
              sc_last_rapid_probe_temperature := Some (in_temperature_centi_c i),
              sc_rapid_probe_since_boundary := True\<rparr>))"

definition handle_rapid_hot_boundary :: "ScanInput \<Rightarrow> SupplyScan \<Rightarrow> SupplyScan \<times> bool" where
  "handle_rapid_hot_boundary i s =
     (if \<not> sc_hot_boundary_reached s \<or> in_temperature_centi_c i < RAPID_MIN_COVERAGE_CENTI_C then (s, False)
      else if sc_rapid_failed_probe_count s \<ge> RAPID_SOURCE_CEILING_CONFIRMATIONS
      then (begin_terminal_probe_or_complete i s, True)
      else if (case sc_rapid_failed_probe_mv s of None \<Rightarrow> False | Some failed \<Rightarrow> sc_request_mv s < failed)
      then (begin_rapid_voltage_reprobe i s, True)
      else (s, False))"

definition rapid_hot_hold_ready :: "ScanInput \<Rightarrow> SupplyScan \<Rightarrow> bool" where
  "rapid_hot_hold_ready i s =
     (case sc_last_rapid_probe_temperature s of None \<Rightarrow> False
      | Some previous \<Rightarrow> centi_sat_sub (in_temperature_centi_c i) previous \<ge> RAPID_REPROBE_STEP_CENTI_C)"

definition rapid_reprobe_due :: "ScanInput \<Rightarrow> SupplyScan \<Rightarrow> bool" where
  "rapid_reprobe_due i s =
     (if sc_rapid_boundary_reached s then
        \<not> sc_rapid_probe_since_boundary s \<or> rapid_hot_hold_ready i s
        \<or> (case sc_rapid_failed_probe_mv s of None \<Rightarrow> False | Some failed \<Rightarrow> sc_request_mv s \<ge> failed)
      else rapid_hot_hold_ready i s)"

text \<open>What \<open>rapid_warmup\<close> decides once two samples in a row tracked the request.\<close>

definition rapid_warmup_confirmed :: "ScanInput \<Rightarrow> SupplyScan \<Rightarrow> SupplyScan" where
  "rapid_warmup_confirmed i s =
     (case handle_rapid_hot_boundary i s of (s, handled) \<Rightarrow>
        if handled then s
        else if rapid_reprobe_due i s \<and> sc_request_mv s < scan_max_mv s then begin_rapid_voltage_reprobe i s
        else if in_temperature_centi_c i \<ge> RAPID_MIN_COVERAGE_CENTI_C \<and> sc_request_mv s \<ge> scan_max_mv s
            \<and> rapid_hot_hold_ready i s
        then begin_terminal_probe_or_complete i s
        else if \<not> sc_rapid_boundary_reached s \<and> sc_request_mv s < scan_max_mv s \<and> rapid_hot_hold_ready i s
        then begin_rapid_voltage_reprobe i s
        else s\<lparr>sc_changed_at_ms := in_now_ms i\<rparr>)"

definition rapid_warmup :: "ScanInput \<Rightarrow> SupplyScan \<Rightarrow> SupplyScan rust" where
  "rapid_warmup i s =
     (if \<not> in_confirmed i \<or> in_physical_percent i \<noteq> 100 then Ret (s\<lparr>sc_changed_at_ms := in_now_ms i\<rparr>)
      else if \<not> voltage_tracks_request s i then begin_source_boundary_recovery i s
      else
        let s = s\<lparr>sc_last_rapid_probe_temperature := (case sc_last_rapid_probe_temperature s of
                    None \<Rightarrow> Some (in_temperature_centi_c i) | Some t \<Rightarrow> Some t),
                  sc_rapid_tracking_confirmations := sat_add (sc_rapid_tracking_confirmations s) 1\<rparr>
        in if sc_rapid_tracking_confirmations s \<ge> 2 then
             rbind (retain_normal_tracking i s) (\<lambda>s. Ret (rapid_warmup_confirmed i s))
           else Ret (s\<lparr>sc_changed_at_ms := in_now_ms i\<rparr>))"

section \<open>Equilibrium, recovery and timeouts\<close>

definition handle_stage_timeout :: "ScanInput \<Rightarrow> SupplyScan \<Rightarrow> SupplyScan" where
  "handle_stage_timeout i s =
     (if sc_request_ma s \<ge> 3000 then scan_fail StageTimeout s
      else scan_change i (scan_min_mv s) (min (sat_add (sc_request_ma s) 100) 3000)
        (s\<lparr>sc_phase := Sweep, sc_previous := None, sc_last_tracking := None, sc_flat_request_mv := 0,
           sc_flat_count := 0, sc_ambiguous_count := 0, sc_normal_probe := False,
           sc_equilibrium := EquilibriumWindow_default, sc_stage_started_ms := in_now_ms i\<rparr>))"

definition finish_three_amp_equilibrium :: "ScanInput \<Rightarrow> SupplyScan \<Rightarrow> SupplyScan" where
  "finish_three_amp_equilibrium i s =
     (if in_temperature_centi_c i \<ge> MIN_THERMAL_COVERAGE_CENTI_C
         \<or> (case sc_last_tracking s of None \<Rightarrow> False
            | Some point \<Rightarrow> sat_add (tracking_request_mv point) 100 \<ge> scan_max_mv s)
      then s\<lparr>sc_phase := Complete\<rparr>
      else probe_next_voltage i
        (s\<lparr>sc_phase := Sweep, sc_previous := None, sc_last_tracking := None, sc_flat_count := 0,
           sc_ambiguous_count := 0, sc_flat_request_mv := 0, sc_equilibrium := EquilibriumWindow_default\<rparr>))"

definition scan_equilibrium :: "ScanInput \<Rightarrow> SupplyScan \<Rightarrow> SupplyScan rust" where
  "scan_equilibrium i s =
     (case observe (sc_equilibrium s) (in_now_ms i) (in_temperature_centi_c i) of (window, settled) \<Rightarrow>
        let s = s\<lparr>sc_equilibrium := window\<rparr> in
        if settled then
          rbind (retain_tracking (s\<lparr>sc_last_tracking := Some (scan_point s i)\<rparr>)) (\<lambda>s. Ret
            (if sc_request_ma s = 3000 then finish_three_amp_equilibrium i s else begin_three_amp_probe i s))
        else if (case sc_previous s of None \<Rightarrow> False
                 | Some previous \<Rightarrow> in_temperature_centi_c i - in_temperature_centi_c previous > 100)
        then Ret (probe_next_voltage i
          (s\<lparr>sc_phase := Sweep, sc_previous := Some i, sc_flat_count := 0, sc_flat_request_mv := 0,
             sc_equilibrium := EquilibriumWindow_default\<rparr>))
        else Ret s)"

text \<open>A recovery waits for a confirmed contract, with the heater on in the rapid scan and off otherwise.\<close>

definition recovery_waits :: "ScanInput \<Rightarrow> SupplyScan \<Rightarrow> bool" where
  "recovery_waits i s =
     (let continuous = rapid_same_current_recovery s in
      \<not> in_confirmed i \<or> continuous \<and> in_physical_percent i \<noteq> 100 \<or> \<not> continuous \<and> in_physical_percent i \<noteq> 0)"

definition source_boundary_recovery :: "ScanInput \<Rightarrow> SupplyScan \<Rightarrow> SupplyScan" where
  "source_boundary_recovery i s =
     (if recovery_waits i s then s\<lparr>sc_changed_at_ms := in_now_ms i\<rparr>
      else if sat_sub (in_now_ms i) (sc_changed_at_ms s) < scan_settle_ms s then s
      else s\<lparr>sc_phase := RapidWarmup, sc_previous := None, sc_flat_request_mv := 0, sc_rapid_tracking_confirmations := 0,
             sc_last_rapid_probe_temperature :=
               (if \<not> sc_rapid_probe_since_boundary s then None else sc_last_rapid_probe_temperature s),
             sc_changed_at_ms := in_now_ms i\<rparr>)"

definition probe_recovery :: "ScanInput \<Rightarrow> SupplyScan \<Rightarrow> SupplyScan" where
  "probe_recovery i s =
     (if recovery_waits i s then s\<lparr>sc_changed_at_ms := in_now_ms i\<rparr>
      else let return_mv = max (sc_return_request_mv s) (scan_min_mv s) in
        if sc_request_mv s = return_mv then s\<lparr>sc_phase := Sweep, sc_changed_at_ms := in_now_ms i\<rparr>
        else scan_change i (max (sat_sub (sc_request_mv s) PROBE_RECOVERY_STEP_MV) return_mv) (sc_return_current_ma s) s)"

section \<open>One sample\<close>

definition scan_advance :: "ScanInput \<Rightarrow> SupplyScan \<Rightarrow> SupplyScan rust" where
  "scan_advance i s =
     (if sc_phase s \<notin> {Baseline, Preflight, PreflightRecovery, ProbeRecovery, SourceBoundaryRecovery}
         \<and> in_physical_percent i \<noteq> 100
      then Ret (s\<lparr>sc_changed_at_ms := in_now_ms i\<rparr>)
      else case sc_phase s of
        Baseline \<Rightarrow> Ret (if in_physical_percent i \<noteq> 0 then scan_fail SupplyUnstable s
          else s\<lparr>sc_baseline_vin_mv := in_vin_mv i, sc_baseline_request_mv := sc_request_mv s, sc_phase := Preflight,
                 sc_changed_at_ms := in_now_ms i\<rparr>)
      | Preflight \<Rightarrow> Ret (preflight i s)
      | PreflightRecovery \<Rightarrow> Ret (if in_physical_percent i \<noteq> 0 \<or> in_vin_mv i < preflight_min_vin_mv s
          then scan_fail SupplyUnstable s else s\<lparr>sc_phase := Sweep, sc_changed_at_ms := in_now_ms i\<rparr>)
      | ProbeRecovery \<Rightarrow> Ret (probe_recovery i s)
      | SourceBoundaryRecovery \<Rightarrow> Ret (source_boundary_recovery i s)
      | Sweep \<Rightarrow> sweep i s
      | RapidWarmup \<Rightarrow> rapid_warmup i s
      | TerminalProbe \<Rightarrow> terminal_probe i s
      | TemperatureSettle \<Rightarrow>
          (case observe (sc_equilibrium s) (in_now_ms i) (in_temperature_centi_c i) of (window, settled) \<Rightarrow>
             let s = s\<lparr>sc_equilibrium := window\<rparr> in
             Ret (if settled then s\<lparr>sc_phase := Sweep, sc_previous := None\<rparr> else s))
      | Equilibrium \<Rightarrow> scan_equilibrium i s
      | Complete \<Rightarrow> Ret s
      | Failed \<Rightarrow> Ret s)"

definition invalid_sample :: "ScanInput \<Rightarrow> bool" where
  "invalid_sample i \<longleftrightarrow> in_rtd_mv i = 0 \<or> in_vin_mv i = 0 \<or> in_rtd_code i > 4095 \<or> in_vin_code i > 4095"

definition three_amp_probe_due :: "ScanInput \<Rightarrow> SupplyScan \<Rightarrow> bool" where
  "three_amp_probe_due i s \<longleftrightarrow>
     in_temperature_centi_c i \<ge> THREE_AMP_COVERAGE_START_CENTI_C \<and> sc_request_ma s < 3000 \<and> \<not> sc_normal_probe s
     \<and> sc_phase s \<in> {Sweep, TemperatureSettle}
     \<and> (case sc_last_normal_probe_temperature s of None \<Rightarrow> True
        | Some previous \<Rightarrow> centi_sat_sub (in_temperature_centi_c i) previous \<ge> NORMAL_PROBE_MIN_TEMPERATURE_STEP_CENTI_C)"

definition scan_update :: "ScanInput \<Rightarrow> SupplyScan \<Rightarrow> SupplyScan rust" where
  "scan_update i s =
     (if sc_phase s \<in> {Complete, Failed} then Ret s
      else case stability_filter (in_temperature_centi_c i) s of (stability_temperature, s) \<Rightarrow>
        if in_wifi_started i \<noteq> wifi_started (sc_boundary s) then Ret (scan_fail WifiChanged s)
        else if invalid_sample i then Ret (scan_fail InvalidSample s)
        else if in_temperature_centi_c i \<ge> 22000 then
          rbind (retain_tracking
              (s\<lparr>sc_cutoff_reached := True, sc_boundary := (sc_boundary s)\<lparr>cutoff_reached := True\<rparr>\<rparr>))
            (\<lambda>s. Ret (s\<lparr>sc_phase := Complete\<rparr>))
        else if sc_normal_probe s \<and> sat_sub (in_now_ms i) (sc_normal_probe_started_ms s) \<ge> NORMAL_PROBE_TIMEOUT_MS
        then Ret (finish_normal_probe i s)
        else if sat_sub (in_now_ms i) (sc_stage_started_ms s) > STAGE_TIMEOUT_MS then Ret (handle_stage_timeout i s)
        else if three_amp_probe_due i s then Ret (begin_three_amp_probe i s)
        else if \<not> in_confirmed i then Ret (s\<lparr>sc_changed_at_ms := in_now_ms i\<rparr>)
        else if sat_sub (in_now_ms i) (sc_changed_at_ms s) \<ge> scan_settle_ms s
        then scan_advance (i\<lparr>in_temperature_centi_c := stability_temperature\<rparr>) s
        else Ret s)"

end
