(* ===== verification/Heater_Scan_Safety.thy ===== *)
theory Heater_Scan_Safety
  imports Heater_Scan
begin

text \<open>
  What the supply scan promises: an invariant over all its phases, kept by every operation, from which follow the
  envelope of the requests it makes and the validity of every point it retains.
\<close>

section \<open>Voltages and currents of the scan\<close>

definition bounds_ok :: "SupplyBoundary \<Rightarrow> bool" where
  "bounds_ok b \<longleftrightarrow> 5500 \<le> source_min_mv b \<and> source_min_mv b < source_max_mv b \<and> source_max_mv b \<le> 21000
     \<and> is_multiple_of (source_min_mv b) 100 \<and> is_multiple_of (source_max_mv b) 100"

definition volt :: "SupplyBoundary \<Rightarrow> u16 \<Rightarrow> bool" where
  "volt b v \<longleftrightarrow> source_min_mv b \<le> v \<and> v \<le> source_max_mv b \<and> is_multiple_of v 100"

definition amps :: "u16 \<Rightarrow> bool" where
  "amps a \<longleftrightarrow> 2000 \<le> a \<and> a \<le> 3000 \<and> is_multiple_of a 100"

lemma unat_min: "unat (min a b) = min (unat a) (unat b)" and unat_max: "unat (max a b) = max (unat a) (unat b)"
  for a b :: "'a::len word"
  by (simp_all add: min_def max_def word_le_nat_alt)

lemmas volt_nat = word_order_nat unat_sat_add unat_sat_sub unat_min unat_max is_multiple_of_iff

lemma volt_bounds:
  assumes "bounds_ok b" "volt b v"
  shows "5500 \<le> unat v" "unat v \<le> 21000" "unat (source_min_mv b) \<le> unat v" "unat v \<le> unat (source_max_mv b)"
  using assms by (auto simp: bounds_ok_def volt_def word_order_nat)

lemma volt_ends [simp]: "bounds_ok b \<Longrightarrow> volt b (source_min_mv b)" "bounds_ok b \<Longrightarrow> volt b (source_max_mv b)"
  by (auto simp: bounds_ok_def volt_def)

lemma volt_max [simp]: "volt b v \<Longrightarrow> volt b w \<Longrightarrow> volt b (max v w)"
  and volt_min [simp]: "volt b v \<Longrightarrow> volt b w \<Longrightarrow> volt b (min v w)"
  by (simp_all add: max_def min_def)

lemma volt_up:
  assumes "bounds_ok b" "volt b v" "k \<in> {100, 500}"
  shows "volt b (min (sat_add v k) (source_max_mv b))"
proof -
  have "100 dvd unat (sat_add v k)"
    using assms volt_bounds [OF assms(1,2)] by (auto simp: volt_def volt_nat)
  then show ?thesis using assms volt_bounds [OF assms(1,2)]
    by (auto simp: volt_def bounds_ok_def volt_nat min_def)
qed

lemma volt_down:
  assumes "bounds_ok b" "volt b v" "volt b w" "k \<in> {100, 500}"
  shows "volt b (max (sat_sub v k) w)"
proof -
  have "100 dvd unat v - k" if "k \<in> {100, 500}" for k
    using that assms(2) by (auto simp: volt_def volt_nat dvd_diff_nat)
  then have "100 dvd unat (sat_sub v k)" using assms(4) by (auto simp: volt_nat)
  then show ?thesis using assms volt_bounds [OF assms(1,2)]
    by (auto simp: volt_def bounds_ok_def volt_nat max_def)
qed

lemma volt_less_up:
  assumes "bounds_ok b" "volt b v" "v < source_max_mv b" "k \<in> {100, 500}"
  shows "v < min (sat_add v k) (source_max_mv b)"
  using assms volt_bounds [OF assms(1,2)] by (auto simp: volt_nat)

lemma amps_ends [simp]: "amps 2000" "amps 3000"
  by (simp_all add: amps_def volt_nat)

lemma amps_up: "amps a \<Longrightarrow> amps (min (sat_add a 100) 3000)" and amps_up': "amps a \<Longrightarrow> amps (min (a + 100) 3000)"
proof -
  assume a: "amps a"
  have "unat (a + 100) = unat a + 100" using a by (auto simp: amps_def volt_nat unat_word_ariths)
  moreover have "100 dvd unat a" using a by (simp add: amps_def volt_nat)
  ultimately show "amps (min (sat_add a 100) 3000)" "amps (min (a + 100) 3000)"
    using a by (auto simp: amps_def volt_nat min_def)
qed

section \<open>The points retained\<close>

text \<open>A point array that fits its storage and whose live points all satisfy \<open>P\<close>.\<close>

definition points_stored :: "(BoundaryPoint \<Rightarrow> bool) \<Rightarrow> SupplyBoundary \<Rightarrow> bool" where
  "points_stored P b \<longleftrightarrow> unat (point_count b) \<le> length (points b) \<and> length (points b) \<le> 41 \<and> (\<forall>p\<in>set (live_points b). P p)"

lemma retain_stored:
  assumes "points_stored P b" "P point"
  obtains ps n kept where "retain b point = Ret (b\<lparr>points := ps, point_count := n\<rparr>, kept)"
    "points_stored P (b\<lparr>points := ps, point_count := n\<rparr>)"
proof (cases "position (\<lambda>existing. \<not> tracking_only point \<and> \<not> tracking_only existing
      \<and> request_current_ma existing = request_current_ma point) (live_points b)")
  case (Some i)
  have "set (take (unat (point_count b)) ((points b)[i := point])) \<subseteq> insert point (set (live_points b))"
    by (metis set_update_subset_insert take_update_swap)
  then show ?thesis
    using that [where ps = "(points b)[i := point]" and n = "point_count b" and kept = True] Some assms by (auto simp: retain_def points_stored_def)
next
  case None
  show ?thesis
  proof (cases "unat (point_count b) < length (points b)")
    case True
    then have n: "unat (point_count b + 1) = Suc (unat (point_count b))"
      using assms by (simp add: unat_word_ariths points_stored_def)
    have "take (Suc (unat (point_count b))) ((points b)[unat (point_count b) := point]) = live_points b @ [point]"
      using True by (simp add: take_Suc_conv_app_nth)
    then show ?thesis
      using that [where ps = "(points b)[unat (point_count b) := point]" and n = "point_count b + 1" and kept = True] None True n assms
      by (auto simp: retain_def points_stored_def)
  next
    case False
    then show ?thesis
      using that [where ps = "points b" and n = "point_count b" and kept = False] None assms by (auto simp: retain_def points_stored_def)
  qed
qed

lemma retain_all_stored:
  assumes "points_stored P b" "\<forall>p\<in>set ps. P p"
  shows "\<exists>ps' n. retain_all ps b = Ret (b\<lparr>points := ps', point_count := n\<rparr>)
    \<and> points_stored P (b\<lparr>points := ps', point_count := n\<rparr>)"
  using assms
proof (induction ps arbitrary: b)
  case Nil
  have "b = b\<lparr>points := points b, point_count := point_count b\<rparr>" by simp
  then show ?case using Nil by (metis retain_all.simps(1))
next
  case (Cons p ps)
  obtain qs n kept where r: "retain b p = Ret (b\<lparr>points := qs, point_count := n\<rparr>, kept)"
    "points_stored P (b\<lparr>points := qs, point_count := n\<rparr>)"
    by (rule retain_stored [of P b p]) (use Cons.prems in auto)
  obtain qs' n' where "retain_all ps (b\<lparr>points := qs, point_count := n\<rparr>) = Ret (b\<lparr>points := qs', point_count := n'\<rparr>)"
    "points_stored P (b\<lparr>points := qs', point_count := n'\<rparr>)"
    using Cons.IH [OF r(2)] Cons.prems by auto
  then show ?case using r(1) by auto
qed

lemma compact_points_Suc:
  "compact_points ps (Suc n) = (case compact_points ps n of (qs, keep) \<Rightarrow>
     if \<not> tracking_only (qs ! n) then (qs[keep := qs ! n], keep + 1) else (qs, keep))"
  by (simp add: compact_points_def split_def)

text \<open>Compaction keeps, in order, the live points that are not tracking points.\<close>

lemma compact_points_filter:
  assumes "count \<le> length ps"
  shows "case compact_points ps count of (qs, keep) \<Rightarrow> keep \<le> count \<and> length qs = length ps
    \<and> drop count qs = drop count ps \<and> take keep qs = filter (\<lambda>p. \<not> tracking_only p) (take count ps)"
  using assms
proof (induction count)
  case (Suc n)
  obtain qs keep where c: "compact_points ps n = (qs, keep)" by fastforce
  have q: "keep \<le> n" "length qs = length ps" "drop n qs = drop n ps"
    "take keep qs = filter (\<lambda>p. \<not> tracking_only p) (take n ps)"
    using Suc c by auto
  have n: "n < length ps" using Suc.prems by simp
  then have "qs ! n = ps ! n" by (metis q(2,3) nth_via_drop Cons_nth_drop_Suc)
  moreover have "drop (Suc n) (qs[keep := x]) = drop (Suc n) ps" for x
    using q by (metis Suc_le_eq drop_Suc drop_update_cancel le_imp_less_Suc tl_drop)
  moreover have "drop (Suc n) qs = drop (Suc n) ps" using q(3) by (metis drop_Suc tl_drop)
  moreover have "take (Suc keep) (qs[keep := x]) = take keep qs @ [x]" for x
    using q n by (simp add: take_Suc_conv_app_nth)
  ultimately show ?case using c q n by (simp add: compact_points_Suc take_Suc_conv_app_nth)
qed (simp add: compact_points_def)

lemma stored_compact:
  assumes "points_stored P b" "compact_points (points b) (unat (point_count b)) = (ps, keep)"
  shows "points_stored P (b\<lparr>points := ps, point_count := of_nat keep\<rparr>)"
proof -
  have c: "keep \<le> unat (point_count b)" "length ps = length (points b)"
    "take keep ps = filter (\<lambda>p. \<not> tracking_only p) (live_points b)"
    using compact_points_filter [of "unat (point_count b)" "points b"] assms by (auto simp: points_stored_def)
  then have "unat (of_nat keep :: u8) = keep"
    using unat_bound [of "point_count b"] by (simp add: unat_of_nat take_bit_nat_eq_self)
  then show ?thesis using assms(1) c by (simp add: points_stored_def)
qed

text \<open>What the retained points and the temperature bins satisfy.\<close>

definition recorded :: "SupplyBoundary \<Rightarrow> BoundaryPoint \<Rightarrow> bool" where
  "recorded b p \<longleftrightarrow> point_is_valid b p \<and> tracking_request_mv p \<le> source_max_mv b"

definition archive_ok :: "SupplyScan \<Rightarrow> bool" where
  "archive_ok s \<longleftrightarrow> points_stored (point_is_valid (sc_boundary s)) (sc_boundary s) \<and> length (sc_normal_bins s) = 20
     \<and> (\<forall>p. Some p \<in> set (sc_normal_bins s) \<longrightarrow> recorded (sc_boundary s) p)"

lemma point_is_valid_points [simp]:
  "point_is_valid (b\<lparr>points := ps, point_count := n\<rparr>) = point_is_valid b"
  "point_is_valid (b\<lparr>cutoff_reached := c\<rparr>) = point_is_valid b"
  by (auto simp: point_is_valid_def terminal_tracking_def fun_eq_iff)

lemma recorded_points [simp]:
  "recorded (b\<lparr>points := ps, point_count := n\<rparr>) = recorded b"
  "recorded (b\<lparr>cutoff_reached := c\<rparr>) = recorded b"
  by (auto simp: recorded_def fun_eq_iff)

text \<open>What the sampling loop supplies: readings of the 12-bit range and a clock in steps of 50 ms that stays below
  its 19 bits. A sample is sane when it passes the scan's own checks as well.\<close>

definition measured :: "ScanInput \<Rightarrow> bool" where
  "measured i \<longleftrightarrow> in_rtd_mv i \<le> 4095 \<and> in_vin_mv i \<le> 4095
     \<and> in_now_ms i div 50 < push_bit 19 1 \<and> is_multiple_of (in_now_ms i) 50"

definition sane :: "ScanInput \<Rightarrow> bool" where
  "sane i \<longleftrightarrow> \<not> invalid_sample i \<and> measured i"

lemma scan_point_recorded:
  assumes "sane i" "volt (sc_boundary s) (sc_request_mv s)" "amps (sc_request_ma s)"
    "sc_flat_request_mv s = 0 \<or> sc_request_mv s < sc_flat_request_mv s \<and> sc_flat_request_mv s \<le> scan_max_mv s"
    "sc_normal_probe s \<longrightarrow> sc_request_ma s = 3000"
  shows "recorded (sc_boundary s) (scan_point s i)"
  using assms
  by (auto simp: recorded_def point_is_valid_def scan_point_def sane_def measured_def invalid_sample_def volt_def amps_def
      regular_current_def word_gt_0)

text \<open>The two ways the scan changes its archive: an observation of a bin, and a retained point.\<close>

abbreviation archived :: "SupplyScan \<Rightarrow> BoundaryPoint list \<Rightarrow> u8 \<Rightarrow> BoundaryPoint option list \<Rightarrow> SupplyScan" where
  "archived s ps n bins \<equiv> s\<lparr>sc_boundary := (sc_boundary s)\<lparr>points := ps, point_count := n\<rparr>, sc_normal_bins := bins\<rparr>"

lemma rebuild_archive:
  assumes "archive_ok s"
  obtains ps n where "rebuild_normal_points s = Ret (s\<lparr>sc_boundary := (sc_boundary s)\<lparr>points := ps, point_count := n\<rparr>\<rparr>)"
    "archive_ok (s\<lparr>sc_boundary := (sc_boundary s)\<lparr>points := ps, point_count := n\<rparr>\<rparr>)"
proof -
  let ?b = "sc_boundary s"
  let ?P = "point_is_valid ?b"
  obtain ps keep where c: "compact_points (points ?b) (unat (point_count ?b)) = (ps, keep)" by fastforce
  have st: "points_stored ?P ?b" using assms by (simp add: archive_ok_def)
  have "\<forall>p\<in>set (List.map_filter (\<lambda>x. x) (sc_normal_bins s)). ?P p"
    using assms by (auto simp: archive_ok_def recorded_def map_filter_mem)
  then obtain qs n where r: "retain_all (List.map_filter (\<lambda>x. x) (sc_normal_bins s)) (?b\<lparr>points := ps, point_count := of_nat keep\<rparr>)
      = Ret (?b\<lparr>points := qs, point_count := n\<rparr>)" "points_stored ?P (?b\<lparr>points := qs, point_count := n\<rparr>)"
    using retain_all_stored [OF stored_compact [OF st c], of "List.map_filter (\<lambda>x. x) (sc_normal_bins s)"] by auto
  have "rebuild_normal_points s = Ret (s\<lparr>sc_boundary := ?b\<lparr>points := qs, point_count := n\<rparr>\<rparr>)"
    using c r(1) st by (auto simp: rebuild_normal_points_def points_stored_def)
  moreover have "archive_ok (s\<lparr>sc_boundary := ?b\<lparr>points := qs, point_count := n\<rparr>\<rparr>)"
    using assms r(2) by (simp add: archive_ok_def)
  ultimately show thesis by (rule that)
qed

lemma normal_bin_less: "normal_bin i < 20"
  by (simp add: normal_bin_def)

lemma retain_normal_archive:
  assumes "archive_ok s" "recorded (sc_boundary s) ((scan_point s i)\<lparr>tracking_only := True\<rparr>) \<or> sc_request_ma s \<noteq> 3000"
  obtains ps n bins where "retain_normal_tracking i s = Ret (archived s ps n bins)" "archive_ok (archived s ps n bins)"
proof -
  let ?b = "sc_boundary s"
  let ?point = "(scan_point s i)\<lparr>tracking_only := True\<rparr>"
  let ?s = "s\<lparr>sc_normal_bins := (sc_normal_bins s)[normal_bin i := Some ?point]\<rparr>"
  have same: "s = archived s (points ?b) (point_count ?b) (sc_normal_bins s)" by simp
  show thesis
  proof (cases "retain_normal_tracking i s = Ret s")
    case True
    then show thesis using that same assms(1) by metis
  next
    case False
    have bin: "normal_bin i < length (sc_normal_bins s)" using normal_bin_less assms(1) by (simp add: archive_ok_def)
    have r: "retain_normal_tracking i s = rebuild_normal_points ?s" and ma: "sc_request_ma s = 3000"
      using False bin by (auto simp: retain_normal_tracking_def Let_def split: if_splits option.splits)
    have "archive_ok ?s"
      using assms ma set_update_subset_insert [of "sc_normal_bins s" "normal_bin i" "Some ?point"]
      by (auto simp: archive_ok_def)
    from rebuild_archive [OF this] obtain ps n where
      "rebuild_normal_points ?s = Ret (?s\<lparr>sc_boundary := (sc_boundary ?s)\<lparr>points := ps, point_count := n\<rparr>\<rparr>)"
      "archive_ok (?s\<lparr>sc_boundary := (sc_boundary ?s)\<lparr>points := ps, point_count := n\<rparr>\<rparr>)" by blast
    moreover have "?s\<lparr>sc_boundary := b\<rparr> = s\<lparr>sc_boundary := b, sc_normal_bins := sc_normal_bins ?s\<rparr>" for b by simp
    ultimately show thesis
      using that [where ps = ps and n = n and bins = "sc_normal_bins ?s"] r by simp
  qed
qed

lemma retain_tracking_archive:
  assumes "archive_ok s" "\<forall>p. sc_last_tracking s = Some p \<longrightarrow> recorded (sc_boundary s) p"
  obtains ps n where "retain_tracking s = Ret (archived s ps n (sc_normal_bins s))"
    "archive_ok (archived s ps n (sc_normal_bins s))"
proof -
  let ?b = "sc_boundary s"
  have same: "s = archived s (points ?b) (point_count ?b) (sc_normal_bins s)" by simp
  show thesis
  proof (cases "sc_last_tracking s = None \<or> sc_normal_probe s")
    case True
    then have "retain_tracking s = Ret s" by (auto simp: retain_tracking_def split: option.splits)
    then show thesis using that same assms(1) by metis
  next
    case False
    then obtain p where p: "sc_last_tracking s = Some p" "\<not> sc_normal_probe s" by auto
    obtain ps n k where "retain ?b p = Ret (?b\<lparr>points := ps, point_count := n\<rparr>, k)"
      "points_stored (point_is_valid ?b) (?b\<lparr>points := ps, point_count := n\<rparr>)"
      by (rule retain_stored [of "point_is_valid ?b" ?b p]) (use assms p(1) in \<open>auto simp: archive_ok_def recorded_def\<close>)
    then show thesis using that [where ps = ps and n = n] p assms(1) by (auto simp: retain_tracking_def archive_ok_def)
  qed
qed

section \<open>The invariant\<close>

text \<open>An unfinished scan requests a voltage of the scanned range, at 3 A when it is rapid.\<close>

definition steady :: "SupplyScan \<Rightarrow> bool" where
  "steady s \<longleftrightarrow> volt (sc_boundary s) (sc_request_mv s) \<and> amps (sc_request_ma s) \<and> (is_rapid s \<longrightarrow> sc_request_ma s = 3000)"

definition flat_ok :: "SupplyScan \<Rightarrow> bool" where
  "flat_ok s \<longleftrightarrow> sc_flat_request_mv s = 0 \<or> sc_request_mv s < sc_flat_request_mv s \<and> sc_flat_request_mv s \<le> scan_max_mv s"

definition tracked_below :: "SupplyScan \<Rightarrow> nat \<Rightarrow> bool" where
  "tracked_below s k \<longleftrightarrow> (\<forall>p. sc_last_tracking s = Some p \<longrightarrow> unat (tracking_request_mv p) < unat (sc_request_mv s) + k)"

definition sweep_ok :: "SupplyScan \<Rightarrow> bool" where
  "sweep_ok s \<longleftrightarrow> sc_flat_request_mv s = 0 \<and> (sc_previous s \<noteq> None \<longrightarrow> scan_min_mv s < sc_request_mv s)
     \<and> tracked_below s (if sc_flat_count s = 0 then 1 else 0)"

definition terminal :: "SupplyScan \<Rightarrow> bool" where
  "terminal s \<longleftrightarrow> terminal_probe_target s = Some (sc_request_mv s, sc_request_ma s)"

definition phase_ok :: "SupplyScan \<Rightarrow> bool" where
  "phase_ok s =
     (case sc_phase s of
        Baseline \<Rightarrow> steady s
      | Preflight \<Rightarrow> steady s
      | PreflightRecovery \<Rightarrow> False
      | Sweep \<Rightarrow> steady s \<and> sweep_ok s
      | SourceBoundaryRecovery \<Rightarrow> is_rapid s \<and> steady s
      | RapidWarmup \<Rightarrow> is_rapid s \<and> steady s \<and> flat_ok s
      | TerminalProbe \<Rightarrow> is_rapid s \<and> terminal s
      | TemperatureSettle \<Rightarrow> False
      | Equilibrium \<Rightarrow> \<not> is_rapid s \<and> \<not> sc_normal_probe s \<and> steady s \<and> flat_ok s \<and> sc_request_mv s < scan_max_mv s
          \<and> tracked_below s 101
      | ProbeRecovery \<Rightarrow> \<not> is_rapid s \<and> \<not> sc_normal_probe s \<and> steady s \<and> sc_flat_request_mv s = 0 \<and> sc_previous s = None
          \<and> sc_last_tracking s = None
      | Complete \<Rightarrow> steady s \<or> terminal s
      | Failed \<Rightarrow> steady s \<or> terminal s)"

definition controls_ok :: "SupplyScan \<Rightarrow> bool" where
  "controls_ok s \<longleftrightarrow>
     bounds_ok (sc_boundary s) \<and> volt (sc_boundary s) (sc_return_request_mv s) \<and> amps (sc_return_current_ma s)
     \<and> (\<forall>p. sc_last_tracking s = Some p \<longrightarrow> recorded (sc_boundary s) p)
     \<and> (\<forall>f. sc_rapid_failed_probe_mv s = Some f \<longrightarrow> volt (sc_boundary s) f)
     \<and> (sc_normal_probe s \<longrightarrow> sc_request_ma s = 3000 \<and> \<not> is_rapid s)"

definition scan_inv :: "SupplyScan \<Rightarrow> bool" where
  "scan_inv s \<longleftrightarrow> archive_ok s \<and> controls_ok s \<and> phase_ok s"

section \<open>The operations keep the invariant\<close>

named_theorems scan_defs \<open>the parts of the invariant and the basic updates\<close>

declare steady_def [scan_defs] flat_ok_def [scan_defs] tracked_below_def [scan_defs] sweep_ok_def [scan_defs]
  phase_ok_def [scan_defs] controls_ok_def [scan_defs] scan_change_def [scan_defs] scan_fail_def [scan_defs]
  is_rapid_def [scan_defs]

lemma terminal_updates [simp]:
  "terminal (s\<lparr>sc_phase := x\<rparr>) = terminal s"
  "terminal (s\<lparr>sc_failure := f\<rparr>) = terminal s"
  "terminal (s\<lparr>sc_changed_at_ms := t\<rparr>) = terminal s"
  "terminal (s\<lparr>sc_stability_temperature := c\<rparr>) = terminal s"
  "terminal (s\<lparr>sc_terminal_probe_confirmations := n\<rparr>) = terminal s"
  "terminal (s\<lparr>sc_cutoff_reached := b\<rparr>) = terminal s"
  "terminal (s\<lparr>sc_normal_bins := bins\<rparr>) = terminal s"
  "terminal (s\<lparr>sc_boundary := (sc_boundary s)\<lparr>points := ps, point_count := k\<rparr>\<rparr>) = terminal s"
  "terminal (s\<lparr>sc_boundary := (sc_boundary s)\<lparr>cutoff_reached := b\<rparr>\<rparr>) = terminal s"
  by (simp_all only: terminal_def terminal_probe_target_def Let_def, simp_all)

lemma params_updates [simp]:
  "volt (b\<lparr>points := ps, point_count := k\<rparr>) = volt b" "volt (b\<lparr>cutoff_reached := c\<rparr>) = volt b"
  "bounds_ok (b\<lparr>points := ps, point_count := k\<rparr>) = bounds_ok b" "bounds_ok (b\<lparr>cutoff_reached := c\<rparr>) = bounds_ok b"
  by (auto simp: volt_def bounds_ok_def fun_eq_iff)

lemma archive_cong: "sc_boundary s' = sc_boundary s \<Longrightarrow> sc_normal_bins s' = sc_normal_bins s \<Longrightarrow> archive_ok s' = archive_ok s"
  by (simp add: archive_ok_def)

lemma recorded_volt: "recorded b p \<Longrightarrow> volt b (tracking_request_mv p)"
  by (auto simp: recorded_def point_is_valid_def terminal_tracking_def volt_def)

lemma phase_request: "phase_ok s \<Longrightarrow> steady s \<or> terminal s"
  by (cases "sc_phase s") (auto simp: phase_ok_def)

lemma steady_updates [simp]: "steady (s\<lparr>sc_phase := x\<rparr>) = steady s" "steady (s\<lparr>sc_failure := f\<rparr>) = steady s"
  by (simp_all add: steady_def is_rapid_def)

lemma finished_inv:
  assumes "archive_ok s" "controls_ok s" "steady s \<or> terminal s"
  shows "scan_inv (s\<lparr>sc_phase := Complete\<rparr>)" "scan_inv (scan_fail r s)"
  using assms by (auto simp: scan_inv_def archive_ok_def controls_ok_def phase_ok_def scan_fail_def is_rapid_def)

text \<open>A scan in the middle of an operation of the sweep.\<close>

definition sweeping :: "SupplyScan \<Rightarrow> bool" where
  "sweeping s \<longleftrightarrow> archive_ok s \<and> controls_ok s \<and> steady s \<and> sc_phase s = Sweep"

lemma finish_normal_probe_inv:
  assumes "archive_ok s" "controls_ok s" "steady s" "\<not> is_rapid s"
  shows "scan_inv (finish_normal_probe i s)"
  using assms by (simp add: scan_inv_def finish_normal_probe_def scan_defs archive_ok_def)

lemma begin_equilibrium_inv:
  assumes s: "sweeping s"
    and flat: "\<forall>p. sc_last_tracking s = Some p \<longrightarrow> sc_flat_request_mv s = 0
      \<or> sc_flat_request_mv s \<le> scan_max_mv s \<and> (tracking_request_mv p < sc_flat_request_mv s
          \<or> \<not> is_rapid s \<and> scan_min_mv s < sc_flat_request_mv s \<and> tracking_request_mv p \<le> sc_flat_request_mv s)"
  shows "scan_inv (begin_equilibrium i s)"
proof (cases "sc_last_tracking s")
  case None
  then show ?thesis using finished_inv [of s] s by (simp add: begin_equilibrium_def sweeping_def)
next
  case (Some p)
  let ?b = "sc_boundary s"
  have b: "bounds_ok ?b" and p: "volt ?b (tracking_request_mv p)"
    using s Some by (auto simp: sweeping_def controls_ok_def recorded_volt)
  let ?r = "max (sat_sub (tracking_request_mv p) 100) (scan_min_mv s)"
  have r: "volt ?b ?r" "?r < scan_max_mv s" "unat (tracking_request_mv p) < unat ?r + 101"
    using volt_down [OF b p volt_ends(1) [OF b]] volt_bounds [OF b p] b by (auto simp: bounds_ok_def volt_nat)
  have f: "?r < f" if "tracking_request_mv p < f \<or> scan_min_mv s < f \<and> tracking_request_mv p \<le> f" for f
    using that volt_bounds [OF b p] b by (auto simp: bounds_ok_def volt_nat)
  show ?thesis
  proof (cases "sc_normal_probe s")
    case True
    then show ?thesis using Some s finish_normal_probe_inv [of s i] by (simp add: begin_equilibrium_def sweeping_def controls_ok_def)
  next
    case False
    then show ?thesis
      using s Some p r f flat
      by (auto simp: scan_inv_def begin_equilibrium_def sweeping_def scan_defs archive_ok_def)
  qed
qed

lemma rapid_probe_step_500: "rapid_probe_step_mv s \<in> {100, 500}"
  by (simp add: rapid_probe_step_mv_def split: option.splits)

lemma probe_next_inv:
  assumes s: "sweeping s" and flat: "sc_flat_request_mv s = 0"
    and t: "tracked_below s (if sc_flat_count s = 0 then 101 else 1)"
  shows "scan_inv (probe_next_voltage i s)"
proof (cases "sc_request_mv s \<ge> scan_max_mv s")
  case True
  then show ?thesis
    using s flat begin_equilibrium_inv [OF s, of i]
    by (auto simp: probe_next_voltage_def scan_inv_def sweeping_def scan_defs archive_ok_def)
next
  case False
  let ?b = "sc_boundary s"
  define k where "k = (if is_rapid s then rapid_probe_step_mv s else 100)"
  let ?r = "min (sat_add (sc_request_mv s) k) (scan_max_mv s)"
  have k: "k \<in> {100, 500}" using rapid_probe_step_500 [of s] by (simp add: k_def)
  have b: "bounds_ok ?b" and v: "volt ?b (sc_request_mv s)" using s by (auto simp: sweeping_def controls_ok_def steady_def)
  have r: "volt ?b ?r" "sc_request_mv s < ?r" using volt_up [OF b v k] volt_less_up [OF b v _ k] False by auto
  have rec: "unat (tracking_request_mv p) \<le> unat (scan_max_mv s)" if "sc_last_tracking s = Some p" for p
    using that s by (auto simp: sweeping_def controls_ok_def recorded_def word_le_nat_alt)
  have tr: "tracked_below (s\<lparr>sc_request_mv := ?r\<rparr>) (if sc_flat_count s = 0 then 1 else 0)"
  proof (unfold tracked_below_def, intro allI impI)
    fix p assume p: "sc_last_tracking (s\<lparr>sc_request_mv := ?r\<rparr>) = Some p"
    then have "unat (tracking_request_mv p) < unat (sc_request_mv s) + (if sc_flat_count s = 0 then 101 else 1)"
      using t by (auto simp: tracked_below_def)
    moreover have "unat (sc_request_mv s) < unat ?r" using r(2) by (simp add: word_less_nat_alt)
    moreover have "unat (sc_request_mv s) + 100 \<le> unat ?r \<or> unat ?r = unat (scan_max_mv s)"
      using k volt_bounds [OF b v] by (auto simp: volt_nat min_def)
    ultimately show "unat (tracking_request_mv p) < unat (sc_request_mv (s\<lparr>sc_request_mv := ?r\<rparr>))
        + (if sc_flat_count s = 0 then 1 else 0)"
      using rec [of p] p by auto
  qed
  have low: "scan_min_mv s < ?r" using r v by (auto simp: volt_def)
  have "probe_next_voltage i s = scan_change i ?r (sc_request_ma s) s" using False by (simp add: probe_next_voltage_def k_def)
  then show ?thesis
    using s flat r tr low by (simp add: scan_inv_def sweeping_def scan_defs archive_ok_def)
qed

lemma sweeping_updates [simp]:
  "sweeping (s\<lparr>sc_flat_count := x\<rparr>) = sweeping s" "sweeping (s\<lparr>sc_ambiguous_count := x\<rparr>) = sweeping s"
  "sweeping (s\<lparr>sc_flat_request_mv := v\<rparr>) = sweeping s" "sweeping (s\<lparr>sc_previous := j\<rparr>) = sweeping s"
  "sweeping (s\<lparr>sc_changed_at_ms := t\<rparr>) = sweeping s"
  by (simp_all add: sweeping_def scan_defs archive_ok_def)

lemma sweeping_tracked [simp]:
  "sweeping (s\<lparr>sc_last_tracking := Some p\<rparr>)" if "sweeping s" "recorded (sc_boundary s) p"
  using that by (simp add: sweeping_def scan_defs archive_ok_def)

text \<open>A flat or ambiguous request that the rapid scan accepts as a boundary lies above the last tracking point.\<close>

lemma flat_boundary_above:
  assumes "rapid_flat_boundary_ready s i" "is_rapid s" "voltage_tracks_request s i" "sc_last_tracking s = Some p"
  shows "tracking_request_mv p < sc_request_mv s"
  using assms by (auto simp: rapid_flat_boundary_ready_def voltage_tracks_request_def Let_def volt_nat)

lemma handle_ambiguous_inv:
  assumes s: "sweeping s" and w: "sweep_ok s" "sc_previous s \<noteq> None"
    and r: "is_rapid s \<longrightarrow> voltage_tracks_request s i"
  shows "scan_inv (handle_ambiguous_confirmation i s)"
proof -
  have t: "tracked_below s 1" using w by (auto simp: sweep_ok_def tracked_below_def split: if_splits)
  have low: "scan_min_mv s < sc_request_mv s" and high: "sc_request_mv s \<le> scan_max_mv s"
    using w s by (auto simp: sweep_ok_def sweeping_def steady_def volt_def)
  have "tracking_request_mv p < sc_request_mv s" if "rapid_flat_boundary_ready s i" "is_rapid s" "sc_last_tracking s = Some p" for p
    using flat_boundary_above that r by blast
  moreover have "tracking_request_mv p \<le> sc_request_mv s" if "sc_last_tracking s = Some p" for p
    using t that by (auto simp: tracked_below_def word_le_nat_alt)
  ultimately have "scan_inv (begin_equilibrium i (s\<lparr>sc_flat_request_mv := sc_request_mv s\<rparr>))" if "rapid_flat_boundary_ready s i"
    using s low high that by (intro begin_equilibrium_inv) (auto simp: is_rapid_def)
  moreover have "scan_inv (probe_next_voltage i (s\<lparr>sc_ambiguous_count := 0\<rparr>))"
    using s w t by (intro probe_next_inv) (auto simp: sweep_ok_def tracked_below_def)
  ultimately show ?thesis by (simp add: handle_ambiguous_confirmation_def)
qed

lemma recorded_flat:
  "recorded b p \<Longrightarrow> tracking_request_mv p < v \<Longrightarrow> v \<le> source_max_mv b \<Longrightarrow> recorded b (p\<lparr>flat_request_mv := v\<rparr>)"
  by (auto simp: recorded_def point_is_valid_def terminal_tracking_def regular_current_def)

lemma handle_flat_inv:
  assumes s: "sweeping s" "sc_flat_request_mv s = 0" and t: "tracked_below s 0"
  shows "scan_inv (handle_flat_confirmation i s)"
proof -
  have high: "sc_request_mv s \<le> scan_max_mv s" using s by (auto simp: sweeping_def steady_def volt_def)
  have below: "tracking_request_mv p < sc_request_mv s" if "sc_last_tracking s = Some p" for p
    using t that by (simp add: tracked_below_def word_less_nat_alt)
  let ?s = "s\<lparr>sc_flat_request_mv := sc_request_mv s,
    sc_last_tracking := map_option (\<lambda>p. p\<lparr>flat_request_mv := sc_request_mv s\<rparr>) (sc_last_tracking s)\<rparr>"
  have "sweeping ?s"
    using s high below recorded_flat by (auto simp: sweeping_def scan_defs archive_ok_def)
  then have "scan_inv (begin_equilibrium i ?s)"
    by (rule begin_equilibrium_inv) (use high below in \<open>auto simp: is_rapid_def\<close>)
  moreover have "scan_inv (probe_next_voltage i (s\<lparr>sc_flat_count := 0\<rparr>))"
    using s t by (intro probe_next_inv) (auto simp: tracked_below_def)
  ultimately show ?thesis by (simp add: handle_flat_confirmation_def Let_def)
qed

lemma sweep_classified_inv:
  assumes s: "sweeping s" "sc_flat_request_mv s = 0"
    and t: "tracked_below s (if sc_flat_count s = 0 then 101 else 1)" "sc_flat_count s \<ge> 2 \<longrightarrow> tracked_below s 0"
  shows "scan_inv (sweep_classified i s)"
proof -
  let ?s = "s\<lparr>sc_previous := Some i\<rparr>"
  have prev: "tracked_below ?s k = tracked_below s k" for k by (simp add: tracked_below_def)
  have "scan_inv (probe_next_voltage i ?s)" by (rule probe_next_inv) (use s t in \<open>simp_all add: prev\<close>)
  moreover have "scan_inv (handle_flat_confirmation i ?s)" if "sc_flat_count s \<ge> 2"
    by (rule handle_flat_inv) (use s t that in \<open>simp_all add: prev\<close>)
  moreover have "sc_flat_count s \<ge> 5 \<Longrightarrow> sc_flat_count s \<ge> 2" by (simp add: word_le_nat_alt)
  ultimately show ?thesis by (simp add: sweep_classified_def Let_def)
qed

interpretation highest: key_order "\<lambda>p q :: BoundaryPoint. tracking_request_mv p \<le> tracking_request_mv q"
  by unfold_locales auto

lemma last_safe_cases:
  assumes a: "archive_ok s" and c: "controls_ok s" "steady s"
  obtains r where "last_safe_point s = Ret r" "\<forall>p. r = Some p \<longrightarrow> volt (sc_boundary s) (tracking_request_mv p)"
proof (cases "\<exists>p. sc_last_tracking s = Some p \<and> tracking_request_mv p < sc_request_mv s")
  case True
  then show thesis using that c(1) by (auto simp: last_safe_point_def controls_ok_def recorded_volt)
next
  case False
  let ?ps = "filter (\<lambda>p. request_current_ma p = sc_request_ma s \<and> tracking_request_mv p < sc_request_mv s)
    (live_points (sc_boundary s))"
  have "last_safe_point s = Ret (max_by (\<lambda>p q. tracking_request_mv p \<le> tracking_request_mv q) ?ps)"
    using False a by (auto simp: last_safe_point_def archive_ok_def points_stored_def split: option.splits)
  moreover have "volt (sc_boundary s) (tracking_request_mv p)"
    if "max_by (\<lambda>p q. tracking_request_mv p \<le> tracking_request_mv q) ?ps = Some p" for p
  proof -
    have "p \<in> set ?ps" using highest.max_by_greatest [OF that] by blast
    then have "recorded (sc_boundary s) p"
      using a c(2) by (auto simp: recorded_def archive_ok_def points_stored_def steady_def volt_def)
    then show ?thesis by (rule recorded_volt)
  qed
  ultimately show thesis using that by blast
qed

lemma begin_source_boundary_recovery_inv:
  assumes a: "archive_ok s" and c: "controls_ok s" and st: "steady s" and r: "is_rapid s"
  shows "\<exists>s'. begin_source_boundary_recovery i s = Ret s' \<and> scan_inv s'"
proof -
  let ?b = "sc_boundary s"
  have b: "bounds_ok ?b" and v: "volt ?b (sc_request_mv s)" using c st by (auto simp: controls_ok_def steady_def)
  obtain last_safe where l: "last_safe_point s = Ret last_safe"
    "\<forall>p. last_safe = Some p \<longrightarrow> volt ?b (tracking_request_mv p)" using last_safe_cases [OF a c st] by blast
  let ?coarse = "max (sat_sub (sc_request_mv s) 500) (scan_min_mv s)"
  define return_mv where "return_mv = (case last_safe of None \<Rightarrow> ?coarse
    | Some point \<Rightarrow> max (min (tracking_request_mv point) ?coarse) (scan_min_mv s))"
  have coarse: "volt ?b ?coarse" by (rule volt_down [OF b v volt_ends(1) [OF b]]) simp
  have ret: "volt ?b return_mv" using coarse l(2) b by (auto simp: return_mv_def split: option.split)
  let ?s = "s\<lparr>sc_return_request_mv := return_mv\<rparr>"
  have fail: "scan_inv (scan_fail SupplyUnstable ?s)"
    using a c st ret by (intro finished_inv) (auto simp: scan_defs archive_ok_def)
  let ?hot = "in_temperature_centi_c i \<ge> 10000"
  let ?t = "scan_change i return_mv (sc_request_ma s)
    (?s\<lparr>sc_return_current_ma := sc_request_ma s, sc_normal_probe := False, sc_last_tracking := None,
        sc_rapid_boundary_reached := True,
        sc_rapid_failed_probe_count := (if ?hot then sat_add (sc_rapid_failed_probe_count s) 1 else 0),
        sc_rapid_failed_probe_mv := Some (sc_request_mv s), sc_hot_boundary_reached := ?hot,
        sc_rapid_tracking_confirmations := 0, sc_phase := SourceBoundaryRecovery, sc_previous := None,
        sc_flat_count := 0, sc_ambiguous_count := 0, sc_flat_request_mv := sc_request_mv s\<rparr>)"
  have "begin_source_boundary_recovery i s = Ret (if return_mv \<ge> sc_request_mv s then scan_fail SupplyUnstable ?s else ?t)"
    using r by (simp add: begin_source_boundary_recovery_def l(1) Let_def return_mv_def is_rapid_def scan_change_def)
  moreover have "scan_inv ?t" using a c st r ret v by (simp add: scan_inv_def scan_defs archive_ok_def)
  ultimately show ?thesis using fail by simp
qed

lemma recorded_tracking_only:
  "recorded b p \<Longrightarrow> request_current_ma p = 3000 \<Longrightarrow> recorded b (p\<lparr>tracking_only := True\<rparr>)"
  by (auto simp: recorded_def point_is_valid_def terminal_tracking_def regular_current_def)

lemma steady_point_recorded:
  assumes "sane i" "controls_ok s" "steady s" "flat_ok s"
  shows "recorded (sc_boundary s) (scan_point s i)"
  by (rule scan_point_recorded) (use assms in \<open>auto simp: controls_ok_def steady_def flat_ok_def\<close>)

lemma scan_point_current [simp]: "request_current_ma (scan_point s i) = sc_request_ma s"
  "tracking_request_mv (scan_point s i) = sc_request_mv s"
  by (simp_all add: scan_point_def)

lemma retain_normal_steady:
  assumes "sane i" "archive_ok s" "controls_ok s" "steady s" "flat_ok s"
  obtains ps n bins where "retain_normal_tracking i s = Ret (archived s ps n bins)" "archive_ok (archived s ps n bins)"
proof (rule retain_normal_archive [OF assms(2), of i])
  show "recorded (sc_boundary s) ((scan_point s i)\<lparr>tracking_only := True\<rparr>) \<or> sc_request_ma s \<noteq> 3000"
    using recorded_tracking_only [OF steady_point_recorded [OF assms(1,3-5)]] by auto
qed (rule that)

lemma sweeping_archived: "sweeping s \<Longrightarrow> archive_ok (archived s ps n bins) \<Longrightarrow> sweeping (archived s ps n bins)"
  by (simp add: sweeping_def scan_defs)

lemma sweep_inv:
  assumes inv: "scan_inv s" and ph: "sc_phase s = Sweep" and i: "sane i"
  shows "\<exists>s'. sweep i s = Ret s' \<and> scan_inv s'"
proof -
  have s: "sweeping s" and w: "sweep_ok s" using inv ph by (auto simp: scan_inv_def sweeping_def phase_ok_def)
  have flat: "sc_flat_request_mv s = 0" using w by (simp add: sweep_ok_def)
  have base: "archive_ok s" "controls_ok s" "steady s" using s by (auto simp: sweeping_def)
  let ?p = "scan_point s i"
  let ?t = "s\<lparr>sc_last_tracking := Some ?p\<rparr>"
  have t: "sweeping ?t" using s steady_point_recorded [OF i base(2,3)] flat by (simp add: flat_ok_def)
  have tb: "archive_ok ?t" "controls_ok ?t" "steady ?t" "flat_ok ?t"
    using t flat by (auto simp: sweeping_def flat_ok_def)
  obtain ps n bins where r: "retain_normal_tracking i ?t = Ret (archived ?t ps n bins)"
    "archive_ok (archived ?t ps n bins)" using retain_normal_steady [OF i tb] by blast
  let ?a = "archived ?t ps n bins"
  have a: "sweeping ?a" by (rule sweeping_archived [OF t r(2)])
  have at: "tracked_below ?a k" if "0 < k" for k using that by (simp add: tracked_below_def)
  show ?thesis
  proof (cases "sc_previous s")
    case None
    have "scan_inv (probe_next_voltage i (?a\<lparr>sc_previous := Some i\<rparr>))"
      by (rule probe_next_inv) (use a flat in \<open>simp_all add: tracked_below_def\<close>)
    then show ?thesis using None r(1) by (simp add: sweep_def)
  next
    case (Some previous)
    have rec: "\<exists>s'. begin_source_boundary_recovery i s = Ret s' \<and> scan_inv s'" if "is_rapid s"
      by (rule begin_source_boundary_recovery_inv [OF base that])
    have warm: "scan_inv (s\<lparr>sc_phase := RapidWarmup, sc_previous := Some i, sc_rapid_tracking_confirmations := 0,
        sc_last_rapid_probe_temperature := None, sc_changed_at_ms := in_now_ms i\<rparr>)" if "is_rapid s"
      using base flat that by (simp add: scan_inv_def scan_defs archive_ok_def)
    have tracked: "scan_inv (sweep_classified i (?a\<lparr>sc_flat_count := 0, sc_ambiguous_count := 0\<rparr>))"
      by (rule sweep_classified_inv) (use a flat in \<open>simp_all add: tracked_below_def\<close>)
    have ramp: "scan_inv (probe_next_voltage i (s\<lparr>sc_flat_count := 0, sc_ambiguous_count := 0, sc_previous := Some i\<rparr>))"
      by (rule probe_next_inv) (use s w in \<open>auto simp: sweep_ok_def tracked_below_def split: if_splits\<close>)
    have count: "sc_flat_count s \<noteq> 0" if "sc_flat_count s + 1 \<ge> 2" using that by (auto simp: word_le_nat_alt)
    have flatter: "scan_inv (sweep_classified i (s\<lparr>sc_flat_count := sc_flat_count s + 1\<rparr>))"
      by (rule sweep_classified_inv)
        (use s w count in \<open>auto simp: sweep_ok_def tracked_below_def split: if_splits\<close>)
    have hold: "sweeping (s\<lparr>sc_ambiguous_count := c, sc_previous := Some i, sc_changed_at_ms := t\<rparr>)"
      "sweep_ok (s\<lparr>sc_ambiguous_count := c, sc_previous := Some i, sc_changed_at_ms := t\<rparr>)" for c t
      using s w Some by (auto simp: sweep_ok_def tracked_below_def)
    have amb: "scan_inv (handle_ambiguous_confirmation i
        (s\<lparr>sc_ambiguous_count := c, sc_previous := Some i, sc_changed_at_ms := t\<rparr>))"
      if "is_rapid s \<longrightarrow> voltage_tracks_request s i" for c t
      by (rule handle_ambiguous_inv)
        (use hold that in \<open>simp_all add: is_rapid_def voltage_tracks_request_def cong: option.case_cong\<close>)
    have stay: "scan_inv (s\<lparr>sc_ambiguous_count := c, sc_previous := Some i, sc_changed_at_ms := t\<rparr>)" for c t
      using hold [where c = c and t = t] ph by (auto simp: scan_inv_def sweeping_def phase_ok_def)
    show ?thesis
      using Some rec warm tracked ramp flatter amb stay r(1)
      by (simp add: sweep_def Let_def del: rbind_Ret_iff)
  qed
qed

lemma preflight_inv:
  assumes "scan_inv s" "sc_phase s = Preflight"
  shows "scan_inv (preflight i s)"
proof -
  have b: "bounds_ok (sc_boundary s)" using assms(1) by (simp add: scan_inv_def controls_ok_def)
  have "scan_inv (scan_fail SupplyUnstable s)"
    using assms phase_request by (intro finished_inv) (auto simp: scan_inv_def)
  then show ?thesis
    using assms b by (auto simp: preflight_def Let_def scan_inv_def scan_defs archive_ok_def split: option.split)
qed

lemma terminal_or_complete_inv:
  assumes "archive_ok s" "controls_ok s" "steady s" "is_rapid s"
  shows "scan_inv (begin_terminal_probe_or_complete i s)"
proof (cases "terminal_probe_target s")
  case None
  then show ?thesis using finished_inv(1) [of s] assms
    by (simp add: begin_terminal_probe_or_complete_def begin_terminal_probe_def)
next
  case (Some target)
  obtain mv ma where t: "target = (mv, ma)" by (cases target)
  let ?s = "s\<lparr>sc_request_mv := mv, sc_request_ma := ma, sc_terminal_probe_confirmations := 0, sc_phase := TerminalProbe,
    sc_previous := None, sc_changed_at_ms := in_now_ms i, sc_stage_started_ms := in_now_ms i\<rparr>"
  have "terminal_probe_target ?s = terminal_probe_target s" by (simp add: terminal_probe_target_def)
  then have "terminal ?s" using Some t by (simp add: terminal_def)
  then show ?thesis
    using Some t assms
    by (simp add: begin_terminal_probe_or_complete_def begin_terminal_probe_def scan_inv_def scan_defs archive_ok_def)
qed

lemma terminal_current: "terminal_probe_target s = Some (mv, ma) \<Longrightarrow>
    source_max_mv (sc_boundary s) < mv \<and> mv \<le> advertised_max_mv (sc_boundary s) \<and> mv \<le> 21000 \<and> is_multiple_of mv 100
    \<and> terminal_tracking_current_ma (source_power_limit_mw (sc_boundary s)) mv = Some ma"
proof -
  assume t: "terminal_probe_target s = Some (mv, ma)"
  let ?a = "min (advertised_max_mv (sc_boundary s)) 21000"
  have mv: "mv = ?a div 100 * 100" using t by (auto simp: terminal_probe_target_def Let_def split: if_splits)
  have "mv \<le> ?a" unfolding mv by (rule word_div_mult_le)
  moreover have "is_multiple_of mv 100" unfolding mv by (rule word_mult_div_aligned)
  moreover have "source_max_mv (sc_boundary s) < mv"
    "terminal_tracking_current_ma (source_power_limit_mw (sc_boundary s)) mv = Some ma"
    using t by (auto simp: terminal_probe_target_def terminal_tracking_current_ma_def Let_def word_gt_0 split: if_splits)
  ultimately show ?thesis by auto
qed

lemma terminal_point_valid:
  assumes "terminal s" "sane i"
  shows "point_is_valid (sc_boundary s) ((scan_point s i)\<lparr>flat_request_mv := 0, tracking_only := True\<rparr>)"
  using assms terminal_current [of s "sc_request_mv s" "sc_request_ma s"]
  by (auto simp: terminal_def point_is_valid_def terminal_tracking_def scan_point_def sane_def measured_def
      invalid_sample_def word_gt_0)

lemma terminal_probe_inv:
  assumes inv: "scan_inv s" and ph: "sc_phase s = TerminalProbe" and i: "sane i"
  shows "\<exists>s'. terminal_probe i s = Ret s' \<and> scan_inv s'"
proof -
  let ?b = "sc_boundary s"
  have b: "archive_ok s" "controls_ok s" "is_rapid s" "terminal s" "bounds_ok ?b"
    using inv ph by (auto simp: scan_inv_def phase_ok_def controls_ok_def)
  have wait: "scan_inv (s\<lparr>sc_changed_at_ms := t\<rparr>)" "scan_inv (s\<lparr>sc_terminal_probe_confirmations := c, sc_changed_at_ms := t\<rparr>)" for c t
    using b ph by (simp_all add: scan_inv_def scan_defs archive_ok_def)
  have lower: "scan_inv (scan_change i (scan_max_mv s) 3000
          (s\<lparr>sc_terminal_probe_confirmations := 0, sc_phase := SourceBoundaryRecovery, sc_previous := None,
             sc_return_request_mv := scan_max_mv s, sc_return_current_ma := 3000, sc_rapid_tracking_confirmations := 0,
             sc_rapid_probe_since_boundary := True,
             sc_last_rapid_probe_temperature := Some (in_temperature_centi_c i)\<rparr>))"
    using b by (simp add: scan_inv_def scan_defs archive_ok_def)
  let ?t = "s\<lparr>sc_terminal_probe_confirmations := sat_add (sc_terminal_probe_confirmations s) 1\<rparr>"
  have p: "scan_point ?t i = scan_point s i" by (simp add: scan_point_def)
  obtain ps n k where r: "retain ?b ((scan_point s i)\<lparr>flat_request_mv := 0, tracking_only := True\<rparr>)
      = Ret (?b\<lparr>points := ps, point_count := n\<rparr>, k)"
    "points_stored (point_is_valid ?b) (?b\<lparr>points := ps, point_count := n\<rparr>)"
    by (rule retain_stored [of "point_is_valid ?b" ?b "(scan_point s i)\<lparr>flat_request_mv := 0, tracking_only := True\<rparr>"])
      (use b(1) terminal_point_valid [OF b(4) i] in \<open>auto simp: archive_ok_def\<close>)
  let ?u = "?t\<lparr>sc_boundary := ?b\<lparr>points := ps, point_count := n\<rparr>\<rparr>"
  have term_u: "terminal ?u" using b(4) terminal_updates(8) [where s = ?t] by simp
  have u: "archive_ok ?u" "controls_ok ?u" using b r(2) by (simp_all add: archive_ok_def scan_defs)
  have "scan_inv (?u\<lparr>sc_phase := Complete\<rparr>)" "scan_inv (scan_fail SupplyUnstable ?u)"
    using finished_inv [OF u] term_u by auto
  then show ?thesis using wait lower r(1) p by (simp add: terminal_probe_def Let_def)
qed

lemma begin_three_amp_probe_inv:
  assumes "archive_ok s" "controls_ok s" "steady s" "\<not> is_rapid s"
  shows "scan_inv (begin_three_amp_probe i s)"
proof -
  have b: "bounds_ok (sc_boundary s)" and v: "volt (sc_boundary s) (sc_request_mv s)"
    using assms by (auto simp: controls_ok_def steady_def)
  have a: "amps (min (sat_add (sc_request_ma s) 100) 3000)" "amps (min (sc_request_ma s + 100) 3000)" "amps (sc_request_ma s)"
    using assms amps_up amps_up' by (auto simp: steady_def)
  show ?thesis
    using assms b v a by (simp add: begin_three_amp_probe_def Let_def scan_inv_def scan_defs archive_ok_def)
qed

lemma handle_stage_timeout_inv:
  assumes "archive_ok s" "controls_ok s" "steady s"
  shows "scan_inv (handle_stage_timeout i s)"
proof -
  have b: "bounds_ok (sc_boundary s)" using assms by (simp add: controls_ok_def)
  have a: "amps (min (sat_add (sc_request_ma s) 100) 3000)" using assms amps_up by (simp add: steady_def)
  have "scan_inv (scan_fail StageTimeout s)" using assms finished_inv(2) by blast
  then show ?thesis
    using assms b a by (auto simp: handle_stage_timeout_def scan_inv_def scan_defs archive_ok_def)
qed

lemma begin_rapid_voltage_reprobe_inv:
  assumes "archive_ok s" "controls_ok s" "steady s" "is_rapid s" "flat_ok s" "sane i"
  shows "scan_inv (begin_rapid_voltage_reprobe i s)"
proof -
  let ?b = "sc_boundary s"
  have b: "bounds_ok ?b" and v: "volt ?b (sc_request_mv s)" using assms by (auto simp: controls_ok_def steady_def)
  define next_mv where "next_mv = min (case sc_rapid_failed_probe_mv s of
      None \<Rightarrow> sat_add (sc_request_mv s) (rapid_probe_step_mv s)
    | Some failed \<Rightarrow>
        if failed > sc_request_mv s \<and> sat_sub failed (sc_request_mv s) \<le> RAPID_FINE_RETEST_WINDOW_MV
        then failed else sat_add (sc_request_mv s) (rapid_probe_step_mv s)) (scan_max_mv s)"
  have n: "volt ?b next_mv"
    using volt_up [OF b v rapid_probe_step_500] assms(2) b
    by (auto simp: next_mv_def controls_ok_def split: option.split)
  have p: "recorded ?b (scan_point (s\<lparr>sc_normal_probe := False\<rparr>) i)"
    using assms steady_point_recorded [of i s] by (auto simp: controls_ok_def scan_point_def)
  have "scan_inv (s\<lparr>sc_phase := Complete\<rparr>)" using assms finished_inv(1) by blast
  moreover have "scan_inv (scan_change i next_mv 3000
           (s\<lparr>sc_phase := Sweep, sc_normal_probe := False, sc_previous := Some i,
              sc_last_tracking := Some (scan_point (s\<lparr>sc_normal_probe := False\<rparr>) i), sc_flat_request_mv := 0,
              sc_flat_count := 0, sc_ambiguous_count := 0, sc_equilibrium := EquilibriumWindow_default,
              sc_stage_started_ms := in_now_ms i, sc_rapid_tracking_confirmations := 0,
              sc_last_rapid_probe_temperature := Some (in_temperature_centi_c i),
              sc_rapid_probe_since_boundary := True\<rparr>))" if "sc_request_mv s < next_mv"
    using assms n p that v
    by (auto simp: scan_inv_def scan_defs archive_ok_def volt_def word_less_nat_alt word_le_nat_alt)
  ultimately show ?thesis
    by (simp add: begin_rapid_voltage_reprobe_def Let_def not_le flip: next_mv_def del: RAPID_FINE_RETEST_WINDOW_MV_def)
qed

lemma handle_hot_inv:
  assumes "archive_ok s" "controls_ok s" "steady s" "is_rapid s" "flat_ok s" "sane i"
  shows "snd (handle_rapid_hot_boundary i s) \<longrightarrow> scan_inv (fst (handle_rapid_hot_boundary i s))"
    "\<not> snd (handle_rapid_hot_boundary i s) \<longrightarrow> fst (handle_rapid_hot_boundary i s) = s"
  using assms terminal_or_complete_inv begin_rapid_voltage_reprobe_inv by (simp_all add: handle_rapid_hot_boundary_def)

lemma rapid_warmup_confirmed_inv:
  assumes "archive_ok s" "controls_ok s" "steady s" "is_rapid s" "flat_ok s" "sane i" "sc_phase s = RapidWarmup"
  shows "scan_inv (rapid_warmup_confirmed i s)"
proof -
  have "scan_inv (s\<lparr>sc_changed_at_ms := t\<rparr>)" for t using assms by (simp add: scan_inv_def scan_defs archive_ok_def)
  then show ?thesis
    using handle_hot_inv [OF assms(1-6)] begin_rapid_voltage_reprobe_inv [OF assms(1-6)] terminal_or_complete_inv [OF assms(1-4)]
    by (cases "handle_rapid_hot_boundary i s"; cases "snd (handle_rapid_hot_boundary i s)")
      (simp_all add: rapid_warmup_confirmed_def)
qed

lemma rapid_warmup_inv:
  assumes inv: "scan_inv s" and ph: "sc_phase s = RapidWarmup" and i: "sane i"
  shows "\<exists>s'. rapid_warmup i s = Ret s' \<and> scan_inv s'"
proof -
  have s: "archive_ok s" "controls_ok s" "steady s" "is_rapid s" "flat_ok s"
    using inv ph by (auto simp: scan_inv_def phase_ok_def)
  define u where "u = s\<lparr>sc_last_rapid_probe_temperature := (case sc_last_rapid_probe_temperature s of
      None \<Rightarrow> Some (in_temperature_centi_c i) | Some t \<Rightarrow> Some t),
    sc_rapid_tracking_confirmations := sat_add (sc_rapid_tracking_confirmations s) 1\<rparr>"
  have u: "archive_ok u" "controls_ok u" "steady u" "is_rapid u" "flat_ok u" "sc_phase u = RapidWarmup"
    using s ph by (simp_all add: u_def scan_defs archive_ok_def)
  obtain ps n bins where r: "retain_normal_tracking i u = Ret (archived u ps n bins)" "archive_ok (archived u ps n bins)"
    using retain_normal_steady [OF i u(1-3) u(5)] by blast
  have "scan_inv (rapid_warmup_confirmed i (archived u ps n bins))"
    by (rule rapid_warmup_confirmed_inv [OF r(2) _ _ _ _ i]) (use u in \<open>simp_all add: scan_defs\<close>)
  moreover have "scan_inv (s\<lparr>sc_changed_at_ms := t\<rparr>)" "scan_inv (u\<lparr>sc_changed_at_ms := t\<rparr>)" for t
    using s u ph by (simp_all add: scan_inv_def scan_defs archive_ok_def)
  ultimately show ?thesis
    using begin_source_boundary_recovery_inv [OF s(1-4), of i] r(1)
    unfolding rapid_warmup_def Let_def u_def [symmetric] by simp
qed

lemma scan_equilibrium_inv:
  assumes inv: "scan_inv s" and ph: "sc_phase s = Equilibrium" and i: "sane i"
  shows "\<exists>s'. scan_equilibrium i s = Ret s' \<and> scan_inv s'"
proof -
  obtain w settled where o: "observe (sc_equilibrium s) (in_now_ms i) (in_temperature_centi_c i) = (w, settled)" by fastforce
  define u where "u = s\<lparr>sc_equilibrium := w\<rparr>"
  have u: "archive_ok u" "controls_ok u" "steady u" "\<not> is_rapid u" "flat_ok u" "sc_phase u = Equilibrium" "tracked_below u 101"
    "sc_request_mv u < scan_max_mv u" "\<not> sc_normal_probe u" and stay: "scan_inv u"
    using inv ph by (simp_all add: u_def scan_inv_def scan_defs archive_ok_def)
  let ?t = "u\<lparr>sc_last_tracking := Some (scan_point u i)\<rparr>"
  have p: "recorded (sc_boundary u) (scan_point u i)" by (rule steady_point_recorded [OF i u(2,3,5)])
  have t: "archive_ok ?t" "\<forall>p. sc_last_tracking ?t = Some p \<longrightarrow> recorded (sc_boundary ?t) p"
    using u p by (simp_all add: archive_ok_def)
  obtain ps n where r: "retain_tracking ?t = Ret (archived ?t ps n (sc_normal_bins ?t))"
    "archive_ok (archived ?t ps n (sc_normal_bins ?t))" using retain_tracking_archive [OF t] by blast
  define a where "a = archived ?t ps n (sc_normal_bins ?t)"
  have a: "archive_ok a" "controls_ok a" "steady a" "\<not> is_rapid a"
    using u p r(2) by (simp_all add: a_def scan_defs)
  have "scan_inv (begin_three_amp_probe i a)" by (rule begin_three_amp_probe_inv [OF a])
  moreover have "scan_inv (finish_three_amp_equilibrium i a)"
  proof -
    have "scan_inv (probe_next_voltage i (a\<lparr>sc_phase := Sweep, sc_previous := None, sc_last_tracking := None,
        sc_flat_count := 0, sc_ambiguous_count := 0, sc_flat_request_mv := 0, sc_equilibrium := EquilibriumWindow_default\<rparr>))"
      by (rule probe_next_inv) (use a in \<open>simp_all add: sweeping_def scan_defs archive_ok_def\<close>)
    then show ?thesis using finished_inv(1) [of a] a by (simp add: finish_three_amp_equilibrium_def)
  qed
  moreover have "scan_inv (probe_next_voltage i (u\<lparr>sc_phase := Sweep, sc_previous := Some i, sc_flat_count := 0,
      sc_flat_request_mv := 0, sc_equilibrium := EquilibriumWindow_default\<rparr>))"
    by (rule probe_next_inv) (use u in \<open>simp_all add: sweeping_def scan_defs archive_ok_def\<close>)
  ultimately show ?thesis
    using o stay r(1) unfolding scan_equilibrium_def o Let_def prod.case u_def [symmetric] r(1) a_def [symmetric]
    by (simp split: if_splits)
qed

lemma source_boundary_recovery_inv:
  assumes "scan_inv s" "sc_phase s = SourceBoundaryRecovery"
  shows "scan_inv (source_boundary_recovery i s)"
  using assms by (auto simp: source_boundary_recovery_def scan_inv_def scan_defs archive_ok_def)

lemma probe_recovery_inv:
  assumes "scan_inv s" "sc_phase s = ProbeRecovery"
  shows "scan_inv (probe_recovery i s)"
proof -
  let ?b = "sc_boundary s"
  have b: "bounds_ok ?b" "volt ?b (sc_request_mv s)" "volt ?b (max (sc_return_request_mv s) (scan_min_mv s))"
    using assms by (auto simp: scan_inv_def controls_ok_def phase_ok_def steady_def)
  have "volt ?b (max (sat_sub (sc_request_mv s) 500) (max (sc_return_request_mv s) (scan_min_mv s)))"
    by (rule volt_down [OF b]) simp
  then show ?thesis using assms b by (simp add: probe_recovery_def Let_def scan_inv_def scan_defs archive_ok_def)
qed

lemma scan_advance_inv:
  assumes inv: "scan_inv s" and i: "sane i"
  shows "\<exists>s'. scan_advance i s = Ret s' \<and> scan_inv s'"
proof -
  have fail: "scan_inv (scan_fail r s)" for r using finished_inv(2) inv phase_request by (auto simp: scan_inv_def)
  have wait: "scan_inv (s\<lparr>sc_changed_at_ms := t\<rparr>)" for t
    using inv by (cases "sc_phase s") (auto simp: scan_inv_def scan_defs archive_ok_def)
  show ?thesis
  proof (cases "sc_phase s")
    case Baseline
    then have "scan_inv (s\<lparr>sc_baseline_vin_mv := v, sc_baseline_request_mv := r, sc_phase := Preflight, sc_changed_at_ms := t\<rparr>)" for v r t
      using inv by (simp add: scan_inv_def scan_defs archive_ok_def)
    then show ?thesis using Baseline fail by (simp add: scan_advance_def)
  qed (use inv i wait fail preflight_inv sweep_inv rapid_warmup_inv terminal_probe_inv scan_equilibrium_inv
      source_boundary_recovery_inv probe_recovery_inv in
      \<open>auto simp: scan_advance_def scan_inv_def [where s = s] phase_ok_def [of s]\<close>)
qed

section \<open>The scan as a machine\<close>

text \<open>A terminal probe that was never confirmed and has run out of its stage time.\<close>

definition probe_stalled :: "ScanInput \<Rightarrow> SupplyScan \<Rightarrow> bool" where
  "probe_stalled i s \<longleftrightarrow> sc_phase s = TerminalProbe \<and> sat_sub (in_now_ms i) (sc_stage_started_ms s) > STAGE_TIMEOUT_MS"

lemma measured_temperature [simp]: "sane (i\<lparr>in_temperature_centi_c := c\<rparr>) = sane i"
  by (simp add: sane_def measured_def invalid_sample_def)

lemma unfinished_steady:
  assumes "phase_ok s" "sc_phase s \<noteq> TerminalProbe" "sc_phase s \<notin> {Complete, Failed}"
  shows "steady s"
  using assms by (cases "sc_phase s") (auto simp: phase_ok_def)

theorem scan_update_inv:
  assumes inv: "scan_inv s" and i: "measured i" and st: "\<not> probe_stalled i s"
  shows "\<exists>s'. scan_update i s = Ret s' \<and> scan_inv s'"
proof (cases "sc_phase s \<in> {Complete, Failed}")
  case True
  then show ?thesis using inv by (simp add: scan_update_def)
next
  case False
  obtain c f where filt: "stability_filter (in_temperature_centi_c i) s = (c, s\<lparr>sc_stability_temperature := Some f\<rparr>)"
    by (simp add: stability_filter_def Let_def)
  define u where "u = s\<lparr>sc_stability_temperature := Some f\<rparr>"
  have ph: "sc_phase u = sc_phase s" and u: "scan_inv u"
    using inv by (cases "sc_phase s"; auto simp: u_def scan_inv_def scan_defs archive_ok_def)+
  have base: "archive_ok u" "controls_ok u" "phase_ok u" using u by (auto simp: scan_inv_def)
  have fail: "scan_inv (scan_fail r u)" for r using finished_inv(2) base phase_request by blast
  have probing: "steady u" "\<not> is_rapid u" if "sc_normal_probe u"
    using that base False ph by (cases "sc_phase s"; auto simp: controls_ok_def phase_ok_def [of u])+
  have due: "steady u" "\<not> is_rapid u" if "three_amp_probe_due i u"
    using that base unfinished_steady [of u] by (auto simp: three_amp_probe_due_def steady_def)
  have timeout: "steady u" if "sat_sub (in_now_ms i) (sc_stage_started_ms u) > STAGE_TIMEOUT_MS"
    using that st base False ph unfinished_steady [of u] by (auto simp: probe_stalled_def u_def)
  let ?v = "u\<lparr>sc_cutoff_reached := True, sc_boundary := (sc_boundary u)\<lparr>cutoff_reached := True\<rparr>\<rparr>"
  have v: "archive_ok ?v" "controls_ok ?v" "steady ?v \<or> terminal ?v"
    using base phase_request [OF base(3)] terminal_updates(9) [where s = "u\<lparr>sc_cutoff_reached := True\<rparr>"]
    by (auto simp: archive_ok_def points_stored_def scan_defs)
  have "\<forall>p. sc_last_tracking ?v = Some p \<longrightarrow> recorded (sc_boundary ?v) p" using base by (simp add: controls_ok_def)
  then obtain ps n where r: "retain_tracking ?v = Ret (archived ?v ps n (sc_normal_bins ?v))"
    "archive_ok (archived ?v ps n (sc_normal_bins ?v))" using retain_tracking_archive [OF v(1)] by blast
  define a where "a = archived ?v ps n (sc_normal_bins ?v)"
  have a: "archive_ok a" "controls_ok a" "steady a \<or> terminal a"
    using v r(2) terminal_updates(8) [where s = ?v] by (auto simp: a_def scan_defs)
  have wait: "scan_inv (u\<lparr>sc_changed_at_ms := t\<rparr>)" for t
    using u by (cases "sc_phase u") (auto simp: scan_inv_def scan_defs archive_ok_def)
  have adv: "\<exists>s'. scan_advance (i\<lparr>in_temperature_centi_c := c\<rparr>) u = Ret s' \<and> scan_inv s'" if "\<not> invalid_sample i"
    by (rule scan_advance_inv [OF u]) (use that i sane_def [of i] in simp)
  show ?thesis
    using False fail wait adv u finished_inv(1) [OF a] begin_three_amp_probe_inv [OF base(1,2) due]
      finish_normal_probe_inv [OF base(1,2) probing] handle_stage_timeout_inv [OF base(1,2) timeout] r(1)
    unfolding scan_update_def filt prod.case u_def [symmetric] a_def
    by (simp split: if_splits)
qed

section \<open>What the scan leaves alone\<close>

text \<open>The source a boundary describes: everything but the points, their count and the cutoff flag.\<close>

definition source_of :: "SupplyBoundary \<Rightarrow> SupplyBoundary" where
  "source_of b = b\<lparr>points := [], point_count := 0, cutoff_reached := False\<rparr>"

definition same_scan :: "SupplyScan \<Rightarrow> SupplyScan \<Rightarrow> bool" where
  "same_scan s s' \<longleftrightarrow> source_of (sc_boundary s') = source_of (sc_boundary s) \<and> sc_mode s' = sc_mode s"

named_theorems frames \<open>the operations that leave the boundary and the mode alone\<close>

lemma frame_basic [frames]:
  "sc_boundary (scan_change i mv ma s) = sc_boundary s" "sc_mode (scan_change i mv ma s) = sc_mode s"
  "sc_boundary (scan_fail r s) = sc_boundary s" "sc_mode (scan_fail r s) = sc_mode s"
  by (simp_all add: scan_change_def scan_fail_def)

lemma frame_finish [frames]:
  "sc_boundary (finish_normal_probe i s) = sc_boundary s" "sc_mode (finish_normal_probe i s) = sc_mode s"
  by (simp_all add: finish_normal_probe_def frames)

lemma frame_equilibrium [frames]:
  "sc_boundary (begin_equilibrium i s) = sc_boundary s" "sc_mode (begin_equilibrium i s) = sc_mode s"
  by (simp_all add: begin_equilibrium_def frames split: option.split)

lemma frame_next [frames]:
  "sc_boundary (probe_next_voltage i s) = sc_boundary s" "sc_mode (probe_next_voltage i s) = sc_mode s"
  by (simp_all add: probe_next_voltage_def frames)

lemma frame_confirmations [frames]:
  "sc_boundary (handle_ambiguous_confirmation i s) = sc_boundary s" "sc_mode (handle_ambiguous_confirmation i s) = sc_mode s"
  "sc_boundary (handle_flat_confirmation i s) = sc_boundary s" "sc_mode (handle_flat_confirmation i s) = sc_mode s"
  "sc_boundary (sweep_classified i s) = sc_boundary s" "sc_mode (sweep_classified i s) = sc_mode s"
  by (simp_all add: handle_ambiguous_confirmation_def handle_flat_confirmation_def sweep_classified_def Let_def frames)

lemma frame_probes [frames]:
  "sc_boundary (preflight i s) = sc_boundary s" "sc_mode (preflight i s) = sc_mode s"
  "sc_boundary (begin_three_amp_probe i s) = sc_boundary s" "sc_mode (begin_three_amp_probe i s) = sc_mode s"
  "sc_boundary (begin_terminal_probe_or_complete i s) = sc_boundary s" "sc_mode (begin_terminal_probe_or_complete i s) = sc_mode s"
  "sc_boundary (begin_rapid_voltage_reprobe i s) = sc_boundary s" "sc_mode (begin_rapid_voltage_reprobe i s) = sc_mode s"
  "sc_boundary (handle_stage_timeout i s) = sc_boundary s" "sc_mode (handle_stage_timeout i s) = sc_mode s"
  "sc_boundary (finish_three_amp_equilibrium i s) = sc_boundary s" "sc_mode (finish_three_amp_equilibrium i s) = sc_mode s"
  "sc_boundary (source_boundary_recovery i s) = sc_boundary s" "sc_mode (source_boundary_recovery i s) = sc_mode s"
  "sc_boundary (probe_recovery i s) = sc_boundary s" "sc_mode (probe_recovery i s) = sc_mode s"
  by (simp_all add: preflight_def begin_three_amp_probe_def begin_terminal_probe_or_complete_def begin_terminal_probe_def
      begin_rapid_voltage_reprobe_def handle_stage_timeout_def finish_three_amp_equilibrium_def
      source_boundary_recovery_def probe_recovery_def Let_def frames split: option.split prod.split)

lemma frame_hot [frames]:
  "sc_boundary (fst (handle_rapid_hot_boundary i s)) = sc_boundary s" "sc_mode (fst (handle_rapid_hot_boundary i s)) = sc_mode s"
  by (simp_all add: handle_rapid_hot_boundary_def frames)

lemma source_of_points [simp]:
  "source_of (b\<lparr>points := ps\<rparr>) = source_of b" "source_of (b\<lparr>points := ps, point_count := n\<rparr>) = source_of b"
  "source_of (b\<lparr>cutoff_reached := c\<rparr>) = source_of b"
  by (simp_all add: source_of_def)

lemma retain_source: "retain b p = Ret (b', k) \<Longrightarrow> source_of b' = source_of b"
  by (auto simp: retain_def split: if_splits option.splits)

lemma retain_all_source: "retain_all ps b = Ret b' \<Longrightarrow> source_of b' = source_of b"
  by (induction ps arbitrary: b) (auto dest: retain_source)

lemma same_rebuild: "rebuild_normal_points s = Ret s' \<Longrightarrow> same_scan s s'"
  by (auto simp: same_scan_def rebuild_normal_points_def Let_def split_def dest: retain_all_source split: if_splits)

lemma same_normal: "retain_normal_tracking i s = Ret s' \<Longrightarrow> same_scan s s'"
  by (auto simp: retain_normal_tracking_def Let_def same_scan_def dest!: same_rebuild split: if_splits)

lemma same_tracking: "retain_tracking s = Ret s' \<Longrightarrow> same_scan s s'"
  by (auto simp: same_scan_def retain_tracking_def dest: retain_source split: if_splits option.splits)

lemma same_recovery:
  assumes "begin_source_boundary_recovery i s = Ret s'"
  shows "same_scan s s'"
proof -
  obtain r where "last_safe_point s = Ret r" using assms by (auto simp: begin_source_boundary_recovery_def)
  then show ?thesis
    using assms unfolding begin_source_boundary_recovery_def Let_def same_scan_def
    by (simp add: frames split: if_split_asm) (auto simp: frames)
qed

lemma same_terminal: "terminal_probe i s = Ret s' \<Longrightarrow> same_scan s s'"
  by (auto simp: same_scan_def terminal_probe_def Let_def frames dest: retain_source split: if_splits)

lemmas same_retains = same_normal same_tracking same_recovery same_terminal

lemma same_trans: "same_scan s t \<Longrightarrow> same_scan t u \<Longrightarrow> same_scan s u"
  by (simp add: same_scan_def)

lemma same_sweep: "sweep i s = Ret s' \<Longrightarrow> same_scan s s'"
  by (auto simp: sweep_def Let_def same_scan_def frames dest!: same_retains split: if_splits option.splits)

lemma frame_warmup [frames]:
  "sc_boundary (rapid_warmup_confirmed i s) = sc_boundary s" "sc_mode (rapid_warmup_confirmed i s) = sc_mode s"
  using frame_hot [of i s]
  by (cases "handle_rapid_hot_boundary i s"; simp add: rapid_warmup_confirmed_def frames)+

lemma same_warmup: "rapid_warmup i s = Ret s' \<Longrightarrow> same_scan s s'"
  by (auto simp: rapid_warmup_def Let_def same_scan_def frames dest!: same_retains split: if_splits)

lemma same_equilibrium: "scan_equilibrium i s = Ret s' \<Longrightarrow> same_scan s s'"
  by (auto simp: scan_equilibrium_def Let_def same_scan_def frames split_def dest!: same_retains split: if_splits option.splits)

lemma same_advance: "scan_advance i s = Ret s' \<Longrightarrow> same_scan s s'"
  by (auto simp: scan_advance_def Let_def split_def same_scan_def frames
      dest!: same_retains same_sweep same_warmup same_equilibrium split: if_splits ScanPhase.splits)

lemma same_update: "scan_update i s = Ret s' \<Longrightarrow> same_scan s s'"
  by (auto simp: scan_update_def stability_filter_def Let_def same_scan_def frames
      dest!: same_retains same_advance split: if_splits)

end
