(* ===== verification/Heater_Scan_Theorems.thy ===== *)
theory Heater_Scan_Theorems
  imports Heater_Scan_Safety
begin

text \<open>
  The supply scan as the calibration job drives it: whole runs from a new scan, the requests they can make, the
  boundary they leave behind, the cutoff, and the answer to a sagging input voltage.
\<close>

fun scan_run :: "ScanInput list \<Rightarrow> SupplyScan \<Rightarrow> SupplyScan rust" where
  "scan_run [] s = Ret s"
| "scan_run (i # is) s = rbind (scan_update i s) (scan_run is)"

text \<open>
  The samples of a calibration job: twelve-bit readings, a clock of 50 ms ticks, and the five minutes after which
  the job itself gives up (\<open>THERMAL_PLANT_TOTAL_TIMEOUT_TICKS\<close>).
\<close>

definition job_sample :: "ScanInput \<Rightarrow> bool" where
  "job_sample i \<longleftrightarrow> in_rtd_mv i \<le> 4095 \<and> in_vin_mv i \<le> 4095 \<and> is_multiple_of (in_now_ms i) 50 \<and> in_now_ms i \<le> 300000"

lemma job_sample_measured: "job_sample i \<Longrightarrow> measured i"
proof -
  assume i: "job_sample i"
  then have "unat (in_now_ms i) div 50 \<le> 300000 div 50" unfolding job_sample_def word_le_nat_alt by (intro div_le_mono) simp
  then show ?thesis using i by (simp add: job_sample_def measured_def word_less_nat_alt unat_div push_bit_eq_mult)
qed

lemma job_sample_timely: "job_sample i \<Longrightarrow> \<not> probe_stalled i s"
  by (auto simp: job_sample_def probe_stalled_def volt_nat)

lemma new_scan_inv:
  assumes "new_with_mode b mode = Some s" "length (points b) \<le> 41"
    "is_multiple_of (source_min_mv b) 100" "is_multiple_of (source_max_mv b) 100"
  shows "scan_inv s" "source_of (sc_boundary s) = source_of b" "sc_mode s = mode"
proof -
  have s: "s = the (new_with_mode b mode)" and b: "bounds_ok b" and ok: "\<not> (source_min_mv b < 5500
      \<or> source_min_mv b \<ge> source_max_mv b \<or> source_max_mv b > 21000 \<or> source_max_ma b < 3000)"
    using assms by (auto simp: new_with_mode_def bounds_ok_def split: if_splits)
  have v: "volt (b\<lparr>points := ps, cutoff_reached := c, point_count := n\<rparr>) = volt b"
    "volt (b\<lparr>point_count := n, cutoff_reached := c, points := ps\<rparr>) = volt b"
    "bounds_ok (b\<lparr>point_count := n, cutoff_reached := c, points := ps\<rparr>) = bounds_ok b" for ps c n
    by (auto simp: volt_def bounds_ok_def fun_eq_iff)
  show "scan_inv s" "source_of (sc_boundary s) = source_of b" "sc_mode s = mode"
    using ok b assms(2) unfolding s new_with_mode_def
    by (simp_all add: scan_inv_def scan_defs archive_ok_def points_stored_def source_of_def v)
qed

lemma scan_run_inv:
  assumes "\<forall>i\<in>set is. job_sample i" "scan_inv s"
  shows "\<exists>s'. scan_run is s = Ret s' \<and> scan_inv s' \<and> same_scan s s'"
  using assms
proof (induction "is" arbitrary: s)
  case Nil
  then show ?case by (simp add: same_scan_def)
next
  case (Cons i "is")
  have i: "measured i" "\<not> probe_stalled i s" using Cons.prems job_sample_measured job_sample_timely by auto
  obtain t where t: "scan_update i s = Ret t" "scan_inv t" using scan_update_inv [OF Cons.prems(2) i] by blast
  obtain s' where "scan_run is t = Ret s'" "scan_inv s'" "same_scan t s'" using Cons.IH [OF _ t(2)] Cons.prems by auto
  then show ?case using t same_trans [OF same_update [OF t(1)]] by auto
qed

text \<open>The runs of a new scan.\<close>

lemma new_scan_run:
  assumes "new_with_mode b mode = Some s" "length (points b) \<le> 41"
    "is_multiple_of (source_min_mv b) 100" "is_multiple_of (source_max_mv b) 100" "\<forall>i\<in>set is. job_sample i"
  obtains s' where "scan_run is s = Ret s'" "scan_inv s'" "source_of (sc_boundary s') = source_of b" "sc_mode s' = mode"
  using scan_run_inv [OF assms(5) new_scan_inv(1) [OF assms(1-4)]] new_scan_inv(2,3) [OF assms(1-4)]
  by (auto simp: same_scan_def)

lemma source_of_fields:
  assumes "source_of b = source_of b'"
  shows "source_min_mv b = source_min_mv b'" "source_max_mv b = source_max_mv b'"
    "advertised_min_mv b = advertised_min_mv b'" "advertised_max_mv b = advertised_max_mv b'"
    "source_power_limit_mw b = source_power_limit_mw b'" "source_max_ma b = source_max_ma b'" "adc b = adc b'"
proof -
  have f: "source_min_mv (source_of c) = source_min_mv c" "source_max_mv (source_of c) = source_max_mv c"
    "advertised_min_mv (source_of c) = advertised_min_mv c" "advertised_max_mv (source_of c) = advertised_max_mv c"
    "source_power_limit_mw (source_of c) = source_power_limit_mw c" "source_max_ma (source_of c) = source_max_ma c"
    "adc (source_of c) = adc c" for c
    by (simp_all add: source_of_def)
  show "source_min_mv b = source_min_mv b'" "source_max_mv b = source_max_mv b'"
    "advertised_min_mv b = advertised_min_mv b'" "advertised_max_mv b = advertised_max_mv b'"
    "source_power_limit_mw b = source_power_limit_mw b'" "source_max_ma b = source_max_ma b'" "adc b = adc b'"
    using f [of b] f [of b'] assms by simp_all
qed

section \<open>The envelope of the requests\<close>

text \<open>
  \<^bold>\<open>The scan never leaves its envelope (C14).\<close> From a new scan of a source whose range is a multiple of 100 mV, no
  sequence of samples of a calibration job makes the scan panic, and whatever it has seen, its request is either a
  voltage of the scanned range at 2 A to 3 A, and at exactly 3 A for the unfinished rapid scan, or the terminal
  probe: a voltage above the range but within the advertised maximum and 21 V, whose power is within the limit of
  the source. The phases \<open>PreflightRecovery\<close> and \<open>TemperatureSettle\<close> are never entered.
\<close>

theorem scan_stays_in_its_envelope:
  assumes "new_with_mode b mode = Some s" "length (points b) \<le> 41" "source_power_limit_mw b \<le> 105000"
    "is_multiple_of (source_min_mv b) 100" "is_multiple_of (source_max_mv b) 100" "\<forall>i\<in>set is. job_sample i"
  shows "\<exists>s'. scan_run is s = Ret s' \<and> sc_phase s' \<notin> {PreflightRecovery, TemperatureSettle} \<and>
    (let mv = out_request_mv (scan_output s'); ma = out_request_ma (scan_output s') in
       source_min_mv b \<le> mv \<and> mv \<le> source_max_mv b \<and> 2000 \<le> ma \<and> ma \<le> 3000 \<and> (mode = Rapid \<longrightarrow> ma = 3000)
       \<or> source_max_mv b < mv \<and> mv \<le> advertised_max_mv b \<and> mv \<le> 21000
         \<and> unat mv * unat ma \<le> unat (source_power_limit_mw b) * 1000)"
proof -
  obtain s' where r: "scan_run is s = Ret s'" "scan_inv s'" "source_of (sc_boundary s') = source_of b" "sc_mode s' = mode"
    using new_scan_run [OF assms(1,2,4-6)] by blast
  note same = source_of_fields [OF r(3)]
  have phases: "sc_phase s' \<notin> {PreflightRecovery, TemperatureSettle}" and req: "steady s' \<or> terminal s'"
    and b: "bounds_ok (sc_boundary s')"
    using r(2) phase_request [of s'] by (auto simp: scan_inv_def phase_ok_def controls_ok_def)
  have "unat mv * unat ma \<le> unat (source_power_limit_mw b) * 1000"
    if "terminal_tracking_current_ma (source_power_limit_mw b) mv = Some ma" "source_max_mv b < mv" for mv ma
    by (rule terminal_current_within_power [OF that(1) assms(3)]) (use b that(2) same in \<open>auto simp: bounds_ok_def\<close>)
  then show ?thesis
    using r(1,4) phases req terminal_current [of s' "sc_request_mv s'" "sc_request_ma s'"] same
    by (auto simp: scan_output_def Let_def steady_def volt_def amps_def terminal_def is_rapid_def)
qed

text \<open>A rapid scan of a 60 W source from 19.5 V: the preflight, one step up, the warm-up and the terminal probe.\<close>

definition scan_source :: SupplyBoundary where
  "scan_source = bench_boundary\<lparr>source_min_mv := 19500\<rparr>"

definition bench_sample :: "u32 \<Rightarrow> int \<Rightarrow> u8 \<Rightarrow> u16 \<Rightarrow> ScanInput" where
  "bench_sample now temperature duty vin =
     \<lparr>in_now_ms = now, in_temperature_centi_c = temperature, in_wifi_started = True, in_confirmed = True,
      in_physical_percent = duty, in_rtd_code = 1000, in_rtd_mv = 900, in_vin_code = 2000, in_vin_mv = vin\<rparr>"

definition scan_start :: SupplyScan where
  "scan_start = the (scan_new_rapid scan_source)"

definition preflight_samples :: "ScanInput list" where
  "preflight_samples = [bench_sample 500 2500 0 1500, bench_sample 1000 2500 0 1500, bench_sample 1500 2500 0 1500]"

definition bench_samples :: "ScanInput list" where
  "bench_samples = preflight_samples @
     [bench_sample 2000 9000 100 1462, bench_sample 2500 9000 100 1490, bench_sample 3000 9000 100 1490,
      bench_sample 3500 14000 100 1490, bench_sample 4000 14000 100 1490, bench_sample 4500 14000 100 1490,
      bench_sample 5000 14000 100 1565, bench_sample 5500 14000 100 1565]"

lemma scan_starts: "new_with_mode scan_source Rapid = Some scan_start"
  by (simp add: scan_start_def scan_new_rapid_def new_with_mode_def scan_source_def bench_boundary_def)

lemma scan_source_ok: "length (points scan_source) \<le> 41" "source_power_limit_mw scan_source \<le> 105000"
  "is_multiple_of (source_min_mv scan_source) 100" "is_multiple_of (source_max_mv scan_source) 100"
  by (simp_all add: scan_source_def bench_boundary_def is_multiple_of_def)

lemma bench_samples_ok: "\<forall>i\<in>set bench_samples. job_sample i"
  by (simp add: bench_samples_def preflight_samples_def bench_sample_def job_sample_def is_multiple_of_def)

theorem scan_stays_in_its_envelope_witness:
  "\<exists>s'. scan_run bench_samples scan_start = Ret s' \<and> sc_phase s' \<notin> {PreflightRecovery, TemperatureSettle} \<and>
    (let mv = out_request_mv (scan_output s'); ma = out_request_ma (scan_output s') in
       19500 \<le> mv \<and> mv \<le> 20000 \<and> ma = 3000 \<or> 20000 < mv \<and> mv \<le> 21000 \<and> unat mv * unat ma \<le> 60000000)"
  using scan_stays_in_its_envelope [OF scan_starts scan_source_ok bench_samples_ok]
  by (auto simp: Let_def scan_source_def bench_boundary_def)

section \<open>The boundary it leaves\<close>

text \<open>A source description the lookup of the heater would accept.\<close>

definition source_acceptable :: "SupplyBoundary \<Rightarrow> bool" where
  "source_acceptable b \<longleftrightarrow> 3000 \<le> divider_supply_mv (adc b) \<and> divider_supply_mv (adc b) \<le> 3600
     \<and> advertised_min_mv b > 0 \<and> advertised_min_mv b \<le> source_min_mv b \<and> advertised_max_mv b \<ge> source_max_mv b
     \<and> source_max_ma b = 3000
     \<and> (source_power_limit_mw b = 0
        \<or> 16500 \<le> source_power_limit_mw b \<and> source_power_limit_mw b \<le> 105000
          \<and> is_multiple_of (source_power_limit_mw b) 10)"

text \<open>
  \<^bold>\<open>What the scan retains, the heater can use (C15).\<close> After any samples of a calibration job every retained point is
  valid for the boundary, so that the boundary is valid as a whole, and is accepted by the lookup that authorises
  automatic heating and by the record codec, exactly when at least one point was retained.
\<close>

theorem scan_leaves_a_valid_boundary:
  assumes "new_with_mode b mode = Some s" "length (points b) \<le> 41" "source_acceptable b"
    "is_multiple_of (source_min_mv b) 100" "is_multiple_of (source_max_mv b) 100" "\<forall>i\<in>set is. job_sample i"
  shows "\<exists>s'. scan_run is s = Ret s' \<and> list_all (point_is_valid (sc_boundary s')) (live_points (sc_boundary s'))
    \<and> boundary_is_valid (sc_boundary s') = (point_count (sc_boundary s') \<noteq> 0)"
proof -
  obtain s' where r: "scan_run is s = Ret s'" "scan_inv s'" "source_of (sc_boundary s') = source_of b"
    using new_scan_run [OF assms(1,2,4-6)] by blast
  note same = source_of_fields [OF r(3)]
  have valid: "list_all (point_is_valid (sc_boundary s')) (live_points (sc_boundary s'))"
    and count: "unat (point_count (sc_boundary s')) \<le> 41" and b: "bounds_ok (sc_boundary s')"
    using r(2) by (auto simp: scan_inv_def archive_ok_def points_stored_def list_all_iff controls_ok_def)
  have "boundary_is_valid (sc_boundary s') = (point_count (sc_boundary s') \<noteq> 0)"
  proof -
    have one: "1 \<le> n \<longleftrightarrow> n \<noteq> 0" for n :: u8 by (simp add: word_le_nat_alt Suc_le_eq unat_gt_0)
    have "point_count (sc_boundary s') \<le> of_nat MAX_BOUNDARY_POINTS" using count by (simp add: word_le_nat_alt)
    moreover have "source_min_mv b \<le> source_max_mv b" using b by (auto simp: bounds_ok_def same)
    ultimately show ?thesis
      using assms(3) b valid unfolding boundary_is_valid_def source_acceptable_def bounds_ok_def same one by blast
  qed
  then show ?thesis using r(1) valid by blast
qed

theorem scan_leaves_a_valid_boundary_witness:
  "\<exists>s'. scan_run bench_samples scan_start = Ret s' \<and> list_all (point_is_valid (sc_boundary s')) (live_points (sc_boundary s'))
    \<and> boundary_is_valid (sc_boundary s') = (point_count (sc_boundary s') \<noteq> 0)"
  by (rule scan_leaves_a_valid_boundary [OF scan_starts scan_source_ok(1) _ scan_source_ok(3,4) bench_samples_ok])
    (simp add: source_acceptable_def scan_source_def bench_boundary_def is_multiple_of_def)

section \<open>The cutoff\<close>

text \<open>
  \<^bold>\<open>The cutoff ends the scan (C24).\<close> Whatever the state of the scan, once a sample reads 220 C the heater is
  off, and stays off with the same request whatever is sampled afterwards: the scan is complete or has failed.
\<close>

theorem cutoff_ends_the_scan:
  assumes "scan_update i s = Ret s'" "22000 \<le> in_temperature_centi_c i"
  shows "sc_phase s' \<in> {Complete, Failed} \<and> \<not> out_heater_enabled (scan_output s')
    \<and> (\<forall>is. scan_run is s' = Ret s')"
proof -
  have ph: "sc_phase s' \<in> {Complete, Failed}"
    using assms by (auto simp: scan_update_def stability_filter_def Let_def scan_fail_def split: if_splits)
  moreover have "scan_run is s' = Ret s'" for "is"
    using ph by (induction "is") (auto simp: scan_update_def)
  moreover have "\<not> out_heater_enabled (scan_output s')"
    using ph by (auto simp: scan_output_def rapid_same_current_recovery_def)
  ultimately show ?thesis by blast
qed

theorem cutoff_ends_the_scan_witness:
  "\<exists>s'. scan_update (bench_sample 500 22000 0 1500) scan_start = Ret s' \<and> sc_phase s' = Complete \<and> sc_cutoff_reached s'
    \<and> \<not> out_heater_enabled (scan_output s')"
proof -
  obtain s' where s': "scan_update (bench_sample 500 22000 0 1500) scan_start = Ret s'" "sc_phase s' = Complete"
    "sc_cutoff_reached s'"
    by (simp add: scan_update_def stability_filter_def bench_sample_def scan_start_def scan_new_rapid_def
        new_with_mode_def scan_source_def bench_boundary_def invalid_sample_def retain_tracking_def)
  then show ?thesis using cutoff_ends_the_scan [OF s'(1)] by (simp add: bench_sample_def)
qed

section \<open>A sagging input voltage\<close>

lemma recovery_lowers:
  assumes "begin_source_boundary_recovery i s = Ret s'"
  shows "sc_boundary s' = sc_boundary s \<and> (sc_phase s' = Failed \<or> sc_phase s' = SourceBoundaryRecovery
    \<and> sc_request_mv s' < sc_request_mv s \<and> sc_request_ma s' = sc_request_ma s)"
proof -
  obtain r where "last_safe_point s = Ret r" using assms by (auto simp: begin_source_boundary_recovery_def)
  then show ?thesis
    using assms unfolding begin_source_boundary_recovery_def Let_def
    by (simp add: scan_fail_def scan_change_def not_le split: if_split_asm) auto
qed

text \<open>
  \<^bold>\<open>A sag is answered by a lower request (C22).\<close> In any state of a rapid scan reached from its start, a confirmed
  and settled full-conduction sample of the warm-up, or of the sweep after its first sample, whose input voltage no
  longer tracks the request, retains nothing and makes the scan either fail or request a strictly lower voltage of
  the scanned range at the same current.
\<close>

theorem sag_lowers_the_request:
  assumes start: "new_with_mode b Rapid = Some s0" "length (points b) \<le> 41"
      "is_multiple_of (source_min_mv b) 100" "is_multiple_of (source_max_mv b) 100" "\<forall>j\<in>set is. job_sample j"
    and run: "scan_run is s0 = Ret s" "sc_phase s = RapidWarmup \<or> sc_phase s = Sweep \<and> sc_previous s \<noteq> None"
    and sample: "job_sample i" "\<not> invalid_sample i" "in_wifi_started i = wifi_started (sc_boundary s)"
      "in_temperature_centi_c i < 22000" "in_confirmed i" "in_physical_percent i = 100"
      "scan_settle_ms s \<le> sat_sub (in_now_ms i) (sc_changed_at_ms s)" "\<not> voltage_tracks_request s i"
  shows "\<exists>s'. scan_update i s = Ret s' \<and> sc_boundary s' = sc_boundary s
    \<and> (sc_phase s' = Failed \<or> source_min_mv b \<le> sc_request_mv s' \<and> sc_request_mv s' < sc_request_mv s
          \<and> sc_request_ma s' = sc_request_ma s)"
proof -
  have inv: "scan_inv s" "source_of (sc_boundary s) = source_of b" "sc_mode s = Rapid"
    using new_scan_run [OF start] run(1) by (metis rust.inject)+
  let ?i = "\<lambda>c. i\<lparr>in_temperature_centi_c := c\<rparr>"
  obtain c f where filt: "stability_filter (in_temperature_centi_c i) s = (c, s\<lparr>sc_stability_temperature := Some f\<rparr>)"
    by (simp add: stability_filter_def Let_def)
  define u where "u = s\<lparr>sc_stability_temperature := Some f\<rparr>"
  have u: "is_rapid u" "\<not> sc_normal_probe u" "\<not> three_amp_probe_due i u" "sc_phase u = sc_phase s"
    "\<not> sat_sub (in_now_ms i) (sc_stage_started_ms u) > STAGE_TIMEOUT_MS"
    "scan_settle_ms u = scan_settle_ms s" "sc_previous u = sc_previous s"
    using inv run(2) sample
    by (auto simp: u_def scan_inv_def controls_ok_def phase_ok_def steady_def three_amp_probe_due_def is_rapid_def
        scan_settle_ms_def job_sample_def volt_nat)
  have sag: "\<not> voltage_tracks_request u (?i c)"
    using sample(8) by (auto simp: u_def voltage_tracks_request_def cong: option.case_cong)
  have "scan_update i s = scan_advance (?i c) u"
    using u sample run(2)
    unfolding scan_update_def filt prod.case u_def [symmetric] by (auto simp: u_def)
  also have "\<dots> = begin_source_boundary_recovery (?i c) u"
    using u sag sample run(2) by (auto simp: scan_advance_def sweep_def rapid_warmup_def split: option.split)
  finally have upd: "scan_update i s = begin_source_boundary_recovery (?i c) u" .
  obtain s' where s': "scan_update i s = Ret s'" "scan_inv s'" "same_scan s s'"
    using scan_update_inv [OF inv(1) job_sample_measured job_sample_timely] sample(1) same_update by blast
  note low = recovery_lowers [OF s'(1) [unfolded upd]]
  have "source_min_mv b \<le> sc_request_mv s'" if "sc_phase s' = SourceBoundaryRecovery"
    using that s'(2,3) inv(2) source_of_fields(1) [of "sc_boundary s'" b]
    by (auto simp: scan_inv_def phase_ok_def steady_def volt_def same_scan_def)
  then show ?thesis using s'(1) low by (auto simp: u_def)
qed

section \<open>Beyond the five minutes of the job\<close>

text \<open>
  The scan's own stage timeout of fifteen minutes is out of reach of the job. Were it to fire in the terminal
  probe, the rapid scan, which is to use one 3 A contract only, would go on heating at the floor of the range
  with 2.95 A, and record points that the boundary does not admit.
\<close>

lemma stalled_probe_leaves_three_amps:
  assumes "probe_stalled i s" "\<not> sc_normal_probe s" "sc_request_ma s = 2850" "\<not> invalid_sample i"
    "in_wifi_started i = wifi_started (sc_boundary s)" "in_temperature_centi_c i < 22000"
  shows "\<exists>s'. scan_update i s = Ret s' \<and> sc_phase s' = Sweep \<and> scan_output s' = \<lparr>out_request_mv = scan_min_mv s,
    out_request_ma = 2950, out_heater_enabled = True\<rparr> \<and> \<not> point_is_valid (sc_boundary s') (scan_point s' i)"
proof -
  obtain c f where filt: "stability_filter (in_temperature_centi_c i) s = (c, s\<lparr>sc_stability_temperature := Some f\<rparr>)"
    by (simp add: stability_filter_def Let_def)
  have "scan_update i s = Ret (handle_stage_timeout i (s\<lparr>sc_stability_temperature := Some f\<rparr>))"
    using assms filt by (simp add: scan_update_def probe_stalled_def)
  then show ?thesis
    using assms(3) by (simp add: handle_stage_timeout_def scan_change_def scan_output_def sat_add_def point_is_valid_def
        terminal_tracking_def regular_current_def scan_point_def is_multiple_of_def)
qed

text \<open>The bench scan, its first loaded sample taken, sees 1 V in place of 1.5 V of divider voltage at 20 V.\<close>

lemmas scan_eval = scan_update_def stability_filter_def invalid_sample_def three_amp_probe_due_def scan_settle_ms_def
  scan_advance_def bench_sample_def preflight_def preflight_min_vin_mv_def scan_change_def is_rapid_def sat_sub_def
  sat_add_def sat_mul32_def div_ceil_def clamp_def

lemma preflight_run:
  "\<exists>s. scan_run preflight_samples scan_start = Ret s \<and> sc_phase s = Sweep \<and> sc_previous s = None \<and> sc_mode s = Rapid
    \<and> wifi_started (sc_boundary s) \<and> scan_max_mv s = 20000 \<and> sc_changed_at_ms s = 1500 \<and> sc_stage_started_ms s = 1500
    \<and> \<not> sc_normal_probe s \<and> \<not> sc_rapid_boundary_reached s \<and> sc_request_mv s = 19500 \<and> sc_request_ma s = 3000
    \<and> sc_baseline_vin_mv s = 1500 \<and> sc_baseline_request_mv s = 20000"
  by (simp add: preflight_samples_def scan_start_def scan_new_rapid_def new_with_mode_def scan_source_def
      bench_boundary_def scan_eval)

lemma retain_normal_frame:
  "retain_normal_tracking i s = Ret t \<Longrightarrow> \<exists>b bins. t = s\<lparr>sc_boundary := b, sc_normal_bins := bins\<rparr>"
proof -
  assume "retain_normal_tracking i s = Ret t"
  then consider "t = s" | bins b where "t = s\<lparr>sc_normal_bins := bins, sc_boundary := b\<rparr>"
    by (fastforce simp: retain_normal_tracking_def rebuild_normal_points_def Let_def split_def split: if_splits)
  then show ?thesis
  proof cases
    case 1
    then have "t = s\<lparr>sc_boundary := sc_boundary s, sc_normal_bins := sc_normal_bins s\<rparr>" by simp
    then show ?thesis by blast
  next
    case 2
    then have "t = s\<lparr>sc_boundary := b, sc_normal_bins := bins\<rparr>" by simp
    then show ?thesis by blast
  qed
qed

lemma scan_run_append: "scan_run (xs @ ys) s = rbind (scan_run xs s) (scan_run ys)"
proof (induction xs arbitrary: s)
  case (Cons x xs)
  then show ?case by (cases "scan_update x s") simp_all
qed simp

text \<open>The first sample of a sweep is retained, and the next voltage requested.\<close>

lemma sweep_first:
  assumes "sweep i s = Ret s'" "sc_previous s = None"
  obtains b bins where
    "s' = probe_next_voltage i (s\<lparr>sc_last_tracking := Some (scan_point s i), sc_boundary := b, sc_normal_bins := bins,
       sc_previous := Some i\<rparr>)" "source_of b = source_of (sc_boundary s)"
proof -
  obtain t where t: "retain_normal_tracking i (s\<lparr>sc_last_tracking := Some (scan_point s i)\<rparr>) = Ret t"
    "s' = probe_next_voltage i (t\<lparr>sc_previous := Some i\<rparr>)"
    using assms by (auto simp: sweep_def)
  obtain b bins where b: "t = s\<lparr>sc_last_tracking := Some (scan_point s i), sc_boundary := b, sc_normal_bins := bins\<rparr>"
    using retain_normal_frame [OF t(1)] by auto
  show thesis using that [where b = b and bins = bins] t(2) b same_normal [OF t(1)] by (simp add: same_scan_def)
qed

lemma source_of_wifi: "source_of b = source_of b' \<Longrightarrow> wifi_started b = wifi_started b'"
proof -
  have "wifi_started (source_of c) = wifi_started c" for c by (simp add: source_of_def)
  then show "source_of b = source_of b' \<Longrightarrow> wifi_started b = wifi_started b'" by metis
qed

lemma warm_run:
  "\<exists>s. scan_run (preflight_samples @ [bench_sample 2000 9000 100 1462]) scan_start = Ret s \<and> sc_phase s = Sweep
    \<and> sc_previous s \<noteq> None \<and> sc_mode s = Rapid \<and> sc_changed_at_ms s = 2000 \<and> sc_request_mv s = 20000
    \<and> sc_baseline_vin_mv s = 1500 \<and> sc_baseline_request_mv s = 20000 \<and> wifi_started (sc_boundary s)"
proof -
  let ?i = "bench_sample 2000 9000 100 1462"
  have jobs: "\<forall>i\<in>set preflight_samples. job_sample i" "job_sample ?i"
    using bench_samples_ok by (auto simp: bench_samples_def)
  obtain s where s: "scan_run preflight_samples scan_start = Ret s" "sc_phase s = Sweep" "sc_previous s = None"
    "sc_mode s = Rapid" "wifi_started (sc_boundary s)" "scan_max_mv s = 20000" "sc_changed_at_ms s = 1500"
    "sc_stage_started_ms s = 1500" "\<not> sc_normal_probe s" "\<not> sc_rapid_boundary_reached s" "sc_request_mv s = 19500"
    "sc_request_ma s = 3000" "sc_baseline_vin_mv s = 1500" "sc_baseline_request_mv s = 20000"
    using preflight_run by blast
  have inv: "scan_inv s" using new_scan_run [OF scan_starts scan_source_ok(1,3,4) jobs(1)] s(1) by auto
  obtain s' where s': "scan_update ?i s = Ret s'"
    using scan_update_inv [OF inv job_sample_measured [OF jobs(2)] job_sample_timely [OF jobs(2)]] by blast
  obtain c f where filt: "stability_filter 9000 s = (c, s\<lparr>sc_stability_temperature := Some f\<rparr>)"
    by (simp add: stability_filter_def Let_def)
  let ?j = "?i\<lparr>in_temperature_centi_c := c\<rparr>" and ?u = "s\<lparr>sc_stability_temperature := Some f\<rparr>"
  have "scan_update ?i s = sweep ?j ?u" using s filt by (simp add: scan_eval(1) scan_eval(3-7) sat_sub_def)
  with s' have "sweep ?j ?u = Ret s'" by simp
  then obtain b bins where b: "source_of b = source_of (sc_boundary s)" "s' = probe_next_voltage ?j
      (?u\<lparr>sc_last_tracking := Some (scan_point ?u ?j), sc_boundary := b, sc_normal_bins := bins, sc_previous := Some ?j\<rparr>)"
    using s(3) by (auto elim: sweep_first)
  have "source_max_mv b = 20000" "wifi_started b" using source_of_fields(2) [OF b(1)] source_of_wifi [OF b(1)] s(5,6) by simp_all
  then have "sc_phase s' = Sweep \<and> sc_previous s' \<noteq> None \<and> sc_mode s' = Rapid \<and> sc_changed_at_ms s' = 2000
      \<and> sc_request_mv s' = 20000 \<and> sc_baseline_vin_mv s' = 1500 \<and> sc_baseline_request_mv s' = 20000
      \<and> wifi_started (sc_boundary s')"
    using s unfolding b(2)
    by (simp add: probe_next_voltage_def is_rapid_def rapid_probe_step_mv_def scan_change_def sat_add_def bench_sample_def)
  then show ?thesis using s(1) s' by (simp add: scan_run_append)
qed

theorem sag_lowers_the_request_witness:
  "\<exists>s s'. scan_run (preflight_samples @ [bench_sample 2000 9000 100 1462]) scan_start = Ret s \<and> sc_request_mv s = 20000
    \<and> scan_update (bench_sample 2500 9000 100 1000) s = Ret s'
    \<and> (sc_phase s' = Failed \<or> 19500 \<le> sc_request_mv s' \<and> sc_request_mv s' < 20000)"
proof -
  obtain s where s: "scan_run (preflight_samples @ [bench_sample 2000 9000 100 1462]) scan_start = Ret s" "sc_phase s = Sweep"
    "sc_previous s \<noteq> None" "sc_mode s = Rapid" "sc_changed_at_ms s = 2000" "sc_request_mv s = 20000"
    "sc_baseline_vin_mv s = 1500" "sc_baseline_request_mv s = 20000" "wifi_started (sc_boundary s)"
    using warm_run by blast
  have jobs: "\<forall>i\<in>set (preflight_samples @ [bench_sample 2000 9000 100 1462]). job_sample i"
    using bench_samples_ok by (auto simp: bench_samples_def)
  have sag: "\<not> voltage_tracks_request s (bench_sample 2500 9000 100 1000)"
    using s by (simp add: voltage_tracks_request_def sat_mul32_def div_ceil_def bench_sample_def)
  have "\<exists>s'. scan_update (bench_sample 2500 9000 100 1000) s = Ret s' \<and> sc_boundary s' = sc_boundary s
    \<and> (sc_phase s' = Failed \<or> source_min_mv scan_source \<le> sc_request_mv s' \<and> sc_request_mv s' < sc_request_mv s
          \<and> sc_request_ma s' = sc_request_ma s)"
    by (rule sag_lowers_the_request [OF scan_starts scan_source_ok(1,3,4) jobs s(1)])
      (use s sag in \<open>simp_all add: bench_sample_def job_sample_def is_multiple_of_def invalid_sample_def scan_settle_ms_def
        sat_sub_def\<close>)
  then show ?thesis using s(1,6) by (auto simp: scan_source_def)
qed

end
