(* ===== verification/Net_Http.thy ===== *)
theory Net_Http
  imports Lan
begin

text \<open>
  The request gate of the LAN server, \<open>src/firmware/src/net_http.rs\<close>: what a request may reach before any command
  enters the control mailbox. CORS, pairing, bearer token, control lease and revision are checked here.

  Text is the list of its Unicode scalar values; where the code looks at bytes it is encoded first. A
  \<open>heapless::String\<close> keeps its capacity in bytes: \<open>heap_push\<close> and \<open>heap_write\<close> stop where a push does not fit.
  The JSON reader of a pairing claim (\<open>serde_json_core\<close>), and the identity the build generates, come in a record
  of what the environment provides.
\<close>

section \<open>Text\<close>

definition utf8_char :: "nat \<Rightarrow> bytes" where
  "utf8_char c =
     (if c < 0x80 then [of_nat c]
      else if c < 0x800 then [of_nat (0xc0 + c div 0x40), of_nat (0x80 + c mod 0x40)]
      else if c < 0x10000 then [of_nat (0xe0 + c div 0x1000), of_nat (0x80 + c div 0x40 mod 0x40), of_nat (0x80 + c mod 0x40)]
      else [of_nat (0xf0 + c div 0x40000), of_nat (0x80 + c div 0x1000 mod 0x40), of_nat (0x80 + c div 0x40 mod 0x40),
            of_nat (0x80 + c mod 0x40)])"

definition utf8 :: "chars \<Rightarrow> bytes" where
  "utf8 s = concat (map utf8_char s)"

text \<open>\<open>core::str::from_utf8\<close>: no overlong forms, no surrogates, nothing above \<open>0x10ffff\<close>.\<close>

definition continuation :: "u8 \<Rightarrow> bool" where
  "continuation b \<longleftrightarrow> 0x80 \<le> b \<and> b \<le> 0xbf"

fun from_utf8 :: "bytes \<Rightarrow> chars option" where
  "from_utf8 [] = Some []"
| "from_utf8 (b # bs) =
     (if b < 0x80 then map_option ((#) (unat b)) (from_utf8 bs)
      else if 0xc2 \<le> b \<and> b \<le> 0xdf then
        (case bs of
           c # bs \<Rightarrow>
             if continuation c
             then map_option ((#) ((unat b - 0xc0) * 0x40 + (unat c - 0x80))) (from_utf8 bs) else None
         | _ \<Rightarrow> None)
      else if 0xe0 \<le> b \<and> b \<le> 0xef then
        (case bs of
           c # d # bs \<Rightarrow>
             if continuation c \<and> continuation d \<and> (b = 0xe0 \<longrightarrow> 0xa0 \<le> c) \<and> (b = 0xed \<longrightarrow> c \<le> 0x9f)
             then map_option ((#) ((unat b - 0xe0) * 0x1000 + (unat c - 0x80) * 0x40 + (unat d - 0x80))) (from_utf8 bs)
             else None
         | _ \<Rightarrow> None)
      else if 0xf0 \<le> b \<and> b \<le> 0xf4 then
        (case bs of
           c # d # e # bs \<Rightarrow>
             if continuation c \<and> continuation d \<and> continuation e \<and> (b = 0xf0 \<longrightarrow> 0x90 \<le> c) \<and> (b = 0xf4 \<longrightarrow> c \<le> 0x8f)
             then map_option ((#) ((unat b - 0xf0) * 0x40000 + (unat c - 0x80) * 0x1000 + (unat d - 0x80) * 0x40
               + (unat e - 0x80))) (from_utf8 bs)
             else None
         | _ \<Rightarrow> None)
      else None)"

text \<open>\<open>heapless::String::push_str\<close>, and \<open>write!\<close> of the pieces of a format string.\<close>

definition heap_push :: "nat \<Rightarrow> chars \<Rightarrow> chars \<Rightarrow> chars" where
  "heap_push cap s t = (if length (utf8 s) + length (utf8 t) \<le> cap then s @ t else s)"

fun heap_write :: "nat \<Rightarrow> chars \<Rightarrow> chars list \<Rightarrow> chars \<times> bool" where
  "heap_write cap s [] = (s, True)"
| "heap_write cap s (p # ps) =
     (if length (utf8 s) + length (utf8 p) \<le> cap then heap_write cap (s @ p) ps else (s, False))"

fun decimal :: "nat \<Rightarrow> chars" where
  "decimal n = (if n < 10 then [48 + n] else decimal (n div 10) @ [48 + n mod 10])"

declare decimal.simps [simp del]

definition show_bool :: "bool \<Rightarrow> chars" where
  "show_bool b = chars_of (if b then ''true'' else ''false'')"

definition CRLF :: chars where "CRLF = [13, 10]"

text \<open>\<open>str::strip_prefix\<close>.\<close>

definition strip_prefix :: "chars \<Rightarrow> chars \<Rightarrow> chars option" where
  "strip_prefix p s = (if starts_with s p then Some (drop (length p) s) else None)"

section \<open>Data\<close>

definition http_socket_slot_count :: "nat \<Rightarrow> nat" where
  "http_socket_slot_count active_request_budget = active_request_budget + 2"

definition http_workspace_slot_count :: "nat \<Rightarrow> nat" where
  "http_workspace_slot_count active_request_budget = active_request_budget"

definition LAN_HTTP_BODY_MAX_LEN :: nat where [simp]: "LAN_HTTP_BODY_MAX_LEN = 6 * 1024"
definition LAN_HTTP_LIGHT_BODY_MAX_LEN :: nat where [simp]: "LAN_HTTP_LIGHT_BODY_MAX_LEN = 512"
definition HTTP_RESPONSE_HEADER_MAX_LEN :: nat where [simp]: "HTTP_RESPONSE_HEADER_MAX_LEN = 640"

datatype HttpMethod = Get | Post | Put | Delete | Options

datatype CommandOrigin = UsbOrigin | LanOrigin

record ControlMailboxCommand =
  cmd_request_id :: u32
  cmd_response_slot :: u8
  cmd_origin :: CommandOrigin
  cmd_endpoint :: LanEndpoint
  cmd_method :: HttpMethod
  cmd_lease_id :: "bytes option"
  cmd_expected_revision :: "u32 option"
  cmd_after_sample :: "u8 option"
  cmd_after_sequence :: "u32 option"
  cmd_body :: chars

datatype ControlMailboxError = MailboxBusy

datatype ControlRevisionError = RevisionMissing | RevisionStale

definition validate_control_revision :: "u32 option \<Rightarrow> u32 \<Rightarrow> ControlRevisionError + unit" where
  "validate_control_revision expected current =
     (case expected of
        None \<Rightarrow> Inl RevisionMissing
      | Some v \<Rightarrow> if v \<noteq> current then Inl RevisionStale else Inr ())"

record DeviceNames =
  dn_mac :: bytes
  dn_device_id :: bytes
  dn_hostname :: chars

definition byte_to_hex :: "u8 \<Rightarrow> bytes" where
  "byte_to_hex b =
     (let hex = map of_nat (chars_of ''0123456789abcdef'')
      in [hex ! unat (drop_bit 4 b), hex ! unat (b AND 15)])"

definition device_names_from_mac :: "bytes \<Rightarrow> DeviceNames" where
  "device_names_from_mac mac =
     (let encoded = concat (map byte_to_hex mac)
      in \<lparr>dn_mac = mac, dn_device_id = encoded,
          dn_hostname = fold (\<lambda>c s. heap_push 32 s [unat c]) encoded (heap_push 32 [] (chars_of ''flux-purr-''))\<rparr>)"

text \<open>Of the device identity of \<open>control_plane.rs\<close>, the fields the gate publishes.\<close>

record Identity =
  id_device_id :: chars
  id_firmware_version :: chars
  id_hostname :: chars

definition DEVICE_ID_MAX_LEN :: nat where [simp]: "DEVICE_ID_MAX_LEN = 48"
definition HOSTNAME_MAX_LEN :: nat where [simp]: "HOSTNAME_MAX_LEN = 64"

definition firmware_from_mac :: "Identity \<Rightarrow> bytes \<Rightarrow> Identity" where
  "firmware_from_mac firmware_default mac =
     (let digits = concat (map (\<lambda>b. map unat (byte_to_hex b)) mac)
      in firmware_default
           \<lparr>id_device_id := fold (\<lambda>c s. heap_push DEVICE_ID_MAX_LEN s [c]) digits [],
            id_hostname := fold (\<lambda>c s. heap_push HOSTNAME_MAX_LEN s [c]) digits
              (heap_push HOSTNAME_MAX_LEN [] (chars_of ''flux-purr-''))\<rparr>)"

definition identity_from_device_names :: "Identity \<Rightarrow> DeviceNames \<Rightarrow> Identity" where
  "identity_from_device_names firmware_default names = firmware_from_mac firmware_default (dn_mac names)"

record HttpEnv =
  env_claim_code :: "chars \<Rightarrow> chars option"
  env_firmware_default :: Identity

record HttpRequest =
  rq_method :: HttpMethod
  rq_path :: chars
  rq_origin :: "chars option"
  rq_authorization :: "chars option"
  rq_lease_id :: "chars option"
  rq_expected_revision :: "u32 option"
  rq_after_sample :: "u8 option"
  rq_after_sequence :: "u32 option"
  rq_private_network :: bool
  rq_body :: chars
  rq_entropy :: bytes

record HttpResponse =
  rs_status :: u16
  rs_allow_origin :: "chars option"
  rs_allow_private_network :: bool
  rs_control_revision :: "u32 option"
  rs_body :: chars

record LightHttpResponse =
  lr_status :: u16
  lr_allow_origin :: "chars option"
  lr_allow_private_network :: bool
  lr_body :: chars

datatype HttpReadGate = ReadRespond LightHttpResponse | ReadSnapshot LanEndpoint "chars option" | ReadDefer

datatype HttpGate = Respond HttpResponse | Dispatch ControlMailboxCommand "chars option"

definition HttpResponse_json :: "u16 \<Rightarrow> chars \<Rightarrow> HttpResponse" where
  "HttpResponse_json status body =
     \<lparr>rs_status = status, rs_allow_origin = None, rs_allow_private_network = False, rs_control_revision = None,
      rs_body = body\<rparr>"

definition HttpResponse_new :: "u16 \<Rightarrow> chars \<Rightarrow> HttpResponse" where
  "HttpResponse_new status body = HttpResponse_json status (heap_push LAN_HTTP_BODY_MAX_LEN [] body)"

record NetHttpState =
  ns_token :: "bytes option"
  ns_pairing :: PairingWindow
  ns_pairing_mode :: LanPairingMode
  ns_leases :: LanLeaseState
  ns_token_dirty :: bool
  ns_device_names :: "DeviceNames option"

definition LanLeaseState_default :: LanLeaseState where
  "LanLeaseState_default = \<lparr>lease = None\<rparr>"

section \<open>The state\<close>

definition NetHttpState_new :: "bytes option \<Rightarrow> NetHttpState" where
  "NetHttpState_new persisted_token =
     \<lparr>ns_token = persisted_token, ns_pairing = PairingWindow_inactive, ns_pairing_mode = Required,
      ns_leases = LanLeaseState_default, ns_token_dirty = False, ns_device_names = None\<rparr>"

definition set_device_names :: "DeviceNames \<Rightarrow> NetHttpState \<Rightarrow> NetHttpState" where
  "set_device_names names s = s\<lparr>ns_device_names := Some names\<rparr>"

text \<open>The four digits of a random number, filled in from the last to the first.\<close>

fun code_digits :: "nat \<Rightarrow> u32 \<Rightarrow> bytes \<Rightarrow> bytes" where
  "code_digits 0 v code = code"
| "code_digits (Suc n) v code = code_digits n (v div 10) (code[n := 48 + ucast (v mod 10)])"

definition pairing_code_from_random :: "u32 \<Rightarrow> NetHttpState \<Rightarrow> NetHttpState \<times> bytes option" where
  "pairing_code_from_random random s =
     (if ns_pairing_mode s \<noteq> Required then (s\<lparr>ns_pairing := leave_pairing (ns_pairing s)\<rparr>, None)
      else let code = code_digits LAN_PAIRING_CODE_LEN random (replicate LAN_PAIRING_CODE_LEN 48)
        in (s\<lparr>ns_pairing := enter_pairing (ns_pairing s) code\<rparr>, Some code))"

definition http_leave_pairing :: "NetHttpState \<Rightarrow> NetHttpState" where
  "http_leave_pairing s = s\<lparr>ns_pairing := leave_pairing (ns_pairing s)\<rparr>"

definition http_pairing_code :: "NetHttpState \<Rightarrow> bytes option" where
  "http_pairing_code s = pairing_code (ns_pairing s)"

definition set_pairing_mode :: "LanPairingMode \<Rightarrow> NetHttpState \<Rightarrow> NetHttpState" where
  "set_pairing_mode mode s =
     (let s = s\<lparr>ns_pairing_mode := mode\<rparr>
      in if mode \<noteq> Required then s\<lparr>ns_pairing := leave_pairing (ns_pairing s)\<rparr> else s)"

definition persisted_token :: "NetHttpState \<Rightarrow> bytes option" where
  "persisted_token s = ns_token s"

definition clear_token_from_usb :: "NetHttpState \<Rightarrow> NetHttpState" where
  "clear_token_from_usb s = s\<lparr>ns_token := None, ns_leases := LanLeaseState_default, ns_token_dirty := True\<rparr>"

definition take_persisted_token_change :: "NetHttpState \<Rightarrow> NetHttpState \<times> bytes option option" where
  "take_persisted_token_change s =
     (if \<not> ns_token_dirty s then (s, None)
      else let s = s\<lparr>ns_token_dirty := False\<rparr> in (s, Some (persisted_token s)))"

section \<open>Routes\<close>

definition endpoint_for_path :: "chars \<Rightarrow> LanEndpoint option" where
  "endpoint_for_path path =
     map_of
       [(chars_of ''/health'', Health), (chars_of ''/api/v1/pairing'', Pairing),
        (chars_of ''/api/v1/pairing/claim'', PairingClaim), (chars_of ''/api/v1/leases'', LeaseEndpoint),
        (chars_of ''/api/v1/identity'', Identity), (chars_of ''/api/v1/network'', Network),
        (chars_of ''/api/v1/status'', Status), (chars_of ''/api/v1/events'', Events),
        (chars_of ''/api/v1/runtime'', Runtime), (chars_of ''/api/v1/calibration'', Calibration),
        (chars_of ''/api/v1/calibration/job'', CalibrationJob),
        (chars_of ''/api/v1/calibration/thermal-plant/run'', ThermalPlantRun),
        (chars_of ''/api/v1/thermal-tuning'', ThermalTuning), (chars_of ''/api/v1/heater-curve'', HeaterCurve),
        (chars_of ''/api/v1/heater-curve/save'', HeaterCurveSave),
        (chars_of ''/api/v1/thermal-profile'', ThermalProfile)] path"

fun endpoint_allows_method :: "LanEndpoint \<Rightarrow> HttpMethod \<Rightarrow> bool" where
  "endpoint_allows_method Health m = (m = Get)"
| "endpoint_allows_method Pairing m = (m = Get)"
| "endpoint_allows_method PairingClaim m = (m = Post)"
| "endpoint_allows_method LeaseEndpoint m = (m \<in> {Post, Put, Delete})"
| "endpoint_allows_method LanEndpoint.Identity m = (m = Get)"
| "endpoint_allows_method Network m = (m = Get)"
| "endpoint_allows_method Status m = (m = Get)"
| "endpoint_allows_method Events m = (m = Get)"
| "endpoint_allows_method Runtime m = (m = Put)"
| "endpoint_allows_method ThermalProfile m = (m = Put)"
| "endpoint_allows_method Calibration m = (m \<in> {Get, Put})"
| "endpoint_allows_method HeaterCurve m = (m \<in> {Get, Put})"
| "endpoint_allows_method CalibrationJob m = (m \<in> {Get, Post})"
| "endpoint_allows_method ThermalPlantRun m = (m = Get)"
| "endpoint_allows_method ThermalTuning m = (m \<in> {Get, Post})"
| "endpoint_allows_method HeaterCurveSave m = (m = Post)"

definition is_write :: "HttpMethod \<Rightarrow> bool" where
  "is_write m \<longleftrightarrow> m \<in> {Post, Put, Delete}"

definition is_control_write :: "HttpMethod \<Rightarrow> LanEndpoint \<Rightarrow> bool" where
  "is_control_write m e \<longleftrightarrow> is_write m \<and> e \<noteq> LeaseEndpoint \<and> e \<noteq> PairingClaim"

definition nibble :: "u8 \<Rightarrow> u8 option" where
  "nibble b =
     (if 48 \<le> b \<and> b \<le> 57 then Some (b - 48)
      else if 97 \<le> b \<and> b \<le> 102 then Some (b - 97 + 10)
      else if 65 \<le> b \<and> b \<le> 70 then Some (b - 65 + 10)
      else None)"

definition parse_lease_id :: "chars \<Rightarrow> bytes option" where
  "parse_lease_id s =
     (let v = utf8 s in
      if length v \<noteq> LAN_LEASE_ID_BYTES * 2 then None
      else those (map (\<lambda>index. Option.bind (nibble (v ! (index * 2))) (\<lambda>high.
             Option.bind (nibble (v ! (index * 2 + 1))) (\<lambda>low. Some (push_bit 4 high OR low)))) [0..<LAN_LEASE_ID_BYTES]))"

definition lease_entropy :: "bytes \<Rightarrow> bytes" where
  "lease_entropy entropy = take LAN_LEASE_ID_BYTES entropy"

section \<open>Responses\<close>

fun access_error :: "LanAccessError \<Rightarrow> u16 \<times> chars \<times> chars" where
  "access_error PairingInactive =
     (403, chars_of ''pairing_inactive'', chars_of ''Pairing is only available while WiFi Info is visible.'')"
| "access_error PairingLocked =
     (429, chars_of ''pairing_locked'', chars_of ''Pairing has reached the failed-attempt limit.'')"
| "access_error PairingCodeInvalid = (400, chars_of ''pairing_code_invalid'', chars_of ''The pairing code is invalid.'')"
| "access_error PairingUnavailable =
     (403, chars_of ''pairing_unavailable'', chars_of ''This device does not support LAN pairing codes.'')"
| "access_error Unauthorized = (401, chars_of ''unauthorized'', chars_of ''Bearer token required.'')"
| "access_error LeaseBusy = (409, chars_of ''lease_busy'', chars_of ''Another LAN client owns the lease.'')"
| "access_error LeaseRequired = (409, chars_of ''lease_required'', chars_of ''An active LAN lease is required.'')"
| "access_error LeaseExpired = (409, chars_of ''lease_expired'', chars_of ''The LAN lease has expired.'')"

definition error_json :: "chars \<Rightarrow> chars \<Rightarrow> chars list" where
  \<open>error_json code message =
     [chars_of ''{"error":{"code":"'', code, chars_of ''","message":"'', message, chars_of ''"}}'']\<close>

definition access_error_response :: "LanAccessError \<Rightarrow> HttpResponse" where
  "access_error_response error =
     (case access_error error of (status, code, message) \<Rightarrow>
        HttpResponse_json status (fst (heap_write LAN_HTTP_BODY_MAX_LEN [] (error_json code message))))"

definition lease_response :: "LanLease \<Rightarrow> HttpResponse" where
  \<open>lease_response l =
     HttpResponse_json 200 (fst (heap_write LAN_HTTP_BODY_MAX_LEN []
       [chars_of ''{"leaseId":"'', map unat (write_hex (lease_id l)), chars_of ''","ttlMs":30000}'']))\<close>

definition attempts_remaining :: "NetHttpState \<Rightarrow> u8" where
  "attempts_remaining s = sat_sub 5 (failed_attempts (ns_pairing s))"

definition public_health_pieces :: "HttpEnv \<Rightarrow> NetHttpState \<Rightarrow> chars list" where
  \<open>public_health_pieces env s =
     (let identity = (case ns_device_names s of
            Some names \<Rightarrow> identity_from_device_names (env_firmware_default env) names
          | None \<Rightarrow> env_firmware_default env)
      in [chars_of ''{"ok":true,"api":"v1","deviceId":"'', id_device_id identity, chars_of ''","hostname":"'',
          id_hostname identity, chars_of ''","firmwareVersion":"'', id_firmware_version identity,
          chars_of ''","pairing":{"mode":"'', chars_of (LanPairingMode_as_wire (ns_pairing_mode s)),
          chars_of ''","active":'', show_bool (pairing_is_active (ns_pairing s)), chars_of '',"attemptsRemaining":'',
          decimal (unat (attempts_remaining s)), chars_of ''}}''])\<close>

definition write_public_health :: "HttpEnv \<Rightarrow> NetHttpState \<Rightarrow> nat \<Rightarrow> chars" where
  "write_public_health env s cap = fst (heap_write cap [] (public_health_pieces env s))"

definition pairing_metadata_pieces :: "NetHttpState \<Rightarrow> chars list" where
  \<open>pairing_metadata_pieces s =
     [chars_of ''{"mode":"'', chars_of (LanPairingMode_as_wire (ns_pairing_mode s)), chars_of ''","active":'',
      show_bool (ns_pairing_mode s = Required \<and> pairing_is_active (ns_pairing s)),
      chars_of '',"attemptsRemaining":'', decimal (unat (attempts_remaining s)), chars_of ''}'']\<close>

definition write_pairing_metadata :: "NetHttpState \<Rightarrow> nat \<Rightarrow> chars" where
  "write_pairing_metadata s cap = fst (heap_write cap [] (pairing_metadata_pieces s))"

definition public_health_response :: "HttpEnv \<Rightarrow> NetHttpState \<Rightarrow> HttpResponse" where
  "public_health_response env s = HttpResponse_json 200 (write_public_health env s LAN_HTTP_BODY_MAX_LEN)"

definition pairing_metadata_response :: "NetHttpState \<Rightarrow> HttpResponse" where
  "pairing_metadata_response s = HttpResponse_json 200 (write_pairing_metadata s LAN_HTTP_BODY_MAX_LEN)"

text \<open>The fixed bodies of the refusals.\<close>

definition origin_not_allowed :: chars where
  \<open>origin_not_allowed = chars_of ''{"error":"origin_not_allowed"}''\<close>

definition method_not_allowed :: chars where
  \<open>method_not_allowed = chars_of ''{"error":"method_not_allowed"}''\<close>

definition unknown_path :: chars where
  \<open>unknown_path = chars_of ''{"error":{"code":"not_found","message":"Unknown API path."}}''\<close>

definition bearer_required :: chars where
  \<open>bearer_required = chars_of ''{"error":{"code":"unauthorized","message":"Bearer token required."}}''\<close>

definition write_lease_required :: chars where
  \<open>write_lease_required =
     chars_of ''{"error":{"code":"lease_required","message":"An active LAN lease is required for writes."}}''\<close>

definition revision_required :: chars where
  \<open>revision_required =
     chars_of ''{"error":{"code":"revision_required","message":"A current control revision is required for writes."}}''\<close>

definition lease_released :: chars where
  \<open>lease_released = chars_of ''{"released":true}''\<close>

definition control_busy :: chars where
  \<open>control_busy = chars_of ''{"error":{"code":"control_busy","message":"Control mailbox is busy."}}''\<close>

definition cors_origin :: "chars option \<Rightarrow> chars option" where
  "cors_origin origin = map_option (heap_push 128 []) (cors_allow_origin origin)"

definition with_cors :: "chars option \<Rightarrow> HttpResponse \<Rightarrow> HttpResponse" where
  "with_cors origin r = r\<lparr>rs_allow_origin := cors_origin origin\<rparr>"

definition preflight_response :: "HttpRequest \<Rightarrow> HttpResponse" where
  "preflight_response rq =
     (let policy = private_network_preflight (rq_origin rq) (rq_private_network rq)
      in if \<not> allow_origin policy then HttpResponse_new 403 origin_not_allowed
         else (HttpResponse_new 204 [])
           \<lparr>rs_allow_origin := Some (heap_push 128 [] (case rq_origin rq of Some o' \<Rightarrow> o' | None \<Rightarrow> [])),
            rs_allow_private_network := allow_private_network policy\<rparr>)"

section \<open>The gate\<close>

definition authorized :: "NetHttpState \<Rightarrow> chars option \<Rightarrow> bool" where
  "authorized s header =
     (case (ns_token s, Option.bind header (strip_prefix (chars_of ''Bearer ''))) of
        (Some token, Some bearer) \<Rightarrow> matches_bearer token (utf8 bearer)
      | _ \<Rightarrow> False)"

text \<open>\<open>require_lease\<close>, \<open>command_lease_is_active\<close>: \<open>LanLeaseState::require\<close> on the state's leases.\<close>

definition http_require_lease :: "u64 \<Rightarrow> chars option \<Rightarrow> NetHttpState \<Rightarrow> NetHttpState \<times> (LanAccessError + bytes)" where
  "http_require_lease now v s =
     (case Option.bind v parse_lease_id of
        None \<Rightarrow> (s, Inl LeaseRequired)
      | Some who \<Rightarrow>
          (case require_lease (ns_leases s) now who of
             (leases, Inl e) \<Rightarrow> (s\<lparr>ns_leases := leases\<rparr>, Inl e)
           | (leases, Inr ()) \<Rightarrow> (s\<lparr>ns_leases := leases\<rparr>, Inr who)))"

definition command_lease_is_active :: "u64 \<Rightarrow> bytes \<Rightarrow> NetHttpState \<Rightarrow> NetHttpState \<times> bool" where
  "command_lease_is_active now who s =
     (case require_lease (ns_leases s) now who of (leases, r) \<Rightarrow> (s\<lparr>ns_leases := leases\<rparr>, \<not> isl r))"

definition lease_route :: "u64 \<Rightarrow> HttpRequest \<Rightarrow> NetHttpState \<Rightarrow> NetHttpState \<times> HttpResponse" where
  "lease_route now rq s =
     (let parsed = Option.bind (rq_lease_id rq) parse_lease_id;
          answer = (\<lambda>(leases, result). (s\<lparr>ns_leases := leases\<rparr>,
            case result of Inr l \<Rightarrow> lease_response l | Inl e \<Rightarrow> access_error_response e))
      in case rq_method rq of
           Post \<Rightarrow> answer (create_lease (ns_leases s) now (lease_entropy (rq_entropy rq)))
         | Put \<Rightarrow> answer (case parsed of None \<Rightarrow> (ns_leases s, Inl LeaseRequired) | Some who \<Rightarrow> heartbeat (ns_leases s) now who)
         | Delete \<Rightarrow>
             (case (case parsed of None \<Rightarrow> (ns_leases s, Inl LeaseRequired) | Some who \<Rightarrow> release_lease (ns_leases s) who) of
                (leases, result) \<Rightarrow> (s\<lparr>ns_leases := leases\<rparr>,
                  case result of Inr () \<Rightarrow> HttpResponse_new 200 lease_released
                  | Inl e \<Rightarrow> access_error_response e))
         | _ \<Rightarrow> (s, HttpResponse_new 405 method_not_allowed))"

text \<open>The pieces of the answer to a successful claim; each \<open>write!\<close> stops on its own.\<close>

definition claim_body :: "bytes \<Rightarrow> DeviceNames option \<Rightarrow> chars" where
  \<open>claim_body token names =
     (let body = fst (heap_write LAN_HTTP_BODY_MAX_LEN []
            [chars_of ''{"token":"'', map unat (write_hex token), chars_of ''","api":"v1"'']);
          body = (case names of
             None \<Rightarrow> body
           | Some names \<Rightarrow> fst (heap_write LAN_HTTP_BODY_MAX_LEN body
               [chars_of '',"deviceId":"'', (case from_utf8 (dn_device_id names) of Some text \<Rightarrow> text | None \<Rightarrow> []),
                chars_of ''","hostname":"'', dn_hostname names, chars_of ''"'']))
      in heap_push LAN_HTTP_BODY_MAX_LEN body (chars_of ''}''))\<close>

text \<open>What remains of \<open>claim_pairing\<close> once the claim is admitted.\<close>

definition grant_token :: "HttpRequest \<Rightarrow> NetHttpState \<Rightarrow> NetHttpState \<times> HttpResponse" where
  "grant_token rq s =
     (case ns_token s of
        Some token \<Rightarrow> (s, HttpResponse_json 200 (claim_body token (ns_device_names s)))
      | None \<Rightarrow>
          (s\<lparr>ns_token := Some (rq_entropy rq), ns_token_dirty := True\<rparr>,
           HttpResponse_json 200 (claim_body (rq_entropy rq) (ns_device_names s))))"

definition claim_pairing :: "HttpEnv \<Rightarrow> HttpRequest \<Rightarrow> NetHttpState \<Rightarrow> NetHttpState \<times> HttpResponse" where
  "claim_pairing env rq s =
     (case ns_pairing_mode s of
        Required \<Rightarrow>
          (case env_claim_code env (rq_body rq) of
             None \<Rightarrow> (s, access_error_response PairingCodeInvalid)
           | Some code \<Rightarrow>
               (case claim (ns_pairing s) (utf8 code) of
                  (w, Inl e) \<Rightarrow> (s\<lparr>ns_pairing := w\<rparr>, access_error_response e)
                | (w, Inr ()) \<Rightarrow> grant_token rq (s\<lparr>ns_pairing := w\<rparr>)))
      | Optional \<Rightarrow> grant_token rq s
      | Unavailable \<Rightarrow> (s, access_error_response PairingUnavailable))"

definition lan_command :: "HttpRequest \<Rightarrow> LanEndpoint \<Rightarrow> bytes option \<Rightarrow> ControlMailboxCommand" where
  "lan_command rq endpoint who =
     \<lparr>cmd_request_id = 0, cmd_response_slot = 0, cmd_origin = LanOrigin, cmd_endpoint = endpoint,
      cmd_method = rq_method rq, cmd_lease_id = who, cmd_expected_revision = rq_expected_revision rq,
      cmd_after_sample = rq_after_sample rq, cmd_after_sequence = rq_after_sequence rq, cmd_body = rq_body rq\<rparr>"

text \<open>The end of \<open>dispatch_gate\<close>, once the lease of a write is known.\<close>

definition dispatch_command :: "HttpRequest \<Rightarrow> LanEndpoint \<Rightarrow> bytes option \<Rightarrow> HttpGate" where
  "dispatch_command rq endpoint who =
     (if is_control_write (rq_method rq) endpoint \<and> rq_expected_revision rq = None
      then Respond (HttpResponse_new 428 revision_required)
      else Dispatch (lan_command rq endpoint who) None)"

definition dispatch_gate :: "HttpEnv \<Rightarrow> u64 \<Rightarrow> HttpRequest \<Rightarrow> NetHttpState \<Rightarrow> NetHttpState \<times> HttpGate" where
  "dispatch_gate env now rq s =
     (case endpoint_for_path (rq_path rq) of
        None \<Rightarrow> (s, Respond (HttpResponse_new 404 unknown_path))
      | Some endpoint \<Rightarrow>
          if \<not> endpoint_allows_method endpoint (rq_method rq) then (s, Respond (HttpResponse_new 405 method_not_allowed))
          else if endpoint = Health then (s, Respond (public_health_response env s))
          else if endpoint = Pairing \<and> rq_method rq = Get then (s, Respond (pairing_metadata_response s))
          else if endpoint = PairingClaim \<and> rq_method rq = Post then map_prod id Respond (claim_pairing env rq s)
          else if \<not> authorized s (rq_authorization rq) then (s, Respond (HttpResponse_new 401 bearer_required))
          else if endpoint = LeaseEndpoint then map_prod id Respond (lease_route now rq s)
          else if is_write (rq_method rq) then
            (case http_require_lease now (rq_lease_id rq) s of
               (s, Inr who) \<Rightarrow> (s, dispatch_command rq endpoint (Some who))
             | (s, Inl _) \<Rightarrow> (s, Respond (HttpResponse_new 409 write_lease_required)))
          else (s, dispatch_command rq endpoint None))"

definition gate :: "HttpEnv \<Rightarrow> u64 \<Rightarrow> HttpRequest \<Rightarrow> NetHttpState \<Rightarrow> NetHttpState \<times> HttpGate" where
  "gate env now rq s =
     (if rq_method rq = Options then (s, Respond (with_cors (rq_origin rq) (preflight_response rq)))
      else case dispatch_gate env now rq s of
        (s, Respond r) \<Rightarrow> (s, Respond (with_cors (rq_origin rq) r))
      | (s, Dispatch c _) \<Rightarrow> (s, Dispatch c (cors_origin (rq_origin rq))))"

text \<open>\<open>handle\<close> submits the command; the mailbox is its state and what \<open>submit\<close> does to it.\<close>

definition handle_request ::
  "HttpEnv \<Rightarrow> ('m \<Rightarrow> ControlMailboxCommand \<Rightarrow> 'm \<times> (ControlMailboxError + chars)) \<Rightarrow> u64 \<Rightarrow> HttpRequest
    \<Rightarrow> NetHttpState \<Rightarrow> 'm \<Rightarrow> NetHttpState \<times> 'm \<times> HttpResponse" where
  "handle_request env submit now rq s mailbox =
     (case gate env now rq s of
        (s, Respond r) \<Rightarrow> (s, mailbox, r)
      | (s, Dispatch c origin) \<Rightarrow>
          (case submit mailbox c of
             (mailbox, Inr body) \<Rightarrow> (s, mailbox, (HttpResponse_json 200 body)\<lparr>rs_allow_origin := origin\<rparr>)
           | (mailbox, Inl MailboxBusy) \<Rightarrow>
               (s, mailbox, (HttpResponse_new 503 control_busy)\<lparr>rs_allow_origin := origin\<rparr>)))"

section \<open>The light path of reads\<close>

definition light_error_response :: "chars option \<Rightarrow> u16 \<Rightarrow> chars \<Rightarrow> LightHttpResponse" where
  "light_error_response origin status message =
     \<lparr>lr_status = status, lr_allow_origin = cors_origin origin, lr_allow_private_network = False,
      lr_body = heap_push LAN_HTTP_LIGHT_BODY_MAX_LEN [] message\<rparr>"

definition light_preflight :: "HttpRequest \<Rightarrow> LightHttpResponse" where
  "light_preflight rq =
     (let policy = private_network_preflight (rq_origin rq) (rq_private_network rq)
      in if \<not> allow_origin policy then light_error_response (rq_origin rq) 403 origin_not_allowed
         else \<lparr>lr_status = 204, lr_allow_origin = cors_origin (rq_origin rq),
               lr_allow_private_network = allow_private_network policy, lr_body = []\<rparr>)"

definition light_health_response :: "HttpEnv \<Rightarrow> NetHttpState \<Rightarrow> HttpRequest \<Rightarrow> LightHttpResponse" where
  "light_health_response env s rq =
     \<lparr>lr_status = 200, lr_allow_origin = cors_origin (rq_origin rq), lr_allow_private_network = False,
      lr_body = write_public_health env s LAN_HTTP_LIGHT_BODY_MAX_LEN\<rparr>"

definition light_pairing_response :: "NetHttpState \<Rightarrow> HttpRequest \<Rightarrow> LightHttpResponse" where
  "light_pairing_response s rq =
     \<lparr>lr_status = 200, lr_allow_origin = cors_origin (rq_origin rq), lr_allow_private_network = False,
      lr_body = write_pairing_metadata s LAN_HTTP_LIGHT_BODY_MAX_LEN\<rparr>"

definition gate_light_read :: "HttpEnv \<Rightarrow> HttpRequest \<Rightarrow> NetHttpState \<Rightarrow> HttpReadGate" where
  "gate_light_read env rq s =
     (if rq_method rq = Options then ReadRespond (light_preflight rq)
      else if rq_method rq \<noteq> Get then ReadDefer
      else case endpoint_for_path (rq_path rq) of
        None \<Rightarrow> ReadDefer
      | Some endpoint \<Rightarrow>
          if endpoint = Health then ReadRespond (light_health_response env s rq)
          else if endpoint = Pairing then ReadRespond (light_pairing_response s rq)
          else if endpoint \<in> {LanEndpoint.Identity, Network} then
            (if authorized s (rq_authorization rq) then ReadSnapshot endpoint (cors_origin (rq_origin rq))
             else ReadRespond (light_error_response (rq_origin rq) 401 bearer_required))
          else ReadDefer)"

section \<open>The response headers\<close>

fun status_line :: "nat \<Rightarrow> chars" where
  "status_line n =
     (if n = 200 then chars_of ''200 OK''
      else if n = 204 then chars_of ''204 No Content''
      else if n = 400 then chars_of ''400 Bad Request''
      else if n = 401 then chars_of ''401 Unauthorized''
      else if n = 403 then chars_of ''403 Forbidden''
      else if n = 404 then chars_of ''404 Not Found''
      else if n = 405 then chars_of ''405 Method Not Allowed''
      else if n = 409 then chars_of ''409 Conflict''
      else if n = 428 then chars_of ''428 Precondition Required''
      else if n = 429 then chars_of ''429 Too Many Requests''
      else if n = 503 then chars_of ''503 Service Unavailable''
      else if n = 504 then chars_of ''504 Gateway Timeout''
      else chars_of ''500 Internal Server Error'')"

declare status_line.simps [simp del]

text \<open>A \<open>write!\<close> or \<open>push_str\<close> whose result is expected to be \<open>Ok\<close>.\<close>

definition header_write :: "chars list \<Rightarrow> chars \<Rightarrow> chars rust" where
  "header_write ps s = (case heap_write HTTP_RESPONSE_HEADER_MAX_LEN s ps of (s, ok) \<Rightarrow> if ok then Ret s else Panic)"

definition header_base :: "u16 \<Rightarrow> nat \<Rightarrow> chars \<Rightarrow> chars list" where
  "header_base status body_len content_type =
     [chars_of ''HTTP/1.1 '', status_line (unat status), CRLF @ chars_of ''Content-Type: '', content_type,
      CRLF @ chars_of ''Content-Length: '', decimal body_len,
      CRLF @ chars_of ''Connection: close'' @ CRLF
        @ chars_of ''Access-Control-Allow-Headers: Authorization, Content-Type, X-Flux-Purr-Lease, X-Flux-Purr-Revision'' @ CRLF
        @ chars_of ''Access-Control-Expose-Headers: X-Flux-Purr-Revision'' @ CRLF
        @ chars_of ''Access-Control-Allow-Methods: GET, POST, PUT, DELETE, OPTIONS'' @ CRLF]"

definition format_http_response_headers ::
  "u16 \<Rightarrow> nat \<Rightarrow> chars option \<Rightarrow> bool \<Rightarrow> u32 option \<Rightarrow> chars \<Rightarrow> chars rust" where
  "format_http_response_headers status body_len origin private_network revision content_type =
     rbind (header_write (header_base status body_len content_type) []) (\<lambda>h.
     rbind (case revision of None \<Rightarrow> Ret h
       | Some r \<Rightarrow> header_write [chars_of ''X-Flux-Purr-Revision: '', decimal (unat r), CRLF] h) (\<lambda>h.
     rbind (if content_type = chars_of ''text/event-stream''
       then header_write [chars_of ''Cache-Control: no-cache'' @ CRLF] h else Ret h) (\<lambda>h.
     rbind (case origin of None \<Rightarrow> Ret h
       | Some o' \<Rightarrow> header_write [chars_of ''Access-Control-Allow-Origin: '', o', CRLF @ chars_of ''Vary: Origin'' @ CRLF] h) (\<lambda>h.
     rbind (if private_network
       then header_write [chars_of ''Access-Control-Allow-Private-Network: true'' @ CRLF] h else Ret h) (\<lambda>h.
     header_write [CRLF] h)))))"

end
