(* ===== verification/Net_Http_Safety.thy ===== *)
theory Net_Http_Safety
  imports Net_Http
begin

text \<open>
  What the request gate guarantees: only authorised commands reach the control mailbox, the token does not leak to a
  client that does not know it, a granted claim yields a working credential, the light path of reads answers
  like the full gate, and no response overflows its header buffer.
\<close>

section \<open>Bounded strings\<close>

lemma utf8_append [simp]: "utf8 (s @ t) = utf8 s @ utf8 t" and utf8_Nil [simp]: "utf8 [] = []"
  by (simp_all add: utf8_def)

lemma utf8_Cons: "utf8 (c # s) = utf8_char c @ utf8 s"
  by (simp add: utf8_def)

lemma heap_push_length: "length (utf8 s) \<le> cap \<Longrightarrow> length (utf8 (heap_push cap s t)) \<le> cap"
  by (simp add: heap_push_def)

lemma heap_push_fits: "length (utf8 s) + length (utf8 t) \<le> cap \<Longrightarrow> heap_push cap s t = s @ t"
  by (simp add: heap_push_def)

lemma heap_write_length: "length (utf8 s) \<le> cap \<Longrightarrow> length (utf8 (fst (heap_write cap s ps))) \<le> cap"
  by (induction ps arbitrary: s) auto

lemma heap_write_fits:
  "length (utf8 s) + length (utf8 (concat ps)) \<le> cap \<Longrightarrow> heap_write cap s ps = (s @ concat ps, True)"
  by (induction ps arbitrary: s) auto

text \<open>ASCII text takes a byte for each character.\<close>

definition ascii :: "chars \<Rightarrow> bool" where
  "ascii s \<longleftrightarrow> (\<forall>c\<in>set s. c < 128)"

lemma utf8_ascii: "ascii s \<Longrightarrow> utf8 s = map of_nat s"
  by (induction s) (auto simp: ascii_def utf8_Cons utf8_char_def)

lemma ascii_length: "ascii s \<Longrightarrow> length (utf8 s) = length s"
  by (simp add: utf8_ascii)

lemma ascii_append [simp]: "ascii (s @ t) \<longleftrightarrow> ascii s \<and> ascii t" and ascii_Nil [simp]: "ascii []"
  by (auto simp: ascii_def)

lemma ascii_decimal: "ascii (decimal n)"
  by (induction n rule: decimal.induct) (subst decimal.simps, auto simp: ascii_def)

lemma length_decimal: "n < 10 ^ k \<Longrightarrow> 0 < k \<Longrightarrow> length (decimal n) \<le> k"
proof (induction k arbitrary: n)
  case (Suc k)
  show ?case
  proof (cases "n < 10")
    case False
    then have "0 < k" using Suc.prems(1) by (cases k) auto
    moreover have "n div 10 < 10 ^ k" using Suc.prems(1) by (simp add: less_mult_imp_div_less mult.commute)
    ultimately show ?thesis using Suc.IH False by (subst decimal.simps) simp
  qed (subst decimal.simps, simp)
qed simp

lemma ascii_hex: "ascii (map unat (write_hex token))"
proof -
  have "unat (hex_digit n) < 128" if "n < 16" for n
  proof (rule small_u8_cases [OF that])
    fix k :: nat assume "k < 16"
    moreover have "list_all (\<lambda>k. unat (hex_digit (of_nat k)) < 128) [0..<16]" by code_simp
    ultimately show "unat (hex_digit (of_nat k)) < 128" by (auto simp: list_all_iff)
  qed
  then show ?thesis
    by (auto simp: ascii_def write_hex_concat format_02x_def high_nibble_less low_nibble_less)
qed

lemma utf8_hex: "utf8 (map unat (write_hex token)) = write_hex token"
  by (simp add: utf8_ascii ascii_hex comp_def)

section \<open>Only authorised commands are dispatched\<close>

lemma require_lease_held:
  "require_lease st now who = (st', Inr ()) \<Longrightarrow> held st now = Some who \<and> held st' now = Some who"
  by (auto simp: require_lease_def expire_def held_def Let_def split: option.splits if_splits)

lemma http_require_lease_Inr:
  assumes "http_require_lease now v s = (s', Inr who)"
  shows "Option.bind v parse_lease_id = Some who \<and> held (ns_leases s) now = Some who
    \<and> held (ns_leases s') now = Some who \<and> s' = s\<lparr>ns_leases := ns_leases s'\<rparr>"
  using assms require_lease_held
  by (auto simp: http_require_lease_def split: option.splits prod.splits sum.splits unit.splits)

lemma authorized_iff:
  "authorized s header \<longleftrightarrow> (\<exists>token bearer. ns_token s = Some token \<and> header = Some (chars_of ''Bearer '' @ bearer)
     \<and> matches_bearer token (utf8 bearer))"
  by (cases "ns_token s"; cases header)
    (auto simp: authorized_def strip_prefix_def starts_with_iff split: option.splits)

lemma respond_no_dispatch [simp]: "map_prod id Respond x \<noteq> (s, Dispatch c origin)"
  by (cases x) simp

lemma dispatch_gate_Dispatch:
  assumes "dispatch_gate env now rq s = (s', Dispatch c origin)"
  obtains endpoint where "endpoint_for_path (rq_path rq) = Some endpoint" "endpoint_allows_method endpoint (rq_method rq)"
    "endpoint \<noteq> Health" "endpoint \<noteq> Pairing" "endpoint \<noteq> PairingClaim" "endpoint \<noteq> LeaseEndpoint"
    "authorized s (rq_authorization rq)"
proof (cases "endpoint_for_path (rq_path rq)")
  case None
  then show thesis using assms by (simp add: dispatch_gate_def)
next
  case (Some endpoint)
  have "endpoint_allows_method endpoint (rq_method rq)" "endpoint \<noteq> Health" "endpoint \<noteq> Pairing" "endpoint \<noteq> PairingClaim"
    "endpoint \<noteq> LeaseEndpoint" "authorized s (rq_authorization rq)"
    using assms Some unfolding dispatch_gate_def by (force split: if_split_asm)+
  then show thesis using Some that by blast
qed

text \<open>
  \<^bold>\<open>Only authorised commands reach the mailbox (C9).\<close> A request the gate dispatches named a route that is not
  public with a method it allows, and carried a bearer credential that matches the token. The command is the
  request's own. If it is a write, it carries the lease that its client holds at that time and a revision;
  the gate changes nothing but the leases.
\<close>

theorem only_authorised_commands_are_dispatched:
  assumes "gate env now rq s = (s', Dispatch c origin)"
  shows "\<exists>endpoint token bearer. endpoint_for_path (rq_path rq) = Some endpoint \<and> permission endpoint \<noteq> Public
    \<and> endpoint_allows_method endpoint (rq_method rq) \<and> endpoint \<noteq> LeaseEndpoint
    \<and> ns_token s = Some token \<and> rq_authorization rq = Some (chars_of ''Bearer '' @ bearer)
    \<and> matches_bearer token (utf8 bearer) \<and> c = lan_command rq endpoint (cmd_lease_id c)
    \<and> (if is_write (rq_method rq)
       then \<exists>who. Option.bind (rq_lease_id rq) parse_lease_id = Some who \<and> cmd_lease_id c = Some who
              \<and> held (ns_leases s) now = Some who \<and> held (ns_leases s') now = Some who
              \<and> rq_expected_revision rq \<noteq> None
       else cmd_lease_id c = None)
    \<and> s' = s\<lparr>ns_leases := ns_leases s'\<rparr>"
proof -
  obtain o' where d: "dispatch_gate env now rq s = (s', Dispatch c o')"
    using assms by (auto simp: gate_def split: if_splits prod.splits HttpGate.splits)
  obtain endpoint where e: "endpoint_for_path (rq_path rq) = Some endpoint" "endpoint_allows_method endpoint (rq_method rq)"
    "endpoint \<noteq> Health" "endpoint \<noteq> Pairing" "endpoint \<noteq> PairingClaim" "endpoint \<noteq> LeaseEndpoint" "authorized s (rq_authorization rq)"
    by (rule dispatch_gate_Dispatch [OF d])
  have p: "permission endpoint \<noteq> Public" using e(3-5) by (cases endpoint) auto
  have rest: "(if is_write (rq_method rq) then \<exists>who. http_require_lease now (rq_lease_id rq) s = (s', Inr who)
      \<and> dispatch_command rq endpoint (Some who) = Dispatch c o' else s' = s \<and> dispatch_command rq endpoint None = Dispatch c o')"
    using d e by (auto simp: dispatch_gate_def split: prod.splits sum.splits if_splits)
  obtain token bearer where b: "ns_token s = Some token" "rq_authorization rq = Some (chars_of ''Bearer '' @ bearer)"
    "matches_bearer token (utf8 bearer)" using e(7) by (auto simp: authorized_iff)
  have cmd: "c = lan_command rq endpoint who \<and> (is_write (rq_method rq) \<longrightarrow> rq_expected_revision rq \<noteq> None)"
    if "dispatch_command rq endpoint who = Dispatch c o'" for who
    using that e(5,6) by (auto simp: dispatch_command_def is_control_write_def split: if_splits)
  have who: "cmd_lease_id (lan_command rq endpoint who) = who" for who by (simp add: lan_command_def)
  have "c = lan_command rq endpoint (cmd_lease_id c) \<and> s' = s\<lparr>ns_leases := ns_leases s'\<rparr> \<and> (if is_write (rq_method rq)
       then \<exists>who. Option.bind (rq_lease_id rq) parse_lease_id = Some who \<and> cmd_lease_id c = Some who
              \<and> held (ns_leases s) now = Some who \<and> held (ns_leases s') now = Some who \<and> rq_expected_revision rq \<noteq> None
       else cmd_lease_id c = None)"
  proof (cases "is_write (rq_method rq)")
    case True
    then obtain w where w: "http_require_lease now (rq_lease_id rq) s = (s', Inr w)"
      "dispatch_command rq endpoint (Some w) = Dispatch c o'" using rest by auto
    show ?thesis using cmd [OF w(2)] http_require_lease_Inr [OF w(1)] who True by simp
  next
    case False
    then have "s' = s" "dispatch_command rq endpoint None = Dispatch c o'" using rest by auto
    then show ?thesis using False cmd [of None] who [of None] by simp
  qed
  then show ?thesis using e(1,2,6) p b by blast
qed

text \<open>A paired device: the token of 32 bytes 1, and a lease of the client of twelve bytes 2.\<close>

definition bench_http :: NetHttpState where
  "bench_http = (NetHttpState_new (Some (replicate 32 1)))
     \<lparr>ns_leases := \<lparr>lease = Some \<lparr>lease_id = replicate 12 2, expires_at_ms = 30000\<rparr>\<rparr>\<rparr>"

definition bench_env :: HttpEnv where
  "bench_env = \<lparr>env_claim_code = Some,
     env_firmware_default = \<lparr>id_device_id = [], id_firmware_version = chars_of ''1.0'', id_hostname = []\<rparr>\<rparr>"

definition bench_write :: HttpRequest where
  "bench_write =
     \<lparr>rq_method = Put, rq_path = chars_of ''/api/v1/runtime'', rq_origin = None,
      rq_authorization = Some (chars_of ''Bearer '' @ map unat (write_hex (replicate 32 1))),
      rq_lease_id = Some (concat (replicate 12 (chars_of ''02''))), rq_expected_revision = Some 7, rq_after_sample = None,
      rq_after_sequence = None, rq_private_network = False, rq_body = [], rq_entropy = replicate 32 9\<rparr>"

lemma bench_write_dispatched:
  "gate bench_env 1000 bench_write bench_http = (bench_http, Dispatch (lan_command bench_write Runtime (Some (replicate 12 2))) None)"
  by code_simp

theorem only_authorised_commands_are_dispatched_witness:
  "\<exists>bearer. rq_authorization bench_write = Some (chars_of ''Bearer '' @ bearer)
    \<and> matches_bearer (replicate 32 1) (utf8 bearer) \<and> held (ns_leases bench_http) 1000 = Some (replicate 12 2)"
  using only_authorised_commands_are_dispatched [OF bench_write_dispatched]
  by (auto simp: bench_http_def NetHttpState_new_def held_def)

section \<open>The token does not leak\<close>

text \<open>A request that pairs: an admissible claim.\<close>

definition granted_claim :: "HttpEnv \<Rightarrow> HttpRequest \<Rightarrow> NetHttpState \<Rightarrow> bool" where
  "granted_claim env rq s \<longleftrightarrow> rq_method rq = Post \<and> endpoint_for_path (rq_path rq) = Some PairingClaim
     \<and> (ns_pairing_mode s = Optional \<or> ns_pairing_mode s = Required
        \<and> (\<exists>code. env_claim_code env (rq_body rq) = Some code \<and> snd (claim (ns_pairing s) (utf8 code)) = Inr ()))"

definition with_token :: "bytes \<Rightarrow> NetHttpState \<Rightarrow> NetHttpState" where
  "with_token token s = s\<lparr>ns_token := Some token\<rparr>"

definition knows :: "bytes \<Rightarrow> HttpRequest \<Rightarrow> bool" where
  "knows token rq \<longleftrightarrow> (\<exists>bearer. rq_authorization rq = Some (chars_of ''Bearer '' @ bearer) \<and> matches_bearer token (utf8 bearer))"

lemma authorized_with_token [simp]: "authorized (with_token t s) (rq_authorization rq) = knows t rq"
  by (simp add: authorized_iff with_token_def knows_def)

text \<open>The window is shut: the pairing page is not shown, and the device is not exempt from codes.\<close>

definition pairing_shut :: "NetHttpState \<Rightarrow> bool" where
  "pairing_shut s \<longleftrightarrow> ns_pairing_mode s \<noteq> Optional \<and> \<not> pairing_is_active (ns_pairing s)"

text \<open>The answer to a request without the token, and what becomes of the pairing window.\<close>

lemma claim_refused:
  assumes "\<not> granted_claim env rq s" "rq_method rq = Post" "endpoint_for_path (rq_path rq) = Some PairingClaim"
  shows "\<exists>r w. (pairing_shut s \<longrightarrow> w = ns_pairing s) \<and> (\<forall>t. claim_pairing env rq (with_token t s) = (with_token t (s\<lparr>ns_pairing := w\<rparr>), r))"
proof (cases "ns_pairing_mode s = Required \<and> env_claim_code env (rq_body rq) \<noteq> None")
  case True
  then obtain code where code: "env_claim_code env (rq_body rq) = Some code" by auto
  obtain w e where "claim (ns_pairing s) (utf8 code) = (w, Inl e)"
    using assms True code by (cases "claim (ns_pairing s) (utf8 code)"; cases "snd (claim (ns_pairing s) (utf8 code))")
      (auto simp: granted_claim_def)
  moreover from this have "pairing_shut s \<longrightarrow> w = ns_pairing s"
    by (auto simp: pairing_shut_def pairing_is_active_def claim_def)
  ultimately show ?thesis using True code
    by (intro exI [of _ w] exI [of _ "access_error_response e"]) (simp add: claim_pairing_def with_token_def)
next
  case False
  then show ?thesis using assms
    by (intro exI [of _ "ns_pairing s"] exI [of _ "access_error_response
        (if ns_pairing_mode s = Required then PairingCodeInvalid else PairingUnavailable)"])
      (auto simp: claim_pairing_def with_token_def granted_claim_def split: LanPairingMode.splits option.splits)
qed

lemma gate_without_token:
  assumes "\<not> granted_claim env rq s"
  shows "\<exists>r w. (pairing_shut s \<longrightarrow> w = ns_pairing s)
    \<and> (\<forall>t. \<not> knows t rq \<longrightarrow> gate env now rq (with_token t s) = (with_token t (s\<lparr>ns_pairing := w\<rparr>), Respond r))"
proof (cases "rq_method rq = Post \<and> endpoint_for_path (rq_path rq) = Some PairingClaim")
  case True
  then obtain r w where "pairing_shut s \<longrightarrow> w = ns_pairing s" "\<And>t. claim_pairing env rq (with_token t s) = (with_token t (s\<lparr>ns_pairing := w\<rparr>), r)"
    using claim_refused [OF assms] by blast
  then show ?thesis using True by (intro exI [of _ w] exI [of _ "with_cors (rq_origin rq) r"]) (simp add: gate_def dispatch_gate_def)
next
  case other: False
  have same: "with_token t (s\<lparr>ns_pairing := ns_pairing s\<rparr>) = with_token t s" for t by simp
  have "\<exists>r. \<forall>t. \<not> knows t rq \<longrightarrow> gate env now rq (with_token t s) = (with_token t s, Respond r)"
  proof (cases "rq_method rq = Options")
    case False
    have public: "public_health_response env (with_token t s) = public_health_response env s"
      "pairing_metadata_response (with_token t s) = pairing_metadata_response s" for t
      by (simp_all add: public_health_response_def write_public_health_def public_health_pieces_def with_token_def
          attempts_remaining_def pairing_metadata_response_def write_pairing_metadata_def pairing_metadata_pieces_def)
    define r where "r = (case endpoint_for_path (rq_path rq) of
        None \<Rightarrow> HttpResponse_new 404 unknown_path
      | Some endpoint \<Rightarrow>
          if \<not> endpoint_allows_method endpoint (rq_method rq) then HttpResponse_new 405 method_not_allowed
          else if endpoint = Health then public_health_response env s
          else if endpoint = Pairing then pairing_metadata_response s
          else HttpResponse_new 401 bearer_required)"
    have "dispatch_gate env now rq (with_token t s) = (with_token t s, Respond r)" if "\<not> knows t rq" for t
    proof (cases "endpoint_for_path (rq_path rq)")
      case (Some endpoint)
      then show ?thesis using other that by (cases endpoint) (auto simp: dispatch_gate_def r_def public)
    qed (simp add: dispatch_gate_def r_def)
    then show ?thesis using False by (intro exI [of _ "with_cors (rq_origin rq) r"]) (simp add: gate_def)
  qed (simp add: gate_def)
  then show ?thesis using same by metis
qed

fun gate_run :: "HttpEnv \<Rightarrow> (u64 \<times> HttpRequest) list \<Rightarrow> NetHttpState \<Rightarrow> NetHttpState \<times> HttpGate list" where
  "gate_run env [] s = (s, [])"
| "gate_run env ((now, rq) # rqs) s =
     (case gate env now rq s of (s, g) \<Rightarrow> (case gate_run env rqs s of (s, gs) \<Rightarrow> (s, g # gs)))"

text \<open>
  \<^bold>\<open>Who does not know the token learns nothing (C10).\<close> While the pairing page is not shown and the device asks for
  codes, any sequence of requests whose credentials match neither of two tokens is answered, request by request, in
  the same way by the device that holds the one token and by the device that holds the other; all are answered by the
  gate itself, and token, window and leases stay as they were.
\<close>

theorem token_does_not_leak:
  assumes "pairing_shut s" "\<forall>(now, rq)\<in>set rqs. \<not> knows t rq \<and> \<not> knows u rq"
  shows "snd (gate_run env rqs (with_token t s)) = snd (gate_run env rqs (with_token u s))
    \<and> fst (gate_run env rqs (with_token t s)) = with_token t s
    \<and> (\<forall>g\<in>set (snd (gate_run env rqs (with_token t s))). \<exists>r. g = Respond r)"
proof -
  have granted: "\<not> granted_claim env rq s" for rq
    using assms(1) by (auto simp: granted_claim_def pairing_shut_def pairing_is_active_def claim_def)
  have same: "s\<lparr>ns_pairing := ns_pairing s\<rparr> = s" by simp
  have step: "\<exists>r. \<forall>t. \<not> knows t rq \<longrightarrow> gate env now rq (with_token t s) = (with_token t s, Respond r)" for now rq
    using gate_without_token [OF granted, of rq now] assms(1) same by metis
  show ?thesis using assms(2)
  proof (induction rqs)
    case (Cons p rqs)
    obtain now rq where p: "p = (now, rq)" by fastforce
    obtain r where r: "\<And>t. \<not> knows t rq \<Longrightarrow> gate env now rq (with_token t s) = (with_token t s, Respond r)"
      using step by blast
    have "gate env now rq (with_token t s) = (with_token t s, Respond r)" "gate env now rq (with_token u s) = (with_token u s, Respond r)"
      using r Cons.prems p by auto
    then show ?case using Cons p by (auto simp: split_def)
  qed simp
qed

theorem token_does_not_leak_witness:
  "snd (gate_run bench_env [(0, bench_write\<lparr>rq_authorization := None\<rparr>)] (with_token (replicate 32 1) bench_http))
    = snd (gate_run bench_env [(0, bench_write\<lparr>rq_authorization := None\<rparr>)] (with_token (replicate 32 3) bench_http))"
  using token_does_not_leak [of bench_http "[(0, bench_write\<lparr>rq_authorization := None\<rparr>)]" "replicate 32 1" "replicate 32 3" bench_env]
  by (simp add: knows_def pairing_shut_def bench_http_def NetHttpState_new_def PairingWindow_inactive_def pairing_is_active_def)

section \<open>A granted claim yields the credential\<close>

lemma matches_own_hex: "length t = 32 \<Longrightarrow> matches_bearer t (write_hex t)"
  by (simp add: matches_bearer_iff hex_byte_or_invalid_valid [OF hex_byte_write_hex])

lemma heap_write_prefix: "\<exists>r. fst (heap_write cap s ps) = s @ r"
proof (induction ps arbitrary: s)
  case (Cons p ps)
  obtain r where "fst (heap_write cap (s @ p) ps) = (s @ p) @ r" using Cons.IH by blast
  then show ?case by simp
qed simp

lemma heap_push_prefix: "\<exists>r. heap_push cap s t = s @ r"
  by (simp add: heap_push_def)

lemma ascii_chars_of: "ascii (chars_of s) \<longleftrightarrow> list_all (\<lambda>c. of_char c < (128 :: nat)) s"
  by (auto simp: ascii_def chars_of_def list_all_iff)

lemma length_chars_of: "length (chars_of s) = length s"
  by (simp add: chars_of_def)

definition token_field :: "bytes \<Rightarrow> chars" where
  \<open>token_field t = chars_of ''{"token":"'' @ map unat (write_hex t) @ chars_of ''","api":"v1"''\<close>

lemma claim_body_token:
  assumes "length t = 32"
  shows "\<exists>r. claim_body t names = token_field t @ r"
proof -
  have len: "length (utf8 (token_field t)) = 86"
    using assms by (simp add: token_field_def utf8_hex utf8_ascii ascii_chars_of length_chars_of)
  have first: \<open>heap_write (6 * 1024) [] [chars_of ''{"token":"'', map unat (write_hex t), chars_of ''","api":"v1"''] = (token_field t, True)\<close>
    using len by (subst heap_write_fits) (simp_all add: token_field_def)
  show ?thesis
  proof (cases names)
    case None
    have "claim_body t names = heap_push (6 * 1024) (token_field t) (chars_of ''}'')"
      unfolding claim_body_def None Let_def LAN_HTTP_BODY_MAX_LEN_def option.case first fst_conv ..
    then show ?thesis using heap_push_prefix by metis
  next
    case (Some n)
    obtain q where q: \<open>fst (heap_write (6 * 1024) (token_field t)
        [chars_of '',"deviceId":"'', (case from_utf8 (dn_device_id n) of Some text \<Rightarrow> text | None \<Rightarrow> []), chars_of ''","hostname":"'', dn_hostname n, chars_of ''"''])
      = token_field t @ q\<close> using heap_write_prefix by blast
    have "claim_body t names = heap_push (6 * 1024) (token_field t @ q) (chars_of ''}'')"
      unfolding claim_body_def Some Let_def LAN_HTTP_BODY_MAX_LEN_def option.case first fst_conv q ..
    then show ?thesis using heap_push_prefix [of "6 * 1024" "token_field t @ q" "chars_of ''}''"] by auto
  qed
qed

text \<open>A client can present the lease it was given.\<close>

lemma nibble_is_hex_nibble: "nibble b = hex_nibble b"
  by (simp add: nibble_def hex_nibble_def)

lemma those_map_Some: "(\<And>x. x \<in> set xs \<Longrightarrow> f x = Some (g x)) \<Longrightarrow> those (map f xs) = Some (map g xs)"
  by (induction xs) simp_all

lemma lease_id_roundtrip:
  assumes "length who = 12"
  shows "parse_lease_id (map unat (write_hex who)) = Some who"
proof -
  have "those (map (\<lambda>index. hex_byte (write_hex who) index) [0..<12]) = Some (map (\<lambda>i. who ! i) [0..<12])"
    using assms by (intro those_map_Some) (simp add: hex_byte_write_hex)
  moreover have "map (\<lambda>i. who ! i) [0..<12] = who" using assms by (metis map_nth)
  ultimately show ?thesis using assms
    by (simp add: parse_lease_id_def utf8_hex nibble_is_hex_nibble hex_byte_def [abs_def] Let_def)
qed

text \<open>
  \<^bold>\<open>Pairing works (C21).\<close> A client that submits the shown code while the window is open and unlocked receives the
  token in hexadecimal, the one the device has or else a new one from the entropy of the request, which the device
  then keeps and marks to be stored; with it as bearer the client is authorised from then on.
\<close>

theorem granted_claim_yields_the_credential:
  assumes "rq_method rq = Post" "rq_path rq = chars_of ''/api/v1/pairing/claim''" "ns_pairing_mode s = Required"
    "env_claim_code env (rq_body rq) = Some code" "pairing_code (ns_pairing s) = Some (utf8 code)"
    "failed_attempts (ns_pairing s) < 5" "length (rq_entropy rq) = 32" "\<forall>t. ns_token s = Some t \<longrightarrow> length t = 32"
  shows "\<exists>s' r token rest. gate env now rq s = (s', Respond r) \<and> rs_status r = 200
    \<and> rs_body r = token_field token @ rest
    \<and> token = (case ns_token s of Some t \<Rightarrow> t | None \<Rightarrow> rq_entropy rq) \<and> ns_token s' = Some token
    \<and> (ns_token_dirty s' \<longleftrightarrow> ns_token_dirty s \<or> ns_token s = None)
    \<and> authorized s' (Some (chars_of ''Bearer '' @ map unat (write_hex token)))"
proof -
  define token where "token = (case ns_token s of Some t \<Rightarrow> t | None \<Rightarrow> rq_entropy rq)"
  have len: "length token = 32" using assms(7,8) by (auto simp: token_def split: option.splits)
  obtain rest where rest: "claim_body token (ns_device_names s) = token_field token @ rest"
    using claim_body_token [OF len] by blast
  have path: "endpoint_for_path (rq_path rq) = Some PairingClaim"
    unfolding assms(2) by code_simp
  have same: "s\<lparr>ns_pairing := ns_pairing s\<rparr> = s" by simp
  have "claim (ns_pairing s) (utf8 code) = (ns_pairing s, Inr ())" using assms(5,6) by (simp add: claim_def)
  then have "claim_pairing env rq s = grant_token rq s" using assms(3,4) same by (simp add: claim_pairing_def split: unit.splits)
  then have g: "gate env now rq s = (fst (grant_token rq s), Respond (with_cors (rq_origin rq) (snd (grant_token rq s))))"
    using assms(1) path by (simp add: gate_def dispatch_gate_def map_prod_def split_def)
  have t: "ns_token (fst (grant_token rq s)) = Some token" by (simp add: grant_token_def token_def split: option.splits)
  have "authorized (fst (grant_token rq s)) (Some (chars_of ''Bearer '' @ map unat (write_hex token)))"
    using t matches_own_hex [OF len] by (simp add: authorized_iff utf8_hex)
  moreover have "rs_status (with_cors (rq_origin rq) (snd (grant_token rq s))) = 200"
    "rs_body (with_cors (rq_origin rq) (snd (grant_token rq s))) = token_field token @ rest"
    "ns_token_dirty (fst (grant_token rq s)) \<longleftrightarrow> ns_token_dirty s \<or> ns_token s = None"
    using rest by (auto simp: grant_token_def token_def with_cors_def HttpResponse_json_def split: option.splits)
  ultimately show ?thesis using g t
    by (intro exI [of _ "fst (grant_token rq s)"] exI [of _ "with_cors (rq_origin rq) (snd (grant_token rq s))"]
        exI [of _ token] exI [of _ rest]) (simp add: token_def)
qed

definition bench_claim :: HttpRequest where
  "bench_claim = bench_write\<lparr>rq_method := Post, rq_path := chars_of ''/api/v1/pairing/claim'', rq_authorization := None,
     rq_body := chars_of ''1234'', rq_entropy := replicate 32 9\<rparr>"

definition bench_open :: NetHttpState where
  "bench_open = fst (pairing_code_from_random 1234 (NetHttpState_new None))"

lemma bench_open_code: "pairing_code (ns_pairing bench_open) = Some (utf8 (chars_of ''1234''))"
  "ns_token bench_open = None" "ns_pairing_mode bench_open = Required" "failed_attempts (ns_pairing bench_open) = 0"
  by (code_simp)+

theorem granted_claim_yields_the_credential_witness:
  "\<exists>s' r rest. gate bench_env 0 bench_claim bench_open = (s', Respond r) \<and> rs_status r = 200
     \<and> rs_body r = token_field (replicate 32 9) @ rest \<and> ns_token s' = Some (replicate 32 9) \<and> ns_token_dirty s'"
proof -
  have e: "env_claim_code bench_env = Some" by (simp add: bench_env_def)
  have c: "rq_method bench_claim = Post" "rq_path bench_claim = chars_of ''/api/v1/pairing/claim''"
    "rq_body bench_claim = chars_of ''1234''" "rq_entropy bench_claim = replicate 32 9"
    by (simp_all add: bench_claim_def)
  show ?thesis
    using granted_claim_yields_the_credential [of bench_claim bench_open bench_env "chars_of ''1234''" 0]
    by (auto simp: e c bench_open_code)
qed

section \<open>The light path answers like the gate\<close>

definition identity_bounded :: "Identity \<Rightarrow> bool" where
  "identity_bounded d \<longleftrightarrow> length (utf8 (id_device_id d)) \<le> DEVICE_ID_MAX_LEN \<and> length (utf8 (id_hostname d)) \<le> HOSTNAME_MAX_LEN
     \<and> length (utf8 (id_firmware_version d)) \<le> 32"

definition full_response :: "LightHttpResponse \<Rightarrow> HttpResponse" where
  "full_response r =
     \<lparr>rs_status = lr_status r, rs_allow_origin = lr_allow_origin r, rs_allow_private_network = lr_allow_private_network r,
      rs_control_revision = None, rs_body = lr_body r\<rparr>"

lemma heap_push_fold_length:
  "length (utf8 s) \<le> cap \<Longrightarrow> length (utf8 (fold (\<lambda>c s. heap_push cap s [c]) cs s)) \<le> cap"
  by (induction cs arbitrary: s) (auto simp: heap_push_length)

lemma firmware_from_mac_bounded: "identity_bounded d \<Longrightarrow> identity_bounded (firmware_from_mac d mac)"
  by (simp add: identity_bounded_def firmware_from_mac_def Let_def heap_push_fold_length heap_push_length)

lemma show_bool_length: "length (utf8 (show_bool b)) \<le> 5"
  by (cases b) (simp_all add: show_bool_def utf8_ascii ascii_chars_of length_chars_of)

lemma mode_length: "length (utf8 (chars_of (LanPairingMode_as_wire m))) \<le> 11"
  by (cases m) (simp_all add: utf8_ascii ascii_chars_of length_chars_of)

lemma decimal_utf8_length: "n < 10 ^ k \<Longrightarrow> 0 < k \<Longrightarrow> length (utf8 (decimal n)) \<le> k"
  by (simp add: ascii_length ascii_decimal length_decimal)

lemma attempts_length: "length (utf8 (decimal (unat (attempts_remaining s)))) \<le> 3"
  using unsigned_less [of "attempts_remaining s", where ?'a = nat] by (intro decimal_utf8_length) auto

lemma public_health_fits:
  assumes "identity_bounded (env_firmware_default env)" "512 \<le> cap"
  shows "write_public_health env s cap = concat (public_health_pieces env s)"
proof -
  define d where "d = (case ns_device_names s of
      Some names \<Rightarrow> identity_from_device_names (env_firmware_default env) names | None \<Rightarrow> env_firmware_default env)"
  have d: "identity_bounded d"
    using assms(1) firmware_from_mac_bounded by (auto simp: d_def identity_from_device_names_def split: option.splits)
  have "length (utf8 (concat (public_health_pieces env s))) \<le> 512"
    using d show_bool_length [of "pairing_is_active (ns_pairing s)"] mode_length [of "ns_pairing_mode s"] attempts_length [of s]
    unfolding public_health_pieces_def d_def [symmetric] Let_def
    by (simp add: identity_bounded_def utf8_ascii [of "chars_of _"] ascii_chars_of length_chars_of)
  then show ?thesis using assms(2) by (simp add: write_public_health_def heap_write_fits)
qed

lemma pairing_metadata_fits:
  assumes "512 \<le> cap"
  shows "write_pairing_metadata s cap = concat (pairing_metadata_pieces s)"
proof -
  have "length (utf8 (concat (pairing_metadata_pieces s))) \<le> 512"
    using show_bool_length [of "ns_pairing_mode s = Required \<and> pairing_is_active (ns_pairing s)"]
      mode_length [of "ns_pairing_mode s"] attempts_length [of s]
    unfolding pairing_metadata_pieces_def
    by (simp add: utf8_ascii [of "chars_of _"] ascii_chars_of length_chars_of)
  then show ?thesis using assms by (simp add: write_pairing_metadata_def heap_write_fits)
qed

lemma light_error_agrees:
  assumes "length (utf8 message) \<le> 512"
  shows "full_response (light_error_response origin status message) = with_cors origin (HttpResponse_new status message)"
  using assms by (simp add: full_response_def light_error_response_def with_cors_def HttpResponse_new_def HttpResponse_json_def heap_push_def)

lemma light_preflight_agrees: "full_response (light_preflight rq) = with_cors (rq_origin rq) (preflight_response rq)"
proof -
  have "length (utf8 origin_not_allowed) \<le> 512"
    by (simp add: origin_not_allowed_def utf8_ascii ascii_chars_of length_chars_of)
  then show ?thesis
    by (simp add: light_preflight_def preflight_response_def Let_def light_error_agrees)
      (simp add: full_response_def with_cors_def HttpResponse_new_def HttpResponse_json_def heap_push_def)
qed

text \<open>
  \<^bold>\<open>The light path agrees with the gate (C23).\<close> The concurrent path for small reads gives the answer the gate
  gives to the same request, or passes to the snapshot a request the gate dispatches; the state does not change.
\<close>

theorem light_path_agrees:
  assumes "identity_bounded (env_firmware_default env)"
  shows "case gate_light_read env rq s of
      ReadRespond r \<Rightarrow> gate env now rq s = (s, Respond (full_response r))
    | ReadSnapshot endpoint origin \<Rightarrow> gate env now rq s = (s, Dispatch (lan_command rq endpoint None) origin)
    | ReadDefer \<Rightarrow> True"
proof (cases "rq_method rq")
  case Options
  then show ?thesis by (simp add: gate_light_read_def gate_def light_preflight_agrees)
next
  case Get
  have health: "full_response (light_health_response env s rq) = with_cors (rq_origin rq) (public_health_response env s)"
    using assms by (simp add: full_response_def light_health_response_def with_cors_def public_health_response_def
        HttpResponse_json_def public_health_fits)
  have pairing: "full_response (light_pairing_response s rq) = with_cors (rq_origin rq) (pairing_metadata_response s)"
    by (simp add: full_response_def light_pairing_response_def with_cors_def pairing_metadata_response_def
        HttpResponse_json_def pairing_metadata_fits)
  have bearer: "length (utf8 bearer_required) \<le> 512"
    by (simp add: bearer_required_def utf8_ascii ascii_chars_of length_chars_of)
  show ?thesis
  proof (cases "endpoint_for_path (rq_path rq)")
    case (Some endpoint)
    then show ?thesis using Get
      by (cases endpoint) (simp_all add: gate_light_read_def gate_def dispatch_gate_def health pairing light_error_agrees bearer
          is_write_def dispatch_command_def is_control_write_def)
  qed (simp add: gate_light_read_def Get)
qed (simp_all add: gate_light_read_def)

theorem light_path_agrees_witness:
  "case gate_light_read bench_env (bench_write\<lparr>rq_method := Get, rq_path := chars_of ''/api/v1/identity''\<rparr>) bench_http of
      ReadRespond r \<Rightarrow> gate bench_env 5 (bench_write\<lparr>rq_method := Get, rq_path := chars_of ''/api/v1/identity''\<rparr>) bench_http
        = (bench_http, Respond (full_response r))
    | ReadSnapshot endpoint origin \<Rightarrow> gate bench_env 5 (bench_write\<lparr>rq_method := Get, rq_path := chars_of ''/api/v1/identity''\<rparr>)
        bench_http = (bench_http,
          Dispatch (lan_command (bench_write\<lparr>rq_method := Get, rq_path := chars_of ''/api/v1/identity''\<rparr>) endpoint None) origin)
    | ReadDefer \<Rightarrow> True"
  by (rule light_path_agrees) (simp add: identity_bounded_def bench_env_def utf8_ascii ascii_chars_of length_chars_of)

section \<open>The response headers fit their buffer\<close>

lemma header_write_fits:
  "length (utf8 s) + length (utf8 (concat ps)) \<le> 640 \<Longrightarrow> header_write ps s = Ret (s @ concat ps)"
  by (simp add: header_write_def heap_write_fits)

lemma CRLF_length: "length (utf8 CRLF) = 2"
  by (simp add: CRLF_def utf8_Cons utf8_char_def)

lemmas text_length = utf8_ascii [of "chars_of _"] ascii_chars_of length_chars_of CRLF_length

lemma status_line_length: "length (utf8 (status_line n)) \<le> 25"
  by (subst status_line.simps) (simp add: text_length)

text \<open>What is sent for each of the optional headers.\<close>

definition revision_header :: "u32 option \<Rightarrow> chars" where
  "revision_header revision =
     (case revision of None \<Rightarrow> [] | Some r \<Rightarrow> chars_of ''X-Flux-Purr-Revision: '' @ decimal (unat r) @ CRLF)"

definition cache_header :: "chars \<Rightarrow> chars" where
  "cache_header content_type =
     (if content_type = chars_of ''text/event-stream'' then chars_of ''Cache-Control: no-cache'' @ CRLF else [])"

definition origin_header :: "chars option \<Rightarrow> chars" where
  "origin_header origin = (case origin of None \<Rightarrow> []
     | Some o' \<Rightarrow> chars_of ''Access-Control-Allow-Origin: '' @ o' @ CRLF @ chars_of ''Vary: Origin'' @ CRLF)"

definition private_network_header :: "bool \<Rightarrow> chars" where
  "private_network_header b = (if b then chars_of ''Access-Control-Allow-Private-Network: true'' @ CRLF else [])"

definition response_headers :: "u16 \<Rightarrow> nat \<Rightarrow> chars option \<Rightarrow> bool \<Rightarrow> u32 option \<Rightarrow> chars \<Rightarrow> chars" where
  "response_headers status body_len origin private_network revision content_type =
     concat (header_base status body_len content_type) @ revision_header revision @ cache_header content_type
       @ origin_header origin @ private_network_header private_network @ CRLF"

lemma revision_header_length: "length (utf8 (revision_header r)) \<le> 34"
proof (cases r)
  case (Some v)
  have "length (utf8 (decimal (unat v))) \<le> 10"
    using unsigned_less [of v, where ?'a = nat] by (intro decimal_utf8_length) auto
  then show ?thesis by (simp add: Some revision_header_def text_length)
qed (simp add: revision_header_def)

lemma cache_header_length: "length (utf8 (cache_header t)) \<le> 25"
  by (simp add: cache_header_def text_length)

lemma origin_header_length:
  "(\<And>sent. origin = Some sent \<Longrightarrow> length (utf8 sent) \<le> 128) \<Longrightarrow> length (utf8 (origin_header origin)) \<le> 173"
  by (cases origin) (simp_all add: origin_header_def text_length)

lemma private_network_header_length: "length (utf8 (private_network_header b)) \<le> 44"
  by (simp add: private_network_header_def text_length)

lemma header_base_length:
  assumes "length (utf8 content_type) \<le> 17" "body_len < 2 ^ 32"
  shows "length (utf8 (concat (header_base status body_len content_type))) \<le> 332"
proof -
  have "length (utf8 (decimal body_len)) \<le> 10" using assms(2) by (intro decimal_utf8_length) auto
  then show ?thesis
    using status_line_length [of "unat status"] assms(1)
    by (simp add: header_base_def text_length)
qed

text \<open>
  \<^bold>\<open>The headers fit (C25).\<close> For the two content types the server sends, an admitted origin of at most 128 bytes,
  every revision and every length of a body below four gigabytes, no \<open>expect\<close> of the formatter fails: the headers are
  the expected text, complete to the empty line, within the 640 bytes of their buffer.
\<close>

theorem response_headers_fit:
  assumes "content_type \<in> {chars_of ''application/json'', chars_of ''text/event-stream''}" "body_len < 2 ^ 32"
    "\<forall>sent. origin = Some sent \<longrightarrow> length (utf8 sent) \<le> 128"
  shows "format_http_response_headers status body_len origin private_network revision content_type
      = Ret (response_headers status body_len origin private_network revision content_type)
    \<and> length (utf8 (response_headers status body_len origin private_network revision content_type)) \<le> HTTP_RESPONSE_HEADER_MAX_LEN"
proof -
  let ?b = "concat (header_base status body_len content_type)"
  have type: "length (utf8 content_type) \<le> 17" using assms(1) by (auto simp: text_length)
  have b: "length (utf8 ?b) \<le> 332" by (rule header_base_length [OF type assms(2)])
  have o': "length (utf8 (origin_header origin)) \<le> 173" using assms(3) by (intro origin_header_length) blast
  note lens = b revision_header_length [of revision] cache_header_length [of content_type] o'
    private_network_header_length [of private_network] CRLF_length
  have r: "(case revision of None \<Rightarrow> Ret h | Some r \<Rightarrow> header_write [chars_of ''X-Flux-Purr-Revision: '', decimal (unat r), CRLF] h)
      = Ret (h @ revision_header revision)"
    if "length (utf8 h) + length (utf8 (revision_header revision)) \<le> 640" for h
    using that by (cases revision) (simp_all add: revision_header_def header_write_fits)
  have c: "(if content_type = chars_of ''text/event-stream'' then header_write [chars_of ''Cache-Control: no-cache'' @ CRLF] h else Ret h)
      = Ret (h @ cache_header content_type)"
    if "length (utf8 h) + length (utf8 (cache_header content_type)) \<le> 640" for h
    using that by (cases "content_type = chars_of ''text/event-stream''") (simp_all add: cache_header_def header_write_fits)
  have a: "(case origin of None \<Rightarrow> Ret h
      | Some o' \<Rightarrow> header_write [chars_of ''Access-Control-Allow-Origin: '', o', CRLF @ chars_of ''Vary: Origin'' @ CRLF] h)
      = Ret (h @ origin_header origin)"
    if "length (utf8 h) + length (utf8 (origin_header origin)) \<le> 640" for h
    using that by (cases origin) (simp_all add: origin_header_def header_write_fits)
  have p: "(if private_network then header_write [chars_of ''Access-Control-Allow-Private-Network: true'' @ CRLF] h else Ret h)
      = Ret (h @ private_network_header private_network)"
    if "length (utf8 h) + length (utf8 (private_network_header private_network)) \<le> 640" for h
    using that by (cases private_network) (simp_all add: private_network_header_def header_write_fits)
  have "header_write (header_base status body_len content_type) [] = Ret ?b" using b by (simp add: header_write_fits)
  then show ?thesis
    using lens unfolding format_http_response_headers_def response_headers_def
    by (simp add: r c a p header_write_fits)
qed

theorem response_headers_fit_witness:
  "format_http_response_headers 200 512 (Some (chars_of ''http://localhost'')) True (Some 7) (chars_of ''application/json'')
    = Ret (response_headers 200 512 (Some (chars_of ''http://localhost'')) True (Some 7) (chars_of ''application/json''))"
  by (rule conjunct1 [OF response_headers_fit]) (simp_all add: text_length)

section \<open>One identity for every channel\<close>

lemma fold_heap_push_fits:
  "ascii cs \<Longrightarrow> length (utf8 s) + length cs \<le> cap \<Longrightarrow> fold (\<lambda>c s. heap_push cap s [c]) cs s = s @ cs"
  by (induction cs arbitrary: s) (simp_all add: heap_push_fits ascii_def utf8_Cons utf8_char_def)

lemma byte_to_hex_ascii: "ascii (map unat (byte_to_hex b))"
proof -
  have "list_all (\<lambda>k. map of_nat (chars_of ''0123456789abcdef'') ! k < (128 :: u8)) [0..<16]" by code_simp
  then have digit: "map of_nat (chars_of ''0123456789abcdef'') ! k < (128 :: u8)" if "k < 16" for k
    using that by (simp add: list_all_iff)
  have "unat (drop_bit 4 b) < 16" "unat (b AND 15) < 16"
    using high_nibble_less [of b] low_nibble_less [of b] by (simp_all add: word_less_nat_alt)
  then show ?thesis
    using digit by (auto simp: ascii_def byte_to_hex_def Let_def word_less_nat_alt)
qed

lemma identity_agrees_with_names:
  assumes "length mac = 6"
  shows "id_device_id (identity_from_device_names d (device_names_from_mac mac)) = map unat (dn_device_id (device_names_from_mac mac))
    \<and> id_hostname (identity_from_device_names d (device_names_from_mac mac)) = dn_hostname (device_names_from_mac mac)"
proof -
  define digits where "digits = concat (map (\<lambda>b. map unat (byte_to_hex b)) mac)"
  have "length (byte_to_hex b) = 2" for b by (simp add: byte_to_hex_def Let_def)
  then have len: "length digits = 12"
    using assms by (simp add: digits_def length_concat comp_def sum_list_triv)
  have ascii: "ascii digits" using byte_to_hex_ascii by (auto simp: digits_def ascii_def)
  have prefix: "length (utf8 (chars_of ''flux-purr-'')) = 10" by (simp add: text_length)
  have encoded: "map unat (concat (map byte_to_hex mac)) = digits" by (simp add: digits_def map_concat comp_def)
  have hostname: "fold (\<lambda>c s. heap_push 32 s [unat c]) (concat (map byte_to_hex mac)) s = fold (\<lambda>c s. heap_push 32 s [c]) digits s" for s
    by (simp add: encoded [symmetric] fold_map comp_def)
  have "fold (\<lambda>c s. heap_push cap s [c]) digits (chars_of ''flux-purr-'') = chars_of ''flux-purr-'' @ digits" if "22 \<le> cap" for cap
    using that len ascii prefix by (intro fold_heap_push_fits) simp_all
  moreover have "fold (\<lambda>c s. heap_push 48 s [c]) digits [] = digits"
    using len ascii by (simp add: fold_heap_push_fits)
  moreover have "heap_push cap [] (chars_of ''flux-purr-'') = chars_of ''flux-purr-''" if "10 \<le> cap" for cap
    using that prefix by (simp add: heap_push_fits)
  ultimately show ?thesis
    by (simp add: identity_from_device_names_def device_names_from_mac_def firmware_from_mac_def Let_def
        hostname encoded digits_def [symmetric])
qed

end
