(* ===== verification/Spec2Isabelle.thy ===== *)
theory Spec2Isabelle
  imports Prelude Pd_Contracts Fusb302b_Policy Ch224q Pd_Sink_Core Fan_Contract Fan_Cycle Wifi_State
    Lan Status_Light Heater_Supply Heater_Codec Buzzer Buzzer_Test Power_State Power_Coordinator
    Power_Tickets Power_Properties Front_Panel_Input Front_Panel_Ui Watchdog
    Thermal_Profile Calibration Calibration_Codec Memory_Config Persist_Record Persist_Laws Eeprom_Store
    Eeprom_Laws Eeprom_Commit Eeprom_Snapshot Eeprom_Safety
    Eeprom_Theorems Heater_Scan Heater_Scan_Safety Heater_Scan_Theorems
    Net_Http Net_Http_Safety
begin

text \<open>
  A verification library for the Flux Purr firmware.

  Flux Purr is a USB-PD powered hotplate on an ESP32-S3. The firmware under
  \<open>src/firmware\<close> negotiates a supply contract with the USB-C source, decides how much of it the
  heater may draw, drives fan and status light, and serves a control plane over USB and the local
  network. The logic of these decisions is host-independent Rust; registers, GPIO, sockets and
  tasks call it. The library models that logic at its machine widths and proves what callers rely on.

  \<^bold>\<open>Parts and theories.\<close>
    \<^item> \<open>Prelude\<close>: \<open>u8\<close> \dots \<open>u64\<close> as words, saturating arithmetic, little-endian bytes, bit packing,
      the iterator adaptors of the source, panics as the value \<open>Panic\<close> of the type \<open>'a rust\<close>, and the interfaces (locales)
      \<open>strict_preference\<close>, \<open>key_order\<close> (a keep-the-best loop finds a best element) and
      \<open>invariant_machine\<close> (a machine whose steps keep an invariant).
    \<^item> \<open>Pd_Contracts\<close> is \<open>adapters/pd.rs\<close>: what a source advertises, what the
      policy may request, and every selector. The lemmas show that each selector answers with an
      advertised contract inside the caller's envelope, and that it refuses only when there is none.
    \<^item> \<open>Fusb302b_Policy\<close> is the sink policy of \<open>adapters/fusb302b.rs\<close>: contract phases,
      message identifiers, the idle descent, request objects. The invariant ties the phase to the pending and
      installed contracts; only \<open>PS_RDY\<close> installs one, no reachable call panics, and the
      idle descent ends in the standby contract.
    \<^item> \<open>Ch224q\<close> is \<open>adapters/ch224q.rs\<close>, the register payloads of the second PD chip
      and the summary it makes of the source.
    \<^item> \<open>Pd_Sink_Core\<close> is \<open>pd-sink-core/src/pd.rs\<close>, the decoder and exact selector shared
      by the diagnostic RAM images, and \<open>Fan_Contract\<close> is \<open>ram-fan-pd/src/policy.rs\<close>, the
      fan image's choice among the decoded offers.
    \<^item> \<open>Heater_Supply\<close> and \<open>Heater_Codec\<close> are \<open>heater_supply.rs\<close>: the calibrated supply
      boundary, the lookup that authorises a heater request, the cold start, the sag guard, the
      equilibrium window, and the persistent encoding with its round trip.
    \<^item> \<open>Heater_Scan\<close> is \<open>heater_supply_scan.rs\<close>, the machine that measures such a boundary: it requests contracts,
      heats, watches the input voltage and retains what it saw. \<open>Heater_Scan_Safety\<close> carries one invariant through all
      its phases; \<open>Heater_Scan_Theorems\<close> concludes that no run panics, that every request stays in the range or in
      the power of the source, that every point retained is valid for the lookup of \<open>Heater_Supply\<close>, and that a sag
      lowers the request. The samples are those of the calibration job of \<open>bin/flux_purr/control_plane.rs\<close>.
    \<^item> \<open>Wifi_State\<close> is \<open>wifi_state.rs\<close>, the provisioning machine with deadlines and retries.
    \<^item> \<open>Lan\<close> is \<open>lan.rs\<close>: tokens, the pairing window, the exclusive control lease as a
      refinement of an ownership function of time, endpoints and origins.
  \<^item> \<open>Net_Http\<close> is \<open>net_http.rs\<close>, the gate that every HTTP request passes before a command enters the control mailbox:
    \<open>gate\<close>, \<open>gate_light_read\<close>, the responses and their headers, as text of a bounded capacity.
    \<open>Net_Http_Safety\<close> shows that only requests with the token, and writes with the lease and a revision, are
    dispatched, that whoever does not know the token learns nothing about it, that a granted claim yields a credential that
    works, that the light path answers like the gate, and that the headers fit their buffer. The JSON reader of a claim and
    the identity of the build come in a record \<open>HttpEnv\<close>.
    \<^item> \<open>Fan_Cycle\<close> is the fan cycle and mock status of \<open>lib.rs\<close> with the modes of \<open>fan_policy.rs\<close>;
      \<open>Status_Light\<close> is \<open>status_light.rs\<close>.
    \<^item> \<open>Power_State\<close>, \<open>Power_Coordinator\<close>, \<open>Power_Tickets\<close> and \<open>Power_Properties\<close> are
      \<open>bin/flux_purr/power_domain.rs\<close>: the published power state, and the coordinator that serialises the
      power requests of several owners to the PD service. Clients, coordinator and service
      interleave as steps of an inductive relation, one per atomic access; a ledger of tickets proves that none is lost,
      that cancellation never hits a wanted command, that only stronger intents displace others, and that an idle
      command always gets through.
    \<^item> \<open>Buzzer\<close> is \<open>buzzer.rs\<close>, the player and the arbiter of cues under the safety states;
      \<open>Buzzer_Test\<close> is \<open>buzzer_test.rs\<close>, the diagnostic session, with the commands and the
      round of the buzzer task of \<open>tasks.rs\<close>.
    \<^item> \<open>Front_Panel_Input\<close> and \<open>Front_Panel_Ui\<close> are \<open>frontpanel/mod.rs\<close>: debouncing and gesture
      recognition, and the pages with what every gesture does on them.
    \<^item> \<open>Watchdog\<close> is the feed gate of \<open>bin/flux_purr/watchdog.rs\<close>.
    \<^item> \<open>Thermal_Profile\<close>, \<open>Calibration\<close>, \<open>Calibration_Codec\<close>, \<open>Memory_Config\<close> and \<open>Persist_Record\<close>
      are \<open>memory.rs\<close>: what the device remembers, how it is cleaned, cut into six domains, and encoded as
      a record with a header, tagged fields and a CRC-32. \<open>Persist_Laws\<close> proves the round trip of every storable
      record and that no burst of four bytes passes the checksum, the latter from the linearity of the CRC.
    \<^item> \<open>Eeprom_Store\<close> and \<open>Eeprom_Commit\<close> are \<open>bin/flux_purr/eeprom.rs\<close>: transfers and record slots, and
      the commit of changed domains between two layout markers, the restore at boot, the migration and the recovery.
    \<^item> \<open>Eeprom_Laws\<close>, \<open>Eeprom_Snapshot\<close>, \<open>Eeprom_Safety\<close> and \<open>Eeprom_Theorems\<close> prove the
      store against power loss: each write leaves a prefix of its bytes, a commit leaves some first writes and a part of
      the next, and the next boot restores the old or the new configuration. The interface \<open>record_slots\<close>
      (a record put is read back, other slots keep theirs) is proved for the memory and carries the
      commit. Two theorems show where the slot protocol does not protect: a skipped domain, and a single-slot domain.

  \<^bold>\<open>Correspondence.\<close> A Rust struct is a record, an enum a datatype, an \<open>Option\<close> an option, a
  fixed-capacity \<open>heapless::Vec\<close> a list whose capacity the pushing code checks, and \<open>u16\<close> arithmetic is
  word arithmetic. Methods on \<open>&mut self\<close> return the updated record. Where the source can panic
  (\<open>expect\<close>, an index, a checked overflow), the model returns \<open>Panic\<close>, and a theorem shows where it does not.
  Definitions keep the names of the source; prefixes or suffixes separate names that two files share.

  The EEPROM is its 8192 bytes and the list of outcomes of the bus transfers to come: a transfer succeeds, or fails
  after some of its bytes, and when the list is empty it succeeds. A power loss is a failure after which
  nothing more is written, so a claim over all lists covers it.

  \<^bold>\<open>Loops and bounds.\<close> Every loop is a structural recursion over the sequence the
  source iterates, with these exceptions: the catch-up loop of the fan cycle has a termination proof by the
  remaining uptime; the transfers \<open>read_chunks\<close>, \<open>write_chunks\<close>, \<open>verify_chunks\<close> and the field loop
  \<open>for_each_fpr2_tlv\<close> have one by the bytes left; and the scenario loop of the buzzer diagnostics has fuel 4, enough because a scenario has three
  actions; that it returns from every reachable state is a theorem. Capacities (seven objects of an advertisement, 41 boundary
  points, six result slots, ten key events) are those of the source. Signed temperatures are integers
  with the saturation of \<open>i16\<close> written out.

  \<^bold>\<open>Not modelled.\<close> Register and bus transactions, task scheduling, sockets and rendering (\<open>boot.rs\<close>,
  \<open>runtime_loop.rs\<close>, most of \<open>tasks.rs\<close>, \<open>net.rs\<close>, \<open>display\<close>, \<open>frontpanel/render.rs\<close>, the \<open>main.rs\<close> of the
  RAM images) are I/O; the floating-point estimators and tuners (\<open>thermal_*.rs\<close>) rest on rounding that the
  library has no theory for; the JSON protocol (\<open>control_plane.rs\<close>) is derived by
  serde; the host tools and the web client are other programs. Of \<open>memory.rs\<close> the codec of the legacy FPM1
  records and the fitted projections, which are floating-point, are left out; of \<open>eeprom.rs\<close> the maintenance session of the serial port
  and the heater arithmetic that shares the file. The PD service around the sink
  policy (\<open>pd_service.rs\<close>) and the fan control of the binary (\<open>bin/flux_purr/fan.rs\<close>) are not modelled either.
\<close>

end
